(* ===== verification/Prelude.thy ===== *)
theory Prelude
  imports Main "HOL-Library.Word" "HOL-Library.Sublist"
begin

text \<open>
  Shared vocabulary of the development: the names of the machine types the Go sources use,
  bit strings written most significant bit first (the form in which CIDR prefixes and trie
  paths are compared), and the generic facts on lists, words and sums that the component
  theories rely on.
\<close>

unbundle bit_operations_syntax

subsection \<open>Names of the Go types\<close>

type_synonym byte = "8 word"
type_synonym uint32 = "32 word"
type_synonym uint64 = "64 word"
type_synonym bits = "bool list"

text \<open>Facts about the Go \<open>net\<close> package on IPv4 values.\<close>
named_theorems net_simps

text \<open>Facts that evaluate the byte-level readers of the wire codec.\<close>
named_theorems wire_simps

subsection \<open>Sum types as results\<close>

abbreviation (input) Err :: "'e \<Rightarrow> 'e + 'a" where "Err \<equiv> Inl"
abbreviation (input) Ok :: "'a \<Rightarrow> 'e + 'a" where "Ok \<equiv> Inr"

fun is_ok :: "'e + 'a \<Rightarrow> bool" where
  "is_ok (Inl e) = False"
| "is_ok (Inr a) = True"

lemma is_ok_iff: "is_ok r \<longleftrightarrow> (\<exists>a. r = Inr a)"
  by (cases r) auto

subsection \<open>Bits, most significant first\<close>

fun bits_val :: "bits \<Rightarrow> nat" where
  "bits_val [] = 0"
| "bits_val (b # bs) = (if b then 2 ^ length bs else 0) + bits_val bs"

lemma bits_val_less: "bits_val bs < 2 ^ length bs"
  by (induction bs) auto

lemma bits_val_append: "bits_val (xs @ ys) = bits_val xs * 2 ^ length ys + bits_val ys"
  by (induction xs) (auto simp: power_add algebra_simps)

lemma bits_val_False [simp]: "bits_val (replicate n False) = 0"
  by (induction n) auto

lemma bits_val_True: "bits_val (replicate n True) = 2 ^ n - 1"
  by (induction n) auto

lemma bits_val_inject:
  "length xs = length ys \<Longrightarrow> bits_val xs = bits_val ys \<longleftrightarrow> xs = ys"
proof (induction xs ys rule: list_induct2)
  case Nil
  then show ?case by simp
next
  case (Cons x xs y ys)
  have "bits_val xs < 2 ^ length xs" "bits_val ys < 2 ^ length xs"
    using bits_val_less [of xs] bits_val_less [of ys] Cons.hyps by auto
  then show ?case using Cons by auto
qed

lemma bits_val_div: "k \<le> length bs \<Longrightarrow> bits_val bs div 2 ^ (length bs - k) = bits_val (take k bs)"
proof -
  assume k: "k \<le> length bs"
  have "bits_val bs = bits_val (take k bs) * 2 ^ length (drop k bs) + bits_val (drop k bs)"
    using bits_val_append [of "take k bs" "drop k bs"] by simp
  moreover have "bits_val (drop k bs) < 2 ^ length (drop k bs)" by (rule bits_val_less)
  ultimately show ?thesis by simp
qed

lemma bits_val_mod: "k \<le> length bs \<Longrightarrow> bits_val bs mod 2 ^ (length bs - k) = bits_val (drop k bs)"
proof -
  assume k: "k \<le> length bs"
  have "bits_val bs = bits_val (take k bs) * 2 ^ length (drop k bs) + bits_val (drop k bs)"
    using bits_val_append [of "take k bs" "drop k bs"] by simp
  moreover have "bits_val (drop k bs) < 2 ^ length (drop k bs)" by (rule bits_val_less)
  ultimately show ?thesis by simp
qed

subsection \<open>The bits of a byte\<close>

definition byte_bits :: "byte \<Rightarrow> bits" where
  "byte_bits b = map (bit b) [7, 6, 5, 4, 3, 2, 1, 0]"

lemma length_byte_bits [simp]: "length (byte_bits b) = 8"
  by (simp add: byte_bits_def)

lemma byte_bits_nth: "i < 8 \<Longrightarrow> byte_bits b ! i = bit b (7 - i)"
  by (auto simp: byte_bits_def less_Suc_eq numeral_eq_Suc)

lemma byte_eqI: "(\<And>n. n < 8 \<Longrightarrow> bit (a :: byte) n = bit b n) \<Longrightarrow> a = b"
  by (rule bit_word_eqI) simp

lemma byte_bits_inject [simp]: "byte_bits a = byte_bits b \<longleftrightarrow> a = b"
proof
  assume "byte_bits a = byte_bits b"
  then have "bit a n = bit b n" if "n < 8" for n
    using that byte_bits_nth [of "7 - n" a] byte_bits_nth [of "7 - n" b] by simp
  then show "a = b" by (rule byte_eqI)
qed simp

lemma byte_bits_and: "byte_bits (a AND b) = map2 (\<and>) (byte_bits a) (byte_bits b)"
  by (simp add: byte_bits_def bit_and_iff)

lemma byte_bits_or: "byte_bits (a OR b) = map2 (\<or>) (byte_bits a) (byte_bits b)"
  by (simp add: byte_bits_def bit_or_iff)

lemma unat_byte_bits: "unat b = bits_val (byte_bits b)"
proof -
  have "take_bit 8 (unat b) = (\<Sum>k = 0..<8. push_bit k (of_bool (bit (unat b) k)))"
    by (rule take_bit_sum)
  moreover have "take_bit 8 (unat b) = unat b"
    by (simp add: take_bit_eq_mod unsigned_less [where 'b = 8, simplified])
  ultimately have "unat b = (\<Sum>k = 0..<8. push_bit k (of_bool (bit b k)))"
    by (simp add: bit_unsigned_iff)
  then show ?thesis
    by (simp add: byte_bits_def numeral_eq_Suc push_bit_eq_mult)
qed

subsection \<open>Numbers\<close>

lemma mult_add_div: "h < m \<Longrightarrow> (b * m + h) div m = (b::nat)"
  by simp

subsection \<open>Lists\<close>

lemma map2_and_True: "n \<le> length xs \<Longrightarrow>
    map2 (\<and>) xs (replicate n True @ replicate (length xs - n) False)
    = take n xs @ replicate (length xs - n) False"
  by (rule nth_equalityI) (auto simp: nth_append)

lemma take_pad_eq_iff: "length xs = length ys \<Longrightarrow> n \<le> length xs \<Longrightarrow>
    take n xs @ replicate (length xs - n) False = take n ys @ replicate (length ys - n) False
    \<longleftrightarrow> take n xs = take n ys"
  by simp

lemma length4_conv: "length a = 4 \<longleftrightarrow> (\<exists>a0 a1 a2 a3. a = [a0, a1, a2, a3])"
  by (auto simp: numeral_eq_Suc length_Suc_conv)

lemma concat_map_take: "\<forall>x\<in>set xs. length (f x) = k \<Longrightarrow> length (concat (map f xs)) = k * length xs"
  by (induction xs) auto

end
