(* ===== verification/Net_IP.thy ===== *)
theory Net_IP
  imports Prelude
begin

text \<open>
  The part of Go's standard package \<open>net\<close> that the sources call, on byte slices as Go keeps
  them: \<open>net.IP\<close> and \<open>net.IPMask\<close> are lists of bytes (a nil slice is the empty list),
  \<open>net.IPNet\<close> is a record of an address and a mask. IPv4 addresses may come in the 4-byte
  and in the 16-byte (v4-in-v6) form, and the functions below treat both as Go does.

  The second half relates a canonical IPv4 network to its bit prefix: \<open>net_pfx n bs\<close> says
  that \<open>n\<close> is the network whose first \<open>length bs\<close> bits are \<open>bs\<close>, with the host bits zero
  and the mask that \<open>net.CIDRMask\<close> builds. Membership, containment and disjointness of networks
  become prefix comparisons of bit strings.
\<close>

type_synonym ip = "byte list"
type_synonym ipmask = "byte list"
type_synonym hwaddr = "byte list"

record ipnet =
  net_ip :: ip
  net_mask :: ipmask

subsection \<open>Go's net package\<close>

definition v4InV6Prefix :: "byte list" where
  "v4InV6Prefix = [0, 0, 0, 0, 0, 0, 0, 0, 0, 0, 255, 255]"

text \<open>\<open>IP.To4\<close> and \<open>IP.To16\<close>: nil when the address has no such form.\<close>

definition to4 :: "ip \<Rightarrow> ip" where
  "to4 a = (if length a = 4 then a
            else if length a = 16 \<and> take 12 a = v4InV6Prefix then drop 12 a
            else [])"

definition to16 :: "ip \<Rightarrow> ip" where
  "to16 a = (if length a = 4 then v4InV6Prefix @ a
             else if length a = 16 then a else [])"

text \<open>\<open>IP.Equal\<close> treats an IPv4 address and its IPv6 form as the same address.\<close>

definition ip_equal :: "ip \<Rightarrow> ip \<Rightarrow> bool" where
  "ip_equal a x =
     (if length a = length x then a = x
      else if length a = 4 \<and> length x = 16 then take 12 x = v4InV6Prefix \<and> a = drop 12 x
      else if length a = 16 \<and> length x = 4 then take 12 a = v4InV6Prefix \<and> drop 12 a = x
      else False)"

text \<open>\<open>IPMask.Size\<close>: the leading ones and the width, or \<open>(0, 0)\<close> for a non-canonical mask.\<close>

fun lead_ones :: "nat \<Rightarrow> byte \<Rightarrow> int \<times> byte" where
  "lead_ones 0 v = (0, v)"
| "lead_ones (Suc f) v =
     (if v AND 128 \<noteq> 0 then (case lead_ones f (push_bit 1 v) of (n, w) \<Rightarrow> (n + 1, w)) else (0, v))"

fun simple_mask_length :: "ipmask \<Rightarrow> int" where
  "simple_mask_length [] = 0"
| "simple_mask_length (v # vs) =
     (if v = 255
      then (if simple_mask_length vs = -1 then -1 else 8 + simple_mask_length vs)
      else (case lead_ones 8 v of (n, w) \<Rightarrow>
              if w \<noteq> 0 then -1
              else if list_all (\<lambda>b. b = 0) vs then n else -1))"

definition mask_size :: "ipmask \<Rightarrow> int \<times> int" where
  "mask_size m = (if simple_mask_length m = -1 then (0, 0)
                  else (simple_mask_length m, int (8 * length m)))"

text \<open>\<open>net.CIDRMask\<close>: nil when the width is not 32 or 128 or the ones do not fit.\<close>

fun cidr_bytes :: "nat \<Rightarrow> nat \<Rightarrow> byte list" where
  "cidr_bytes 0 n = []"
| "cidr_bytes (Suc l) n =
     (if n \<ge> 8 then 255 # cidr_bytes l (n - 8) else NOT (drop_bit n 255) # cidr_bytes l 0)"

definition cidr_mask :: "int \<Rightarrow> int \<Rightarrow> ipmask" where
  "cidr_mask ones bits =
     (if bits \<noteq> 32 \<and> bits \<noteq> 128 then []
      else if ones < 0 \<or> ones > bits then []
      else cidr_bytes (nat (bits div 8)) (nat ones))"

text \<open>\<open>IP.Mask\<close>.\<close>

definition mask_ip :: "ip \<Rightarrow> ipmask \<Rightarrow> ip" where
  "mask_ip a m =
     (let m' = (if length m = 16 \<and> length a = 4 \<and> list_all (\<lambda>b. b = 255) (take 12 m)
                then drop 12 m else m);
          a' = (if length m' = 4 \<and> length a = 16 \<and> take 12 a = v4InV6Prefix
                then drop 12 a else a)
      in if length a' \<noteq> length m' then [] else map2 (AND) a' m')"

text \<open>\<open>IPNet.Contains\<close>.\<close>

definition network_number_and_mask :: "ipnet \<Rightarrow> ip \<times> ipmask" where
  "network_number_and_mask n =
     (let a = (if to4 (net_ip n) = [] then net_ip n else to4 (net_ip n)); m = net_mask n
      in if to4 (net_ip n) = [] \<and> length a \<noteq> 16 then ([], [])
         else if length m = 4 then (if length a \<noteq> 4 then ([], []) else (a, m))
         else if length m = 16 then (a, if length a = 4 then drop 12 m else m)
         else ([], []))"

definition contains :: "ipnet \<Rightarrow> ip \<Rightarrow> bool" where
  "contains n a =
     (case network_number_and_mask n of (nn, m) \<Rightarrow>
        let x = (if to4 a \<noteq> [] then to4 a else a)
        in length x = length nn \<and> map2 (AND) nn m = map2 (AND) x m)"

subsection \<open>Addresses as bit strings\<close>

definition ip_bits :: "byte list \<Rightarrow> bits" where
  "ip_bits a = concat (map byte_bits a)"

abbreviation ip_val :: "ip \<Rightarrow> nat" where
  "ip_val a \<equiv> bits_val (ip_bits a)"

lemma ip_bits_simps [simp]: "ip_bits [] = []" "ip_bits (b # bs) = byte_bits b @ ip_bits bs"
  by (simp_all add: ip_bits_def)

lemma length_ip_bits [simp]: "length (ip_bits a) = 8 * length a"
  by (induction a) auto

lemma ip_bits_inject [simp]: "length a = length b \<Longrightarrow> ip_bits a = ip_bits b \<longleftrightarrow> a = b"
  by (induction a b rule: list_induct2) auto

lemma ip_bits_map2_and:
  "length a = length m \<Longrightarrow> ip_bits (map2 (AND) a m) = map2 (\<and>) (ip_bits a) (ip_bits m)"
  by (induction a m rule: list_induct2) (auto simp: byte_bits_and)

lemma ip_val_4: "ip_val [a, b, c, d] = unat a * 2 ^ 24 + unat b * 2 ^ 16 + unat c * 2 ^ 8 + unat d"
  by (simp add: bits_val_append flip: unat_byte_bits)

lemma ip_val_less: "length a = 4 \<Longrightarrow> ip_val a < 2 ^ 32"
  using bits_val_less [of "ip_bits a"] by simp

lemma ip_val_inject: "length a = length b \<Longrightarrow> ip_val a = ip_val b \<longleftrightarrow> a = b"
  by (simp add: bits_val_inject)

lemma to4_4 [simp, net_simps]: "length a = 4 \<Longrightarrow> to4 a = a"
  by (simp add: to4_def)

lemma ip_equal_4 [net_simps]: "length a = 4 \<Longrightarrow> length b = 4 \<Longrightarrow> ip_equal a b \<longleftrightarrow> a = b"
  by (simp add: ip_equal_def)

subsection \<open>CIDR masks\<close>

lemma byte_bits_ones: "n < 8 \<Longrightarrow>
    byte_bits (NOT (drop_bit n 255)) = replicate n True @ replicate (8 - n) False"
proof -
  assume n: "n < 8"
  have "\<forall>n\<in>set [0..<8]. byte_bits (NOT (drop_bit n 255)) = replicate n True @ replicate (8 - n) False"
    by code_simp
  with n show ?thesis by simp
qed

lemma length_cidr_bytes [simp]: "length (cidr_bytes l n) = l"
  by (induction l n rule: cidr_bytes.induct) auto

lemma ip_bits_cidr_bytes: "n \<le> 8 * l \<Longrightarrow>
    ip_bits (cidr_bytes l n) = replicate n True @ replicate (8 * l - n) False"
proof (induction l n rule: cidr_bytes.induct)
  case (1 n)
  then show ?case by simp
next
  case (2 l n)
  show ?case
  proof (cases "n \<ge> 8")
    case True
    have "byte_bits 255 = replicate 8 True" by (simp add: byte_bits_def numeral_eq_Suc)
    moreover have "replicate n True = replicate 8 True @ replicate (n - 8) True"
      using True by (simp flip: replicate_add)
    moreover have "8 * Suc l - n = 8 * l - (n - 8)" using True by simp
    ultimately show ?thesis using 2 True by simp
  next
    case False
    then have "8 * Suc l - n = (8 - n) + 8 * l" by simp
    then have "replicate (8 * Suc l - n) False = replicate (8 - n) False @ replicate (8 * l) False"
      by (simp only: replicate_add)
    then show ?thesis using 2 False by (simp add: byte_bits_ones)
  qed
qed

lemma cidr_mask_32: "k \<le> 32 \<Longrightarrow> cidr_mask (int k) 32 = cidr_bytes 4 k"
  by (simp add: cidr_mask_def)

lemma ip_bits_cidr_mask [net_simps]: "k \<le> 32 \<Longrightarrow>
    ip_bits (cidr_mask (int k) 32) = replicate k True @ replicate (32 - k) False"
  using ip_bits_cidr_bytes [of k 4] by (simp add: cidr_mask_32)

lemma length_cidr_mask [net_simps]: "k \<le> 32 \<Longrightarrow> length (cidr_mask (int k) 32) = 4"
  by (simp add: cidr_mask_32)

lemma mask_size_cidr_mask [net_simps]:
  assumes "k \<le> 32"
  shows "mask_size (cidr_mask (int k) 32) = (int k, 32)"
proof -
  have "\<forall>k\<in>set [0..<33]. mask_size (cidr_bytes 4 k) = (int k, 32)"
    by code_simp
  then have "mask_size (cidr_bytes 4 k) = (int k, 32)"
    using assms by simp
  with assms show ?thesis by (simp add: cidr_mask_32)
qed

subsection \<open>Canonical IPv4 networks and their prefixes\<close>

definition net_pfx :: "ipnet \<Rightarrow> bits \<Rightarrow> bool" where
  "net_pfx n bs \<longleftrightarrow> length bs \<le> 32 \<and> length (net_ip n) = 4 \<and>
     ip_bits (net_ip n) = bs @ replicate (32 - length bs) False \<and>
     net_mask n = cidr_mask (int (length bs)) 32"

lemma net_pfxD:
  assumes "net_pfx n bs"
  shows "length bs \<le> 32" "length (net_ip n) = 4"
    "ip_bits (net_ip n) = bs @ replicate (32 - length bs) False"
    "net_mask n = cidr_mask (int (length bs)) 32"
    "mask_size (net_mask n) = (int (length bs), 32)"
    "length (net_mask n) = 4"
    "ip_bits (net_mask n) = replicate (length bs) True @ replicate (32 - length bs) False"
proof -
  show l: "length bs \<le> 32" and "length (net_ip n) = 4"
    and "ip_bits (net_ip n) = bs @ replicate (32 - length bs) False"
    and m: "net_mask n = cidr_mask (int (length bs)) 32"
    using assms unfolding net_pfx_def by blast+
  show "mask_size (net_mask n) = (int (length bs), 32)"
    unfolding m using l by (rule mask_size_cidr_mask)
  show "length (net_mask n) = 4"
    unfolding m using l by (rule length_cidr_mask)
  show "ip_bits (net_mask n) = replicate (length bs) True @ replicate (32 - length bs) False"
    unfolding m using l by (rule ip_bits_cidr_mask)
qed

lemma net_pfx_unique: "net_pfx n bs \<Longrightarrow> net_pfx n cs \<Longrightarrow> bs = cs"
proof -
  assume a: "net_pfx n bs" "net_pfx n cs"
  have l: "length bs = length cs"
    using net_pfxD(5) [OF a(1)] net_pfxD(5) [OF a(2)] by simp
  have "bs @ replicate (32 - length bs) False = cs @ replicate (32 - length cs) False"
    by (rule trans [OF net_pfxD(3) [OF a(1), symmetric] net_pfxD(3) [OF a(2)]])
  with l show ?thesis by (metis append_eq_append_conv)
qed

lemma net_pfx_inject: "net_pfx n bs \<Longrightarrow> net_pfx m bs \<Longrightarrow> n = m"
proof -
  assume a: "net_pfx n bs" "net_pfx m bs"
  have "net_ip n = net_ip m"
    using net_pfxD(2,3) [OF a(1)] net_pfxD(2,3) [OF a(2)] ip_bits_inject by metis
  moreover have "net_mask n = net_mask m"
    using net_pfxD(4) [OF a(1)] net_pfxD(4) [OF a(2)] by simp
  ultimately show ?thesis by simp
qed

lemma map2_and_eq_iff:
  assumes "length a = 4" "length b = 4" "k \<le> 32"
  shows "map2 (AND) a (cidr_mask (int k) 32) = map2 (AND) b (cidr_mask (int k) 32)
    \<longleftrightarrow> take k (ip_bits a) = take k (ip_bits b)"
proof -
  let ?m = "cidr_mask (int k) 32"
  have l: "length ?m = 4" using assms by (simp add: net_simps)
  have t: "map2 (\<and>) (ip_bits x) (ip_bits ?m) = take k (ip_bits x) @ replicate (32 - k) False"
    if "length x = 4" for x
    using map2_and_True [of k "ip_bits x"] that assms by (simp add: net_simps)
  have "map2 (AND) a ?m = map2 (AND) b ?m
      \<longleftrightarrow> ip_bits (map2 (AND) a ?m) = ip_bits (map2 (AND) b ?m)"
    using assms l by (subst ip_bits_inject) auto
  also have "\<dots> \<longleftrightarrow> take k (ip_bits a) = take k (ip_bits b)"
    using assms l by (simp add: ip_bits_map2_and t)
  finally show ?thesis .
qed

lemma mask_ip_cidr:
  assumes "length a = 4" "k \<le> 32"
  shows "length (mask_ip a (cidr_mask (int k) 32)) = 4"
    and "ip_bits (mask_ip a (cidr_mask (int k) 32)) = take k (ip_bits a) @ replicate (32 - k) False"
proof -
  let ?m = "cidr_mask (int k) 32"
  have e: "mask_ip a ?m = map2 (AND) a ?m" and l: "length ?m = 4"
    using assms by (simp_all add: mask_ip_def net_simps Let_def)
  show "length (mask_ip a ?m) = 4" using assms l by (simp add: e)
  show "ip_bits (mask_ip a ?m) = take k (ip_bits a) @ replicate (32 - k) False"
    using map2_and_True [of k "ip_bits a"] assms l by (simp add: e ip_bits_map2_and net_simps)
qed

lemma mask_ip_own [net_simps]: "net_pfx n bs \<Longrightarrow> mask_ip (net_ip n) (net_mask n) = net_ip n"
proof -
  assume n: "net_pfx n bs"
  note d = net_pfxD [OF n]
  have "ip_bits (mask_ip (net_ip n) (net_mask n)) = ip_bits (net_ip n)"
    using mask_ip_cidr(2) [of "net_ip n" "length bs"] d by simp
  then show ?thesis
    using mask_ip_cidr(1) [OF d(2) d(1)] d(2) ip_bits_inject unfolding d(4) by metis
qed

text \<open>An address belongs to a network exactly when the network's prefix starts its bits.\<close>

lemma contains_prefix: "net_pfx n bs \<Longrightarrow> length a = 4 \<Longrightarrow> contains n a \<longleftrightarrow> prefix bs (ip_bits a)"
proof -
  assume n: "net_pfx n bs" and a: "length a = 4"
  note d = net_pfxD [OF n]
  have nn: "network_number_and_mask n = (net_ip n, net_mask n)"
    using d by (auto simp: network_number_and_mask_def Let_def)
  have "contains n a \<longleftrightarrow> map2 (AND) (net_ip n) (net_mask n) = map2 (AND) a (net_mask n)"
    using a d(2) by (auto simp: contains_def nn Let_def)
  also have "\<dots> \<longleftrightarrow> take (length bs) (ip_bits a) = bs"
    using map2_and_eq_iff [OF d(2) a d(1)] d by auto
  also have "\<dots> \<longleftrightarrow> prefix bs (ip_bits a)"
    by (metis append_eq_conv_conj prefix_def take_is_prefix)
  finally show ?thesis .
qed

lemma contains_4: "net_pfx n bs \<Longrightarrow> contains n a \<Longrightarrow> length (to4 a) = 4"
proof -
  assume n: "net_pfx n bs" and c: "contains n a"
  note d = net_pfxD [OF n]
  have nn: "network_number_and_mask n = (net_ip n, net_mask n)"
    using d by (auto simp: network_number_and_mask_def Let_def)
  show ?thesis
    using c d(2) by (auto simp: contains_def nn Let_def to4_def split: if_splits)
qed

lemma contains_to4: "net_pfx n bs \<Longrightarrow> contains n a \<longleftrightarrow> length (to4 a) = 4 \<and> prefix bs (ip_bits (to4 a))"
proof -
  assume n: "net_pfx n bs"
  have e: "contains n (to4 a) = contains n a" if "length (to4 a) = 4"
    using that by (auto simp: contains_def split: prod.splits)
  show ?thesis
    using contains_4 [OF n, of a] contains_prefix [OF n, of "to4 a"] e by auto
qed

lemma bits_of_len: "length bs = 32 \<Longrightarrow> \<exists>a. length a = 4 \<and> ip_bits a = bs"
proof -
  assume l: "length bs = 32"
  have b: "\<exists>b. byte_bits b = xs" if "length xs = 8" for xs
  proof -
    let ?b = "word_of_nat (bits_val xs) :: byte"
    have "bits_val xs < 256" using bits_val_less [of xs] that by simp
    then have "unat ?b = bits_val xs" by (simp add: unat_of_nat)
    then have "byte_bits ?b = xs"
      using bits_val_inject [of "byte_bits ?b" xs] that by (simp add: unat_byte_bits)
    then show ?thesis ..
  qed
  obtain b0 b1 b2 b3 where
    "byte_bits b0 = take 8 bs" "byte_bits b1 = take 8 (drop 8 bs)"
    "byte_bits b2 = take 8 (drop 16 bs)" "byte_bits b3 = take 8 (drop 24 bs)"
    using b [of "take 8 bs"] b [of "take 8 (drop 8 bs)"] b [of "take 8 (drop 16 bs)"]
      b [of "take 8 (drop 24 bs)"] l by auto
  moreover have "bs = take 8 bs @ take 8 (drop 8 bs) @ take 8 (drop 16 bs) @ take 8 (drop 24 bs)"
  proof -
    have "take 8 (drop 24 bs) = drop 24 bs" using l by simp
    moreover have "drop 16 bs = take 8 (drop 16 bs) @ drop 24 bs"
      using append_take_drop_id [of 8 "drop 16 bs"] by simp
    moreover have "drop 8 bs = take 8 (drop 8 bs) @ drop 16 bs"
      using append_take_drop_id [of 8 "drop 8 bs"] by simp
    ultimately show ?thesis using append_take_drop_id [of 8 bs] by metis
  qed
  ultimately have "length [b0, b1, b2, b3] = 4 \<and> ip_bits [b0, b1, b2, b3] = bs" by simp
  then show ?thesis by blast
qed

text \<open>Two networks share an address exactly when one prefix extends the other.\<close>

lemma networks_meet_iff: "net_pfx n bs \<Longrightarrow> net_pfx m cs \<Longrightarrow>
    (\<exists>a. contains n a \<and> contains m a) \<longleftrightarrow> prefix bs cs \<or> prefix cs bs"
proof -
  assume n: "net_pfx n bs" and m: "net_pfx m cs"
  have *: "\<exists>a. contains n' a \<and> contains m' a"
    if "net_pfx n' ps" "net_pfx m' qs" "prefix ps qs" for n' m' ps qs
  proof -
    have "length (qs @ replicate (32 - length qs) False) = 32"
      using net_pfxD(1) [OF that(2)] by simp
    then obtain a where a: "length a = 4" "ip_bits a = qs @ replicate (32 - length qs) False"
      using bits_of_len by blast
    then have "contains n' a" "contains m' a"
      using that contains_prefix [OF that(1) a(1)] contains_prefix [OF that(2) a(1)] by auto
    then show ?thesis by blast
  qed
  show ?thesis
  proof
    assume "\<exists>a. contains n a \<and> contains m a"
    then obtain a where "prefix bs (ip_bits (to4 a))" "prefix cs (ip_bits (to4 a))"
      using contains_to4 [OF n] contains_to4 [OF m] by blast
    then show "prefix bs cs \<or> prefix cs bs" using prefix_same_cases by blast
  next
    assume "prefix bs cs \<or> prefix cs bs"
    then show "\<exists>a. contains n a \<and> contains m a" using * [OF n m] * [OF m n] by blast
  qed
qed

lemma contains_mono: "net_pfx n bs \<Longrightarrow> net_pfx m cs \<Longrightarrow> prefix bs cs \<Longrightarrow> contains m a \<Longrightarrow> contains n a"
  using contains_to4 prefix_order.trans by blast

end
