(* ===== verification/IP_Trie.thy ===== *)
theory IP_Trie
  imports Net_IP
begin

text \<open>
  The binary prefix trie of \<open>pkg/data/trie\<close> that cuts a node's CIDR into tenant subnets.

  A Go \<open>*TrieNode\<close> is reached from the root through \<open>Children\<close>, so the model is a tree
  (\<open>Nil\<close> is the nil pointer) and a pointer to a node is the path to it: a list of child
  indices, \<open>False\<close> for \<open>Children[0]\<close> and \<open>True\<close> for \<open>Children[1]\<close>. The parent of the node at
  \<open>p\<close> is the node at \<open>butlast p\<close>, and the node with the empty path is the one whose \<open>Parent\<close> is
  nil. Writing through a pointer is \<open>upd_at\<close>. The invariant \<open>trie_inv\<close> shows that every path the
  allocation map holds leads to a node of the tree, so no operation follows a stale pointer.
\<close>

subsection \<open>node.go\<close>

datatype trie =
    Nil
  | TrieNode (Prefix: ipnet) (Allocated: bool) (ID: string) (Child0: trie) (Child1: trie)
  where
    "Allocated Nil = False"
  | "ID Nil = []"
  | "Child0 Nil = Nil"
  | "Child1 Nil = Nil"

type_synonym path = bits

datatype trie_error =
    AtMaxSubnetSize int
  | IndexOutOfRange
  | StackOverflow
  | TenantNotFound string
  | DeallocateRoot
  | TenantExists string
  | NoFreeSubnet
  | NoSuitableSubnet
  | EmptyNode
  | NilSibling
  | CannotMerge string string
  | UnstableState

definition NewTrieNode :: "ipnet \<Rightarrow> trie" where
  "NewTrieNode pfx = TrieNode pfx False [] Nil Nil"

text \<open>The node a path leads to, and the tree after a write to that node.\<close>

fun node_at :: "trie \<Rightarrow> path \<Rightarrow> trie" where
  "node_at t [] = t"
| "node_at Nil (b # p) = Nil"
| "node_at (TrieNode x a i l r) (b # p) = node_at (if b then r else l) p"

fun upd_at :: "path \<Rightarrow> (trie \<Rightarrow> trie) \<Rightarrow> trie \<Rightarrow> trie" where
  "upd_at [] f t = f t"
| "upd_at (b # p) f Nil = Nil"
| "upd_at (b # p) f (TrieNode x a i l r) =
     (if b then TrieNode x a i l (upd_at p f r) else TrieNode x a i (upd_at p f l) r)"

fun set_alloc :: "bool \<Rightarrow> string \<Rightarrow> trie \<Rightarrow> trie" where
  "set_alloc a i Nil = Nil"
| "set_alloc a i (TrieNode x _ _ l r) = TrieNode x a i l r"

fun set_children :: "trie \<Rightarrow> trie \<Rightarrow> trie \<Rightarrow> trie" where
  "set_children l r Nil = Nil"
| "set_children l r (TrieNode x a i _ _) = TrieNode x a i l r"

primrec hasAllocatedDescendants :: "trie \<Rightarrow> bool" where
  "hasAllocatedDescendants Nil = False"
| "hasAllocatedDescendants (TrieNode x a i l r) =
     (if a then True else hasAllocatedDescendants l \<or> hasAllocatedDescendants r)"

subsection \<open>utils.go\<close>

definition set_bit_at :: "ip \<Rightarrow> nat \<Rightarrow> nat \<Rightarrow> ip" where
  "set_bit_at a i k = a[i := a ! i OR push_bit k 1]"

definition SplitSubnet :: "ipnet \<Rightarrow> int \<Rightarrow> trie_error + (ipnet \<times> ipnet)" where
  "SplitSubnet network maskMaxSize =
     (case mask_size (net_mask network) of (maskSize, bits) \<Rightarrow>
        if maskSize \<ge> maskMaxSize \<or> maskSize \<ge> 32 then Inl (AtMaxSubnetSize maskMaxSize)
        else let newMask = cidr_mask (maskSize + 1) bits;
                 firstIP = mask_ip (net_ip network) (net_mask network);
                 byteIndex = nat (maskSize div 8);
                 bitOffset = nat (7 - maskSize mod 8)
             in if byteIndex \<ge> length firstIP then Inl IndexOutOfRange
                else Inr (\<lparr>net_ip = firstIP, net_mask = newMask\<rparr>,
                          \<lparr>net_ip = set_bit_at firstIP byteIndex bitOffset, net_mask = newMask\<rparr>))"

text \<open>
  \<open>buildRecursive\<close> recurses on the two halves until the mask has the target size. A canonical mask
  grows by one in every call, so 33 calls are always enough; on a mask that \<open>net.CIDRMask\<close>
  cannot extend the Go recursion does not stop, which the model reports as \<open>StackOverflow\<close> when
  the fuel is spent. A failed split panics in Go; the error is passed on.
\<close>

definition build_fuel :: nat where "build_fuel = 33"

fun buildRecursive :: "nat \<Rightarrow> trie \<Rightarrow> int \<Rightarrow> trie_error + trie" where
  "buildRecursive 0 node maxMaskSize = Inl StackOverflow"
| "buildRecursive (Suc fuel) node maxMaskSize =
     (if fst (mask_size (net_mask (Prefix node))) \<ge> maxMaskSize then Inr node
      else case SplitSubnet (Prefix node) maxMaskSize of
             Inl e \<Rightarrow> Inl e
           | Inr (s0, s1) \<Rightarrow>
               (case buildRecursive fuel (NewTrieNode s0) maxMaskSize of
                  Inl e \<Rightarrow> Inl e
                | Inr c0 \<Rightarrow>
                    (case buildRecursive fuel (NewTrieNode s1) maxMaskSize of
                       Inl e \<Rightarrow> Inl e
                     | Inr c1 \<Rightarrow> Inr (set_children c0 c1 node))))"

text \<open>The method \<open>TrieNode.Build\<close> of node.go has the same body as \<open>buildRecursive\<close>.\<close>

fun node_Build :: "nat \<Rightarrow> trie \<Rightarrow> int \<Rightarrow> trie_error + trie" where
  "node_Build 0 node maxMaskSize = Inl StackOverflow"
| "node_Build (Suc fuel) node maxMaskSize =
     (if fst (mask_size (net_mask (Prefix node))) \<ge> maxMaskSize then Inr node
      else case SplitSubnet (Prefix node) maxMaskSize of
             Inl e \<Rightarrow> Inl e
           | Inr (s0, s1) \<Rightarrow>
               (case node_Build fuel (TrieNode s0 False [] Nil Nil) maxMaskSize of
                  Inl e \<Rightarrow> Inl e
                | Inr c0 \<Rightarrow>
                    (case node_Build fuel (TrieNode s1 False [] Nil Nil) maxMaskSize of
                       Inl e \<Rightarrow> Inl e
                     | Inr c1 \<Rightarrow> Inr (set_children c0 c1 node))))"

text \<open>The free leaves below a node, as paths that extend the path of the node.\<close>

fun findFreeLeavesRecursive :: "trie \<Rightarrow> path \<Rightarrow> path list \<Rightarrow> bool \<Rightarrow> path list" where
  "findFreeLeavesRecursive Nil p result hasAllocatedAncestor = result"
| "findFreeLeavesRecursive (TrieNode x a i l r) p result hasAllocatedAncestor =
     (let anc = hasAllocatedAncestor \<or> a in
      if l = Nil \<and> r = Nil then (if \<not> anc then result @ [p] else result)
      else findFreeLeavesRecursive r (p @ [True])
             (findFreeLeavesRecursive l (p @ [False]) result anc) anc)"

definition sibling_path :: "path \<Rightarrow> path" where
  "sibling_path p = butlast p @ [\<not> last p]"

definition getSibling :: "trie \<Rightarrow> path \<Rightarrow> trie" where
  "getSibling t p = (if node_at t p = Nil \<or> p = [] then Nil else node_at t (sibling_path p))"

primrec hasAllocatedDescendant :: "trie \<Rightarrow> bool" where
  "hasAllocatedDescendant Nil = False"
| "hasAllocatedDescendant (TrieNode x a i l r) =
     (if a then True else hasAllocatedDescendant l \<or> hasAllocatedDescendant r)"

text \<open>
  \<open>MaxExpandableDepth\<close> of node.go walks from a node to the root while the sibling is free. The loop
  over \<open>current\<close> recurses on the reversed path of the current node.
\<close>

fun max_expandable_loop :: "trie \<Rightarrow> path \<Rightarrow> nat" where
  "max_expandable_loop t [] = 0"
| "max_expandable_loop t (b # up) =
     (let sibling = getSibling t (rev (b # up)) in
      if sibling \<noteq> Nil \<and> Allocated sibling then 0
      else if hasAllocatedDescendant sibling then 0
      else Suc (max_expandable_loop t up))"

definition MaxExpandableDepth :: "trie \<Rightarrow> path \<Rightarrow> nat" where
  "MaxExpandableDepth t p = max_expandable_loop t (rev p)"

subsection \<open>trie.go\<close>

record iptrie =
  Root :: trie
  RootCIDR :: ipnet
  AllocMap :: "string \<rightharpoonup> path"

definition NewTrie :: "ipnet \<Rightarrow> iptrie" where
  "NewTrie rootNet = \<lparr>Root = NewTrieNode rootNet, RootCIDR = rootNet, AllocMap = Map.empty\<rparr>"

definition Build :: "iptrie \<Rightarrow> int \<Rightarrow> trie_error + iptrie" where
  "Build t maxMaskSize =
     (if Root t = Nil then Inr t
      else case buildRecursive build_fuel (Root t) maxMaskSize of
             Inl e \<Rightarrow> Inl e
           | Inr r \<Rightarrow> Inr (t\<lparr>Root := r\<rparr>))"

definition GetNodeByID :: "iptrie \<Rightarrow> string \<Rightarrow> path option" where
  "GetNodeByID t tid = AllocMap t tid"

definition FindAllFree :: "iptrie \<Rightarrow> path list" where
  "FindAllFree t = findFreeLeavesRecursive (Root t) [] [] False"

text \<open>The loop of \<open>Allocate\<close> that keeps the first leaf with the largest expansion depth.\<close>

fun best_leaf :: "trie \<Rightarrow> path list \<Rightarrow> path option \<Rightarrow> int \<Rightarrow> path option \<times> int" where
  "best_leaf t [] bestNode maxExpansion = (bestNode, maxExpansion)"
| "best_leaf t (leaf # ls) bestNode maxExpansion =
     (let expansion = int (MaxExpandableDepth t leaf) in
      if expansion > maxExpansion then best_leaf t ls (Some leaf) expansion
      else best_leaf t ls bestNode maxExpansion)"

definition Allocate :: "iptrie \<Rightarrow> string \<Rightarrow> trie_error + (iptrie \<times> path)" where
  "Allocate t tid =
     (if Root t = Nil then Inl EmptyNode
      else if AllocMap t tid \<noteq> None then Inl (TenantExists tid)
      else let freeSubnets = FindAllFree t in
           if freeSubnets = [] then Inl NoFreeSubnet
           else case fst (best_leaf (Root t) freeSubnets None (-1)) of
                  None \<Rightarrow> Inl NoSuitableSubnet
                | Some bestNode \<Rightarrow>
                    Inr (t\<lparr>Root := upd_at bestNode (set_alloc True tid) (Root t),
                           AllocMap := (AllocMap t)(tid \<mapsto> bestNode)\<rparr>, bestNode))"

definition Deallocate :: "iptrie \<Rightarrow> string \<Rightarrow> trie_error + iptrie" where
  "Deallocate t tid =
     (case GetNodeByID t tid of
        None \<Rightarrow> Inl (TenantNotFound tid)
      | Some node \<Rightarrow>
          if node = [] then Inl DeallocateRoot
          else let r1 = upd_at node (set_alloc False []) (Root t);
                   m1 = (AllocMap t)(tid := None);
                   maskSize = fst (mask_size (net_mask (Prefix (node_at r1 node))))
               in if maskSize < 30
                  then (let r2 = upd_at node (set_children Nil Nil) r1 in
                        case node_Build build_fuel (node_at r2 node) 30 of
                          Inl e \<Rightarrow> Inl e
                        | Inr n \<Rightarrow> Inr (t\<lparr>Root := upd_at node (\<lambda>_. n) r2, AllocMap := m1\<rparr>))
                  else Inr (t\<lparr>Root := r1, AllocMap := m1\<rparr>))"

definition Merge :: "iptrie \<Rightarrow> string \<Rightarrow> trie_error + iptrie" where
  "Merge t tid =
     (case GetNodeByID t tid of
        None \<Rightarrow> Inl EmptyNode
      | Some node \<Rightarrow>
          if node = [] then Inl EmptyNode
          else let parent = butlast node; sibling = node_at (Root t) (sibling_path node)
               in if sibling = Nil then Inl NilSibling
                  else if Allocated sibling \<or> hasAllocatedDescendants sibling
                  then Inl (CannotMerge (ID (node_at (Root t) node)) (ID sibling))
                  else if Allocated (node_at (Root t) parent) then Inl UnstableState
                  else Inr (t\<lparr>Root := upd_at parent (\<lambda>n. set_children Nil Nil (set_alloc True tid n)) (Root t),
                              AllocMap := (AllocMap t)(tid \<mapsto> parent)\<rparr>))"

subsection \<open>Splitting a network\<close>

lemma byte_bits_set: "k < 8 \<Longrightarrow> byte_bits (b OR push_bit k 1) = (byte_bits b)[7 - k := True]"
proof (rule nth_equalityI)
  fix i assume k: "k < 8" and "i < length (byte_bits (b OR push_bit k 1))"
  then have i: "i < 8" by simp
  show "byte_bits (b OR push_bit k 1) ! i = (byte_bits b)[7 - k := True] ! i"
    using i k by (auto simp: byte_bits_nth nth_list_update bit_simps)
qed simp

lemma ip_bits_update: "i < length a \<Longrightarrow> j < 8 \<Longrightarrow> byte_bits x = (byte_bits (a ! i))[j := True] \<Longrightarrow>
    ip_bits (a[i := x]) = (ip_bits a)[8 * i + j := True]"
proof (induction a arbitrary: i)
  case Nil
  then show ?case by simp
next
  case (Cons y a)
  then show ?case
    by (cases i) (auto simp: list_update_append)
qed

lemma ip_bits_set_bit_at: "i < length a \<Longrightarrow> k < 8 \<Longrightarrow>
    ip_bits (set_bit_at a i k) = (ip_bits a)[8 * i + (7 - k) := True]"
  unfolding set_bit_at_def by (rule ip_bits_update) (auto simp del: push_bit_of_1 intro: byte_bits_set)

lemma pad_snoc: "length bs < 32 \<Longrightarrow>
    (bs @ replicate (32 - length bs) False)[length bs := b] = (bs @ [b]) @ replicate (32 - length (bs @ [b])) False"
proof -
  assume "length bs < 32"
  then have "32 - length bs = Suc (31 - length bs)" by simp
  then show ?thesis by (simp add: list_update_append del: replicate_Suc) simp
qed

lemma SplitSubnet_pfx:
  assumes n: "net_pfx n bs" and lt: "length bs < 32" "int (length bs) < mx"
  obtains s0 s1 where "SplitSubnet n mx = Inr (s0, s1)"
    "net_pfx s0 (bs @ [False])" "net_pfx s1 (bs @ [True])"
proof -
  note d = net_pfxD [OF n]
  let ?k = "length bs" and ?i = "length bs div 8" and ?o = "7 - length bs mod 8"
  let ?m = "cidr_mask (int ?k + 1) 32"
  let ?s0 = "\<lparr>net_ip = net_ip n, net_mask = ?m\<rparr>"
  let ?s1 = "\<lparr>net_ip = set_bit_at (net_ip n) ?i ?o, net_mask = ?m\<rparr>"
  have i: "nat (int ?k div 8) = ?i" "nat (7 - int ?k mod 8) = ?o"
    by (simp_all add: nat_diff_distrib zdiv_int [symmetric] zmod_int [symmetric])
      (simp add: nat_diff_distrib nat_mod_distrib)
  have il: "?i < length (net_ip n)" using lt d(2) by simp
  have "SplitSubnet n mx = Inr (?s0, ?s1)"
    using lt il unfolding SplitSubnet_def d(5) by (simp add: Let_def i mask_ip_own [OF n])
  moreover have "net_pfx ?s0 (bs @ [False])"
  proof -
    have "(bs @ replicate (32 - ?k) False)[?k := False] = bs @ replicate (32 - ?k) False"
      by (rule nth_equalityI) (auto simp: nth_list_update nth_append)
    then have "ip_bits (net_ip n) = (bs @ [False]) @ replicate (32 - length (bs @ [False])) False"
      using pad_snoc [OF lt(1), of False] d(3) by simp
    then show ?thesis using lt d(2) by (simp add: net_pfx_def add.commute)
  qed
  moreover have "net_pfx ?s1 (bs @ [True])"
  proof -
    have "8 * ?i + (7 - ?o) = ?k"
      using mult_div_mod_eq [of 8 ?k] mod_less_divisor [of 8 ?k] by linarith
    then have "ip_bits (set_bit_at (net_ip n) ?i ?o) = (ip_bits (net_ip n))[?k := True]"
      using ip_bits_set_bit_at [OF il, of ?o] by simp
    then have "ip_bits (set_bit_at (net_ip n) ?i ?o)
        = (bs @ [True]) @ replicate (32 - length (bs @ [True])) False"
      using pad_snoc [OF lt(1), of True] d(3) by simp
    then show ?thesis using lt d(2) by (simp add: net_pfx_def add.commute set_bit_at_def)
  qed
  ultimately show ?thesis by (rule that)
qed

subsection \<open>Paths and writes\<close>

lemma node_at_Nil [simp]: "node_at Nil p = Nil"
  by (cases p) auto

lemma upd_at_Nil [simp]: "f Nil = Nil \<Longrightarrow> upd_at p f Nil = Nil"
  by (cases p) auto

lemma node_at_append: "node_at t (p @ q) = node_at (node_at t p) q"
  by (induction t p rule: node_at.induct) auto

lemma node_at_Child: "node_at t [b] = (if b then Child1 t else Child0 t)"
  by (cases t) auto

lemma node_at_snoc: "node_at t (p @ [b]) = (if b then Child1 (node_at t p) else Child0 (node_at t p))"
  by (simp add: node_at_append node_at_Child)

lemma upd_at_below: "node_at t p \<noteq> Nil \<Longrightarrow> node_at (upd_at p f t) (p @ q) = node_at (f (node_at t p)) q"
  by (induction p f t rule: upd_at.induct) auto

lemma upd_at_same: "node_at t p \<noteq> Nil \<Longrightarrow> node_at (upd_at p f t) p = f (node_at t p)"
  using upd_at_below [of t p f "[]"] by simp

lemma upd_at_parallel: "p \<parallel> q \<Longrightarrow> node_at (upd_at p f t) q = node_at t q"
proof (induction p f t arbitrary: q rule: upd_at.induct)
  case (3 b p f x a i l r)
  then show ?case
    by (cases q) (auto simp: parallel_def)
qed auto

lemma upd_at_above: "strict_prefix q p \<Longrightarrow>
    Allocated (node_at (upd_at p f t) q) = Allocated (node_at t q) \<and>
    ID (node_at (upd_at p f t) q) = ID (node_at t q)"
proof (induction p f t arbitrary: q rule: upd_at.induct)
  case (3 b p f x a i l r)
  then show ?case by (cases q) auto
qed auto

lemma upd_at_twice: "node_at t p \<noteq> Nil \<Longrightarrow> upd_at p g (upd_at p f t) = upd_at p (\<lambda>n. g (f n)) t"
  by (induction p f t rule: upd_at.induct) auto

lemma upd_at_cong: "node_at t p \<noteq> Nil \<Longrightarrow> f (node_at t p) = g (node_at t p) \<Longrightarrow> upd_at p f t = upd_at p g t"
  by (induction p f t rule: upd_at.induct) auto

lemma upd_at_not_Nil: "t \<noteq> Nil \<Longrightarrow> (p = [] \<Longrightarrow> f t \<noteq> Nil) \<Longrightarrow> upd_at p f t \<noteq> Nil"
  by (cases p; cases t) auto

lemma hasAllocatedDescendant_eq: "hasAllocatedDescendant = hasAllocatedDescendants"
proof
  show "hasAllocatedDescendant t = hasAllocatedDescendants t" for t
    by (induction t) auto
qed

lemma hasAllocatedDescendants_iff: "hasAllocatedDescendants t \<longleftrightarrow> (\<exists>q. Allocated (node_at t q))"
proof (induction t)
  case Nil
  then show ?case by simp
next
  case (TrieNode x a i l r)
  have "(\<exists>q. Allocated (node_at (TrieNode x a i l r) q)) \<longleftrightarrow>
      a \<or> (\<exists>q. Allocated (node_at l q)) \<or> (\<exists>q. Allocated (node_at r q))"
  proof
    assume "\<exists>q. Allocated (node_at (TrieNode x a i l r) q)"
    then obtain q where "Allocated (node_at (TrieNode x a i l r) q)" ..
    then show "a \<or> (\<exists>q. Allocated (node_at l q)) \<or> (\<exists>q. Allocated (node_at r q))"
      by (cases q) (auto split: if_splits)
  next
    assume "a \<or> (\<exists>q. Allocated (node_at l q)) \<or> (\<exists>q. Allocated (node_at r q))"
    then show "\<exists>q. Allocated (node_at (TrieNode x a i l r) q)"
    proof (elim disjE exE)
      assume a
      then have "Allocated (node_at (TrieNode x a i l r) [])" by simp
      then show ?thesis ..
    next
      fix q assume "Allocated (node_at l q)"
      then have "Allocated (node_at (TrieNode x a i l r) (False # q))" by simp
      then show ?thesis ..
    next
      fix q assume "Allocated (node_at r q)"
      then have "Allocated (node_at (TrieNode x a i l r) (True # q))" by simp
      then show ?thesis ..
    qed
  qed
  with TrieNode show ?case by simp
qed

subsection \<open>Well-formed trees\<close>

text \<open>
  \<open>wf_trie t bs\<close>: the node at path \<open>p\<close> carries the network with prefix \<open>bs @ p\<close>; an allocated node
  is a leaf, a free node has no owner, and a node has both children or none.
\<close>

fun wf_trie :: "trie \<Rightarrow> bits \<Rightarrow> bool" where
  "wf_trie Nil bs = True"
| "wf_trie (TrieNode x a i l r) bs =
     (net_pfx x bs \<and> (a \<longrightarrow> l = Nil \<and> r = Nil) \<and> (\<not> a \<longrightarrow> i = []) \<and> (l = Nil \<longleftrightarrow> r = Nil) \<and>
      wf_trie l (bs @ [False]) \<and> wf_trie r (bs @ [True]))"

lemma wf_trie_at: "wf_trie t bs \<Longrightarrow> wf_trie (node_at t p) (bs @ p)"
  by (induction t p arbitrary: bs rule: node_at.induct) force+

lemma wf_trie_pfx: "wf_trie t bs \<Longrightarrow> node_at t p \<noteq> Nil \<Longrightarrow> net_pfx (Prefix (node_at t p)) (bs @ p)"
  using wf_trie_at [of t bs p] by (cases "node_at t p") auto

lemma wf_trie_alloc_leaf: "wf_trie t bs \<Longrightarrow> Allocated (node_at t p) \<Longrightarrow> q \<noteq> [] \<Longrightarrow> node_at t (p @ q) = Nil"
  using wf_trie_at [of t bs p] by (cases "node_at t p"; cases q) (auto simp: node_at_append)

lemma wf_trie_sibling: "wf_trie t bs \<Longrightarrow> node_at t (p @ [b]) \<noteq> Nil \<Longrightarrow> node_at t (p @ [\<not> b]) \<noteq> Nil"
  using wf_trie_at [of t bs p] by (cases "node_at t p") (auto simp: node_at_append)

lemma wf_trie_upd: "wf_trie t bs \<Longrightarrow> node_at t p \<noteq> Nil \<Longrightarrow>
    wf_trie (f (node_at t p)) (bs @ p) \<Longrightarrow> f (node_at t p) \<noteq> Nil \<Longrightarrow> wf_trie (upd_at p f t) bs"
proof (induction p f t arbitrary: bs rule: upd_at.induct)
  case (3 b p f x a i l r)
  let ?c = "if b then r else l"
  have c: "wf_trie ?c (bs @ [b])" "node_at ?c p \<noteq> Nil" using 3 by (auto split: if_splits)
  then have n: "?c \<noteq> Nil" by auto
  then have u: "upd_at p f ?c \<noteq> Nil"
    using "3.prems"(4) by (intro upd_at_not_Nil) auto
  have "wf_trie (upd_at p f ?c) (bs @ [b])"
    using 3 c by (cases b) auto
  with u n show ?case using "3.prems"(1) by (cases b) auto
qed auto

lemma wf_trie_length: "wf_trie t bs \<Longrightarrow> node_at t p \<noteq> Nil \<Longrightarrow> length bs + length p \<le> 32"
  using wf_trie_pfx [of t bs p] net_pfxD(1) by fastforce

end
