(* ===== verification/Trie_Invariant.thy ===== *)
theory Trie_Invariant
  imports IP_Trie
begin

text \<open>
  Correctness of the prefix trie. \<open>trie_inv\<close> ties the tree to the allocation map: the map holds
  exactly the allocated nodes, and the tree is well formed over the prefix of the root network.
  Every operation keeps it, and under it each operation does what its caller expects: the
  allocator returns a free leaf with the most room to grow, a merge succeeds exactly while the
  expansion depth of the node is positive, and a release gives the whole range back.
\<close>

subsection \<open>Building\<close>

lemma node_Build_eq: "node_Build f n m = buildRecursive f n m"
proof (induction f n m rule: node_Build.induct)
  case (2 fuel node maxMaskSize)
  then show ?case
    by (auto simp: NewTrieNode_def split: sum.splits prod.splits)
qed simp

text \<open>A node that was just built: nothing below it is allocated.\<close>

definition fresh :: "trie \<Rightarrow> bool" where
  "fresh t \<longleftrightarrow> t \<noteq> Nil \<and> \<not> hasAllocatedDescendants t"

lemma buildRecursive_ok:
  assumes "net_pfx (Prefix n) bs" "n = TrieNode (Prefix n) False [] Nil Nil"
    "mx \<le> 32" "nat (mx - int (length bs)) < fuel"
  shows "\<exists>t. buildRecursive fuel n mx = Inr t \<and> wf_trie t bs \<and> fresh t"
  using assms
proof (induction fuel arbitrary: n bs)
  case 0
  then show ?case by simp
next
  case (Suc fuel)
  note d = net_pfxD [OF Suc.prems(1)]
  have fst: "fst (mask_size (net_mask (Prefix n))) = int (length bs)" using d(5) by simp
  show ?case
  proof (cases "mx \<le> int (length bs)")
    case True
    have "n \<noteq> Nil" "\<not> hasAllocatedDescendants n" "wf_trie n bs"
      by (subst Suc.prems(2), use Suc.prems(1) in simp)+
    with True fst show ?thesis by (simp add: fresh_def)
  next
    case False
    then have lt: "length bs < 32" "int (length bs) < mx" using Suc.prems(3) by auto
    obtain s0 s1 where s: "SplitSubnet (Prefix n) mx = Inr (s0, s1)"
      "net_pfx s0 (bs @ [False])" "net_pfx s1 (bs @ [True])"
      using SplitSubnet_pfx [OF Suc.prems(1) lt] .
    have IH: "\<exists>t. buildRecursive fuel (NewTrieNode s) mx = Inr t \<and> wf_trie t (bs @ [b]) \<and> fresh t"
      if "net_pfx s (bs @ [b])" for s b
      by (rule Suc.IH) (use that Suc.prems lt in \<open>auto simp: NewTrieNode_def\<close>)
    obtain c0 c1 where c: "buildRecursive fuel (NewTrieNode s0) mx = Inr c0" "wf_trie c0 (bs @ [False])"
      "fresh c0" "buildRecursive fuel (NewTrieNode s1) mx = Inr c1" "wf_trie c1 (bs @ [True])" "fresh c1"
      using IH [OF s(2)] IH [OF s(3)] by blast
    have "set_children c0 c1 n = TrieNode (Prefix n) False [] c0 c1"
      by (subst Suc.prems(2)) simp
    then show ?thesis
      using False s(1) c Suc.prems(1) fst by (auto simp: fresh_def)
  qed
qed

subsection \<open>Free leaves\<close>

definition free_leaf :: "trie \<Rightarrow> path \<Rightarrow> bool" where
  "free_leaf t q \<longleftrightarrow> node_at t q \<noteq> Nil \<and> Child0 (node_at t q) = Nil \<and> Child1 (node_at t q) = Nil \<and>
     (\<forall>q'. prefix q' q \<longrightarrow> \<not> Allocated (node_at t q'))"

lemma free_leaf_Node_Nil: "free_leaf (TrieNode x a i l r) [] \<longleftrightarrow> \<not> a \<and> l = Nil \<and> r = Nil"
  by (auto simp: free_leaf_def)

lemma free_leaf_Node_Cons: "free_leaf (TrieNode x a i l r) (b # q) \<longleftrightarrow> \<not> a \<and> free_leaf (if b then r else l) q"
proof -
  have "(\<forall>q'. prefix q' (b # q) \<longrightarrow> \<not> Allocated (node_at (TrieNode x a i l r) q')) \<longleftrightarrow>
      \<not> a \<and> (\<forall>q'. prefix q' q \<longrightarrow> \<not> Allocated (node_at (if b then r else l) q'))"
    by (auto simp: prefix_Cons split: if_splits)
  then show ?thesis by (auto simp: free_leaf_def)
qed

lemma free_leaf_Nil [simp]: "\<not> free_leaf Nil q"
  by (simp add: free_leaf_def)

lemma set_findFree: "set (findFreeLeavesRecursive t p res anc)
    = set res \<union> (if anc then {} else {p @ q | q. free_leaf t q})"
proof (induction t p res anc rule: findFreeLeavesRecursive.induct)
  case (1 p res anc)
  then show ?case by simp
next
  case (2 x a i l r p res anc)
  let ?t = "TrieNode x a i l r"
  show ?case
  proof (cases "l = Nil \<and> r = Nil")
    case True
    have "free_leaf ?t q \<longleftrightarrow> \<not> a \<and> q = []" for q
      using True by (cases q) (auto simp: free_leaf_Node_Nil free_leaf_Node_Cons split: if_splits)
    with True show ?thesis by auto
  next
    case False
    have "free_leaf ?t q \<longleftrightarrow> \<not> a \<and> (\<exists>b q'. q = b # q' \<and> free_leaf (if b then r else l) q')" for q
      using False by (cases q) (auto simp: free_leaf_Node_Nil free_leaf_Node_Cons)
    then have "{p @ q | q. free_leaf ?t q} = (if a then {} else
        {(p @ [False]) @ q | q. free_leaf l q} \<union> {(p @ [True]) @ q | q. free_leaf r q})"
      by (auto split: if_splits)
    with False 2 show ?thesis by (auto simp: Let_def)
  qed
qed

lemma set_FindAllFree: "set (FindAllFree t) = {q. free_leaf (Root t) q}"
  by (simp add: FindAllFree_def set_findFree)

subsection \<open>The choice of a leaf\<close>

lemma best_leaf_keeps: "\<forall>l\<in>set ls. int (MaxExpandableDepth t l) \<le> m \<Longrightarrow> best_leaf t ls b m = (b, m)"
  by (induction ls) (auto simp: Let_def)

lemma best_leaf_first:
  "ls \<noteq> [] \<Longrightarrow> \<exists>l\<in>set ls. int (MaxExpandableDepth t l) > m \<Longrightarrow>
   \<exists>xs l ys. ls = xs @ l # ys \<and> fst (best_leaf t ls b m) = Some l \<and>
     (\<forall>x\<in>set xs. MaxExpandableDepth t x < MaxExpandableDepth t l) \<and>
     (\<forall>y\<in>set ys. MaxExpandableDepth t y \<le> MaxExpandableDepth t l) \<and> int (MaxExpandableDepth t l) > m"
proof (induction ls arbitrary: b m)
  case Nil
  then show ?case by simp
next
  case (Cons a ls)
  let ?d = "\<lambda>l. int (MaxExpandableDepth t l)"
  let ?b = "if ?d a > m then Some a else b" and ?m = "if ?d a > m then ?d a else m"
  have step: "best_leaf t (a # ls) b m = best_leaf t ls ?b ?m" by (simp add: Let_def)
  show ?case
  proof (cases "\<exists>l\<in>set ls. ?d l > ?m")
    case True
    then obtain xs l ys where "ls = xs @ l # ys" "fst (best_leaf t ls ?b ?m) = Some l"
      "\<forall>x\<in>set xs. MaxExpandableDepth t x < MaxExpandableDepth t l"
      "\<forall>y\<in>set ys. MaxExpandableDepth t y \<le> MaxExpandableDepth t l" "?d l > ?m"
      using Cons.IH [of ?m ?b] by fastforce
    then have "a # ls = (a # xs) @ l # ys \<and> fst (best_leaf t (a # ls) b m) = Some l \<and>
       (\<forall>x\<in>set (a # xs). MaxExpandableDepth t x < MaxExpandableDepth t l) \<and>
       (\<forall>y\<in>set ys. MaxExpandableDepth t y \<le> MaxExpandableDepth t l) \<and> ?d l > m"
      unfolding step by (auto split: if_splits)
    then show ?thesis by blast
  next
    case False
    then have le: "\<forall>l\<in>set ls. ?d l \<le> ?m" by auto
    then have "best_leaf t (a # ls) b m = (?b, ?m)" unfolding step by (rule best_leaf_keeps)
    moreover have gt: "?d a > m" using Cons.prems(2) le by (auto split: if_splits)
    ultimately have "a # ls = [] @ a # ls \<and> fst (best_leaf t (a # ls) b m) = Some a \<and>
       (\<forall>x\<in>set []. MaxExpandableDepth t x < MaxExpandableDepth t a) \<and>
       (\<forall>y\<in>set ls. MaxExpandableDepth t y \<le> MaxExpandableDepth t a) \<and> ?d a > m"
      using le by auto
    then show ?thesis by blast
  qed
qed

lemma best_leaf_None: "ls \<noteq> [] \<Longrightarrow>
   \<exists>xs l ys. ls = xs @ l # ys \<and> fst (best_leaf t ls None (-1)) = Some l \<and>
     (\<forall>x\<in>set xs. MaxExpandableDepth t x < MaxExpandableDepth t l) \<and>
     (\<forall>y\<in>set ys. MaxExpandableDepth t y \<le> MaxExpandableDepth t l)"
  using best_leaf_first [of ls "-1" t None] by (cases ls) fastforce+

subsection \<open>The invariant\<close>

definition owns :: "trie \<Rightarrow> path \<Rightarrow> string \<Rightarrow> bool" where
  "owns t p tid \<longleftrightarrow> Allocated (node_at t p) \<and> ID (node_at t p) = tid"

definition trie_inv :: "iptrie \<Rightarrow> bits \<Rightarrow> bool" where
  "trie_inv t rb \<longleftrightarrow> Root t \<noteq> Nil \<and> net_pfx (RootCIDR t) rb \<and> wf_trie (Root t) rb \<and>
     (\<forall>tid p. AllocMap t tid = Some p \<longleftrightarrow> owns (Root t) p tid)"

lemma trie_invD:
  assumes "trie_inv t rb"
  shows "Root t \<noteq> Nil" "net_pfx (RootCIDR t) rb" "wf_trie (Root t) rb"
    "AllocMap t tid = Some p \<longleftrightarrow> owns (Root t) p tid"
  using assms by (auto simp: trie_inv_def)

lemma owns_notNil: "owns t p tid \<Longrightarrow> node_at t p \<noteq> Nil"
  by (auto simp: owns_def)

lemma alloc_node:
  assumes "trie_inv t rb" "AllocMap t tid = Some p"
  shows "node_at (Root t) p = TrieNode (Prefix (node_at (Root t) p)) True tid Nil Nil"
    and "net_pfx (Prefix (node_at (Root t) p)) (rb @ p)"
proof -
  have o: "owns (Root t) p tid" using assms trie_invD(4) by blast
  then show "net_pfx (Prefix (node_at (Root t) p)) (rb @ p)"
    using wf_trie_pfx [OF trie_invD(3) [OF assms(1)]] owns_notNil by blast
  show "node_at (Root t) p = TrieNode (Prefix (node_at (Root t) p)) True tid Nil Nil"
    using o wf_trie_at [OF trie_invD(3) [OF assms(1)], of p]
    by (cases "node_at (Root t) p") (auto simp: owns_def)
qed

lemma owns_upd: "node_at t p \<noteq> Nil \<Longrightarrow> owns (upd_at p f t) q tid \<longleftrightarrow>
    (if prefix p q then owns (f (node_at t p)) (drop (length p) q) tid else owns t q tid)"
proof -
  assume n: "node_at t p \<noteq> Nil"
  consider (below) r where "q = p @ r" | (above) "strict_prefix q p" | (par) "p \<parallel> q"
    using prefix_def strict_prefix_def parallel_def by metis
  then show ?thesis
  proof cases
    case below
    then show ?thesis using upd_at_below [OF n] by (simp add: owns_def)
  next
    case above
    then have "\<not> prefix p q" by (simp add: prefix_order.less_le_not_le)
    then show ?thesis using upd_at_above [OF above, of f t] by (simp add: owns_def)
  next
    case par
    then show ?thesis using upd_at_parallel [OF par, of f t] by (auto simp: owns_def)
  qed
qed

text \<open>One lemma carries every write: the subtree at \<open>p\<close> is replaced and the map follows it.\<close>

lemma trie_inv_upd:
  assumes inv: "trie_inv t rb" and n: "node_at (Root t) p \<noteq> Nil"
    and f: "wf_trie (f (node_at (Root t) p)) (rb @ p)" "f (node_at (Root t) p) \<noteq> Nil"
    and m: "\<And>tid q. m tid = Some q \<longleftrightarrow>
      (if prefix p q then owns (f (node_at (Root t) p)) (drop (length p) q) tid
       else AllocMap t tid = Some q)"
  shows "trie_inv (t\<lparr>Root := upd_at p f (Root t), AllocMap := m\<rparr>) rb"
  unfolding trie_inv_def
proof (intro conjI allI)
  show "Root (t\<lparr>Root := upd_at p f (Root t), AllocMap := m\<rparr>) \<noteq> Nil"
  proof -
    have "upd_at p f (Root t) \<noteq> Nil"
      by (rule upd_at_not_Nil [OF trie_invD(1) [OF inv]]) (use f(2) in auto)
    then show ?thesis by simp
  qed
  show "net_pfx (RootCIDR (t\<lparr>Root := upd_at p f (Root t), AllocMap := m\<rparr>)) rb"
    using trie_invD(2) [OF inv] by simp
  show "wf_trie (Root (t\<lparr>Root := upd_at p f (Root t), AllocMap := m\<rparr>)) rb"
    using wf_trie_upd [where f = f, OF trie_invD(3) [OF inv] n f] by simp
  show "(AllocMap (t\<lparr>Root := upd_at p f (Root t), AllocMap := m\<rparr>) tid = Some q) =
      owns (Root (t\<lparr>Root := upd_at p f (Root t), AllocMap := m\<rparr>)) q tid" for tid q
    using m owns_upd [OF n] trie_invD(4) [OF inv] by simp
qed

lemma alloc_below:
  assumes "trie_inv t rb" "AllocMap t tid = Some p" "AllocMap t tid' = Some q" "prefix p q"
  shows "tid' = tid \<and> q = p"
proof -
  obtain r where r: "q = p @ r" using assms(4) by (auto simp: prefix_def)
  have o: "owns (Root t) p tid" "owns (Root t) q tid'"
    using assms(2,3) trie_invD(4) [OF assms(1)] by auto
  have "r = []"
  proof (rule ccontr)
    assume "r \<noteq> []"
    then have "node_at (Root t) q = Nil"
      using wf_trie_alloc_leaf [OF trie_invD(3) [OF assms(1)], of p r] o(1) r by (simp add: owns_def)
    with o(2) show False by (simp add: owns_def)
  qed
  with r o show ?thesis by (auto simp: owns_def)
qed

text \<open>Two tenants never hold nodes on one root-to-leaf path.\<close>

lemma alloc_parallel:
  assumes "trie_inv t rb" "AllocMap t tid = Some p" "AllocMap t tid' = Some q" "tid \<noteq> tid'"
  shows "p \<parallel> q"
  using alloc_below [OF assms(1,2,3)] alloc_below [OF assms(1,3,2)] assms(4)
  by (auto simp: parallel_def)

lemma alloc_disjoint:
  assumes "trie_inv t rb" "AllocMap t tid = Some p" "AllocMap t tid' = Some q" "tid \<noteq> tid'"
  shows "\<not> (contains (Prefix (node_at (Root t) p)) a \<and> contains (Prefix (node_at (Root t) q)) a)"
proof -
  have "\<not> prefix (rb @ p) (rb @ q) \<and> \<not> prefix (rb @ q) (rb @ p)"
    using alloc_parallel [OF assms] by (simp add: parallel_def)
  then show ?thesis
    using networks_meet_iff [OF alloc_node(2) [OF assms(1,2)] alloc_node(2) [OF assms(1,3)]] by blast
qed

lemma alloc_in_root:
  assumes "trie_inv t rb" "AllocMap t tid = Some p" "contains (Prefix (node_at (Root t) p)) a"
  shows "contains (RootCIDR t) a"
  using contains_mono [OF trie_invD(2) [OF assms(1)] alloc_node(2) [OF assms(1,2)]] assms(3) by simp

subsection \<open>The operations keep the invariant\<close>

lemma Build_inv:
  assumes "net_pfx root rb" "mx \<le> 32"
  shows "\<exists>t. Build (NewTrie root) mx = Inr t \<and> trie_inv t rb \<and> RootCIDR t = root \<and>
    AllocMap t = Map.empty \<and> fresh (Root t)"
proof -
  have "\<exists>r. buildRecursive build_fuel (NewTrieNode root) mx = Inr r \<and> wf_trie r rb \<and> fresh r"
    by (rule buildRecursive_ok) (use assms in \<open>auto simp: NewTrieNode_def build_fuel_def\<close>)
  then obtain r where r: "buildRecursive build_fuel (NewTrieNode root) mx = Inr r" "wf_trie r rb" "fresh r"
    by blast
  let ?t = "(NewTrie root)\<lparr>Root := r\<rparr>"
  have "Build (NewTrie root) mx = Inr ?t"
    using r(1) by (simp add: Build_def NewTrie_def NewTrieNode_def)
  moreover have "trie_inv ?t rb"
    using r(2,3) assms(1) hasAllocatedDescendants_iff [of r]
    by (auto simp: trie_inv_def NewTrie_def fresh_def owns_def)
  ultimately show ?thesis using r(3) by (auto simp: NewTrie_def)
qed

lemma owns_set_alloc:
  "owns (set_alloc True tid (TrieNode x a i Nil Nil)) q tid' \<longleftrightarrow> q = [] \<and> tid' = tid"
  by (cases q) (auto simp: owns_def)

lemma Allocate_cases:
  assumes inv: "trie_inv t rb" and new: "AllocMap t tid = None"
  shows "(FindAllFree t = [] \<and> Allocate t tid = Inl NoFreeSubnet) \<or>
    (\<exists>xs p ys. FindAllFree t = xs @ p # ys \<and> free_leaf (Root t) p \<and>
       (\<forall>x\<in>set xs. MaxExpandableDepth (Root t) x < MaxExpandableDepth (Root t) p) \<and>
       (\<forall>y\<in>set ys. MaxExpandableDepth (Root t) y \<le> MaxExpandableDepth (Root t) p) \<and>
       Allocate t tid = Inr (t\<lparr>Root := upd_at p (set_alloc True tid) (Root t),
                               AllocMap := (AllocMap t)(tid \<mapsto> p)\<rparr>, p))"
proof (cases "FindAllFree t = []")
  case True
  then show ?thesis using new trie_invD(1) [OF inv] by (simp add: Allocate_def)
next
  case False
  then obtain xs p ys where b: "FindAllFree t = xs @ p # ys"
    "fst (best_leaf (Root t) (FindAllFree t) None (-1)) = Some p"
    "\<forall>x\<in>set xs. MaxExpandableDepth (Root t) x < MaxExpandableDepth (Root t) p"
    "\<forall>y\<in>set ys. MaxExpandableDepth (Root t) y \<le> MaxExpandableDepth (Root t) p"
    using best_leaf_None [of "FindAllFree t" "Root t"] by blast
  moreover have "p \<in> set (FindAllFree t)" using b(1) by simp
  then have "free_leaf (Root t) p" by (simp add: set_FindAllFree)
  moreover have "Allocate t tid = Inr (t\<lparr>Root := upd_at p (set_alloc True tid) (Root t),
                               AllocMap := (AllocMap t)(tid \<mapsto> p)\<rparr>, p)"
    using False new trie_invD(1) [OF inv] b(2) by (simp add: Allocate_def Let_def)
  ultimately show ?thesis by blast
qed

lemma free_leaf_node: "free_leaf t p \<Longrightarrow>
    node_at t p = TrieNode (Prefix (node_at t p)) False (ID (node_at t p)) Nil Nil"
  by (cases "node_at t p") (auto simp: free_leaf_def)

lemma free_leaf_unowned:
  assumes "trie_inv t rb" "free_leaf (Root t) p" "AllocMap t tid = Some q"
  shows "\<not> prefix p q"
proof
  assume "prefix p q"
  then obtain r where r: "q = p @ r" by (auto simp: prefix_def)
  have "owns (Root t) q tid" using assms trie_invD(4) by blast
  then have "owns (node_at (Root t) p) r tid" using r by (simp add: owns_def node_at_append)
  then have "owns (TrieNode (Prefix (node_at (Root t) p)) False (ID (node_at (Root t) p)) Nil Nil) r tid"
    by (subst (asm) free_leaf_node [OF assms(2)])
  then show False by (cases r) (auto simp: owns_def)
qed

lemma Allocate_inv:
  assumes inv: "trie_inv t rb" and p: "free_leaf (Root t) p" and new: "AllocMap t tid = None"
  shows "trie_inv (t\<lparr>Root := upd_at p (set_alloc True tid) (Root t), AllocMap := (AllocMap t)(tid \<mapsto> p)\<rparr>) rb"
proof (rule trie_inv_upd [OF inv])
  let ?n = "node_at (Root t) p"
  show n: "?n \<noteq> Nil" using p by (simp add: free_leaf_def)
  have e: "set_alloc True tid ?n = TrieNode (Prefix ?n) True tid Nil Nil"
    by (subst free_leaf_node [OF p]) simp
  show "wf_trie (set_alloc True tid ?n) (rb @ p)"
    using wf_trie_pfx [OF trie_invD(3) [OF inv] n] by (simp add: e)
  show "set_alloc True tid ?n \<noteq> Nil" by (simp add: e)
  have o: "owns (set_alloc True tid ?n) r tid' \<longleftrightarrow> r = [] \<and> tid' = tid" for r tid'
    unfolding e by (cases r) (auto simp: owns_def)
  show "((AllocMap t)(tid \<mapsto> p)) tid' = Some q \<longleftrightarrow>
      (if prefix p q then owns (set_alloc True tid ?n) (drop (length p) q) tid'
       else AllocMap t tid' = Some q)" for tid' q
    using free_leaf_unowned [OF inv p, of tid' q] new by (auto simp: o prefix_def)
qed

lemma owns_fresh: "fresh n \<Longrightarrow> \<not> owns n q tid"
  using hasAllocatedDescendants_iff [of n] by (auto simp: fresh_def owns_def)

lemma free_inv:
  assumes inv: "trie_inv t rb" and p: "AllocMap t tid = Some p"
    and f: "wf_trie (f (node_at (Root t) p)) (rb @ p)" "fresh (f (node_at (Root t) p))"
  shows "trie_inv (t\<lparr>Root := upd_at p f (Root t), AllocMap := (AllocMap t)(tid := None)\<rparr>) rb"
proof (rule trie_inv_upd [where f = f, OF inv _ f(1)])
  show "node_at (Root t) p \<noteq> Nil" by (subst alloc_node(1) [OF inv p]) simp
  show "f (node_at (Root t) p) \<noteq> Nil" using f(2) by (simp add: fresh_def)
  show "((AllocMap t)(tid := None)) tid' = Some q \<longleftrightarrow>
      (if prefix p q then owns (f (node_at (Root t) p)) (drop (length p) q) tid'
       else AllocMap t tid' = Some q)" for tid' q
    using alloc_below [OF inv p, of tid' q] owns_fresh [OF f(2)] p by auto
qed

text \<open>What \<open>Deallocate\<close> leaves at the released node: a tree with no allocation in it.\<close>

definition rebuilt :: "trie \<Rightarrow> trie" where
  "rebuilt n = (if fst (mask_size (net_mask (Prefix n))) < 30
     then projr (node_Build build_fuel (TrieNode (Prefix n) False [] Nil Nil) 30)
     else TrieNode (Prefix n) False [] Nil Nil)"

lemma rebuilt_ok:
  assumes "net_pfx (Prefix n) bs"
  shows "wf_trie (rebuilt n) bs" "fresh (rebuilt n)"
    "fst (mask_size (net_mask (Prefix n))) < 30 \<Longrightarrow>
       node_Build build_fuel (TrieNode (Prefix n) False [] Nil Nil) 30 = Inr (rebuilt n)"
proof -
  let ?n = "TrieNode (Prefix n) False [] Nil Nil"
  have "\<exists>t. buildRecursive build_fuel ?n 30 = Inr t \<and> wf_trie t bs \<and> fresh t"
    by (rule buildRecursive_ok) (use assms in \<open>auto simp: build_fuel_def\<close>)
  then obtain t where t: "node_Build build_fuel ?n 30 = Inr t" "wf_trie t bs" "fresh t"
    by (auto simp: node_Build_eq)
  have "wf_trie ?n bs" "fresh ?n" using assms by (auto simp: fresh_def)
  with t show "wf_trie (rebuilt n) bs" "fresh (rebuilt n)"
    "fst (mask_size (net_mask (Prefix n))) < 30 \<Longrightarrow> node_Build build_fuel ?n 30 = Inr (rebuilt n)"
    by (auto simp: rebuilt_def)
qed

lemma Deallocate_eq:
  assumes inv: "trie_inv t rb" and p: "AllocMap t tid = Some p" "p \<noteq> []"
  shows "Deallocate t tid =
    Inr (t\<lparr>Root := upd_at p rebuilt (Root t), AllocMap := (AllocMap t)(tid := None)\<rparr>)"
proof -
  let ?n = "node_at (Root t) p" and ?free = "set_alloc False []"
  let ?r1 = "upd_at p ?free (Root t)"
  have nn: "?n \<noteq> Nil" by (subst alloc_node(1) [OF inv p(1)]) simp
  have f: "?free ?n = TrieNode (Prefix ?n) False [] Nil Nil"
    by (subst alloc_node(1) [OF inv p(1)]) simp
  have n1: "node_at ?r1 p = TrieNode (Prefix ?n) False [] Nil Nil"
    using upd_at_same [OF nn, of ?free] f by simp
  have r1: "upd_at p g ?r1 = upd_at p (\<lambda>n. g (?free n)) (Root t)" for g
    by (rule upd_at_twice [OF nn])
  have cong: "upd_at p f (Root t) = upd_at p g (Root t)" if "f ?n = g ?n" for f g
    using upd_at_cong [OF nn] that by blast
  have n2: "node_at (upd_at p (set_children Nil Nil) ?r1) p = TrieNode (Prefix ?n) False [] Nil Nil"
    using upd_at_same [of ?r1 p "set_children Nil Nil"] n1 by simp
  note rb = rebuilt_ok [OF alloc_node(2) [OF inv p(1)]]
  show ?thesis
  proof (cases "fst (mask_size (net_mask (Prefix ?n))) < 30")
    case True
    have "upd_at p (\<lambda>_. rebuilt ?n) (upd_at p (set_children Nil Nil) ?r1) = upd_at p rebuilt (Root t)"
      using n1 by (subst upd_at_twice) (auto simp: r1 intro!: cong)
    then show ?thesis
      using True p rb(3) n2 by (simp add: Deallocate_def GetNodeByID_def Let_def n1)
  next
    case False
    have "?r1 = upd_at p rebuilt (Root t)"
      by (rule cong) (use False f in \<open>simp add: rebuilt_def\<close>)
    note this [symmetric, simp]
    show ?thesis
      using False p n1 by (simp add: Deallocate_def GetNodeByID_def Let_def)
  qed
qed

lemma Deallocate_inv:
  assumes "trie_inv t rb" "AllocMap t tid = Some p"
  shows "trie_inv (t\<lparr>Root := upd_at p rebuilt (Root t), AllocMap := (AllocMap t)(tid := None)\<rparr>) rb"
  using free_inv [OF assms] rebuilt_ok [OF alloc_node(2) [OF assms]] by blast

subsection \<open>Merging and the expansion depth\<close>

lemma getSibling_eq: "wf_trie t bs \<Longrightarrow> node_at t (p @ [b]) \<noteq> Nil \<Longrightarrow>
    getSibling t (p @ [b]) = node_at t (p @ [\<not> b])"
  by (simp add: getSibling_def sibling_path_def)

lemma MaxExpandableDepth_root [simp]: "MaxExpandableDepth t [] = 0"
  by (simp add: MaxExpandableDepth_def)

lemma MaxExpandableDepth_snoc: "node_at t (p @ [b]) \<noteq> Nil \<Longrightarrow> MaxExpandableDepth t (p @ [b]) =
    (if hasAllocatedDescendants (node_at t (p @ [\<not> b])) then 0 else Suc (MaxExpandableDepth t p))"
proof -
  assume n: "node_at t (p @ [b]) \<noteq> Nil"
  have a: "Allocated s \<Longrightarrow> hasAllocatedDescendants s" for s by (cases s) auto
  show ?thesis
    using n a by (auto simp: MaxExpandableDepth_def getSibling_def sibling_path_def
        hasAllocatedDescendant_eq Let_def)
qed

lemma Merge_root: "AllocMap t tid = Some [] \<Longrightarrow> Merge t tid = Inl EmptyNode"
  by (simp add: Merge_def GetNodeByID_def)

definition merged :: "iptrie \<Rightarrow> string \<Rightarrow> path \<Rightarrow> iptrie" where
  "merged t tid p =
     t\<lparr>Root := upd_at p (\<lambda>n. set_children Nil Nil (set_alloc True tid n)) (Root t),
       AllocMap := (AllocMap t)(tid \<mapsto> p)\<rparr>"

lemma parent_node:
  assumes "trie_inv t rb" "AllocMap t tid = Some (p @ [b])"
  obtains x l r where "node_at (Root t) p = TrieNode x False [] l r" "l \<noteq> Nil" "r \<noteq> Nil"
    "net_pfx x (rb @ p)"
proof -
  have "node_at (Root t) (p @ [b]) \<noteq> Nil" by (subst alloc_node(1) [OF assms]) simp
  then show ?thesis
    using wf_trie_at [OF trie_invD(3) [OF assms(1)], of p] that
    by (cases "node_at (Root t) p") (auto simp: node_at_snoc split: if_splits)
qed

lemma Merge_eq:
  assumes inv: "trie_inv t rb" and p: "AllocMap t tid = Some (p @ [b])"
  shows "Merge t tid =
    (if MaxExpandableDepth (Root t) (p @ [b]) = 0
     then Inl (CannotMerge tid (ID (node_at (Root t) (p @ [\<not> b]))))
     else Inr (merged t tid p))"
proof -
  let ?s = "node_at (Root t) (p @ [\<not> b])"
  have n: "node_at (Root t) (p @ [b]) \<noteq> Nil" by (subst alloc_node(1) [OF inv p]) simp
  have i: "ID (node_at (Root t) (p @ [b])) = tid" by (subst alloc_node(1) [OF inv p]) simp
  have s: "?s \<noteq> Nil" by (rule wf_trie_sibling [OF trie_invD(3) [OF inv] n])
  have a: "Allocated ?s \<Longrightarrow> hasAllocatedDescendants ?s" by (cases ?s) auto
  obtain x l r where "node_at (Root t) p = TrieNode x False [] l r" using parent_node [OF inv p] .
  then show ?thesis
    using s a i MaxExpandableDepth_snoc [OF n]
    by (auto simp: Merge_def GetNodeByID_def p sibling_path_def merged_def Let_def)
qed

lemma Merge_inv:
  assumes inv: "trie_inv t rb" and p: "AllocMap t tid = Some (p @ [b])"
    and d: "MaxExpandableDepth (Root t) (p @ [b]) \<noteq> 0"
  shows "trie_inv (merged t tid p) rb"
  unfolding merged_def
proof (rule trie_inv_upd [OF inv])
  let ?n = "node_at (Root t) p" and ?f = "\<lambda>n. set_children Nil Nil (set_alloc True tid n)"
  obtain x l r where n: "?n = TrieNode x False [] l r" "l \<noteq> Nil" "r \<noteq> Nil" "net_pfx x (rb @ p)"
    using parent_node [OF inv p] .
  show "?n \<noteq> Nil" "wf_trie (?f ?n) (rb @ p)" "?f ?n \<noteq> Nil" using n by auto
  have o: "owns (?f ?n) q tid' \<longleftrightarrow> q = [] \<and> tid' = tid" for q tid'
    by (cases q) (auto simp: owns_def n)
  have nn: "node_at (Root t) (p @ [b]) \<noteq> Nil" by (subst alloc_node(1) [OF inv p]) simp
  have sib: "\<not> hasAllocatedDescendants (node_at (Root t) (p @ [\<not> b]))"
    using d MaxExpandableDepth_snoc [OF nn] by (auto split: if_splits)
  have only: "tid' = tid" if q: "AllocMap t tid' = Some (p @ q)" for tid' q
  proof -
    have ow: "owns (Root t) (p @ q) tid'" using q trie_invD(4) [OF inv] by blast
    then have "q \<noteq> []" using n by (auto simp: owns_def)
    then obtain c q' where c: "q = c # q'" by (cases q) auto
    have "c = b"
    proof (rule ccontr)
      assume "c \<noteq> b"
      then have "Allocated (node_at (node_at (Root t) (p @ [\<not> b])) q')"
        using ow c by (simp add: owns_def flip: node_at_append)
      with sib show False by (auto simp: hasAllocatedDescendants_iff)
    qed
    then have "prefix (p @ [b]) (p @ q)" using c by simp
    then show ?thesis using alloc_below [OF inv p q] by simp
  qed
  show "((AllocMap t)(tid \<mapsto> p)) tid' = Some q \<longleftrightarrow>
      (if prefix p q then owns (?f ?n) (drop (length p) q) tid' else AllocMap t tid' = Some q)"
    for tid' q
  proof (cases "prefix p q")
    case True
    then obtain r where "q = p @ r" by (auto simp: prefix_def)
    then show ?thesis using only [of tid' r] by (auto simp: o)
  next
    case False
    then show ?thesis using p by auto
  qed
qed

text \<open>The siblings on the way up from \<open>p\<close> are outside the subtree at \<open>p\<close>.\<close>

lemma MaxExpandableDepth_upd:
  "node_at t p \<noteq> Nil \<Longrightarrow> f (node_at t p) \<noteq> Nil \<Longrightarrow> prefix q p \<Longrightarrow>
   MaxExpandableDepth (upd_at p f t) q = MaxExpandableDepth t q"
proof (induction q rule: rev_induct)
  case Nil
  then show ?case by simp
next
  case (snoc b q)
  obtain r where r: "p = (q @ [b]) @ r" using snoc.prems(3) by (auto simp: prefix_def)
  have t: "node_at t (q @ [b]) \<noteq> Nil" using snoc.prems(1) unfolding r node_at_append [of t "q @ [b]"] by auto
  have u: "node_at (upd_at p f t) (q @ [b]) \<noteq> Nil"
    using upd_at_same [OF snoc.prems(1), of f] snoc.prems(2) r
    by (metis node_at_Nil node_at_append)
  have s: "node_at (upd_at p f t) (q @ [\<not> b]) = node_at t (q @ [\<not> b])"
    by (rule upd_at_parallel) (auto simp: r parallel_def)
  show ?case
    using snoc MaxExpandableDepth_snoc [OF t] MaxExpandableDepth_snoc [OF u] s r by auto
qed

lemma merged_depth:
  assumes "trie_inv t rb" "AllocMap t tid = Some (p @ [b])"
    and d: "MaxExpandableDepth (Root t) (p @ [b]) = Suc d"
  shows "MaxExpandableDepth (Root (merged t tid p)) p = d"
proof -
  obtain x l r where n: "node_at (Root t) p = TrieNode x False [] l r"
    using parent_node [OF assms(1,2)] .
  have nn: "node_at (Root t) (p @ [b]) \<noteq> Nil" by (subst alloc_node(1) [OF assms(1,2)]) simp
  have "MaxExpandableDepth (Root t) p = d"
    using d MaxExpandableDepth_snoc [OF nn] by (auto split: if_splits)
  then show ?thesis
    using MaxExpandableDepth_upd [of "Root t" p] n by (simp add: merged_def)
qed

fun merges :: "nat \<Rightarrow> iptrie \<Rightarrow> string \<Rightarrow> trie_error + iptrie" where
  "merges 0 t tid = Inr t"
| "merges (Suc n) t tid = (case Merge t tid of Inl e \<Rightarrow> Inl e | Inr t' \<Rightarrow> merges n t' tid)"

lemma merges_iff:
  "trie_inv t rb \<Longrightarrow> AllocMap t tid = Some p \<Longrightarrow>
   is_ok (merges n t tid) \<longleftrightarrow> n \<le> MaxExpandableDepth (Root t) p"
proof (induction n arbitrary: t p)
  case 0
  then show ?case by simp
next
  case (Suc n)
  show ?case
  proof (cases p rule: rev_cases)
    case Nil
    then show ?thesis using Suc.prems(2) by (simp add: Merge_root)
  next
    case (snoc q b)
    show ?thesis
    proof (cases "MaxExpandableDepth (Root t) p")
      case 0
      then show ?thesis using Merge_eq [OF Suc.prems(1)] Suc.prems(2) snoc by simp
    next
      case (Suc d)
      have "trie_inv (merged t tid q) rb"
        using Merge_inv [OF Suc.prems(1)] Suc.prems(2) snoc Suc by simp
      moreover have "AllocMap (merged t tid q) tid = Some q" by (simp add: merged_def)
      ultimately have "is_ok (merges n (merged t tid q) tid) \<longleftrightarrow> n \<le> d"
        using Suc.IH merged_depth [OF Suc.prems(1)] Suc.prems(2) snoc Suc by metis
      then show ?thesis
        using Merge_eq [OF Suc.prems(1)] Suc.prems(2) snoc Suc by simp
    qed
  qed
qed

end
