(* ===== verification/Subnet_Manager.thy ===== *)
theory Subnet_Manager
  imports Trie_Invariant
begin

text \<open>
  The subnet manager of a node: the interface \<open>SubnetManager\<close> of \<open>pkg/network/subnet/manager.go\<close>,
  stated as a locale with the laws its callers rely on, and \<open>TrieManager\<close> of
  \<open>pkg/network/subnet/trie/trie.go\<close>, which implements it over the prefix trie. The mutex makes every
  method one step, so a run of the manager is a sequence of the step functions below.
\<close>

subsection \<open>TrieManager\<close>

record trie_manager =
  tm_t :: iptrie
  leafSize :: int

datatype subnet_error =
    EmptyID
  | UnknownTenant string
  | SameAsRoot string
  | AtLeaf int
  | ReduceSplit trie_error
  | MissingAfterMerge string
  | TrieError trie_error

definition NewTrieManager :: "ipnet \<Rightarrow> int \<Rightarrow> trie_error + trie_manager" where
  "NewTrieManager root leafMask =
     (case Build (NewTrie root) leafMask of
        Inl e \<Rightarrow> Inl e
      | Inr t \<Rightarrow> Inr \<lparr>tm_t = t, leafSize = leafMask\<rparr>)"

text \<open>The prefix of the node a pointer leads to.\<close>

definition node_prefix :: "iptrie \<Rightarrow> path \<Rightarrow> ipnet" where
  "node_prefix t p = Prefix (node_at (Root t) p)"

definition tm_Allocate :: "trie_manager \<Rightarrow> string \<Rightarrow> subnet_error + (trie_manager \<times> ipnet)" where
  "tm_Allocate s tid =
     (if tid = [] then Inl EmptyID
      else case GetNodeByID (tm_t s) tid of
             Some existing \<Rightarrow> Inr (s, node_prefix (tm_t s) existing)
           | None \<Rightarrow>
               (case Allocate (tm_t s) tid of
                  Inl e \<Rightarrow> Inl (TrieError e)
                | Inr (t', n) \<Rightarrow> Inr (s\<lparr>tm_t := t'\<rparr>, node_prefix t' n)))"

definition tm_Deallocate :: "trie_manager \<Rightarrow> string \<Rightarrow> subnet_error + trie_manager" where
  "tm_Deallocate s tid =
     (if tid = [] then Inl EmptyID
      else if GetNodeByID (tm_t s) tid = None then Inr s
      else case Deallocate (tm_t s) tid of
             Inl e \<Rightarrow> Inl (TrieError e)
           | Inr t' \<Rightarrow> Inr (s\<lparr>tm_t := t'\<rparr>))"

text \<open>
  The comparison \<open>n.Prefix == rt\<close> of \<open>Expand\<close> compares pointers: only the root node was made from
  the root network itself, so it holds exactly at the empty path.
\<close>

definition tm_Expand :: "trie_manager \<Rightarrow> string \<Rightarrow> subnet_error + (trie_manager \<times> ipnet)" where
  "tm_Expand s tid =
     (if tid = [] then Inl EmptyID
      else case GetNodeByID (tm_t s) tid of
             None \<Rightarrow> Inl (UnknownTenant tid)
           | Some n \<Rightarrow>
               if n = [] then Inl (UnknownTenant tid)
               else if n = [] then Inl (SameAsRoot tid)
               else case Merge (tm_t s) tid of
                      Inl e \<Rightarrow> Inl (TrieError e)
                    | Inr t' \<Rightarrow>
                        (case GetNodeByID t' tid of
                           None \<Rightarrow> Inl (MissingAfterMerge tid)
                         | Some nM \<Rightarrow> Inr (s\<lparr>tm_t := t'\<rparr>, node_prefix t' nM)))"

definition tm_Reduce :: "trie_manager \<Rightarrow> string \<Rightarrow> subnet_error + (trie_manager \<times> ipnet)" where
  "tm_Reduce s tid =
     (if tid = [] then Inl EmptyID
      else case GetNodeByID (tm_t s) tid of
             None \<Rightarrow> Inl (UnknownTenant tid)
           | Some n \<Rightarrow>
               let t = tm_t s; maskSize = fst (mask_size (net_mask (node_prefix t n))) in
               if maskSize \<ge> leafSize s then Inl (AtLeaf (leafSize s))
               else case SplitSubnet (node_prefix t n) (maskSize + 1) of
                      Inl e \<Rightarrow> Inl (ReduceSplit e)
                    | Inr (c0, c1) \<Rightarrow>
                        let oldID = ID (node_at (Root t) n);
                            left = set_alloc True oldID (NewTrieNode c0);
                            right = NewTrieNode c1;
                            demote = (\<lambda>m. set_alloc False [] (set_children left right m))
                        in Inr (s\<lparr>tm_t := t\<lparr>Root := upd_at n demote (Root t),
                                            AllocMap := (AllocMap t)(oldID \<mapsto> n @ [False])\<rparr>\<rparr>, c0))"

definition tm_Release :: "trie_manager \<Rightarrow> string \<Rightarrow> subnet_error + trie_manager" where
  "tm_Release s tid =
     (if tid = [] then Inl EmptyID
      else case GetNodeByID (tm_t s) tid of
             None \<Rightarrow> Inr s
           | Some n \<Rightarrow>
               (case Deallocate (tm_t s) tid of
                  Inl e \<Rightarrow> Inl (TrieError e)
                | Inr t' \<Rightarrow> Inr (s\<lparr>tm_t := t'\<rparr>)))"

definition tm_Get :: "trie_manager \<Rightarrow> string \<Rightarrow> subnet_error + ipnet" where
  "tm_Get s tid =
     (case GetNodeByID (tm_t s) tid of
        None \<Rightarrow> Inl (UnknownTenant tid)
      | Some n \<Rightarrow> Inr (node_prefix (tm_t s) n))"

definition tm_List :: "trie_manager \<Rightarrow> (string \<rightharpoonup> ipnet)" where
  "tm_List s = (\<lambda>tid. map_option (node_prefix (tm_t s)) (AllocMap (tm_t s) tid))"

definition tm_Root :: "trie_manager \<Rightarrow> ipnet" where
  "tm_Root s = RootCIDR (tm_t s)"

subsection \<open>The SubnetManager interface\<close>

text \<open>
  What the network manager relies on: \<open>subnets s\<close> is the view \<open>List()\<close> gives of the state. Subnets of
  different tenants never share an address, every subnet lies in the root network, and each
  operation changes the entry of its own tenant only.
\<close>

locale subnet_manager =
  fixes inv :: "'s \<Rightarrow> bool"
    and subnets :: "'s \<Rightarrow> string \<Rightarrow> ipnet option"
    and root :: "'s \<Rightarrow> ipnet"
    and alloc :: "'s \<Rightarrow> string \<Rightarrow> 'e + ('s \<times> ipnet)"
    and dealloc :: "'s \<Rightarrow> string \<Rightarrow> 'e + 's"
    and expand :: "'s \<Rightarrow> string \<Rightarrow> 'e + ('s \<times> ipnet)"
  assumes disjoint: "inv s \<Longrightarrow> subnets s i = Some n \<Longrightarrow> subnets s j = Some m \<Longrightarrow> i \<noteq> j \<Longrightarrow>
      \<not> (contains n a \<and> contains m a)"
    and within: "inv s \<Longrightarrow> subnets s i = Some n \<Longrightarrow> contains n a \<Longrightarrow> contains (root s) a"
    and alloc_ok: "inv s \<Longrightarrow> alloc s i = Inr (s', n) \<Longrightarrow>
      inv s' \<and> subnets s' = (subnets s)(i \<mapsto> n) \<and> root s' = root s"
    and alloc_again: "inv s \<Longrightarrow> subnets s i = Some n \<Longrightarrow> alloc s i = Inr (s', n') \<Longrightarrow> s' = s \<and> n' = n"
    and dealloc_ok: "inv s \<Longrightarrow> dealloc s i = Inr s' \<Longrightarrow>
      inv s' \<and> subnets s' = (subnets s)(i := None) \<and> root s' = root s"
    and expand_ok: "inv s \<Longrightarrow> expand s i = Inr (s', n) \<Longrightarrow>
      inv s' \<and> subnets s' = (subnets s)(i \<mapsto> n) \<and> root s' = root s"
    and expand_grows: "inv s \<Longrightarrow> expand s i = Inr (s', n) \<Longrightarrow>
      \<exists>old. subnets s i = Some old \<and> (\<forall>a. contains old a \<longrightarrow> contains n a)"
begin

lemma alloc_fresh_range:
  assumes "inv s" "alloc s i = Inr (s', n)" "subnets s j = Some m" "j \<noteq> i"
  shows "\<not> (contains n a \<and> contains m a)"
  using disjoint [of s' i n j m a] alloc_ok [OF assms(1,2)] assms(3,4) by auto

lemma expand_fresh_range:
  assumes "inv s" "expand s i = Inr (s', n)" "subnets s j = Some m" "j \<noteq> i"
  shows "\<not> (contains n a \<and> contains m a)"
  using disjoint [of s' i n j m a] expand_ok [OF assms(1,2)] assms(3,4) by auto

lemma alloc_inside:
  assumes "inv s" "alloc s i = Inr (s', n)" "contains n a"
  shows "contains (root s) a"
  using within [of s' i n a] alloc_ok [OF assms(1,2)] assms(3) by auto

lemma realloc_after_dealloc:
  assumes "inv s" "dealloc s i = Inr s'" "alloc s' j = Inr (s'', n)" "i \<noteq> j" "subnets s j = None"
  shows "subnets s'' = (subnets s)(i := None, j \<mapsto> n)"
  using dealloc_ok [OF assms(1,2)] alloc_ok [of s' j s'' n] assms(3,4) by (auto simp: fun_upd_twist)

end

subsection \<open>TrieManager implements the interface\<close>

definition tm_inv :: "trie_manager \<Rightarrow> bool" where
  "tm_inv s \<longleftrightarrow> leafSize s \<le> 32 \<and> (\<exists>rb. trie_inv (tm_t s) rb)"

lemma node_prefix_pfx: "trie_inv t rb \<Longrightarrow> AllocMap t tid = Some p \<Longrightarrow> net_pfx (node_prefix t p) (rb @ p)"
  unfolding node_prefix_def by (rule alloc_node(2))

lemma tm_List_Some: "tm_List s tid = Some n \<longleftrightarrow> (\<exists>p. AllocMap (tm_t s) tid = Some p \<and> n = node_prefix (tm_t s) p)"
  by (auto simp: tm_List_def)

lemma node_prefix_same:
  "trie_inv t rb \<Longrightarrow> trie_inv t' rb \<Longrightarrow> AllocMap t tid = Some p \<Longrightarrow> AllocMap t' tid' = Some p \<Longrightarrow>
   node_prefix t p = node_prefix t' p"
  using node_prefix_pfx net_pfx_inject by blast

text \<open>A network is determined by its prefix, so only the entry whose path changed looks different.\<close>

lemma tm_List_upd:
  assumes "trie_inv (tm_t s) rb" "trie_inv (tm_t s') rb"
    "AllocMap (tm_t s') = (AllocMap (tm_t s))(tid \<mapsto> p)"
  shows "tm_List s' = (tm_List s)(tid \<mapsto> node_prefix (tm_t s') p)"
proof
  fix tid'
  show "tm_List s' tid' = ((tm_List s)(tid \<mapsto> node_prefix (tm_t s') p)) tid'"
  proof (cases "tid' = tid")
    case True
    then show ?thesis by (simp add: tm_List_def assms(3))
  next
    case False
    then have "AllocMap (tm_t s') tid' = AllocMap (tm_t s) tid'" by (simp add: assms(3))
    then have "tm_List s' tid' = tm_List s tid'"
      using node_prefix_same [OF assms(1,2), of tid' _ tid']
      by (cases "AllocMap (tm_t s) tid'") (auto simp: tm_List_def)
    with False show ?thesis by simp
  qed
qed

lemma tm_List_del:
  assumes "trie_inv (tm_t s) rb" "trie_inv (tm_t s') rb"
    "AllocMap (tm_t s') = (AllocMap (tm_t s))(tid := None)"
  shows "tm_List s' = (tm_List s)(tid := None)"
proof
  fix tid'
  show "tm_List s' tid' = ((tm_List s)(tid := None)) tid'"
  proof (cases "tid' = tid")
    case True
    then show ?thesis by (simp add: tm_List_def assms(3))
  next
    case False
    then have "AllocMap (tm_t s') tid' = AllocMap (tm_t s) tid'" by (simp add: assms(3))
    then have "tm_List s' tid' = tm_List s tid'"
      using node_prefix_same [OF assms(1,2), of tid' _ tid']
      by (cases "AllocMap (tm_t s) tid'") (auto simp: tm_List_def)
    with False show ?thesis by simp
  qed
qed

lemma NewTrieManager_inv:
  assumes "net_pfx root rb" "leaf \<le> 32"
  shows "\<exists>s. NewTrieManager root leaf = Inr s \<and> trie_inv (tm_t s) rb \<and> leafSize s = leaf \<and>
    tm_Root s = root \<and> tm_List s = Map.empty"
  using Build_inv [OF assms] by (auto simp: NewTrieManager_def tm_Root_def tm_List_def)

lemma tm_Allocate_Some:
  "tid \<noteq> [] \<Longrightarrow> AllocMap (tm_t s) tid = Some p \<Longrightarrow> tm_Allocate s tid = Inr (s, node_prefix (tm_t s) p)"
  by (simp add: tm_Allocate_def GetNodeByID_def)

lemma tm_Allocate_None:
  assumes inv: "trie_inv (tm_t s) rb" and new: "AllocMap (tm_t s) tid = None"
    and r: "tm_Allocate s tid = Inr (s', n)"
  obtains xs p ys where "FindAllFree (tm_t s) = xs @ p # ys" "free_leaf (Root (tm_t s)) p"
    "\<forall>x\<in>set (FindAllFree (tm_t s)). MaxExpandableDepth (Root (tm_t s)) x \<le> MaxExpandableDepth (Root (tm_t s)) p"
    "s' = s\<lparr>tm_t := (tm_t s)\<lparr>Root := upd_at p (set_alloc True tid) (Root (tm_t s)),
                               AllocMap := (AllocMap (tm_t s))(tid \<mapsto> p)\<rparr>\<rparr>"
    "n = node_prefix (tm_t s') p" "trie_inv (tm_t s') rb"
proof -
  have "tid \<noteq> []" using r by (auto simp: tm_Allocate_def)
  then obtain t' p where a: "Allocate (tm_t s) tid = Inr (t', p)" "s' = s\<lparr>tm_t := t'\<rparr>" "n = node_prefix t' p"
    using r new by (auto simp: tm_Allocate_def GetNodeByID_def split: sum.splits)
  obtain xs ys where c: "FindAllFree (tm_t s) = xs @ p # ys" "free_leaf (Root (tm_t s)) p"
    "\<forall>x\<in>set xs. MaxExpandableDepth (Root (tm_t s)) x < MaxExpandableDepth (Root (tm_t s)) p"
    "\<forall>y\<in>set ys. MaxExpandableDepth (Root (tm_t s)) y \<le> MaxExpandableDepth (Root (tm_t s)) p"
    "t' = (tm_t s)\<lparr>Root := upd_at p (set_alloc True tid) (Root (tm_t s)), AllocMap := (AllocMap (tm_t s))(tid \<mapsto> p)\<rparr>"
    using Allocate_cases [OF inv new] a(1) by auto
  show ?thesis
    by (rule that [OF c(1,2)]) (use c a Allocate_inv [OF inv c(2) new] in \<open>auto simp: less_imp_le\<close>)
qed

lemma tm_Allocate_ok:
  assumes inv: "trie_inv (tm_t s) rb" and r: "tm_Allocate s tid = Inr (s', n)"
  shows "trie_inv (tm_t s') rb \<and> leafSize s' = leafSize s \<and> tm_Root s' = tm_Root s \<and>
    tm_List s' = (tm_List s)(tid \<mapsto> n)"
proof (cases "AllocMap (tm_t s) tid")
  case (Some p)
  have "tid \<noteq> []" using r by (auto simp: tm_Allocate_def)
  then have "s' = s" "n = node_prefix (tm_t s) p" using tm_Allocate_Some [OF _ Some] r by auto
  with inv Some show ?thesis by (auto simp: tm_List_def)
next
  case None
  obtain p where "s' = s\<lparr>tm_t := (tm_t s)\<lparr>Root := upd_at p (set_alloc True tid) (Root (tm_t s)),
                               AllocMap := (AllocMap (tm_t s))(tid \<mapsto> p)\<rparr>\<rparr>"
    "n = node_prefix (tm_t s') p" "trie_inv (tm_t s') rb"
    using tm_Allocate_None [OF inv None r] by metis
  then show ?thesis using tm_List_upd [OF inv] by (simp add: tm_Root_def)
qed

lemma tm_Deallocate_ok:
  assumes inv: "trie_inv (tm_t s) rb" and r: "tm_Deallocate s tid = Inr s'"
  shows "trie_inv (tm_t s') rb \<and> leafSize s' = leafSize s \<and> tm_Root s' = tm_Root s \<and>
    tm_List s' = (tm_List s)(tid := None)"
proof (cases "AllocMap (tm_t s) tid")
  case None
  then have "s' = s" using r by (auto simp: tm_Deallocate_def GetNodeByID_def split: if_splits)
  then show ?thesis using inv None by (auto simp: tm_List_def)
next
  case (Some p)
  have "tid \<noteq> []" using r by (auto simp: tm_Deallocate_def)
  have p: "p \<noteq> []"
    using r Some by (auto simp: tm_Deallocate_def GetNodeByID_def Deallocate_def split: if_splits)
  have s': "s' = s\<lparr>tm_t := (tm_t s)\<lparr>Root := upd_at p rebuilt (Root (tm_t s)),
      AllocMap := (AllocMap (tm_t s))(tid := None)\<rparr>\<rparr>"
    using r Some \<open>tid \<noteq> []\<close> Deallocate_eq [OF inv Some p]
    by (auto simp: tm_Deallocate_def GetNodeByID_def)
  then have "trie_inv (tm_t s') rb" using Deallocate_inv [OF inv Some] by simp
  with s' show ?thesis using tm_List_del [OF inv] by (simp add: tm_Root_def)
qed

lemma tm_Expand_merged:
  assumes inv: "trie_inv (tm_t s) rb" and r: "tm_Expand s tid = Inr (s', n)"
  obtains q b where "AllocMap (tm_t s) tid = Some (q @ [b])" "s' = s\<lparr>tm_t := merged (tm_t s) tid q\<rparr>"
    "n = node_prefix (tm_t s') q" "trie_inv (tm_t s') rb"
proof -
  obtain p where p: "AllocMap (tm_t s) tid = Some p" "p \<noteq> []"
    using r by (auto simp: tm_Expand_def GetNodeByID_def split: option.splits if_splits)
  then obtain q b where q: "p = q @ [b]" by (cases p rule: rev_cases) auto
  have d: "MaxExpandableDepth (Root (tm_t s)) (q @ [b]) \<noteq> 0"
    and m: "Merge (tm_t s) tid = Inr (merged (tm_t s) tid q)"
    using r p q Merge_eq [OF inv, of tid q b]
    by (auto simp: tm_Expand_def GetNodeByID_def split: if_splits)
  have "s' = s\<lparr>tm_t := merged (tm_t s) tid q\<rparr>" "n = node_prefix (tm_t s') q"
    using r p q m by (auto simp: tm_Expand_def GetNodeByID_def merged_def split: if_splits)
  moreover have "trie_inv (tm_t s') rb"
    using Merge_inv [OF inv _ d] p q calculation(1) by simp
  ultimately show ?thesis using that p q by blast
qed

lemma tm_Expand_ok:
  assumes inv: "trie_inv (tm_t s) rb" and r: "tm_Expand s tid = Inr (s', n)"
  shows "trie_inv (tm_t s') rb \<and> leafSize s' = leafSize s \<and> tm_Root s' = tm_Root s \<and>
    tm_List s' = (tm_List s)(tid \<mapsto> n)"
proof -
  obtain q b where "AllocMap (tm_t s) tid = Some (q @ [b])" "s' = s\<lparr>tm_t := merged (tm_t s) tid q\<rparr>"
    "n = node_prefix (tm_t s') q" "trie_inv (tm_t s') rb"
    using tm_Expand_merged [OF inv r] .
  then show ?thesis using tm_List_upd [OF inv] by (simp add: tm_Root_def merged_def)
qed

lemma tm_Reduce_ok:
  assumes inv: "trie_inv (tm_t s) rb" and leaf: "leafSize s \<le> 32" and r: "tm_Reduce s tid = Inr (s', n)"
  shows "trie_inv (tm_t s') rb \<and> leafSize s' = leafSize s \<and> tm_Root s' = tm_Root s \<and>
    tm_List s' = (tm_List s)(tid \<mapsto> n)"
proof -
  let ?t = "tm_t s"
  obtain p where p: "AllocMap ?t tid = Some p"
    using r by (auto simp: tm_Reduce_def GetNodeByID_def split: option.splits if_splits)
  let ?n = "node_at (Root ?t) p"
  note node = alloc_node(1) [OF inv p] and pfx = alloc_node(2) [OF inv p]
  have ms: "fst (mask_size (net_mask (node_prefix ?t p))) = int (length (rb @ p))"
    using net_pfxD(5) [OF pfx] by (simp add: node_prefix_def)
  have lt: "int (length (rb @ p)) < leafSize s"
    using r p ms by (auto simp: tm_Reduce_def GetNodeByID_def Let_def split: if_splits)
  then have "length (rb @ p) < 32" using leaf by linarith
  then obtain c0 c1 where c: "SplitSubnet (node_prefix ?t p) (int (length (rb @ p)) + 1) = Inr (c0, c1)"
    "net_pfx c0 ((rb @ p) @ [False])" "net_pfx c1 ((rb @ p) @ [True])"
    using SplitSubnet_pfx [OF pfx] unfolding node_prefix_def by (metis less_add_one)
  let ?f = "\<lambda>m. set_alloc False [] (set_children (set_alloc True tid (NewTrieNode c0)) (NewTrieNode c1) m)"
  let ?t' = "?t\<lparr>Root := upd_at p ?f (Root ?t), AllocMap := (AllocMap ?t)(tid \<mapsto> p @ [False])\<rparr>"
  have i: "ID ?n = tid" by (subst node) simp
  have s': "s' = s\<lparr>tm_t := ?t'\<rparr>" "n = c0"
    using r p c(1) lt ms i by (auto simp: tm_Reduce_def GetNodeByID_def Let_def split: if_splits)
  have fn: "?f ?n = TrieNode (Prefix ?n) False [] (TrieNode c0 True tid Nil Nil) (TrieNode c1 False [] Nil Nil)"
    by (subst node) (simp add: NewTrieNode_def)
  have nn: "?n \<noteq> Nil" by (subst node) simp
  have o: "owns (?f ?n) q tid' \<longleftrightarrow> q = [False] \<and> tid' = tid" for q tid'
    unfolding fn owns_def by (cases q; cases "tl q") (auto simp: node_at_Child)
  have "trie_inv ?t' rb"
  proof (rule trie_inv_upd [OF inv nn])
    show "wf_trie (?f ?n) (rb @ p)" "?f ?n \<noteq> Nil" using c pfx by (auto simp: fn)
    show "((AllocMap ?t)(tid \<mapsto> p @ [False])) tid' = Some q \<longleftrightarrow>
        (if prefix p q then owns (?f ?n) (drop (length p) q) tid' else AllocMap ?t tid' = Some q)"
      for tid' q
    proof (cases "prefix p q")
      case True
      then obtain r where q: "q = p @ r" by (auto simp: prefix_def)
      have "AllocMap ?t tid' = Some q \<longleftrightarrow> r = [] \<and> tid' = tid"
        using alloc_below [OF inv p, of tid' q] q p by auto
      then show ?thesis using True q by (auto simp: o)
    next
      case False
      then show ?thesis using p by auto
    qed
  qed
  moreover have "node_prefix ?t' (p @ [False]) = c0"
    using upd_at_below [OF nn, of ?f "[False]"] fn by (simp add: node_prefix_def)
  ultimately show ?thesis
    using tm_List_upd [OF inv, of s' tid "p @ [False]"] s' by (simp add: tm_Root_def)
qed

lemma tm_Release_eq: "tm_Release s tid = tm_Deallocate s tid"
  by (auto simp: tm_Release_def tm_Deallocate_def split: option.splits)

interpretation tm: subnet_manager tm_inv tm_List tm_Root tm_Allocate tm_Deallocate tm_Expand
proof unfold_locales
  fix s i n j m a
  assume "tm_inv s" "tm_List s i = Some n" "tm_List s j = Some m" "i \<noteq> j"
  then obtain rb p q where "trie_inv (tm_t s) rb" "AllocMap (tm_t s) i = Some p" "AllocMap (tm_t s) j = Some q"
    "n = node_prefix (tm_t s) p" "m = node_prefix (tm_t s) q"
    unfolding tm_inv_def tm_List_Some by blast
  then show "\<not> (contains n a \<and> contains m a)"
    using alloc_disjoint [of "tm_t s" rb i p j q a] \<open>i \<noteq> j\<close> by (simp add: node_prefix_def)
next
  fix s i n a
  assume "tm_inv s" "tm_List s i = Some n" "contains n a"
  then obtain rb p where "trie_inv (tm_t s) rb" "AllocMap (tm_t s) i = Some p" "n = node_prefix (tm_t s) p"
    unfolding tm_inv_def tm_List_Some by blast
  then show "contains (tm_Root s) a"
    using alloc_in_root [of "tm_t s" rb i p a] \<open>contains n a\<close> by (simp add: node_prefix_def tm_Root_def)
next
  fix s i s' n
  assume "tm_inv s" "tm_Allocate s i = Inr (s', n)"
  then show "tm_inv s' \<and> tm_List s' = (tm_List s)(i \<mapsto> n) \<and> tm_Root s' = tm_Root s"
    using tm_Allocate_ok by (fastforce simp: tm_inv_def)
next
  fix s i n s' n'
  assume "tm_inv s" "tm_List s i = Some n" "tm_Allocate s i = Inr (s', n')"
  then show "s' = s \<and> n' = n"
    by (auto simp: tm_List_Some tm_Allocate_def GetNodeByID_def split: if_splits)
next
  fix s i s'
  assume "tm_inv s" "tm_Deallocate s i = Inr s'"
  then show "tm_inv s' \<and> tm_List s' = (tm_List s)(i := None) \<and> tm_Root s' = tm_Root s"
    using tm_Deallocate_ok by (fastforce simp: tm_inv_def)
next
  fix s i s' n
  assume "tm_inv s" "tm_Expand s i = Inr (s', n)"
  then show "tm_inv s' \<and> tm_List s' = (tm_List s)(i \<mapsto> n) \<and> tm_Root s' = tm_Root s"
    using tm_Expand_ok by (fastforce simp: tm_inv_def)
next
  fix s i s' n
  assume a: "tm_inv s" "tm_Expand s i = Inr (s', n)"
  then obtain rb where inv: "trie_inv (tm_t s) rb" by (auto simp: tm_inv_def)
  obtain q b where e: "AllocMap (tm_t s) i = Some (q @ [b])" "s' = s\<lparr>tm_t := merged (tm_t s) i q\<rparr>"
    "n = node_prefix (tm_t s') q" "trie_inv (tm_t s') rb"
    using tm_Expand_merged [OF inv a(2)] .
  have "AllocMap (tm_t s') i = Some q" using e(2) by (simp add: merged_def)
  then have "\<forall>a. contains (node_prefix (tm_t s) (q @ [b])) a \<longrightarrow> contains n a"
    using contains_mono [OF node_prefix_pfx [OF e(4)] node_prefix_pfx [OF inv e(1)]] e(3) by auto
  then show "\<exists>old. tm_List s i = Some old \<and> (\<forall>a. contains old a \<longrightarrow> contains n a)"
    using e(1) by (auto simp: tm_List_Some)
qed

end
