(* ===== verification/Subnet_Properties.thy ===== *)
theory Subnet_Properties
  imports Subnet_Manager
begin

text \<open>
  Runs of the subnet manager. A state is reachable when a sequence of successful method calls leads
  to it from \<open>NewTrieManager\<close>; a failed call leaves the state alone. The properties at the end of
  the theory hold in every reachable state.
\<close>

subsection \<open>Runs\<close>

inductive tm_step :: "trie_manager \<Rightarrow> trie_manager \<Rightarrow> bool" where
  step_Allocate: "tm_Allocate s tid = Inr (s', n) \<Longrightarrow> tm_step s s'"
| step_Deallocate: "tm_Deallocate s tid = Inr s' \<Longrightarrow> tm_step s s'"
| step_Expand: "tm_Expand s tid = Inr (s', n) \<Longrightarrow> tm_step s s'"
| step_Reduce: "tm_Reduce s tid = Inr (s', n) \<Longrightarrow> tm_step s s'"
| step_Release: "tm_Release s tid = Inr s' \<Longrightarrow> tm_step s s'"

inductive tm_reach :: "ipnet \<Rightarrow> int \<Rightarrow> trie_manager \<Rightarrow> bool" for root leaf where
  reach_init: "NewTrieManager root leaf = Inr s \<Longrightarrow> tm_reach root leaf s"
| reach_step: "tm_reach root leaf s \<Longrightarrow> tm_step s s' \<Longrightarrow> tm_reach root leaf s'"

lemma tm_step_inv:
  assumes "tm_step s s'" "trie_inv (tm_t s) rb" "leafSize s \<le> 32"
  shows "trie_inv (tm_t s') rb \<and> leafSize s' = leafSize s \<and> tm_Root s' = tm_Root s"
  using assms(1)
proof cases
  case (step_Allocate tid n)
  then show ?thesis using tm_Allocate_ok [OF assms(2)] by blast
next
  case (step_Deallocate tid)
  then show ?thesis using tm_Deallocate_ok [OF assms(2)] by blast
next
  case (step_Expand tid n)
  then show ?thesis using tm_Expand_ok [OF assms(2)] by blast
next
  case (step_Reduce tid n)
  then show ?thesis using tm_Reduce_ok [OF assms(2,3)] by blast
next
  case (step_Release tid)
  then show ?thesis using tm_Deallocate_ok [OF assms(2)] by (simp add: tm_Release_eq)
qed

lemma tm_reach_inv:
  assumes "tm_reach root leaf s" "net_pfx root rb" "leaf \<le> 32"
  shows "trie_inv (tm_t s) rb" "leafSize s = leaf" "tm_Root s = root"
proof -
  have "trie_inv (tm_t s) rb \<and> leafSize s = leaf \<and> tm_Root s = root"
    using assms(1)
  proof (induction rule: tm_reach.induct)
    case (reach_init s)
    then show ?case using NewTrieManager_inv [OF assms(2,3)] by auto
  next
    case (reach_step s s')
    then show ?case using tm_step_inv [of s s' rb] assms(3) by auto
  qed
  then show "trie_inv (tm_t s) rb" "leafSize s = leaf" "tm_Root s = root" by auto
qed

lemma tm_reach_tm_inv: "tm_reach root leaf s \<Longrightarrow> net_pfx root rb \<Longrightarrow> leaf \<le> 32 \<Longrightarrow> tm_inv s"
  using tm_reach_inv [of root leaf s rb] by (auto simp: tm_inv_def)

subsection \<open>Every address is accounted for\<close>

text \<open>Following the bits of an address from the root ends at one leaf of the tree.\<close>

lemma leaf_on_path:
  assumes "wf_trie t bs" "t \<noteq> Nil" "length bs + length cs = 32"
  shows "\<exists>p. prefix p cs \<and> node_at t p \<noteq> Nil \<and> Child0 (node_at t p) = Nil \<and> Child1 (node_at t p) = Nil"
  using assms
proof (induction t arbitrary: bs cs)
  case (TrieNode x a i l r)
  show ?case
  proof (cases "l = Nil")
    case True
    then show ?thesis using TrieNode.prems(1) by (intro exI [of _ "[]"]) auto
  next
    case False
    then have r: "l \<noteq> Nil" "r \<noteq> Nil" using TrieNode.prems(1) by auto
    have "cs \<noteq> []"
    proof
      assume "cs = []"
      then have "length (bs @ [False]) \<le> 32"
        using wf_trie_length [of l "bs @ [False]" "[]"] TrieNode.prems(1) False by auto
      with TrieNode.prems(3) \<open>cs = []\<close> show False by simp
    qed
    then obtain b cs' where cs: "cs = b # cs'" by (cases cs) auto
    obtain p where "prefix p cs'" "node_at (if b then r else l) p \<noteq> Nil"
      "Child0 (node_at (if b then r else l) p) = Nil" "Child1 (node_at (if b then r else l) p) = Nil"
      using TrieNode.IH(1) [of "bs @ [False]" cs'] TrieNode.IH(2) [of "bs @ [True]" cs'] TrieNode.prems cs r
      by (cases b) auto
    then show ?thesis using cs by (intro exI [of _ "b # p"]) auto
  qed
qed simp

lemma leaf_free_or_owned:
  assumes "trie_inv t rb" "node_at (Root t) p \<noteq> Nil" "Child0 (node_at (Root t) p) = Nil" "Child1 (node_at (Root t) p) = Nil"
  shows "free_leaf (Root t) p \<or> (\<exists>tid. AllocMap t tid = Some p)"
proof (cases "Allocated (node_at (Root t) p)")
  case True
  then show ?thesis using trie_invD(4) [OF assms(1)] by (auto simp: owns_def)
next
  case False
  have "\<not> Allocated (node_at (Root t) q)" if q: "prefix q p" for q
  proof
    assume a: "Allocated (node_at (Root t) q)"
    obtain r where r: "p = q @ r" using q by (auto simp: prefix_def)
    with a False have "r \<noteq> []" by auto
    with r show False using wf_trie_alloc_leaf [OF trie_invD(3) [OF assms(1)] a] assms(2) by simp
  qed
  with assms show ?thesis by (auto simp: free_leaf_def)
qed

lemma free_leaf_parallel:
  assumes inv: "trie_inv t rb" and p: "free_leaf (Root t) p" and q: "AllocMap t tid = Some q"
  shows "p \<parallel> q"
proof -
  have "Allocated (node_at (Root t) q)" using q trie_invD(4) [OF inv] by (auto simp: owns_def)
  then have "\<not> prefix q p" using p by (auto simp: free_leaf_def)
  with free_leaf_unowned [OF inv p q] show ?thesis by (simp add: parallel_def)
qed

lemma free_leaf_pfx:
  assumes "trie_inv t rb" "free_leaf (Root t) p"
  shows "net_pfx (node_prefix t p) (rb @ p)"
  using wf_trie_pfx [OF trie_invD(3) [OF assms(1)]] assms(2) by (auto simp: free_leaf_def node_prefix_def)

lemma free_leaf_disjoint:
  assumes "trie_inv t rb" "free_leaf (Root t) p" "AllocMap t tid = Some q"
  shows "\<not> (contains (node_prefix t p) a \<and> contains (node_prefix t q) a)"
proof -
  have "\<not> prefix (rb @ p) (rb @ q) \<and> \<not> prefix (rb @ q) (rb @ p)"
    using free_leaf_parallel [OF assms] by (simp add: parallel_def)
  then show ?thesis
    using networks_meet_iff [OF free_leaf_pfx [OF assms(1,2)] node_prefix_pfx [OF assms(1,3)]] by blast
qed

lemma address_covered:
  assumes inv: "trie_inv t rb" and a: "contains (RootCIDR t) a"
  shows "(\<exists>tid p. AllocMap t tid = Some p \<and> contains (node_prefix t p) a) \<or>
    (\<exists>p. free_leaf (Root t) p \<and> contains (node_prefix t p) a)"
proof -
  have l: "length (to4 a) = 4" and pre: "prefix rb (ip_bits (to4 a))"
    using a contains_to4 [OF trie_invD(2) [OF inv]] by auto
  then obtain cs where cs: "ip_bits (to4 a) = rb @ cs" by (auto simp: prefix_def)
  have len: "length rb + length cs = 32"
    using arg_cong [OF cs, of length] l by simp
  obtain p where p: "prefix p cs" "node_at (Root t) p \<noteq> Nil"
    "Child0 (node_at (Root t) p) = Nil" "Child1 (node_at (Root t) p) = Nil"
    using leaf_on_path [OF trie_invD(3,1) [OF inv] len] by blast
  have "contains (node_prefix t p) a"
    using contains_to4 [OF wf_trie_pfx [OF trie_invD(3) [OF inv] p(2)]] l p(1)
    by (simp add: node_prefix_def cs)
  then show ?thesis using leaf_free_or_owned [OF inv p(2-4)] by blast
qed


subsection \<open>Repeated expansion\<close>

fun expands :: "nat \<Rightarrow> trie_manager \<Rightarrow> string \<Rightarrow> subnet_error + trie_manager" where
  "expands 0 s tid = Inr s"
| "expands (Suc k) s tid = (case tm_Expand s tid of Inl e \<Rightarrow> Inl e | Inr (s', n) \<Rightarrow> expands k s' tid)"

lemma tm_Expand_Merge:
  assumes "trie_inv (tm_t s) rb" "AllocMap (tm_t s) tid = Some p" "tid \<noteq> []"
  shows "(case tm_Expand s tid of Inl e \<Rightarrow> \<not> is_ok (Merge (tm_t s) tid)
    | Inr (s', n) \<Rightarrow> Merge (tm_t s) tid = Inr (tm_t s'))"
proof (cases p rule: rev_cases)
  case Nil
  then show ?thesis using assms Merge_root by (simp add: tm_Expand_def GetNodeByID_def)
next
  case (snoc q b)
  then show ?thesis
    using assms Merge_eq [OF assms(1), of tid q b]
    by (auto simp: tm_Expand_def GetNodeByID_def merged_def split: sum.splits if_splits)
qed

lemma expands_merges:
  "trie_inv (tm_t s) rb \<Longrightarrow> AllocMap (tm_t s) tid = Some p \<Longrightarrow> tid \<noteq> [] \<Longrightarrow>
   is_ok (expands k s tid) \<longleftrightarrow> is_ok (merges k (tm_t s) tid)"
proof (induction k arbitrary: s p)
  case 0
  then show ?case by simp
next
  case (Suc k)
  show ?case
  proof (cases "tm_Expand s tid")
    case (Inl e)
    then show ?thesis using tm_Expand_Merge [OF Suc.prems] by (auto simp: is_ok_iff split: sum.splits)
  next
    case (Inr x)
    then obtain s' n where x: "tm_Expand s tid = Inr (s', n)" by (cases x) auto
    obtain q b where e: "s' = s\<lparr>tm_t := merged (tm_t s) tid q\<rparr>" "trie_inv (tm_t s') rb"
      using tm_Expand_merged [OF Suc.prems(1) x] by metis
    then have "AllocMap (tm_t s') tid = Some q" by (simp add: merged_def)
    then have "is_ok (expands k s' tid) \<longleftrightarrow> is_ok (merges k (tm_t s') tid)"
      using Suc.IH e(2) Suc.prems(3) by blast
    moreover have "Merge (tm_t s) tid = Inr (tm_t s')" using tm_Expand_Merge [OF Suc.prems] x by simp
    ultimately show ?thesis using x by simp
  qed
qed

lemma prefix_split_bit: "length bs < length cs \<Longrightarrow> prefix bs cs \<longleftrightarrow> prefix (bs @ [False]) cs \<or> prefix (bs @ [True]) cs"
proof -
  assume l: "length bs < length cs"
  have "prefix (bs @ [cs ! length bs]) cs" if "prefix bs cs"
    using that l by (auto simp: prefix_def nth_append neq_Nil_conv)
  then show ?thesis by (cases "cs ! length bs") (auto dest: append_prefixD)
qed

subsection \<open>A concrete run\<close>

text \<open>A node with the network 10.0.0.0/28, on which the tenants a and b get a subnet each.\<close>

definition demo_root :: ipnet where
  "demo_root = \<lparr>net_ip = [10, 0, 0, 0], net_mask = cidr_mask 28 32\<rparr>"

definition demo_bits :: bits where
  "demo_bits = take 28 (ip_bits [10, 0, 0, 0])"

definition demo_start :: trie_manager where
  "demo_start = projr (NewTrieManager demo_root 30)"

definition demo_a :: trie_manager where
  "demo_a = fst (projr (tm_Allocate demo_start ''a''))"

definition demo_ab :: trie_manager where
  "demo_ab = fst (projr (tm_Allocate demo_a ''b''))"

lemma demo_pfx: "net_pfx demo_root demo_bits"
  by code_simp

lemma tm_step_projr: "is_ok (tm_Allocate s tid) \<Longrightarrow> tm_step s (fst (projr (tm_Allocate s tid)))"
  by (cases "tm_Allocate s tid") (auto intro: step_Allocate)

lemma demo_reach: "tm_reach demo_root 30 demo_start" "tm_reach demo_root 30 demo_a" "tm_reach demo_root 30 demo_ab"
proof -
  show s: "tm_reach demo_root 30 demo_start"
    using NewTrieManager_inv [OF demo_pfx, of 30] by (auto simp: demo_start_def intro: reach_init)
  have "is_ok (tm_Allocate demo_start ''a'')" "is_ok (tm_Allocate demo_a ''b'')" by code_simp+
  then show a: "tm_reach demo_root 30 demo_a" and "tm_reach demo_root 30 demo_ab"
    using s reach_step tm_step_projr unfolding demo_a_def demo_ab_def by blast+
qed

subsection \<open>Properties\<close>

text \<open>
  C2. Tenant isolation: in every state the manager can reach, the subnets of two different tenants
  have no address in common, and every tenant subnet lies inside the node's own network.
\<close>

theorem tenant_subnets_disjoint:
  assumes "tm_reach root leaf s" "net_pfx root rb" "leaf \<le> 32"
    and "tm_List s i = Some n" "tm_List s j = Some m" "i \<noteq> j"
  shows "\<not> (contains n a \<and> contains m a) \<and> (contains n a \<longrightarrow> contains root a)"
  using tm.disjoint [OF tm_reach_tm_inv [OF assms(1-3)] assms(4-6)]
    tm.within [OF tm_reach_tm_inv [OF assms(1-3)] assms(4)] tm_reach_inv(3) [OF assms(1-3)] by auto

theorem tenant_subnets_disjoint_witness:
  "\<not> (contains (the (tm_List demo_ab ''a'')) [10, 0, 0, 1] \<and> contains (the (tm_List demo_ab ''b'')) [10, 0, 0, 1]) \<and>
   contains (the (tm_List demo_ab ''a'')) [10, 0, 0, 1] \<and> contains demo_root [10, 0, 0, 1]"
proof -
  have l: "tm_List demo_ab ''a'' = Some (the (tm_List demo_ab ''a''))"
    "tm_List demo_ab ''b'' = Some (the (tm_List demo_ab ''b''))"
    "contains (the (tm_List demo_ab ''a'')) [10, 0, 0, 1]"
    by code_simp+
  show ?thesis
    using tenant_subnets_disjoint [OF demo_reach(3) demo_pfx _ l(1,2), of "[10, 0, 0, 1]"] l(3) by simp
qed

text \<open>
  C19. No address is lost: in every reachable state each address of the node's network is either in
  the subnet of a tenant or in a free leaf that \<open>FindAllFree\<close> reports, and never in both.
\<close>

theorem every_address_owned_or_free:
  assumes "tm_reach root leaf s" "net_pfx root rb" "leaf \<le> 32" "contains root a"
  shows "(\<exists>tid n. tm_List s tid = Some n \<and> contains n a) \<noteq>
    (\<exists>p. p \<in> set (FindAllFree (tm_t s)) \<and> contains (node_prefix (tm_t s) p) a)"
proof -
  note inv = tm_reach_inv(1) [OF assms(1-3)] and r = tm_reach_inv(3) [OF assms(1-3)]
  have "contains (RootCIDR (tm_t s)) a" using r assms(4) by (simp add: tm_Root_def)
  then show ?thesis
    using address_covered [OF inv] free_leaf_disjoint [OF inv]
    unfolding set_FindAllFree tm_List_Some by blast
qed

theorem every_address_owned_or_free_witness:
  "contains demo_root [10, 0, 0, 5] \<and>
   ((\<exists>tid n. tm_List demo_ab tid = Some n \<and> contains n [10, 0, 0, 5]) \<noteq>
    (\<exists>p. p \<in> set (FindAllFree (tm_t demo_ab)) \<and> contains (node_prefix (tm_t demo_ab) p) [10, 0, 0, 5]))"
proof -
  have "contains demo_root [10, 0, 0, 5]" by code_simp
  then show ?thesis using every_address_owned_or_free [OF demo_reach(3) demo_pfx] by simp
qed

text \<open>
  C20. Allocation for a new tenant: it fails only when no leaf is free; otherwise the new subnet is a
  free leaf whose expansion depth is the largest of all free leaves, no other tenant's entry
  changes, and the new subnet shares no address with any of them.
\<close>

theorem tm_Allocate_best_fit:
  assumes "tm_reach root leaf s" "net_pfx root rb" "leaf \<le> 32" "tid \<noteq> []" "tm_List s tid = None"
  shows "if FindAllFree (tm_t s) = [] then tm_Allocate s tid = Inl (TrieError NoFreeSubnet)
    else \<exists>s' p. tm_Allocate s tid = Inr (s', node_prefix (tm_t s) p) \<and> p \<in> set (FindAllFree (tm_t s)) \<and>
      (\<forall>q\<in>set (FindAllFree (tm_t s)).
         MaxExpandableDepth (Root (tm_t s)) q \<le> MaxExpandableDepth (Root (tm_t s)) p) \<and>
      tm_List s' = (tm_List s)(tid \<mapsto> node_prefix (tm_t s) p) \<and>
      (\<forall>j m a. tm_List s j = Some m \<longrightarrow> \<not> (contains (node_prefix (tm_t s) p) a \<and> contains m a))"
proof -
  note inv = tm_reach_inv(1) [OF assms(1-3)]
  have new: "AllocMap (tm_t s) tid = None" using assms(5) by (simp add: tm_List_def)
  show ?thesis
  proof (cases "FindAllFree (tm_t s) = []")
    case True
    then show ?thesis
      using Allocate_cases [OF inv new] new assms(4) by (auto simp: tm_Allocate_def GetNodeByID_def)
  next
    case False
    then obtain s' n where r: "tm_Allocate s tid = Inr (s', n)"
      using Allocate_cases [OF inv new] new assms(4) by (auto simp: tm_Allocate_def GetNodeByID_def)
    obtain xs p ys where a: "FindAllFree (tm_t s) = xs @ p # ys" "free_leaf (Root (tm_t s)) p"
      "\<forall>x\<in>set (FindAllFree (tm_t s)). MaxExpandableDepth (Root (tm_t s)) x \<le> MaxExpandableDepth (Root (tm_t s)) p"
      "AllocMap (tm_t s') = (AllocMap (tm_t s))(tid \<mapsto> p)" "n = node_prefix (tm_t s') p" "trie_inv (tm_t s') rb"
      by (rule tm_Allocate_None [OF inv new r]) auto
    have n: "n = node_prefix (tm_t s) p"
      using net_pfx_inject [OF free_leaf_pfx [OF inv a(2)]] node_prefix_pfx [OF a(6), of tid p] a(4,5) by simp
    have d: "\<forall>j m a. tm_List s j = Some m \<longrightarrow> \<not> (contains (node_prefix (tm_t s) p) a \<and> contains m a)"
      using free_leaf_disjoint [OF inv a(2)] unfolding tm_List_Some by blast
    have "p \<in> set (FindAllFree (tm_t s))" using a(1) by simp
    then show ?thesis using False r n a(3) d tm_Allocate_ok [OF inv r] by auto
  qed
qed

theorem tm_Allocate_best_fit_witness:
  "tm_List demo_a ''b'' = None \<and>
   (\<exists>s' p. tm_Allocate demo_a ''b'' = Inr (s', node_prefix (tm_t demo_a) p) \<and> p \<in> set (FindAllFree (tm_t demo_a)) \<and>
      (\<forall>q\<in>set (FindAllFree (tm_t demo_a)).
         MaxExpandableDepth (Root (tm_t demo_a)) q \<le> MaxExpandableDepth (Root (tm_t demo_a)) p))"
proof -
  have "tm_List demo_a ''b'' = None" "FindAllFree (tm_t demo_a) \<noteq> []" by code_simp+
  then show ?thesis
    using tm_Allocate_best_fit [OF demo_reach(2) demo_pfx, of "''b''"] by auto
qed

text \<open>
  C21. Expansion depth is exact: a tenant's subnet can be expanded \<open>k\<close> times in a row exactly when \<open>k\<close>
  is at most \<open>MaxExpandableDepth\<close> of its node, so the score by which \<open>Allocate\<close> ranks the leaves
  is the number of expansions the tenant can get.
\<close>

theorem expansions_iff_depth:
  assumes "tm_reach root leaf s" "net_pfx root rb" "leaf \<le> 32" "tid \<noteq> []" "GetNodeByID (tm_t s) tid = Some p"
  shows "is_ok (expands k s tid) \<longleftrightarrow> k \<le> MaxExpandableDepth (Root (tm_t s)) p"
proof -
  note inv = tm_reach_inv(1) [OF assms(1-3)]
  have p: "AllocMap (tm_t s) tid = Some p" using assms(5) by (simp add: GetNodeByID_def)
  show ?thesis using expands_merges [OF inv p assms(4)] merges_iff [OF inv p] by simp
qed

theorem expansions_iff_depth_witness:
  "\<exists>p. GetNodeByID (tm_t demo_ab) ''a'' = Some p \<and>
     (is_ok (expands 1 demo_ab ''a'') \<longleftrightarrow> 1 \<le> MaxExpandableDepth (Root (tm_t demo_ab)) p)"
proof -
  have "GetNodeByID (tm_t demo_ab) ''a'' = Some (the (GetNodeByID (tm_t demo_ab) ''a''))" by code_simp
  then show ?thesis
    using expansions_iff_depth [OF demo_reach(3) demo_pfx, of "''a''" _ 1] by (auto simp del: expands.simps One_nat_def)
qed

text \<open>
  C22. A successful expansion doubles the subnet: the new mask is one bit shorter, every address of
  the old subnet stays in it, no other tenant's entry changes, and the wider subnet still shares no
  address with any other tenant.
\<close>

theorem tm_Expand_doubles:
  assumes "tm_reach root leaf s" "net_pfx root rb" "leaf \<le> 32" "tm_Expand s tid = Inr (s', n)"
  shows "\<exists>old. tm_List s tid = Some old \<and>
    fst (mask_size (net_mask n)) + 1 = fst (mask_size (net_mask old)) \<and>
    (\<forall>a. contains old a \<longrightarrow> contains n a) \<and> tm_List s' = (tm_List s)(tid \<mapsto> n) \<and>
    (\<forall>j m a. j \<noteq> tid \<longrightarrow> tm_List s j = Some m \<longrightarrow> \<not> (contains n a \<and> contains m a))"
proof -
  note inv = tm_reach_inv(1) [OF assms(1-3)] and ti = tm_reach_tm_inv [OF assms(1-3)]
  obtain q b where e: "AllocMap (tm_t s) tid = Some (q @ [b])" "s' = s\<lparr>tm_t := merged (tm_t s) tid q\<rparr>"
    "n = node_prefix (tm_t s') q" "trie_inv (tm_t s') rb"
    using tm_Expand_merged [OF inv assms(4)] .
  have "AllocMap (tm_t s') tid = Some q" using e(2) by (simp add: merged_def)
  then have "net_pfx n (rb @ q)" using node_prefix_pfx [OF e(4)] e(3) by simp
  then have "fst (mask_size (net_mask n)) + 1 = fst (mask_size (net_mask (node_prefix (tm_t s) (q @ [b]))))"
    using net_pfxD(5) node_prefix_pfx [OF inv e(1)] by fastforce
  moreover have "tm_List s tid = Some (node_prefix (tm_t s) (q @ [b]))" using e(1) by (simp add: tm_List_def)
  ultimately show ?thesis
    using tm.expand_grows [OF ti assms(4)] tm.expand_ok [OF ti assms(4)] tm.expand_fresh_range [OF ti assms(4)]
    by (metis option.inject)
qed

theorem tm_Expand_doubles_witness:
  "is_ok (tm_Expand demo_a ''a'') \<and> (\<exists>old. tm_List demo_a ''a'' = Some old \<and>
     fst (mask_size (net_mask (snd (projr (tm_Expand demo_a ''a''))))) + 1 = fst (mask_size (net_mask old)))"
proof -
  have ok: "is_ok (tm_Expand demo_a ''a'')" by code_simp
  then have "tm_Expand demo_a ''a'' = Inr (fst (projr (tm_Expand demo_a ''a'')), snd (projr (tm_Expand demo_a ''a'')))"
    by (cases "tm_Expand demo_a ''a''") auto
  from tm_Expand_doubles [OF demo_reach(2) demo_pfx _ this] show ?thesis using ok by auto
qed

text \<open>
  Releasing a tenant: when its subnet is not the whole node network, \<open>Deallocate\<close> succeeds, only
  its entry disappears, and every address of its former subnet can be allocated again: it lies in a
  free leaf.
\<close>

theorem tm_Deallocate_returns_range:
  assumes "tm_reach root leaf s" "net_pfx root rb" "leaf \<le> 32" "tid \<noteq> []"
    and "tm_List s tid = Some n" "n \<noteq> root"
  shows "\<exists>s'. tm_Deallocate s tid = Inr s' \<and> tm_List s' = (tm_List s)(tid := None) \<and>
    (\<forall>a. contains n a \<longrightarrow> (\<exists>p. p \<in> set (FindAllFree (tm_t s')) \<and> contains (node_prefix (tm_t s') p) a))"
proof -
  note inv = tm_reach_inv(1) [OF assms(1-3)] and ti = tm_reach_tm_inv [OF assms(1-3)]
  obtain p where p: "AllocMap (tm_t s) tid = Some p" "n = node_prefix (tm_t s) p"
    using assms(5) by (auto simp: tm_List_Some)
  have "p \<noteq> []"
    using net_pfx_inject [OF assms(2)] node_prefix_pfx [OF inv p(1)] p(2) assms(6) by auto
  then obtain s' where s': "tm_Deallocate s tid = Inr s'"
    using Deallocate_eq [OF inv p(1)] p(1) assms(4) by (auto simp: tm_Deallocate_def GetNodeByID_def)
  have l: "tm_List s' = (tm_List s)(tid := None)" and i': "trie_inv (tm_t s') rb" and r: "tm_Root s' = root"
    using tm_Deallocate_ok [OF inv s'] tm_reach_inv(3) [OF assms(1-3)] by auto
  have "\<exists>p. free_leaf (Root (tm_t s')) p \<and> contains (node_prefix (tm_t s') p) a" if a: "contains n a" for a
  proof -
    have "contains (RootCIDR (tm_t s')) a"
      using tm.within [OF ti assms(5) a] tm_reach_inv(3) [OF assms(1-3)] r by (simp add: tm_Root_def)
    moreover have "\<not> contains (node_prefix (tm_t s') q) a" if q: "AllocMap (tm_t s') j = Some q" for j q
    proof -
      have "tm_List s' j = Some (node_prefix (tm_t s') q)" using q by (simp add: tm_List_def)
      then have "j \<noteq> tid" "tm_List s j = Some (node_prefix (tm_t s') q)" using l by (auto split: if_splits)
      then show ?thesis using tm.disjoint [OF ti assms(5), of j _ a] a by blast
    qed
    ultimately show ?thesis using address_covered [OF i'] by blast
  qed
  then show ?thesis using s' l by (auto simp: set_FindAllFree)
qed

theorem tm_Deallocate_returns_range_witness:
  "\<exists>n s'. tm_List demo_ab ''a'' = Some n \<and> n \<noteq> demo_root \<and> tm_Deallocate demo_ab ''a'' = Inr s' \<and>
     tm_List s' = (tm_List demo_ab)(''a'' := None)"
proof -
  have n: "tm_List demo_ab ''a'' = Some (the (tm_List demo_ab ''a''))" "the (tm_List demo_ab ''a'') \<noteq> demo_root"
    by code_simp+
  then show ?thesis using tm_Deallocate_returns_range [OF demo_reach(3) demo_pfx _ _ n] by auto
qed

text \<open>
  C26. A tenant that was expanded to the whole node network is stuck: \<open>Deallocate\<close> and \<open>Release\<close> refuse
  it, the state keeps its entry, and every other tenant's allocation on the node fails. The code
  refuses to release the root node although \<open>Expand\<close> lets a tenant grow to it.
\<close>

theorem root_tenant_stuck:
  assumes "tm_reach root leaf s" "net_pfx root rb" "leaf \<le> 32" "tid \<noteq> []" "tm_List s tid = Some root"
    and "j \<noteq> []" "j \<noteq> tid"
  shows "tm_Deallocate s tid = Inl (TrieError DeallocateRoot) \<and> tm_Release s tid = Inl (TrieError DeallocateRoot) \<and>
    tm_Allocate s j = Inl (TrieError NoFreeSubnet)"
proof -
  note inv = tm_reach_inv(1) [OF assms(1-3)]
  obtain p where p: "AllocMap (tm_t s) tid = Some p" "root = node_prefix (tm_t s) p"
    using assms(5) by (auto simp: tm_List_Some)
  have "p = []"
    using net_pfx_unique [OF assms(2)] node_prefix_pfx [OF inv p(1)] p(2) by fastforce
  then have "Allocated (Root (tm_t s))" using p(1) trie_invD(4) [OF inv] by (auto simp: owns_def)
  then have "\<not> free_leaf (Root (tm_t s)) q" for q
    unfolding free_leaf_def using Nil_prefix [of q] node_at.simps(1) by metis
  then have "set (FindAllFree (tm_t s)) = {}" by (simp add: set_FindAllFree)
  then have "FindAllFree (tm_t s) = []" by simp
  moreover have "AllocMap (tm_t s) j = None"
    using alloc_below [OF inv p(1), of j] \<open>p = []\<close> assms(7) by (cases "AllocMap (tm_t s) j") auto
  moreover have "tm_Deallocate s tid = Inl (TrieError DeallocateRoot)"
    using p(1) \<open>p = []\<close> assms(4) by (simp add: tm_Deallocate_def GetNodeByID_def Deallocate_def)
  ultimately show ?thesis
    using Allocate_cases [OF inv, of j] assms(6) by (auto simp: tm_Release_eq tm_Allocate_def GetNodeByID_def)
qed

definition demo_full :: trie_manager where
  "demo_full = projr (expands 2 demo_a ''a'')"

lemma expands_reach: "tm_reach root leaf s \<Longrightarrow> expands k s tid = Inr s' \<Longrightarrow> tm_reach root leaf s'"
proof (induction k arbitrary: s)
  case (Suc k)
  from Suc.prems(2) obtain s1 n where e: "tm_Expand s tid = Inr (s1, n)" "expands k s1 tid = Inr s'"
    by (auto split: sum.splits)
  show ?case by (rule Suc.IH [OF reach_step [OF Suc.prems(1) step_Expand [OF e(1)]] e(2)])
qed auto

theorem root_tenant_stuck_witness:
  "tm_List demo_full ''a'' = Some demo_root \<and> tm_Deallocate demo_full ''a'' = Inl (TrieError DeallocateRoot) \<and>
   tm_Release demo_full ''a'' = Inl (TrieError DeallocateRoot) \<and> tm_Allocate demo_full ''b'' = Inl (TrieError NoFreeSubnet)"
proof -
  have "is_ok (expands 2 demo_a ''a'')" by code_simp
  then have "expands 2 demo_a ''a'' = Inr demo_full" unfolding demo_full_def is_ok_iff by auto
  then have r: "tm_reach demo_root 30 demo_full" by (rule expands_reach [OF demo_reach(2)])
  have "tm_List demo_full ''a'' = Some demo_root" by code_simp
  then show ?thesis using root_tenant_stuck [OF r demo_pfx, of "''a''" "''b''"] by simp
qed

text \<open>
  \<open>SplitSubnet\<close> cuts a network in two halves: below the mask limit it succeeds, both halves have a
  mask one bit longer, every address of the network is in exactly one half, and the halves hold
  nothing else.
\<close>

theorem SplitSubnet_partition:
  assumes "net_pfx n bs" "length bs < 32" "int (length bs) < mx"
  shows "\<exists>s0 s1. SplitSubnet n mx = Inr (s0, s1) \<and>
    mask_size (net_mask s0) = (int (length bs) + 1, 32) \<and> mask_size (net_mask s1) = (int (length bs) + 1, 32) \<and>
    (\<forall>a. contains n a \<longleftrightarrow> (contains s0 a \<noteq> contains s1 a)) \<and> (\<forall>a. \<not> (contains s0 a \<and> contains s1 a))"
proof -
  obtain s0 s1 where s: "SplitSubnet n mx = Inr (s0, s1)" "net_pfx s0 (bs @ [False])" "net_pfx s1 (bs @ [True])"
    using SplitSubnet_pfx [OF assms] .
  have disj: "\<not> (contains s0 a \<and> contains s1 a)" for a
    using networks_meet_iff [OF s(2,3)] by auto
  have "contains n a \<longleftrightarrow> (contains s0 a \<or> contains s1 a)" for a
    using contains_to4 [OF assms(1), of a] contains_to4 [OF s(2), of a] contains_to4 [OF s(3), of a]
      prefix_split_bit [of bs "ip_bits (to4 a)"] assms(2) by auto
  then show ?thesis using s net_pfxD(5) disj by fastforce
qed

theorem SplitSubnet_partition_witness:
  "net_pfx demo_root demo_bits \<and> (\<exists>s0 s1. SplitSubnet demo_root 30 = Inr (s0, s1) \<and>
     mask_size (net_mask s0) = (29, 32) \<and> mask_size (net_mask s1) = (29, 32))"
proof -
  have "length demo_bits = 28" by code_simp
  then show ?thesis using SplitSubnet_partition [OF demo_pfx, of 30] demo_pfx by auto
qed

end
