(* ===== verification/Bitmap_IPAM.thy ===== *)
theory Bitmap_IPAM
  imports Net_IP "HOL-Library.AList"
begin

text \<open>
  The per-tenant address manager of \<open>pkg/network/ipam\<close>: \<open>BitmapIPAM\<close> keeps one bit per pod address of
  the tenant's subnet in 64-bit words, and a map from pod key to the container's network data. Bit
  0 stands for the network address plus 2; the network address, the bridge (network plus 1) and
  the broadcast address have no bit.

  Go's \<open>int\<close> is 64 bits wide. The values computed here stay far below that bound except in the shift
  that gives the size of the subnet, which \<open>shl1\<close> writes out. The map is an association list: its order
  stands for the order in which \<open>range\<close> happens to visit the entries, so what is proved for every list is
  proved for every order. An index out of range panics in Go and is an error value here.
\<close>

subsection \<open>util.go\<close>

text \<open>The shift \<open>1 << k\<close> on a 64-bit \<open>int\<close>.\<close>

definition shl1 :: "int \<Rightarrow> int" where
  "shl1 k = (if k < 63 then 2 ^ nat k else if k = 63 then - (2 ^ 63) else 0)"

definition byte_int :: "byte \<Rightarrow> int" where
  "byte_int b = uint b"

definition addIPv4 :: "ip \<Rightarrow> int \<Rightarrow> ip" where
  "addIPv4 base delta =
     (let b = to4 base in
      if b = [] then []
      else let v = (((push_bit 24 (byte_int (b ! 0)) OR push_bit 16 (byte_int (b ! 1)))
                     OR push_bit 8 (byte_int (b ! 2))) OR byte_int (b ! 3)) + delta
           in [word_of_int (drop_bit 24 v), word_of_int (drop_bit 16 v),
               word_of_int (drop_bit 8 v), word_of_int v])"

definition ipv4Diff :: "ip \<Rightarrow> ip \<Rightarrow> int" where
  "ipv4Diff base ip =
     (((push_bit 24 (byte_int (ip ! 0) - byte_int (base ! 0))
        OR push_bit 16 (byte_int (ip ! 1) - byte_int (base ! 1)))
        OR push_bit 8 (byte_int (ip ! 2) - byte_int (base ! 2)))
        OR (byte_int (ip ! 3) - byte_int (base ! 3)))"

datatype ipam_error =
    ErrNilSubnet
  | ErrNoAvailableIPs ipnet
  | ErrIPNotInRange ip "ipnet option"
  | ErrIPv4OnlySupported int
  | ErrSubnetTooSmall ipnet
  | BitmapIndexRange
  | NotIncluded ipnet ipnet
  | NotInExpanded ip ipnet
  | BitmapOverflow ip
  | NotIPv4
  | IndexPanic

definition IPNet :: "ip \<Rightarrow> ipnet \<Rightarrow> ipam_error + ipnet" where
  "IPNet ip subnet = (if to4 ip = [] then Inl NotIPv4 else Inr \<lparr>net_ip = to4 ip, net_mask = net_mask subnet\<rparr>)"

subsection \<open>math/bits\<close>

definition trailing_zeros64 :: "uint64 \<Rightarrow> nat" where
  "trailing_zeros64 w = length (takeWhile (\<lambda>i. \<not> bit w i) [0..<64])"

definition ones_count64 :: "uint64 \<Rightarrow> nat" where
  "ones_count64 w = length (filter (bit w) [0..<64])"

subsection \<open>bitmap\_ipam.go\<close>

record ContainerNetInfo =
  ci_ID :: string
  ci_IFname :: string
  ci_NetNS :: string
  ci_IP :: ip

record bitmap_ipam =
  Network :: "ipnet option"
  bitmap :: "uint64 list"
  IPs :: "(string \<times> ContainerNetInfo) list"

definition NewBitmapIPAM :: "ipnet option \<Rightarrow> ipam_error + bitmap_ipam" where
  "NewBitmapIPAM subnet =
     (case subnet of
        None \<Rightarrow> Inl ErrNilSubnet
      | Some sn \<Rightarrow>
          (case mask_size (net_mask sn) of (ones, bits) \<Rightarrow>
             if bits \<noteq> 32 then Inl (ErrIPv4OnlySupported bits)
             else let total = shl1 (bits - ones) in
                  if total < 4 then Inl (ErrSubnetTooSmall sn)
                  else let usable = total - 2; podIPs = usable - 1 in
                       if podIPs \<le> 0 then Inl (ErrSubnetTooSmall sn)
                       else Inr \<lparr>Network = Some sn, bitmap = replicate (nat ((podIPs + 63) div 64)) 0, IPs = []\<rparr>))"

definition NewIPAM :: "ipnet option \<Rightarrow> ipam_error + bitmap_ipam" where
  "NewIPAM subnet = NewBitmapIPAM subnet"

definition capacityLocked :: "bitmap_ipam \<Rightarrow> ipam_error + int" where
  "capacityLocked s =
     (case Network s of
        None \<Rightarrow> Inl ErrNilSubnet
      | Some n \<Rightarrow>
          (case mask_size (net_mask n) of (ones, bits) \<Rightarrow>
             let usable = shl1 (bits - ones) - 2 in
             if usable \<le> 1 then Inr 0 else Inr (usable - 1)))"

definition Capacity :: "bitmap_ipam \<Rightarrow> ipam_error + int" where
  "Capacity s = capacityLocked s"

definition remainingLocked :: "bitmap_ipam \<Rightarrow> int" where
  "remainingLocked s =
     (case capacityLocked s of
        Inl e \<Rightarrow> 0
      | Inr cap \<Rightarrow>
          let used = int (sum_list (map ones_count64 (bitmap s)));
              used' = (if used > cap then cap else used)
          in cap - used')"

definition Remaining :: "bitmap_ipam \<Rightarrow> int" where
  "Remaining s = remainingLocked s"

text \<open>The loop of \<open>Allocate\<close> over the words: the word and the bit that are taken.\<close>

fun alloc_scan :: "int \<Rightarrow> nat \<Rightarrow> uint64 list \<Rightarrow> (nat \<times> nat) option" where
  "alloc_scan capacity idx [] = None"
| "alloc_scan capacity idx (word # ws) =
     (if NOT word = 0 then alloc_scan capacity (Suc idx) ws
      else let b = trailing_zeros64 (NOT word) in
           if b \<ge> 64 then alloc_scan capacity (Suc idx) ws
           else if int (idx * 64 + b) \<ge> capacity then None
           else Some (idx, b))"

definition indexToIP :: "ipnet \<Rightarrow> int \<Rightarrow> ip" where
  "indexToIP n idx = addIPv4 (to4 (mask_ip (net_ip n) (net_mask n))) (2 + idx)"

definition ipam_Allocate ::
  "bitmap_ipam \<Rightarrow> string \<Rightarrow> string \<Rightarrow> string \<Rightarrow> string \<Rightarrow> ipam_error + (bitmap_ipam \<times> ContainerNetInfo)" where
  "ipam_Allocate s podKey containerID ifName netns =
     (case (capacityLocked s, Network s) of
        (Inl e, _) \<Rightarrow> Inl e
      | (Inr capacity, None) \<Rightarrow> Inl ErrNilSubnet
      | (Inr capacity, Some n) \<Rightarrow>
          if capacity \<le> 0 then Inl (ErrNoAvailableIPs n)
          else case alloc_scan capacity 0 (bitmap s) of
                 None \<Rightarrow> Inl (ErrNoAvailableIPs n)
               | Some (idx, b) \<Rightarrow>
                   let res = \<lparr>ci_ID = containerID, ci_IFname = ifName, ci_NetNS = netns,
                              ci_IP = indexToIP n (int (idx * 64 + b))\<rparr>
                   in Inr (s\<lparr>bitmap := (bitmap s)[idx := bitmap s ! idx OR push_bit b 1],
                             IPs := AList.update podKey res (IPs s)\<rparr>, res))"

definition ipToIndex :: "bitmap_ipam \<Rightarrow> ip \<Rightarrow> ipam_error + int" where
  "ipToIndex s ip =
     (case Network s of
        None \<Rightarrow> Inr (-1)
      | Some n \<Rightarrow>
          if to4 ip = [] then Inr (-1)
          else let base = to4 (mask_ip (net_ip n) (net_mask n)) in
               if base = [] then Inl IndexPanic
               else let offset = ipv4Diff base (to4 ip) in
                    (case mask_size (net_mask n) of (ones, bitsz) \<Rightarrow>
                       if offset < 2 \<or> offset \<ge> shl1 (bitsz - ones) - 1 then Inr (-1)
                       else Inr (offset - 2)))"

text \<open>The loop of \<open>Free\<close> drops the first entry it meets that holds the address.\<close>

fun drop_ip :: "ip \<Rightarrow> (string \<times> ContainerNetInfo) list \<Rightarrow> (string \<times> ContainerNetInfo) list" where
  "drop_ip ip [] = []"
| "drop_ip ip ((k, v) # kvs) = (if ip_equal (ci_IP v) ip then kvs else (k, v) # drop_ip ip kvs)"

definition ipam_Free :: "bitmap_ipam \<Rightarrow> ip \<Rightarrow> ipam_error + bitmap_ipam" where
  "ipam_Free s ip =
     (case ipToIndex s ip of
        Inl e \<Rightarrow> Inl e
      | Inr idx \<Rightarrow>
          if idx < 0 then Inl (ErrIPNotInRange ip (Network s))
          else let wi = nat idx div 64; off = nat idx mod 64 in
               if wi \<ge> length (bitmap s) then Inl BitmapIndexRange
               else Inr (s\<lparr>bitmap := (bitmap s)[wi := bitmap s ! wi AND NOT (push_bit off 1)],
                           IPs := drop_ip ip (IPs s)\<rparr>))"

text \<open>\<open>lastIP\<close> sets the host bits; it panics when the mask is shorter than the address.\<close>

definition lastIP :: "ipnet \<Rightarrow> ipam_error + ip" where
  "lastIP subnet =
     (let ip = (if to4 (net_ip subnet) = [] then to16 (net_ip subnet) else to4 (net_ip subnet)) in
      if ip = [] then Inr []
      else if length (net_mask subnet) < length ip then Inl IndexPanic
      else Inr (map2 (\<lambda>b m. b OR NOT m) ip (net_mask subnet)))"

definition cidrContains :: "ipnet \<Rightarrow> ipnet \<Rightarrow> ipam_error + bool" where
  "cidrContains outer inner =
     (if \<not> contains outer (net_ip inner) then Inr False
      else case lastIP inner of
             Inl e \<Rightarrow> Inl e
           | Inr l \<Rightarrow> Inr (contains outer l))"

text \<open>
  The loop of \<open>Expand\<close> over the allocations: it drops entries without an address, sets the bit of
  every other one in the new bitmap, and stops at the first address that has no bit. The entries
  that are kept come back with the bitmap.
\<close>

fun expand_loop ::
  "bitmap_ipam \<Rightarrow> ipnet \<Rightarrow> (string \<times> ContainerNetInfo) list \<Rightarrow> uint64 list \<Rightarrow>
   (ipam_error + uint64 list) \<times> (string \<times> ContainerNetInfo) list" where
  "expand_loop s newSubnet [] newBitmap = (Inr newBitmap, [])"
| "expand_loop s newSubnet ((podName, info) # kvs) newBitmap =
     (if ci_IP info = [] then expand_loop s newSubnet kvs newBitmap
      else case ipToIndex s (ci_IP info) of
             Inl e \<Rightarrow> (Inl e, (podName, info) # kvs)
           | Inr idx \<Rightarrow>
               if idx < 0 then (Inl (NotInExpanded (ci_IP info) newSubnet), (podName, info) # kvs)
               else let wi = nat idx div 64; off = nat idx mod 64 in
                    if wi \<ge> length newBitmap then (Inl (BitmapOverflow (ci_IP info)), (podName, info) # kvs)
                    else let (r, kvs') = expand_loop s newSubnet kvs
                               (newBitmap[wi := newBitmap ! wi OR push_bit off 1])
                         in (r, (podName, info) # kvs'))"

text \<open>\<open>Expand\<close> returns the error, if any, and the state, which a failed call may have changed too.\<close>

definition ipam_Expand :: "bitmap_ipam \<Rightarrow> ipnet option \<Rightarrow> ipam_error option \<times> bitmap_ipam" where
  "ipam_Expand s newSubnet =
     (case newSubnet of
        None \<Rightarrow> (Some ErrNilSubnet, s)
      | Some nn \<Rightarrow>
          (case (case Network s of None \<Rightarrow> Inr True | Some old \<Rightarrow> cidrContains nn old) of
             Inl e \<Rightarrow> (Some e, s)
           | Inr False \<Rightarrow> (Some (NotIncluded nn (the (Network s))), s)
           | Inr True \<Rightarrow>
               let s1 = s\<lparr>Network := Some nn\<rparr> in
               (case capacityLocked s1 of
                  Inl e \<Rightarrow> (Some e, s)
                | Inr capacity \<Rightarrow>
                    let words = (if capacity > 0 then nat ((capacity + 63) div 64) else 0) in
                    (case expand_loop s1 nn (IPs s) (replicate words 0) of
                       (Inl e, kvs) \<Rightarrow> (Some e, s\<lparr>IPs := kvs\<rparr>)
                     | (Inr bm, kvs) \<Rightarrow> (None, s1\<lparr>bitmap := bm, IPs := kvs\<rparr>)))))"

definition ListAllocations :: "bitmap_ipam \<Rightarrow> (string \<times> ContainerNetInfo) list" where
  "ListAllocations s = IPs s"

definition GetAllocation :: "bitmap_ipam \<Rightarrow> string \<Rightarrow> ContainerNetInfo option" where
  "GetAllocation s podName = map_of (IPs s) podName"

subsection \<open>Addresses as numbers\<close>

lemma or_push_add:
  assumes "0 \<le> (b::int)" "b < 2 ^ k"
  shows "push_bit k a OR b = a * 2 ^ k + b"
proof -
  have "b = take_bit k b" using assms by (simp add: take_bit_int_eq_self)
  then have "\<not> bit b n" if "k \<le> n" for n
    using that bit_take_bit_iff [of k b n] by simp
  then have "push_bit k a AND b = 0"
    by (intro bit_eqI) (auto simp: bit_simps)
  then have "push_bit k a + b = push_bit k a OR b" by (rule disjunctive_add_eq_or)
  then show ?thesis by (simp add: push_bit_eq_mult)
qed

lemma or_bytes:
  assumes "0 \<le> (b::int)" "b < 256" "0 \<le> c" "c < 256" "0 \<le> d" "d < 256"
  shows "((push_bit 24 a OR push_bit 16 b) OR push_bit 8 c) OR d = a * 2 ^ 24 + b * 2 ^ 16 + c * 2 ^ 8 + d"
proof -
  have 1: "push_bit 8 c OR d = c * 2 ^ 8 + d" using assms by (intro or_push_add) auto
  have 2: "push_bit 16 b OR (c * 2 ^ 8 + d) = b * 2 ^ 16 + (c * 2 ^ 8 + d)"
    using assms by (intro or_push_add) auto
  have 3: "push_bit 24 a OR (b * 2 ^ 16 + (c * 2 ^ 8 + d)) = a * 2 ^ 24 + (b * 2 ^ 16 + (c * 2 ^ 8 + d))"
    using assms by (intro or_push_add) auto
  show ?thesis unfolding or.assoc 1 2 3 by simp
qed

lemma byte_int_bounds [simp]: "0 \<le> byte_int b" "byte_int b < 256"
  using uint_bounded [of b] by (auto simp: byte_int_def)

lemma byte_int_unat: "byte_int b = int (unat b)"
  by (simp add: byte_int_def)

lemma byte_int_le: "0 \<le> byte_int i - byte_int b \<longleftrightarrow> unat b \<le> unat i"
  unfolding byte_int_unat by linarith

lemma bytes_of_val: "(m div 2 ^ 24) mod 256 * 2 ^ 24 + (m div 2 ^ 16) mod 256 * 2 ^ 16 +
    (m div 2 ^ 8) mod 256 * 2 ^ 8 + m mod 256 = m mod 2 ^ 32" for m :: nat
proof -
  have "m mod (2 ^ 8 * 2 ^ 24) = 2 ^ 8 * (m div 2 ^ 8 mod 2 ^ 24) + m mod 2 ^ 8" for m :: nat
    by (rule mod_mult2_eq)
  moreover have "k mod (2 ^ 8 * 2 ^ 16) = 2 ^ 8 * (k div 2 ^ 8 mod 2 ^ 16) + k mod 2 ^ 8" for k :: nat
    by (rule mod_mult2_eq)
  moreover have "k mod (2 ^ 8 * 2 ^ 8) = 2 ^ 8 * (k div 2 ^ 8 mod 2 ^ 8) + k mod 2 ^ 8" for k :: nat
    by (rule mod_mult2_eq)
  ultimately show ?thesis by (simp add: div_mult2_eq [symmetric])
qed

lemma unat_byte_of_int: "unat (word_of_int (int m) :: byte) = m mod 256"
  by (simp add: unsigned_of_nat take_bit_eq_mod)

lemma addIPv4_val:
  assumes "length base = 4" "ip_val base + d < 2 ^ 32"
  shows "length (addIPv4 base (int d)) = 4" "ip_val (addIPv4 base (int d)) = ip_val base + d"
proof -
  obtain b0 b1 b2 b3 where b: "base = [b0, b1, b2, b3]" using assms(1) by (auto simp: length4_conv)
  let ?m = "ip_val base + d"
  have v: "(((push_bit 24 (byte_int b0) OR push_bit 16 (byte_int b1)) OR push_bit 8 (byte_int b2)) OR byte_int b3)
      + int d = int ?m"
    unfolding or_bytes [OF byte_int_bounds byte_int_bounds byte_int_bounds] b ip_val_4 by (simp add: byte_int_unat)
  have db: "drop_bit k (int ?m) = int (?m div 2 ^ k)" for k by (simp add: drop_bit_eq_div zdiv_int)
  have a: "addIPv4 base (int d) = [word_of_int (int (?m div 2 ^ 24)), word_of_int (int (?m div 2 ^ 16)),
      word_of_int (int (?m div 2 ^ 8)), word_of_int (int ?m)]"
    using v db by (simp add: addIPv4_def b to4_def Let_def del: of_nat_add)
  then show "length (addIPv4 base (int d)) = 4" by simp
  show "ip_val (addIPv4 base (int d)) = ?m"
    unfolding a ip_val_4 unat_byte_of_int bytes_of_val using assms(2) by simp
qed

definition bytes_le :: "ip \<Rightarrow> ip \<Rightarrow> bool" where
  "bytes_le = list_all2 (\<lambda>x y. unat x \<le> unat y)"

lemma ipv4Diff_val:
  assumes "length base = 4" "length ip = 4"
  shows "bytes_le base ip \<Longrightarrow> ipv4Diff base ip = int (ip_val ip) - int (ip_val base)"
    and "\<not> bytes_le base ip \<Longrightarrow> ipv4Diff base ip < 0"
proof -
  obtain b0 b1 b2 b3 i0 i1 i2 i3 where b: "base = [b0, b1, b2, b3]" "ip = [i0, i1, i2, i3]"
    using assms by (auto simp: length4_conv)
  have *: "byte_int x - byte_int y < 256" for x y
    using byte_int_bounds [of x] byte_int_bounds [of y] by linarith
  show "ipv4Diff base ip = int (ip_val ip) - int (ip_val base)" if "bytes_le base ip"
  proof -
    have le: "0 \<le> byte_int i1 - byte_int b1" "0 \<le> byte_int i2 - byte_int b2" "0 \<le> byte_int i3 - byte_int b3"
      unfolding byte_int_le using that by (auto simp: b bytes_le_def)
    show ?thesis
      unfolding ipv4Diff_def b ip_val_4
      using or_bytes [OF le(1) * le(2) * le(3) *, of "byte_int i0 - byte_int b0"]
      by (simp add: byte_int_unat algebra_simps)
  qed
  show "ipv4Diff base ip < 0" if n: "\<not> bytes_le base ip"
  proof (rule ccontr)
    assume "\<not> ipv4Diff base ip < 0"
    then have "0 \<le> byte_int i0 - byte_int b0" "0 \<le> byte_int i1 - byte_int b1"
      "0 \<le> byte_int i2 - byte_int b2" "0 \<le> byte_int i3 - byte_int b3"
      by (auto simp: ipv4Diff_def b not_less)
    with n show False unfolding byte_int_le by (simp add: b bytes_le_def)
  qed
qed

subsection \<open>The host part of an address\<close>

lemma bits_val_le: "list_all2 (\<longrightarrow>) xs ys \<Longrightarrow> bits_val xs \<le> bits_val ys"
proof (induction xs ys rule: list_all2_induct)
  case (Cons x xs y ys)
  then show ?case by (auto dest: list_all2_lengthD)
qed simp

lemma bytes_le_bits: "length a = length b \<Longrightarrow> list_all2 (\<longrightarrow>) (ip_bits a) (ip_bits b) \<Longrightarrow> bytes_le a b"
proof (induction a b rule: list_induct2)
  case (Cons x xs y ys)
  have "list_all2 (\<longrightarrow>) (byte_bits x) (byte_bits y) \<and> list_all2 (\<longrightarrow>) (ip_bits xs) (ip_bits ys)"
    using Cons.prems by (simp add: list_all2_append)
  then show ?case using Cons.IH bits_val_le by (auto simp: bytes_le_def unat_byte_bits)
qed (simp add: bytes_le_def)

text \<open>
  An address is in a network exactly when it is at least the network address in every byte and
  the difference is less than the size of the network; otherwise \<open>ipv4Diff\<close> gives a number out of range.
\<close>

lemma contains_diff:
  assumes n: "net_pfx n bs" and a: "length ip = 4"
  shows "contains n ip \<longleftrightarrow> 0 \<le> ipv4Diff (net_ip n) ip \<and> ipv4Diff (net_ip n) ip < 2 ^ (32 - length bs)"
    and "contains n ip \<Longrightarrow> ipv4Diff (net_ip n) ip = int (ip_val ip) - int (ip_val (net_ip n))"
proof -
  note d = net_pfxD [OF n]
  let ?k = "32 - length bs"
  have v: "ip_val (net_ip n) = bits_val bs * 2 ^ ?k"
    unfolding d(3) by (simp add: bits_val_append)
  have c: "contains n ip \<longleftrightarrow> prefix bs (ip_bits ip)" by (rule contains_prefix [OF n a])
  have le: "bytes_le (net_ip n) ip" and lt: "ip_val ip < ip_val (net_ip n) + 2 ^ ?k"
    and ge: "ip_val (net_ip n) \<le> ip_val ip" if m: "contains n ip"
  proof -
    obtain cs where cs: "ip_bits ip = bs @ cs" using m c by (auto simp: prefix_def)
    have len: "length cs = ?k" using arg_cong [OF cs, of length] a by simp
    have "list_all2 (\<longrightarrow>) (ip_bits (net_ip n)) (ip_bits ip)"
      unfolding cs d(3) by (rule list_all2_appendI) (auto simp: list_all2_conv_all_nth len)
    then show "bytes_le (net_ip n) ip" using bytes_le_bits a d(2) by simp
    show "ip_val ip < ip_val (net_ip n) + 2 ^ ?k" "ip_val (net_ip n) \<le> ip_val ip"
      using v cs len bits_val_less [of cs] by (simp_all add: bits_val_append)
  qed
  show diff: "ipv4Diff (net_ip n) ip = int (ip_val ip) - int (ip_val (net_ip n))" if "contains n ip"
    using ipv4Diff_val(1) [OF d(2) a le [OF that]] .
  have lti: "int (ip_val ip) < int (ip_val (net_ip n)) + 2 ^ ?k" if "contains n ip"
    using lt [OF that] by (metis of_nat_add of_nat_less_iff of_nat_numeral of_nat_power)
  have rev_dir: "contains n ip" if r: "0 \<le> ipv4Diff (net_ip n) ip" "ipv4Diff (net_ip n) ip < 2 ^ ?k"
  proof -
    have "bytes_le (net_ip n) ip" using r(1) ipv4Diff_val(2) [OF d(2) a] by force
    then have e: "ipv4Diff (net_ip n) ip = int (ip_val ip) - int (ip_val (net_ip n))"
      by (rule ipv4Diff_val(1) [OF d(2) a])
    then have ge': "ip_val (net_ip n) \<le> ip_val ip" using r(1) by linarith
    have "int (ip_val ip) < int (ip_val (net_ip n) + 2 ^ ?k)" using r(2) e by simp
    then have lt': "ip_val ip < ip_val (net_ip n) + 2 ^ ?k" by (simp only: of_nat_less_iff)
    obtain h where "ip_val ip = bits_val bs * 2 ^ ?k + h" "h < 2 ^ ?k"
      using ge' lt' v nat_le_iff_add [of "ip_val (net_ip n)" "ip_val ip"] by auto
    then have "bits_val (ip_bits ip) div 2 ^ ?k = bits_val bs" by simp
    moreover have "bits_val (ip_bits ip) div 2 ^ ?k = bits_val (take (length bs) (ip_bits ip))"
      using bits_val_div [of "length bs" "ip_bits ip"] d(1) a by simp
    ultimately have "take (length bs) (ip_bits ip) = bs"
      using bits_val_inject [of "take (length bs) (ip_bits ip)" bs] d(1) a by simp
    then show ?thesis unfolding c by (metis take_is_prefix)
  qed
  show "contains n ip \<longleftrightarrow> 0 \<le> ipv4Diff (net_ip n) ip \<and> ipv4Diff (net_ip n) ip < 2 ^ ?k"
    using rev_dir diff lti ge by auto
qed

subsection \<open>Pod addresses and their indices\<close>

text \<open>The number of pod addresses: all but the network, the bridge and the broadcast address.\<close>

definition podcap :: "bits \<Rightarrow> nat" where
  "podcap bs = 2 ^ (32 - length bs) - 3"

definition pod_net :: "ipnet \<Rightarrow> bits \<Rightarrow> bool" where
  "pod_net n bs \<longleftrightarrow> net_pfx n bs \<and> length bs \<le> 30"

lemma pod_size: "length bs \<le> 30 \<Longrightarrow> 4 \<le> (2::nat) ^ (32 - length bs)"
  using power_increasing [of 2 "32 - length bs" "2::nat"] by simp

lemma shl1_size: "length bs \<le> 32 \<Longrightarrow> shl1 (32 - int (length bs)) = 2 ^ (32 - length bs)"
proof -
  assume l: "length bs \<le> 32"
  then have "nat (32 - int (length bs)) = 32 - length bs" by (simp add: nat_diff_distrib)
  then show ?thesis by (simp add: shl1_def)
qed

lemma to4_cases: "to4 a = [] \<or> length (to4 a) = 4"
  by (auto simp: to4_def)

lemma pod_net_base: "pod_net n bs \<Longrightarrow> to4 (mask_ip (net_ip n) (net_mask n)) = net_ip n"
  using mask_ip_own net_pfxD(2) by (auto simp: pod_net_def)

lemma net_val_bound:
  assumes "net_pfx n bs"
  shows "ip_val (net_ip n) + 2 ^ (32 - length bs) \<le> 2 ^ 32"
proof -
  note d = net_pfxD [OF assms]
  have "(bits_val bs + 1) * 2 ^ (32 - length bs) \<le> 2 ^ length bs * 2 ^ (32 - length bs)"
    using bits_val_less [of bs] by (intro mult_right_mono) auto
  also have "\<dots> = 2 ^ 32" using d(1) by (simp flip: power_add)
  finally show ?thesis unfolding d(3) by (simp add: bits_val_append)
qed

lemma indexToIP_val:
  assumes "pod_net n bs" "i < podcap bs"
  shows "length (indexToIP n (int i)) = 4" "ip_val (indexToIP n (int i)) = ip_val (net_ip n) + 2 + i"
proof -
  have n: "net_pfx n bs" "length bs \<le> 30" using assms(1) by (auto simp: pod_net_def)
  have "ip_val (net_ip n) + (2 + i) < 2 ^ 32"
    using net_val_bound [OF n(1)] assms(2) pod_size [OF n(2)] by (simp add: podcap_def)
  then show "length (indexToIP n (int i)) = 4" "ip_val (indexToIP n (int i)) = ip_val (net_ip n) + 2 + i"
    using addIPv4_val [OF net_pfxD(2) [OF n(1)], of "2 + i"] pod_net_base [OF assms(1)]
    by (simp_all add: indexToIP_def)
qed

lemma indexToIP_inject:
  "pod_net n bs \<Longrightarrow> i < podcap bs \<Longrightarrow> j < podcap bs \<Longrightarrow> indexToIP n (int i) = indexToIP n (int j) \<longleftrightarrow> i = j"
  using indexToIP_val by (metis add_left_cancel)

text \<open>\<open>ipToIndex\<close> gives the index of a pod address and -1 for every other address.\<close>

lemma ipToIndex_range:
  assumes n: "pod_net n bs" and s: "Network s = Some n" and a: "length (to4 ip) = 4"
  shows "ipToIndex s ip = Inr (int i) \<longleftrightarrow> i < podcap bs \<and> ip_val (to4 ip) = ip_val (net_ip n) + 2 + i"
    and "\<exists>r. ipToIndex s ip = Inr r \<and> (r = -1 \<or> 0 \<le> r)"
proof -
  have p: "net_pfx n bs" "length bs \<le> 30" using n by (auto simp: pod_net_def)
  note d = net_pfxD [OF p(1)]
  let ?o = "ipv4Diff (net_ip n) (to4 ip)" and ?T = "2 ^ (32 - length bs) :: int"
  have e: "ipToIndex s ip = (if ?o < 2 \<or> ?T - 1 \<le> ?o then Inr (-1) else Inr (?o - 2))"
    using a d(2) p(2) by (auto simp: ipToIndex_def s d(5) pod_net_base [OF n] shl1_size Let_def)
  show "\<exists>r. ipToIndex s ip = Inr r \<and> (r = -1 \<or> 0 \<le> r)" by (simp add: e)
  have T: "int (podcap bs) = ?T - 3" using pod_size [OF p(2)] by (simp add: podcap_def of_nat_diff)
  have diff: "0 \<le> ?o \<Longrightarrow> ?o < ?T \<Longrightarrow> ?o = int (ip_val (to4 ip)) - int (ip_val (net_ip n))"
    using contains_diff(1) [OF p(1) a] contains_diff(2) [OF p(1) a] by blast
  show "ipToIndex s ip = Inr (int i) \<longleftrightarrow> i < podcap bs \<and> ip_val (to4 ip) = ip_val (net_ip n) + 2 + i"
  proof
    assume "ipToIndex s ip = Inr (int i)"
    then have "?o = int i + 2" "?o < ?T - 1" by (auto simp: e split: if_splits)
    then show "i < podcap bs \<and> ip_val (to4 ip) = ip_val (net_ip n) + 2 + i" using diff T by linarith
  next
    assume i: "i < podcap bs \<and> ip_val (to4 ip) = ip_val (net_ip n) + 2 + i"
    have "to4 ip = indexToIP n (int i)"
      using i indexToIP_val [OF n, of i] a ip_val_inject by metis
    have "contains n (to4 ip)"
    proof -
      have "ip_val (to4 ip) div 2 ^ (32 - length bs) = bits_val bs"
      proof -
        have "ip_val (to4 ip) = bits_val bs * 2 ^ (32 - length bs) + (2 + i)" "2 + i < 2 ^ (32 - length bs)"
          using i pod_size [OF p(2)] d(3) by (auto simp: bits_val_append podcap_def)
        then show ?thesis by (metis mult_add_div)
      qed
      moreover have "ip_val (to4 ip) div 2 ^ (32 - length bs) = bits_val (take (length bs) (ip_bits (to4 ip)))"
        using bits_val_div [of "length bs" "ip_bits (to4 ip)"] d(1) a by simp
      ultimately have "take (length bs) (ip_bits (to4 ip)) = bs"
        using bits_val_inject [of "take (length bs) (ip_bits (to4 ip))" bs] d(1) a by simp
      then show ?thesis unfolding contains_prefix [OF p(1) a] by (metis take_is_prefix)
    qed
    then have "?o = int (ip_val (to4 ip)) - int (ip_val (net_ip n))" using contains_diff(2) [OF p(1) a] by simp
    then have "?o = 2 + int i" using i by simp
    then show "ipToIndex s ip = Inr (int i)" using i T by (simp add: e)
  qed
qed

lemma ipToIndex_iff:
  assumes n: "pod_net n bs" and s: "Network s = Some n"
  shows "ipToIndex s ip = Inr (int i) \<longleftrightarrow> i < podcap bs \<and> to4 ip = indexToIP n (int i)"
proof (cases "to4 ip = []")
  case True
  then show ?thesis using s indexToIP_val(1) [OF n, of i] by (auto simp: ipToIndex_def)
next
  case False
  then have a: "length (to4 ip) = 4" using to4_cases by blast
  show ?thesis
    unfolding ipToIndex_range [OF n s a] using indexToIP_val [OF n, of i] a ip_val_inject by metis
qed

lemma ipToIndex_total:
  assumes "pod_net n bs" "Network s = Some n"
  obtains (out) "ipToIndex s ip = Inr (-1)" "\<And>i. i < podcap bs \<Longrightarrow> to4 ip \<noteq> indexToIP n (int i)"
  | (pod) i where "ipToIndex s ip = Inr (int i)" "i < podcap bs" "to4 ip = indexToIP n (int i)"
proof (cases "\<exists>i. i < podcap bs \<and> to4 ip = indexToIP n (int i)")
  case True
  then show ?thesis using pod ipToIndex_iff [OF assms] by blast
next
  case False
  have "\<exists>r. ipToIndex s ip = Inr r \<and> (r = -1 \<or> 0 \<le> r)"
  proof (cases "to4 ip = []")
    case True
    then show ?thesis using assms(2) by (simp add: ipToIndex_def)
  next
    case False
    then show ?thesis using ipToIndex_range(2) [OF assms] to4_cases [of ip] by blast
  qed
  then obtain r where r: "ipToIndex s ip = Inr r" "r = -1 \<or> 0 \<le> r" by blast
  have "r = -1"
  proof (rule ccontr)
    assume "r \<noteq> -1"
    then have "ipToIndex s ip = Inr (int (nat r))" using r by simp
    then show False using ipToIndex_iff [OF assms, of ip "nat r"] False by blast
  qed
  then show ?thesis using out r(1) False by blast
qed

subsection \<open>The bitmap as a set\<close>

definition bm_test :: "uint64 list \<Rightarrow> nat \<Rightarrow> bool" where
  "bm_test bm i \<longleftrightarrow> i div 64 < length bm \<and> bit (bm ! (i div 64)) (i mod 64)"

lemma bit_push1: "m < 64 \<Longrightarrow> bit (push_bit b (1::uint64)) m \<longleftrightarrow> m = b"
  by (auto simp: bit_simps)

lemma bm_test_set:
  assumes "wi < length bm" "off < 64"
  shows "bm_test (bm[wi := bm ! wi OR push_bit off 1]) i \<longleftrightarrow> bm_test bm i \<or> i = wi * 64 + off"
proof (cases "i div 64 = wi")
  case True
  then have "i = wi * 64 + i mod 64" by (metis div_mult_mod_eq)
  then have "i = wi * 64 + off \<longleftrightarrow> i mod 64 = off" by linarith
  then show ?thesis
    using True assms by (auto simp: bm_test_def bit_or_iff bit_push1 simp del: push_bit_of_1)
next
  case False
  then have "i \<noteq> wi * 64 + off" using assms(2) by auto
  then show ?thesis using False by (auto simp: bm_test_def)
qed

lemma bm_test_clear:
  assumes "wi < length bm" "off < 64"
  shows "bm_test (bm[wi := bm ! wi AND NOT (push_bit off 1)]) i \<longleftrightarrow> bm_test bm i \<and> i \<noteq> wi * 64 + off"
proof (cases "i div 64 = wi")
  case True
  then have "i = wi * 64 + i mod 64" by (metis div_mult_mod_eq)
  then have "i = wi * 64 + off \<longleftrightarrow> i mod 64 = off" by linarith
  then show ?thesis
    using True assms
    by (auto simp: bm_test_def bit_and_iff bit_not_iff bit_push1 possible_bit_word simp del: push_bit_of_1)
next
  case False
  then have "i \<noteq> wi * 64 + off" using assms(2) by auto
  then show ?thesis using False by (auto simp: bm_test_def)
qed

lemma bm_test_replicate [simp]: "\<not> bm_test (replicate n 0) i"
  by (auto simp: bm_test_def)

lemma bm_test_Cons: "bm_test (w # bm) i \<longleftrightarrow> (if i < 64 then bit w i else bm_test bm (i - 64))"
proof (cases "i < 64")
  case False
  then have "i div 64 = Suc ((i - 64) div 64)" "i mod 64 = (i - 64) mod 64"
    by (simp_all add: le_div_geq le_mod_geq)
  then show ?thesis using False by (simp add: bm_test_def)
qed (simp add: bm_test_def)

lemma bm_test_finite: "finite {i. bm_test bm i}"
proof (rule finite_subset)
  show "{i. bm_test bm i} \<subseteq> {..<64 * length bm}" by (auto simp: bm_test_def less_mult_imp_div_less)
qed simp

lemma sum_ones_count: "sum_list (map ones_count64 bm) = card {i. bm_test bm i}"
proof (induction bm)
  case Nil
  then show ?case by (simp add: bm_test_def)
next
  case (Cons w bm)
  have "{i. bm_test (w # bm) i} = {i. i < 64 \<and> bit w i} \<union> (\<lambda>i. i + 64) ` {i. bm_test bm i}"
  proof (rule set_eqI)
    fix i
    show "i \<in> {i. bm_test (w # bm) i} \<longleftrightarrow> i \<in> {i. i < 64 \<and> bit w i} \<union> (\<lambda>i. i + 64) ` {i. bm_test bm i}"
      by (cases "i < 64") (auto simp: bm_test_Cons intro!: image_eqI [of _ _ "i - 64"])
  qed
  moreover have "{i. i < 64 \<and> bit w i} \<inter> (\<lambda>i. i + 64) ` {i. bm_test bm i} = {}" by auto
  moreover have "card ((\<lambda>i. i + 64) ` {i. bm_test bm i}) = card {i. bm_test bm i}"
    by (rule card_image) (simp add: inj_on_def)
  moreover have "ones_count64 w = card {i. i < 64 \<and> bit w i}"
  proof -
    have "{i. i < 64 \<and> bit w i} = set (filter (bit w) [0..<64])" by auto
    then show ?thesis by (simp add: ones_count64_def distinct_card flip: set_filter)
  qed
  ultimately show ?case using Cons.IH by (simp add: card_Un_disjoint bm_test_finite)
qed

lemma trailing_zeros64_first:
  assumes "w \<noteq> 0"
  shows "trailing_zeros64 w < 64" "bit w (trailing_zeros64 w)" "j < trailing_zeros64 w \<Longrightarrow> \<not> bit w j"
proof -
  let ?P = "\<lambda>i. \<not> bit w i" and ?t = "trailing_zeros64 w"
  obtain i where i: "bit w i" using assms by (auto simp: bit_eq_iff)
  then have "i < 64" using bit_imp_le_length [of w i] by simp
  have "\<not> list_all ?P [0..<64]" using i \<open>i < 64\<close> by (auto simp: list_all_iff)
  then have "takeWhile ?P [0..<64] \<noteq> [0..<64]"
    unfolding takeWhile_eq_all_conv by (simp add: list_all_iff)
  then show t: "?t < 64"
    unfolding trailing_zeros64_def
    by (metis takeWhile_eq_take take_all length_upt diff_zero linorder_not_less)
  show "bit w ?t"
    using nth_length_takeWhile [of ?P "[0..<64]"] t by (simp add: trailing_zeros64_def)
  show "\<not> bit w j" if "j < ?t"
  proof -
    have "takeWhile ?P [0..<64] ! j \<in> set (takeWhile ?P [0..<64])"
      using that by (simp add: trailing_zeros64_def)
    then have "?P (takeWhile ?P [0..<64] ! j)" by (rule set_takeWhileD [THEN conjunct2])
    moreover have "takeWhile ?P [0..<64] ! j = j"
      using that t takeWhile_nth [of j ?P "[0..<64]"] by (simp add: trailing_zeros64_def)
    ultimately show ?thesis by simp
  qed
qed

lemma bit_NOT64: "i < 64 \<Longrightarrow> bit (NOT (w::uint64)) i \<longleftrightarrow> \<not> bit w i"
  by (simp add: bit_not_iff possible_bit_word)

lemma NOT_zero_all: "NOT (w::uint64) = 0 \<Longrightarrow> i < 64 \<Longrightarrow> bit w i"
  using bit_NOT64 [of i w] by auto

text \<open>The scan finds the lowest free position of the pod range, and fails only when there is none.\<close>

lemma alloc_scan_None:
  "alloc_scan cap idx ws = None \<Longrightarrow> i < 64 * length ws \<Longrightarrow> int (idx * 64 + i) < cap \<Longrightarrow> bm_test ws i"
proof (induction cap idx ws arbitrary: i rule: alloc_scan.induct)
  case (2 cap idx w ws)
  let ?b = "trailing_zeros64 (NOT w)"
  show ?case
  proof (cases "NOT w = 0")
    case True
    show ?thesis
    proof (cases "i < 64")
      case False
      have "bm_test ws (i - 64)"
        by (rule "2.IH"(1)) (use True False "2.prems" in auto)
      then show ?thesis using False by (simp add: bm_test_Cons)
    qed (use NOT_zero_all [OF True] in \<open>simp add: bm_test_Cons\<close>)
  next
    case False
    note tz = trailing_zeros64_first [OF False]
    have cap: "cap \<le> int (idx * 64 + ?b)"
      using "2.prems"(1) False tz(1) by (auto simp: Let_def split: if_splits)
    then have "i < ?b" using "2.prems"(3) by linarith
    then show ?thesis using tz(3) [of i] bit_NOT64 [of i w] tz(1) by (simp add: bm_test_Cons)
  qed
qed simp

lemma alloc_scan_Some:
  "alloc_scan cap idx ws = Some (wi, b) \<Longrightarrow>
   \<exists>k. wi = idx + k \<and> k < length ws \<and> b < 64 \<and> int (wi * 64 + b) < cap \<and>
     \<not> bm_test ws (k * 64 + b) \<and> (\<forall>i < k * 64 + b. bm_test ws i)"
proof (induction cap idx ws rule: alloc_scan.induct)
  case (2 cap idx w ws)
  let ?b = "trailing_zeros64 (NOT w)"
  show ?case
  proof (cases "NOT w = 0")
    case True
    have "alloc_scan cap (Suc idx) ws = Some (wi, b)" using "2.prems" True by simp
    from "2.IH"(1) [OF True this] obtain k where
      k: "wi = Suc idx + k" "k < length ws" "b < 64" "int (wi * 64 + b) < cap"
      "\<not> bm_test ws (k * 64 + b)" "\<forall>i < k * 64 + b. bm_test ws i" by blast
    have "bm_test (w # ws) i" if "i < Suc k * 64 + b" for i
      using k(6) that NOT_zero_all [OF True, of i] by (auto simp: bm_test_Cons)
    moreover have "\<not> bm_test (w # ws) (Suc k * 64 + b)" using k(5) by (simp add: bm_test_Cons)
    ultimately show ?thesis using k by (intro exI [of _ "Suc k"]) auto
  next
    case False
    note tz = trailing_zeros64_first [OF False]
    have r: "wi = idx" "b = ?b" "int (idx * 64 + ?b) < cap"
      using "2.prems" False tz(1) by (auto simp: Let_def split: if_splits)
    have "\<forall>i < ?b. bm_test (w # ws) i" "\<not> bm_test (w # ws) ?b"
      using tz bit_NOT64 [of _ w] by (auto simp: bm_test_Cons)
    then show ?thesis using r tz(1) by (intro exI [of _ 0]) auto
  qed
qed simp

end
