(* ===== verification/IPAM_Invariant.thy ===== *)
theory IPAM_Invariant
  imports Bitmap_IPAM
begin

text \<open>
  The invariant of \<open>BitmapIPAM\<close>, its preservation by every operation, and the interface \<open>IPAM\<close> of
  \<open>pkg/network/ipam/interface.go\<close> as a locale that the bitmap implementation is shown to satisfy.
\<close>

subsection \<open>The invariant\<close>

definition ipam_inv :: "bitmap_ipam \<Rightarrow> ipnet \<Rightarrow> bits \<Rightarrow> bool" where
  "ipam_inv s n bs \<longleftrightarrow> Network s = Some n \<and> pod_net n bs \<and>
     length (bitmap s) = (podcap bs + 63) div 64 \<and> (\<forall>i. bm_test (bitmap s) i \<longrightarrow> i < podcap bs) \<and>
     distinct (map fst (IPs s)) \<and>
     (\<forall>k v. map_of (IPs s) k = Some v \<longrightarrow> (\<exists>i. bm_test (bitmap s) i \<and> ci_IP v = indexToIP n (int i))) \<and>
     (\<forall>k v k' v'. map_of (IPs s) k = Some v \<longrightarrow> map_of (IPs s) k' = Some v' \<longrightarrow> ci_IP v = ci_IP v' \<longrightarrow> k = k')"

text \<open>Every set bit belongs to a pod: no address is taken without an owner.\<close>

definition ipam_exact :: "bitmap_ipam \<Rightarrow> ipnet \<Rightarrow> bool" where
  "ipam_exact s n \<longleftrightarrow>
     (\<forall>i. bm_test (bitmap s) i \<longrightarrow> (\<exists>k v. map_of (IPs s) k = Some v \<and> ci_IP v = indexToIP n (int i)))"

lemma ipam_invD:
  assumes "ipam_inv s n bs"
  shows "Network s = Some n" "pod_net n bs" "length (bitmap s) = (podcap bs + 63) div 64"
    "bm_test (bitmap s) i \<Longrightarrow> i < podcap bs" "distinct (map fst (IPs s))"
    "map_of (IPs s) k = Some v \<Longrightarrow> \<exists>i. bm_test (bitmap s) i \<and> ci_IP v = indexToIP n (int i)"
    "map_of (IPs s) k = Some v \<Longrightarrow> map_of (IPs s) k' = Some v' \<Longrightarrow> ci_IP v = ci_IP v' \<Longrightarrow> k = k'"
  using assms unfolding ipam_inv_def by blast+

lemma capacity_pod:
  assumes "Network s = Some n" "pod_net n bs"
  shows "capacityLocked s = Inr (int (podcap bs))" "0 < podcap bs"
proof -
  have p: "net_pfx n bs" "length bs \<le> 30" using assms(2) by (auto simp: pod_net_def)
  have T: "4 \<le> (2::int) ^ (32 - length bs)" "int (podcap bs) = 2 ^ (32 - length bs) - 3"
    using pod_size [OF p(2)] power_increasing [of 2 "32 - length bs" "2::int"] p(2)
    by (auto simp: podcap_def of_nat_diff)
  then show "capacityLocked s = Inr (int (podcap bs))"
    using assms(1) p(2) by (simp add: capacityLocked_def net_pfxD(5) [OF p(1)] shl1_size)
  show "0 < podcap bs" using pod_size [OF p(2)] by (simp add: podcap_def)
qed

lemma pod_word: "i < m \<Longrightarrow> i div 64 < (m + 63) div (64::nat)"
  by (simp add: less_eq_div_iff_mult_less_eq flip: Suc_le_eq)

lemma NewBitmapIPAM_inv:
  assumes "pod_net n bs"
  shows "\<exists>s. NewBitmapIPAM (Some n) = Inr s \<and> ipam_inv s n bs \<and> ipam_exact s n \<and> IPs s = []"
proof -
  have p: "net_pfx n bs" "length bs \<le> 30" using assms by (auto simp: pod_net_def)
  have T: "4 \<le> (2::int) ^ (32 - length bs)" "int (podcap bs) = 2 ^ (32 - length bs) - 3"
    using pod_size [OF p(2)] power_increasing [of 2 "32 - length bs" "2::int"] p(2)
    by (auto simp: podcap_def of_nat_diff)
  let ?s = "\<lparr>Network = Some n, bitmap = replicate ((podcap bs + 63) div 64) 0, IPs = []\<rparr>"
  have "nat ((2 ^ (32 - length bs) - 3 + 63) div 64) = (podcap bs + 63) div 64"
    unfolding T(2) [symmetric] by (simp add: nat_div_distrib)
  then have "NewBitmapIPAM (Some n) = Inr ?s"
    using T p(2) by (simp add: NewBitmapIPAM_def net_pfxD(5) [OF p(1)] shl1_size Let_def algebra_simps)
  moreover have "ipam_inv ?s n bs" "ipam_exact ?s n"
    using assms by (auto simp: ipam_inv_def ipam_exact_def)
  ultimately show ?thesis by auto
qed

subsection \<open>Allocate\<close>

text \<open>The state after position \<open>i\<close> was given to a pod.\<close>

definition taken :: "bitmap_ipam \<Rightarrow> ipnet \<Rightarrow> nat \<Rightarrow> string \<Rightarrow> string \<Rightarrow> string \<Rightarrow> string \<Rightarrow>
    bitmap_ipam \<times> ContainerNetInfo" where
  "taken s n i k cid ifn ns =
     (let res = \<lparr>ci_ID = cid, ci_IFname = ifn, ci_NetNS = ns, ci_IP = indexToIP n (int i)\<rparr>
      in (s\<lparr>bitmap := (bitmap s)[i div 64 := bitmap s ! (i div 64) OR push_bit (i mod 64) 1],
            IPs := AList.update k res (IPs s)\<rparr>, res))"

lemma ipam_Allocate_cases:
  assumes inv: "ipam_inv s n bs"
  shows "((\<forall>i < podcap bs. bm_test (bitmap s) i) \<and> ipam_Allocate s k cid ifn ns = Inl (ErrNoAvailableIPs n)) \<or>
    (\<exists>i < podcap bs. \<not> bm_test (bitmap s) i \<and> (\<forall>j < i. bm_test (bitmap s) j) \<and>
       ipam_Allocate s k cid ifn ns = Inr (taken s n i k cid ifn ns))"
proof -
  note d = ipam_invD [OF inv] and c = capacity_pod [OF ipam_invD(1,2) [OF inv]]
  show ?thesis
  proof (cases "alloc_scan (int (podcap bs)) 0 (bitmap s)")
    case None
    have "bm_test (bitmap s) i" if "i < podcap bs" for i
    proof -
      have "i < 64 * length (bitmap s)" using pod_word [OF that] d(3) by (simp add: div_less_iff_less_mult mult.commute)
      then show ?thesis using alloc_scan_None [OF None] that by simp
    qed
    then show ?thesis using None d(1) c by (simp add: ipam_Allocate_def)
  next
    case (Some x)
    obtain wi b where x: "x = (wi, b)" by (cases x)
    let ?i = "wi * 64 + b"
    have a: "wi < length (bitmap s)" "b < 64" "?i < podcap bs" "\<not> bm_test (bitmap s) ?i" "\<forall>j < ?i. bm_test (bitmap s) j"
      using alloc_scan_Some [OF Some [unfolded x]] by auto
    have "?i div 64 = wi" "?i mod 64 = b" using a(2) by auto
    then have "ipam_Allocate s k cid ifn ns = Inr (taken s n ?i k cid ifn ns)"
      using Some x d(1) c by (simp add: ipam_Allocate_def taken_def Let_def)
    then show ?thesis using a by blast
  qed
qed

lemma taken_inv:
  assumes inv: "ipam_inv s n bs" and i: "i < podcap bs" "\<not> bm_test (bitmap s) i"
    and t: "taken s n i k cid ifn ns = (s', res)"
  shows "ipam_inv s' n bs" "GetAllocation s' = (GetAllocation s)(k \<mapsto> res)" "ci_IP res = indexToIP n (int i)"
    "bm_test (bitmap s') j \<longleftrightarrow> bm_test (bitmap s) j \<or> j = i"
    "GetAllocation s k' = Some v \<Longrightarrow> ci_IP v \<noteq> ci_IP res"
    "res = \<lparr>ci_ID = cid, ci_IFname = ifn, ci_NetNS = ns, ci_IP = indexToIP n (int i)\<rparr>"
proof -
  note d = ipam_invD [OF inv]
  have s': "s' = s\<lparr>bitmap := (bitmap s)[i div 64 := bitmap s ! (i div 64) OR push_bit (i mod 64) 1],
        IPs := AList.update k res (IPs s)\<rparr>"
    and r: "res = \<lparr>ci_ID = cid, ci_IFname = ifn, ci_NetNS = ns, ci_IP = indexToIP n (int i)\<rparr>"
    using t by (auto simp: taken_def Let_def)
  then show "res = \<lparr>ci_ID = cid, ci_IFname = ifn, ci_NetNS = ns, ci_IP = indexToIP n (int i)\<rparr>" by simp
  have w: "i div 64 < length (bitmap s)" using pod_word [OF i(1)] d(3) by simp
  have "i div 64 * 64 + i mod 64 = i" by (rule div_mult_mod_eq)
  then have b: "bm_test (bitmap s') j \<longleftrightarrow> bm_test (bitmap s) j \<or> j = i" for j
    using bm_test_set [OF w, of "i mod 64" j] unfolding s' by simp
  then show "bm_test (bitmap s') j \<longleftrightarrow> bm_test (bitmap s) j \<or> j = i" .
  have m: "map_of (IPs s') = (map_of (IPs s))(k \<mapsto> res)" unfolding s' by (simp add: update_conv')
  then show "GetAllocation s' = (GetAllocation s)(k \<mapsto> res)" by (auto simp: GetAllocation_def fun_eq_iff)
  show ip: "ci_IP res = indexToIP n (int i)" by (simp add: r)
  have new: "ci_IP v \<noteq> ci_IP res" if "map_of (IPs s) k' = Some v" for k' v
    using d(6) [OF that] i indexToIP_inject [OF d(2)] d(4) ip by metis
  then show "GetAllocation s k' = Some v \<Longrightarrow> ci_IP v \<noteq> ci_IP res" by (simp add: GetAllocation_def)
  show "ipam_inv s' n bs"
    unfolding ipam_inv_def
  proof (intro conjI allI impI)
    show "Network s' = Some n" "pod_net n bs" "length (bitmap s') = (podcap bs + 63) div 64"
      using d(1-3) s' by auto
    show "j < podcap bs" if "bm_test (bitmap s') j" for j using that b d(4) i(1) by auto
    show "distinct (map fst (IPs s'))" using d(5) s' by (simp add: distinct_update)
    show "\<exists>i. bm_test (bitmap s') i \<and> ci_IP v = indexToIP n (int i)" if "map_of (IPs s') k' = Some v" for k' v
      using that d(6) b ip by (auto simp: m split: if_splits) blast
    show "k1 = k2" if "map_of (IPs s') k1 = Some v1" "map_of (IPs s') k2 = Some v2" "ci_IP v1 = ci_IP v2"
      for k1 v1 k2 v2
      using that d(7) [of k1 v1 k2 v2] new by (auto simp: m split: if_splits)
  qed
qed

lemma taken_exact:
  assumes "ipam_inv s n bs" "i < podcap bs" "\<not> bm_test (bitmap s) i" "taken s n i k cid ifn ns = (s', res)"
    "ipam_exact s n" "GetAllocation s k = None"
  shows "ipam_exact s' n"
  unfolding ipam_exact_def
proof (intro allI impI)
  note t = taken_inv [OF assms(1-4)]
  fix j assume j: "bm_test (bitmap s') j"
  show "\<exists>k v. map_of (IPs s') k = Some v \<and> ci_IP v = indexToIP n (int j)"
  proof (cases "j = i")
    case True
    then show ?thesis using t(2,3) by (auto simp: GetAllocation_def fun_eq_iff)
  next
    case False
    then obtain k' v where "map_of (IPs s) k' = Some v" "ci_IP v = indexToIP n (int j)"
      using t(4) j assms(5) unfolding ipam_exact_def by blast
    moreover have "k' \<noteq> k" using calculation assms(6) by (auto simp: GetAllocation_def)
    ultimately have "map_of (IPs s') k' = Some v" using t(2) by (auto simp: GetAllocation_def fun_eq_iff)
    then show ?thesis using \<open>ci_IP v = indexToIP n (int j)\<close> by blast
  qed
qed

subsection \<open>Free\<close>

lemma ip_equal_to4: "length a = 4 \<Longrightarrow> ip_equal a x \<longleftrightarrow> to4 x = a"
  by (auto simp: ip_equal_def to4_def)

lemma drop_ip_none: "\<forall>(k, v) \<in> set kvs. \<not> ip_equal (ci_IP v) ip \<Longrightarrow> drop_ip ip kvs = kvs"
  by (induction ip kvs rule: drop_ip.induct) auto

lemma drop_ip_set: "set (map fst (drop_ip ip kvs)) \<subseteq> set (map fst kvs)"
  by (induction ip kvs rule: drop_ip.induct) auto

lemma drop_ip_distinct: "distinct (map fst kvs) \<Longrightarrow> distinct (map fst (drop_ip ip kvs))"
proof (induction ip kvs rule: drop_ip.induct)
  case (2 ip k v kvs)
  then show ?case using drop_ip_set [of ip kvs] by (auto simp: subset_iff)
qed simp

lemma drop_ip_one:
  assumes "distinct (map fst kvs)" "map_of kvs k = Some v" "ip_equal (ci_IP v) ip"
    "\<And>k' v'. map_of kvs k' = Some v' \<Longrightarrow> ip_equal (ci_IP v') ip \<Longrightarrow> k' = k"
  shows "map_of (drop_ip ip kvs) = (map_of kvs)(k := None)"
  using assms
proof (induction ip kvs rule: drop_ip.induct)
  case (2 ip k1 v1 kvs)
  show ?case
  proof (cases "ip_equal (ci_IP v1) ip")
    case True
    then have "k1 = k" using "2.prems"(4) [of k1 v1] by simp
    moreover have "map_of kvs k1 = None" using "2.prems"(1) by (simp add: map_of_eq_None_iff)
    ultimately show ?thesis using True by (auto simp: fun_eq_iff)
  next
    case False
    then have ne: "k1 \<noteq> k" using "2.prems"(2,3) by auto
    have uniq: "k' = k" if "map_of kvs k' = Some v'" "ip_equal (ci_IP v') ip" for k' v'
      using "2.prems"(4) [of k' v'] that "2.prems"(1) by (force dest: map_of_SomeD split: if_splits)
    have "map_of (drop_ip ip kvs) = (map_of kvs)(k := None)"
      using "2.IH" [OF False _ _ "2.prems"(3) uniq] "2.prems"(1,2) ne by auto
    then show ?thesis using False ne by (auto simp: fun_eq_iff)
  qed
qed simp

lemma ipam_Free_cases:
  assumes inv: "ipam_inv s n bs"
  shows "(\<exists>i < podcap bs. to4 ip = indexToIP n (int i) \<and>
      ipam_Free s ip = Inr (s\<lparr>bitmap := (bitmap s)[i div 64 := bitmap s ! (i div 64) AND NOT (push_bit (i mod 64) 1)],
                              IPs := drop_ip ip (IPs s)\<rparr>)) \<or>
    ((\<forall>i < podcap bs. to4 ip \<noteq> indexToIP n (int i)) \<and> ipam_Free s ip = Inl (ErrIPNotInRange ip (Some n)))"
proof -
  note d = ipam_invD [OF inv]
  show ?thesis
  proof (cases rule: ipToIndex_total [OF d(2,1), of ip])
    case 1
    then show ?thesis using d(1) by (simp add: ipam_Free_def)
  next
    case (2 i)
    then show ?thesis using pod_word [OF 2(2)] d(3) by (auto simp: ipam_Free_def Let_def)
  qed
qed

definition freed :: "ip \<Rightarrow> (string \<rightharpoonup> ContainerNetInfo) \<Rightarrow> (string \<rightharpoonup> ContainerNetInfo)" where
  "freed ip m = (\<lambda>k. case m k of None \<Rightarrow> None | Some v \<Rightarrow> if ci_IP v = to4 ip then None else Some v)"

lemma ipam_Free_inv:
  assumes inv: "ipam_inv s n bs" and r: "ipam_Free s ip = Inr s'"
  shows "ipam_inv s' n bs" "GetAllocation s' = freed ip (GetAllocation s)"
    "bm_test (bitmap s') j \<longleftrightarrow> bm_test (bitmap s) j \<and> indexToIP n (int j) \<noteq> to4 ip"
    "ipam_exact s n \<Longrightarrow> ipam_exact s' n"
proof -
  note d = ipam_invD [OF inv]
  obtain i where i: "i < podcap bs" "to4 ip = indexToIP n (int i)"
    "s' = s\<lparr>bitmap := (bitmap s)[i div 64 := bitmap s ! (i div 64) AND NOT (push_bit (i mod 64) 1)],
            IPs := drop_ip ip (IPs s)\<rparr>"
    using ipam_Free_cases [OF inv, of ip] r by auto
  have "i div 64 * 64 + i mod 64 = i" by (rule div_mult_mod_eq)
  then have b: "bm_test (bitmap s') j \<longleftrightarrow> bm_test (bitmap s) j \<and> j \<noteq> i" for j
    using bm_test_clear [of "i div 64" "bitmap s" "i mod 64" j] pod_word [OF i(1)] d(3) unfolding i(3) by simp
  then show bj: "bm_test (bitmap s') j \<longleftrightarrow> bm_test (bitmap s) j \<and> indexToIP n (int j) \<noteq> to4 ip" for j
    using indexToIP_inject [OF d(2)] d(4) i by metis
  have eq: "ip_equal (ci_IP v) ip \<longleftrightarrow> ci_IP v = to4 ip" if "map_of (IPs s) k = Some v" for k v
    using d(6) [OF that] indexToIP_val(1) [OF d(2)] d(4) ip_equal_to4 by metis
  have "map_of (IPs s') = freed ip (map_of (IPs s))"
  proof (cases "\<exists>k v. map_of (IPs s) k = Some v \<and> ci_IP v = to4 ip")
    case True
    then obtain k v where k: "map_of (IPs s) k = Some v" "ci_IP v = to4 ip" by blast
    have "map_of (drop_ip ip (IPs s)) = (map_of (IPs s))(k := None)"
      by (rule drop_ip_one [OF d(5) k(1)]) (use k eq d(7) in \<open>auto, metis\<close>)
    also have "\<dots> = freed ip (map_of (IPs s))"
    proof
      fix j
      show "((map_of (IPs s))(k := None)) j = freed ip (map_of (IPs s)) j"
        using k d(7) [OF k(1), of j] by (cases "map_of (IPs s) j") (auto simp: freed_def)
    qed
    finally show ?thesis by (simp add: i(3))
  next
    case False
    have "drop_ip ip (IPs s) = IPs s"
      by (rule drop_ip_none) (use False eq d(5) in auto)
    moreover have "freed ip (map_of (IPs s)) = map_of (IPs s)"
      using False by (auto simp: freed_def fun_eq_iff split: option.splits)
    ultimately show ?thesis by (simp add: i(3))
  qed
  note m = this
  then show "GetAllocation s' = freed ip (GetAllocation s)" by (simp add: GetAllocation_def [abs_def] freed_def)
  have sub: "map_of (IPs s) k = Some v \<and> ci_IP v \<noteq> to4 ip" if "map_of (IPs s') k = Some v" for k v
    using that by (auto simp: m freed_def split: option.splits if_splits)
  show "ipam_inv s' n bs"
    unfolding ipam_inv_def
  proof (intro conjI allI impI)
    show "Network s' = Some n" "pod_net n bs" "length (bitmap s') = (podcap bs + 63) div 64"
      using d(1-3) i(3) by auto
    show "j < podcap bs" if "bm_test (bitmap s') j" for j using that b d(4) by auto
    show "distinct (map fst (IPs s'))" using drop_ip_distinct [OF d(5)] i(3) by simp
    show "\<exists>i. bm_test (bitmap s') i \<and> ci_IP v = indexToIP n (int i)" if "map_of (IPs s') k' = Some v" for k' v
      using sub [OF that] d(6) [of k' v] bj by auto
    show "k1 = k2" if "map_of (IPs s') k1 = Some v1" "map_of (IPs s') k2 = Some v2" "ci_IP v1 = ci_IP v2"
      for k1 v1 k2 v2
      using sub [OF that(1)] sub [OF that(2)] that(3) d(7) by blast
  qed
  show "ipam_exact s' n" if "ipam_exact s n"
    unfolding ipam_exact_def
  proof (intro allI impI)
    fix j assume "bm_test (bitmap s') j"
    then have j: "bm_test (bitmap s) j" "indexToIP n (int j) \<noteq> to4 ip" using bj by auto
    then obtain k v where "map_of (IPs s) k = Some v" "ci_IP v = indexToIP n (int j)"
      using \<open>ipam_exact s n\<close> unfolding ipam_exact_def by blast
    then show "\<exists>k v. map_of (IPs s') k = Some v \<and> ci_IP v = indexToIP n (int j)"
      using j(2) by (auto simp: m freed_def intro!: exI [of _ k])
  qed
qed

subsection \<open>Expand\<close>

lemma byte_bits_or_not: "byte_bits (a OR NOT b) = map2 (\<lambda>x y. x \<or> \<not> y) (byte_bits a) (byte_bits b)"
  by (simp add: byte_bits_def bit_or_iff bit_not_iff possible_bit_word)

lemma ip_bits_or_not: "length a = length m \<Longrightarrow>
    ip_bits (map2 (\<lambda>b m. b OR NOT m) a m) = map2 (\<lambda>x y. x \<or> \<not> y) (ip_bits a) (ip_bits m)"
  by (induction a m rule: list_induct2) (auto simp: byte_bits_or_not)

lemma lastIP_bits:
  assumes "net_pfx n bs"
  obtains l where "lastIP n = Inr l" "length l = 4" "ip_bits l = bs @ replicate (32 - length bs) True"
proof -
  note d = net_pfxD [OF assms]
  let ?l = "map2 (\<lambda>b m. b OR NOT m) (net_ip n) (net_mask n)"
  have m: "length (net_mask n) = 4" using d(1,4) length_cidr_mask by simp
  have "net_ip n \<noteq> []" using d(2) by auto
  then have "lastIP n = Inr ?l" using m d(2) by (simp add: lastIP_def Let_def)
  moreover have "length ?l = 4" using m d(2) by simp
  moreover have "ip_bits ?l = bs @ replicate (32 - length bs) True"
  proof -
    have "ip_bits ?l = map2 (\<lambda>x y. x \<or> \<not> y) (bs @ replicate (32 - length bs) False)
        (replicate (length bs) True @ replicate (32 - length bs) False)"
      using ip_bits_or_not [of "net_ip n" "net_mask n"] m d(1-4) ip_bits_cidr_mask [OF d(1)] by simp
    also have "\<dots> = bs @ replicate (32 - length bs) True"
      by (rule nth_equalityI) (auto simp: nth_append)
    finally show ?thesis .
  qed
  ultimately show ?thesis by (rule that)
qed

lemma prefix_both:
  assumes "prefix ps (bs @ replicate k False)" "prefix ps (bs @ replicate k True)"
  shows "prefix ps bs"
proof (rule ccontr)
  assume n: "\<not> prefix ps bs"
  have "length bs < length ps"
  proof (rule ccontr)
    assume "\<not> length bs < length ps"
    then have "prefix ps bs" using assms(1) prefix_length_prefix [of ps "bs @ replicate k False" bs] by auto
    with n show False ..
  qed
  then have *: "ps ! length bs = (bs @ replicate k b) ! length bs" "length bs < length (bs @ replicate k b)"
    if "prefix ps (bs @ replicate k b)" for b
    using that nth_append [of ps _ "length bs"] by (auto simp: prefix_def dest: arg_cong [where f = length])
  have "0 < k" using *(2) [OF assms(1)] by simp
  then show False using *(1) [OF assms(1)] *(1) [OF assms(2)] by (simp add: nth_append)
qed

text \<open>On canonical networks \<open>cidrContains\<close> decides whether the outer prefix is a prefix of the inner one.\<close>

lemma cidrContains_iff:
  assumes o: "net_pfx outer ps" and i: "net_pfx inner bs"
  shows "cidrContains outer inner = Inr (prefix ps bs)"
proof -
  note d = net_pfxD [OF i]
  obtain l where l: "lastIP inner = Inr l" "length l = 4" "ip_bits l = bs @ replicate (32 - length bs) True"
    using lastIP_bits [OF i] .
  have 1: "contains outer (net_ip inner) \<longleftrightarrow> prefix ps (bs @ replicate (32 - length bs) False)"
    unfolding contains_prefix [OF o d(2)] d(3) ..
  have 2: "contains outer l \<longleftrightarrow> prefix ps (bs @ replicate (32 - length bs) True)"
    unfolding contains_prefix [OF o l(2)] l(3) ..
  show ?thesis
    unfolding cidrContains_def 1 l(1) using 2 prefix_both [of ps bs "32 - length bs"]
    by (auto simp: prefix_prefix)
qed

lemma expand_loop_ok:
  assumes "pod_net n bs" "Network s = Some n" "length bm = (podcap bs + 63) div 64"
    "\<forall>(k, v) \<in> set kvs. \<exists>i < podcap bs. ci_IP v = indexToIP n (int i)"
  shows "\<exists>bm'. expand_loop s nn kvs bm = (Inr bm', kvs) \<and> length bm' = length bm \<and>
    (\<forall>i. bm_test bm' i \<longleftrightarrow> bm_test bm i \<or> (i < podcap bs \<and> (\<exists>(k, v) \<in> set kvs. ci_IP v = indexToIP n (int i))))"
  using assms(3,4)
proof (induction kvs arbitrary: bm)
  case Nil
  then show ?case by simp
next
  case (Cons kv kvs)
  obtain k v where kv: "kv = (k, v)" by (cases kv)
  obtain i where i: "i < podcap bs" "ci_IP v = indexToIP n (int i)" using Cons.prems(2) kv by auto
  have l: "length (ci_IP v) = 4" using indexToIP_val(1) [OF assms(1) i(1)] i(2) by simp
  have idx: "ipToIndex s (ci_IP v) = Inr (int i)"
    using ipToIndex_iff [OF assms(1,2), of "ci_IP v" i] i l by simp
  let ?bm = "bm[i div 64 := bm ! (i div 64) OR push_bit (i mod 64) 1]"
  have w: "i div 64 < length bm" using pod_word [OF i(1)] Cons.prems(1) by simp
  have "i div 64 * 64 + i mod 64 = i" by (rule div_mult_mod_eq)
  then have t: "bm_test ?bm j \<longleftrightarrow> bm_test bm j \<or> j = i" for j
    using bm_test_set [OF w, of "i mod 64" j] by simp
  obtain bm' where b: "expand_loop s nn kvs ?bm = (Inr bm', kvs)" "length bm' = length ?bm"
    "\<forall>i. bm_test bm' i \<longleftrightarrow> bm_test ?bm i \<or> (i < podcap bs \<and> (\<exists>(k, v) \<in> set kvs. ci_IP v = indexToIP n (int i)))"
    using Cons.IH [of ?bm] Cons.prems by auto
  have "ci_IP v \<noteq> []" using l by auto
  then have "expand_loop s nn (kv # kvs) bm = (Inr bm', kv # kvs)"
    using kv idx w b(1) by (simp add: Let_def)
  moreover have "j < podcap bs \<and> (\<exists>(k, v) \<in> set (kv # kvs). ci_IP v = indexToIP n (int j)) \<longleftrightarrow>
      j = i \<or> (j < podcap bs \<and> (\<exists>(k, v) \<in> set kvs. ci_IP v = indexToIP n (int j)))" for j
    using i indexToIP_inject [OF assms(1) i(1), of j] kv by auto
  ultimately show ?case using b(2,3) t by auto
qed

text \<open>A pod address of a subnet is a pod address of every larger subnet that contains it.\<close>

lemma pod_index_wider:
  assumes "pod_net n bs" "pod_net n' bs'" "prefix bs' bs" "i < podcap bs"
  shows "\<exists>j < podcap bs'. indexToIP n (int i) = indexToIP n' (int j)"
proof -
  have p: "net_pfx n bs" "net_pfx n' bs'" "length bs \<le> 30" "length bs' \<le> 30" using assms by (auto simp: pod_net_def)
  obtain cs where cs: "bs = bs' @ cs" using assms(3) by (auto simp: prefix_def)
  have v: "ip_val (net_ip m) = bits_val xs * 2 ^ (32 - length xs)" if "net_pfx m xs" for m xs
    unfolding net_pfxD(3) [OF that] by (simp add: bits_val_append)
  let ?k = "32 - length bs" and ?k' = "32 - length bs'"
  have k: "?k' = length cs + ?k" using cs p(3) by simp
  have e: "ip_val (net_ip n) = ip_val (net_ip n') + bits_val cs * 2 ^ ?k"
    unfolding v [OF p(1)] v [OF p(2)] k power_add using cs by (simp add: bits_val_append algebra_simps)
  let ?j = "bits_val cs * 2 ^ ?k + i"
  have "(bits_val cs + 1) * 2 ^ ?k \<le> 2 ^ length cs * 2 ^ ?k"
    using bits_val_less [of cs] by (intro mult_right_mono) auto
  then have j: "?j < podcap bs'"
    using assms(4) pod_size [OF p(3)] unfolding podcap_def k power_add by (simp add: algebra_simps)
  have "ip_val (indexToIP n (int i)) = ip_val (indexToIP n' (int ?j))"
    unfolding indexToIP_val(2) [OF assms(1,4)] indexToIP_val(2) [OF assms(2) j] e by simp
  then have "indexToIP n (int i) = indexToIP n' (int ?j)"
    using indexToIP_val(1) [OF assms(1,4)] indexToIP_val(1) [OF assms(2) j] ip_val_inject by metis
  with j show ?thesis by blast
qed

lemma ipam_Expand_ok:
  assumes inv: "ipam_inv s n bs" and n': "pod_net n' bs'" and w: "prefix bs' bs"
  shows "\<exists>s'. ipam_Expand s (Some n') = (None, s') \<and> ipam_inv s' n' bs' \<and> ipam_exact s' n' \<and> IPs s' = IPs s"
proof -
  note d = ipam_invD [OF inv]
  let ?s1 = "s\<lparr>Network := Some n'\<rparr>"
  have c: "capacityLocked ?s1 = Inr (int (podcap bs'))" "0 < podcap bs'" using capacity_pod [of ?s1] n' by auto
  have in': "\<forall>(k, v) \<in> set (IPs s). \<exists>j < podcap bs'. ci_IP v = indexToIP n' (int j)"
  proof clarify
    fix k v assume "(k, v) \<in> set (IPs s)"
    then have "map_of (IPs s) k = Some v" using d(5) by simp
    then obtain i where "bm_test (bitmap s) i" "ci_IP v = indexToIP n (int i)" using d(6) by blast
    then show "\<exists>j < podcap bs'. ci_IP v = indexToIP n' (int j)"
      using pod_index_wider [OF d(2) n' w, of i] d(4) by auto
  qed
  let ?bm = "replicate ((podcap bs' + 63) div 64) (0::uint64)"
  obtain bm where b: "expand_loop ?s1 n' (IPs s) ?bm = (Inr bm, IPs s)" "length bm = (podcap bs' + 63) div 64"
    "\<forall>i. bm_test bm i \<longleftrightarrow> i < podcap bs' \<and> (\<exists>(k, v) \<in> set (IPs s). ci_IP v = indexToIP n' (int i))"
    using expand_loop_ok [OF n', of ?s1 ?bm "IPs s" n'] in' by auto
  let ?s' = "?s1\<lparr>bitmap := bm, IPs := IPs s\<rparr>"
  have "nat ((int (podcap bs') + 63) div 64) = (podcap bs' + 63) div 64" by (simp add: nat_div_distrib)
  then have "ipam_Expand s (Some n') = (None, ?s')"
    using cidrContains_iff [of n' bs' n bs] n' d(1,2) w c b(1) by (simp add: ipam_Expand_def pod_net_def Let_def)
  moreover have "ipam_inv ?s' n' bs'"
    unfolding ipam_inv_def using n' b d(5,7) in' by (fastforce dest: map_of_SomeD)
  moreover have "ipam_exact ?s' n'"
    unfolding ipam_exact_def using b(3) d(5) by fastforce
  ultimately show ?thesis by auto
qed

lemma ipam_Expand_refused:
  assumes "ipam_inv s n bs" "net_pfx n' bs'" "\<not> prefix bs' bs"
  shows "ipam_Expand s (Some n') = (Some (NotIncluded n' n), s)"
  using cidrContains_iff [OF assms(2), of n bs] ipam_invD(1,2) [OF assms(1)] assms(3)
  by (simp add: ipam_Expand_def pod_net_def)

subsection \<open>Counting\<close>

lemma remaining_count:
  assumes "ipam_inv s n bs"
  shows "Remaining s = int (podcap bs) - int (card {i. bm_test (bitmap s) i})"
proof -
  note d = ipam_invD [OF assms]
  have "card {i. bm_test (bitmap s) i} \<le> card {..<podcap bs}"
    using d(4) by (intro card_mono) auto
  then show ?thesis
    using capacity_pod(1) [OF d(1,2)]
    by (simp add: Remaining_def remainingLocked_def Let_def sum_ones_count)
qed

lemma exact_card:
  assumes inv: "ipam_inv s n bs" and e: "ipam_exact s n"
  shows "card {i. bm_test (bitmap s) i} = length (IPs s)"
proof -
  note d = ipam_invD [OF inv]
  have m: "map_of (IPs s) k = Some v \<longleftrightarrow> (k, v) \<in> set (IPs s)" for k v using d(5) by simp
  have "inj_on (\<lambda>i. indexToIP n (int i)) {i. bm_test (bitmap s) i}"
    using indexToIP_inject [OF d(2)] d(4) by (auto simp: inj_on_def)
  then have "card {i. bm_test (bitmap s) i} = card ((\<lambda>i. indexToIP n (int i)) ` {i. bm_test (bitmap s) i})"
    by (simp add: card_image)
  also have "(\<lambda>i. indexToIP n (int i)) ` {i. bm_test (bitmap s) i} = (\<lambda>(k, v). ci_IP v) ` set (IPs s)"
  proof (intro equalityI subsetI)
    fix a assume "a \<in> (\<lambda>i. indexToIP n (int i)) ` {i. bm_test (bitmap s) i}"
    then show "a \<in> (\<lambda>(k, v). ci_IP v) ` set (IPs s)" using e m unfolding ipam_exact_def by force
  next
    fix a assume "a \<in> (\<lambda>(k, v). ci_IP v) ` set (IPs s)"
    then show "a \<in> (\<lambda>i. indexToIP n (int i)) ` {i. bm_test (bitmap s) i}" using d(6) m by fastforce
  qed
  also have "card \<dots> = card (set (IPs s))"
  proof (rule card_image, rule inj_onI)
    fix x y assume x: "x \<in> set (IPs s)" "y \<in> set (IPs s)" "(\<lambda>(k, v). ci_IP v) x = (\<lambda>(k, v). ci_IP v) y"
    obtain k v k' v' where xy: "x = (k, v)" "y = (k', v')" by (cases x; cases y)
    have a: "map_of (IPs s) k = Some v" "map_of (IPs s) k' = Some v'" "ci_IP v = ci_IP v'" using x xy m by auto
    have "k = k'" by (rule d(7) [OF a])
    with a xy show "x = y" by simp
  qed
  also have "\<dots> = length (IPs s)" using d(5) by (simp add: distinct_card distinct_map)
  finally show ?thesis .
qed

subsection \<open>The IPAM interface\<close>

text \<open>
  What the tenant code relies on, whatever the implementation: the pods of a tenant hold different
  addresses of the pool, allocation gives an address nobody holds, freeing returns exactly the
  named address, and expansion keeps every allocation.
\<close>

locale ipam =
  fixes inv :: "'s \<Rightarrow> bool"
    and pool :: "'s \<Rightarrow> ip set"
    and wider :: "'s \<Rightarrow> ipnet \<Rightarrow> bool"
    and lookup :: "'s \<Rightarrow> string \<Rightarrow> ContainerNetInfo option"
    and alloc :: "'s \<Rightarrow> string \<Rightarrow> string \<Rightarrow> string \<Rightarrow> string \<Rightarrow> 'e + ('s \<times> ContainerNetInfo)"
    and free :: "'s \<Rightarrow> ip \<Rightarrow> 'e + 's"
    and expand :: "'s \<Rightarrow> ipnet \<Rightarrow> 'e option \<times> 's"
    and remaining :: "'s \<Rightarrow> int"
  assumes in_pool: "inv s \<Longrightarrow> lookup s k = Some v \<Longrightarrow> ci_IP v \<in> pool s"
    and unique: "inv s \<Longrightarrow> lookup s k = Some v \<Longrightarrow> lookup s k' = Some v' \<Longrightarrow> ci_IP v = ci_IP v' \<Longrightarrow> k = k'"
    and alloc_ok: "inv s \<Longrightarrow> alloc s k c i ns = Inr (s', v) \<Longrightarrow>
      inv s' \<and> pool s' = pool s \<and> lookup s' = (lookup s)(k \<mapsto> v) \<and> remaining s' = remaining s - 1 \<and>
      (\<forall>k' v'. lookup s k' = Some v' \<longrightarrow> ci_IP v' \<noteq> ci_IP v)"
    and alloc_fails: "inv s \<Longrightarrow> alloc s k c i ns = Inl e \<Longrightarrow> remaining s = 0"
    and free_ok: "inv s \<Longrightarrow> free s a = Inr s' \<Longrightarrow> inv s' \<and> pool s' = pool s \<and> lookup s' = freed a (lookup s)"
    and expand_ok: "inv s \<Longrightarrow> wider s n \<Longrightarrow>
      \<exists>s'. expand s n = (None, s') \<and> inv s' \<and> lookup s' = lookup s \<and> pool s \<subseteq> pool s'"
begin

lemma alloc_keeps:
  assumes "inv s" "alloc s k c i ns = Inr (s', v)" "lookup s k' = Some v'" "k' \<noteq> k"
  shows "lookup s' k' = Some v'" "ci_IP v' \<noteq> ci_IP v"
  using alloc_ok [OF assms(1,2)] assms(3,4) by auto

lemma alloc_in_pool:
  assumes "inv s" "alloc s k c i ns = Inr (s', v)"
  shows "ci_IP v \<in> pool s"
  using alloc_ok [OF assms] in_pool [of s' k v] by auto

lemma free_other:
  assumes "inv s" "lookup s k = Some v" "free s (ci_IP v) = Inr s'" "lookup s k' = Some v'" "k' \<noteq> k"
    "length (ci_IP v) = 4"
  shows "lookup s' k' = Some v'" "lookup s' k = None"
  using free_ok [OF assms(1,3)] unique [OF assms(1,2,4)] assms(2,4,5,6) by (auto simp: freed_def)

lemma alloc_after_expand:
  assumes "inv s" "wider s n" "expand s n = (None, s1)" "alloc s1 k c i ns = Inr (s2, v)" "lookup s k' = Some v'"
    "k' \<noteq> k"
  shows "lookup s2 k' = Some v'" "ci_IP v' \<noteq> ci_IP v"
  using expand_ok [OF assms(1,2)] alloc_keeps [of s1 k c i ns s2 v k' v'] assms(3-6) by auto

lemma alloc_after_free:
  assumes "inv s" "free s a = Inr s1" "alloc s1 k c i ns = Inr (s2, v)" "k' \<noteq> k"
  shows "lookup s2 k' = freed a (lookup s) k'"
  using free_ok [OF assms(1,2)] alloc_ok [of s1 k c i ns s2 v] assms(3,4) by auto

end

definition bitmap_inv :: "bitmap_ipam \<Rightarrow> bool" where
  "bitmap_inv s \<longleftrightarrow> (\<exists>n bs. ipam_inv s n bs)"

text \<open>The addresses the bitmap stands for.\<close>

definition pod_pool :: "bitmap_ipam \<Rightarrow> ip set" where
  "pod_pool s = {a. length a = 4 \<and> (\<exists>i::nat. ipToIndex s a = Inr (int i))}"

lemma pod_pool_iff: "ipam_inv s n bs \<Longrightarrow> a \<in> pod_pool s \<longleftrightarrow> (\<exists>i < podcap bs. a = indexToIP n (int i))"
proof -
  assume inv: "ipam_inv s n bs"
  note d = ipam_invD [OF inv]
  show ?thesis
    using ipToIndex_iff [OF d(2,1), of a] indexToIP_val(1) [OF d(2)] unfolding pod_pool_def by force
qed

lemma ipam_Allocate_Inr:
  assumes inv: "ipam_inv s n bs" and r: "ipam_Allocate s k c i ns = Inr (s', v)"
  obtains j where "j < podcap bs" "\<not> bm_test (bitmap s) j" "\<forall>j' < j. bm_test (bitmap s) j'"
    "taken s n j k c i ns = (s', v)"
  using ipam_Allocate_cases [OF inv, of k c i ns] r by auto

lemma ipam_Allocate_remaining:
  assumes inv: "ipam_inv s n bs" and r: "ipam_Allocate s k c i ns = Inr (s', v)"
  shows "Remaining s' = Remaining s - 1"
proof -
  obtain j where j: "j < podcap bs" "\<not> bm_test (bitmap s) j" "taken s n j k c i ns = (s', v)"
    using ipam_Allocate_Inr [OF inv r] by metis
  note t = taken_inv [OF inv j]
  have "{i. bm_test (bitmap s') i} = insert j {i. bm_test (bitmap s) i}" using t(4) by auto
  then show ?thesis
    using remaining_count [OF inv] remaining_count [OF t(1)] j(2) by (simp add: bm_test_finite)
qed

lemma ipam_full_remaining:
  assumes inv: "ipam_inv s n bs" and "\<forall>i < podcap bs. bm_test (bitmap s) i"
  shows "Remaining s = 0"
proof -
  have "{i. bm_test (bitmap s) i} = {..<podcap bs}" using assms(2) ipam_invD(4) [OF inv] by auto
  then show ?thesis using remaining_count [OF inv] by simp
qed

text \<open>The networks to which a state may be expanded: canonical ones that include the current one.\<close>

definition wider_net :: "bitmap_ipam \<Rightarrow> ipnet \<Rightarrow> bool" where
  "wider_net s n' \<longleftrightarrow> (\<exists>n bs bs'. Network s = Some n \<and> net_pfx n bs \<and> pod_net n' bs' \<and> prefix bs' bs)"

interpretation bm: ipam bitmap_inv pod_pool wider_net GetAllocation ipam_Allocate ipam_Free "\<lambda>s n. ipam_Expand s (Some n)" Remaining
proof unfold_locales
  fix s k v assume "bitmap_inv s" "GetAllocation s k = Some v"
  then show "ci_IP v \<in> pod_pool s"
    using pod_pool_iff ipam_invD(4,6) unfolding bitmap_inv_def GetAllocation_def by metis
next
  fix s k v k' v'
  assume "bitmap_inv s" "GetAllocation s k = Some v" "GetAllocation s k' = Some v'" "ci_IP v = ci_IP v'"
  then show "k = k'" using ipam_invD(7) unfolding bitmap_inv_def GetAllocation_def by blast
next
  fix s k c i ns s' v
  assume a: "bitmap_inv s" "ipam_Allocate s k c i ns = Inr (s', v)"
  then obtain n bs where inv: "ipam_inv s n bs" by (auto simp: bitmap_inv_def)
  obtain j where j: "j < podcap bs" "\<not> bm_test (bitmap s) j" "taken s n j k c i ns = (s', v)"
    using ipam_Allocate_Inr [OF inv a(2)] by metis
  note t = taken_inv [OF inv j]
  have "pod_pool s' = pod_pool s" using pod_pool_iff [OF inv] pod_pool_iff [OF t(1)] by auto
  then show "bitmap_inv s' \<and> pod_pool s' = pod_pool s \<and> GetAllocation s' = (GetAllocation s)(k \<mapsto> v) \<and>
      Remaining s' = Remaining s - 1 \<and> (\<forall>k' v'. GetAllocation s k' = Some v' \<longrightarrow> ci_IP v' \<noteq> ci_IP v)"
    using t(1,2,5) ipam_Allocate_remaining [OF inv a(2)] by (auto simp: bitmap_inv_def)
next
  fix s k c i ns e
  assume a: "bitmap_inv s" "ipam_Allocate s k c i ns = Inl e"
  then obtain n bs where inv: "ipam_inv s n bs" by (auto simp: bitmap_inv_def)
  then show "Remaining s = 0"
    using ipam_Allocate_cases [OF inv, of k c i ns] a(2) ipam_full_remaining [OF inv] by auto
next
  fix s a s'
  assume a: "bitmap_inv s" "ipam_Free s a = Inr s'"
  then obtain n bs where inv: "ipam_inv s n bs" by (auto simp: bitmap_inv_def)
  note f = ipam_Free_inv [OF inv a(2)]
  have "pod_pool s' = pod_pool s" using pod_pool_iff [OF inv] pod_pool_iff [OF f(1)] by auto
  then show "bitmap_inv s' \<and> pod_pool s' = pod_pool s \<and> GetAllocation s' = freed a (GetAllocation s)"
    using f(1,2) by (auto simp: bitmap_inv_def)
next
  fix s n'
  assume a: "bitmap_inv s" "wider_net s n'"
  then obtain n bs where inv: "ipam_inv s n bs" by (auto simp: bitmap_inv_def)
  obtain bs' where n': "pod_net n' bs'" "prefix bs' bs"
    using a(2) ipam_invD(1,2) [OF inv] net_pfx_unique unfolding wider_net_def pod_net_def by fastforce
  obtain s' where s': "ipam_Expand s (Some n') = (None, s')" "ipam_inv s' n' bs'" "IPs s' = IPs s"
    using ipam_Expand_ok [OF inv n'] by blast
  have "pod_pool s \<subseteq> pod_pool s'"
    using pod_pool_iff [OF inv] pod_pool_iff [OF s'(2)] pod_index_wider [OF ipam_invD(2) [OF inv] n'] by auto
  then show "\<exists>s'. ipam_Expand s (Some n') = (None, s') \<and> bitmap_inv s' \<and> GetAllocation s' = GetAllocation s \<and>
      pod_pool s \<subseteq> pod_pool s'"
    using s' by (auto simp: bitmap_inv_def GetAllocation_def fun_eq_iff)
qed

end
