(* ===== verification/IPAM_Properties.thy ===== *)
theory IPAM_Properties
  imports IPAM_Invariant
begin

text \<open>
  Runs of the address manager and the properties that hold in every state a run can reach.
  The networks it is created with and expanded to are the tenant subnets of the subnet manager:
  canonical IPv4 networks with a mask of at most 30 bits.
\<close>

inductive ipam_step :: "bool \<Rightarrow> bitmap_ipam \<Rightarrow> bitmap_ipam \<Rightarrow> bool" for fresh_keys where
  ipam_alloc: "ipam_Allocate s k c i ns = Inr (s', v) \<Longrightarrow> fresh_keys \<longrightarrow> GetAllocation s k = None \<Longrightarrow>
    ipam_step fresh_keys s s'"
| ipam_free: "ipam_Free s a = Inr s' \<Longrightarrow> ipam_step fresh_keys s s'"
| ipam_expand: "ipam_Expand s (Some n') = (e, s') \<Longrightarrow> pod_net n' bs' \<Longrightarrow> ipam_step fresh_keys s s'"

inductive ipam_reach :: "bool \<Rightarrow> bitmap_ipam \<Rightarrow> bool" for fresh_keys where
  ipam_new: "NewBitmapIPAM (Some n) = Inr s \<Longrightarrow> pod_net n bs \<Longrightarrow> ipam_reach fresh_keys s"
| ipam_next: "ipam_reach fresh_keys s \<Longrightarrow> ipam_step fresh_keys s s' \<Longrightarrow> ipam_reach fresh_keys s'"

lemma ipam_step_inv:
  assumes "ipam_step fk s s'" "ipam_inv s n bs" "fk \<longrightarrow> ipam_exact s n"
  shows "\<exists>n' bs'. ipam_inv s' n' bs' \<and> (fk \<longrightarrow> ipam_exact s' n')"
  using assms(1)
proof cases
  case (ipam_alloc k c i ns v)
  obtain j where j: "j < podcap bs" "\<not> bm_test (bitmap s) j" "taken s n j k c i ns = (s', v)"
    using ipam_Allocate_Inr [OF assms(2) ipam_alloc(1)] by metis
  show ?thesis
    using taken_inv(1) [OF assms(2) j] taken_exact [OF assms(2) j] assms(3) ipam_alloc(2)
    by (intro exI [of _ n] exI [of _ bs]) auto
next
  case (ipam_free a)
  show ?thesis using ipam_Free_inv(1,4) [OF assms(2) ipam_free] assms(3) by blast
next
  case (ipam_expand n' e bs')
  show ?thesis
  proof (cases "prefix bs' bs")
    case True
    then show ?thesis using ipam_Expand_ok [OF assms(2) ipam_expand(2)] ipam_expand(1) by fastforce
  next
    case False
    then have "s' = s" using ipam_Expand_refused [OF assms(2), of n' bs'] ipam_expand by (simp add: pod_net_def)
    then show ?thesis using assms by blast
  qed
qed

lemma ipam_reach_inv:
  "ipam_reach fk s \<Longrightarrow> \<exists>n bs. ipam_inv s n bs \<and> (fk \<longrightarrow> ipam_exact s n)"
proof (induction rule: ipam_reach.induct)
  case (ipam_new n s bs)
  then show ?case using NewBitmapIPAM_inv [of n bs] by auto
next
  case (ipam_next s s')
  then show ?case using ipam_step_inv by blast
qed

lemma pod_addr_contains:
  assumes "pod_net n bs" "i < podcap bs"
  shows "contains n (indexToIP n (int i))"
proof -
  have p: "net_pfx n bs" "length bs \<le> 30" using assms(1) by (auto simp: pod_net_def)
  let ?s = "\<lparr>Network = Some n, bitmap = [], IPs = []\<rparr>"
  note v = indexToIP_val [OF assms]
  have i: "ipToIndex ?s (indexToIP n (int i)) = Inr (int i)"
    using ipToIndex_iff [OF assms(1), of ?s "indexToIP n (int i)" i] assms(2) v(1) by simp
  have "ipToIndex ?s (indexToIP n (int i)) = Inr (ipv4Diff (net_ip n) (indexToIP n (int i)) - 2) \<and>
      2 \<le> ipv4Diff (net_ip n) (indexToIP n (int i)) \<and>
      ipv4Diff (net_ip n) (indexToIP n (int i)) < 2 ^ (32 - length bs) - 1"
    using i v(1) net_pfxD(2,5) [OF p(1)] p(2)
    by (auto simp: ipToIndex_def pod_net_base [OF assms(1)] shl1_size Let_def split: if_splits)
  then show ?thesis using contains_diff(1) [OF p(1) v(1)] by linarith
qed

subsection \<open>A concrete run\<close>

definition demo_pod_net :: ipnet where
  "demo_pod_net = \<lparr>net_ip = [10, 0, 0, 8], net_mask = cidr_mask 29 32\<rparr>"

definition demo_pod_wide :: ipnet where
  "demo_pod_wide = \<lparr>net_ip = [10, 0, 0, 0], net_mask = cidr_mask 28 32\<rparr>"

definition demo_ipam :: bitmap_ipam where
  "demo_ipam = projr (NewBitmapIPAM (Some demo_pod_net))"

definition demo_ipam2 :: bitmap_ipam where
  "demo_ipam2 = fst (projr (ipam_Allocate (fst (projr (ipam_Allocate demo_ipam ''p'' ''c'' ''eth0'' ''ns'')))
     ''q'' ''d'' ''eth0'' ''ns2''))"

lemma demo_pod: "pod_net demo_pod_net (take 29 (ip_bits [10, 0, 0, 8]))" "pod_net demo_pod_wide (take 28 (ip_bits [10, 0, 0, 0]))"
  by code_simp+

lemma ipam_alloc_projr: "is_ok (ipam_Allocate s k c i ns) \<Longrightarrow> GetAllocation s k = None \<Longrightarrow>
    ipam_step fk s (fst (projr (ipam_Allocate s k c i ns)))"
  by (cases "ipam_Allocate s k c i ns") (auto intro: ipam_alloc)

lemma demo_ipam_reach: "ipam_reach fk demo_ipam" "ipam_reach fk demo_ipam2"
proof -
  show r: "ipam_reach fk demo_ipam"
    using NewBitmapIPAM_inv [OF demo_pod(1)] ipam_new [OF _ demo_pod(1)] by (auto simp: demo_ipam_def)
  let ?s = "fst (projr (ipam_Allocate demo_ipam ''p'' ''c'' ''eth0'' ''ns''))"
  have "is_ok (ipam_Allocate demo_ipam ''p'' ''c'' ''eth0'' ''ns'')" "GetAllocation demo_ipam ''p'' = None"
    "is_ok (ipam_Allocate ?s ''q'' ''d'' ''eth0'' ''ns2'')" "GetAllocation ?s ''q'' = None" by code_simp+
  then show "ipam_reach fk demo_ipam2"
    unfolding demo_ipam2_def using r ipam_next ipam_alloc_projr by metis
qed

subsection \<open>Properties\<close>

text \<open>
  C10. Pod addresses: in every reachable state two pods of a tenant never hold the same address, and
  every pod address lies in the tenant's subnet strictly between the bridge address (network plus 1)
  and the broadcast address.
\<close>

theorem pod_ips_unique_and_usable:
  assumes "ipam_reach fk s" "GetAllocation s k = Some v"
  shows "(\<forall>k' v'. GetAllocation s k' = Some v' \<longrightarrow> k' \<noteq> k \<longrightarrow> ci_IP v' \<noteq> ci_IP v) \<and>
    (\<exists>n. Network s = Some n \<and> contains n (ci_IP v) \<and> ip_val (net_ip n) + 1 < ip_val (ci_IP v) \<and>
       ip_val (ci_IP v) + 1 < ip_val (net_ip n) + 2 ^ (32 - nat (fst (mask_size (net_mask n)))))"
proof -
  obtain n bs where inv: "ipam_inv s n bs" using ipam_reach_inv [OF assms(1)] by blast
  note d = ipam_invD [OF inv]
  have p: "net_pfx n bs" "length bs \<le> 30" using d(2) by (auto simp: pod_net_def)
  obtain i where i: "i < podcap bs" "ci_IP v = indexToIP n (int i)"
    using d(4,6) assms(2) unfolding GetAllocation_def by blast
  have "ip_val (ci_IP v) = ip_val (net_ip n) + 2 + i" using indexToIP_val(2) [OF d(2) i(1)] i(2) by simp
  moreover have "nat (fst (mask_size (net_mask n))) = length bs" using net_pfxD(5) [OF p(1)] by simp
  moreover have "i + 3 < 2 ^ (32 - length bs)" using i(1) by (simp add: podcap_def)
  ultimately show ?thesis
    using d(1,7) pod_addr_contains [OF d(2) i(1)] i(2) assms(2) unfolding GetAllocation_def by auto
qed

theorem pod_ips_unique_and_usable_witness:
  "\<exists>v v'. GetAllocation demo_ipam2 ''p'' = Some v \<and> GetAllocation demo_ipam2 ''q'' = Some v' \<and> ci_IP v' \<noteq> ci_IP v \<and>
     (\<exists>n. Network demo_ipam2 = Some n \<and> contains n (ci_IP v))"
proof -
  have "GetAllocation demo_ipam2 ''p'' = Some (the (GetAllocation demo_ipam2 ''p''))"
    "GetAllocation demo_ipam2 ''q'' = Some (the (GetAllocation demo_ipam2 ''q''))" by code_simp+
  then show ?thesis using pod_ips_unique_and_usable [OF demo_ipam_reach(2), of "''p''"] by fastforce
qed

text \<open>
  C23. First fit: in a reachable state \<open>Allocate\<close> fails exactly when no address remains; otherwise it
  returns the container data it was given with the lowest pod address whose bit is clear, records it
  under the pod key, leaves every other pod as it was, and one address less remains.
\<close>

theorem ipam_Allocate_first_fit:
  assumes "ipam_reach fk s" "Network s = Some n"
  shows "if Remaining s = 0 then ipam_Allocate s k c i ns = Inl (ErrNoAvailableIPs n)
    else \<exists>s' j. ipam_Allocate s k c i ns =
           Inr (s', \<lparr>ci_ID = c, ci_IFname = i, ci_NetNS = ns, ci_IP = indexToIP n (int j)\<rparr>) \<and>
         \<not> bm_test (bitmap s) j \<and> (\<forall>j' < j. bm_test (bitmap s) j') \<and>
         (\<forall>j'. bm_test (bitmap s') j' \<longleftrightarrow> bm_test (bitmap s) j' \<or> j' = j) \<and>
         GetAllocation s' = (GetAllocation s)(k \<mapsto> \<lparr>ci_ID = c, ci_IFname = i, ci_NetNS = ns, ci_IP = indexToIP n (int j)\<rparr>) \<and>
         Remaining s' = Remaining s - 1"
proof -
  obtain bs where inv: "ipam_inv s n bs" using ipam_reach_inv [OF assms(1)] assms(2) ipam_invD(1) by fastforce
  consider (full) "\<forall>i < podcap bs. bm_test (bitmap s) i" "ipam_Allocate s k c i ns = Inl (ErrNoAvailableIPs n)"
    | (one) j where "j < podcap bs" "\<not> bm_test (bitmap s) j" "\<forall>j' < j. bm_test (bitmap s) j'"
        "ipam_Allocate s k c i ns = Inr (taken s n j k c i ns)"
    using ipam_Allocate_cases [OF inv, of k c i ns] by blast
  then show ?thesis
  proof cases
    case full
    then show ?thesis using ipam_full_remaining [OF inv] by simp
  next
    case one
    obtain s' v where t: "taken s n j k c i ns = (s', v)" by (cases "taken s n j k c i ns")
    note ti = taken_inv [OF inv one(1,2) t]
    have r: "Remaining s' = Remaining s - 1" using ipam_Allocate_remaining [OF inv] one(4) t by simp
    moreover have "0 \<le> Remaining s'"
    proof -
      have "card {i. bm_test (bitmap s') i} \<le> card {..<podcap bs}"
        using ipam_invD(4) [OF ti(1)] by (intro card_mono) auto
      then show ?thesis using remaining_count [OF ti(1)] by simp
    qed
    ultimately have "Remaining s \<noteq> 0" by linarith
    then show ?thesis using one t ti(2,4,6) r by auto
  qed
qed

theorem ipam_Allocate_first_fit_witness:
  "Remaining demo_ipam2 \<noteq> 0 \<and> (\<exists>s' j. ipam_Allocate demo_ipam2 ''r'' ''e'' ''eth0'' ''ns3'' =
     Inr (s', \<lparr>ci_ID = ''e'', ci_IFname = ''eth0'', ci_NetNS = ''ns3'', ci_IP = indexToIP demo_pod_net (int j)\<rparr>) \<and>
     \<not> bm_test (bitmap demo_ipam2) j)"
proof -
  have "Network demo_ipam2 = Some demo_pod_net" "Remaining demo_ipam2 \<noteq> 0" by code_simp+
  then show ?thesis
    using ipam_Allocate_first_fit [OF demo_ipam_reach(2), of demo_pod_net "''r''" "''e''" "''eth0''" "''ns3''"] by auto
qed

text \<open>
  C24. Accounting: as long as no pod key is allocated twice without a release in between, the
  addresses that remain are the capacity less one for each recorded pod, so none leaks.
\<close>

theorem remaining_is_capacity_minus_pods:
  assumes "ipam_reach True s"
  shows "\<exists>cap. Capacity s = Inr cap \<and> Remaining s = cap - int (length (ListAllocations s))"
proof -
  obtain n bs where "ipam_inv s n bs" "ipam_exact s n" using ipam_reach_inv [OF assms] by blast
  then show ?thesis
    using remaining_count exact_card capacity_pod(1) ipam_invD(1,2)
    by (fastforce simp: Capacity_def ListAllocations_def)
qed

theorem remaining_is_capacity_minus_pods_witness:
  "\<exists>cap. Capacity demo_ipam2 = Inr cap \<and> Remaining demo_ipam2 = cap - int (length (ListAllocations demo_ipam2)) \<and>
     length (ListAllocations demo_ipam2) = 2"
proof -
  have "length (ListAllocations demo_ipam2) = 2" by code_simp
  then show ?thesis using remaining_is_capacity_minus_pods [OF demo_ipam_reach(2)] by auto
qed

text \<open>
  Index and address are inverse to each other: every index below the capacity gives an address
  that \<open>ipToIndex\<close> maps back to it, in the 4-byte and in the 16-byte form, and \<open>ipToIndex\<close> gives an
  index for no other address, in particular not for the network, bridge and broadcast addresses
  or for an address outside the subnet.
\<close>

theorem index_address_roundtrip:
  assumes "Network s = Some n" "pod_net n bs"
  shows "ipToIndex s ip = Inr (if length (to4 ip) = 4 \<and> ip_val (net_ip n) + 1 < ip_val (to4 ip) \<and>
        ip_val (to4 ip) + 1 < ip_val (net_ip n) + 2 ^ (32 - length bs)
      then int (ip_val (to4 ip)) - int (ip_val (net_ip n)) - 2 else -1)"
    (is "_ = Inr (if ?c then _ else _)")
proof (cases rule: ipToIndex_total [OF assms(2,1), of ip])
  case 1
  have "\<not> ?c"
  proof
    assume c: "?c"
    then have i: "ip_val (to4 ip) - ip_val (net_ip n) - 2 < podcap bs"
      unfolding podcap_def by linarith
    moreover have "ip_val (to4 ip) = ip_val (net_ip n) + 2 + (ip_val (to4 ip) - ip_val (net_ip n) - 2)"
      using c by linarith
    ultimately have "to4 ip = indexToIP n (int (ip_val (to4 ip) - ip_val (net_ip n) - 2))"
      using indexToIP_val [OF assms(2) i] c ip_val_inject [of "to4 ip"] by metis
    with 1(2) i show False by blast
  qed
  with 1(1) show ?thesis by simp
next
  case (2 i)
  then show ?thesis
    using indexToIP_val [OF assms(2) 2(2)] by (simp add: podcap_def)
qed

theorem index_address_roundtrip_witness:
  "ipToIndex demo_ipam [10, 0, 0, 12] = Inr 2 \<and> ipToIndex demo_ipam (to16 [10, 0, 0, 12]) = Inr 2 \<and>
   ipToIndex demo_ipam [10, 0, 0, 9] = Inr (-1)"
proof -
  have n: "Network demo_ipam = Some demo_pod_net" by code_simp
  note r = index_address_roundtrip [OF n demo_pod(1)]
  have t: "to4 [10, 0, 0, 12] = [10, 0, 0, 12]" "to4 (to16 [10, 0, 0, 12]) = [10, 0, 0, 12]"
    "to4 [10, 0, 0, 9] = [10, 0, 0, 9]" "net_ip demo_pod_net = [10, 0, 0, 8]"
    "length (take 29 (ip_bits [10, 0, 0, 8])) = 29" by code_simp+
  show ?thesis unfolding r t ip_val_4 by simp
qed

text \<open>
  C25. Expansion: when the new subnet is a canonical network that includes the current one, \<open>Expand\<close>
  succeeds, keeps every pod's address, and afterwards exactly the addresses of the pods are taken;
  when it does not include the current one the call is refused and changes nothing.
\<close>

theorem ipam_Expand_keeps_pods:
  assumes "ipam_reach fk s" "Network s = Some n" "net_pfx n bs" "pod_net n' bs'"
  shows "if prefix bs' bs
    then \<exists>s'. ipam_Expand s (Some n') = (None, s') \<and> Network s' = Some n' \<and> GetAllocation s' = GetAllocation s \<and>
      Remaining s' = int (podcap bs') - int (length (ListAllocations s'))
    else ipam_Expand s (Some n') = (Some (NotIncluded n' n), s)"
proof -
  obtain bs0 where inv0: "ipam_inv s n bs0" using ipam_reach_inv [OF assms(1)] assms(2) ipam_invD(1) by fastforce
  then have "bs0 = bs" using net_pfx_unique [OF assms(3)] ipam_invD(2) [OF inv0] unfolding pod_net_def by blast
  with inv0 have inv: "ipam_inv s n bs" by simp
  show ?thesis
  proof (cases "prefix bs' bs")
    case True
    obtain s' where s': "ipam_Expand s (Some n') = (None, s')" "ipam_inv s' n' bs'" "ipam_exact s' n'" "IPs s' = IPs s"
      using ipam_Expand_ok [OF inv assms(4) True] by blast
    have "Remaining s' = int (podcap bs') - int (length (ListAllocations s'))"
      using remaining_count [OF s'(2)] exact_card [OF s'(2,3)] by (simp add: ListAllocations_def)
    then show ?thesis
      using True s' ipam_invD(1) [OF s'(2)] by (auto simp: GetAllocation_def fun_eq_iff)
  next
    case False
    then show ?thesis using ipam_Expand_refused [OF inv, of n' bs'] assms(4) by (simp add: pod_net_def)
  qed
qed

theorem ipam_Expand_keeps_pods_witness:
  "\<exists>s'. ipam_Expand demo_ipam2 (Some demo_pod_wide) = (None, s') \<and> Network s' = Some demo_pod_wide \<and>
     GetAllocation s' = GetAllocation demo_ipam2"
proof -
  have n: "Network demo_ipam2 = Some demo_pod_net" by code_simp
  have "prefix (take 28 (ip_bits [10, 0, 0, 0])) (take 29 (ip_bits [10, 0, 0, 8]))" by code_simp
  then show ?thesis
    using ipam_Expand_keeps_pods [OF demo_ipam_reach(2) n _ demo_pod(2), of "take 29 (ip_bits [10, 0, 0, 8])"] demo_pod(1)
    by (auto simp: pod_net_def)
qed

text \<open>
  Releasing a pod's address: \<open>Free\<close> of an address a pod holds succeeds, removes that pod's entry
  and no other, and one more address remains.
\<close>

theorem ipam_Free_returns_address:
  assumes "ipam_reach fk s" "GetAllocation s k = Some v"
  shows "\<exists>s'. ipam_Free s (ci_IP v) = Inr s' \<and> GetAllocation s' = (GetAllocation s)(k := None) \<and>
    Remaining s' = Remaining s + 1"
proof -
  obtain n bs where inv: "ipam_inv s n bs" using ipam_reach_inv [OF assms(1)] by blast
  note d = ipam_invD [OF inv]
  obtain i where i: "bm_test (bitmap s) i" "ci_IP v = indexToIP n (int i)"
    using d(6) assms(2) unfolding GetAllocation_def by blast
  have l: "to4 (ci_IP v) = ci_IP v" using indexToIP_val(1) [OF d(2) d(4) [OF i(1)]] i(2) by simp
  obtain s' where s': "ipam_Free s (ci_IP v) = Inr s'"
    using ipam_Free_cases [OF inv, of "ci_IP v"] d(4) [OF i(1)] i(2) l by auto
  note f = ipam_Free_inv [OF inv s']
  have "freed (ci_IP v) (GetAllocation s) = (GetAllocation s)(k := None)"
  proof
    fix k'
    show "freed (ci_IP v) (GetAllocation s) k' = ((GetAllocation s)(k := None)) k'"
      using d(7) [of k v k'] assms(2) l
      by (cases "map_of (IPs s) k'") (auto simp: freed_def GetAllocation_def)
  qed
  moreover have "{j. bm_test (bitmap s) j} = insert i {j. bm_test (bitmap s') j}" "\<not> bm_test (bitmap s') i"
    using f(3) i l indexToIP_inject [OF d(2) _ d(4) [OF i(1)]] d(4) by auto
  then have "Remaining s' = Remaining s + 1"
    using remaining_count [OF inv] remaining_count [OF f(1)] by (simp add: bm_test_finite)
  ultimately show ?thesis using s' f(2) by auto
qed

theorem ipam_Free_returns_address_witness:
  "\<exists>v s'. GetAllocation demo_ipam2 ''p'' = Some v \<and> ipam_Free demo_ipam2 (ci_IP v) = Inr s' \<and>
     Remaining s' = Remaining demo_ipam2 + 1"
proof -
  have "GetAllocation demo_ipam2 ''p'' = Some (the (GetAllocation demo_ipam2 ''p''))" by code_simp
  then show ?thesis using ipam_Free_returns_address [OF demo_ipam_reach(2)] by blast
qed

text \<open>
  Allocating twice under one pod key is not idempotent: the second call hands out a different
  address and forgets the first, whose bit stays set although no pod holds it, so that address is lost
  until the next expansion.
\<close>

theorem ipam_Allocate_twice_leaks:
  assumes "ipam_reach fk s" "GetAllocation s k = Some v" "ipam_Allocate s k c i ns = Inr (s', v')"
  shows "ci_IP v' \<noteq> ci_IP v \<and> Remaining s' = Remaining s - 1 \<and>
    (\<exists>j. indexToIP (the (Network s)) (int j) = ci_IP v \<and> bm_test (bitmap s') j) \<and>
    (\<forall>k' w. GetAllocation s' k' = Some w \<longrightarrow> ci_IP w \<noteq> ci_IP v)"
proof -
  obtain n bs where inv: "ipam_inv s n bs" using ipam_reach_inv [OF assms(1)] by blast
  note d = ipam_invD [OF inv]
  obtain j where j: "j < podcap bs" "\<not> bm_test (bitmap s) j" "taken s n j k c i ns = (s', v')"
    using ipam_Allocate_Inr [OF inv assms(3)] by metis
  note t = taken_inv [OF inv j]
  have "\<exists>j. indexToIP n (int j) = ci_IP v \<and> bm_test (bitmap s') j"
    using d(6) assms(2) t(4) unfolding GetAllocation_def by metis
  moreover have "ci_IP w \<noteq> ci_IP v" if "GetAllocation s' k' = Some w" for k' w
    using that t(2) t(5) [OF assms(2)] d(7) [of k' w k v] assms(2)
    by (auto simp: GetAllocation_def split: if_splits)
  ultimately show ?thesis
    using t(5) [OF assms(2)] ipam_Allocate_remaining [OF inv assms(3)] d(1) by auto
qed

theorem ipam_Allocate_twice_leaks_witness:
  "\<exists>v v' s'. GetAllocation demo_ipam2 ''p'' = Some v \<and> ipam_Allocate demo_ipam2 ''p'' ''c'' ''eth0'' ''ns'' = Inr (s', v') \<and>
     ci_IP v' \<noteq> ci_IP v \<and> Remaining s' = Remaining demo_ipam2 - 1"
proof -
  have p: "GetAllocation demo_ipam2 ''p'' = Some (the (GetAllocation demo_ipam2 ''p''))"
    "is_ok (ipam_Allocate demo_ipam2 ''p'' ''c'' ''eth0'' ''ns'')" by code_simp+
  then obtain s' v' where "ipam_Allocate demo_ipam2 ''p'' ''c'' ''eth0'' ''ns'' = Inr (s', v')"
    by (auto simp: is_ok_iff)
  then show ?thesis using ipam_Allocate_twice_leaks [OF demo_ipam_reach(2) p(1)] p(1) by blast
qed

end
