(* ===== verification/Wire.thy ===== *)
theory Wire
  imports Prelude
begin

text \<open>
  The wire protocol between the CNI plugin and the daemon, \<open>pkg/wire\<close>: the fixed 12-byte header of
  header.go and the binary codec of codec.go, on byte lists. A reader is the list of the bytes that
  are still to come; a read returns the value and the rest. Go strings are byte sequences, so a
  string field is a HOL string and \<open>str_bytes\<close> is the conversion \<open>[]byte(s)\<close>. The uvarint functions are those
  of \<open>encoding/binary\<close>.
\<close>

subsection \<open>types.go, errors.go and header.go\<close>

type_synonym int64 = "64 word"

record Request =
  Cmd :: string
  TraceID :: string
  CNIVersion :: string
  ContainerID :: string
  NetNS :: string
  IfName :: string
  PodName :: string
  PodNamespace :: string
  PodUID :: string
  TimeoutSeconds :: int64
  IdemKey :: string

record Response =
  OK :: bool
  Code :: string
  Message :: string
  Result :: "byte list"

definition CmdADD :: string where "CmdADD = ''ADD''"
definition CmdDEL :: string where "CmdDEL = ''DEL''"
definition CmdCHECK :: string where "CmdCHECK = ''CHECK''"
definition CmdSTATUS :: string where "CmdSTATUS = ''STATUS''"
definition CmdGC :: string where "CmdGC = ''GC''"

datatype wire_error =
    ErrMagicMismatch
  | ErrPayloadTooLarge uint32
  | EOF
  | UnexpectedEOF
  | UvarintOverflow
  | LengthExceedsBuffer
  | UnknownPayloadVersion
  | UnsupportedType
  | UnsupportedFlags byte
  | JSONError
  | WriteFailed
  | DialFailed

record Header =
  Version :: byte
  hCmd :: byte
  hFlags :: byte
  hLength :: uint32

definition magic :: "byte list" where
  "magic = [0x53, 0x54, 0x52, 0x41]"

definition HeaderLen :: nat where "HeaderLen = 12"

definition MaxPayload :: uint32 where "MaxPayload = 10485760"

definition FlagJSON :: byte where "FlagJSON = 0x01"
definition FlagBIN :: byte where "FlagBIN = 0x08"

text \<open>\<open>binary.BigEndian\<close> on 32 bits.\<close>

definition put_uint32 :: "uint32 \<Rightarrow> byte list" where
  "put_uint32 v = [ucast (drop_bit 24 v), ucast (drop_bit 16 v), ucast (drop_bit 8 v), ucast v]"

definition get_uint32 :: "byte list \<Rightarrow> uint32" where
  "get_uint32 b = ((ucast (b ! 3) OR push_bit 8 (ucast (b ! 2))) OR push_bit 16 (ucast (b ! 1)))
     OR push_bit 24 (ucast (b ! 0))"

text \<open>\<open>WriteHeader\<close> hands these bytes to the writer.\<close>

definition WriteHeader :: "Header \<Rightarrow> byte list" where
  "WriteHeader h = magic @ [Version h, hCmd h, hFlags h, 0] @ put_uint32 (hLength h)"

text \<open>\<open>io.ReadFull\<close>.\<close>

definition read_full :: "nat \<Rightarrow> byte list \<Rightarrow> wire_error + (byte list \<times> byte list)" where
  "read_full n r =
     (if length r < n then Inl (if r = [] then EOF else UnexpectedEOF)
      else Inr (take n r, drop n r))"

definition ReadHeader :: "byte list \<Rightarrow> wire_error + (Header \<times> byte list)" where
  "ReadHeader r =
     (case read_full HeaderLen r of
        Inl e \<Rightarrow> Inl e
      | Inr (b, r') \<Rightarrow>
          if b ! 0 \<noteq> magic ! 0 \<or> b ! 1 \<noteq> magic ! 1 \<or> b ! 2 \<noteq> magic ! 2 \<or> b ! 3 \<noteq> magic ! 3
          then Inl ErrMagicMismatch
          else let h = \<lparr>Version = b ! 4, hCmd = b ! 5, hFlags = b ! 6, hLength = get_uint32 (drop 8 b)\<rparr>
               in if hLength h > MaxPayload then Inl (ErrPayloadTooLarge (hLength h))
                  else Inr (h, r'))"

definition CommandToHeader :: "string \<Rightarrow> byte" where
  "CommandToHeader cmd =
     (if cmd = CmdADD then 1
      else if cmd = CmdDEL then 2
      else if cmd = CmdCHECK then 3
      else if cmd = CmdSTATUS then 4
      else 0)"

subsection \<open>codec.go\<close>

definition str_bytes :: "string \<Rightarrow> byte list" where
  "str_bytes s = map (\<lambda>c. word_of_nat (of_char c)) s"

definition bytes_str :: "byte list \<Rightarrow> string" where
  "bytes_str b = map (\<lambda>x. char_of (unat x)) b"

text \<open>\<open>binary.PutUvarint\<close>: seven bits a byte, the low ones first.\<close>

function put_uvarint :: "uint64 \<Rightarrow> byte list" where
  "put_uvarint x = (if x < 0x80 then [ucast x] else (ucast x OR 0x80) # put_uvarint (drop_bit 7 x))"
  by auto

lemma drop_7_less: "\<not> x < 0x80 \<Longrightarrow> unat (drop_bit 7 x) < unat (x :: uint64)"
proof -
  assume "\<not> x < 0x80"
  then have "128 \<le> unat x" by (simp add: word_less_nat_alt)
  moreover have "unat (drop_bit 7 x) = unat x div 128" by (simp add: unat_div drop_bit_eq_div)
  ultimately show ?thesis by simp
qed

termination put_uvarint
  by (relation "measure unat") (auto simp: drop_7_less)

declare put_uvarint.simps [simp del]

definition writeUvar :: "uint64 \<Rightarrow> byte list" where
  "writeUvar v = put_uvarint v"

definition writeBytes :: "byte list \<Rightarrow> byte list" where
  "writeBytes b = writeUvar (word_of_nat (length b)) @ b"

definition writeString :: "string \<Rightarrow> byte list" where
  "writeString s = writeBytes (str_bytes s)"

text \<open>\<open>binary.ReadUvarint\<close>: at most ten bytes; the tenth may only carry the top bit.\<close>

fun read_uvarint_loop :: "nat \<Rightarrow> uint64 \<Rightarrow> byte list \<Rightarrow> wire_error + (uint64 \<times> byte list)" where
  "read_uvarint_loop i x [] = Inl (if i \<ge> 10 then UvarintOverflow else if i > 0 then UnexpectedEOF else EOF)"
| "read_uvarint_loop i x (b # r) =
     (if i \<ge> 10 then Inl UvarintOverflow
      else if b < 0x80
      then (if i = 9 \<and> b > 1 then Inl UvarintOverflow else Inr (x OR push_bit (7 * i) (ucast b), r))
      else read_uvarint_loop (Suc i) (x OR push_bit (7 * i) (ucast (b AND 0x7f))) r)"

definition readUvar :: "byte list \<Rightarrow> wire_error + (uint64 \<times> byte list)" where
  "readUvar r = read_uvarint_loop 0 0 r"

definition readBytes :: "byte list \<Rightarrow> wire_error + (byte list \<times> byte list)" where
  "readBytes r =
     (case readUvar r of
        Inl e \<Rightarrow> Inl e
      | Inr (ln, r') \<Rightarrow>
          if ln = 0 then Inr ([], r')
          else if ln > word_of_nat (length r') then Inl LengthExceedsBuffer
          else Inr (take (unat ln) r', drop (unat ln) r'))"

definition readString :: "byte list \<Rightarrow> wire_error + (string \<times> byte list)" where
  "readString r = (case readBytes r of Inl e \<Rightarrow> Inl e | Inr (b, r') \<Rightarrow> Inr (bytes_str b, r'))"

definition readByte :: "byte list \<Rightarrow> wire_error + (byte \<times> byte list)" where
  "readByte r = (case r of [] \<Rightarrow> Inl EOF | b # r' \<Rightarrow> Inr (b, r'))"

definition marshalRequest :: "Request \<Rightarrow> byte list" where
  "marshalRequest r =
     [1] @ writeString (Cmd r) @ writeString (TraceID r) @ writeString (CNIVersion r) @
     writeString (ContainerID r) @ writeString (NetNS r) @ writeString (IfName r) @
     writeUvar (TimeoutSeconds r) @ writeString (IdemKey r)"

definition marshalResponse :: "Response \<Rightarrow> byte list" where
  "marshalResponse r =
     [1] @ [if OK r then 1 else 0] @ writeString (Code r) @ writeString (Message r) @ writeBytes (Result r)"

text \<open>
  \<open>Unmarshal\<close> by destination type. The fields it does not read keep what the destination holds; on an
  error the callers drop the destination, so the error value carries none of it.
\<close>

definition bind_err :: "'e + 'a \<Rightarrow> ('a \<Rightarrow> 'e + 'b) \<Rightarrow> 'e + 'b" where
  "bind_err m f = (case m of Inl e \<Rightarrow> Inl e | Inr a \<Rightarrow> f a)"

definition unmarshalRequest :: "byte list \<Rightarrow> Request \<Rightarrow> wire_error + Request" where
  "unmarshalRequest data out =
     bind_err (readByte data) (\<lambda>(v, rd).
     if v \<noteq> 1 then Inl UnknownPayloadVersion else
     bind_err (readString rd) (\<lambda>(cmd, rd).
     bind_err (readString rd) (\<lambda>(trace, rd).
     bind_err (readString rd) (\<lambda>(cniv, rd).
     bind_err (readString rd) (\<lambda>(cid, rd).
     bind_err (readString rd) (\<lambda>(netns, rd).
     bind_err (readString rd) (\<lambda>(ifn, rd).
     bind_err (readUvar rd) (\<lambda>(tsec, rd).
     bind_err (readString rd) (\<lambda>(idem, rd).
       Inr (out\<lparr>Cmd := cmd, TraceID := trace, CNIVersion := cniv, ContainerID := cid, NetNS := netns,
                IfName := ifn, TimeoutSeconds := tsec, IdemKey := idem\<rparr>))))))))))"

definition unmarshalResponse :: "byte list \<Rightarrow> Response \<Rightarrow> wire_error + Response" where
  "unmarshalResponse data out =
     bind_err (readByte data) (\<lambda>(v, rd).
     if v \<noteq> 1 then Inl UnknownPayloadVersion else
     bind_err (readByte rd) (\<lambda>(okb, rd).
     bind_err (readString rd) (\<lambda>(code, rd).
     bind_err (readString rd) (\<lambda>(msg, rd).
     bind_err (readBytes rd) (\<lambda>(raw, rd).
       Inr (out\<lparr>OK := (okb = 1), Code := code, Message := msg, Result := raw\<rparr>))))))"

text \<open>
  A \<open>Codec\<close> value: its name and what it does on the two message types. \<open>Marshal\<close> of \<open>BinaryCodec\<close> cannot
  fail on them. \<open>JSONCodec\<close> calls \<open>encoding/json\<close>, which is a parameter of the definitions that use it.
\<close>

record Codec =
  Name :: string
  MarshalReq :: "Request \<Rightarrow> wire_error + byte list"
  UnmarshalReq :: "byte list \<Rightarrow> Request \<Rightarrow> wire_error + Request"
  MarshalResp :: "Response \<Rightarrow> wire_error + byte list"
  UnmarshalResp :: "byte list \<Rightarrow> Response \<Rightarrow> wire_error + Response"

definition BinaryCodec :: Codec where
  "BinaryCodec = \<lparr>Name = ''bin'', MarshalReq = Inr \<circ> marshalRequest, UnmarshalReq = unmarshalRequest,
     MarshalResp = Inr \<circ> marshalResponse, UnmarshalResp = unmarshalResponse\<rparr>"

definition DetectFlags :: "Codec \<Rightarrow> byte" where
  "DetectFlags c = (if Name c = ''json'' then FlagJSON else if Name c = ''bin'' then FlagBIN else 0)"

subsection \<open>Reading back what was written\<close>

lemma bind_err_simps [wire_simps]: "bind_err (Inl e) f = Inl e" "bind_err (Inr a) f = f a"
  by (simp_all add: bind_err_def)

lemma bytes_str_inverse [simp]: "bytes_str (str_bytes s) = s"
proof -
  have "char_of (unat (word_of_nat (of_char c) :: byte)) = c" for c :: char
    by (simp add: unsigned_of_nat take_bit_eq_mod)
  then show ?thesis by (simp add: bytes_str_def str_bytes_def comp_def)
qed

lemma length_str_bytes [simp]: "length (str_bytes s) = length s"
  by (simp add: str_bytes_def)

lemma get_put_uint32: "get_uint32 (put_uint32 v) = v"
proof (rule bit_word_eqI)
  fix n assume n: "n < LENGTH(32)"
  consider "n < 8" | "8 \<le> n" "n < 16" | "16 \<le> n" "n < 24" | "24 \<le> n" by linarith
  then show "bit (get_uint32 (put_uint32 v)) n = bit v n"
    using n by cases (auto simp: get_uint32_def put_uint32_def bit_simps)
qed

lemma unat_ucast_small: "x < 0x80 \<Longrightarrow> unat (ucast (x :: uint64) :: byte) = unat x"
  by (simp add: unsigned_ucast_eq take_bit_nat_eq_self word_less_nat_alt)

lemma byte_less_128: "(b :: byte) < 0x80 \<longleftrightarrow> \<not> bit b 7"
proof -
  have l: "bits_val [bit b 6, bit b 5, bit b 4, bit b 3, bit b 2, bit b 1, bit b 0] < 2 ^ 7"
    using bits_val_less [of "[bit b 6, bit b 5, bit b 4, bit b 3, bit b 2, bit b 1, bit b 0]"] by simp
  have "unat b = (if bit b 7 then 128 else 0) + bits_val [bit b 6, bit b 5, bit b 4, bit b 3, bit b 2, bit b 1, bit b 0]"
    unfolding unat_byte_bits byte_bits_def by simp
  then show ?thesis using l by (simp add: word_less_nat_alt del: bits_val.simps)
qed

lemma bit_128: "bit (0x80 :: byte) n \<longleftrightarrow> n = 7"
proof (cases "n < 8")
  case True
  have "\<forall>n\<in>set [0..<8]. bit (0x80 :: byte) n \<longleftrightarrow> n = 7" by code_simp
  with True show ?thesis by simp
next
  case False
  then show ?thesis using bit_imp_le_length [of "0x80 :: byte" n] by auto
qed

lemma ucast_byte_or: "\<not> (ucast (x :: uint64) OR 0x80 :: byte) < 0x80"
  by (simp add: byte_less_128 bit_or_iff bit_128)

lemma low7: "(ucast (((ucast (x :: uint64) :: byte) OR 0x80) AND 0x7f) :: uint64) = take_bit 7 x"
proof (rule bit_word_eqI)
  fix n assume "n < LENGTH(64)"
  have m: "(0x7f :: byte) = mask 7" by (simp add: mask_eq_exp_minus_1)
  show "bit (ucast (((ucast x :: byte) OR 0x80) AND 0x7f) :: uint64) n = bit (take_bit 7 x) n"
    using \<open>n < LENGTH(64)\<close>
    by (simp only: m bit_unsigned_iff bit_and_iff bit_or_iff bit_128 bit_mask_iff bit_take_bit_iff possible_bit_word) auto
qed

lemma or_take_push: "take_bit 7 x OR push_bit 7 (drop_bit 7 x) = (x :: uint64)"
proof (rule bit_word_eqI)
  fix n assume "n < LENGTH(64)"
  then show "bit (take_bit 7 x OR push_bit 7 (drop_bit 7 x)) n = bit x n"
    by (cases "n < 7") (auto simp: bit_simps)
qed

lemma ucast_back: "x < 0x80 \<Longrightarrow> (ucast (ucast (x :: uint64) :: byte) :: uint64) = x"
proof -
  assume x: "x < 0x80"
  have "(ucast (ucast x :: byte) :: uint64) = take_bit 8 x" by (rule bit_word_eqI) (auto simp: bit_simps)
  moreover have "unat (take_bit 8 x) = unat x"
    using x by (simp add: unsigned_take_bit_eq take_bit_nat_eq_self word_less_nat_alt)
  ultimately show ?thesis by (simp add: word_unat_eq_iff)
qed

lemma read_put_loop:
  "unat v < 2 ^ (64 - 7 * i) \<Longrightarrow> i \<le> 9 \<Longrightarrow>
   read_uvarint_loop i x (put_uvarint v @ r) = Inr (x OR push_bit (7 * i) v, r)"
proof (induction v arbitrary: i x rule: put_uvarint.induct)
  case (1 v)
  show ?case
  proof (cases "v < 0x80")
    case True
    have "i = 9 \<Longrightarrow> unat v \<le> 1" using "1.prems" by simp
    then have "\<not> (i = 9 \<and> (ucast v :: byte) > 1)"
      using unat_ucast_small [OF True] by (auto simp: word_less_nat_alt)
    moreover have "(ucast v :: byte) < 0x80"
      using unat_ucast_small [OF True] True by (simp add: word_less_nat_alt)
    ultimately show ?thesis
      using True "1.prems"(2) ucast_back [OF True] by (auto simp: put_uvarint.simps [of v])
  next
    case False
    have ge: "128 \<le> unat v" using False by (simp add: word_less_nat_alt)
    have "i \<le> 8"
    proof (rule ccontr)
      assume "\<not> i \<le> 8"
      then have "i = 9" using "1.prems"(2) by simp
      then show False using "1.prems"(1) ge by simp
    qed
    have dv: "unat (drop_bit 7 v) = unat v div 128" by (simp add: unat_div drop_bit_eq_div)
    have "64 - 7 * i = (64 - 7 * Suc i) + 7" using \<open>i \<le> 8\<close> by simp
    then have "2 ^ (64 - 7 * i) = 2 ^ (64 - 7 * Suc i) * (128::nat)" by (simp only: power_add) simp
    then have "unat v < 2 ^ (64 - 7 * Suc i) * 128" using "1.prems"(1) by (simp only:)
    then have lt: "unat (drop_bit 7 v) < 2 ^ (64 - 7 * Suc i)" unfolding dv by (rule less_mult_imp_div_less)
    have "read_uvarint_loop i x (put_uvarint v @ r)
        = read_uvarint_loop (Suc i) (x OR push_bit (7 * i) (take_bit 7 v)) (put_uvarint (drop_bit 7 v) @ r)"
      using False \<open>i \<le> 8\<close> ucast_byte_or [of v] by (simp add: put_uvarint.simps [of v] low7)
    also have "\<dots> = Inr ((x OR push_bit (7 * i) (take_bit 7 v)) OR push_bit (7 * Suc i) (drop_bit 7 v), r)"
      by (rule "1.IH" [OF False lt]) (use \<open>i \<le> 8\<close> in simp)
    also have "(x OR push_bit (7 * i) (take_bit 7 v)) OR push_bit (7 * Suc i) (drop_bit 7 v) = x OR push_bit (7 * i) v"
    proof -
      have "push_bit (7 * Suc i) (drop_bit 7 v) = push_bit (7 * i) (push_bit 7 (drop_bit 7 v))"
        by (simp add: push_bit_push_bit add.commute)
      then show ?thesis by (simp only: or.assoc flip: push_bit_or) (simp only: or_take_push)
    qed
    finally show ?thesis .
  qed
qed

lemma readUvar_write [wire_simps]: "readUvar (writeUvar v @ r) = Inr (v, r)"
  using read_put_loop [of v 0 0 r] unsigned_less [of v] by (simp add: readUvar_def writeUvar_def)

lemma unat_nat64: "n < 2 ^ 64 \<Longrightarrow> unat (word_of_nat n :: uint64) = n"
  by (simp add: unsigned_of_nat take_bit_nat_eq_self)

lemma readBytes_write:
  assumes "length b + length r < 2 ^ 64"
  shows "readBytes (writeBytes b @ r) = Inr (b, r)"
proof -
  have l: "unat (word_of_nat (length b) :: uint64) = length b"
    "unat (word_of_nat (length (b @ r)) :: uint64) = length (b @ r)"
    by (rule unat_nat64, use assms in simp)+
  have z: "(word_of_nat (length b) :: uint64) = 0 \<longleftrightarrow> b = []"
  proof -
    have "(word_of_nat (length b) :: uint64) = 0 \<longleftrightarrow> unat (word_of_nat (length b) :: uint64) = 0"
      by (rule unsigned_eq_0_iff [symmetric])
    then show ?thesis unfolding l(1) by simp
  qed
  have "\<not> (word_of_nat (length (b @ r)) :: uint64) < word_of_nat (length b)"
    unfolding word_less_nat_alt l by simp
  then show ?thesis
    using z l(1) by (auto simp: readBytes_def writeBytes_def readUvar_write)
qed

lemma readString_write [wire_simps]:
  "length s + length r < 2 ^ 64 \<Longrightarrow> readString (writeString s @ r) = Inr (s, r)"
  using readBytes_write [of "str_bytes s" r] by (simp add: readString_def writeString_def)

lemmas readBytes_write_end = readBytes_write [where r = "[]", simplified]
lemmas readString_write_end [wire_simps] = readString_write [where r = "[]", simplified]

lemma length_writeBytes [simp]: "length (writeBytes b) = length (writeUvar (word_of_nat (length b))) + length b"
  by (simp add: writeBytes_def)

lemma length_writeString [simp]: "length (writeString s) = length (writeUvar (word_of_nat (length s))) + length s"
  by (simp add: writeString_def)

lemma unmarshal_marshal_Request:
  assumes "length (marshalRequest r) < 2 ^ 64"
  shows "unmarshalRequest (marshalRequest r) out =
    Inr (r\<lparr>PodName := PodName out, PodNamespace := PodNamespace out, PodUID := PodUID out\<rparr>)"
  using assms unfolding unmarshalRequest_def marshalRequest_def readByte_def
  by (simp add: wire_simps)

lemma unmarshal_marshal_Response:
  assumes "length (marshalResponse r) < 2 ^ 64"
  shows "unmarshalResponse (marshalResponse r) out = Inr r"
  using assms unfolding unmarshalResponse_def marshalResponse_def readByte_def
  by (simp add: wire_simps readBytes_write_end)

lemma length_put_uvarint: "unat v < 2 ^ (7 * n) \<Longrightarrow> 0 < n \<Longrightarrow> length (put_uvarint v) \<le> n"
proof (induction v arbitrary: n rule: put_uvarint.induct)
  case (1 v)
  show ?case
  proof (cases "v < 0x80")
    case False
    have dv: "unat (drop_bit 7 v) = unat v div 128" by (simp add: unat_div drop_bit_eq_div)
    have "128 \<le> unat v" using False by (simp add: word_less_nat_alt)
    then obtain m where m: "n = Suc m" "0 < m" using "1.prems" by (cases n; cases "n - 1") auto
    have "unat v < 2 ^ (7 * m) * 128" using "1.prems"(1) m by (simp add: power_add)
    then have "unat (drop_bit 7 v) < 2 ^ (7 * m)" unfolding dv by (rule less_mult_imp_div_less)
    then have "length (put_uvarint (drop_bit 7 v)) \<le> m" using "1.IH" [OF False] m(2) by simp
    then show ?thesis using False m(1) by (simp add: put_uvarint.simps [of v])
  qed (use "1.prems" in \<open>simp add: put_uvarint.simps [of v]\<close>)
qed

lemma ReadHeader_Write:
  "ReadHeader (WriteHeader h @ r) =
     (if hLength h > MaxPayload then Inl (ErrPayloadTooLarge (hLength h)) else Inr (h, r))"
proof -
  have l: "length (WriteHeader h) = 12" by (simp add: WriteHeader_def magic_def put_uint32_def)
  have d: "drop 8 (WriteHeader h) = put_uint32 (hLength h)" by (simp add: WriteHeader_def magic_def)
  have n: "WriteHeader h ! 0 = magic ! 0" "WriteHeader h ! 1 = magic ! 1" "WriteHeader h ! 2 = magic ! 2"
    "WriteHeader h ! 3 = magic ! 3" "WriteHeader h ! 4 = Version h" "WriteHeader h ! 5 = hCmd h"
    "WriteHeader h ! 6 = hFlags h"
    by (simp_all add: WriteHeader_def magic_def)
  show ?thesis
    unfolding ReadHeader_def read_full_def HeaderLen_def
    by (simp add: l d n [simplified] get_put_uint32 Let_def)
qed

end
