(* ===== verification/UDS_Transport.thy ===== *)
theory UDS_Transport
  imports Wire
begin

text \<open>
  The Unix-socket transport of \<open>pkg/transport/uds\<close>: the client's call, the server's framing of requests
  and responses, and the permission check of the socket file. The peer of the client is a
  function from the bytes the client wrote to the bytes that come back before the deadline; the
  environment says whether the dial and the writes succeed. Binding the socket and the accept loop are
  system calls only.
\<close>

subsection \<open>Codecs\<close>

text \<open>\<open>JSONCodec\<close> over the four functions of \<open>encoding/json\<close> on the two message types.\<close>

definition JSONCodec ::
  "(Request \<Rightarrow> wire_error + byte list) \<Rightarrow> (byte list \<Rightarrow> Request \<Rightarrow> wire_error + Request) \<Rightarrow>
   (Response \<Rightarrow> wire_error + byte list) \<Rightarrow> (byte list \<Rightarrow> Response \<Rightarrow> wire_error + Response) \<Rightarrow> Codec" where
  "JSONCodec mreq ureq mresp uresp =
     \<lparr>Name = ''json'', MarshalReq = mreq, UnmarshalReq = ureq, MarshalResp = mresp, UnmarshalResp = uresp\<rparr>"

subsection \<open>server.go\<close>

definition ReadRequest :: "Codec \<Rightarrow> byte list \<Rightarrow> Request \<Rightarrow> wire_error + (Header \<times> Request \<times> byte list)" where
  "ReadRequest json conn out =
     bind_err (ReadHeader conn) (\<lambda>(h, conn).
     bind_err (read_full (unat (hLength h)) conn) (\<lambda>(body, conn).
       if hFlags h AND FlagJSON \<noteq> 0
       then bind_err (UnmarshalReq json body out) (\<lambda>r. Inr (h, r, conn))
       else if hFlags h AND FlagBIN \<noteq> 0
       then bind_err (UnmarshalReq BinaryCodec body out) (\<lambda>r. Inr (h, r, conn))
       else Inl (UnsupportedFlags (hFlags h))))"

text \<open>\<open>WriteResponse\<close> returns the bytes of the frame; the number of writes that succeed is a parameter.\<close>

definition WriteResponse :: "Codec \<Rightarrow> nat \<Rightarrow> byte \<Rightarrow> byte \<Rightarrow> Response \<Rightarrow> wire_error + byte list" where
  "WriteResponse json writes_ok cmd flags resp =
     bind_err (if flags AND FlagJSON \<noteq> 0 then MarshalResp json resp
               else if flags AND FlagBIN \<noteq> 0 then MarshalResp BinaryCodec resp
               else Inl (UnsupportedFlags flags)) (\<lambda>body.
       let h = \<lparr>Version = 1, hCmd = cmd, hFlags = flags, hLength = word_of_nat (length body)\<rparr>
       in if writes_ok < 2 then Inl WriteFailed else Inr (WriteHeader h @ body))"

subsection \<open>client.go\<close>

record net_env =
  dial_ok :: bool
  writes_ok :: nat

definition client_Call ::
  "Codec \<Rightarrow> net_env \<Rightarrow> (byte list \<Rightarrow> byte list) \<Rightarrow> Request \<Rightarrow> Response \<Rightarrow> wire_error + Response" where
  "client_Call codec env peer req out =
     (if \<not> dial_ok env then Inl DialFailed
      else bind_err (MarshalReq codec req) (\<lambda>body.
        let hdr = \<lparr>Version = 1, hCmd = CommandToHeader (Cmd req), hFlags = DetectFlags codec,
                   hLength = word_of_nat (length body)\<rparr>
        in if writes_ok env < 2 then Inl WriteFailed
           else bind_err (ReadHeader (peer (WriteHeader hdr @ body))) (\<lambda>(rh, conn).
                bind_err (read_full (unat (hLength rh)) conn) (\<lambda>(buf, conn).
                  UnmarshalResp codec buf out))))"

subsection \<open>permission.go\<close>

record perm_options =
  RequireRootOwner :: bool
  AllowGroupWrite :: bool
  AllowedGID :: "uint32 option"

text \<open>What \<open>os.Stat\<close> of the directory and \<open>os.Lstat\<close> of the socket return; \<open>fi_owner\<close> is the \<open>Stat_t\<close>, if any.\<close>

record file_info =
  fi_dir :: bool
  fi_socket :: bool
  fi_perm :: uint32
  fi_owner :: "(uint32 \<times> uint32) option"

datatype perm_error =
    StatDirFailed | NotADirectory | DirWorldWritable | StatSocketFailed | NotASocket
  | SocketWorldWritable | SocketGroupWritable | NotRootOwned uint32 | WrongGID uint32

definition isWorldWritable :: "uint32 \<Rightarrow> bool" where "isWorldWritable perm = (perm AND 2 \<noteq> 0)"
definition isGroupWritable :: "uint32 \<Rightarrow> bool" where "isGroupWritable perm = (perm AND 16 \<noteq> 0)"

definition default_perm_options :: perm_options where
  "default_perm_options = \<lparr>RequireRootOwner = True, AllowGroupWrite = False, AllowedGID = None\<rparr>"

definition WithRequireRootOwner :: "bool \<Rightarrow> perm_options \<Rightarrow> perm_options" where
  "WithRequireRootOwner b o' = o'\<lparr>RequireRootOwner := b\<rparr>"
definition WithAllowGroupWrite :: "bool \<Rightarrow> perm_options \<Rightarrow> perm_options" where
  "WithAllowGroupWrite b o' = o'\<lparr>AllowGroupWrite := b\<rparr>"
definition WithAllowedGID :: "uint32 \<Rightarrow> perm_options \<Rightarrow> perm_options" where
  "WithAllowedGID g o' = o'\<lparr>AllowedGID := Some g\<rparr>"

definition ValidateSocketPermissions ::
  "file_info option \<Rightarrow> file_info option \<Rightarrow> (perm_options \<Rightarrow> perm_options) list \<Rightarrow> perm_error option" where
  "ValidateSocketPermissions dir sock opts =
     (let o' = fold (\<lambda>f x. f x) opts default_perm_options in
      case dir of
        None \<Rightarrow> Some StatDirFailed
      | Some dfi \<Rightarrow>
          if \<not> fi_dir dfi then Some NotADirectory
          else if isWorldWritable (fi_perm dfi) then Some DirWorldWritable
          else case sock of
                 None \<Rightarrow> Some StatSocketFailed
               | Some fi \<Rightarrow>
                   if \<not> fi_socket fi then Some NotASocket
                   else if isWorldWritable (fi_perm fi) then Some SocketWorldWritable
                   else if \<not> AllowGroupWrite o' \<and> isGroupWritable (fi_perm fi) then Some SocketGroupWritable
                   else case fi_owner fi of
                          None \<Rightarrow> None
                        | Some (uid, gid) \<Rightarrow>
                            if RequireRootOwner o' \<and> uid \<noteq> 0 then Some (NotRootOwned uid)
                            else case AllowedGID o' of
                                   None \<Rightarrow> None
                                 | Some g \<Rightarrow> if gid \<noteq> g then Some (WrongGID gid) else None)"

subsection \<open>Frames\<close>

lemma flag_tests: "FlagBIN AND FlagJSON = 0" "FlagBIN AND FlagBIN \<noteq> 0" "FlagJSON AND FlagJSON \<noteq> 0"
  by code_simp+

lemma read_full_append: "n = length b \<Longrightarrow> read_full n (b @ r) = Inr (b, r)"
  by (simp add: read_full_def)

lemma unat_nat32: "n \<le> 10485760 \<Longrightarrow> unat (word_of_nat n :: uint32) = n"
  by (simp add: unsigned_of_nat take_bit_nat_eq_self)

lemma frame_read:
  assumes "length body \<le> unat MaxPayload" "hLength h = word_of_nat (length body)"
  shows "ReadHeader (WriteHeader h @ body @ r) = Inr (h, body @ r)"
    "read_full (unat (hLength h)) (body @ r) = Inr (body, r)"
proof -
  have u: "unat (hLength h) = length body" using assms unat_nat32 by (simp add: MaxPayload_def)
  then have "\<not> MaxPayload < hLength h" using assms(1) by (simp add: word_less_nat_alt)
  then show "ReadHeader (WriteHeader h @ body @ r) = Inr (h, body @ r)" by (simp add: ReadHeader_Write)
  show "read_full (unat (hLength h)) (body @ r) = Inr (body, r)" by (rule read_full_append [OF u])
qed

text \<open>
  A codec that both sides can use: what one side marshals the other reads back. \<open>keeps\<close> is the part of a
  request that survives, given what the destination held before.
\<close>

locale wire_codec =
  fixes c :: Codec
    and ok_req :: "Request \<Rightarrow> bool" and ok_resp :: "Response \<Rightarrow> bool"
    and keeps :: "Request \<Rightarrow> Request \<Rightarrow> Request"
  assumes req_back: "ok_req r \<Longrightarrow> MarshalReq c r = Inr b \<Longrightarrow> UnmarshalReq c b out = Inr (keeps r out)"
    and resp_back: "ok_resp p \<Longrightarrow> MarshalResp c p = Inr b \<Longrightarrow> UnmarshalResp c b pout = Inr p"
    and codec_flag: "DetectFlags c = FlagJSON \<or> DetectFlags c = FlagBIN \<and> c = BinaryCodec"
begin

lemma request_frame:
  assumes "ok_req r" "MarshalReq c r = Inr b" "length b \<le> unat MaxPayload"
    "hFlags h = DetectFlags c" "hLength h = word_of_nat (length b)"
  shows "ReadRequest c (WriteHeader h @ b @ rest) out = Inr (h, keeps r out, rest)"
  using frame_read [OF assms(3,5)] req_back [OF assms(1,2)] codec_flag assms(4) flag_tests
  by (auto simp: ReadRequest_def bind_err_simps)

lemma response_frame:
  assumes "ok_resp p" "MarshalResp c p = Inr b" "length b \<le> unat MaxPayload" "2 \<le> n"
  shows "\<exists>f. WriteResponse c n cmd (DetectFlags c) p = Inr f \<and>
    f = WriteHeader \<lparr>Version = 1, hCmd = cmd, hFlags = DetectFlags c, hLength = word_of_nat (length b)\<rparr> @ b"
  using assms codec_flag flag_tests by (auto simp: WriteResponse_def bind_err_simps Let_def)

text \<open>A whole exchange: the client's frame reaches the server, whose answer reaches the client.\<close>

lemma exchange:
  assumes "ok_req r" "MarshalReq c r = Inr b" "length b \<le> unat MaxPayload"
    and "\<And>q. ok_resp (serve q)"
    and "\<And>q. \<exists>b'. MarshalResp c (serve q) = Inr b' \<and> length b' \<le> unat MaxPayload"
    and peer: "\<And>i h q rest. ReadRequest c i out = Inr (h, q, rest) \<Longrightarrow>
      WriteResponse c 2 (hCmd h) (hFlags h) (serve q) = Inr (peer i)"
    and env: "dial_ok env" "2 \<le> writes_ok env"
  shows "client_Call c env peer r pout = Inr (serve (keeps r out))"
proof -
  let ?h = "\<lparr>Version = 1, hCmd = CommandToHeader (Cmd r), hFlags = DetectFlags c, hLength = word_of_nat (length b)\<rparr>"
  let ?q = "keeps r out"
  have "ReadRequest c (WriteHeader ?h @ b @ []) out = Inr (?h, ?q, [])"
    by (rule request_frame [OF assms(1-3)]) simp_all
  then have "WriteResponse c 2 (CommandToHeader (Cmd r)) (DetectFlags c) (serve ?q) = Inr (peer (WriteHeader ?h @ b))"
    using peer [of "WriteHeader ?h @ b" ?h ?q "[]"] by simp
  moreover obtain b' where b': "MarshalResp c (serve ?q) = Inr b'" "length b' \<le> unat MaxPayload" using assms(5) by blast
  let ?h' = "\<lparr>Version = 1, hCmd = CommandToHeader (Cmd r), hFlags = DetectFlags c, hLength = word_of_nat (length b')\<rparr>"
  have "WriteResponse c 2 (CommandToHeader (Cmd r)) (DetectFlags c) (serve ?q) = Inr (WriteHeader ?h' @ b')"
    using response_frame [OF assms(4) b', of 2] by auto
  ultimately have p: "peer (WriteHeader ?h @ b) = WriteHeader ?h' @ b'" by simp
  show ?thesis
    using env assms(2) frame_read [of b' ?h' "[]"] b'(2) resp_back [OF assms(4) b'(1)] p
    by (simp add: client_Call_def bind_err_simps Let_def)
qed

end

definition bin_ok_req :: "Request \<Rightarrow> bool" where "bin_ok_req r \<longleftrightarrow> length (marshalRequest r) < 2 ^ 64"
definition bin_ok_resp :: "Response \<Rightarrow> bool" where "bin_ok_resp r \<longleftrightarrow> length (marshalResponse r) < 2 ^ 64"

text \<open>The binary codec carries all but the three fields that identify the pod.\<close>

definition bin_keeps :: "Request \<Rightarrow> Request \<Rightarrow> Request" where
  "bin_keeps r out = r\<lparr>PodName := PodName out, PodNamespace := PodNamespace out, PodUID := PodUID out\<rparr>"

interpretation bin: wire_codec BinaryCodec bin_ok_req bin_ok_resp bin_keeps
proof unfold_locales
  show "UnmarshalReq BinaryCodec b out = Inr (bin_keeps r out)"
    if "bin_ok_req r" "MarshalReq BinaryCodec r = Inr b" for r b out
    using that unmarshal_marshal_Request [of r out] by (auto simp: BinaryCodec_def bin_ok_req_def bin_keeps_def)
  show "UnmarshalResp BinaryCodec b pout = Inr p"
    if "bin_ok_resp p" "MarshalResp BinaryCodec p = Inr b" for p b pout
    using that unmarshal_marshal_Response [of p pout] by (auto simp: BinaryCodec_def bin_ok_resp_def)
  show "DetectFlags BinaryCodec = FlagJSON \<or> DetectFlags BinaryCodec = FlagBIN \<and> BinaryCodec = BinaryCodec"
    by (simp add: DetectFlags_def BinaryCodec_def)
qed

lemma ucast_get_uint32:
  "(ucast (drop_bit 24 (get_uint32 [a, b, c, d])) :: byte) = a"
  "(ucast (drop_bit 16 (get_uint32 [a, b, c, d])) :: byte) = b"
  "(ucast (drop_bit 8 (get_uint32 [a, b, c, d])) :: byte) = c"
  "(ucast (get_uint32 [a, b, c, d]) :: byte) = d"
  by (rule bit_word_eqI, force simp: get_uint32_def bit_simps dest: bit_imp_le_length)+

lemma put_get_uint32: "length b = 4 \<Longrightarrow> put_uint32 (get_uint32 b) = b"
  unfolding length4_conv by (auto simp: put_uint32_def ucast_get_uint32)

lemma list12_conv: "length b = 12 \<Longrightarrow> b = take 4 b @ [b ! 4, b ! 5, b ! 6, b ! 7] @ drop 8 b"
proof -
  assume l: "length b = 12"
  have "drop 4 b = [b ! 4, b ! 5, b ! 6, b ! 7] @ drop 8 b"
    using l Cons_nth_drop_Suc [of 4 b] Cons_nth_drop_Suc [of 5 b] Cons_nth_drop_Suc [of 6 b] Cons_nth_drop_Suc [of 7 b]
    by simp
  then show ?thesis using append_take_drop_id [of 4 b] by metis
qed

subsection \<open>Properties\<close>

text \<open>
  Header framing: \<open>ReadHeader\<close> accepts a byte stream exactly when it starts with the magic number,
  the version, command and flag bytes, one reserved byte and a big-endian length of at most
  10 MiB, and it leaves the rest of the stream unread. With the reserved byte zero these are the bytes
  \<open>WriteHeader\<close> produces, so every header within the limit is read back as it was written.
\<close>

theorem ReadHeader_iff:
  "ReadHeader bs = Inr (h, rest) \<longleftrightarrow>
     (\<exists>x. bs = magic @ [Version h, hCmd h, hFlags h, x] @ put_uint32 (hLength h) @ rest) \<and> hLength h \<le> MaxPayload"
    (is "?l \<longleftrightarrow> ?r")
proof
  assume r: "?r"
  then obtain x where bs: "bs = magic @ [Version h, hCmd h, hFlags h, x] @ put_uint32 (hLength h) @ rest" by blast
  have "length (put_uint32 (hLength h)) = 4" by (simp add: put_uint32_def)
  then have "read_full HeaderLen bs = Inr (magic @ [Version h, hCmd h, hFlags h, x] @ put_uint32 (hLength h), rest)"
    unfolding bs HeaderLen_def using read_full_append [of 12 "magic @ [Version h, hCmd h, hFlags h, x] @ put_uint32 (hLength h)" rest]
    by (simp add: magic_def)
  then show ?l using r by (simp add: ReadHeader_def magic_def get_put_uint32 Let_def not_less)
next
  assume l: "?l"
  then have len: "12 \<le> length bs" by (auto simp: ReadHeader_def read_full_def HeaderLen_def split: if_splits)
  let ?b = "take 12 bs"
  have rf: "read_full HeaderLen bs = Inr (?b, drop 12 bs)" using len by (simp add: read_full_def HeaderLen_def)
  have m: "?b ! 0 = magic ! 0" "?b ! 1 = magic ! 1" "?b ! 2 = magic ! 2" "?b ! 3 = magic ! 3"
    and h: "Version h = ?b ! 4" "hCmd h = ?b ! 5" "hFlags h = ?b ! 6" "hLength h = get_uint32 (drop 8 ?b)"
    and le: "hLength h \<le> MaxPayload" and rest: "rest = drop 12 bs"
    using l rf by (auto simp: ReadHeader_def Let_def not_less split: if_splits)
  have "take 4 ?b = magic"
    using m len by (intro nth_equalityI) (auto simp: magic_def less_Suc_eq numeral_eq_Suc)
  then have "?b = magic @ [?b ! 4, ?b ! 5, ?b ! 6, ?b ! 7] @ drop 8 ?b" using list12_conv [of ?b] len by simp
  moreover have "drop 8 ?b = put_uint32 (hLength h)" using put_get_uint32 [of "drop 8 ?b"] h(4) len by simp
  ultimately show ?r using h(1-3) le rest append_take_drop_id [of 12 bs] by (metis append.assoc)
qed

text \<open>
  C32. Binary codec round trip: what \<open>BinaryCodec\<close> marshals it unmarshals again, for requests and for
  responses of any content. A request comes back with the pod name, namespace and UID of the
  destination instead of its own: the codec does not carry them.
\<close>

theorem binary_codec_roundtrip:
  assumes "length (marshalRequest req) < 2 ^ 64" "length (marshalResponse resp) < 2 ^ 64"
  shows "unmarshalRequest (marshalRequest req) out =
      Inr (req\<lparr>PodName := PodName out, PodNamespace := PodNamespace out, PodUID := PodUID out\<rparr>) \<and>
    unmarshalResponse (marshalResponse resp) resp_out = Inr resp"
  using unmarshal_marshal_Request [OF assms(1)] unmarshal_marshal_Response [OF assms(2)] by simp

definition demo_req :: Request where
  "demo_req = \<lparr>Cmd = ''ADD'', TraceID = ''t'', CNIVersion = ''1.0.0'', ContainerID = ''c1'', NetNS = ''/ns'',
     IfName = ''eth0'', PodName = ''p'', PodNamespace = ''default'', PodUID = ''u1'', TimeoutSeconds = 300, IdemKey = ''k''\<rparr>"

definition zero_req :: Request where
  "zero_req = \<lparr>Cmd = [], TraceID = [], CNIVersion = [], ContainerID = [], NetNS = [],
     IfName = [], PodName = [], PodNamespace = [], PodUID = [], TimeoutSeconds = 0, IdemKey = []\<rparr>"

definition demo_resp :: Response where
  "demo_resp = \<lparr>OK = True, Code = [], Message = ''add ok'', Result = [123, 125]\<rparr>"

lemma demo_wire_sizes: "length (marshalRequest demo_req) \<le> 100" "length (marshalResponse demo_resp) \<le> 100"
  by code_simp+

theorem binary_codec_roundtrip_witness:
  "unmarshalRequest (marshalRequest demo_req) zero_req =
     Inr (demo_req\<lparr>PodName := [], PodNamespace := [], PodUID := []\<rparr>) \<and>
   unmarshalResponse (marshalResponse demo_resp) demo_resp = Inr demo_resp"
proof -
  have z: "PodName zero_req = []" "PodNamespace zero_req = []" "PodUID zero_req = []" by (simp_all add: zero_req_def)
  show ?thesis
    using binary_codec_roundtrip [of demo_req demo_resp zero_req demo_resp] demo_wire_sizes z by simp
qed

text \<open>
  A whole exchange over the socket: when the dial and the writes succeed, the request and the
  answer fit in the 10 MiB limit and the server answers every request it can read with
  \<open>WriteResponse\<close> under the request's command and flags, \<open>Call\<close> returns exactly the response the server
  computed for the request, less the pod identity that the binary codec drops.
\<close>

theorem uds_exchange:
  assumes "length (marshalRequest r) \<le> unat MaxPayload"
    and "\<And>q. length (marshalResponse (serve q)) \<le> unat MaxPayload"
    and "\<And>i h q rest. ReadRequest BinaryCodec i zero_req = Inr (h, q, rest) \<Longrightarrow>
      WriteResponse BinaryCodec 2 (hCmd h) (hFlags h) (serve q) = Inr (peer i)"
    and "dial_ok env" "2 \<le> writes_ok env"
  shows "client_Call BinaryCodec env peer r out =
    Inr (serve (r\<lparr>PodName := [], PodNamespace := [], PodUID := []\<rparr>))"
proof -
  have m: "unat MaxPayload < 2 ^ 64" by (simp add: MaxPayload_def)
  have q: "bin_ok_req r" using assms(1) m by (simp add: bin_ok_req_def)
  have p: "bin_ok_resp (serve q)" for q using assms(2) [of q] m by (simp add: bin_ok_resp_def)
  have "client_Call BinaryCodec env peer r out = Inr (serve (bin_keeps r zero_req))"
    by (rule bin.exchange [OF q _ assms(1) p _ assms(3-5)]) (use assms(2) in \<open>auto simp: BinaryCodec_def\<close>)
  then show ?thesis by (simp add: bin_keeps_def zero_req_def)
qed

definition demo_peer :: "byte list \<Rightarrow> byte list" where
  "demo_peer i = (case ReadRequest BinaryCodec i zero_req of
     Inl e \<Rightarrow> [] | Inr (h, q, rest) \<Rightarrow> projr (WriteResponse BinaryCodec 2 (hCmd h) (hFlags h) demo_resp))"

theorem uds_exchange_witness:
  "client_Call BinaryCodec \<lparr>dial_ok = True, writes_ok = 2\<rparr> demo_peer demo_req demo_resp = Inr demo_resp"
proof -
  have m: "unat MaxPayload = 10485760" by (simp add: MaxPayload_def)
  have "WriteResponse BinaryCodec 2 (hCmd h) (hFlags h) demo_resp = Inr (demo_peer i)"
    if r: "ReadRequest BinaryCodec i zero_req = Inr (h, q, rest)" for i h q rest
  proof -
    have "hFlags h AND FlagJSON \<noteq> 0 \<or> hFlags h AND FlagBIN \<noteq> 0"
      using r by (auto simp: ReadRequest_def bind_err_def split: sum.splits if_splits)
    then have "is_ok (WriteResponse BinaryCodec 2 (hCmd h) (hFlags h) demo_resp)"
      by (auto simp: WriteResponse_def BinaryCodec_def bind_err_simps Let_def)
    then show ?thesis using r by (auto simp: demo_peer_def is_ok_iff)
  qed
  then show ?thesis
    using uds_exchange [of demo_req "\<lambda>_. demo_resp" demo_peer "\<lparr>dial_ok = True, writes_ok = 2\<rparr>" demo_resp]
      demo_wire_sizes m by simp
qed

text \<open>
  Socket permissions: the check passes exactly when the directory exists, is a directory and is not
  world-writable, the path is a socket that is not world-writable, group write is off or allowed, and,
  where the owner is known, it is root if required and the group is the allowed one if set.
\<close>

theorem ValidateSocketPermissions_iff:
  "ValidateSocketPermissions dir sock opts = None \<longleftrightarrow>
     (\<exists>d f. dir = Some d \<and> sock = Some f \<and> fi_dir d \<and> \<not> isWorldWritable (fi_perm d) \<and>
        fi_socket f \<and> \<not> isWorldWritable (fi_perm f) \<and>
        (AllowGroupWrite (fold (\<lambda>f x. f x) opts default_perm_options) \<or> \<not> isGroupWritable (fi_perm f)) \<and>
        (\<forall>uid gid. fi_owner f = Some (uid, gid) \<longrightarrow>
           (RequireRootOwner (fold (\<lambda>f x. f x) opts default_perm_options) \<longrightarrow> uid = 0) \<and>
           (\<forall>g. AllowedGID (fold (\<lambda>f x. f x) opts default_perm_options) = Some g \<longrightarrow> gid = g)))"
  by (auto simp: ValidateSocketPermissions_def Let_def split: option.splits)

theorem ValidateSocketPermissions_iff_witness:
  "ValidateSocketPermissions (Some \<lparr>fi_dir = True, fi_socket = False, fi_perm = 448, fi_owner = None\<rparr>)
     (Some \<lparr>fi_dir = False, fi_socket = True, fi_perm = 384, fi_owner = Some (0, 0)\<rparr>) [] = None"
proof -
  have "\<not> isWorldWritable 448" "\<not> isWorldWritable 384" "\<not> isGroupWritable 384" by code_simp+
  then show ?thesis unfolding ValidateSocketPermissions_iff by (simp add: default_perm_options_def)
qed

end
