(* ===== verification/Kernel.thy ===== *)
theory Kernel
  imports Net_IP
begin

text \<open>
  The interface to the Linux kernel. The sources reach it through the packages \<open>netlink\<close>, \<open>ns\<close> and
  \<open>iptables\<close>, which are not part of the repository: every function that the sources call there is a
  field of a handle record, and the kernel state is a type variable. A call that changes the kernel returns an
  error, if any, and the new state. A Go function over the handle is a program: it maps a kernel
  state to a result or an error and the state it leaves behind, also when it fails half-way.
\<close>

subsection \<open>Programs\<close>

type_synonym ('k, 'e, 'a) prog = "'k \<Rightarrow> ('e + 'a) \<times> 'k"

definition p_ret :: "'a \<Rightarrow> ('k, 'e, 'a) prog" where
  "p_ret a k = (Inr a, k)"

definition p_fail :: "'e \<Rightarrow> ('k, 'e, 'a) prog" where
  "p_fail e k = (Inl e, k)"

definition p_bind :: "('k, 'e, 'a) prog \<Rightarrow> ('a \<Rightarrow> ('k, 'e, 'b) prog) \<Rightarrow> ('k, 'e, 'b) prog" where
  "p_bind m f k = (case m k of (Inl e, k') \<Rightarrow> (Inl e, k') | (Inr a, k') \<Rightarrow> f a k')"

text \<open>A call that only reads, and a call that changes the kernel; \<open>wrap\<close> is the \<open>%w\<close> of the error.\<close>

definition p_read :: "('x \<Rightarrow> 'e) \<Rightarrow> ('k \<Rightarrow> 'x + 'a) \<Rightarrow> ('k, 'e, 'a) prog" where
  "p_read wrap f k = (case f k of Inl x \<Rightarrow> (Inl (wrap x), k) | Inr a \<Rightarrow> (Inr a, k))"

definition p_do :: "('x \<Rightarrow> 'e) \<Rightarrow> ('k \<Rightarrow> 'x option \<times> 'k) \<Rightarrow> ('k, 'e, unit) prog" where
  "p_do wrap f k = (case f k of (Some x, k') \<Rightarrow> (Inl (wrap x), k') | (None, k') \<Rightarrow> (Inr (), k'))"

text \<open>\<open>_ = f()\<close>: the error is dropped.\<close>

definition p_try :: "('k, 'e, 'a) prog \<Rightarrow> ('k, 'e, unit) prog" where
  "p_try m k = (Inr (), snd (m k))"

definition p_guard :: "bool \<Rightarrow> 'e \<Rightarrow> ('k, 'e, unit) prog" where
  "p_guard b e k = (if b then (Inl e, k) else (Inr (), k))"

fun p_each :: "('a \<Rightarrow> ('k, 'e, unit) prog) \<Rightarrow> 'a list \<Rightarrow> ('k, 'e, unit) prog" where
  "p_each f [] k = (Inr (), k)"
| "p_each f (x # xs) k = (case f x k of (Inl e, k') \<Rightarrow> (Inl e, k') | (Inr _, k') \<Rightarrow> p_each f xs k')"

named_theorems prog_simps

lemma prog_run [prog_simps]:
  "p_ret a k = (Inr a, k)"
  "p_fail e k = (Inl e, k)"
  "p_guard b e k = (if b then (Inl e, k) else (Inr (), k))"
  "p_try m k = (Inr (), snd (m k))"
  by (simp_all add: p_ret_def p_fail_def p_guard_def p_try_def)

lemma p_bind_Inl [prog_simps]: "m k = (Inl e, k') \<Longrightarrow> p_bind m f k = (Inl e, k')"
  by (simp add: p_bind_def)

lemma p_bind_Inr [prog_simps]: "m k = (Inr a, k') \<Longrightarrow> p_bind m f k = f a k'"
  by (simp add: p_bind_def)

lemma p_bind_ok: "p_bind m f k = (Inr b, k'') \<longleftrightarrow> (\<exists>a k'. m k = (Inr a, k') \<and> f a k' = (Inr b, k''))"
  by (auto simp: p_bind_def split: prod.splits sum.splits)

lemma p_guard_ok: "p_guard b e k = (Inr u, k') \<longleftrightarrow> \<not> b \<and> k' = k"
  by (auto simp: p_guard_def)

lemma p_read_ok: "p_read w f k = (Inr a, k') \<longleftrightarrow> f k = Inr a \<and> k' = k"
  by (auto simp: p_read_def split: sum.splits)

lemma p_do_ok: "p_do w f k = (Inr u, k') \<longleftrightarrow> f k = (None, k')"
  by (auto simp: p_do_def split: prod.splits option.splits)

lemma p_ret_ok: "p_ret a k = (Inr b, k') \<longleftrightarrow> b = a \<and> k' = k"
  by (auto simp: p_ret_def)

lemma p_fail_ok: "p_fail e k \<noteq> (Inr b, k')"
  by (simp add: p_fail_def)

lemma p_try_ok: "p_try m k = (Inr u, k') \<longleftrightarrow> k' = snd (m k)"
  by (auto simp: p_try_def)

lemmas prog_ok = p_bind_ok p_guard_ok p_read_ok p_do_ok p_ret_ok p_fail_ok p_try_ok

subsection \<open>Errors as strings\<close>

record nl_error =
  err_msg :: string
  err_no :: "int option"

definition ENOENT :: int where "ENOENT = 2"
definition EEXIST :: int where "EEXIST = 17"
definition ESRCH :: int where "ESRCH = 3"

definition err_is :: "nl_error \<Rightarrow> int \<Rightarrow> bool" where
  "err_is e no = (err_no e = Some no)"

text \<open>\<open>strings.ToLower\<close> on ASCII and \<open>strings.Contains\<close>.\<close>

definition lower_char :: "char \<Rightarrow> char" where
  "lower_char c = (let n = of_char c :: nat in if 65 \<le> n \<and> n \<le> 90 then char_of (n + 32) else c)"

definition to_lower :: "string \<Rightarrow> string" where
  "to_lower = map lower_char"

fun str_contains :: "string \<Rightarrow> string \<Rightarrow> bool" where
  "str_contains [] sub = (sub = [])"
| "str_contains (c # s) sub = (prefix sub (c # s) \<or> str_contains s sub)"

lemma str_contains_sublist: "str_contains s sub \<longleftrightarrow> sublist sub s"
  by (induction s) (auto simp: sublist_Cons_right)

subsection \<open>netlink\<close>

record vxlan_attrs =
  VxlanId :: int
  VtepDevIndex :: int
  SrcAddr :: ip
  vxPort :: int
  Learning :: bool

datatype link_kind = LkBridge | LkVxlan vxlan_attrs | LkOther

record link =
  lk_Name :: string
  lk_Index :: int
  lk_HardwareAddr :: hwaddr
  lk_MTU :: int
  lk_kind :: link_kind

record neigh =
  ne_LinkIndex :: int
  ne_Family :: int
  ne_State :: int
  ne_Type :: int
  ne_Flags :: int
  ne_IP :: ip
  ne_HardwareAddr :: hwaddr

datatype route_scope = SCOPE_UNIVERSE | SCOPE_LINK

record nl_route =
  rt_LinkIndex :: int
  rt_Dst :: "ipnet option"
  rt_Gw :: ip
  rt_Table :: int
  rt_Priority :: int
  rt_Flags :: int
  rt_Scope :: route_scope

record net_interface =
  if_Index :: int
  if_MTU :: int

record 'k netlink =
  LinkByName :: "string \<Rightarrow> 'k \<Rightarrow> nl_error + link"
  LinkAdd :: "link \<Rightarrow> 'k \<Rightarrow> nl_error option \<times> 'k"
  LinkDel :: "link \<Rightarrow> 'k \<Rightarrow> nl_error option \<times> 'k"
  LinkSetUp :: "link \<Rightarrow> 'k \<Rightarrow> nl_error option \<times> 'k"
  LinkSetMTU :: "link \<Rightarrow> int \<Rightarrow> 'k \<Rightarrow> nl_error option \<times> 'k"
  LinkSetMaster :: "link \<Rightarrow> link \<Rightarrow> 'k \<Rightarrow> nl_error option \<times> 'k"
  AddrList :: "int \<Rightarrow> 'k \<Rightarrow> nl_error + ipnet list"
  AddrAdd :: "link \<Rightarrow> ipnet \<Rightarrow> 'k \<Rightarrow> nl_error option \<times> 'k"
  AddrReplace :: "link \<Rightarrow> ipnet \<Rightarrow> 'k \<Rightarrow> nl_error option \<times> 'k"
  AddrDel :: "link \<Rightarrow> ipnet \<Rightarrow> 'k \<Rightarrow> nl_error option \<times> 'k"
  NeighSet :: "neigh \<Rightarrow> 'k \<Rightarrow> nl_error option \<times> 'k"
  NeighDel :: "neigh \<Rightarrow> 'k \<Rightarrow> nl_error option \<times> 'k"
  NeighList :: "int \<Rightarrow> int \<Rightarrow> 'k \<Rightarrow> nl_error + neigh list"
  RouteList :: "int option \<Rightarrow> 'k \<Rightarrow> nl_error + nl_route list"
  RouteListFiltered :: "int \<Rightarrow> ipnet \<Rightarrow> 'k \<Rightarrow> nl_error + nl_route list"
  RouteAdd :: "nl_route \<Rightarrow> 'k \<Rightarrow> nl_error option \<times> 'k"
  RouteDel :: "nl_route \<Rightarrow> 'k \<Rightarrow> nl_error option \<times> 'k"
  RouteReplace :: "nl_route \<Rightarrow> 'k \<Rightarrow> nl_error option \<times> 'k"
  InterfaceByIndex :: "int \<Rightarrow> 'k \<Rightarrow> nl_error + net_interface"
  nsEnter :: "string \<Rightarrow> 'k \<Rightarrow> nl_error + 'k"
  nsLeave :: "'k \<Rightarrow> 'k"
  ipSetupVeth :: "string \<Rightarrow> int \<Rightarrow> 'k \<Rightarrow> (nl_error + (string \<times> string)) \<times> 'k"

text \<open>
  \<open>GetNS\<close> followed by \<open>Do\<close>: opening the namespace fails, or the body runs with the thread inside it and the
  thread returns to the host namespace afterwards.
\<close>

definition in_ns :: "'k netlink \<Rightarrow> string \<Rightarrow> (nl_error \<Rightarrow> 'e) \<Rightarrow> ('k, 'e, 'a) prog \<Rightarrow> ('k, 'e, 'a) prog" where
  "in_ns nl path wrap body k =
     (case nsEnter nl path k of
        Inl x \<Rightarrow> (Inl (wrap x), k)
      | Inr k1 \<Rightarrow> (case body k1 of (r, k2) \<Rightarrow> (r, nsLeave nl k2)))"

end
