(* ===== verification/Devices.thy ===== *)
theory Devices
  imports Kernel IPAM_Invariant Wire
begin

text \<open>
  The tenant's network devices: \<open>pkg/network/device\<close> (names, addresses, the Linux bridge, the VXLAN
  endpoint and the pod's veth pair) and \<open>pkg/network/backend\<close>, which creates, updates and deletes the bridge
  and the VXLAN endpoint of a tenant together. The kernel is the handle of theory Kernel. The SHA
  functions are parameters; what is used of them is the length of their result.
\<close>

subsection \<open>device/util.go and config.go\<close>

datatype dev_error =
    FirstIPOutside
  | PrefixTooLong
  | NoSuffixRoom
  | NilSubnet
  | NilDevice
  | NotABridge
  | NotAVxlan
  | NetlinkErr nl_error
  | NoDefaultRoute
  | NoDefaultInterface
  | NoLocalAddress
  | BadArgument

definition MaxDeviceNameLength :: nat where "MaxDeviceNameLength = 15"
definition BrPrefix :: string where "BrPrefix = ''br-''"
definition VxlanPrefix :: string where "VxlanPrefix = ''vxlan-''"
definition VxlanPort :: int where "VxlanPort = 8472"
definition EncapOverhead :: int where "EncapOverhead = 50"
definition MaxVNI :: int where "MaxVNI = 16777215"

text \<open>Adding one to the last byte, with carry, on the reversed bytes.\<close>

fun inc_carry :: "byte list \<Rightarrow> byte list" where
  "inc_carry [] = []"
| "inc_carry (b # bs) = (if b + 1 \<noteq> 0 then (b + 1) # bs else (b + 1) # inc_carry bs)"

definition FirstIP :: "ipnet \<Rightarrow> dev_error + ipnet" where
  "FirstIP n =
     (let netIP = mask_ip (net_ip n) (net_mask n); first = rev (inc_carry (rev netIP)) in
      if \<not> contains n first then Inl FirstIPOutside
      else Inr \<lparr>net_ip = first, net_mask = net_mask n\<rparr>)"

definition HostIP :: "ipnet \<Rightarrow> ipnet" where
  "HostIP n = \<lparr>net_ip = mask_ip (net_ip n) (net_mask n), net_mask = net_mask n\<rparr>"

text \<open>\<open>hex.EncodeToString\<close>.\<close>

definition hex_digit :: "nat \<Rightarrow> char" where
  "hex_digit d = char_of (if d < 10 then 48 + d else 87 + d)"

definition hex_encode :: "byte list \<Rightarrow> string" where
  "hex_encode bs = concat (map (\<lambda>b. [hex_digit (unat b div 16), hex_digit (unat b mod 16)]) bs)"

type_synonym hash = "byte list \<Rightarrow> byte list"

definition GenerateDeviceName :: "hash \<Rightarrow> string \<Rightarrow> string \<Rightarrow> dev_error + string" where
  "GenerateDeviceName sha1 pre name =
     (if length pre > MaxDeviceNameLength then Inl PrefixTooLong
      else let suffixLen = int MaxDeviceNameLength - 6 in
           if suffixLen \<le> 0 then Inl NoSuffixRoom
           else let suffixLen' = (if int (length pre) + suffixLen > int MaxDeviceNameLength
                                  then int MaxDeviceNameLength - int (length pre) else suffixLen)
                in if suffixLen' \<le> 0 then Inl NoSuffixRoom
                   else Inr (pre @ take (nat suffixLen') (hex_encode (sha1 (str_bytes name)))))"

subsection \<open>device.go and its implementations\<close>

record device =
  dv_name :: string
  dv_ip :: "ipnet option"
  dv_mac :: hwaddr
  dv_Type :: string
  dv_vni :: int

subsection \<open>device/bridge\<close>

definition isLinkNotFound :: "nl_error \<Rightarrow> bool" where
  "isLinkNotFound e = (let s = to_lower (err_msg e) in
     str_contains s ''not found'' \<or> str_contains s ''no such device'' \<or> str_contains s ''does not exist'')"

definition isAddrNotFound :: "nl_error \<Rightarrow> bool" where
  "isAddrNotFound e = (let s = to_lower (err_msg e) in
     str_contains s ''not found'' \<or> str_contains s ''cannot assign requested address'')"

definition flushIPv4Addrs :: "'k netlink \<Rightarrow> link \<Rightarrow> ('k, dev_error, unit) prog" where
  "flushIPv4Addrs nl l =
     p_bind (p_read NetlinkErr (AddrList nl (lk_Index l))) (\<lambda>addrs.
     p_each (\<lambda>a k. case AddrDel nl l a k of
               (Some x, k') \<Rightarrow> if isAddrNotFound x then (Inr (), k') else (Inl (NetlinkErr x), k')
             | (None, k') \<Rightarrow> (Inr (), k')) addrs)"

definition ensureBridge :: "'k netlink \<Rightarrow> string \<Rightarrow> ipnet \<Rightarrow> ('k, dev_error, link \<times> ipnet) prog" where
  "ensureBridge nl name subnet =
     p_bind (\<lambda>k. case LinkByName nl name k of
               Inr l \<Rightarrow> if lk_kind l \<noteq> LkBridge then (Inl NotABridge, k) else (Inr l, k)
             | Inl x \<Rightarrow>
                 if isLinkNotFound x
                 then p_bind (p_do NetlinkErr (LinkAdd nl \<lparr>lk_Name = name, lk_Index = 0, lk_HardwareAddr = [],
                                                         lk_MTU = 0, lk_kind = LkBridge\<rparr>)) (\<lambda>_.
                      p_read NetlinkErr (LinkByName nl name)) k
                 else (Inl (NetlinkErr x), k)) (\<lambda>l.
     p_bind (\<lambda>k. (FirstIP subnet, k)) (\<lambda>ipn.
     p_bind (p_do NetlinkErr (AddrReplace nl l ipn)) (\<lambda>_.
     p_bind (p_do NetlinkErr (LinkSetUp nl l)) (\<lambda>_.
     p_ret (l, ipn)))))"

definition SetupBridge :: "'k netlink \<Rightarrow> hash \<Rightarrow> string \<Rightarrow> ipnet option \<Rightarrow> ('k, dev_error, link \<times> ipnet) prog" where
  "SetupBridge nl sha1 tid subnet =
     (case subnet of
        None \<Rightarrow> p_fail NilSubnet
      | Some sn \<Rightarrow> p_bind (\<lambda>k. (GenerateDeviceName sha1 BrPrefix tid, k)) (\<lambda>brName. ensureBridge nl brName sn))"

definition UpdateBridgeIP :: "'k netlink \<Rightarrow> device option \<Rightarrow> ipnet option \<Rightarrow> ('k, dev_error, unit) prog" where
  "UpdateBridgeIP nl d subnet =
     (case (d, subnet) of
        (None, _) \<Rightarrow> p_fail NilDevice
      | (Some _, None) \<Rightarrow> p_fail NilSubnet
      | (Some dv, Some sn) \<Rightarrow>
          p_bind (\<lambda>k. (FirstIP sn, k)) (\<lambda>ipNet.
          p_bind (p_read NetlinkErr (LinkByName nl (dv_name dv))) (\<lambda>l.
          p_bind (flushIPv4Addrs nl l) (\<lambda>_.
          p_bind (p_do NetlinkErr (AddrReplace nl l ipNet)) (\<lambda>_.
          p_do NetlinkErr (LinkSetUp nl l))))))"

definition DeleteBridge :: "'k netlink \<Rightarrow> device option \<Rightarrow> ('k, dev_error, unit) prog" where
  "DeleteBridge nl d =
     (case d of
        None \<Rightarrow> p_fail NilDevice
      | Some dv \<Rightarrow>
          p_bind (p_read NetlinkErr (LinkByName nl (dv_name dv))) (\<lambda>l. p_do NetlinkErr (LinkDel nl l)))"

definition bridge_Create :: "'k netlink \<Rightarrow> hash \<Rightarrow> string \<Rightarrow> ipnet option \<Rightarrow> ('k, dev_error, device) prog" where
  "bridge_Create nl sha1 tid subnet =
     p_bind (SetupBridge nl sha1 tid subnet) (\<lambda>(l, ip).
     p_ret \<lparr>dv_name = lk_Name l, dv_ip = Some ip, dv_mac = lk_HardwareAddr l, dv_Type = ''bridge'', dv_vni = 0\<rparr>)"

text \<open>The update writes the new address into the device object; the model returns the updated object.\<close>

definition bridge_Update :: "'k netlink \<Rightarrow> device option \<Rightarrow> ipnet option \<Rightarrow> ('k, dev_error, device option) prog" where
  "bridge_Update nl d subnet =
     p_bind (UpdateBridgeIP nl d subnet) (\<lambda>_.
     p_ret (case (d, subnet) of
              (Some dv, Some sn) \<Rightarrow>
                if dv_Type dv = ''bridge''
                then (case FirstIP sn of Inr ipNet \<Rightarrow> Some (dv\<lparr>dv_ip := Some ipNet\<rparr>) | Inl _ \<Rightarrow> d)
                else d
            | _ \<Rightarrow> d))"

definition bridge_Delete :: "'k netlink \<Rightarrow> device option \<Rightarrow> ('k, dev_error, unit) prog" where
  "bridge_Delete nl d = p_bind (DeleteBridge nl d) (\<lambda>_. p_ret ())"

subsection \<open>device/vtep\<close>

definition VNI :: "hash \<Rightarrow> string \<Rightarrow> int" where
  "VNI sha256 tenant =
     (let val = get_uint32 (take 4 (sha256 (str_bytes tenant))); vni = val AND 0xFFFFFF
      in uint (if vni = 0 then 1 else vni))"

definition VtepMAC :: "hash \<Rightarrow> string \<Rightarrow> string \<Rightarrow> hwaddr" where
  "VtepMAC sha1 tenantID nodeName =
     (let mac = take 6 (sha1 (str_bytes (tenantID @ ''|'' @ nodeName)))
      in mac[0 := (mac ! 0 AND 0xFE) OR 0x02])"

text \<open>\<open>routing.GetDefaultGatewayInterface\<close> and \<open>GetIfaceAddr\<close>.\<close>

definition is_default_dst :: "ipnet option \<Rightarrow> bool" where
  "is_default_dst d = (case d of None \<Rightarrow> True | Some n \<Rightarrow> network_number_and_mask n = ([0, 0, 0, 0], [0, 0, 0, 0]))"

definition GetDefaultGatewayInterface :: "'k netlink \<Rightarrow> 'k \<Rightarrow> dev_error + net_interface" where
  "GetDefaultGatewayInterface nl k =
     (case RouteList nl None k of
        Inl x \<Rightarrow> Inl (NetlinkErr x)
      | Inr routes \<Rightarrow>
          (case find (\<lambda>r. is_default_dst (rt_Dst r)) routes of
             None \<Rightarrow> Inl NoDefaultRoute
           | Some r \<Rightarrow>
               if rt_LinkIndex r \<le> 0 then Inl NoDefaultInterface
               else (case InterfaceByIndex nl (rt_LinkIndex r) k of Inl x \<Rightarrow> Inl (NetlinkErr x) | Inr i \<Rightarrow> Inr i)))"

definition ensureVxLan :: "'k netlink \<Rightarrow> link \<Rightarrow> ('k, dev_error, link) prog" where
  "ensureVxLan nl vx k =
     (case LinkByName nl (lk_Name vx) k of
        Inr l \<Rightarrow> (case lk_kind l of LkVxlan _ \<Rightarrow> (Inr l, k) | _ \<Rightarrow> (Inl NotAVxlan, k))
      | Inl x \<Rightarrow>
          if \<not> str_contains (err_msg x) ''Link not found'' then (Inl (NetlinkErr x), k)
          else p_bind (p_do NetlinkErr (LinkAdd nl vx)) (\<lambda>_. p_read NetlinkErr (LinkByName nl (lk_Name vx))) k)"

definition newVxlanDevice :: "'k netlink \<Rightarrow> string \<Rightarrow> int \<Rightarrow> hwaddr \<Rightarrow> ('k, dev_error, link) prog" where
  "newVxlanDevice nl vtepName vni mac =
     p_bind (\<lambda>k. (GetDefaultGatewayInterface nl k, k)) (\<lambda>gateway.
     p_bind (p_read NetlinkErr (AddrList nl (if_Index gateway))) (\<lambda>localhosts.
     p_bind (p_guard (localhosts = []) NoLocalAddress) (\<lambda>_.
     ensureVxLan nl \<lparr>lk_Name = vtepName, lk_Index = 0, lk_HardwareAddr = mac, lk_MTU = if_MTU gateway - EncapOverhead,
       lk_kind = LkVxlan \<lparr>VxlanId = vni, VtepDevIndex = if_Index gateway, SrcAddr = net_ip (hd localhosts),
                          vxPort = VxlanPort, Learning = False\<rparr>\<rparr>)))"

definition host_mask :: ipmask where "host_mask = [255, 255, 255, 255]"

text \<open>\<open>VtepMAC(...).String()\<close> and the \<open>net.ParseMAC\<close> of it give the same six bytes back.\<close>

definition SetupVxlan :: "'k netlink \<Rightarrow> hash \<Rightarrow> hash \<Rightarrow> ipnet \<Rightarrow> string \<Rightarrow> string \<Rightarrow> ('k, dev_error, link \<times> ipnet) prog" where
  "SetupVxlan nl sha1 sha256 subnet tid nodeName =
     p_bind (\<lambda>k. (GenerateDeviceName sha1 VxlanPrefix tid, k)) (\<lambda>vtepName.
     p_bind (newVxlanDevice nl vtepName (VNI sha256 tid) (VtepMAC sha1 tid nodeName)) (\<lambda>l.
     p_bind (p_read NetlinkErr (AddrList nl (lk_Index l))) (\<lambda>existing.
     let vtepIP = \<lparr>net_ip = net_ip (HostIP subnet), net_mask = host_mask\<rparr> in
     p_bind (if existing = [] then p_do NetlinkErr (AddrAdd nl l vtepIP) else p_ret ()) (\<lambda>_.
     p_bind (p_do NetlinkErr (LinkSetUp nl l)) (\<lambda>_.
     p_ret (l, vtepIP))))))"

definition vtep_UpdateIP :: "'k netlink \<Rightarrow> device option \<Rightarrow> ipnet option \<Rightarrow> ('k, dev_error, ipnet) prog" where
  "vtep_UpdateIP nl dv subnet =
     (case dv of
        None \<Rightarrow> p_fail NilDevice
      | Some d \<Rightarrow>
          (case subnet of
             None \<Rightarrow> p_fail NilSubnet
           | Some sn \<Rightarrow>
               if net_ip sn = [] \<or> net_mask sn = [] then p_fail NilSubnet
               else
                 p_bind (p_read NetlinkErr (LinkByName nl (dv_name d))) (\<lambda>l.
                 p_bind (p_guard (\<not> (case lk_kind l of LkVxlan _ \<Rightarrow> True | _ \<Rightarrow> False)) NotAVxlan) (\<lambda>_.
                 let vtepIP = \<lparr>net_ip = net_ip (HostIP sn), net_mask = host_mask\<rparr> in
                 p_bind (\<lambda>k. case GetDefaultGatewayInterface nl k of
                               Inr gw \<Rightarrow> p_try (p_do NetlinkErr (LinkSetMTU nl l (if_MTU gw - EncapOverhead))) k
                             | Inl _ \<Rightarrow> (Inr (), k)) (\<lambda>_.
                 p_bind (p_do NetlinkErr (AddrReplace nl l vtepIP)) (\<lambda>_.
                 p_bind (p_do NetlinkErr (LinkSetUp nl l)) (\<lambda>_.
                 p_ret vtepIP)))))))"

definition DeleteVTEP :: "'k netlink \<Rightarrow> device option \<Rightarrow> ('k, dev_error, unit) prog" where
  "DeleteVTEP nl dv =
     (case dv of
        None \<Rightarrow> p_fail NilDevice
      | Some d \<Rightarrow>
          (\<lambda>k. case LinkByName nl (dv_name d) k of
                 Inl x \<Rightarrow> if str_contains (err_msg x) ''Link not found'' then (Inr (), k) else (Inl (NetlinkErr x), k)
               | Inr l \<Rightarrow> p_do NetlinkErr (LinkDel nl l) k))"

definition link_vni :: "link \<Rightarrow> int" where
  "link_vni l = (case lk_kind l of LkVxlan a \<Rightarrow> VxlanId a | _ \<Rightarrow> 0)"

definition vtep_Create :: "'k netlink \<Rightarrow> hash \<Rightarrow> hash \<Rightarrow> string \<Rightarrow> ipnet \<Rightarrow> string \<Rightarrow> ('k, dev_error, device) prog" where
  "vtep_Create nl sha1 sha256 tenantID subnet nodeName =
     p_bind (SetupVxlan nl sha1 sha256 subnet tenantID nodeName) (\<lambda>(l, ip).
     p_ret \<lparr>dv_name = lk_Name l, dv_ip = Some ip, dv_mac = lk_HardwareAddr l, dv_Type = ''vtep'', dv_vni = link_vni l\<rparr>)"

text \<open>The address that \<open>UpdateIP\<close> returns is discarded: the device object keeps the old one.\<close>

definition vtep_Update :: "'k netlink \<Rightarrow> device option \<Rightarrow> ipnet option \<Rightarrow> ('k, dev_error, unit) prog" where
  "vtep_Update nl dv subnet = p_bind (vtep_UpdateIP nl dv subnet) (\<lambda>_. p_ret ())"

definition vtep_Delete :: "'k netlink \<Rightarrow> device option \<Rightarrow> ('k, dev_error, unit) prog" where
  "vtep_Delete nl dv = p_bind (DeleteVTEP nl dv) (\<lambda>_. p_ret ())"

subsection \<open>backend/bv\_backend.go\<close>

record bv_backend =
  bv_Bridge :: "device option"
  bv_VTEP :: "device option"

definition NewBridgeVTEPBackend :: bv_backend where
  "NewBridgeVTEPBackend = \<lparr>bv_Bridge = None, bv_VTEP = None\<rparr>"

definition bv_Create ::
  "'k netlink \<Rightarrow> hash \<Rightarrow> hash \<Rightarrow> bv_backend \<Rightarrow> string \<Rightarrow> ipnet \<Rightarrow> string \<Rightarrow> ('k, dev_error, bv_backend) prog" where
  "bv_Create nl sha1 sha256 bv tenantID subnet host =
     p_bind (bridge_Create nl sha1 tenantID (Some subnet)) (\<lambda>br.
     (\<lambda>k. case vtep_Create nl sha1 sha256 tenantID subnet host k of
            (Inr vt, k') \<Rightarrow> (Inr (bv\<lparr>bv_Bridge := Some br, bv_VTEP := Some vt\<rparr>), k')
          | (Inl e, k') \<Rightarrow>
              (case bridge_Delete nl (Some br) k' of
                 (Inl delErr, k'') \<Rightarrow> (Inl delErr, k'')
               | (Inr _, k'') \<Rightarrow> (Inl e, k''))))"

text \<open>On failure the object may already carry the new bridge address, so it is returned in both cases.\<close>

definition bv_Update :: "'k netlink \<Rightarrow> bv_backend \<Rightarrow> ipnet option \<Rightarrow> 'k \<Rightarrow> (dev_error option \<times> bv_backend) \<times> 'k" where
  "bv_Update nl bv subnet k =
     (case bridge_Update nl (bv_Bridge bv) subnet k of
        (Inl e, k') \<Rightarrow> ((Some e, bv), k')
      | (Inr br, k') \<Rightarrow>
          (case vtep_Update nl (bv_VTEP bv) subnet k' of
             (Inl e, k'') \<Rightarrow> ((Some e, bv\<lparr>bv_Bridge := br\<rparr>), k'')
           | (Inr _, k'') \<Rightarrow> ((None, bv\<lparr>bv_Bridge := br\<rparr>), k'')))"

definition bv_Delete :: "'k netlink \<Rightarrow> bv_backend \<Rightarrow> ('k, dev_error, bv_backend) prog" where
  "bv_Delete nl bv =
     p_bind (vtep_Delete nl (bv_VTEP bv)) (\<lambda>_.
     p_bind (bridge_Delete nl (bv_Bridge bv)) (\<lambda>_.
     p_ret (bv\<lparr>bv_Bridge := None, bv_VTEP := None\<rparr>)))"

definition bv_Devices :: "bv_backend \<Rightarrow> device list" where
  "bv_Devices bv = (case bv_Bridge bv of None \<Rightarrow> [] | Some d \<Rightarrow> [d]) @ (case bv_VTEP bv of None \<Rightarrow> [] | Some d \<Rightarrow> [d])"

definition backend_VTEP :: "bv_backend \<Rightarrow> device option" where
  "backend_VTEP b = find (\<lambda>d. dv_Type d = ''vtep'') (bv_Devices b)"

definition backend_Bridge :: "bv_backend \<Rightarrow> device option" where
  "backend_Bridge b = find (\<lambda>d. dv_Type d = ''bridge'') (bv_Devices b)"

subsection \<open>device/veth.go\<close>

definition maxIfNameLen :: nat where "maxIfNameLen = 15"

definition maskEqual :: "ipmask \<Rightarrow> ipmask \<Rightarrow> bool" where
  "maskEqual a b = (length a = length b \<and> list_all2 (=) a b)"

definition has_addr :: "ipnet \<Rightarrow> ipnet list \<Rightarrow> bool" where
  "has_addr want addrs = list_ex (\<lambda>a. ip_equal (net_ip a) (net_ip want) \<and> maskEqual (net_mask a) (net_mask want)) addrs"

definition needsAddr :: "'k netlink \<Rightarrow> link \<Rightarrow> ipnet \<Rightarrow> 'k \<Rightarrow> bool" where
  "needsAddr nl l want k = (case AddrList nl (lk_Index l) k of Inl _ \<Rightarrow> True | Inr addrs \<Rightarrow> \<not> has_addr want addrs)"

text \<open>A call whose \<open>EEXIST\<close> counts as success.\<close>

definition p_do_exist :: "('k \<Rightarrow> nl_error option \<times> 'k) \<Rightarrow> ('k, dev_error, unit) prog" where
  "p_do_exist f k = (case f k of
     (Some x, k') \<Rightarrow> if err_is x EEXIST then (Inr (), k') else (Inl (NetlinkErr x), k') | (None, k') \<Rightarrow> (Inr (), k'))"

definition veth_args_bad :: "string \<Rightarrow> string \<Rightarrow> int \<Rightarrow> string \<Rightarrow> ipnet option \<Rightarrow> ip \<Rightarrow> bool" where
  "veth_args_bad netnsPath bridgeName mtu ifName podIPNet gateway =
     (netnsPath = [] \<or> bridgeName = [] \<or> ifName = [] \<or> length ifName > maxIfNameLen \<or>
      (case podIPNet of
         None \<Rightarrow> True
       | Some p \<Rightarrow> net_ip p = [] \<or> net_mask p = [] \<or> to4 (net_ip p) = [] \<or> gateway = [] \<or> to4 gateway = [] \<or>
           \<not> contains p gateway) \<or> mtu \<le> 0)"

definition veth_container ::
  "'k netlink \<Rightarrow> int \<Rightarrow> string \<Rightarrow> ipnet \<Rightarrow> ip \<Rightarrow> ('k, dev_error, string) prog" where
  "veth_container nl mtu ifName podIPNet gateway =
     p_bind (\<lambda>k. case ipSetupVeth nl ifName mtu k of (Inl x, k') \<Rightarrow> (Inl (NetlinkErr x), k') | (Inr r, k') \<Rightarrow> (Inr r, k'))
       (\<lambda>(hostIfaceName, conName).
     p_bind (p_read NetlinkErr (LinkByName nl conName)) (\<lambda>conLink.
     p_bind (\<lambda>k. if needsAddr nl conLink podIPNet k then p_do_exist (AddrAdd nl conLink podIPNet) k else (Inr (), k)) (\<lambda>_.
     p_bind (p_do NetlinkErr (LinkSetMTU nl conLink mtu)) (\<lambda>_.
     p_bind (p_do NetlinkErr (LinkSetUp nl conLink)) (\<lambda>_.
     p_bind (p_do_exist (RouteAdd nl \<lparr>rt_LinkIndex = lk_Index conLink, rt_Dst = None, rt_Gw = gateway, rt_Table = 0,
                                     rt_Priority = 0, rt_Flags = 0, rt_Scope = SCOPE_UNIVERSE\<rparr>)) (\<lambda>_.
     p_ret hostIfaceName))))))"

definition SetupVeth ::
  "'k netlink \<Rightarrow> string \<Rightarrow> string \<Rightarrow> int \<Rightarrow> string \<Rightarrow> ipnet option \<Rightarrow> ip \<Rightarrow> ('k, dev_error, unit) prog" where
  "SetupVeth nl netnsPath bridgeName mtu ifName podIPNet gateway =
     p_bind (p_guard (veth_args_bad netnsPath bridgeName mtu ifName podIPNet gateway) BadArgument) (\<lambda>_.
     p_bind (p_read NetlinkErr (LinkByName nl bridgeName)) (\<lambda>brLink.
     p_bind (in_ns nl netnsPath NetlinkErr (veth_container nl mtu ifName (the podIPNet) gateway)) (\<lambda>hostIfaceName.
     p_bind (p_read NetlinkErr (LinkByName nl hostIfaceName)) (\<lambda>hostVeth.
     p_bind (p_do NetlinkErr (LinkSetMTU nl hostVeth mtu)) (\<lambda>_.
     p_bind (p_do NetlinkErr (LinkSetMaster nl hostVeth brLink)) (\<lambda>_.
     p_do NetlinkErr (LinkSetUp nl hostVeth)))))))"

definition DelVeth :: "'k netlink \<Rightarrow> string option \<Rightarrow> string \<Rightarrow> ('k, dev_error, unit) prog" where
  "DelVeth nl netns ifName =
     p_bind (p_guard (netns = None \<or> ifName = [] \<or> length ifName > maxIfNameLen) BadArgument) (\<lambda>_.
     in_ns nl (the netns) NetlinkErr (\<lambda>k.
       case LinkByName nl ifName k of
         Inl x \<Rightarrow> if err_is x ENOENT then (Inr (), k) else (Inl (NetlinkErr x), k)
       | Inr l \<Rightarrow> p_do NetlinkErr (LinkDel nl l) k))"

definition CheckVeth :: "'k netlink \<Rightarrow> string option \<Rightarrow> string \<Rightarrow> ip \<Rightarrow> ('k, dev_error, unit) prog" where
  "CheckVeth nl netns ifName podIP =
     p_bind (p_guard (netns = None \<or> ifName = [] \<or> podIP = [] \<or> to4 podIP = []) BadArgument) (\<lambda>_.
     in_ns nl (the netns) NetlinkErr (
       p_bind (p_read NetlinkErr (LinkByName nl ifName)) (\<lambda>l.
       p_bind (p_read NetlinkErr (AddrList nl (lk_Index l))) (\<lambda>addrs.
       p_guard (\<not> list_ex (\<lambda>a. ip_equal (net_ip a) podIP) addrs) BadArgument))))"

definition CheckVethIPNet :: "'k netlink \<Rightarrow> string \<Rightarrow> string \<Rightarrow> ipnet option \<Rightarrow> ('k, dev_error, unit) prog" where
  "CheckVethIPNet nl netns ifName podIPNet =
     (case podIPNet of
        None \<Rightarrow> p_fail BadArgument
      | Some p \<Rightarrow>
          p_bind (p_guard (net_ip p = [] \<or> net_mask p = [] \<or> to4 (net_ip p) = []) BadArgument) (\<lambda>_.
          in_ns nl netns NetlinkErr (
            p_bind (p_read NetlinkErr (LinkByName nl ifName)) (\<lambda>l.
            p_bind (p_read NetlinkErr (AddrList nl (lk_Index l))) (\<lambda>addrs.
            p_guard (\<not> has_addr p addrs) BadArgument)))))"

definition HasVeth :: "'k netlink \<Rightarrow> string option \<Rightarrow> string \<Rightarrow> ('k, dev_error, bool) prog" where
  "HasVeth nl netns ifName =
     p_bind (p_guard (netns = None \<or> ifName = []) BadArgument) (\<lambda>_.
     in_ns nl (the netns) NetlinkErr (\<lambda>k.
       case LinkByName nl ifName k of
         Inl x \<Rightarrow> if err_is x ENOENT then (Inr False, k) else (Inl (NetlinkErr x), k)
       | Inr l \<Rightarrow> (Inr True, k)))"

subsection \<open>Names, identifiers and addresses\<close>

lemma length_hex_encode [simp]: "length (hex_encode b) = 2 * length b"
  by (induction b) (auto simp: hex_encode_def)

lemma GenerateDeviceName_eq:
  assumes "length pre \<le> 6"
  shows "GenerateDeviceName sha1 pre name = Inr (pre @ take 9 (hex_encode (sha1 (str_bytes name))))"
  using assms by (simp add: GenerateDeviceName_def MaxDeviceNameLength_def Let_def)

lemma byte_inc:
  "(b :: byte) + 1 = 0 \<Longrightarrow> unat b = 255"
  "(b :: byte) + 1 \<noteq> 0 \<Longrightarrow> unat (b + 1) = unat b + 1"
proof -
  have s: "unat (b + 1) = (unat b + 1) mod 256" by (simp add: unat_word_ariths)
  have l: "unat b < 256" using unsigned_less [of b] by simp
  show "b + 1 = 0 \<Longrightarrow> unat b = 255"
  proof -
    assume "b + 1 = 0"
    then have "(unat b + 1) mod 256 = 0" using s by simp
    then show ?thesis using l by (cases "unat b = 255") auto
  qed
  show "b + 1 \<noteq> 0 \<Longrightarrow> unat (b + 1) = unat b + 1"
  proof -
    assume "b + 1 \<noteq> 0"
    then have "(unat b + 1) mod 256 \<noteq> 0" using s unsigned_eq_0_iff [of "b + 1"] by metis
    then have "unat b \<noteq> 255" by auto
    then show ?thesis using s l by simp
  qed
qed

lemma ip_val_rev_Cons: "ip_val (rev (c # cs)) = ip_val (rev cs) * 256 + unat c"
  by (simp add: ip_bits_def bits_val_append unat_byte_bits)

lemma inc_carry_val:
  "ip_val (rev bs) + 1 < 2 ^ (8 * length bs) \<Longrightarrow> ip_val (rev (inc_carry bs)) = ip_val (rev bs) + 1"
proof (induction bs)
  case Nil
  then show ?case by simp
next
  case (Cons b bs)
  show ?case
  proof (cases "b + 1 = 0")
    case True
    have p: "(2::nat) ^ (8 * length (b # bs)) = 2 ^ (8 * length bs) * 256" by (simp add: power_add)
    have "ip_val (rev bs) * 256 + 255 + 1 < 2 ^ (8 * length bs) * 256"
      using Cons.prems byte_inc(1) [OF True] unfolding ip_val_rev_Cons p by simp
    then have "ip_val (rev bs) + 1 < 2 ^ (8 * length bs)" by linarith
    then have "ip_val (rev (inc_carry bs)) = ip_val (rev bs) + 1" by (rule Cons.IH)
    moreover have "inc_carry (b # bs) = (b + 1) # inc_carry bs" using True by simp
    ultimately show ?thesis using True byte_inc(1) [OF True] ip_val_rev_Cons by simp
  next
    case False
    then have "inc_carry (b # bs) = (b + 1) # bs" by simp
    then show ?thesis using byte_inc(2) [OF False] ip_val_rev_Cons by simp
  qed
qed

lemma length_inc_carry [simp]: "length (inc_carry bs) = length bs"
  by (induction bs rule: inc_carry.induct) auto

lemma FirstIP_val:
  assumes "net_pfx n bs" "length bs \<le> 31"
  shows "\<exists>g. FirstIP n = Inr \<lparr>net_ip = g, net_mask = net_mask n\<rparr> \<and> length g = 4 \<and>
    ip_val g = ip_val (net_ip n) + 1 \<and> contains n g"
proof -
  note d = net_pfxD [OF assms(1)]
  let ?g = "rev (inc_carry (rev (net_ip n)))"
  have two: "2 \<le> (2::nat) ^ (32 - length bs)"
    using power_increasing [of 1 "32 - length bs" "2::nat"] assms(2) by simp
  have lt: "ip_val (net_ip n) + 1 < 2 ^ 32" using net_val_bound [OF assms(1)] two by linarith
  then have v: "ip_val ?g = ip_val (net_ip n) + 1" using inc_carry_val [of "rev (net_ip n)"] d(2) by simp
  have l: "length ?g = 4" using d(2) by simp
  have "ip_val ?g = bits_val bs * 2 ^ (32 - length bs) + 1"
    unfolding v d(3) by (simp add: bits_val_append)
  then have "ip_val ?g div 2 ^ (32 - length bs) = bits_val bs" using two by (metis mult_add_div less_le_trans one_less_numeral_iff semiring_norm(76))
  moreover have "ip_val ?g div 2 ^ (32 - length bs) = bits_val (take (length bs) (ip_bits ?g))"
    using bits_val_div [of "length bs" "ip_bits ?g"] d(1) l by simp
  ultimately have "take (length bs) (ip_bits ?g) = bs"
    using bits_val_inject [of "take (length bs) (ip_bits ?g)" bs] d(1) l by simp
  then have "contains n ?g" unfolding contains_prefix [OF assms(1) l] by (metis take_is_prefix)
  then show ?thesis using v l mask_ip_own [OF assms(1)] by (simp add: FirstIP_def)
qed

subsection \<open>Properties\<close>

text \<open>
  The bridge address never collides with a pod: for every tenant subnet \<open>FirstIP\<close> succeeds and gives
  the network address plus one with the mask of the subnet, which is inside the subnet and is none of the
  addresses the address manager can hand out; neither is the address \<open>HostIP\<close> of the VXLAN endpoint.
\<close>

theorem device_addresses_not_pod_addresses:
  assumes "ipam_inv s n bs"
  shows "\<exists>g. FirstIP n = Inr \<lparr>net_ip = g, net_mask = net_mask n\<rparr> \<and> contains n g \<and>
    ip_val g = ip_val (net_ip n) + 1 \<and> g \<notin> pod_pool s \<and> net_ip (HostIP n) = net_ip n \<and> net_ip n \<notin> pod_pool s"
proof -
  note d = ipam_invD [OF assms]
  have p: "net_pfx n bs" "length bs \<le> 30" using d(2) by (auto simp: pod_net_def)
  obtain g where g: "FirstIP n = Inr \<lparr>net_ip = g, net_mask = net_mask n\<rparr>" "ip_val g = ip_val (net_ip n) + 1" "contains n g"
    using FirstIP_val [OF p(1)] p(2) by auto
  have "a \<notin> pod_pool s" if "ip_val a \<le> ip_val (net_ip n) + 1" for a
    using that pod_pool_iff [OF assms, of a] indexToIP_val(2) [OF d(2)] by auto
  then show ?thesis using g mask_ip_own [OF p(1)] by (auto simp: HostIP_def)
qed

definition demo_dev_net :: ipnet where
  "demo_dev_net = \<lparr>net_ip = [10, 0, 0, 8], net_mask = cidr_mask 29 32\<rparr>"

theorem device_addresses_not_pod_addresses_witness:
  "\<exists>s g. ipam_inv s demo_dev_net (take 29 (ip_bits [10, 0, 0, 8])) \<and>
     FirstIP demo_dev_net = Inr \<lparr>net_ip = g, net_mask = net_mask demo_dev_net\<rparr> \<and> g \<notin> pod_pool s"
proof -
  have "pod_net demo_dev_net (take 29 (ip_bits [10, 0, 0, 8]))" by code_simp
  then obtain s where "ipam_inv s demo_dev_net (take 29 (ip_bits [10, 0, 0, 8]))" using NewBitmapIPAM_inv by blast
  then show ?thesis using device_addresses_not_pod_addresses by blast
qed

text \<open>
  Device names and identifiers: with a hash of at least 20 bytes the bridge and the VXLAN name of
  a tenant are at most 15 characters, start with their prefix and share the same nine-character
  suffix; the VNI is between 1 and the largest 24-bit number; and the MAC address has six bytes with the
  local bit set and the multicast bit clear.
\<close>

theorem device_identifiers:
  assumes "\<And>x. 20 \<le> length (sha1 x)"
  shows "(\<exists>sfx. length sfx = 9 \<and> GenerateDeviceName sha1 BrPrefix tid = Inr (BrPrefix @ sfx) \<and>
      GenerateDeviceName sha1 VxlanPrefix tid = Inr (VxlanPrefix @ sfx) \<and>
      length (BrPrefix @ sfx) \<le> MaxDeviceNameLength \<and> length (VxlanPrefix @ sfx) \<le> MaxDeviceNameLength) \<and>
    1 \<le> VNI sha256 tid \<and> VNI sha256 tid \<le> MaxVNI \<and>
    length (VtepMAC sha1 tid node) = 6 \<and> bit (VtepMAC sha1 tid node ! 0) 1 \<and> \<not> bit (VtepMAC sha1 tid node ! 0) 0"
proof (intro conjI)
  let ?sfx = "take 9 (hex_encode (sha1 (str_bytes tid)))"
  have "length ?sfx = 9" using assms [of "str_bytes tid"] by simp
  moreover have "length BrPrefix = 3" "length VxlanPrefix = 6" by (simp_all add: BrPrefix_def VxlanPrefix_def)
  ultimately show "\<exists>sfx. length sfx = 9 \<and> GenerateDeviceName sha1 BrPrefix tid = Inr (BrPrefix @ sfx) \<and>
      GenerateDeviceName sha1 VxlanPrefix tid = Inr (VxlanPrefix @ sfx) \<and>
      length (BrPrefix @ sfx) \<le> MaxDeviceNameLength \<and> length (VxlanPrefix @ sfx) \<le> MaxDeviceNameLength"
    by (intro exI [of _ ?sfx]) (simp add: GenerateDeviceName_eq MaxDeviceNameLength_def)
  let ?v = "get_uint32 (take 4 (sha256 (str_bytes tid))) AND 0xFFFFFF"
  have le: "uint ?v \<le> 16777215" using word_and_le1 [of "get_uint32 (take 4 (sha256 (str_bytes tid)))" "0xFFFFFF"]
    by (simp add: word_le_def)
  have "uint ?v \<noteq> 0" if "?v \<noteq> 0" using that by (simp add: unsigned_eq_0_iff del: uint_0_iff)
  moreover have "0 \<le> uint ?v" by simp
  ultimately have "1 \<le> uint ?v" if "?v \<noteq> 0" using that by linarith
  then show "1 \<le> VNI sha256 tid" by (simp add: VNI_def Let_def)
  show "VNI sha256 tid \<le> MaxVNI" using le by (simp add: VNI_def Let_def MaxVNI_def)
  let ?m = "take 6 (sha1 (str_bytes (tid @ ''|'' @ node)))"
  have l: "length ?m = 6" using assms [of "str_bytes (tid @ ''|'' @ node)"] by simp
  have f: "VtepMAC sha1 tid node ! 0 = (?m ! 0 AND 0xFE) OR 0x02"
    unfolding VtepMAC_def Let_def using l by (simp only: nth_list_update_eq)
  have b: "bit (2 :: byte) 1" "\<not> bit (2 :: byte) 0" "\<not> bit (0xFE :: byte) 0" by code_simp+
  show "length (VtepMAC sha1 tid node) = 6" using l by (simp add: VtepMAC_def Let_def)
  show "bit (VtepMAC sha1 tid node ! 0) 1" "\<not> bit (VtepMAC sha1 tid node ! 0) 0"
    unfolding f bit_or_iff bit_and_iff using b by blast+
qed

theorem device_identifiers_witness:
  "(\<forall>x. 20 \<le> length ((\<lambda>x. replicate 20 (word_of_nat (length x))) x :: byte list)) \<and>
   1 \<le> VNI (\<lambda>x. replicate 32 0) ''t'' \<and> VNI (\<lambda>x. replicate 32 0) ''t'' \<le> MaxVNI \<and>
   length (VtepMAC (\<lambda>x. replicate 20 (word_of_nat (length x))) ''t'' ''n'') = 6"
  using device_identifiers [of "\<lambda>x. replicate 20 (word_of_nat (length x))" "''t''" "\<lambda>x. replicate 32 0" "''n''"] by simp

end
