(* ===== verification/Peer_Tables.thy ===== *)
theory Peer_Tables
  imports Kernel
begin

text \<open>
  The managers of the three kernel tables a VXLAN peer needs: neighbours (\<open>pkg/network/arp/netlinkarp\<close>),
  the forwarding database (\<open>pkg/network/fdb/netlinkfdb\<close>) and routes (\<open>pkg/network/route/netlinkroute\<close>).
\<close>

datatype table_error =
    InvalidEntry
  | TableNetlink nl_error
  | NoExistingEntry hwaddr
  | InvalidRoute
  | InvalidNetns
  | TooManyNetns

definition FAMILY_V4 :: int where "FAMILY_V4 = 2"
definition FAMILY_V6 :: int where "FAMILY_V6 = 10"
definition AF_UNSPEC :: int where "AF_UNSPEC = 0"
definition AF_BRIDGE :: int where "AF_BRIDGE = 7"
definition NUD_PERMANENT :: int where "NUD_PERMANENT = 128"
definition RTN_UNICAST :: int where "RTN_UNICAST = 1"
definition NTF_SELF :: int where "NTF_SELF = 2"
definition RT_TABLE_MAIN :: int where "RT_TABLE_MAIN = 254"
definition RTNH_F_ONLINK :: int where "RTNH_F_ONLINK = 4"

subsection \<open>netarp.go\<close>

record ARPEntry =
  ae_Device :: string
  ae_IP :: ip
  ae_MAC :: hwaddr

definition pickFamily :: "ip \<Rightarrow> int" where
  "pickFamily a =
     (if length a = 0 then AF_UNSPEC
      else if to4 a \<noteq> [] then FAMILY_V4
      else if to16 a \<noteq> [] then FAMILY_V6
      else AF_UNSPEC)"

definition arp_neigh :: "link \<Rightarrow> ARPEntry \<Rightarrow> neigh" where
  "arp_neigh l ae = \<lparr>ne_LinkIndex = lk_Index l, ne_Family = pickFamily (ae_IP ae), ne_State = NUD_PERMANENT,
     ne_Type = RTN_UNICAST, ne_Flags = 0, ne_IP = ae_IP ae, ne_HardwareAddr = ae_MAC ae\<rparr>"

definition arp_Add :: "'k netlink \<Rightarrow> ARPEntry \<Rightarrow> ('k, table_error, unit) prog" where
  "arp_Add nl ae =
     p_bind (p_guard (ae_Device ae = [] \<or> ae_IP ae = [] \<or> ae_MAC ae = []) InvalidEntry) (\<lambda>_.
     p_bind (p_read TableNetlink (LinkByName nl (ae_Device ae))) (\<lambda>l.
     p_do TableNetlink (NeighSet nl (arp_neigh l ae))))"

definition arp_Update :: "'k netlink \<Rightarrow> ARPEntry \<Rightarrow> ('k, table_error, unit) prog" where
  "arp_Update nl ae =
     p_bind (p_guard (ae_Device ae = [] \<or> ae_IP ae = [] \<or> ae_MAC ae = []) InvalidEntry) (\<lambda>_.
     p_bind (p_read TableNetlink (LinkByName nl (ae_Device ae))) (\<lambda>l.
     p_do TableNetlink (NeighSet nl (arp_neigh l ae))))"

text \<open>A call for which one error number counts as success.\<close>

definition p_do_unless :: "int \<Rightarrow> ('k \<Rightarrow> nl_error option \<times> 'k) \<Rightarrow> ('k, table_error, unit) prog" where
  "p_do_unless no f k = (case f k of
     (Some x, k') \<Rightarrow> if err_is x no then (Inr (), k') else (Inl (TableNetlink x), k') | (None, k') \<Rightarrow> (Inr (), k'))"

definition arp_Delete :: "'k netlink \<Rightarrow> ARPEntry \<Rightarrow> ('k, table_error, unit) prog" where
  "arp_Delete nl ae =
     p_bind (p_guard (ae_Device ae = [] \<or> ae_IP ae = []) InvalidEntry) (\<lambda>_.
     p_bind (p_read TableNetlink (LinkByName nl (ae_Device ae))) (\<lambda>l.
     p_do_unless ENOENT (NeighDel nl
       (if ae_MAC ae \<noteq> [] then arp_neigh l ae
        else (arp_neigh l ae)\<lparr>ne_State := 0, ne_Type := 0, ne_HardwareAddr := []\<rparr>))))"

subsection \<open>netfdb.go\<close>

record FDBEntry =
  fe_Device :: string
  fe_IP :: ip
  fe_Mac :: hwaddr

definition fdb_neigh :: "link \<Rightarrow> FDBEntry \<Rightarrow> neigh" where
  "fdb_neigh l fe = \<lparr>ne_LinkIndex = lk_Index l, ne_Family = AF_BRIDGE, ne_State = NUD_PERMANENT, ne_Type = 0,
     ne_Flags = NTF_SELF, ne_IP = fe_IP fe, ne_HardwareAddr = fe_Mac fe\<rparr>"

definition fdb_Add :: "'k netlink \<Rightarrow> FDBEntry \<Rightarrow> ('k, table_error, unit) prog" where
  "fdb_Add nl fe =
     p_bind (p_read TableNetlink (LinkByName nl (fe_Device fe))) (\<lambda>l.
     p_do TableNetlink (NeighSet nl (fdb_neigh l fe)))"

text \<open>The string form of a MAC address determines its bytes, so the comparison is on the bytes.\<close>

definition fdb_Update :: "'k netlink \<Rightarrow> FDBEntry \<Rightarrow> ('k, table_error, unit) prog" where
  "fdb_Update nl fe =
     p_bind (p_read TableNetlink (LinkByName nl (fe_Device fe))) (\<lambda>l.
     p_bind (p_read TableNetlink (NeighList nl (lk_Index l) AF_BRIDGE)) (\<lambda>neighs.
     case find (\<lambda>n. ne_HardwareAddr n = fe_Mac fe) neighs of
       None \<Rightarrow> p_fail (NoExistingEntry (fe_Mac fe))
     | Some existing \<Rightarrow> p_do TableNetlink (NeighSet nl (existing\<lparr>ne_IP := fe_IP fe\<rparr>))))"

definition fdb_Delete :: "'k netlink \<Rightarrow> FDBEntry \<Rightarrow> ('k, table_error, unit) prog" where
  "fdb_Delete nl fe =
     p_bind (p_read TableNetlink (LinkByName nl (fe_Device fe))) (\<lambda>l.
     p_do_unless ENOENT (NeighDel nl (fdb_neigh l fe)))"

subsection \<open>netroute.go\<close>

record Route =
  ro_Dst :: "ipnet option"
  ro_Device :: string
  ro_Gateway :: ip

definition is_unspecified :: "ip \<Rightarrow> bool" where
  "is_unspecified a = (ip_equal a [0, 0, 0, 0] \<or> a = replicate 16 0)"

definition buildRoute :: "Route \<Rightarrow> int \<Rightarrow> nl_route" where
  "buildRoute r linkIndex =
     \<lparr>rt_LinkIndex = linkIndex, rt_Dst = ro_Dst r, rt_Gw = ro_Gateway r, rt_Table = RT_TABLE_MAIN, rt_Priority = 0,
      rt_Flags = RTNH_F_ONLINK,
      rt_Scope = (if ro_Gateway r \<noteq> [] \<and> \<not> is_unspecified (ro_Gateway r) then SCOPE_UNIVERSE else SCOPE_LINK)\<rparr>"

text \<open>With one namespace the code enters it and runs an empty function instead of the operation.\<close>

definition route_do :: "'k netlink \<Rightarrow> string option list \<Rightarrow> ('k, table_error, unit) prog \<Rightarrow> ('k, table_error, unit) prog" where
  "route_do nl inNS op' =
     (case inNS of
        [] \<Rightarrow> op'
      | [n] \<Rightarrow> (case n of None \<Rightarrow> p_fail InvalidNetns | Some path \<Rightarrow> in_ns nl path TableNetlink (p_ret ()))
      | _ \<Rightarrow> p_fail TooManyNetns)"

definition route_Ensure :: "'k netlink \<Rightarrow> Route option \<Rightarrow> string option list \<Rightarrow> ('k, table_error, unit) prog" where
  "route_Ensure nl route inNS = route_do nl inNS
     (case route of
        None \<Rightarrow> p_fail InvalidRoute
      | Some r \<Rightarrow>
          p_bind (p_guard (ro_Dst r = None) InvalidRoute) (\<lambda>_.
          p_bind (p_guard (ro_Device r = []) InvalidRoute) (\<lambda>_.
          p_bind (p_read TableNetlink (LinkByName nl (ro_Device r))) (\<lambda>l.
          p_do TableNetlink (RouteAdd nl (buildRoute r (lk_Index l)))))))"

definition route_Update :: "'k netlink \<Rightarrow> Route option \<Rightarrow> string option list \<Rightarrow> ('k, table_error, unit) prog" where
  "route_Update nl route inNS = route_do nl inNS
     (case route of
        None \<Rightarrow> p_fail InvalidRoute
      | Some r \<Rightarrow>
          p_bind (p_guard (ro_Dst r = None) InvalidRoute) (\<lambda>_.
          p_bind (p_guard (ro_Device r = []) InvalidRoute) (\<lambda>_.
          p_bind (p_read TableNetlink (LinkByName nl (ro_Device r))) (\<lambda>l.
          p_bind (p_read TableNetlink (RouteListFiltered nl (lk_Index l) (the (ro_Dst r)))) (\<lambda>old.
          p_bind (p_each (\<lambda>o'. p_do TableNetlink (RouteDel nl o')) old) (\<lambda>_.
          p_do_unless EEXIST (RouteAdd nl (buildRoute r (lk_Index l)))))))))"

text \<open>\<open>Delete\<close> dereferences its argument before any check: a nil route panics, so it is not optional here.\<close>

definition route_Delete :: "'k netlink \<Rightarrow> Route \<Rightarrow> string option list \<Rightarrow> ('k, table_error, unit) prog" where
  "route_Delete nl r inNS = route_do nl inNS
     (p_bind (p_guard (ro_Dst r = None) InvalidRoute) (\<lambda>_.
      p_bind (p_guard (ro_Device r = []) InvalidRoute) (\<lambda>_.
      p_bind (p_read TableNetlink (LinkByName nl (ro_Device r))) (\<lambda>l.
      p_do_unless ESRCH (RouteDel nl (buildRoute r (lk_Index l)))))))"

end
