(* ===== verification/Tenant_Policy.thy ===== *)
theory Tenant_Policy
  imports Kernel
begin

text \<open>
  Tenant isolation with iptables: \<open>pkg/network/policy/tenant/policy.go\<close>. The iptables handle is the
  interface \<open>NetlinkTenantPolicyHandle\<close>, a record of functions over the kernel state.
\<close>

datatype policy_error =
    EmptyTenant
  | EmptyClusterCIDR
  | TableChainRequired
  | ChainNameRequired
  | IPTables nl_error

record 'k iptables =
  NewChain :: "string \<Rightarrow> string \<Rightarrow> 'k \<Rightarrow> nl_error option \<times> 'k"
  ClearChain :: "string \<Rightarrow> string \<Rightarrow> 'k \<Rightarrow> nl_error option \<times> 'k"
  DeleteChain :: "string \<Rightarrow> string \<Rightarrow> 'k \<Rightarrow> nl_error option \<times> 'k"
  AppendUnique :: "string \<Rightarrow> string \<Rightarrow> string list \<Rightarrow> 'k \<Rightarrow> nl_error option \<times> 'k"
  InsertUnique :: "string \<Rightarrow> string \<Rightarrow> int \<Rightarrow> string list \<Rightarrow> 'k \<Rightarrow> nl_error option \<times> 'k"
  DeleteSpec :: "string \<Rightarrow> string \<Rightarrow> string list \<Rightarrow> 'k \<Rightarrow> nl_error option \<times> 'k"
  ListRules :: "string \<Rightarrow> string \<Rightarrow> 'k \<Rightarrow> nl_error + string list"

definition privateAnchorChain :: string where "privateAnchorChain = ''SETERA-PRIV-FORWARD''"
definition privateAnchorComment :: string where "privateAnchorComment = ''setera:private-anchor''"
definition maxChainLen :: nat where "maxChainLen = 29"

subsection \<open>Chain names\<close>

definition chain_char :: "char \<Rightarrow> bool" where
  "chain_char c = (let n = of_char c :: nat in
     (97 \<le> n \<and> n \<le> 122) \<or> (65 \<le> n \<and> n \<le> 90) \<or> (48 \<le> n \<and> n \<le> 57) \<or> c = CHR ''-'' \<or> c = CHR ''_'')"

definition trim_suffix :: "string \<Rightarrow> string \<Rightarrow> string" where
  "trim_suffix s sfx = (if suffix sfx s then take (length s - length sfx) s else s)"

text \<open>Kubernetes names are ASCII, so a rune is one byte and \<open>WriteRune\<close> writes it as it is.\<close>

definition chainName :: "string \<Rightarrow> string \<Rightarrow> string" where
  "chainName pre tenant =
     (if tenant = [] then trim_suffix pre ''-''
      else let name = map (\<lambda>r. if chain_char r then r else CHR ''-'') (pre @ tenant)
           in if length name > maxChainLen then take maxChainLen name else name)"

definition fwChain :: "string \<Rightarrow> string" where
  "fwChain tenant = chainName ''FW-'' tenant"

subsection \<open>Chains and rules\<close>

definition AddClusterMasquerade :: "'k iptables \<Rightarrow> string \<Rightarrow> ('k, policy_error, unit) prog" where
  "AddClusterMasquerade nl clusterCIDR =
     p_bind (p_guard (clusterCIDR = []) EmptyClusterCIDR) (\<lambda>_.
     p_do IPTables (AppendUnique nl ''nat'' ''POSTROUTING''
       [''-s'', clusterCIDR, ''!'', ''-d'', clusterCIDR, ''-j'', ''MASQUERADE'']))"

definition EnsureTenantChains :: "'k iptables \<Rightarrow> string \<Rightarrow> ('k, policy_error, unit) prog" where
  "EnsureTenantChains nl tenant =
     p_bind (p_guard (tenant = []) EmptyTenant) (\<lambda>_.
     p_bind (p_try (p_do IPTables (NewChain nl ''filter'' (fwChain tenant)))) (\<lambda>_.
     p_do IPTables (ClearChain nl ''filter'' (fwChain tenant))))"

definition isChainExistsErr :: "nl_error \<Rightarrow> bool" where
  "isChainExistsErr e = str_contains (err_msg e) ''Chain already exists''"

definition ensureChainExists :: "'k iptables \<Rightarrow> string \<Rightarrow> ('k, policy_error, unit) prog" where
  "ensureChainExists nl chain =
     p_bind (p_guard (chain = []) ChainNameRequired) (\<lambda>_.
     (\<lambda>k. case NewChain nl ''filter'' chain k of
            (Some x, k') \<Rightarrow> if isChainExistsErr x then (Inr (), k') else (Inl (IPTables x), k')
          | (None, k') \<Rightarrow> (Inr (), k')))"

text \<open>The loop over the listed rules: the last rule of the default tenant and the first rule of kube-proxy.\<close>

fun scan_rules :: "nat \<Rightarrow> string list \<Rightarrow> nat \<Rightarrow> nat \<Rightarrow> nat \<times> nat" where
  "scan_rules idx [] lastDefault firstKube = (lastDefault, firstKube)"
| "scan_rules idx (rule # rules) lastDefault firstKube =
     (if str_contains rule ''default-tenant-'' then scan_rules (Suc idx) rules (idx + 1) firstKube
      else if firstKube = 0 \<and> (str_contains rule ''KUBE-'' \<or> str_contains rule ''kubernetes '')
      then scan_rules (Suc idx) rules lastDefault (idx + 1)
      else scan_rules (Suc idx) rules lastDefault firstKube)"

definition afterDefaultBlockPosition :: "'k iptables \<Rightarrow> ('k, policy_error, int) prog" where
  "afterDefaultBlockPosition nl =
     p_bind (p_read IPTables (ListRules nl ''filter'' ''FORWARD'')) (\<lambda>rules.
     case scan_rules 0 rules 0 0 of (lastDefault, firstKube) \<Rightarrow>
       p_ret (if firstKube > 0 then int firstKube else if lastDefault > 0 then int lastDefault + 1 else 1))"

definition anchor_spec :: "string list" where
  "anchor_spec = [''-m'', ''comment'', ''--comment'', privateAnchorComment, ''-j'', privateAnchorChain]"

definition ensurePrivateAnchor :: "'k iptables \<Rightarrow> ('k, policy_error, unit) prog" where
  "ensurePrivateAnchor nl =
     p_bind (ensureChainExists nl privateAnchorChain) (\<lambda>_.
     p_bind (p_try (p_do IPTables (DeleteSpec nl ''filter'' ''FORWARD'' anchor_spec))) (\<lambda>_.
     p_bind (afterDefaultBlockPosition nl) (\<lambda>pos.
     p_do IPTables (InsertUnique nl ''filter'' ''FORWARD'' pos anchor_spec))))"

definition ingress_spec :: "string \<Rightarrow> string \<Rightarrow> string \<Rightarrow> string list" where
  "ingress_spec tenant iface kind =
     [''-i'', iface, ''-m'', ''comment'', ''--comment'', ''tenant:'' @ tenant @ '':ingress:'' @ kind, ''-j'', fwChain tenant]"

definition egress_spec :: "string \<Rightarrow> string \<Rightarrow> string \<Rightarrow> string list" where
  "egress_spec tenant iface kind =
     [''-o'', iface, ''-m'', ''comment'', ''--comment'', ''tenant:'' @ tenant @ '':egress:'' @ kind, ''-j'', ''ACCEPT'']"

definition drop_spec :: "string \<Rightarrow> string list" where
  "drop_spec tenant = [''-m'', ''comment'', ''--comment'', ''tenant:'' @ tenant @ '':default-drop'', ''-j'', ''DROP'']"

definition append_if :: "'k iptables \<Rightarrow> string \<Rightarrow> string \<Rightarrow> string list \<Rightarrow> ('k, policy_error, unit) prog" where
  "append_if nl iface chain spec =
     (if iface = [] then p_ret () else p_do IPTables (AppendUnique nl ''filter'' chain spec))"

definition EnsureTenantIsolation ::
  "'k iptables \<Rightarrow> string \<Rightarrow> string \<Rightarrow> string \<Rightarrow> string list \<Rightarrow> ('k, policy_error, unit) prog" where
  "EnsureTenantIsolation nl tenant brIf vxIf extra =
     p_bind (EnsureTenantChains nl tenant) (\<lambda>_.
     p_bind (ensurePrivateAnchor nl) (\<lambda>_.
     p_bind (append_if nl vxIf privateAnchorChain (ingress_spec tenant vxIf ''vxlan'')) (\<lambda>_.
     p_bind (append_if nl brIf privateAnchorChain (ingress_spec tenant brIf ''bridge'')) (\<lambda>_.
     p_bind (append_if nl brIf (fwChain tenant) (egress_spec tenant brIf ''bridge'')) (\<lambda>_.
     p_bind (append_if nl vxIf (fwChain tenant) (egress_spec tenant vxIf ''vxlan'')) (\<lambda>_.
     p_bind (p_each (\<lambda>ifc. append_if nl ifc (fwChain tenant) [''-o'', ifc, ''-j'', ''ACCEPT'']) extra) (\<lambda>_.
     p_do IPTables (AppendUnique nl ''filter'' (fwChain tenant) (drop_spec tenant)))))))))"

definition insertTop :: "'k iptables \<Rightarrow> string \<Rightarrow> string list \<Rightarrow> ('k, policy_error, unit) prog" where
  "insertTop nl comment spec =
     p_do IPTables (InsertUnique nl ''filter'' ''FORWARD'' 1
       (if comment \<noteq> [] then [''-m'', ''comment'', ''--comment'', comment] @ spec else spec))"

definition insert_if :: "'k iptables \<Rightarrow> string \<Rightarrow> string \<Rightarrow> string list \<Rightarrow> ('k, policy_error, unit) prog" where
  "insert_if nl iface comment spec = (if iface = [] then p_ret () else insertTop nl comment spec)"

definition EnsureDefaultTenant :: "'k iptables \<Rightarrow> string \<Rightarrow> string \<Rightarrow> ('k, policy_error, unit) prog" where
  "EnsureDefaultTenant nl brDefault vxDefault =
     p_bind (insert_if nl vxDefault ''default-tenant-egress:vxlan'' [''-o'', vxDefault, ''-j'', ''ACCEPT'']) (\<lambda>_.
     p_bind (insert_if nl brDefault ''default-tenant-egress:bridge'' [''-o'', brDefault, ''-j'', ''ACCEPT'']) (\<lambda>_.
     p_bind (insert_if nl vxDefault ''default-tenant-ingress:vxlan'' [''-i'', vxDefault, ''-j'', ''ACCEPT'']) (\<lambda>_.
     p_bind (insert_if nl brDefault ''default-tenant-ingress:bridge'' [''-i'', brDefault, ''-j'', ''ACCEPT'']) (\<lambda>_.
     ensurePrivateAnchor nl))))"

definition removeFromPrivateAnchor :: "'k iptables \<Rightarrow> string \<Rightarrow> string \<Rightarrow> string \<Rightarrow> ('k, policy_error, unit) prog" where
  "removeFromPrivateAnchor nl tenant iface kind =
     (if iface = [] then p_ret ()
      else p_do IPTables (DeleteSpec nl ''filter'' privateAnchorChain (ingress_spec tenant iface kind)))"

definition DeleteTenantChains :: "'k iptables \<Rightarrow> string \<Rightarrow> string \<Rightarrow> string \<Rightarrow> ('k, policy_error, unit) prog" where
  "DeleteTenantChains nl tenant brIf vxIf =
     p_bind (p_guard (tenant = []) EmptyTenant) (\<lambda>_.
     p_bind (removeFromPrivateAnchor nl tenant brIf ''bridge'') (\<lambda>_.
     p_bind (removeFromPrivateAnchor nl tenant vxIf ''vxlan'') (\<lambda>_.
     p_bind (p_do IPTables (ClearChain nl ''filter'' (fwChain tenant))) (\<lambda>_.
     p_do IPTables (DeleteChain nl ''filter'' (fwChain tenant))))))"

definition DeleteRule :: "'k iptables \<Rightarrow> string \<Rightarrow> string \<Rightarrow> string list \<Rightarrow> ('k, policy_error, unit) prog" where
  "DeleteRule nl table chain spec =
     p_bind (p_guard (table = [] \<or> chain = []) TableChainRequired) (\<lambda>_.
     p_do IPTables (DeleteSpec nl table chain spec))"

subsection \<open>What the rules mean\<close>

text \<open>
  The specification side: a rule is a list of arguments; \<open>-i\<close> and \<open>-o\<close> must match the interfaces of
  the packet, comments match everything, \<open>-j\<close> names the target; a chain gives the target of its first matching
  rule.
\<close>

fun rule_target :: "string list \<Rightarrow> string \<Rightarrow> string \<Rightarrow> string option" where
  "rule_target (a # b # rest) i out =
     (if a = ''-i'' then (if b = i then rule_target rest i out else None)
      else if a = ''-o'' then (if b = out then rule_target rest i out else None)
      else if a = ''-j'' then Some b
      else rule_target rest i out)"
| "rule_target _ i out = None"

fun chain_verdict :: "string list list \<Rightarrow> string \<Rightarrow> string \<Rightarrow> string option" where
  "chain_verdict [] i out = None"
| "chain_verdict (r # rs) i out = (case rule_target r i out of Some t \<Rightarrow> Some t | None \<Rightarrow> chain_verdict rs i out)"

definition add_unique :: "'a \<Rightarrow> 'a list \<Rightarrow> 'a list" where
  "add_unique x xs = (if x \<in> set xs then xs else xs @ [x])"

text \<open>
  What is used of \<open>go-iptables\<close>, over an observation \<open>rules\<close> of the rule list of a chain, empty for a
  chain that does not exist: \<open>NewChain\<close> changes no rules, a successful \<open>ClearChain\<close> empties the chain, a
  successful \<open>AppendUnique\<close> appends the rule unless it is there, and \<open>InsertUnique\<close> and \<open>Delete\<close> touch only the
  chain they name.
\<close>

definition iptables_laws :: "'k iptables \<Rightarrow> ('k \<Rightarrow> string \<times> string \<Rightarrow> string list list) \<Rightarrow> bool" where
  "iptables_laws nl rules \<longleftrightarrow>
     (\<forall>t c k. rules (snd (NewChain nl t c k)) = rules k) \<and>
     (\<forall>t c k k'. ClearChain nl t c k = (None, k') \<longrightarrow> rules k' = (rules k)((t, c) := [])) \<and>
     (\<forall>t c s k k'. AppendUnique nl t c s k = (None, k') \<longrightarrow>
        rules k' = (rules k)((t, c) := add_unique s (rules k (t, c)))) \<and>
     (\<forall>t c p s k tc. tc \<noteq> (t, c) \<longrightarrow> rules (snd (InsertUnique nl t c p s k)) tc = rules k tc) \<and>
     (\<forall>t c s k tc. tc \<noteq> (t, c) \<longrightarrow> rules (snd (DeleteSpec nl t c s k)) tc = rules k tc)"

lemma iptables_lawsD:
  assumes "iptables_laws nl rules"
  shows "rules (snd (NewChain nl t c k)) = rules k"
    and "ClearChain nl t c k = (None, k') \<Longrightarrow> rules k' = (rules k)((t, c) := [])"
    and "AppendUnique nl t c s k = (None, k') \<Longrightarrow> rules k' = (rules k)((t, c) := add_unique s (rules k (t, c)))"
    and "tc \<noteq> (t, c) \<Longrightarrow> rules (snd (InsertUnique nl t c p s k)) tc = rules k tc"
    and "tc \<noteq> (t, c) \<Longrightarrow> rules (snd (DeleteSpec nl t c s k)) tc = rules k tc"
proof -
  note l = assms [unfolded iptables_laws_def]
  show "rules (snd (NewChain nl t c k)) = rules k" using l [THEN conjunct1] by simp
  show "ClearChain nl t c k = (None, k') \<Longrightarrow> rules k' = (rules k)((t, c) := [])"
    using l [THEN conjunct2, THEN conjunct1] by simp
  show "AppendUnique nl t c s k = (None, k') \<Longrightarrow> rules k' = (rules k)((t, c) := add_unique s (rules k (t, c)))"
    using l [THEN conjunct2, THEN conjunct2, THEN conjunct1] by simp
  show "tc \<noteq> (t, c) \<Longrightarrow> rules (snd (InsertUnique nl t c p s k)) tc = rules k tc"
    using l [THEN conjunct2, THEN conjunct2, THEN conjunct2, THEN conjunct1] by blast
  show "tc \<noteq> (t, c) \<Longrightarrow> rules (snd (DeleteSpec nl t c s k)) tc = rules k tc"
    using l [THEN conjunct2, THEN conjunct2, THEN conjunct2, THEN conjunct2] by blast
qed

lemma fwChain_prefix: "prefix ''FW-'' (fwChain t) \<or> fwChain t = ''FW''"
proof (cases "t = []")
  case True
  then show ?thesis by (simp add: fwChain_def chainName_def trim_suffix_def suffix_def)
next
  case False
  have c: "map (\<lambda>r. if chain_char r then r else CHR ''-'') ''FW-'' = ''FW-''" by code_simp
  have "take 3 (fwChain t) = ''FW-''"
    using False unfolding fwChain_def chainName_def Let_def map_append c by (simp add: maxChainLen_def)
  then show ?thesis by (metis take_is_prefix)
qed

lemma fwChain_neq [simp]: "fwChain t \<noteq> privateAnchorChain" "fwChain t \<noteq> ''FORWARD''"
    "privateAnchorChain \<noteq> fwChain t" "''FORWARD'' \<noteq> fwChain t"
  using fwChain_prefix [of t] by (auto simp: privateAnchorChain_def prefix_def)

lemma anchor_neq [simp]: "privateAnchorChain \<noteq> ''FORWARD''" "''FORWARD'' \<noteq> privateAnchorChain"
  by (auto simp: privateAnchorChain_def)

lemma EnsureTenantChains_rules:
  assumes "iptables_laws nl rules" "EnsureTenantChains nl t k = (Inr (), k')"
  shows "rules k' = (rules k)((''filter'', fwChain t) := [])"
  using assms(2) iptables_lawsD(1,2) [OF assms(1)]
  by (auto simp: EnsureTenantChains_def prog_ok p_do_def split: prod.splits option.splits)
     (metis snd_conv)+

lemma ensurePrivateAnchor_rules:
  assumes "iptables_laws nl rules" "ensurePrivateAnchor nl k = (Inr (), k')" "tc \<noteq> (''filter'', ''FORWARD'')"
  shows "rules k' tc = rules k tc"
proof -
  obtain k1 k2 k3 pos where
    1: "ensureChainExists nl privateAnchorChain k = (Inr (), k1)" and
    2: "k2 = snd (p_do IPTables (DeleteSpec nl ''filter'' ''FORWARD'' anchor_spec) k1)" and
    3: "afterDefaultBlockPosition nl k2 = (Inr pos, k3)" and
    4: "InsertUnique nl ''filter'' ''FORWARD'' pos anchor_spec k3 = (None, k')"
    using assms(2) by (auto simp: ensurePrivateAnchor_def prog_ok)
  have "rules k1 tc = rules k tc"
    using 1 iptables_lawsD(1) [OF assms(1), of "''filter''" privateAnchorChain k]
    by (auto simp: ensureChainExists_def prog_ok split: prod.splits option.splits if_splits)
  moreover have "rules k2 tc = rules k1 tc"
    using 2 iptables_lawsD(5) [OF assms(1,3), of anchor_spec k1]
    by (auto simp: p_do_def split: prod.splits option.splits)
  moreover have "k3 = k2"
    using 3 by (auto simp: afterDefaultBlockPosition_def prog_ok case_prod_beta)
  moreover have "rules k' tc = rules k3 tc"
    using 4 iptables_lawsD(4) [OF assms(1,3), of pos anchor_spec k3] by (metis snd_conv)
  ultimately show ?thesis by simp
qed

lemma append_if_rules:
  assumes "iptables_laws nl rules" "append_if nl ifc c s k = (Inr (), k')"
  shows "rules k' = (if ifc = [] then rules k else (rules k)((''filter'', c) := add_unique s (rules k (''filter'', c))))"
  using assms(2) iptables_lawsD(3) [OF assms(1)] by (auto simp: append_if_def prog_ok split: if_splits)


lemma chain_verdict_append:
  "chain_verdict (xs @ ys) i out = (case chain_verdict xs i out of Some t \<Rightarrow> Some t | None \<Rightarrow> chain_verdict ys i out)"
  by (induction xs) (auto split: option.splits)

lemma chain_verdict_mem: "r \<in> set xs \<Longrightarrow> rule_target r i out \<noteq> None \<Longrightarrow> chain_verdict xs i out \<noteq> None"
  by (induction xs) (auto split: option.splits)

lemma chain_verdict_add_unique:
  "chain_verdict (add_unique r xs) i out = (case chain_verdict xs i out of Some t \<Rightarrow> Some t | None \<Rightarrow> rule_target r i out)"
  using chain_verdict_mem [of r xs i out]
  by (auto simp: add_unique_def chain_verdict_append split: option.splits)

lemma set_add_unique [simp]: "set (add_unique r xs) = insert r (set xs)"
  by (auto simp: add_unique_def)

lemma spec_targets [simp]:
  "rule_target (egress_spec t ifc kind) i out = (if ifc = out then Some ''ACCEPT'' else None)"
  "rule_target (ingress_spec t ifc kind) i out = (if ifc = i then Some (fwChain t) else None)"
  "rule_target [''-o'', ifc, ''-j'', ''ACCEPT''] i out = (if ifc = out then Some ''ACCEPT'' else None)"
  "rule_target (drop_spec t) i out = Some ''DROP''"
  by (simp_all add: egress_spec_def ingress_spec_def drop_spec_def)

lemma extras_verdict:
  assumes "iptables_laws nl rules"
    and "p_each (\<lambda>ifc. append_if nl ifc fw [''-o'', ifc, ''-j'', ''ACCEPT'']) extra k = (Inr (), k')"
  shows "chain_verdict (rules k' (''filter'', fw)) i out =
      (case chain_verdict (rules k (''filter'', fw)) i out of
         Some t \<Rightarrow> Some t | None \<Rightarrow> if out \<in> set extra \<and> out \<noteq> [] then Some ''ACCEPT'' else None) \<and>
    (\<forall>tc. tc \<noteq> (''filter'', fw) \<longrightarrow> rules k' tc = rules k tc)"
  using assms(2)
proof (induction extra arbitrary: k)
  case Nil
  then show ?case by (auto split: option.splits)
next
  case (Cons ifc extra)
  obtain k1 where a: "append_if nl ifc fw [''-o'', ifc, ''-j'', ''ACCEPT''] k = (Inr (), k1)"
    and r: "p_each (\<lambda>ifc. append_if nl ifc fw [''-o'', ifc, ''-j'', ''ACCEPT'']) extra k1 = (Inr (), k')"
    using Cons.prems by (auto split: prod.splits sum.splits)
  show ?case using Cons.IH [OF r] unfolding append_if_rules [OF assms(1) a]
    by (auto simp: chain_verdict_add_unique split: option.splits if_splits)
qed

text \<open>The whole of \<open>EnsureTenantIsolation\<close>: what every chain holds afterwards.\<close>

lemma EnsureTenantIsolation_rules:
  assumes laws: "iptables_laws nl rules" and run: "EnsureTenantIsolation nl t br vx extra k = (Inr (), k')"
  shows "chain_verdict (rules k' (''filter'', fwChain t)) i out =
      Some (if out \<noteq> [] \<and> out \<in> set (br # vx # extra) then ''ACCEPT'' else ''DROP'')"
    and "rules k' (''filter'', privateAnchorChain) =
      (if br = [] then id else add_unique (ingress_spec t br ''bridge''))
        ((if vx = [] then id else add_unique (ingress_spec t vx ''vxlan'')) (rules k (''filter'', privateAnchorChain)))"
    and "tc \<notin> {(''filter'', fwChain t), (''filter'', privateAnchorChain), (''filter'', ''FORWARD'')} \<Longrightarrow>
      rules k' tc = rules k tc"
proof -
  let ?fw = "(''filter'', fwChain t)" and ?an = "(''filter'', privateAnchorChain)"
  obtain k1 k2 k3 k4 k5 k6 k7 where
    1: "EnsureTenantChains nl t k = (Inr (), k1)" and
    2: "ensurePrivateAnchor nl k1 = (Inr (), k2)" and
    3: "append_if nl vx privateAnchorChain (ingress_spec t vx ''vxlan'') k2 = (Inr (), k3)" and
    4: "append_if nl br privateAnchorChain (ingress_spec t br ''bridge'') k3 = (Inr (), k4)" and
    5: "append_if nl br (fwChain t) (egress_spec t br ''bridge'') k4 = (Inr (), k5)" and
    6: "append_if nl vx (fwChain t) (egress_spec t vx ''vxlan'') k5 = (Inr (), k6)" and
    7: "p_each (\<lambda>ifc. append_if nl ifc (fwChain t) [''-o'', ifc, ''-j'', ''ACCEPT'']) extra k6 = (Inr (), k7)" and
    8: "AppendUnique nl ''filter'' (fwChain t) (drop_spec t) k7 = (None, k')"
    using run by (auto simp: EnsureTenantIsolation_def prog_ok)
  note r1 = EnsureTenantChains_rules [OF laws 1]
  note r2 = ensurePrivateAnchor_rules [OF laws 2]
  note r3 = append_if_rules [OF laws 3]
  note r4 = append_if_rules [OF laws 4]
  note r5 = append_if_rules [OF laws 5]
  note r6 = append_if_rules [OF laws 6]
  note r7 = extras_verdict [OF laws 7]
  note r8 = iptables_lawsD(3) [OF laws 8]
  have b2: "rules k2 ?fw = []" using r1 r2 [of ?fw] by simp
  have b4: "rules k4 ?fw = []" using b2 r3 r4 by simp
  have v6: "chain_verdict (rules k6 ?fw) i out =
      (if out \<noteq> [] \<and> (out = br \<or> out = vx) then Some ''ACCEPT'' else None)"
    unfolding r6 r5 using b4 by (auto simp: chain_verdict_add_unique)
  have "chain_verdict (rules k7 ?fw) i out =
      (if out \<noteq> [] \<and> out \<in> set (br # vx # extra) then Some ''ACCEPT'' else None)"
    using r7 [THEN conjunct1, of i out] v6 by auto
  then show "chain_verdict (rules k' ?fw) i out =
      Some (if out \<noteq> [] \<and> out \<in> set (br # vx # extra) then ''ACCEPT'' else ''DROP'')"
    unfolding r8 by (simp add: chain_verdict_add_unique)
  have other: "rules k' tc = rules k4 tc" if "tc \<noteq> ?fw" for tc
    using that r8 r7 [THEN conjunct2, rule_format, OF that] r6 r5 by simp
  show "rules k' ?an = (if br = [] then id else add_unique (ingress_spec t br ''bridge''))
        ((if vx = [] then id else add_unique (ingress_spec t vx ''vxlan'')) (rules k ?an))"
    using other [of ?an] r4 r3 r2 [of ?an] r1 by simp
  show "tc \<notin> {?fw, ?an, (''filter'', ''FORWARD'')} \<Longrightarrow> rules k' tc = rules k tc"
    using other [of tc] r4 r3 r2 [of tc] r1 by simp
qed

subsection \<open>Properties\<close>

text \<open>
  C3. Tenant isolation: when \<open>EnsureTenantIsolation\<close> succeeds, whatever the chain held before, a packet
  that reaches the chain of the tenant is accepted exactly when it leaves through the bridge or the VXLAN
  device of the tenant or a listed extra interface, and is dropped otherwise; packets that enter on
  the bridge or the VXLAN device have a jump to that chain in the private anchor chain, which keeps the rules it
  had; and no chain other than these two and FORWARD changes.
\<close>

theorem tenant_isolation:
  assumes "iptables_laws nl rules" "EnsureTenantIsolation nl t br vx extra k = (Inr (), k')"
  shows "(\<forall>i out. chain_verdict (rules k' (''filter'', fwChain t)) i out =
      Some (if out \<noteq> [] \<and> out \<in> set (br # vx # extra) then ''ACCEPT'' else ''DROP'')) \<and>
    (br \<noteq> [] \<longrightarrow> ingress_spec t br ''bridge'' \<in> set (rules k' (''filter'', privateAnchorChain))) \<and>
    (vx \<noteq> [] \<longrightarrow> ingress_spec t vx ''vxlan'' \<in> set (rules k' (''filter'', privateAnchorChain))) \<and>
    set (rules k (''filter'', privateAnchorChain)) \<subseteq> set (rules k' (''filter'', privateAnchorChain)) \<and>
    (\<forall>tc. tc \<notin> {(''filter'', fwChain t), (''filter'', privateAnchorChain), (''filter'', ''FORWARD'')} \<longrightarrow>
      rules k' tc = rules k tc)"
  using EnsureTenantIsolation_rules [OF assms] by auto

text \<open>
  The handle instantiated by a table of rule lists, for the witnesses; \<open>Delete\<close> removes the rule, a
  rule inserted is put in front, and listing gives the rules joined.
\<close>

type_synonym rule_table = "string \<times> string \<Rightarrow> string list list"

definition table_iptables :: "rule_table iptables" where
  "table_iptables =
     \<lparr>NewChain = (\<lambda>t c k. (None, k)),
      ClearChain = (\<lambda>t c k. (None, k((t, c) := []))),
      DeleteChain = (\<lambda>t c k. (None, k((t, c) := []))),
      AppendUnique = (\<lambda>t c s k. (None, k((t, c) := add_unique s (k (t, c))))),
      InsertUnique = (\<lambda>t c p s k. (None, if s \<in> set (k (t, c)) then k else k((t, c) := s # k (t, c)))),
      DeleteSpec = (\<lambda>t c s k. (None, k((t, c) := removeAll s (k (t, c))))),
      ListRules = (\<lambda>t c k. Inr (map concat (k (t, c))))\<rparr>"

lemma table_iptables_laws: "iptables_laws table_iptables (\<lambda>k. k)"
  by (auto simp: iptables_laws_def table_iptables_def)

lemma table_iptables_sel [simp]:
  "NewChain table_iptables t c k = (None, k)"
  "ClearChain table_iptables t c k = (None, k((t, c) := []))"
  "AppendUnique table_iptables t c s k = (None, k((t, c) := add_unique s (k (t, c))))"
  "InsertUnique table_iptables t c p s k = (None, if s \<in> set (k (t, c)) then k else k((t, c) := s # k (t, c)))"
  "DeleteSpec table_iptables t c s k = (None, k((t, c) := removeAll s (k (t, c))))"
  "ListRules table_iptables t c k = Inr (map concat (k (t, c)))"
  by (simp_all add: table_iptables_def)

lemma table_isolation_runs: "t \<noteq> [] \<Longrightarrow> \<exists>k'. EnsureTenantIsolation table_iptables t br vx [] k = (Inr (), k')"
  by (auto simp: EnsureTenantIsolation_def EnsureTenantChains_def ensurePrivateAnchor_def ensureChainExists_def
      afterDefaultBlockPosition_def append_if_def p_bind_def p_guard_def p_do_def p_try_def p_read_def p_ret_def
      case_prod_beta privateAnchorChain_def)

theorem tenant_isolation_witness:
  "\<exists>k'. EnsureTenantIsolation table_iptables ''blue'' ''br-b'' ''vxlan-b'' [] (\<lambda>_. []) = (Inr (), k') \<and>
     chain_verdict (k' (''filter'', fwChain ''blue'')) ''br-b'' ''vxlan-b'' = Some ''ACCEPT'' \<and>
     chain_verdict (k' (''filter'', fwChain ''blue'')) ''br-b'' ''br-r'' = Some ''DROP''"
proof -
  obtain k' where r: "EnsureTenantIsolation table_iptables ''blue'' ''br-b'' ''vxlan-b'' [] (\<lambda>_. []) = (Inr (), k')"
    using table_isolation_runs [of "''blue''"] by blast
  show ?thesis using tenant_isolation [OF table_iptables_laws r] r by (intro exI [of _ k']) simp
qed

lemma fwChain_truncates:
  assumes "take 26 t = take 26 u" "26 \<le> length t" "26 \<le> length u"
  shows "fwChain t = fwChain u"
proof -
  let ?f = "\<lambda>r. if chain_char r then r else CHR ''-''"
  have "fwChain v = map ?f ''FW-'' @ map ?f (take 26 v)" if "26 \<le> length v" for v
    using that by (auto simp: fwChain_def chainName_def Let_def maxChainLen_def take_map)
  then show ?thesis using assms by simp
qed

text \<open>
  Chain names are cut at 29 characters, so two tenants that share their first 26 characters share one
  chain: ensuring the isolation of the second flushes the rules of the first, after which the packets of
  the first are accepted on the devices of the second and dropped on its own.
\<close>

theorem isolation_broken_by_truncation:
  assumes "iptables_laws nl rules" "take 26 t = take 26 u" "26 \<le> length t" "26 \<le> length u"
    and "EnsureTenantIsolation nl t brT vxT [] k = (Inr (), k1)"
    and "EnsureTenantIsolation nl u brU vxU [] k1 = (Inr (), k2)"
    and "[] \<notin> {brT, brU}" "brT \<notin> {brU, vxU}"
  shows "ingress_spec t brT ''bridge'' \<in> set (rules k2 (''filter'', privateAnchorChain)) \<and>
    rule_target (ingress_spec t brT ''bridge'') brT brU = Some (fwChain t) \<and>
    chain_verdict (rules k2 (''filter'', fwChain t)) brT brU = Some ''ACCEPT'' \<and>
    chain_verdict (rules k2 (''filter'', fwChain t)) brT brT = Some ''DROP''"
  using EnsureTenantIsolation_rules(2) [OF assms(1,5)] EnsureTenantIsolation_rules(1,2) [OF assms(1,6)]
    fwChain_truncates [OF assms(2-4)] assms(7,8)
  by auto

theorem isolation_broken_by_truncation_witness:
  "\<exists>k1 k2. EnsureTenantIsolation table_iptables ''customer-acme-production-eu1'' ''br-1'' ''vxlan-1'' [] (\<lambda>_. []) = (Inr (), k1) \<and>
     EnsureTenantIsolation table_iptables ''customer-acme-production-eu2'' ''br-2'' ''vxlan-2'' [] k1 = (Inr (), k2) \<and>
     chain_verdict (k2 (''filter'', fwChain ''customer-acme-production-eu1'')) ''br-1'' ''br-2'' = Some ''ACCEPT''"
proof -
  obtain k1 where 1: "EnsureTenantIsolation table_iptables ''customer-acme-production-eu1'' ''br-1'' ''vxlan-1'' [] (\<lambda>_. []) = (Inr (), k1)"
    using table_isolation_runs [of "''customer-acme-production-eu1''"] by blast
  obtain k2 where 2: "EnsureTenantIsolation table_iptables ''customer-acme-production-eu2'' ''br-2'' ''vxlan-2'' [] k1 = (Inr (), k2)"
    using table_isolation_runs [of "''customer-acme-production-eu2''"] by blast
  show ?thesis using isolation_broken_by_truncation [OF table_iptables_laws _ _ _ 1 2] 1 2 
    by (intro exI [of _ k1] exI [of _ k2]) simp
qed



end
