(* ===== verification/Operator_Types.thy ===== *)
theory Operator_Types
  imports Prelude
begin

text \<open>
  The vocabulary of the operators, \<open>pkg/operator/types.go\<close>: references to resources and the work items of the queue.
\<close>

record ResourceRef =
  rr_Group :: string
  rr_Version :: string
  rr_Kind :: string
  rr_Namespace :: string
  rr_Name :: string

record WorkItem =
  wi_Source :: string
  wi_Event :: string
  wi_Resource :: ResourceRef

definition EventAdd :: string where "EventAdd = ''add''"
definition EventUpdate :: string where "EventUpdate = ''update''"
definition EventDelete :: string where "EventDelete = ''delete''"

end
