(* ===== verification/Network_Manager.thy ===== *)
theory Network_Manager
  imports Subnet_Manager Devices Peer_Tables Tenant_Policy Operator_Types
begin

text \<open>
  The network manager of a node, \<open>internal/nmanager\<close>: the records of the tenants that run on the node, each
  with its subnet, its devices and its address manager, and the operations on tenants, pods and
  peers that the daemon calls. The state is a record that holds the subnet manager, the tenant records and the
  kernel; an operation is a program over it, so that what a failing operation leaves behind is
  part of the model. Locks make the marked sections of the code atomic; where the order of two calls
  matters the definition is cut at that point.

  A nil pointer that Go would dereference is the error \<open>NilPanic\<close>. A nil address or MAC is the empty list.
\<close>

subsection \<open>types.go, interface.go, router.go\<close>

datatype nm_error =
    EmptyTenantID
  | NmSubnet subnet_error
  | NmBackend dev_error
  | NmPolicy policy_error
  | NmIpam ipam_error
  | NmVeth dev_error
  | NmNetlink nl_error
  | NmTable table_error
  | ErrTenantActorNotFound
  | ErrTenantClosing
  | NoTenantRecord string
  | IpamNotInitialized string
  | BridgeNotFound string
  | AllocationNotFound string
  | NodeNameEmpty
  | ManagersNotInitialized
  | BackendNotVTEP
  | RemoteVTEPMissing
  | TenantNotInitialized
  | ExpandTenantFailed nm_error
  | ReconcilePods nm_error
  | EnsurePodRetries
  | DeadlineExceeded
  | CtxDone
  | NilPanic

record PodAttachArgs =
  pa_Namespace :: string
  pa_PodName :: string
  pa_ContainerID :: string
  pa_NetNS :: string
  pa_IfName :: string

record RemoteTenantInfra =
  re_NodeName :: string
  re_NodeIP :: ip
  re_VTEPIP :: ip
  re_VTEPMAC :: hwaddr
  re_Subnet :: "ipnet option"
  re_VNI :: uint32

record TenantPodInfo =
  tp_Name :: string
  tp_IP :: ip

record TenantInfraSnapshot =
  sn_Subnet :: "ipnet option"
  sn_VNI :: uint32
  sn_VTEPDev :: string
  sn_VTEPIP :: ip
  sn_VTEPMAC :: hwaddr
  sn_MTU :: int
  sn_Bridge :: string
  sn_BridgeIP :: ip
  sn_BridgeMAC :: hwaddr
  sn_Pods :: "TenantPodInfo list"

datatype TenantState = TenantStateReady | TenantStateClosing

text \<open>
  A channel is a number; the time of the last expansion is never read and is left out. The peers are a map, nil
  until first used; the order of the list is the order in which \<open>range\<close> visits it.
\<close>

record TenantRecord =
  rec_Subnet :: "ipnet option"
  rec_Backend :: "bv_backend option"
  rec_IPAM :: "bitmap_ipam option"
  rec_State :: TenantState
  rec_expandCh :: "nat option"
  rec_lastExpandErr :: "nm_error option"
  rec_Peers :: "(string \<times> RemoteTenantInfra) list option"

text \<open>
  The state of \<open>NetworkManagerImpl\<close> with the kernel. The four flags say whether the interface values for routes, ARP,
  FDB and policy are set; the emitter is nil or the list of the work items it was given.
\<close>

record 'k nm =
  nm_NodeName :: string
  nm_TenantRecords :: "string \<rightharpoonup> TenantRecord"
  nm_TenantActors :: "string set"
  nm_Route :: bool
  nm_ARP :: bool
  nm_FDB :: bool
  nm_TP :: bool
  nm_Subnet :: trie_manager
  nm_emitter :: "WorkItem list option"
  nm_DefaultRoutes :: "string \<rightharpoonup> (string \<rightharpoonup> RemoteTenantInfra)"
  nm_nextCh :: nat
  nm_k :: 'k

text \<open>
  What the operations are given from outside: the handles of the kernel, the two hash functions, and
  what the other goroutines do while a caller waits for a running expansion (whether its context ended first,
  and the state it wakes up in).
\<close>

record 'k deps =
  dp_nl :: "'k netlink"
  dp_ipt :: "'k iptables"
  dp_sha1 :: hash
  dp_sha256 :: hash
  dp_wait :: "'k nm \<Rightarrow> bool \<times> 'k nm"

text \<open>A program over the kernel run inside the manager.\<close>

definition on_k :: "('e \<Rightarrow> nm_error) \<Rightarrow> ('k, 'e, 'a) prog \<Rightarrow> ('k nm, nm_error, 'a) prog" where
  "on_k wrap p s =
     (case p (nm_k s) of
        (Inl e, k') \<Rightarrow> (Inl (wrap e), s\<lparr>nm_k := k'\<rparr>)
      | (Inr a, k') \<Rightarrow> (Inr a, s\<lparr>nm_k := k'\<rparr>))"

definition upd_rec :: "string \<Rightarrow> (TenantRecord \<Rightarrow> TenantRecord) \<Rightarrow> 'k nm \<Rightarrow> 'k nm" where
  "upd_rec tid f s =
     (case nm_TenantRecords s tid of
        None \<Rightarrow> s
      | Some r \<Rightarrow> s\<lparr>nm_TenantRecords := (nm_TenantRecords s)(tid \<mapsto> f r)\<rparr>)"

definition SetEmitter :: "WorkItem list option \<Rightarrow> 'k nm \<Rightarrow> 'k nm" where
  "SetEmitter q s = s\<lparr>nm_emitter := q\<rparr>"

definition emitNodeStoreEvent :: "string \<Rightarrow> 'k nm \<Rightarrow> 'k nm" where
  "emitNodeStoreEvent ev s =
     (if nm_NodeName s = [] then s
      else case nm_emitter s of
             None \<Rightarrow> s
           | Some q \<Rightarrow>
               s\<lparr>nm_emitter := Some (q @ [\<lparr>wi_Source = ''nm:network-manager'',
                  wi_Event = (if ev = [] then EventUpdate else ev),
                  wi_Resource = \<lparr>rr_Group = [], rr_Version = [], rr_Kind = ''NodeStore'',
                                 rr_Namespace = ''default'', rr_Name = nm_NodeName s\<rparr>\<rparr>])\<rparr>)"

subsection \<open>manager.go\<close>

definition cidrEqual :: "ipnet option \<Rightarrow> ipnet option \<Rightarrow> bool" where
  "cidrEqual a b =
     (case (a, b) of
        (Some x, Some y) \<Rightarrow> ip_equal (net_ip x) (net_ip y) \<and> net_mask x = net_mask y
      | (None, None) \<Rightarrow> True
      | _ \<Rightarrow> False)"

definition ipEqual :: "ip \<Rightarrow> ip \<Rightarrow> bool" where
  "ipEqual a b = (if a = [] \<or> b = [] then a = [] \<and> b = [] else ip_equal a b)"

definition macEqual :: "hwaddr \<Rightarrow> hwaddr \<Rightarrow> bool" where
  "macEqual a b = (if a = [] \<or> b = [] then a = [] \<and> b = [] else a = b)"

text \<open>
  \<open>given\<close> is the subnet manager in the dependencies, \<open>registered\<close> the package default; the new default is
  returned beside the manager. The managers of the kernel tables always have a default.
\<close>

definition NewNetworkManagerWithDeps ::
  "ipnet \<Rightarrow> string \<Rightarrow> trie_manager option \<Rightarrow> trie_manager option \<Rightarrow> 'k \<Rightarrow>
   trie_error + ('k nm \<times> trie_manager option)" where
  "NewNetworkManagerWithDeps rootCIDR nodeName given registered k =
     (case (case given of
              None \<Rightarrow> (case registered of
                         Some sm \<Rightarrow> Inr (sm, registered)
                       | None \<Rightarrow> (case NewTrieManager rootCIDR 30 of Inl e \<Rightarrow> Inl e | Inr t \<Rightarrow> Inr (t, Some t)))
            | Some t \<Rightarrow>
                if \<not> cidrEqual (Some (tm_Root t)) (Some rootCIDR)
                then (case NewTrieManager rootCIDR 30 of Inl e \<Rightarrow> Inl e | Inr t' \<Rightarrow> Inr (t', registered))
                else Inr (t, registered)) of
        Inl e \<Rightarrow> Inl e
      | Inr (sm, registered') \<Rightarrow>
          Inr (\<lparr>nm_NodeName = nodeName, nm_TenantRecords = Map.empty, nm_TenantActors = {},
                nm_Route = True, nm_ARP = True, nm_FDB = True, nm_TP = True, nm_Subnet = sm, nm_emitter = None,
                nm_DefaultRoutes = Map.empty, nm_nextCh = 0, nm_k = k\<rparr>, registered'))"

definition NewNetworkManager ::
  "ipnet \<Rightarrow> string \<Rightarrow> trie_manager option \<Rightarrow> 'k \<Rightarrow> trie_error + ('k nm \<times> trie_manager option)" where
  "NewNetworkManager rootCIDR nodeName registered k = NewNetworkManagerWithDeps rootCIDR nodeName None registered k"

text \<open>\<open>_ = nm.Subnet.Deallocate(id)\<close>.\<close>

definition drop_subnet :: "string \<Rightarrow> 'k nm \<Rightarrow> 'k nm" where
  "drop_subnet tid s =
     (case tm_Deallocate (nm_Subnet s) tid of Inl _ \<Rightarrow> s | Inr sm \<Rightarrow> s\<lparr>nm_Subnet := sm\<rparr>)"

definition AllocateTenant :: "string \<Rightarrow> ('k nm, nm_error, ipnet) prog" where
  "AllocateTenant tid s =
     (case tm_Allocate (nm_Subnet s) tid of
        Inl e \<Rightarrow> (Inl (NmSubnet e), drop_subnet tid s)
      | Inr (sm, anet) \<Rightarrow> (Inr anet, s\<lparr>nm_Subnet := sm\<rparr>))"

definition ListTenants :: "'k nm \<Rightarrow> (string \<rightharpoonup> TenantRecord)" where
  "ListTenants s = nm_TenantRecords s"

definition GetSubnetRecord :: "string \<Rightarrow> 'k nm \<Rightarrow> nm_error + TenantRecord" where
  "GetSubnetRecord tid s = (case nm_TenantRecords s tid of None \<Rightarrow> Inl (NoTenantRecord tid) | Some r \<Rightarrow> Inr r)"

text \<open>
  \<open>ExpandTenant\<close>: the subnet manager expands first; when the devices or the address manager then refuse, the
  subnet manager is not put back and the record keeps the old subnet.
\<close>

definition ExpandTenant :: "'k deps \<Rightarrow> string \<Rightarrow> ('k nm, nm_error, TenantRecord) prog" where
  "ExpandTenant d tid s =
     (case nm_TenantRecords s tid of
        None \<Rightarrow> (Inl (NoTenantRecord tid), s)
      | Some r \<Rightarrow>
          (case tm_Expand (nm_Subnet s) tid of
             Inl e \<Rightarrow> (Inl (NmSubnet e), s)
           | Inr (sm, newNet) \<Rightarrow>
               let s1 = s\<lparr>nm_Subnet := sm\<rparr>;
                   (e2, r2, s2) =
                     (case rec_Backend r of
                        None \<Rightarrow> (None, r, s1)
                      | Some be \<Rightarrow>
                          (case bv_Update (dp_nl d) be (Some newNet) (nm_k s1) of
                             ((e, be'), k') \<Rightarrow> (e, r\<lparr>rec_Backend := Some be'\<rparr>,
                                upd_rec tid (\<lambda>r. r\<lparr>rec_Backend := Some be'\<rparr>) (s1\<lparr>nm_k := k'\<rparr>))))
               in (case e2 of
                     Some e \<Rightarrow> (Inl (NmBackend e), s2)
                   | None \<Rightarrow>
                       let (e3, r3, s3) =
                         (case rec_IPAM r2 of
                            None \<Rightarrow> (None, r2, s2)
                          | Some im \<Rightarrow>
                              (case ipam_Expand im (Some newNet) of
                                 (e, im') \<Rightarrow> (e, r2\<lparr>rec_IPAM := Some im'\<rparr>,
                                    upd_rec tid (\<lambda>r. r\<lparr>rec_IPAM := Some im'\<rparr>) s2)))
                       in (case e3 of
                             Some e \<Rightarrow> (Inl (NmIpam e), s3)
                           | None \<Rightarrow>
                               let r4 = r3\<lparr>rec_Subnet := Some newNet\<rparr>
                               in (Inr r4, s3\<lparr>nm_TenantRecords := (nm_TenantRecords s3)(tid \<mapsto> r4)\<rparr>)))))"

definition ConfigureRoutes ::
  "'k deps \<Rightarrow> string \<Rightarrow> ipnet option \<Rightarrow> ipnet option \<Rightarrow> ip \<Rightarrow> hwaddr \<Rightarrow> ('k nm, nm_error, unit) prog" where
  "ConfigureRoutes d localVtepName remoteTenantCIDR remoteNodeIP remoteVtepIP remoteVtepMac =
     p_bind (on_k NmTable (arp_Add (dp_nl d) \<lparr>ae_Device = localVtepName, ae_IP = remoteVtepIP, ae_MAC = remoteVtepMac\<rparr>)) (\<lambda>_.
     p_bind (case remoteNodeIP of
               None \<Rightarrow> p_fail NilPanic
             | Some n \<Rightarrow> on_k NmTable (fdb_Add (dp_nl d) \<lparr>fe_Device = localVtepName, fe_IP = net_ip n, fe_Mac = remoteVtepMac\<rparr>)) (\<lambda>_.
     let mask = (if to4 remoteVtepIP = [] then 128 else 32);
         vtepHost = \<lparr>net_ip = remoteVtepIP, net_mask = cidr_mask mask (8 * int (length remoteVtepIP))\<rparr> in
     p_bind (on_k NmTable (route_Ensure (dp_nl d) (Some \<lparr>ro_Dst = Some vtepHost, ro_Device = localVtepName, ro_Gateway = []\<rparr>) [])) (\<lambda>_.
     on_k NmTable (route_Ensure (dp_nl d) (Some \<lparr>ro_Dst = remoteTenantCIDR, ro_Device = localVtepName, ro_Gateway = remoteVtepIP\<rparr>) []))))"

subsection \<open>tops.go\<close>

definition dev_name :: "device option \<Rightarrow> string" where
  "dev_name d = (case d of None \<Rightarrow> [] | Some dv \<Rightarrow> dv_name dv)"

definition defaultTenantIfaces :: "'k nm \<Rightarrow> string list" where
  "defaultTenantIfaces s =
     (case nm_TenantRecords s ''default'' of
        None \<Rightarrow> []
      | Some r \<Rightarrow>
          (case rec_Backend r of
             None \<Rightarrow> []
           | Some be \<Rightarrow> (case backend_Bridge be of None \<Rightarrow> [] | Some b \<Rightarrow> [dv_name b]) @
                        (case backend_VTEP be of None \<Rightarrow> [] | Some v \<Rightarrow> [dv_name v])))"

definition tenant_policy :: "'k deps \<Rightarrow> string \<Rightarrow> bv_backend \<Rightarrow> ('k nm, nm_error, unit) prog" where
  "tenant_policy d tid be s =
     (if \<not> nm_TP s then (Inr (), s)
      else let brName = dev_name (backend_Bridge be); vxName = dev_name (backend_VTEP be) in
           if tid = ''default'' then on_k NmPolicy (EnsureDefaultTenant (dp_ipt d) brName vxName) s
           else on_k NmPolicy (EnsureTenantIsolation (dp_ipt d) tid brName vxName (defaultTenantIfaces s)) s)"

text \<open>\<open>_ = be.Delete()\<close> followed by \<open>_ = nm.Subnet.Deallocate(tenantID)\<close>.\<close>

definition undo_tenant :: "'k deps \<Rightarrow> string \<Rightarrow> bv_backend \<Rightarrow> 'k nm \<Rightarrow> 'k nm" where
  "undo_tenant d tid be s = drop_subnet tid (s\<lparr>nm_k := snd (bv_Delete (dp_nl d) be (nm_k s))\<rparr>)"

definition new_record :: "ipnet \<Rightarrow> bv_backend \<Rightarrow> bitmap_ipam \<Rightarrow> TenantRecord" where
  "new_record net be ipm =
     \<lparr>rec_Subnet = Some net, rec_Backend = Some be, rec_IPAM = Some ipm, rec_State = TenantStateReady,
      rec_expandCh = None, rec_lastExpandErr = None, rec_Peers = None\<rparr>"

text \<open>The part of \<open>EnsureTenant\<close> after the check that the tenant has no record; another call may run in between.\<close>

definition EnsureTenant_create :: "'k deps \<Rightarrow> string \<Rightarrow> ('k nm, nm_error, unit) prog" where
  "EnsureTenant_create d tid s =
     (case tm_Allocate (nm_Subnet s) tid of
        Inl e \<Rightarrow> (Inl (NmSubnet e), s)
      | Inr (sm, net) \<Rightarrow>
          (case on_k NmBackend (bv_Create (dp_nl d) (dp_sha1 d) (dp_sha256 d) NewBridgeVTEPBackend tid net (nm_NodeName s))
                 (s\<lparr>nm_Subnet := sm\<rparr>) of
             (Inl e, s2) \<Rightarrow> (Inl e, drop_subnet tid s2)
           | (Inr be, s2) \<Rightarrow>
               (case tenant_policy d tid be s2 of
                  (Inl e, s3) \<Rightarrow> (Inl e, undo_tenant d tid be s3)
                | (Inr _, s3) \<Rightarrow>
                    (case NewBitmapIPAM (Some net) of
                       Inl e \<Rightarrow> (Inl (NmIpam e), undo_tenant d tid be s3)
                     | Inr ipm \<Rightarrow>
                         if nm_TenantRecords s3 tid \<noteq> None then (Inr (), undo_tenant d tid be s3)
                         else (Inr (), emitNodeStoreEvent EventUpdate
                           (s3\<lparr>nm_TenantRecords := (nm_TenantRecords s3)(tid \<mapsto> new_record net be ipm),
                               nm_TenantActors := insert tid (nm_TenantActors s3)\<rparr>))))))"

definition EnsureTenant :: "'k deps \<Rightarrow> string \<Rightarrow> ('k nm, nm_error, unit) prog" where
  "EnsureTenant d tid s =
     (if tid = [] then (Inl EmptyTenantID, s)
      else if nm_TenantRecords s tid \<noteq> None then (Inr (), s)
      else EnsureTenant_create d tid s)"

definition RegisterTenant :: "'k deps \<Rightarrow> string \<Rightarrow> ('k nm, nm_error, TenantRecord) prog" where
  "RegisterTenant d tid =
     p_bind (EnsureTenant d tid) (\<lambda>_ s.
       case nm_TenantRecords s tid of None \<Rightarrow> (Inl (NoTenantRecord tid), s) | Some r \<Rightarrow> (Inr r, s))"

definition RemoveTenant :: "'k deps \<Rightarrow> string \<Rightarrow> ('k nm, nm_error, unit) prog" where
  "RemoveTenant d tid s =
     (if tid = [] then (Inl EmptyTenantID, s)
      else case nm_TenantRecords s tid of
             None \<Rightarrow> (Inr (), s)
           | Some r \<Rightarrow>
               let s1 = upd_rec tid (\<lambda>r. r\<lparr>rec_State := TenantStateClosing\<rparr>) s;
                   (brName, vxName, s2) =
                     (case rec_Backend r of
                        None \<Rightarrow> ([], [], s1)
                      | Some be \<Rightarrow>
                          (dev_name (backend_Bridge be), dev_name (backend_VTEP be),
                           (case bv_Delete (dp_nl d) be (nm_k s1) of
                              (Inl _, k') \<Rightarrow> s1\<lparr>nm_k := k'\<rparr>
                            | (Inr be', k') \<Rightarrow> upd_rec tid (\<lambda>r. r\<lparr>rec_Backend := Some be'\<rparr>) (s1\<lparr>nm_k := k'\<rparr>))));
                   s3 = drop_subnet tid s2;
                   s4 = (if nm_TP s3 then s3\<lparr>nm_k := snd (DeleteTenantChains (dp_ipt d) tid brName vxName (nm_k s3))\<rparr> else s3);
                   s5 = s4\<lparr>nm_TenantActors := nm_TenantActors s4 - {tid},
                           nm_TenantRecords := (nm_TenantRecords s4)(tid := None)\<rparr>
               in (Inr (), emitNodeStoreEvent EventDelete s5))"

definition DeletetSubnet :: "'k deps \<Rightarrow> string \<Rightarrow> ('k nm, nm_error, unit) prog" where
  "DeletetSubnet d tid = RemoveTenant d tid"

end
