(* ===== verification/Pod_Ops.thy ===== *)
theory Pod_Ops
  imports Network_Manager
begin

text \<open>
  Attaching pods: \<open>pops.go\<close>, \<open>expansion.go\<close>, \<open>actor_tenant.go\<close> and \<open>actors.go\<close> of \<open>internal/nmanager\<close>, and
  the router in front of the actors, \<open>internal/router/nmanager_router.go\<close>. An actor is a mailbox that one
  goroutine empties: the loop below is a recursion over the messages in the order of their arrival.
\<close>

subsection \<open>pops.go\<close>

definition podKey :: "string \<Rightarrow> string \<Rightarrow> string" where
  "podKey namespace pod = (if namespace = [] then pod else namespace @ ''/'' @ pod)"

text \<open>\<open>strings.SplitN(key, "/", 2)\<close> gives two parts exactly when the key has a slash.\<close>

definition splitPodKey :: "string \<Rightarrow> string \<times> string" where
  "splitPodKey key =
     (if CHR ''/'' \<in> set key
      then (takeWhile (\<lambda>c. c \<noteq> CHR ''/'') key, tl (dropWhile (\<lambda>c. c \<noteq> CHR ''/'') key))
      else ([], key))"

definition isNetlinkNotFound :: "nl_error \<Rightarrow> bool" where
  "isNetlinkNotFound e = (let s = to_lower (err_msg e) in
     str_contains s ''not found'' \<or> str_contains s ''no such process'' \<or>
     str_contains s ''cannot assign requested address'')"

definition p_do_found :: "('k \<Rightarrow> nl_error option \<times> 'k) \<Rightarrow> ('k, nm_error, unit) prog" where
  "p_do_found f k = (case f k of
     (Some x, k') \<Rightarrow> if isNetlinkNotFound x then (Inr (), k') else (Inl (NmNetlink x), k') | (None, k') \<Rightarrow> (Inr (), k'))"

definition flushLinkIPv4Addrs :: "'k netlink \<Rightarrow> link \<Rightarrow> ('k, nm_error, unit) prog" where
  "flushLinkIPv4Addrs nl l =
     p_bind (p_read NmNetlink (AddrList nl (lk_Index l))) (\<lambda>addrs.
     p_each (\<lambda>a. p_do_found (AddrDel nl l a)) addrs)"

definition replaceDefaultRoute :: "'k netlink \<Rightarrow> link \<Rightarrow> ip \<Rightarrow> ('k, nm_error, unit) prog" where
  "replaceDefaultRoute nl l gw =
     p_bind (\<lambda>k. case RouteList nl (Some (lk_Index l)) k of
               Inl _ \<Rightarrow> (Inr (), k)
             | Inr routes \<Rightarrow>
                 p_each (\<lambda>r. if rt_Dst r = None then p_do_found (RouteDel nl r) else p_ret ()) routes k) (\<lambda>_.
     p_do NmNetlink (RouteReplace nl \<lparr>rt_LinkIndex = lk_Index l, rt_Dst = None, rt_Gw = gw, rt_Table = 0,
       rt_Priority = 0, rt_Flags = 0, rt_Scope = SCOPE_UNIVERSE\<rparr>))"

definition device_ip :: "device \<Rightarrow> ip option" where
  "device_ip dv = map_option net_ip (dv_ip dv)"

text \<open>
  \<open>EnsurePod\<close>: the address is taken first; it is given back when the veth pair can not be set up, but not when the
  bridge is missing.
\<close>

definition EnsurePod :: "'k deps \<Rightarrow> string \<Rightarrow> PodAttachArgs \<Rightarrow> ('k nm, nm_error, ipnet \<times> ip \<times> string) prog" where
  "EnsurePod d tid args s =
     (case nm_TenantRecords s tid of
        None \<Rightarrow> (Inl ErrTenantActorNotFound, s)
      | Some r \<Rightarrow>
          if rec_State r = TenantStateClosing then (Inl ErrTenantClosing, s)
          else case rec_IPAM r of
            None \<Rightarrow> (Inl (IpamNotInitialized tid), s)
          | Some im \<Rightarrow>
              (case ipam_Allocate im (podKey (pa_Namespace args) (pa_PodName args)) (pa_ContainerID args)
                      (pa_IfName args) (pa_NetNS args) of
                 Inl e \<Rightarrow> (Inl (NmIpam e), s)
               | Inr (im1, ci) \<Rightarrow>
                   let s1 = upd_rec tid (\<lambda>r. r\<lparr>rec_IPAM := Some im1\<rparr>) s in
                   (case rec_Backend r of
                      None \<Rightarrow> (Inl NilPanic, s1)
                    | Some be \<Rightarrow>
                        (case backend_Bridge be of
                           None \<Rightarrow> (Inl (BridgeNotFound tid), s1)
                         | Some br \<Rightarrow>
                             (case (rec_Subnet r, device_ip br) of
                                (Some sn, Some gw) \<Rightarrow>
                                  let podIPNet = \<lparr>net_ip = ci_IP ci, net_mask = net_mask sn\<rparr> in
                                  (case on_k NmVeth (SetupVeth (dp_nl d) (pa_NetNS args) (dv_name br) 1500
                                          (pa_IfName args) (Some podIPNet) gw) s1 of
                                     (Inl e, s2) \<Rightarrow>
                                       (Inl e, upd_rec tid (\<lambda>r. case ipam_Free im1 (ci_IP ci) of
                                          Inl _ \<Rightarrow> r | Inr im2 \<Rightarrow> r\<lparr>rec_IPAM := Some im2\<rparr>) s2)
                                   | (Inr _, s2) \<Rightarrow>
                                       (Inr (podIPNet, gw, pa_IfName args), emitNodeStoreEvent EventUpdate s2))
                              | _ \<Rightarrow> (Inl NilPanic, s1))))))"

definition RemovePod :: "string \<Rightarrow> PodAttachArgs \<Rightarrow> ('k nm, nm_error, unit) prog" where
  "RemovePod tid args s =
     (case nm_TenantRecords s tid of
        None \<Rightarrow> (Inl ErrTenantActorNotFound, s)
      | Some r \<Rightarrow> (Inr (), emitNodeStoreEvent EventUpdate s))"

definition update_in_ns :: "'k netlink \<Rightarrow> ContainerNetInfo \<Rightarrow> ipnet \<Rightarrow> ip \<Rightarrow> ('k, nm_error, unit) prog" where
  "update_in_ns nl ci podIPNet gateway =
     p_bind (p_read NmNetlink (LinkByName nl (ci_IFname ci))) (\<lambda>l.
     p_bind (flushLinkIPv4Addrs nl l) (\<lambda>_.
     p_bind (p_do NmNetlink (LinkSetMTU nl l 1500)) (\<lambda>_.
     p_bind (p_do NmNetlink (AddrReplace nl l podIPNet)) (\<lambda>_.
     p_bind (p_do NmNetlink (LinkSetUp nl l)) (\<lambda>_.
     replaceDefaultRoute nl l gateway)))))"

definition UpdatePod :: "'k deps \<Rightarrow> string \<Rightarrow> PodAttachArgs \<Rightarrow> ('k nm, nm_error, unit) prog" where
  "UpdatePod d tid args s =
     (case nm_TenantRecords s tid of
        None \<Rightarrow> (Inl ErrTenantActorNotFound, s)
      | Some r \<Rightarrow>
          (case rec_IPAM r of
             None \<Rightarrow> (Inl (IpamNotInitialized tid), s)
           | Some im \<Rightarrow>
               let key = podKey (pa_Namespace args) (pa_PodName args) in
               (case GetAllocation im key of
                  None \<Rightarrow> (Inl (AllocationNotFound key), s)
                | Some ci \<Rightarrow>
                    (case rec_Backend r of
                       None \<Rightarrow> (Inl NilPanic, s)
                     | Some be \<Rightarrow>
                         (case backend_Bridge be of
                            None \<Rightarrow> (Inl (BridgeNotFound tid), s)
                          | Some br \<Rightarrow>
                              (case (rec_Subnet r, device_ip br) of
                                 (Some sn, Some gw) \<Rightarrow>
                                   on_k (\<lambda>e. e) (in_ns (dp_nl d) (ci_NetNS ci) NmNetlink
                                     (update_in_ns (dp_nl d) ci \<lparr>net_ip = ci_IP ci, net_mask = net_mask sn\<rparr> gw)) s
                               | _ \<Rightarrow> (Inl NilPanic, s)))))))"

subsection \<open>expansion.go\<close>

definition performTenantExpansion :: "'k deps \<Rightarrow> string \<Rightarrow> ('k nm, nm_error, unit) prog" where
  "performTenantExpansion d tid = p_bind (ExpandTenant d tid) (\<lambda>_. p_ret ())"

text \<open>\<open>dp_wait\<close> is what happens between the start of the wait and the wake-up.\<close>

definition waitForTenantExpansion :: "'k deps \<Rightarrow> string \<Rightarrow> ('k nm, nm_error, unit) prog" where
  "waitForTenantExpansion d tid s =
     (case dp_wait d s of (ctxDone, s1) \<Rightarrow>
        if ctxDone then (Inl CtxDone, s1)
        else (case nm_TenantRecords s1 tid of
                None \<Rightarrow> (Inl ErrTenantActorNotFound, s1)
              | Some r \<Rightarrow> (case rec_lastExpandErr r of None \<Rightarrow> (Inr (), s1) | Some e \<Rightarrow> (Inl e, s1))))"

definition requestTenantExpansion :: "'k deps \<Rightarrow> string \<Rightarrow> ('k nm, nm_error, unit) prog" where
  "requestTenantExpansion d tid s =
     (case nm_TenantRecords s tid of
        None \<Rightarrow> (Inl ErrTenantActorNotFound, s)
      | Some r \<Rightarrow>
          if rec_State r = TenantStateClosing then (Inl ErrTenantClosing, s)
          else if rec_expandCh r \<noteq> None then waitForTenantExpansion d tid s
          else let ch = nm_nextCh s;
                   s1 = (upd_rec tid (\<lambda>r. r\<lparr>rec_expandCh := Some ch\<rparr>) s)\<lparr>nm_nextCh := ch + 1\<rparr>;
                   (res, s2) = performTenantExpansion d tid s1;
                   err = (case res of Inl e \<Rightarrow> Some e | Inr _ \<Rightarrow> None);
                   s3 = upd_rec tid (\<lambda>r. if rec_expandCh r = Some ch
                          then r\<lparr>rec_lastExpandErr := err, rec_expandCh := None\<rparr> else r) s2
               in (res, s3))"

subsection \<open>actor\_tenant.go\<close>

record pod_result =
  pr_Interfaces :: "(string \<times> string) list"
  pr_IPs :: "(ipnet \<times> ip \<times> nat) list"

definition buildPodResult :: "ipnet \<Rightarrow> ip \<Rightarrow> string \<Rightarrow> string \<Rightarrow> pod_result" where
  "buildPodResult ipNet gateway ifName netNS =
     \<lparr>pr_Interfaces = [(ifName, netNS)], pr_IPs = [(ipNet, gateway, 0)]\<rparr>"

fun update_each :: "'k deps \<Rightarrow> string \<Rightarrow> (string \<times> ContainerNetInfo) list \<Rightarrow> 'k nm \<Rightarrow> 'k nm" where
  "update_each d tid [] s = s"
| "update_each d tid ((key, info) # allocs) s =
     (case splitPodKey key of (nsName, podName) \<Rightarrow>
        update_each d tid allocs (snd (UpdatePod d tid \<lparr>pa_Namespace = nsName, pa_PodName = podName,
          pa_ContainerID = ci_ID info, pa_NetNS = ci_NetNS info, pa_IfName = ci_IFname info\<rparr> s)))"

definition reconcileExistingPods :: "'k deps \<Rightarrow> string \<Rightarrow> ('k nm, nm_error, unit) prog" where
  "reconcileExistingPods d tid s =
     (case nm_TenantRecords s tid of
        None \<Rightarrow> (Inl TenantNotInitialized, s)
      | Some r \<Rightarrow>
          (case rec_IPAM r of
             None \<Rightarrow> (Inl TenantNotInitialized, s)
           | Some im \<Rightarrow> (Inr (), update_each d tid (ListAllocations im) s)))"

fun is_no_ips :: "nm_error \<Rightarrow> bool" where
  "is_no_ips (NmIpam (ErrNoAvailableIPs n)) = True"
| "is_no_ips _ = False"

definition maxRetries :: nat where "maxRetries = 2"

text \<open>The loop over the attempts; the argument counts the attempts that are left after this one.\<close>

primrec ensure_attempts :: "'k deps \<Rightarrow> string \<Rightarrow> PodAttachArgs \<Rightarrow> nat \<Rightarrow> ('k nm, nm_error, pod_result) prog" where
  "ensure_attempts d tid args 0 s =
     (case EnsurePod d tid args s of
        (Inr (netRes, gw, iface), s1) \<Rightarrow> (Inr (buildPodResult netRes gw iface (pa_NetNS args)), s1)
      | (Inl e, s1) \<Rightarrow> (Inl e, s1))"
| "ensure_attempts d tid args (Suc n) s =
     (case EnsurePod d tid args s of
        (Inr (netRes, gw, iface), s1) \<Rightarrow> (Inr (buildPodResult netRes gw iface (pa_NetNS args)), s1)
      | (Inl e, s1) \<Rightarrow>
          if \<not> is_no_ips e then (Inl e, s1)
          else (case requestTenantExpansion d tid s1 of
                  (Inl x, s2) \<Rightarrow> (Inl (ExpandTenantFailed x), s2)
                | (Inr _, s2) \<Rightarrow>
                    (case reconcileExistingPods d tid s2 of
                       (Inl x, s3) \<Rightarrow> (Inl (ReconcilePods x), s3)
                     | (Inr _, s3) \<Rightarrow> ensure_attempts d tid args n s3)))"

definition ensurePodWithExpansion :: "'k deps \<Rightarrow> string \<Rightarrow> PodAttachArgs \<Rightarrow> ('k nm, nm_error, pod_result) prog" where
  "ensurePodWithExpansion d tid args = ensure_attempts d tid args maxRetries"

datatype tenantMsgKind = msgEnsure | msgRemove | msgUpdate | msgStop

record tenantMsg =
  msg_kind :: tenantMsgKind
  msg_args :: PodAttachArgs

record tenantReply =
  rp_result :: "pod_result option"
  rp_err :: "nm_error option"

definition reply_of :: "nm_error + 'a \<Rightarrow> ('a \<Rightarrow> pod_result option) \<Rightarrow> tenantReply" where
  "reply_of x f = (case x of Inl e \<Rightarrow> \<lparr>rp_result = None, rp_err = Some e\<rparr> | Inr a \<Rightarrow> \<lparr>rp_result = f a, rp_err = None\<rparr>)"

definition actor_state :: "string \<Rightarrow> 'k nm \<Rightarrow> TenantState" where
  "actor_state tid s = (case nm_TenantRecords s tid of None \<Rightarrow> TenantStateReady | Some r \<Rightarrow> rec_State r)"

definition actor_handle :: "'k deps \<Rightarrow> string \<Rightarrow> tenantMsg \<Rightarrow> 'k nm \<Rightarrow> tenantReply \<times> 'k nm" where
  "actor_handle d tid m s =
     (case msg_kind m of
        msgEnsure \<Rightarrow>
          if actor_state tid s = TenantStateClosing then (\<lparr>rp_result = None, rp_err = Some ErrTenantClosing\<rparr>, s)
          else (case ensurePodWithExpansion d tid (msg_args m) s of (x, s1) \<Rightarrow> (reply_of x Some, s1))
      | msgRemove \<Rightarrow> (case RemovePod tid (msg_args m) s of (x, s1) \<Rightarrow> (reply_of x (\<lambda>_. None), s1))
      | msgUpdate \<Rightarrow>
          if actor_state tid s = TenantStateClosing then (\<lparr>rp_result = None, rp_err = Some ErrTenantClosing\<rparr>, s)
          else (case UpdatePod d tid (msg_args m) s of (x, s1) \<Rightarrow> (reply_of x (\<lambda>_. None), s1))
      | msgStop \<Rightarrow> (\<lparr>rp_result = None, rp_err = None\<rparr>, s))"

fun actor_loop :: "'k deps \<Rightarrow> string \<Rightarrow> tenantMsg list \<Rightarrow> 'k nm \<Rightarrow> tenantReply list \<times> 'k nm" where
  "actor_loop d tid [] s = ([], s)"
| "actor_loop d tid (m # inbox) s =
     (case actor_handle d tid m s of (rp, s1) \<Rightarrow>
        if msg_kind m = msgStop then ([rp], s1)
        else (case actor_loop d tid inbox s1 of (rps, s2) \<Rightarrow> (rp # rps, s2)))"

text \<open>
  The callers of the actor: the message may not fit into the mailbox before the context ends, or the
  reply may come after the deadline, in which case the message is handled all the same, or the actor has been
  stopped before its turn and nobody handles it.
\<close>

datatype delivery = NotSent | Replied | Late | Lost

definition actor_call :: "delivery \<Rightarrow> (tenantReply \<Rightarrow> nm_error + 'a) \<Rightarrow> 'k deps \<Rightarrow> string \<Rightarrow> tenantMsg \<Rightarrow> ('k nm, nm_error, 'a) prog" where
  "actor_call w f d tid m s =
     (case w of
        NotSent \<Rightarrow> (Inl CtxDone, s)
      | Replied \<Rightarrow> (case actor_handle d tid m s of (rp, s1) \<Rightarrow> (f rp, s1))
      | Late \<Rightarrow> (Inl DeadlineExceeded, snd (actor_handle d tid m s))
      | Lost \<Rightarrow> (Inl DeadlineExceeded, s))"

definition actor_EnsurePod :: "delivery \<Rightarrow> 'k deps \<Rightarrow> string \<Rightarrow> PodAttachArgs \<Rightarrow> ('k nm, nm_error, pod_result option) prog" where
  "actor_EnsurePod w d tid args =
     actor_call w (\<lambda>rp. case rp_err rp of Some e \<Rightarrow> Inl e | None \<Rightarrow> Inr (rp_result rp)) d tid
       \<lparr>msg_kind = msgEnsure, msg_args = args\<rparr>"

definition err_reply :: "tenantReply \<Rightarrow> nm_error + unit" where
  "err_reply rp = (case rp_err rp of Some e \<Rightarrow> Inl e | None \<Rightarrow> Inr ())"

definition actor_RemovePod :: "delivery \<Rightarrow> 'k deps \<Rightarrow> string \<Rightarrow> PodAttachArgs \<Rightarrow> ('k nm, nm_error, unit) prog" where
  "actor_RemovePod w d tid args = actor_call w err_reply d tid \<lparr>msg_kind = msgRemove, msg_args = args\<rparr>"

definition actor_UpdatePod :: "delivery \<Rightarrow> 'k deps \<Rightarrow> string \<Rightarrow> PodAttachArgs \<Rightarrow> ('k nm, nm_error, unit) prog" where
  "actor_UpdatePod w d tid args = actor_call w err_reply d tid \<lparr>msg_kind = msgUpdate, msg_args = args\<rparr>"

subsection \<open>actors.go and nmanager\_router.go\<close>

definition getTenantActor :: "string \<Rightarrow> 'k nm \<Rightarrow> nm_error + string" where
  "getTenantActor tid s = (if tid \<in> nm_TenantActors s then Inr tid else Inl ErrTenantActorNotFound)"

definition GetTenantActor :: "string \<Rightarrow> 'k nm \<Rightarrow> nm_error + string" where
  "GetTenantActor tid s = getTenantActor tid s"

definition router_ConfigurePod ::
  "delivery \<Rightarrow> 'k deps \<Rightarrow> string \<Rightarrow> PodAttachArgs \<Rightarrow> ('k nm, nm_error, pod_result option) prog" where
  "router_ConfigurePod w d tid args s =
     (case GetTenantActor tid s of
        Inl _ \<Rightarrow> (Inl ErrTenantActorNotFound, s)
      | Inr a \<Rightarrow> actor_EnsurePod w d a args s)"

definition router_RemovePod :: "delivery \<Rightarrow> 'k deps \<Rightarrow> string \<Rightarrow> PodAttachArgs \<Rightarrow> ('k nm, nm_error, unit) prog" where
  "router_RemovePod w d tid args s =
     (case GetTenantActor tid s of
        Inl _ \<Rightarrow> (Inl ErrTenantActorNotFound, s)
      | Inr a \<Rightarrow> actor_RemovePod w d a args s)"

end
