(* ===== verification/Peer_Ops.thy ===== *)
theory Peer_Ops
  imports Pod_Ops
begin

text \<open>
  Peering with other nodes and snapshots of the local tenants: \<open>nops.go\<close> of \<open>internal/nmanager\<close>, and the proxy
  operations of \<open>tops.go\<close>.
\<close>

subsection \<open>Snapshots\<close>

text \<open>The name of a pod in a snapshot is the key split and joined again; entries without an address are skipped.\<close>

fun snapshot_pods :: "(string \<times> ContainerNetInfo) list \<Rightarrow> TenantPodInfo list" where
  "snapshot_pods [] = []"
| "snapshot_pods ((key, info) # allocs) =
     (if ci_IP info = [] then snapshot_pods allocs
      else let (namespace, name) = splitPodKey key;
               name' = (if namespace \<noteq> [] then namespace @ ''/'' @ name else name)
           in \<lparr>tp_Name = name', tp_IP = ci_IP info\<rparr> # snapshot_pods allocs)"

definition buildTenantSnapshot :: "TenantRecord \<Rightarrow> nm_error + TenantInfraSnapshot" where
  "buildTenantSnapshot r =
     (case (rec_Backend r, rec_Subnet r) of
        (Some be, Some sn) \<Rightarrow>
          let snap0 = \<lparr>sn_Subnet = Some sn, sn_VNI = 0, sn_VTEPDev = [], sn_VTEPIP = [], sn_VTEPMAC = [], sn_MTU = 1500,
                       sn_Bridge = [], sn_BridgeIP = [], sn_BridgeMAC = [], sn_Pods = []\<rparr>;
              snap1 = (case backend_VTEP be of
                         None \<Rightarrow> snap0
                       | Some v \<Rightarrow> snap0\<lparr>sn_VTEPDev := dv_name v,
                           sn_VTEPIP := (case device_ip v of None \<Rightarrow> [] | Some a \<Rightarrow> a),
                           sn_VTEPMAC := dv_mac v, sn_VNI := word_of_int (dv_vni v)\<rparr>);
              snap2 = (case backend_Bridge be of
                         None \<Rightarrow> snap1
                       | Some b \<Rightarrow> snap1\<lparr>sn_Bridge := dv_name b,
                           sn_BridgeIP := (case device_ip b of None \<Rightarrow> [] | Some a \<Rightarrow> a),
                           sn_BridgeMAC := dv_mac b\<rparr>)
          in Inr (case rec_IPAM r of
                    None \<Rightarrow> snap2
                  | Some im \<Rightarrow> snap2\<lparr>sn_Pods := snapshot_pods (ListAllocations im)\<rparr>)
      | _ \<Rightarrow> Inl TenantNotInitialized)"

definition SnapshotTenantInfra :: "string \<Rightarrow> 'k nm \<Rightarrow> nm_error + TenantInfraSnapshot" where
  "SnapshotTenantInfra tid s =
     (case nm_TenantRecords s tid of None \<Rightarrow> Inl (NoTenantRecord tid) | Some r \<Rightarrow> buildTenantSnapshot r)"

definition SnapshotAllTenantInfra :: "'k nm \<Rightarrow> (string \<rightharpoonup> TenantInfraSnapshot)" where
  "SnapshotAllTenantInfra s =
     (\<lambda>tid. case nm_TenantRecords s tid of
              None \<Rightarrow> None
            | Some r \<Rightarrow> (case buildTenantSnapshot r of Inl _ \<Rightarrow> None | Inr snap \<Rightarrow> Some snap))"

subsection \<open>Kernel entries of a peer\<close>

definition remotePeersEqual :: "RemoteTenantInfra \<Rightarrow> RemoteTenantInfra \<Rightarrow> bool" where
  "remotePeersEqual a b =
     (if re_NodeName a \<noteq> re_NodeName b \<or> re_VNI a \<noteq> re_VNI b then False
      else if \<not> cidrEqual (re_Subnet a) (re_Subnet b) then False
      else if \<not> ipEqual (re_NodeIP a) (re_NodeIP b) \<or> \<not> ipEqual (re_VTEPIP a) (re_VTEPIP b) then False
      else macEqual (re_VTEPMAC a) (re_VTEPMAC b))"

definition arp_of :: "device \<Rightarrow> RemoteTenantInfra \<Rightarrow> ARPEntry" where
  "arp_of v re = \<lparr>ae_Device = dv_name v, ae_IP = re_VTEPIP re, ae_MAC = re_VTEPMAC re\<rparr>"

definition fdb_of :: "device \<Rightarrow> RemoteTenantInfra \<Rightarrow> FDBEntry" where
  "fdb_of v re = \<lparr>fe_Device = dv_name v, fe_IP = re_NodeIP re, fe_Mac = re_VTEPMAC re\<rparr>"

definition route_of :: "device \<Rightarrow> RemoteTenantInfra \<Rightarrow> Route" where
  "route_of v re = \<lparr>ro_Dst = re_Subnet re, ro_Device = dv_name v, ro_Gateway = re_VTEPIP re\<rparr>"

definition peer_device :: "TenantRecord \<Rightarrow> RemoteTenantInfra \<Rightarrow> nm_error + device" where
  "peer_device r re =
     (case rec_Backend r of
        None \<Rightarrow> Inl NilPanic
      | Some be \<Rightarrow>
          (case backend_VTEP be of
             None \<Rightarrow> Inl BackendNotVTEP
           | Some v \<Rightarrow> if re_VTEPIP re = [] \<or> re_VTEPMAC re = [] \<or> re_Subnet re = None then Inl RemoteVTEPMissing
                      else Inr v))"

definition ensurePeerEntries :: "'k deps \<Rightarrow> TenantRecord \<Rightarrow> RemoteTenantInfra \<Rightarrow> ('k nm, nm_error, unit) prog" where
  "ensurePeerEntries d r re =
     p_bind (\<lambda>s. (peer_device r re, s)) (\<lambda>v.
     p_bind (on_k NmTable (arp_Add (dp_nl d) (arp_of v re))) (\<lambda>_.
     p_bind (on_k NmTable (fdb_Add (dp_nl d) (fdb_of v re))) (\<lambda>_.
     on_k NmTable (route_Update (dp_nl d) (Some (route_of v re)) []))))"

definition removePeerEntries :: "'k deps \<Rightarrow> TenantRecord \<Rightarrow> RemoteTenantInfra \<Rightarrow> ('k nm, nm_error, unit) prog" where
  "removePeerEntries d r re =
     p_bind (\<lambda>s. (peer_device r re, s)) (\<lambda>v.
     p_bind (on_k NmTable (arp_Delete (dp_nl d) (arp_of v re))) (\<lambda>_.
     p_bind (on_k NmTable (fdb_Delete (dp_nl d) (fdb_of v re))) (\<lambda>_.
     on_k NmTable (route_Delete (dp_nl d) (route_of v re) []))))"

subsection \<open>The peers of a tenant record\<close>

definition getTenantRecord :: "string \<Rightarrow> 'k nm \<Rightarrow> nm_error + TenantRecord" where
  "getTenantRecord tid s =
     (case nm_TenantRecords s tid of
        None \<Rightarrow> Inl (NoTenantRecord tid)
      | Some r \<Rightarrow> if rec_Backend r = None then Inl (NoTenantRecord tid) else Inr r)"

definition requireManagers :: "'k nm \<Rightarrow> bool" where
  "requireManagers s \<longleftrightarrow> nm_ARP s \<and> nm_FDB s \<and> nm_Route s"

definition peers_map :: "TenantRecord \<Rightarrow> (string \<rightharpoonup> RemoteTenantInfra)" where
  "peers_map r = (case rec_Peers r of None \<Rightarrow> Map.empty | Some ps \<Rightarrow> map_of ps)"

definition lookupPeerState ::
  "string \<Rightarrow> string \<Rightarrow> RemoteTenantInfra \<Rightarrow> 'k nm \<Rightarrow> (RemoteTenantInfra option \<times> bool) \<times> 'k nm" where
  "lookupPeerState tid remoteNode desired s =
     (case nm_TenantRecords s tid of
        None \<Rightarrow> ((None, False), s)
      | Some r \<Rightarrow>
          let s1 = (if rec_Peers r = None then upd_rec tid (\<lambda>r. r\<lparr>rec_Peers := Some []\<rparr>) s else s) in
          (case peers_map r remoteNode of
             Some prev \<Rightarrow> ((Some prev, remotePeersEqual prev desired), s1)
           | None \<Rightarrow> ((None, False), s1)))"

definition storePeerState :: "string \<Rightarrow> RemoteTenantInfra \<Rightarrow> 'k nm \<Rightarrow> 'k nm" where
  "storePeerState tid remote =
     upd_rec tid (\<lambda>r. r\<lparr>rec_Peers := Some (AList.update (re_NodeName remote) remote
       (case rec_Peers r of None \<Rightarrow> [] | Some ps \<Rightarrow> ps))\<rparr>)"

definition deletePeerState :: "string \<Rightarrow> string \<Rightarrow> 'k nm \<Rightarrow> 'k nm" where
  "deletePeerState tid remoteNode =
     upd_rec tid (\<lambda>r. case rec_Peers r of None \<Rightarrow> r | Some ps \<Rightarrow> r\<lparr>rec_Peers := Some (AList.delete remoteNode ps)\<rparr>)"

definition getStoredPeer :: "string \<Rightarrow> string \<Rightarrow> 'k nm \<Rightarrow> RemoteTenantInfra option" where
  "getStoredPeer tid remoteNode s =
     (case nm_TenantRecords s tid of None \<Rightarrow> None | Some r \<Rightarrow> peers_map r remoteNode)"

definition EnsurePeer :: "'k deps \<Rightarrow> string \<Rightarrow> RemoteTenantInfra \<Rightarrow> ('k nm, nm_error, unit) prog" where
  "EnsurePeer d tid remote s =
     (if re_NodeName remote = [] then (Inl NodeNameEmpty, s)
      else case getTenantRecord tid s of
             Inl e \<Rightarrow> (Inl e, s)
           | Inr ltr \<Rightarrow>
               if \<not> requireManagers s then (Inl ManagersNotInitialized, s)
               else case lookupPeerState tid (re_NodeName remote) remote s of
                      ((prev, skip), s1) \<Rightarrow>
                        if skip then (Inr (), s1)
                        else p_bind (case prev of
                                       None \<Rightarrow> p_ret ()
                                     | Some pv \<Rightarrow> p_bind (removePeerEntries d ltr pv) (\<lambda>_ s.
                                                  (Inr (), deletePeerState tid (re_NodeName pv) s))) (\<lambda>_.
                             p_bind (ensurePeerEntries d ltr remote) (\<lambda>_ s.
                             (Inr (), storePeerState tid remote s))) s1)"

definition RemovePeer :: "'k deps \<Rightarrow> string \<Rightarrow> RemoteTenantInfra \<Rightarrow> ('k nm, nm_error, unit) prog" where
  "RemovePeer d tid remote s =
     (if re_NodeName remote = [] then (Inl NodeNameEmpty, s)
      else case getTenantRecord tid s of
             Inl _ \<Rightarrow> (Inr (), s)
           | Inr ltr \<Rightarrow>
               if \<not> requireManagers s then (Inl ManagersNotInitialized, s)
               else case getStoredPeer tid (re_NodeName remote) s of
                      None \<Rightarrow> (Inr (), s)
                    | Some stored \<Rightarrow>
                        p_bind (removePeerEntries d ltr stored) (\<lambda>_ s.
                        (Inr (), deletePeerState tid (re_NodeName stored) s)) s)"

text \<open>The peers are forgotten before their entries are removed, so a failure leaves entries without a peer.\<close>

definition FlushTenant :: "'k deps \<Rightarrow> string \<Rightarrow> ('k nm, nm_error, unit) prog" where
  "FlushTenant d tid s =
     (case getTenantRecord tid s of
        Inl _ \<Rightarrow> (Inr (), s)
      | Inr ltr \<Rightarrow>
          if \<not> requireManagers s then (Inl ManagersNotInitialized, s)
          else p_each (\<lambda>(_, peer). removePeerEntries d ltr peer)
                 (case rec_Peers ltr of None \<Rightarrow> [] | Some ps \<Rightarrow> ps)
                 (upd_rec tid (\<lambda>r. r\<lparr>rec_Peers := Some []\<rparr>) s))"

subsection \<open>The proxy operations of tops.go\<close>

definition zero_remote :: RemoteTenantInfra where
  "zero_remote = \<lparr>re_NodeName = [], re_NodeIP = [], re_VTEPIP = [], re_VTEPMAC = [], re_Subnet = None, re_VNI = 0\<rparr>"

definition EnsureDefaultTenantProxy :: "string \<Rightarrow> RemoteTenantInfra \<Rightarrow> ('k nm, nm_error, unit) prog" where
  "EnsureDefaultTenantProxy tid remote s =
     (case (case nm_DefaultRoutes s tid of None \<Rightarrow> None | Some m \<Rightarrow> m (re_NodeName remote)) of
        None \<Rightarrow> if remotePeersEqual zero_remote remote then (Inr (), s) else (Inr (), s)
      | Some _ \<Rightarrow> (Inr (), s))"

definition RemoveDefaultTenantProxy :: "string \<Rightarrow> RemoteTenantInfra \<Rightarrow> ('k nm, nm_error, unit) prog" where
  "RemoveDefaultTenantProxy tid remote s = (Inr (), s)"

end
