(* ===== verification/NM_Invariant.thy ===== *)
theory NM_Invariant
  imports Subnet_Properties IPAM_Properties Peer_Ops
begin

text \<open>
  The invariant that ties the tenant records of the network manager to its subnet manager: the address manager of
  every record is sound, works on the subnet of the record, and that subnet lies inside the network the
  subnet manager holds for the tenant. It is kept by every operation, also by those that fail half-way.
\<close>

subsection \<open>The invariant\<close>

text \<open>Peers are stored under the name of their node.\<close>

definition peers_ok :: "TenantRecord \<Rightarrow> bool" where
  "peers_ok r \<longleftrightarrow> (\<forall>n p. peers_map r n = Some p \<longrightarrow> re_NodeName p = n)"

definition rec_ok :: "trie_manager \<Rightarrow> string \<Rightarrow> TenantRecord \<Rightarrow> bool" where
  "rec_ok sm tid r \<longleftrightarrow> tid \<noteq> [] \<and> peers_ok r \<and>
     (\<exists>im n bs net cs. rec_IPAM r = Some im \<and> ipam_inv im n bs \<and> rec_Subnet r = Some n \<and>
        tm_List sm tid = Some net \<and> net_pfx net cs \<and> prefix cs bs)"

definition nm_inv :: "ipnet \<Rightarrow> 'k nm \<Rightarrow> bool" where
  "nm_inv rt s \<longleftrightarrow> tm_inv (nm_Subnet s) \<and> tm_Root (nm_Subnet s) = rt \<and> (\<forall>tid r. nm_TenantRecords s tid = Some r \<longrightarrow> rec_ok (nm_Subnet s) tid r)"

definition pods_of :: "'k nm \<Rightarrow> string \<Rightarrow> string \<Rightarrow> ContainerNetInfo option" where
  "pods_of s tid key =
     (case nm_TenantRecords s tid of
        None \<Rightarrow> None
      | Some r \<Rightarrow> (case rec_IPAM r of None \<Rightarrow> None | Some im \<Rightarrow> GetAllocation im key))"

definition quiet :: "'k nm \<Rightarrow> bool" where
  "quiet s \<longleftrightarrow> (\<forall>tid r. nm_TenantRecords s tid = Some r \<longrightarrow> rec_expandCh r = None)"

lemma nm_invD: "nm_inv rt s \<Longrightarrow> tm_inv (nm_Subnet s)" "nm_inv rt s \<Longrightarrow> nm_TenantRecords s tid = Some r \<Longrightarrow> rec_ok (nm_Subnet s) tid r"
  by (auto simp: nm_inv_def)

lemma nm_inv_root: "nm_inv rt s \<Longrightarrow> tm_Root (nm_Subnet s) = rt"
  by (simp add: nm_inv_def)

text \<open>What a program that only runs inside the kernel leaves alone.\<close>

definition same_tables :: "'k nm \<Rightarrow> 'k nm \<Rightarrow> bool" where
  "same_tables s s' \<longleftrightarrow> nm_TenantRecords s' = nm_TenantRecords s \<and> nm_Subnet s' = nm_Subnet s \<and>
     nm_TenantActors s' = nm_TenantActors s \<and> nm_emitter s' = nm_emitter s \<and> nm_NodeName s' = nm_NodeName s \<and>
     nm_TP s' = nm_TP s"

lemma same_tables_refl [simp]: "same_tables s s"
  by (simp add: same_tables_def)

lemma same_tables_trans: "same_tables s s1 \<Longrightarrow> same_tables s1 s2 \<Longrightarrow> same_tables s s2"
  by (simp add: same_tables_def)

lemma same_tables_k [simp]: "same_tables s (s\<lparr>nm_k := k\<rparr>)"
  by (simp add: same_tables_def)

lemma on_k_same [simp]: "same_tables s (snd (on_k w p s))"
  by (auto simp: on_k_def split: prod.splits sum.splits)

lemma p_bind_same:
  assumes "\<And>s. same_tables s (snd (m s))" "\<And>a s. same_tables s (snd (f a s))"
  shows "same_tables s (snd (p_bind m f s))"
proof -
  obtain r s1 where m: "m s = (r, s1)" by fastforce
  have "same_tables s s1" using assms(1) [of s] m by simp
  then show ?thesis using same_tables_trans [OF _ assms(2)] m by (cases r) (auto simp: p_bind_def)
qed

lemma p_each_same: "(\<And>x s. same_tables s (snd (f x s))) \<Longrightarrow> same_tables s (snd (p_each f xs s))"
proof (induction xs arbitrary: s)
  case (Cons x xs)
  obtain r s1 where f: "f x s = (r, s1)" by fastforce
  have "same_tables s s1" using Cons.prems [of s x] f by simp
  then show ?case using same_tables_trans [OF _ Cons.IH [OF Cons.prems]] f by (cases r) auto
qed simp

lemma same_tables_inv: "same_tables s s' \<Longrightarrow> nm_inv rt s' = nm_inv rt s" "same_tables s s' \<Longrightarrow> quiet s' = quiet s"
  by (auto simp: same_tables_def nm_inv_def quiet_def)

lemma tenant_policy_same [simp]: "same_tables s (snd (tenant_policy d tid be s))"
  by (simp add: tenant_policy_def Let_def)

subsection \<open>Records\<close>

lemma upd_rec_sel [simp]:
  "nm_Subnet (upd_rec tid f s) = nm_Subnet s"
  "nm_TenantActors (upd_rec tid f s) = nm_TenantActors s"
  "nm_emitter (upd_rec tid f s) = nm_emitter s"
  "nm_NodeName (upd_rec tid f s) = nm_NodeName s"
  "nm_TP (upd_rec tid f s) = nm_TP s"
  "nm_k (upd_rec tid f s) = nm_k s"
  by (auto simp: upd_rec_def split: option.splits)

lemma upd_rec_records:
  "nm_TenantRecords (upd_rec tid f s) tid' = (if tid' = tid then map_option f (nm_TenantRecords s tid) else nm_TenantRecords s tid')"
  by (auto simp: upd_rec_def split: option.splits)

lemma upd_rec_dom [simp]: "dom (nm_TenantRecords (upd_rec tid f s)) = dom (nm_TenantRecords s)"
  by (auto simp: upd_rec_def split: option.splits)

lemma emit_sel [simp]:
  "nm_Subnet (emitNodeStoreEvent ev s) = nm_Subnet s"
  "nm_TenantRecords (emitNodeStoreEvent ev s) = nm_TenantRecords s"
  "nm_TenantActors (emitNodeStoreEvent ev s) = nm_TenantActors s"
  "nm_NodeName (emitNodeStoreEvent ev s) = nm_NodeName s"
  "nm_k (emitNodeStoreEvent ev s) = nm_k s"
  by (auto simp: emitNodeStoreEvent_def split: option.splits)

lemma emit_inv [simp]: "nm_inv rt (emitNodeStoreEvent ev s) = nm_inv rt s" "quiet (emitNodeStoreEvent ev s) = quiet s"
  by (simp_all add: nm_inv_def quiet_def)

text \<open>Changing a record keeps the invariant when the record stays well formed.\<close>

lemma upd_rec_inv:
  assumes "nm_inv rt s" "\<And>r. nm_TenantRecords s tid = Some r \<Longrightarrow> rec_ok (nm_Subnet s) tid (f r)"
  shows "nm_inv rt (upd_rec tid f s)"
  using assms by (auto simp: nm_inv_def upd_rec_records)

lemma upd_rec_quiet:
  assumes "quiet s" "\<And>r. nm_TenantRecords s tid = Some r \<Longrightarrow> rec_expandCh (f r) = None"
  shows "quiet (upd_rec tid f s)"
  using assms by (auto simp: quiet_def upd_rec_records)

lemma peers_ok_upd [simp]:
  "peers_ok (r\<lparr>rec_IPAM := im\<rparr>) = peers_ok r" "peers_ok (r\<lparr>rec_Subnet := sn\<rparr>) = peers_ok r"
  "peers_ok (r\<lparr>rec_Backend := be\<rparr>) = peers_ok r" "peers_ok (new_record net b ipm)"
  by (simp_all add: peers_ok_def peers_map_def new_record_def)

lemma rec_ok_ipam:
  assumes "rec_ok sm tid r" "rec_IPAM r = Some im" "\<And>n bs. ipam_inv im n bs \<Longrightarrow> ipam_inv im' n bs"
  shows "rec_ok sm tid (r\<lparr>rec_IPAM := Some im'\<rparr>)"
  using assms by (fastforce simp: rec_ok_def)

lemma rec_ok_other:
  "rec_ok sm tid (r\<lparr>rec_Backend := b\<rparr>) = rec_ok sm tid r"
  "rec_ok sm tid (r\<lparr>rec_State := st\<rparr>) = rec_ok sm tid r"
  "rec_ok sm tid (r\<lparr>rec_expandCh := c\<rparr>) = rec_ok sm tid r"
  "rec_ok sm tid (r\<lparr>rec_lastExpandErr := e\<rparr>) = rec_ok sm tid r"
  by (simp_all add: rec_ok_def peers_ok_def peers_map_def)

lemma rec_ok_list: "tm_List sm' tid = tm_List sm tid \<Longrightarrow> rec_ok sm' tid r = rec_ok sm tid r"
  by (simp add: rec_ok_def)

lemma rec_ok_dom: "rec_ok sm tid r \<Longrightarrow> tid \<in> dom (tm_List sm)"
  by (auto simp: rec_ok_def)

subsection \<open>The subnet manager\<close>

lemma tm_List_pfx: "tm_inv sm \<Longrightarrow> tm_List sm tid = Some net \<Longrightarrow> \<exists>cs. net_pfx net cs"
  using node_prefix_pfx unfolding tm_inv_def tm_List_Some by blast

lemma tm_Expand_half:
  assumes "tm_inv sm" "tm_Expand sm tid = Inr (sm', net')"
  shows "\<exists>net cs b. tm_List sm tid = Some net \<and> net_pfx net (cs @ [b]) \<and> net_pfx net' cs"
proof -
  obtain rb where inv: "trie_inv (tm_t sm) rb" using assms(1) by (auto simp: tm_inv_def)
  obtain q b where e: "AllocMap (tm_t sm) tid = Some (q @ [b])" "sm' = sm\<lparr>tm_t := merged (tm_t sm) tid q\<rparr>"
    "net' = node_prefix (tm_t sm') q" "trie_inv (tm_t sm') rb"
    using tm_Expand_merged [OF inv assms(2)] .
  have "AllocMap (tm_t sm') tid = Some q" using e(2) by (simp add: merged_def)
  then have "net_pfx net' (rb @ q)" using node_prefix_pfx [OF e(4)] e(3) by simp
  moreover have "net_pfx (node_prefix (tm_t sm) (q @ [b])) ((rb @ q) @ [b])"
    using node_prefix_pfx [OF inv e(1)] by simp
  ultimately show ?thesis using e(1) unfolding tm_List_Some by blast
qed

lemma tm_Deallocate_fails:
  assumes "tm_inv sm" "tm_Deallocate sm tid = Inl e" "tid \<noteq> []"
  shows "tm_List sm tid = Some (tm_Root sm)"
proof -
  obtain rb where inv: "trie_inv (tm_t sm) rb" using assms(1) by (auto simp: tm_inv_def)
  obtain p where p: "AllocMap (tm_t sm) tid = Some p"
    using assms(2,3) by (auto simp: tm_Deallocate_def GetNodeByID_def split: if_splits)
  have "p = []"
    using assms(2,3) p Deallocate_eq [OF inv p]
    by (cases "p = []") (auto simp: tm_Deallocate_def GetNodeByID_def)
  moreover have "node_prefix (tm_t sm) [] = tm_Root sm"
    using node_prefix_pfx [OF inv, of tid] p calculation inv net_pfx_inject
    by (auto simp: trie_inv_def tm_Root_def)
  ultimately show ?thesis using p by (auto simp: tm_List_Some)
qed

lemma NewBitmapIPAM_ok:
  assumes "net_pfx n bs" "NewBitmapIPAM (Some n) = Inr im"
  shows "ipam_inv im n bs"
proof -
  have "length bs \<le> 32" using assms(1) by (auto simp: net_pfx_def)
  have "length bs \<le> 30"
  proof (rule ccontr)
    assume "\<not> length bs \<le> 30"
    then have "length bs = 31 \<or> length bs = 32" using \<open>length bs \<le> 32\<close> by auto
    then have "shl1 (32 - int (length bs)) < 4" by (auto simp: shl1_def)
    then show False using assms(2) net_pfxD(5) [OF assms(1)] by (auto simp: NewBitmapIPAM_def)
  qed
  then show ?thesis using NewBitmapIPAM_inv [of n bs] assms by (auto simp: pod_net_def)
qed

lemma drop_subnet_sel [simp]:
  "nm_TenantRecords (drop_subnet tid s) = nm_TenantRecords s"
  "nm_TenantActors (drop_subnet tid s) = nm_TenantActors s"
  "nm_emitter (drop_subnet tid s) = nm_emitter s"
  "nm_NodeName (drop_subnet tid s) = nm_NodeName s"
  "nm_TP (drop_subnet tid s) = nm_TP s"
  "nm_k (drop_subnet tid s) = nm_k s"
  by (auto simp: drop_subnet_def split: sum.splits)

lemma drop_subnet_list:
  assumes "tm_inv (nm_Subnet s)"
  shows "tm_inv (nm_Subnet (drop_subnet tid s)) \<and> tm_Root (nm_Subnet (drop_subnet tid s)) = tm_Root (nm_Subnet s) \<and>
    (tm_List (nm_Subnet (drop_subnet tid s)) = (tm_List (nm_Subnet s))(tid := None) \<or>
     nm_Subnet (drop_subnet tid s) = nm_Subnet s \<and> (tid = [] \<or> tm_List (nm_Subnet s) tid = Some (tm_Root (nm_Subnet s))))"
proof (cases "tm_Deallocate (nm_Subnet s) tid")
  case (Inl e)
  then show ?thesis using tm_Deallocate_fails [OF assms Inl] assms by (auto simp: drop_subnet_def)
next
  case (Inr sm)
  then show ?thesis using tm.dealloc_ok [OF assms Inr] by (simp add: drop_subnet_def)
qed

lemma drop_subnet_inv:
  assumes "tm_inv (nm_Subnet s)" "tm_Root (nm_Subnet s) = rt" "\<And>tid' r. nm_TenantRecords s tid' = Some r \<Longrightarrow> tid' \<noteq> tid \<Longrightarrow> rec_ok (nm_Subnet s) tid' r"
    "nm_TenantRecords s tid = None"
  shows "nm_inv rt (drop_subnet tid s)"
proof -
  have "rec_ok (nm_Subnet (drop_subnet tid s)) tid' r" if "nm_TenantRecords s tid' = Some r" for tid' r
  proof -
    have "tid' \<noteq> tid" using that assms(4) by auto
    then have "tm_List (nm_Subnet (drop_subnet tid s)) tid' = tm_List (nm_Subnet s) tid'"
      using drop_subnet_list [OF assms(1), of tid] by auto
    then show ?thesis using assms(3) [OF that \<open>tid' \<noteq> tid\<close>] rec_ok_list by blast
  qed
  then show ?thesis using drop_subnet_list [OF assms(1), of tid] assms(2) by (simp add: nm_inv_def)
qed

subsection \<open>Tenants\<close>

text \<open>The state between the allocation of the subnet and the commit: only the subnet manager and the kernel moved.\<close>

definition midway :: "string \<Rightarrow> ipnet \<Rightarrow> 'k nm \<Rightarrow> 'k nm \<Rightarrow> bool" where
  "midway tid net s s' \<longleftrightarrow> tm_Allocate (nm_Subnet s) tid = Inr (nm_Subnet s', net) \<and> tm_inv (nm_Subnet s') \<and> tm_List (nm_Subnet s') = (tm_List (nm_Subnet s))(tid \<mapsto> net) \<and>
     tm_Root (nm_Subnet s') = tm_Root (nm_Subnet s) \<and> nm_TenantRecords s' = nm_TenantRecords s \<and>
     nm_TenantActors s' = nm_TenantActors s \<and> nm_emitter s' = nm_emitter s \<and> nm_NodeName s' = nm_NodeName s"

lemma midway_same: "midway tid net s s1 \<Longrightarrow> same_tables s1 s2 \<Longrightarrow> midway tid net s s2"
  by (simp add: midway_def same_tables_def)

text \<open>
  What the creation of a tenant does, on its three outcomes: it fails before anything was allocated, it fails later
  and gives the subnet back, or it gets to the commit.
\<close>

lemma EnsureTenant_create_cases:
  assumes inv: "tm_inv (nm_Subnet s)" and run: "EnsureTenant_create d tid s = (res, s')"
  obtains (refused) e where "res = Inl e" "s' = s"
  | (undone) e net s3 where "res = Inl e" "midway tid net s s3" "s' = drop_subnet tid s3" "tid \<noteq> []"
  | (lost) be net s3 where "res = Inr ()" "midway tid net s s3" "s' = undo_tenant d tid be s3" "tid \<noteq> []"
      "nm_TenantRecords s tid \<noteq> None"
  | (commit) net be ipm s3 where "res = Inr ()" "midway tid net s s3" "tid \<noteq> []" "nm_TenantRecords s tid = None"
      "NewBitmapIPAM (Some net) = Inr ipm"
      "s' = emitNodeStoreEvent EventUpdate (s3\<lparr>nm_TenantRecords := (nm_TenantRecords s)(tid \<mapsto> new_record net be ipm),
                               nm_TenantActors := insert tid (nm_TenantActors s)\<rparr>)"
proof (cases "tm_Allocate (nm_Subnet s) tid")
  case (Inl e)
  then show ?thesis using run that(1) [of "NmSubnet e"] by (simp add: EnsureTenant_create_def)
next
  case (Inr x)
  obtain sm net where x: "x = (sm, net)" by (cases x)
  note al = Inr [unfolded x]
  have ne: "tid \<noteq> []" using al by (auto simp: tm_Allocate_def)
  have m1: "midway tid net s (s\<lparr>nm_Subnet := sm\<rparr>)" using tm.alloc_ok [OF inv al] al by (simp add: midway_def)
  let ?bc = "on_k NmBackend (bv_Create (dp_nl d) (dp_sha1 d) (dp_sha256 d) NewBridgeVTEPBackend tid net (nm_NodeName s))
                 (s\<lparr>nm_Subnet := sm\<rparr>)"
  obtain rb s2 where b: "?bc = (rb, s2)" by fastforce
  have "same_tables (s\<lparr>nm_Subnet := sm\<rparr>) s2" by (metis b on_k_same snd_conv)
  then have m2: "midway tid net s s2" by (rule midway_same [OF m1])
  show ?thesis
  proof (cases rb)
    case (Inl e)
    show ?thesis
      by (rule that(2) [of e, OF _ m2 _ ne]) (use run al b Inl in \<open>auto simp: EnsureTenant_create_def\<close>)
  next
    case (Inr be)
    obtain rp s3 where t: "tenant_policy d tid be s2 = (rp, s3)" by fastforce
    have "same_tables s2 s3" by (metis t tenant_policy_same snd_conv)
    then have m3: "midway tid net s s3" by (rule midway_same [OF m2])
    have m4: "midway tid net s (s3\<lparr>nm_k := k\<rparr>)" for k by (rule midway_same [OF m3]) simp
    note eq = run [unfolded EnsureTenant_create_def] al b Inr t
    show ?thesis
    proof (cases rp)
      case (Inl e)
      show ?thesis by (rule that(2) [of e, OF _ m4 _ ne]) (use eq Inl in \<open>auto simp: undo_tenant_def\<close>)
    next
      case (Inr u)
      note rp = this
      show ?thesis
      proof (cases "NewBitmapIPAM (Some net)")
        case (Inl e)
        show ?thesis
          by (rule that(2) [of "NmIpam e", OF _ m4 _ ne]) (use eq rp Inl in \<open>auto simp: undo_tenant_def\<close>)
      next
        case (Inr ipm)
        have r3: "nm_TenantRecords s3 = nm_TenantRecords s" "nm_TenantActors s3 = nm_TenantActors s"
          using m3 by (auto simp: midway_def)
        show ?thesis
        proof (cases "nm_TenantRecords s tid")
          case None
          show ?thesis by (rule that(4) [OF _ m3 ne None Inr]) (use eq rp Inr r3 None in auto)
        next
          case (Some r)
          show ?thesis by (rule that(3) [OF _ m3 _ ne]) (use eq rp Inr r3 Some in auto)
        qed
      qed
    qed
  qed
qed

lemma midway_inv:
  assumes "nm_inv rt s" "midway tid net s s3" "nm_TenantRecords s tid = None"
  shows "nm_inv rt s3"
proof -
  have "rec_ok (nm_Subnet s3) tid' r" if "nm_TenantRecords s tid' = Some r" for tid' r
  proof -
    have "tid' \<noteq> tid" using that assms(3) by auto
    then have "tm_List (nm_Subnet s3) tid' = tm_List (nm_Subnet s) tid'" using assms(2) by (simp add: midway_def)
    then show ?thesis using nm_invD(2) [OF assms(1) that] rec_ok_list by blast
  qed
  then show ?thesis using assms(2) nm_inv_root [OF assms(1)] by (simp add: nm_inv_def midway_def)
qed

lemma commit_inv:
  assumes "nm_inv rt s" "midway tid net s s3" "tid \<noteq> []" "nm_TenantRecords s tid = None" "NewBitmapIPAM (Some net) = Inr ipm"
  shows "nm_inv rt (s3\<lparr>nm_TenantRecords := (nm_TenantRecords s)(tid \<mapsto> new_record net be ipm), nm_TenantActors := A\<rparr>)"
proof -
  have i3: "nm_inv rt s3" by (rule midway_inv [OF assms(1,2,4)])
  have l: "tm_List (nm_Subnet s3) tid = Some net" using assms(2) by (simp add: midway_def)
  obtain cs where cs: "net_pfx net cs" using tm_List_pfx [OF nm_invD(1) [OF i3] l] by blast
  have "rec_ok (nm_Subnet s3) tid (new_record net be ipm)"
    using NewBitmapIPAM_ok [OF cs assms(5)] l cs assms(3) peers_ok_upd(4) [of net be ipm] by (auto simp: rec_ok_def new_record_def)
  moreover have "rec_ok (nm_Subnet s3) tid' r" if "nm_TenantRecords s tid' = Some r" for tid' r
    using nm_invD(2) [OF i3, of tid' r] that assms(2) by (simp add: midway_def)
  ultimately show ?thesis using nm_invD(1) [OF i3] nm_inv_root [OF i3] by (auto simp: nm_inv_def)
qed

lemma EnsureTenant_inv:
  assumes "nm_inv rt s" "quiet s"
  shows "nm_inv rt (snd (EnsureTenant d tid s)) \<and> quiet (snd (EnsureTenant d tid s))"
proof (cases "tid = [] \<or> nm_TenantRecords s tid \<noteq> None")
  case True
  then show ?thesis using assms by (auto simp: EnsureTenant_def)
next
  case False
  obtain res s' where r: "EnsureTenant_create d tid s = (res, s')" by fastforce
  have e: "snd (EnsureTenant d tid s) = s'" using False r by (auto simp: EnsureTenant_def)
  show ?thesis unfolding e
  proof (cases rule: EnsureTenant_create_cases [OF nm_invD(1) [OF assms(1)] r])
    case (1 e) note refused = this
    then show "nm_inv rt s' \<and> quiet s'" using assms by simp
  next
    case (2 e net s3) note undone = this
    have "nm_inv rt s3" using midway_inv [OF assms(1) undone(2)] False by auto
    moreover have "nm_TenantRecords s3 = nm_TenantRecords s" using undone(2) by (simp add: midway_def)
    ultimately show "nm_inv rt s' \<and> quiet s'"
      using undone(3) drop_subnet_inv [of s3 rt tid] False assms(2) by (auto simp: nm_inv_def quiet_def)
  next
    case (3 be net s3) note lost = this
    then show "nm_inv rt s' \<and> quiet s'" using False by simp
  next
    case (4 net be ipm s3) note commit = this
    then show "nm_inv rt s' \<and> quiet s'"
      using commit_inv [OF assms(1) commit(2-5)] assms(2) by (auto simp: quiet_def new_record_def)
  qed
qed

text \<open>\<open>RemoveTenant\<close> on a tenant with a record always ends with the record and the actor gone.\<close>

lemma RemoveTenant_eq:
  assumes "tid \<noteq> []" "nm_TenantRecords s tid = Some r" "RemoveTenant d tid s = (res, s')"
  obtains k2 X where "res = Inr ()" "nm_Subnet X = nm_Subnet s"
    "s' = emitNodeStoreEvent EventDelete ((drop_subnet tid X)\<lparr>nm_k := k2, nm_TenantActors := nm_TenantActors s - {tid},
       nm_TenantRecords := (nm_TenantRecords s)(tid := None)\<rparr>)" "nm_emitter X = nm_emitter s" "nm_NodeName X = nm_NodeName s"
proof -
  let ?close = "upd_rec tid (\<lambda>r. r\<lparr>rec_State := TenantStateClosing\<rparr>) s"
  define X where "X = (case rec_Backend r of None \<Rightarrow> ?close
     | Some be \<Rightarrow> (case bv_Delete (dp_nl d) be (nm_k ?close) of
                              (Inl _, k') \<Rightarrow> ?close\<lparr>nm_k := k'\<rparr>
                            | (Inr be', k') \<Rightarrow> upd_rec tid (\<lambda>r. r\<lparr>rec_Backend := Some be'\<rparr>) (?close\<lparr>nm_k := k'\<rparr>)))"
  have X: "nm_Subnet X = nm_Subnet s" "nm_TenantActors X = nm_TenantActors s" "nm_emitter X = nm_emitter s"
    "nm_NodeName X = nm_NodeName s" "(nm_TenantRecords X)(tid := None) = (nm_TenantRecords s)(tid := None)"
    by (auto simp: X_def upd_rec_records fun_eq_iff split: option.splits prod.splits sum.splits)
  define br where "br = (case rec_Backend r of None \<Rightarrow> [] | Some be \<Rightarrow> dev_name (backend_Bridge be))"
  define vx where "vx = (case rec_Backend r of None \<Rightarrow> [] | Some be \<Rightarrow> dev_name (backend_VTEP be))"
  define s3 where "s3 = drop_subnet tid X"
  define s4 where "s4 = (if nm_TP s3 then s3\<lparr>nm_k := snd (DeleteTenantChains (dp_ipt d) tid br vx (nm_k s3))\<rparr> else s3)"
  have s4: "s4 = s3\<lparr>nm_k := nm_k s4\<rparr>" by (simp add: s4_def)
  have "RemoveTenant d tid s = (Inr (), emitNodeStoreEvent EventDelete (s4\<lparr>nm_TenantActors := nm_TenantActors s4 - {tid},
      nm_TenantRecords := (nm_TenantRecords s4)(tid := None)\<rparr>))"
    using assms(1,2)
    by (cases "rec_Backend r") (simp_all add: RemoveTenant_def Let_def X_def br_def vx_def s3_def s4_def)
  moreover have "nm_TenantActors s4 = nm_TenantActors s" "(nm_TenantRecords s4)(tid := None) = (nm_TenantRecords s)(tid := None)"
    using X(2,5) by (simp_all add: s4_def s3_def)
  ultimately have "res = Inr ()" "s' = emitNodeStoreEvent EventDelete (s4\<lparr>nm_TenantActors := nm_TenantActors s - {tid},
      nm_TenantRecords := (nm_TenantRecords s)(tid := None)\<rparr>)" using assms(3) by auto
  then show ?thesis using that [of X "nm_k s4"] X(1,3,4) s4 by (metis s3_def)
qed

lemma RemoveTenant_inv:
  assumes "nm_inv rt s" "quiet s"
  shows "nm_inv rt (snd (RemoveTenant d tid s)) \<and> quiet (snd (RemoveTenant d tid s))"
proof (cases "tid = [] \<or> nm_TenantRecords s tid = None")
  case True
  then show ?thesis using assms by (auto simp: RemoveTenant_def)
next
  case False
  then obtain r where r: "tid \<noteq> []" "nm_TenantRecords s tid = Some r" by auto
  obtain res s' where e: "RemoveTenant d tid s = (res, s')" by fastforce
  obtain k2 X where x: "nm_Subnet X = nm_Subnet s"
    "s' = emitNodeStoreEvent EventDelete ((drop_subnet tid X)\<lparr>nm_k := k2, nm_TenantActors := nm_TenantActors s - {tid},
       nm_TenantRecords := (nm_TenantRecords s)(tid := None)\<rparr>)"
    using RemoveTenant_eq [OF r e] by metis
  have t: "tm_inv (nm_Subnet X)" using nm_invD(1) [OF assms(1)] x(1) by simp
  note l = drop_subnet_list [OF t, of tid]
  have "rec_ok (nm_Subnet (drop_subnet tid X)) tid' r'" if "((nm_TenantRecords s)(tid := None)) tid' = Some r'" for tid' r'
  proof -
    have n: "tid' \<noteq> tid" "nm_TenantRecords s tid' = Some r'" using that by (auto split: if_splits)
    then have "tm_List (nm_Subnet (drop_subnet tid X)) tid' = tm_List (nm_Subnet s) tid'" using l x(1) by auto
    then show ?thesis using nm_invD(2) [OF assms(1) n(2)] rec_ok_list by blast
  qed
  then have "nm_inv rt s' \<and> quiet s'" using l assms(2) nm_inv_root [OF assms(1)] x(1) unfolding x(2) by (auto simp: nm_inv_def quiet_def)
  then show ?thesis by (simp add: e)
qed

subsection \<open>Expansion\<close>

text \<open>
  An expansion of a sound record is refused by the subnet manager, or by the devices, or succeeds; the address
  manager never refuses the network the subnet manager gives.
\<close>

lemma podcap_mono: "length cs < length bs \<Longrightarrow> length bs \<le> 30 \<Longrightarrow> podcap bs < podcap cs"
proof -
  assume a: "length cs < length bs" "length bs \<le> 30"
  have "(2::nat) ^ (32 - length bs) < 2 ^ (32 - length cs)" using a by (intro power_strict_increasing) auto
  then show ?thesis unfolding podcap_def using pod_size [OF a(2)] by (intro diff_less_mono) auto
qed

lemma ipam_pods_le: "ipam_inv im n bs \<Longrightarrow> length (IPs im) \<le> podcap bs"
proof -
  assume inv: "ipam_inv im n bs"
  note d = ipam_invD [OF inv]
  have m: "map_of (IPs im) k = Some v \<longleftrightarrow> (k, v) \<in> set (IPs im)" for k v using d(5) by simp
  have "inj_on (\<lambda>(k, v). ci_IP v) (set (IPs im))"
  proof (rule inj_onI)
    fix x y assume x: "x \<in> set (IPs im)" "y \<in> set (IPs im)" "(\<lambda>(k, v). ci_IP v) x = (\<lambda>(k, v). ci_IP v) y"
    obtain k v k' v' where xy: "x = (k, v)" "y = (k', v')" by (cases x; cases y)
    have a: "map_of (IPs im) k = Some v" "map_of (IPs im) k' = Some v'" "ci_IP v = ci_IP v'" using x xy m by auto
    have "k = k'" by (rule d(7) [OF a])
    with a xy show "x = y" by simp
  qed
  moreover have "(\<lambda>(k, v). ci_IP v) ` set (IPs im) \<subseteq> (\<lambda>i. indexToIP n (int i)) ` {..<podcap bs}"
    using d(4,6) m by fastforce
  ultimately have "card (set (IPs im)) \<le> card ((\<lambda>i. indexToIP n (int i)) ` {..<podcap bs})"
    by (intro card_inj_on_le) auto
  also have "\<dots> \<le> podcap bs" using card_image_le [of "{..<podcap bs}" "\<lambda>i. indexToIP n (int i)"] by simp
  finally show ?thesis using d(5) by (simp add: distinct_card distinct_map)
qed

lemma rec_ok_expand:
  assumes "tm_inv sm" "rec_ok sm tid r" "rec_IPAM r = Some im" "tm_Expand sm tid = Inr (sm', net)"
  shows "\<exists>im' bs. ipam_Expand im (Some net) = (None, im') \<and> ipam_inv im' net bs \<and> net_pfx net bs \<and> IPs im' = IPs im \<and>
    0 < Remaining im'"
proof -
  obtain n bs net0 cs0 where r: "ipam_inv im n bs" "tm_List sm tid = Some net0" "net_pfx net0 cs0" "prefix cs0 bs"
    using assms(2,3) by (auto simp: rec_ok_def)
  obtain cs b where e: "net_pfx net0 (cs @ [b])" "net_pfx net cs"
    using tm_Expand_half [OF assms(1,4)] r(2) by auto
  have c: "cs0 = cs @ [b]" by (rule net_pfx_unique [OF r(3) e(1)])
  then have p: "prefix cs bs" using r(4) by (metis append_prefixD)
  have l30: "length bs \<le> 30" using ipam_invD(2) [OF r(1)] by (simp add: pod_net_def)
  have lt: "length cs < length bs" using r(4) c prefix_length_le [OF r(4)] by simp
  then have "pod_net net cs" using e(2) l30 by (simp add: pod_net_def)
  then obtain im' where im': "ipam_Expand im (Some net) = (None, im')" "ipam_inv im' net cs" "ipam_exact im' net" "IPs im' = IPs im"
    using ipam_Expand_ok [OF r(1) _ p] by blast
  have "Remaining im' = int (podcap cs) - int (length (IPs im))"
    using remaining_count [OF im'(2)] exact_card [OF im'(2,3)] im'(4) by simp
  then have "0 < Remaining im'" using ipam_pods_le [OF r(1)] podcap_mono [OF lt l30] by linarith
  then show ?thesis using im' e(2) by blast
qed

lemma ExpandTenant_cases:
  assumes inv: "nm_inv rt s" and r: "nm_TenantRecords s tid = Some r" and run: "ExpandTenant d tid s = (res, s')"
  obtains (refused) e where "res = Inl (NmSubnet e)" "s' = s" "tm_Expand (nm_Subnet s) tid = Inl e"
  | (device) e sm net be k where "res = Inl (NmBackend e)" "tm_Expand (nm_Subnet s) tid = Inr (sm, net)"
      "s' = s\<lparr>nm_Subnet := sm, nm_k := k, nm_TenantRecords := (nm_TenantRecords s)(tid \<mapsto> r\<lparr>rec_Backend := be\<rparr>)\<rparr>"
  | (expanded) sm net be k im im' bs r' where "res = Inr r'" "tm_Expand (nm_Subnet s) tid = Inr (sm, net)"
      "rec_IPAM r = Some im" "ipam_Expand im (Some net) = (None, im')" "ipam_inv im' net bs" "net_pfx net bs" "IPs im' = IPs im"
      "0 < Remaining im'" "r' = r\<lparr>rec_Backend := be, rec_IPAM := Some im', rec_Subnet := Some net\<rparr>"
      "s' = s\<lparr>nm_Subnet := sm, nm_k := k, nm_TenantRecords := (nm_TenantRecords s)(tid \<mapsto> r')\<rparr>"
proof (cases "tm_Expand (nm_Subnet s) tid")
  case (Inl e)
  then show ?thesis using that(1) [of e] run r by (simp add: ExpandTenant_def)
next
  case (Inr x)
  obtain sm net where x: "x = (sm, net)" by (cases x)
  note ex = Inr [unfolded x]
  obtain im where im: "rec_IPAM r = Some im" using nm_invD(2) [OF inv r] by (auto simp: rec_ok_def)
  obtain im' bs where im': "ipam_Expand im (Some net) = (None, im')" "ipam_inv im' net bs" "net_pfx net bs" "IPs im' = IPs im"
      "0 < Remaining im'"
    using rec_ok_expand [OF nm_invD(1) [OF inv] nm_invD(2) [OF inv r] im ex] by blast
  define X where "X = (case rec_Backend r of
                        None \<Rightarrow> (None, None, nm_k s)
                      | Some be \<Rightarrow> (case bv_Update (dp_nl d) be (Some net) (nm_k s) of ((e, be'), k') \<Rightarrow> (e, Some be', k')))"
  obtain e2 be' k' where X: "X = (e2, be', k')" by (cases X)
  have b: "(case rec_Backend r of
                        None \<Rightarrow> (None, r, s\<lparr>nm_Subnet := sm\<rparr>)
                      | Some be \<Rightarrow>
                          (case bv_Update (dp_nl d) be (Some net) (nm_k (s\<lparr>nm_Subnet := sm\<rparr>)) of
                             ((e, be'), k') \<Rightarrow> (e, r\<lparr>rec_Backend := Some be'\<rparr>,
                                upd_rec tid (\<lambda>r. r\<lparr>rec_Backend := Some be'\<rparr>) (s\<lparr>nm_Subnet := sm, nm_k := k'\<rparr>))))
      = (e2, r\<lparr>rec_Backend := be'\<rparr>,
         s\<lparr>nm_Subnet := sm, nm_k := k', nm_TenantRecords := (nm_TenantRecords s)(tid \<mapsto> r\<lparr>rec_Backend := be'\<rparr>)\<rparr>)"
  proof (cases "rec_Backend r")
    case None
    then have "e2 = None" "be' = None" "k' = nm_k s" using X by (auto simp: X_def)
    moreover have "(nm_TenantRecords s)(tid \<mapsto> r\<lparr>rec_Backend := None\<rparr>) = nm_TenantRecords s"
      using r None by (auto simp: fun_eq_iff)
    ultimately show ?thesis using None by simp
  next
    case (Some be)
    then show ?thesis using X r by (auto simp: X_def upd_rec_def split: prod.splits)
  qed
  show ?thesis
  proof (cases e2)
    case (Some e)
    then have "res = Inl (NmBackend e) \<and> s' = s\<lparr>nm_Subnet := sm, nm_k := k', nm_TenantRecords := (nm_TenantRecords s)(tid \<mapsto> r\<lparr>rec_Backend := be'\<rparr>)\<rparr>"
      using run r ex b by (simp add: ExpandTenant_def)
    then show ?thesis using that(2) ex by blast
  next
    case None
    let ?r' = "r\<lparr>rec_Backend := be', rec_IPAM := Some im', rec_Subnet := Some net\<rparr>"
    have "res = Inr ?r' \<and> s' = s\<lparr>nm_Subnet := sm, nm_k := k', nm_TenantRecords := (nm_TenantRecords s)(tid \<mapsto> ?r')\<rparr>"
      using run r ex b None im im'(1) by (auto simp: ExpandTenant_def upd_rec_def Let_def)
    then show ?thesis using that(3) ex im im' by blast
  qed
qed

lemma ExpandTenant_none: "nm_TenantRecords s tid = None \<Longrightarrow> ExpandTenant d tid s = (Inl (NoTenantRecord tid), s)"
  by (simp add: ExpandTenant_def)

text \<open>The records change at one tenant only, and there neither the state nor the channel does.\<close>

definition same_ctl :: "'k nm \<Rightarrow> 'k nm \<Rightarrow> bool" where
  "same_ctl s s' \<longleftrightarrow> (\<forall>tid. map_option (\<lambda>r. (rec_expandCh r, rec_State r)) (nm_TenantRecords s' tid) =
     map_option (\<lambda>r. (rec_expandCh r, rec_State r)) (nm_TenantRecords s tid))"

lemma same_ctl_refl [simp]: "same_ctl s s"
  by (simp add: same_ctl_def)

lemma same_ctl_quiet: "same_ctl s s' \<Longrightarrow> quiet s \<Longrightarrow> quiet s'"
proof -
  assume a: "same_ctl s s'" "quiet s"
  have "rec_expandCh r = None" if "nm_TenantRecords s' tid = Some r" for tid r
    using a(1) [unfolded same_ctl_def, rule_format, of tid] a(2) that
    by (cases "nm_TenantRecords s tid") (auto simp: quiet_def)
  then show "quiet s'" by (simp add: quiet_def)
qed

lemma expand_list_inv:
  assumes inv: "nm_inv rt s" and ex: "tm_Expand (nm_Subnet s) tid = Inr (sm, net)" and ok: "rec_ok sm tid r'"
  shows "nm_inv rt (s\<lparr>nm_Subnet := sm, nm_k := k, nm_TenantRecords := (nm_TenantRecords s)(tid \<mapsto> r')\<rparr>)"
proof -
  note e = tm.expand_ok [OF nm_invD(1) [OF inv] ex]
  have "rec_ok sm tid' r''" if "nm_TenantRecords s tid' = Some r''" "tid' \<noteq> tid" for tid' r''
    using nm_invD(2) [OF inv that(1)] e that(2) rec_ok_list [of sm tid' "nm_Subnet s" r''] by simp
  then show ?thesis using e ok nm_inv_root [OF inv] by (auto simp: nm_inv_def)
qed

lemma rec_ok_after_expand:
  assumes inv: "nm_inv rt s" and r: "nm_TenantRecords s tid = Some r" and ex: "tm_Expand (nm_Subnet s) tid = Inr (sm, net)"
  shows "rec_ok sm tid r"
proof -
  obtain im n bs net0 cs0 where k: "tid \<noteq> []" "rec_IPAM r = Some im" "ipam_inv im n bs" "rec_Subnet r = Some n"
    "tm_List (nm_Subnet s) tid = Some net0" "net_pfx net0 cs0" "prefix cs0 bs"
    using nm_invD(2) [OF inv r] by (auto simp: rec_ok_def)
  obtain cs b where e: "net_pfx net0 (cs @ [b])" "net_pfx net cs"
    using tm_Expand_half [OF nm_invD(1) [OF inv] ex] k(5) by auto
  have "prefix cs bs" using net_pfx_unique [OF k(6) e(1)] k(7) by (metis append_prefixD)
  moreover have "tm_List sm tid = Some net" using tm.expand_ok [OF nm_invD(1) [OF inv] ex] by simp
  moreover have "peers_ok r" using nm_invD(2) [OF inv r] by (simp add: rec_ok_def)
  ultimately show ?thesis using k e(2) by (auto simp: rec_ok_def)
qed

lemma ExpandTenant_inv:
  assumes inv: "nm_inv rt s"
  shows "nm_inv rt (snd (ExpandTenant d tid s)) \<and> same_ctl s (snd (ExpandTenant d tid s))"
proof (cases "nm_TenantRecords s tid")
  case None
  then show ?thesis using inv by (simp add: ExpandTenant_none)
next
  case (Some r)
  obtain res s' where run: "ExpandTenant d tid s = (res, s')" by fastforce
  have "nm_inv rt s' \<and> same_ctl s s'"
  proof (cases rule: ExpandTenant_cases [OF inv Some run])
    case (1 e)
    then show ?thesis using inv by simp
  next
    case (2 e sm net be k)
    have "rec_ok sm tid (r\<lparr>rec_Backend := be\<rparr>)" using rec_ok_after_expand [OF inv Some 2(2)] by (simp add: rec_ok_other)
    then show ?thesis using expand_list_inv [OF inv 2(2)] 2(3) Some by (auto simp: same_ctl_def)
  next
    case (3 sm net be k im im' bs r')
    have "tm_List sm tid = Some net" using tm.expand_ok [OF nm_invD(1) [OF inv] 3(2)] by simp
    then have "rec_ok sm tid r'" using 3(5,6,9) nm_invD(2) [OF inv Some] by (auto simp: rec_ok_def)
    then show ?thesis using expand_list_inv [OF inv 3(2)] 3(9,10) Some by (auto simp: same_ctl_def)
  qed
  then show ?thesis using run by simp
qed

subsection \<open>Pods\<close>

lemma ipam_Allocate_inv: "ipam_inv im n bs \<Longrightarrow> ipam_Allocate im k c i ns = Inr (im', v) \<Longrightarrow> ipam_inv im' n bs"
  using ipam_Allocate_Inr [of im n bs k c i ns im' v] taken_inv(1) by metis

text \<open>What \<open>EnsurePod\<close> does to the address manager of the tenant, on every outcome.\<close>

lemma EnsurePod_cases:
  assumes run: "EnsurePod d tid args s = (res, s')"
  obtains (refused) e where "res = Inl e" "s' = s"
  | (attach) r im im1 ci k where
      "nm_TenantRecords s tid = Some r" "rec_State r = TenantStateReady" "rec_IPAM r = Some im"
      "ipam_Allocate im (podKey (pa_Namespace args) (pa_PodName args)) (pa_ContainerID args) (pa_IfName args) (pa_NetNS args)
         = Inr (im1, ci)"
      "(\<exists>e. res = Inl e \<and> (e = NilPanic \<or> e = BridgeNotFound tid) \<and> s' = upd_rec tid (\<lambda>r. r\<lparr>rec_IPAM := Some im1\<rparr>) s) \<or>
       (\<exists>e. res = Inl (NmVeth e) \<and> s' = upd_rec tid (\<lambda>r. case ipam_Free im1 (ci_IP ci) of
                Inl _ \<Rightarrow> r | Inr im2 \<Rightarrow> r\<lparr>rec_IPAM := Some im2\<rparr>)
              ((upd_rec tid (\<lambda>r. r\<lparr>rec_IPAM := Some im1\<rparr>) s)\<lparr>nm_k := k\<rparr>)) \<or>
       (\<exists>sn gw. rec_Subnet r = Some sn \<and> res = Inr (\<lparr>net_ip = ci_IP ci, net_mask = net_mask sn\<rparr>, gw, pa_IfName args) \<and>
         s' = emitNodeStoreEvent EventUpdate ((upd_rec tid (\<lambda>r. r\<lparr>rec_IPAM := Some im1\<rparr>) s)\<lparr>nm_k := k\<rparr>))"
proof (cases "nm_TenantRecords s tid")
  case None
  then show ?thesis using run that(1) by (auto simp: EnsurePod_def)
next
  case (Some r)
  note r = this
  show ?thesis
  proof (cases "rec_State r = TenantStateClosing \<or> rec_IPAM r = None")
    case True
    then show ?thesis using run r that(1) by (auto simp: EnsurePod_def split: if_splits)
  next
    case False
    then obtain im where im: "rec_State r = TenantStateReady" "rec_IPAM r = Some im"
      by (cases "rec_State r") auto
    let ?al = "ipam_Allocate im (podKey (pa_Namespace args) (pa_PodName args)) (pa_ContainerID args) (pa_IfName args) (pa_NetNS args)"
    show ?thesis
    proof (cases ?al)
      case (Inl e)
      then show ?thesis using run r im that(1) [of "NmIpam e"] by (simp add: EnsurePod_def)
    next
      case (Inr x)
      obtain im1 ci where x: "x = (im1, ci)" by (cases x)
      note al = Inr [unfolded x]
      let ?s1 = "upd_rec tid (\<lambda>r. r\<lparr>rec_IPAM := Some im1\<rparr>) s"
      note attach = that(2) [OF r im al]
      consider (early) "\<exists>e. res = Inl e \<and> (e = NilPanic \<or> e = BridgeNotFound tid) \<and> s' = ?s1"
        | (veth) be br sn gw where "rec_Backend r = Some be" "backend_Bridge be = Some br" "rec_Subnet r = Some sn"
            "device_ip br = Some gw"
        using run r im al
        by (cases "rec_Backend r"; cases "backend_Bridge (the (rec_Backend r))"; cases "rec_Subnet r";
            cases "device_ip (the (backend_Bridge (the (rec_Backend r))))") (auto simp: EnsurePod_def Let_def)
      then show ?thesis
      proof cases
        case early
        then show ?thesis using attach by blast
      next
        case veth
        let ?v = "SetupVeth (dp_nl d) (pa_NetNS args) (dv_name br) 1500 (pa_IfName args)
          (Some \<lparr>net_ip = ci_IP ci, net_mask = net_mask sn\<rparr>) gw (nm_k s)"
        obtain rv k where v: "?v = (rv, k)" by fastforce
        show ?thesis
          by (rule attach [of k]) (use run r im al veth v in \<open>cases rv; auto simp: EnsurePod_def Let_def on_k_def\<close>)
      qed
    qed
  qed
qed

lemma same_ctl_trans: "same_ctl s s1 \<Longrightarrow> same_ctl s1 s2 \<Longrightarrow> same_ctl s s2"
  by (simp add: same_ctl_def)

lemma same_ctl_upd:
  "(\<And>r. rec_expandCh (f r) = rec_expandCh r \<and> rec_State (f r) = rec_State r) \<Longrightarrow> same_ctl s (upd_rec tid f s)"
  by (auto simp: same_ctl_def upd_rec_records option.map_comp comp_def)

lemma same_tables_ctl: "same_tables s s' \<Longrightarrow> same_ctl s s'"
  by (simp add: same_tables_def same_ctl_def)

lemma same_ctl_emit [simp]: "same_ctl s (emitNodeStoreEvent ev s') = same_ctl s s'"
  by (simp add: same_ctl_def)

lemma upd_rec_k: "(upd_rec tid f s)\<lparr>nm_k := k\<rparr> = upd_rec tid f (s\<lparr>nm_k := k\<rparr>)"
  by (auto simp: upd_rec_def split: option.splits)

lemma nm_inv_k [simp]: "nm_inv rt (s\<lparr>nm_k := k\<rparr>) = nm_inv rt s" "quiet (s\<lparr>nm_k := k\<rparr>) = quiet s"
  "same_ctl s (s'\<lparr>nm_k := k\<rparr>) = same_ctl s s'"
  by (simp_all add: nm_inv_def quiet_def same_ctl_def)

lemma upd_ipam_inv:
  assumes "nm_inv rt s" "nm_TenantRecords s tid = Some r" "rec_IPAM r = Some im" "\<And>n bs. ipam_inv im n bs \<Longrightarrow> ipam_inv im' n bs"
  shows "nm_inv rt (upd_rec tid (\<lambda>r. r\<lparr>rec_IPAM := Some im'\<rparr>) s)"
  using upd_rec_inv [OF assms(1), of tid "\<lambda>r. r\<lparr>rec_IPAM := Some im'\<rparr>"]
    rec_ok_ipam [OF nm_invD(2) [OF assms(1,2)] assms(3,4)] assms(2) by auto

lemma EnsurePod_inv:
  assumes inv: "nm_inv rt s"
  shows "nm_inv rt (snd (EnsurePod d tid args s)) \<and> same_ctl s (snd (EnsurePod d tid args s))"
proof -
  obtain res s' where run: "EnsurePod d tid args s = (res, s')" by fastforce
  have "nm_inv rt s' \<and> same_ctl s s'"
  proof (cases rule: EnsurePod_cases [OF run])
    case (1 e)
    then show ?thesis using inv by simp
  next
    case (2 r im im1 ci k)
    let ?u1 = "\<lambda>r. r\<lparr>rec_IPAM := Some im1\<rparr>"
    let ?u2 = "\<lambda>r. case ipam_Free im1 (ci_IP ci) of Inl _ \<Rightarrow> r | Inr im2 \<Rightarrow> r\<lparr>rec_IPAM := Some im2\<rparr>"
    let ?s1 = "(upd_rec tid ?u1 s)\<lparr>nm_k := k\<rparr>"
    have i1: "nm_inv rt (upd_rec tid ?u1 s)" using upd_ipam_inv [OF inv 2(1,3)] ipam_Allocate_inv [OF _ 2(4)] by blast
    then have j1: "nm_inv rt ?s1" by simp
    have c1: "same_ctl s (upd_rec tid ?u1 s)" by (rule same_ctl_upd) simp
    have r1: "nm_TenantRecords ?s1 tid = Some (?u1 r)" using 2(1) by (simp add: upd_rec_records)
    have i2: "nm_inv rt (upd_rec tid ?u2 ?s1)"
    proof (cases "ipam_Free im1 (ci_IP ci)")
      case (Inl e)
      have "upd_rec tid (\<lambda>r. r) ?s1 = ?s1" using r1 by (auto simp: upd_rec_def fun_upd_idem)
      then show ?thesis using Inl j1 by simp
    next
      case (Inr im2)
      then show ?thesis using upd_ipam_inv [OF j1 r1, of im1 im2] ipam_Free_inv(1) [OF _ Inr] by simp
    qed
    have c2: "same_ctl s (upd_rec tid ?u2 ?s1)"
      by (rule same_ctl_trans [of s ?s1]) (use c1 in \<open>auto intro: same_ctl_upd split: sum.splits\<close>)
    show ?thesis using 2(5) i1 i2 c1 c2 by auto
  qed
  then show ?thesis by (simp add: run)
qed

lemma UpdatePod_same: "same_tables s (snd (UpdatePod d tid args s))"
  by (auto simp: UpdatePod_def Let_def split: option.splits)

lemma update_each_same: "same_tables s (update_each d tid allocs s)"
proof (induction d tid allocs s rule: update_each.induct)
  case (2 d tid key info allocs s)
  obtain a b where "splitPodKey key = (a, b)" by fastforce
  then show ?case using same_tables_trans [OF UpdatePod_same "2.IH"] by simp
qed simp

lemma reconcileExistingPods_same: "same_tables s (snd (reconcileExistingPods d tid s))"
  by (auto simp: reconcileExistingPods_def update_each_same split: option.splits)

lemma performTenantExpansion_snd: "snd (performTenantExpansion d tid s) = snd (ExpandTenant d tid s)"
  by (auto simp: performTenantExpansion_def p_bind_def p_ret_def split: prod.splits sum.splits)

lemma nm_inv_nextCh [simp]: "nm_inv rt (s\<lparr>nm_nextCh := c\<rparr>) = nm_inv rt s"
  by (simp add: nm_inv_def)

text \<open>A request on a quiet manager runs the expansion itself and leaves the manager quiet.\<close>

lemma requestTenantExpansion_inv:
  assumes inv: "nm_inv rt s" and q: "quiet s"
  shows "nm_inv rt (snd (requestTenantExpansion d tid s)) \<and> quiet (snd (requestTenantExpansion d tid s))"
proof (cases "nm_TenantRecords s tid")
  case None
  then show ?thesis using inv q by (simp add: requestTenantExpansion_def)
next
  case (Some r)
  have ch: "rec_expandCh r = None" using q Some by (simp add: quiet_def)
  show ?thesis
  proof (cases "rec_State r = TenantStateClosing")
    case True
    then show ?thesis using inv q Some by (simp add: requestTenantExpansion_def)
  next
    case False
    let ?c = "nm_nextCh s"
    let ?s1 = "(upd_rec tid (\<lambda>r. r\<lparr>rec_expandCh := Some ?c\<rparr>) s)\<lparr>nm_nextCh := ?c + 1\<rparr>"
    obtain res s2 where p: "performTenantExpansion d tid ?s1 = (res, s2)" by fastforce
    let ?f = "\<lambda>r. if rec_expandCh r = Some ?c
        then r\<lparr>rec_lastExpandErr := (case res of Inl e \<Rightarrow> Some e | Inr _ \<Rightarrow> None), rec_expandCh := None\<rparr> else r"
    have e: "snd (requestTenantExpansion d tid s) = upd_rec tid ?f s2"
      using Some False ch p by (simp add: requestTenantExpansion_def Let_def)
    have i1: "nm_inv rt ?s1" using upd_rec_inv [OF inv, of tid "\<lambda>r. r\<lparr>rec_expandCh := Some ?c\<rparr>"] nm_invD(2) [OF inv]
      by (simp add: rec_ok_other)
    have x: "nm_inv rt s2" "same_ctl ?s1 s2" using ExpandTenant_inv [OF i1, of d tid] performTenantExpansion_snd [of d tid ?s1] p by auto
    have "nm_inv rt (upd_rec tid ?f s2)" using upd_rec_inv [OF x(1), of tid ?f] nm_invD(2) [OF x(1)] by (auto simp: rec_ok_other)
    moreover have "quiet (upd_rec tid ?f s2)"
      unfolding quiet_def
    proof (intro allI impI)
      fix tid' r' assume a: "nm_TenantRecords (upd_rec tid ?f s2) tid' = Some r'"
      note c = x(2) [unfolded same_ctl_def, rule_format, of tid']
      show "rec_expandCh r' = None"
      proof (cases "tid' = tid")
        case True
        then obtain r2 where r2: "nm_TenantRecords s2 tid = Some r2" "rec_expandCh r2 = Some ?c"
          using c Some by (auto simp: upd_rec_records)
        then have "r' = ?f r2" using a True by (simp add: upd_rec_records)
        then show ?thesis using r2 by simp
      next
        case False
        then show ?thesis using a c q by (cases "nm_TenantRecords s tid'") (auto simp: upd_rec_records quiet_def)
      qed
    qed
    ultimately show ?thesis unfolding e by simp
  qed
qed

lemma ensure_attempts_inv:
  "nm_inv rt s \<Longrightarrow> quiet s \<Longrightarrow> nm_inv rt (snd (ensure_attempts d tid args n s)) \<and> quiet (snd (ensure_attempts d tid args n s))"
proof (induction n arbitrary: s)
  case 0
  obtain x s1 where e: "EnsurePod d tid args s = (x, s1)" by fastforce
  have "nm_inv rt s1" "quiet s1" using EnsurePod_inv [OF 0(1), of d tid args] e same_ctl_quiet [OF _ 0(2)] by auto
  then show ?case using e by (cases x) (auto split: prod.splits)
next
  case (Suc n)
  obtain x s1 where e: "EnsurePod d tid args s = (x, s1)" by fastforce
  have 1: "nm_inv rt s1" "quiet s1" using EnsurePod_inv [OF Suc.prems(1), of d tid args] e same_ctl_quiet [OF _ Suc.prems(2)] by auto
  obtain y s2 where rq: "requestTenantExpansion d tid s1 = (y, s2)" by fastforce
  have 2: "nm_inv rt s2" "quiet s2" using requestTenantExpansion_inv [OF 1, of d tid] rq by auto
  obtain z s3 where rc: "reconcileExistingPods d tid s2 = (z, s3)" by fastforce
  have 3: "nm_inv rt s3" "quiet s3" using reconcileExistingPods_same [of s2 d tid] rc same_tables_inv [of s2 s3] 2 by auto
  show ?case using e rq rc 1 2 3 Suc.IH [OF 3]
    by (cases x; cases y; cases z) (auto split: prod.splits)
qed

lemma actor_handle_inv:
  assumes "nm_inv rt s" "quiet s"
  shows "nm_inv rt (snd (actor_handle d tid m s)) \<and> quiet (snd (actor_handle d tid m s))"
proof (cases "msg_kind m")
  case msgEnsure
  then show ?thesis using ensure_attempts_inv [OF assms, of d tid "msg_args m" maxRetries] assms
    by (auto simp: actor_handle_def ensurePodWithExpansion_def split: prod.splits)
next
  case msgRemove
  then show ?thesis using assms by (auto simp: actor_handle_def RemovePod_def split: option.splits prod.splits)
next
  case msgUpdate
  obtain x s1 where u: "UpdatePod d tid (msg_args m) s = (x, s1)" by fastforce
  then have "nm_inv rt s1" "quiet s1"
    using same_tables_inv [OF UpdatePod_same [of s d tid "msg_args m"]] assms by auto
  then show ?thesis using msgUpdate u assms by (simp add: actor_handle_def)
next
  case msgStop
  then show ?thesis using assms by (simp add: actor_handle_def)
qed

text \<open>No pod operation adds or removes a tenant.\<close>

lemma same_ctl_dom: "same_ctl s s' \<Longrightarrow> dom (nm_TenantRecords s') = dom (nm_TenantRecords s)"
  unfolding same_ctl_def dom_def by (metis (no_types, lifting) map_option_is_None)

lemma requestTenantExpansion_dom:
  assumes "nm_inv rt s" "quiet s"
  shows "dom (nm_TenantRecords (snd (requestTenantExpansion d tid s))) = dom (nm_TenantRecords s)"
proof (cases "nm_TenantRecords s tid")
  case (Some r)
  let ?s1 = "(upd_rec tid (\<lambda>r. r\<lparr>rec_expandCh := Some (nm_nextCh s)\<rparr>) s)\<lparr>nm_nextCh := nm_nextCh s + 1\<rparr>"
  have i1: "nm_inv rt ?s1" using upd_rec_inv [OF assms(1), of tid "\<lambda>r. r\<lparr>rec_expandCh := Some (nm_nextCh s)\<rparr>"] nm_invD(2) [OF assms(1)]
    by (simp add: rec_ok_other)
  have "rec_expandCh r = None" using assms(2) Some by (simp add: quiet_def)
  moreover have "dom (nm_TenantRecords (snd (performTenantExpansion d tid ?s1))) = dom (nm_TenantRecords s)"
    unfolding performTenantExpansion_snd using same_ctl_dom ExpandTenant_inv [OF i1, of d tid] by fastforce
  ultimately show ?thesis using Some by (simp add: requestTenantExpansion_def Let_def case_prod_beta)
qed (simp add: requestTenantExpansion_def)

lemma ensure_attempts_dom:
  "nm_inv rt s \<Longrightarrow> quiet s \<Longrightarrow> dom (nm_TenantRecords (snd (ensure_attempts d tid args n s))) = dom (nm_TenantRecords s)"
proof (induction n arbitrary: s)
  case 0
  have "dom (nm_TenantRecords (snd (EnsurePod d tid args s))) = dom (nm_TenantRecords s)"
    using same_ctl_dom EnsurePod_inv [OF 0(1), of d tid args] by blast
  then show ?case by (cases "EnsurePod d tid args s") (simp add: case_prod_beta split: sum.splits)
next
  case (Suc n)
  obtain x s1 where e: "EnsurePod d tid args s = (x, s1)" by fastforce
  have 1: "nm_inv rt s1" "quiet s1" "dom (nm_TenantRecords s1) = dom (nm_TenantRecords s)"
    using EnsurePod_inv [OF Suc.prems(1), of d tid args] e same_ctl_quiet [OF _ Suc.prems(2), of s1] same_ctl_dom [of s s1] by simp_all
  obtain y s2 where rq: "requestTenantExpansion d tid s1 = (y, s2)" by fastforce
  have 2: "nm_inv rt s2" "quiet s2" "dom (nm_TenantRecords s2) = dom (nm_TenantRecords s)"
    using requestTenantExpansion_inv [OF 1(1,2), of d tid] requestTenantExpansion_dom [OF 1(1,2), of d tid] rq 1(3) by auto
  obtain z s3 where rc: "reconcileExistingPods d tid s2 = (z, s3)" by fastforce
  have t: "same_tables s2 s3" using reconcileExistingPods_same [of s2 d tid] rc by simp
  have 3: "nm_inv rt s3" "quiet s3" "dom (nm_TenantRecords s3) = dom (nm_TenantRecords s)"
    using same_tables_inv [OF t] t 2 by (auto simp: same_tables_def)
  show ?case using e rq rc 1(3) 2(3) 3(3) Suc.IH [OF 3(1,2)]
    by (cases x; cases y; cases z) (auto split: prod.splits)
qed

lemma actor_handle_dom:
  assumes "nm_inv rt s" "quiet s"
  shows "dom (nm_TenantRecords (snd (actor_handle d tid m s))) = dom (nm_TenantRecords s)"
proof (cases "msg_kind m")
  case msgEnsure
  then show ?thesis using ensure_attempts_dom [OF assms, of d tid "msg_args m" maxRetries]
    by (simp add: actor_handle_def ensurePodWithExpansion_def case_prod_beta)
next
  case msgRemove
  then show ?thesis by (simp add: actor_handle_def RemovePod_def split: option.splits prod.splits)
next
  case msgUpdate
  then show ?thesis using UpdatePod_same [of s d tid "msg_args m"]
    by (simp add: actor_handle_def same_tables_def case_prod_beta)
qed (simp add: actor_handle_def)

subsection \<open>Peers\<close>

definition keeps :: "'k nm \<Rightarrow> 'k nm \<Rightarrow> bool" where
  "keeps s s' \<longleftrightarrow> (\<forall>rt. nm_inv rt s \<longrightarrow> nm_inv rt s') \<and> (quiet s \<longrightarrow> quiet s') \<and>
     dom (nm_TenantRecords s') = dom (nm_TenantRecords s)"

lemma keeps_refl [simp]: "keeps s s"
  by (simp add: keeps_def)

lemma keeps_trans: "keeps s s1 \<Longrightarrow> keeps s1 s2 \<Longrightarrow> keeps s s2"
  by (simp add: keeps_def)

lemma same_tables_keeps: "same_tables s s' \<Longrightarrow> keeps s s'"
  using same_tables_inv(1) same_tables_inv(2) [of s s'] by (auto simp: keeps_def same_tables_def)

lemma upd_peers_keeps:
  assumes f: "\<And>r. rec_IPAM (f r) = rec_IPAM r \<and> rec_Subnet (f r) = rec_Subnet r \<and> rec_expandCh (f r) = rec_expandCh r"
    and p: "\<And>r. peers_ok r \<Longrightarrow> peers_ok (f r)"
  shows "keeps s (upd_rec tid f s)"
proof -
  have ok: "rec_ok sm tid r \<Longrightarrow> rec_ok sm tid (f r)" for sm r using f [of r] p [of r] by (simp add: rec_ok_def)
  have "nm_inv rt (upd_rec tid f s)" if "nm_inv rt s" for rt
    by (rule upd_rec_inv [OF that]) (use ok nm_invD(2) [OF that] in blast)
  moreover have "quiet (upd_rec tid f s)" if "quiet s"
    by (rule upd_rec_quiet [OF that]) (use f that in \<open>auto simp: quiet_def\<close>)
  ultimately show ?thesis by (simp add: keeps_def upd_rec_dom)
qed

lemma keeps_bind:
  assumes "\<And>s. keeps s (snd (m s))" "\<And>a s. keeps s (snd (f a s))"
  shows "keeps s (snd (p_bind m f s))"
proof -
  obtain r s1 where m: "m s = (r, s1)" by fastforce
  have "keeps s s1" using assms(1) [of s] m by simp
  then show ?thesis using keeps_trans [OF _ assms(2)] m by (cases r) (auto simp: p_bind_def)
qed

lemma removePeerEntries_keeps: "keeps s (snd (removePeerEntries d r re s))"
  unfolding removePeerEntries_def by (intro keeps_bind same_tables_keeps on_k_same) simp

lemma ensurePeerEntries_keeps: "keeps s (snd (ensurePeerEntries d r re s))"
  unfolding ensurePeerEntries_def by (intro keeps_bind same_tables_keeps on_k_same) simp

lemma peers_ok_Some [simp]: "peers_ok (r\<lparr>rec_Peers := Some ps\<rparr>) \<longleftrightarrow> (\<forall>n p. map_of ps n = Some p \<longrightarrow> re_NodeName p = n)"
  by (simp add: peers_ok_def peers_map_def)

lemma peer_state_keeps:
  "keeps s (storePeerState tid re s)" "keeps s (deletePeerState tid n s)"
  "keeps s (snd (lookupPeerState tid n re s))"
proof -
  show "keeps s (storePeerState tid re s)" unfolding storePeerState_def
    by (rule upd_peers_keeps) (auto simp: peers_ok_def [of r for r] peers_map_def update_conv' split: option.splits)
  show "keeps s (deletePeerState tid n s)" unfolding deletePeerState_def
    by (rule upd_peers_keeps) (auto simp: peers_ok_def [of r for r] peers_map_def delete_conv' split: option.splits if_splits)
  show "keeps s (snd (lookupPeerState tid n re s))" unfolding lookupPeerState_def
    by (auto simp: Let_def intro!: upd_peers_keeps split: option.splits)
qed

lemma EnsurePeer_keeps: "keeps s (snd (EnsurePeer d tid re s))"
proof -
  obtain prev skip s1 where l: "lookupPeerState tid (re_NodeName re) re s = ((prev, skip), s1)" by (metis prod.collapse)
  have k1: "keeps s s1" using peer_state_keeps(3) [of s tid "re_NodeName re" re] l by simp
  have "keeps s1 (snd (p_bind (case prev of None \<Rightarrow> p_ret ()
        | Some pv \<Rightarrow> p_bind (removePeerEntries d ltr pv) (\<lambda>_ s. (Inr (), deletePeerState tid (re_NodeName pv) s))) (\<lambda>_.
      p_bind (ensurePeerEntries d ltr re) (\<lambda>_ s. (Inr (), storePeerState tid re s))) s1))" for ltr
    by (cases prev) (auto intro!: keeps_bind removePeerEntries_keeps ensurePeerEntries_keeps peer_state_keeps simp: p_ret_def)
  then show ?thesis using k1 keeps_trans l by (auto simp: EnsurePeer_def split: sum.splits)
qed

lemma RemovePeer_keeps: "keeps s (snd (RemovePeer d tid re s))"
proof -
  have "keeps s (snd (p_bind (removePeerEntries d ltr pv) (\<lambda>_ s. (Inr (), deletePeerState tid (re_NodeName pv) s)) s))" for ltr pv
    by (auto intro!: keeps_bind removePeerEntries_keeps peer_state_keeps)
  then show ?thesis by (auto simp: RemovePeer_def split: sum.splits option.splits)
qed

lemma keeps_each: "(\<And>x s. keeps s (snd (f x s))) \<Longrightarrow> keeps s (snd (p_each f xs s))"
proof (induction xs arbitrary: s)
  case (Cons x xs)
  obtain r s1 where f: "f x s = (r, s1)" by fastforce
  have "keeps s s1" using Cons.prems [of s x] f by simp
  then show ?case using keeps_trans [OF _ Cons.IH [OF Cons.prems]] f by (cases r) auto
qed simp

lemma FlushTenant_keeps: "keeps s (snd (FlushTenant d tid s))"
proof -
  have "keeps s (snd (p_each (\<lambda>(_, peer). removePeerEntries d ltr peer) ps (upd_rec tid (\<lambda>r. r\<lparr>rec_Peers := Some []\<rparr>) s)))" for ltr ps
    by (rule keeps_trans [OF upd_peers_keeps keeps_each]) (auto intro: removePeerEntries_keeps)
  then show ?thesis by (auto simp: FlushTenant_def split: sum.splits)
qed

subsection \<open>Runs of the manager\<close>

text \<open>
  One step is one public operation, successful or not; the kernel may change under the manager at any
  moment. The state starts with \<open>NewNetworkManager\<close>.
\<close>

inductive nm_step :: "'k deps \<Rightarrow> 'k nm \<Rightarrow> 'k nm \<Rightarrow> bool" for d where
  step_EnsureTenant: "nm_step d s (snd (EnsureTenant d tid s))"
| step_RemoveTenant: "nm_step d s (snd (RemoveTenant d tid s))"
| step_ExpandTenant: "nm_step d s (snd (ExpandTenant d tid s))"
| step_request: "nm_step d s (snd (requestTenantExpansion d tid s))"
| step_message: "nm_step d s (snd (actor_handle d tid m s))"
| step_EnsurePod: "nm_step d s (snd (EnsurePod d tid args s))"
| step_EnsurePeer: "nm_step d s (snd (EnsurePeer d tid re s))"
| step_RemovePeer: "nm_step d s (snd (RemovePeer d tid re s))"
| step_FlushTenant: "nm_step d s (snd (FlushTenant d tid s))"
| step_SetEmitter: "nm_step d s (SetEmitter q s)"
| step_kernel: "nm_step d s (s\<lparr>nm_k := k\<rparr>)"

inductive nm_reach :: "'k deps \<Rightarrow> ipnet \<Rightarrow> 'k nm \<Rightarrow> bool" for d root where
  nm_start: "NewNetworkManager root node None k = Inr (s, reg) \<Longrightarrow> nm_reach d root s"
| nm_next: "nm_reach d root s \<Longrightarrow> nm_step d s s' \<Longrightarrow> nm_reach d root s'"

lemma nm_step_inv: "nm_step d s s' \<Longrightarrow> nm_inv rt s \<Longrightarrow> quiet s \<Longrightarrow> nm_inv rt s' \<and> quiet s'"
proof (induction rule: nm_step.induct)
  case (step_EnsureTenant s tid)
  then show ?case by (rule EnsureTenant_inv)
next
  case (step_RemoveTenant s tid)
  then show ?case by (rule RemoveTenant_inv)
next
  case (step_ExpandTenant s tid)
  then show ?case using ExpandTenant_inv same_ctl_quiet by blast
next
  case (step_request s tid)
  then show ?case by (rule requestTenantExpansion_inv)
next
  case (step_message s tid m)
  then show ?case by (rule actor_handle_inv)
next
  case (step_EnsurePod s tid args)
  then show ?case using EnsurePod_inv same_ctl_quiet by blast
next
  case (step_EnsurePeer s tid re)
  then show ?case using EnsurePeer_keeps keeps_def by blast
next
  case (step_RemovePeer s tid re)
  then show ?case using RemovePeer_keeps keeps_def by blast
next
  case (step_FlushTenant s tid)
  then show ?case using FlushTenant_keeps keeps_def by blast
next
  case (step_SetEmitter s q)
  then show ?case by (simp add: SetEmitter_def nm_inv_def quiet_def)
next
  case (step_kernel s k)
  then show ?case by simp
qed

lemma nm_reach_inv:
  assumes "nm_reach d root s" "net_pfx root rb"
  shows "nm_inv root s \<and> quiet s"
  using assms(1)
proof (induction rule: nm_reach.induct)
  case (nm_start node k s reg)
  obtain t where t: "NewTrieManager root 30 = Inr t" "trie_inv (tm_t t) rb" "leafSize t = 30" "tm_Root t = root"
    using NewTrieManager_inv [OF assms(2), of 30] by auto
  then have "nm_Subnet s = t" "nm_TenantRecords s = Map.empty"
    using nm_start by (auto simp: NewNetworkManager_def NewNetworkManagerWithDeps_def)
  then show ?case using t by (auto simp: nm_inv_def quiet_def tm_inv_def)
next
  case (nm_next s s')
  then show ?case using nm_step_inv by blast
qed

end
