(* ===== verification/NM_Demo.thy ===== *)
theory NM_Demo
  imports NM_Invariant
begin

text \<open>
  A concrete node for the witnesses: a kernel in which every call succeeds, and a run of the network manager
  that creates two tenants and attaches one pod to each.
\<close>

subsection \<open>A kernel in which every call succeeds\<close>

text \<open>The handles instantiated for the witnesses: devices exist with the kind their name says, and nothing fails.\<close>

definition demo_link :: "string \<Rightarrow> link" where
  "demo_link name = \<lparr>lk_Name = name, lk_Index = 7, lk_HardwareAddr = [2, 0, 0, 0, 0, 1], lk_MTU = 1450,
     lk_kind = (if take 3 name = BrPrefix then LkBridge
                else if take 6 name = VxlanPrefix
                then LkVxlan \<lparr>VxlanId = 42, VtepDevIndex = 2, SrcAddr = [192, 168, 0, 1], vxPort = 8472, Learning = False\<rparr>
                else LkOther)\<rparr>"

definition demo_netlink :: "unit netlink" where
  "demo_netlink =
     \<lparr>LinkByName = (\<lambda>name k. Inr (demo_link name)), LinkAdd = (\<lambda>l k. (None, k)), LinkDel = (\<lambda>l k. (None, k)),
      LinkSetUp = (\<lambda>l k. (None, k)), LinkSetMTU = (\<lambda>l m k. (None, k)), LinkSetMaster = (\<lambda>l m k. (None, k)),
      AddrList = (\<lambda>i k. Inr [\<lparr>net_ip = [192, 168, 0, 1], net_mask = [255, 255, 255, 0]\<rparr>]),
      AddrAdd = (\<lambda>l a k. (None, k)), AddrReplace = (\<lambda>l a k. (None, k)), AddrDel = (\<lambda>l a k. (None, k)),
      NeighSet = (\<lambda>n k. (None, k)), NeighDel = (\<lambda>n k. (None, k)), NeighList = (\<lambda>i f k. Inr []),
      RouteList = (\<lambda>i k. Inr [\<lparr>rt_LinkIndex = 2, rt_Dst = None, rt_Gw = [192, 168, 0, 254], rt_Table = 254,
        rt_Priority = 0, rt_Flags = 0, rt_Scope = SCOPE_UNIVERSE\<rparr>]),
      RouteListFiltered = (\<lambda>i n k. Inr []), RouteAdd = (\<lambda>r k. (None, k)), RouteDel = (\<lambda>r k. (None, k)),
      RouteReplace = (\<lambda>r k. (None, k)), InterfaceByIndex = (\<lambda>i k. Inr \<lparr>if_Index = i, if_MTU = 1500\<rparr>),
      nsEnter = (\<lambda>p k. Inr k), nsLeave = (\<lambda>k. k), ipSetupVeth = (\<lambda>n m k. (Inr (''veth0'', n), k))\<rparr>"

definition demo_ipt :: "unit iptables" where
  "demo_ipt =
     \<lparr>NewChain = (\<lambda>t c k. (None, k)), ClearChain = (\<lambda>t c k. (None, k)), DeleteChain = (\<lambda>t c k. (None, k)),
      AppendUnique = (\<lambda>t c s k. (None, k)), InsertUnique = (\<lambda>t c p s k. (None, k)), DeleteSpec = (\<lambda>t c s k. (None, k)),
      ListRules = (\<lambda>t c k. Inr [])\<rparr>"

definition demo_deps :: "unit deps" where
  "demo_deps = \<lparr>dp_nl = demo_netlink, dp_ipt = demo_ipt, dp_sha1 = (\<lambda>_. replicate 20 0), dp_sha256 = (\<lambda>_. replicate 32 7),
     dp_wait = (\<lambda>s. (False, s))\<rparr>"

definition demo_nm :: "unit nm" where
  "demo_nm = fst (projr (NewNetworkManager demo_root ''node-1'' None ()))"

definition demo_args :: "string \<Rightarrow> PodAttachArgs" where
  "demo_args p = \<lparr>pa_Namespace = ''ns'', pa_PodName = p, pa_ContainerID = ''c'', pa_NetNS = ''/netns'', pa_IfName = ''eth0''\<rparr>"

definition demo_backend :: "ipnet \<Rightarrow> ipnet \<Rightarrow> bv_backend" where
  "demo_backend g net =
     \<lparr>bv_Bridge = Some \<lparr>dv_name = ''br-000000000'', dv_ip = Some g, dv_mac = [2, 0, 0, 0, 0, 1], dv_Type = ''bridge'', dv_vni = 0\<rparr>,
      bv_VTEP = Some \<lparr>dv_name = ''vxlan-000000000'', dv_ip = Some \<lparr>net_ip = net_ip (HostIP net), net_mask = host_mask\<rparr>,
        dv_mac = [2, 0, 0, 0, 0, 1], dv_Type = ''vtep'', dv_vni = 42\<rparr>\<rparr>"

lemma demo_names:
  "GenerateDeviceName (\<lambda>_. replicate 20 0) BrPrefix tid = Inr ''br-000000000''"
  "GenerateDeviceName (\<lambda>_. replicate 20 0) VxlanPrefix tid = Inr ''vxlan-000000000''"
proof -
  have "hex_digit 0 = CHR ''0''" by code_simp
  then have "hex_encode (replicate n 0) = replicate (2 * n) (CHR ''0'')" for n by (induction n) (auto simp: hex_encode_def)
  then have h: "hex_encode (replicate 20 0) = replicate 40 (CHR ''0'')" by simp
  have "take 9 (hex_encode (replicate 20 0)) = ''000000000''" unfolding h by (simp add: numeral_eq_Suc)
  then show "GenerateDeviceName (\<lambda>_. replicate 20 0) BrPrefix tid = Inr ''br-000000000''"
    "GenerateDeviceName (\<lambda>_. replicate 20 0) VxlanPrefix tid = Inr ''vxlan-000000000''"
    by (simp_all add: GenerateDeviceName_eq BrPrefix_def VxlanPrefix_def)
qed

lemma demo_link_kinds:
  "lk_kind (demo_link ''br-000000000'') = LkBridge"
  "lk_kind (demo_link ''vxlan-000000000'') = LkVxlan \<lparr>VxlanId = 42, VtepDevIndex = 2, SrcAddr = [192, 168, 0, 1], vxPort = 8472, Learning = False\<rparr>"
  by (simp_all add: demo_link_def BrPrefix_def VxlanPrefix_def)

lemmas prog_defs = p_bind_def p_ret_def p_fail_def p_read_def p_do_def p_try_def p_guard_def

lemma demo_bv_Create:
  assumes "FirstIP net = Inr g"
  shows "bv_Create demo_netlink (\<lambda>_. replicate 20 0) sha256 NewBridgeVTEPBackend tid net node () = (Inr (demo_backend g net), ())"
proof -
  have gw: "GetDefaultGatewayInterface demo_netlink () = Inr \<lparr>if_Index = 2, if_MTU = 1500\<rparr>"
    by (simp add: GetDefaultGatewayInterface_def demo_netlink_def is_default_dst_def)
  have br: "bridge_Create demo_netlink (\<lambda>_. replicate 20 0) tid (Some net) () =
      (Inr \<lparr>dv_name = ''br-000000000'', dv_ip = Some g, dv_mac = [2, 0, 0, 0, 0, 1], dv_Type = ''bridge'', dv_vni = 0\<rparr>, ())"
    using assms by (simp add: bridge_Create_def SetupBridge_def ensureBridge_def prog_defs demo_names demo_link_kinds
        demo_netlink_def) (simp add: demo_link_def)
  have vx: "vtep_Create demo_netlink (\<lambda>_. replicate 20 0) sha256 tid net node () =
      (Inr \<lparr>dv_name = ''vxlan-000000000'', dv_ip = Some \<lparr>net_ip = net_ip (HostIP net), net_mask = host_mask\<rparr>,
        dv_mac = [2, 0, 0, 0, 0, 1], dv_Type = ''vtep'', dv_vni = 42\<rparr>, ())"
    using gw by (simp add: vtep_Create_def SetupVxlan_def newVxlanDevice_def ensureVxLan_def prog_defs demo_names demo_link_kinds
        Let_def link_vni_def demo_netlink_def) (simp add: demo_link_def)
  show ?thesis
    using br vx by (simp add: bv_Create_def prog_defs NewBridgeVTEPBackend_def demo_backend_def)
qed


lemma demo_isolation:
  assumes "tid \<noteq> []"
  shows "EnsureTenantIsolation demo_ipt tid br vx [] () = (Inr (), ())"
  using assms by (simp add: EnsureTenantIsolation_def EnsureTenantChains_def ensurePrivateAnchor_def ensureChainExists_def
      afterDefaultBlockPosition_def append_if_def prog_defs demo_ipt_def privateAnchorChain_def)

lemma demo_EnsureTenant:
  assumes "tid \<noteq> []" "tid \<noteq> ''default''" "nm_TenantRecords s tid = None" "nm_TenantRecords s ''default'' = None"
    and "tm_Allocate (nm_Subnet s) tid = Inr (sm, net)" "FirstIP net = Inr g" "NewBitmapIPAM (Some net) = Inr im"
  shows "EnsureTenant demo_deps tid s = (Inr (), emitNodeStoreEvent EventUpdate (s\<lparr>nm_Subnet := sm, nm_k := (),
    nm_TenantRecords := (nm_TenantRecords s)(tid \<mapsto> new_record net (demo_backend g net) im),
    nm_TenantActors := insert tid (nm_TenantActors s)\<rparr>))"
  using assms demo_bv_Create [OF assms(6)] demo_isolation [OF assms(1)]
  by (simp add: EnsureTenant_def EnsureTenant_create_def on_k_def tenant_policy_def defaultTenantIfaces_def demo_deps_def Let_def)

lemma demo_SetupVeth:
  assumes "\<not> veth_args_bad ns br mtu ifn (Some p) gw"
  shows "SetupVeth demo_netlink ns br mtu ifn (Some p) gw () = (Inr (), ())"
  using assms
  by (simp add: SetupVeth_def veth_container_def in_ns_def p_do_exist_def prog_defs demo_netlink_def)

lemma demo_EnsurePod:
  assumes "nm_TenantRecords s tid = Some r" "rec_State r = TenantStateReady" "rec_IPAM r = Some im"
    and "ipam_Allocate im (podKey (pa_Namespace args) (pa_PodName args)) (pa_ContainerID args) (pa_IfName args) (pa_NetNS args) = Inr (im1, ci)"
    and "rec_Backend r = Some (demo_backend g net)" "rec_Subnet r = Some sn"
    and "\<not> veth_args_bad (pa_NetNS args) ''br-000000000'' 1500 (pa_IfName args) (Some \<lparr>net_ip = ci_IP ci, net_mask = net_mask sn\<rparr>) (net_ip g)"
  shows "EnsurePod demo_deps tid args s = (Inr (\<lparr>net_ip = ci_IP ci, net_mask = net_mask sn\<rparr>, net_ip g, pa_IfName args),
    emitNodeStoreEvent EventUpdate (s\<lparr>nm_TenantRecords := (nm_TenantRecords s)(tid \<mapsto> r\<lparr>rec_IPAM := Some im1\<rparr>), nm_k := ()\<rparr>))"
proof -
  have b: "backend_Bridge (demo_backend g net) = Some \<lparr>dv_name = ''br-000000000'', dv_ip = Some g, dv_mac = [2, 0, 0, 0, 0, 1], dv_Type = ''bridge'', dv_vni = 0\<rparr>"
    by (simp add: backend_Bridge_def bv_Devices_def demo_backend_def)
  show ?thesis
    using assms b demo_SetupVeth [OF assms(7)]
    by (simp add: EnsurePod_def Let_def device_ip_def on_k_def demo_deps_def upd_rec_def)
qed


text \<open>Two tenants on the node 10.0.0.0/28 with one pod each.\<close>

definition demo_net :: "byte \<Rightarrow> ipnet" where
  "demo_net b = \<lparr>net_ip = [10, 0, 0, b], net_mask = cidr_mask 30 32\<rparr>"

definition demo_gw :: "byte \<Rightarrow> ipnet" where
  "demo_gw b = \<lparr>net_ip = [10, 0, 0, b], net_mask = cidr_mask 30 32\<rparr>"

definition demo_sm1 :: trie_manager where "demo_sm1 = fst (projr (tm_Allocate demo_start ''blue''))"
definition demo_sm2 :: trie_manager where "demo_sm2 = fst (projr (tm_Allocate demo_sm1 ''red''))"

lemma demo_allocs:
  "tm_Allocate demo_start ''blue'' = Inr (demo_sm1, demo_net 0)" "tm_Allocate demo_sm1 ''red'' = Inr (demo_sm2, demo_net 8)"
proof -
  have "is_ok (tm_Allocate demo_start ''blue'')" "snd (projr (tm_Allocate demo_start ''blue'')) = demo_net 0"
    "is_ok (tm_Allocate demo_sm1 ''red'')" "snd (projr (tm_Allocate demo_sm1 ''red'')) = demo_net 8" by code_simp+
  then show "tm_Allocate demo_start ''blue'' = Inr (demo_sm1, demo_net 0)" "tm_Allocate demo_sm1 ''red'' = Inr (demo_sm2, demo_net 8)"
    unfolding demo_sm1_def demo_sm2_def by (metis is_ok_iff prod.collapse sum.sel(2))+
qed


definition demo_im :: "byte \<Rightarrow> bitmap_ipam" where "demo_im b = projr (NewBitmapIPAM (Some (demo_net b)))"

definition demo_ci :: "byte \<Rightarrow> ContainerNetInfo" where
  "demo_ci b = \<lparr>ci_ID = ''c'', ci_IFname = ''eth0'', ci_NetNS = ''/netns'', ci_IP = [10, 0, 0, b]\<rparr>"

definition demo_im1 :: "byte \<Rightarrow> string \<Rightarrow> bitmap_ipam" where
  "demo_im1 b p = fst (projr (ipam_Allocate (demo_im b) (''ns/'' @ p) ''c'' ''eth0'' ''/netns''))"

lemma demo_parts:
  "FirstIP (demo_net 0) = Inr (demo_gw 1)" "FirstIP (demo_net 8) = Inr (demo_gw 9)"
  "NewBitmapIPAM (Some (demo_net 0)) = Inr (demo_im 0)" "NewBitmapIPAM (Some (demo_net 8)) = Inr (demo_im 8)"
  "ipam_Allocate (demo_im 0) ''ns/p'' ''c'' ''eth0'' ''/netns'' = Inr (demo_im1 0 ''p'', demo_ci 2)"
  "ipam_Allocate (demo_im 8) ''ns/q'' ''c'' ''eth0'' ''/netns'' = Inr (demo_im1 8 ''q'', demo_ci 10)"
  by code_simp+

lemma demo_veth:
  "\<not> veth_args_bad ''/netns'' ''br-000000000'' 1500 ''eth0'' (Some \<lparr>net_ip = [10, 0, 0, 2], net_mask = cidr_mask 30 32\<rparr>) [10, 0, 0, 1]"
  "\<not> veth_args_bad ''/netns'' ''br-000000000'' 1500 ''eth0'' (Some \<lparr>net_ip = [10, 0, 0, 10], net_mask = cidr_mask 30 32\<rparr>) [10, 0, 0, 9]"
  by code_simp+

definition demo_rec :: "byte \<Rightarrow> byte \<Rightarrow> TenantRecord" where
  "demo_rec b g = new_record (demo_net b) (demo_backend (demo_gw g) (demo_net b)) (demo_im b)"

definition demo_nm2 :: "unit nm" where
  "demo_nm2 = snd (EnsureTenant demo_deps ''red'' (snd (EnsureTenant demo_deps ''blue'' demo_nm)))"

definition demo_nm3 :: "unit nm" where
  "demo_nm3 = snd (EnsurePod demo_deps ''red'' (demo_args ''q'') (snd (EnsurePod demo_deps ''blue'' (demo_args ''p'') demo_nm2)))"

lemma demo_nm_start: "nm_reach demo_deps demo_root demo_nm" "nm_Subnet demo_nm = demo_start" "nm_TenantRecords demo_nm = Map.empty"
proof -
  obtain t where t: "NewTrieManager demo_root 30 = Inr t" using NewTrieManager_inv [OF demo_pfx, of 30] by auto
  then have "NewNetworkManager demo_root ''node-1'' None () = Inr (demo_nm, Some t)" "nm_Subnet demo_nm = t" 
    "nm_TenantRecords demo_nm = Map.empty"
    by (simp_all add: NewNetworkManager_def NewNetworkManagerWithDeps_def demo_nm_def)
  then show "nm_reach demo_deps demo_root demo_nm" "nm_Subnet demo_nm = demo_start" "nm_TenantRecords demo_nm = Map.empty"
    using t nm_start by (auto simp: demo_start_def)
qed

lemma demo_nm2: "nm_reach demo_deps demo_root demo_nm2" "nm_Subnet demo_nm2 = demo_sm2"
    "nm_TenantRecords demo_nm2 = [''blue'' \<mapsto> demo_rec 0 1, ''red'' \<mapsto> demo_rec 8 9]"
    "fst (EnsureTenant demo_deps ''blue'' demo_nm) = Inr ()"
proof -
  let ?s1 = "snd (EnsureTenant demo_deps ''blue'' demo_nm)"
  have 1: "nm_Subnet ?s1 = demo_sm1" "nm_TenantRecords ?s1 = [''blue'' \<mapsto> demo_rec 0 1]"
    "fst (EnsureTenant demo_deps ''blue'' demo_nm) = Inr ()"
    using demo_EnsureTenant [of "''blue''" demo_nm demo_sm1 "demo_net 0" "demo_gw 1" "demo_im 0"]
    by (simp_all add: demo_nm_start demo_allocs demo_parts demo_rec_def)
  show "nm_reach demo_deps demo_root demo_nm2"
    unfolding demo_nm2_def by (intro nm_next [OF _ step_EnsureTenant] demo_nm_start)
  show "nm_Subnet demo_nm2 = demo_sm2" "nm_TenantRecords demo_nm2 = [''blue'' \<mapsto> demo_rec 0 1, ''red'' \<mapsto> demo_rec 8 9]"
    using demo_EnsureTenant [of "''red''" ?s1 demo_sm2 "demo_net 8" "demo_gw 9" "demo_im 8"]
    by (simp_all add: 1 demo_allocs demo_parts demo_rec_def demo_nm2_def)
  show "fst (EnsureTenant demo_deps ''blue'' demo_nm) = Inr ()" by (rule 1(3))
qed

lemma demo_rec_sel [simp]:
  "rec_State (demo_rec b g) = TenantStateReady" "rec_IPAM (demo_rec b g) = Some (demo_im b)" "rec_Subnet (demo_rec b g) = Some (demo_net b)"
  "rec_Backend (demo_rec b g) = Some (demo_backend (demo_gw g) (demo_net b))"
  by (simp_all add: demo_rec_def new_record_def)

lemma demo_nm3: "nm_reach demo_deps demo_root demo_nm3"
    "nm_TenantRecords demo_nm3 = [''blue'' \<mapsto> (demo_rec 0 1)\<lparr>rec_IPAM := Some (demo_im1 0 ''p'')\<rparr>,
      ''red'' \<mapsto> (demo_rec 8 9)\<lparr>rec_IPAM := Some (demo_im1 8 ''q'')\<rparr>]"
proof -
  let ?s1 = "snd (EnsurePod demo_deps ''blue'' (demo_args ''p'') demo_nm2)"
  have a: "podKey (pa_Namespace (demo_args p)) (pa_PodName (demo_args p)) = ''ns/'' @ p" "pa_ContainerID (demo_args p) = ''c''"
    "pa_IfName (demo_args p) = ''eth0''" "pa_NetNS (demo_args p) = ''/netns''" for p by (simp_all add: demo_args_def podKey_def)
  have 1: "nm_TenantRecords ?s1 = [''blue'' \<mapsto> (demo_rec 0 1)\<lparr>rec_IPAM := Some (demo_im1 0 ''p'')\<rparr>, ''red'' \<mapsto> demo_rec 8 9]"
    using demo_EnsurePod [of demo_nm2 "''blue''" "demo_rec 0 1" "demo_im 0" "demo_args ''p''" "demo_im1 0 ''p''" "demo_ci 2" "demo_gw 1" "demo_net 0" "demo_net 0"]
      demo_veth(1)
    by (simp add: a demo_nm2 demo_parts demo_net_def demo_gw_def demo_ci_def fun_upd_twist)
  show "nm_reach demo_deps demo_root demo_nm3"
    unfolding demo_nm3_def by (intro nm_next [OF _ step_EnsurePod] demo_nm2)
  show "nm_TenantRecords demo_nm3 = [''blue'' \<mapsto> (demo_rec 0 1)\<lparr>rec_IPAM := Some (demo_im1 0 ''p'')\<rparr>,
      ''red'' \<mapsto> (demo_rec 8 9)\<lparr>rec_IPAM := Some (demo_im1 8 ''q'')\<rparr>]"
    using demo_EnsurePod [of ?s1 "''red''" "demo_rec 8 9" "demo_im 8" "demo_args ''q''" "demo_im1 8 ''q''" "demo_ci 10" "demo_gw 9" "demo_net 8" "demo_net 8"]
      demo_veth(2)
    by (simp add: a 1 demo_parts demo_net_def demo_gw_def demo_ci_def demo_nm3_def)
qed

end
