(* ===== verification/NM_Properties.thy ===== *)
theory NM_Properties
  imports NM_Demo
begin

text \<open>
  Properties of the network manager in every state a run can reach: addresses on the node, the life cycle of a
  tenant, attaching pods, expansion and peers.
\<close>

subsection \<open>Addresses\<close>

lemma pods_of_rec:
  assumes "nm_inv rt s" "pods_of s tid k = Some v"
  shows "\<exists>r im n bs net cs i. nm_TenantRecords s tid = Some r \<and> rec_IPAM r = Some im \<and> ipam_inv im n bs \<and>
    GetAllocation im k = Some v \<and> tm_List (nm_Subnet s) tid = Some net \<and> net_pfx net cs \<and> prefix cs bs \<and>
    i < podcap bs \<and> ci_IP v = indexToIP n (int i)"
proof -
  obtain r im where r: "nm_TenantRecords s tid = Some r" "rec_IPAM r = Some im" "GetAllocation im k = Some v"
    using assms(2) by (auto simp: pods_of_def split: option.splits)
  obtain n bs net cs where k: "ipam_inv im n bs" "tm_List (nm_Subnet s) tid = Some net" "net_pfx net cs" "prefix cs bs"
    using nm_invD(2) [OF assms(1) r(1)] r(2) by (auto simp: rec_ok_def)
  obtain i where "i < podcap bs" "ci_IP v = indexToIP n (int i)"
    using ipam_invD(4,6) [OF k(1)] r(3) unfolding GetAllocation_def by blast
  then show ?thesis using r k by blast
qed

lemma pod_in_subnet:
  assumes "nm_inv rt s" "pods_of s tid k = Some v"
  shows "\<exists>net. tm_List (nm_Subnet s) tid = Some net \<and> contains net (ci_IP v)"
proof -
  obtain im n bs net cs i where p: "ipam_inv im n bs" "tm_List (nm_Subnet s) tid = Some net" "net_pfx net cs" "prefix cs bs"
    "i < podcap bs" "ci_IP v = indexToIP n (int i)"
    using pods_of_rec [OF assms] by blast
  have "contains n (ci_IP v)" using pod_addr_contains [OF ipam_invD(2) [OF p(1)] p(5)] p(6) by simp
  moreover have "net_pfx n bs" using ipam_invD(2) [OF p(1)] by (simp add: pod_net_def)
  ultimately have "contains net (ci_IP v)" using contains_mono [OF p(3) _ p(4)] by blast
  then show ?thesis using p(2) by blast
qed

lemma pods_distinct:
  assumes inv: "nm_inv rt s" and "pods_of s i k = Some v" "pods_of s j k' = Some v'" "(i, k) \<noteq> (j, k')"
  shows "ci_IP v \<noteq> ci_IP v'"
proof (cases "i = j")
  case True
  obtain r im n bs where "rec_IPAM r = Some im" "ipam_inv im n bs" "nm_TenantRecords s i = Some r" "GetAllocation im k = Some v"
    using pods_of_rec [OF inv assms(2)] by blast
  moreover have "GetAllocation im k' = Some v'" using calculation assms(3) True by (simp add: pods_of_def)
  ultimately show ?thesis using ipam_invD(7) [of im n bs k v k' v'] assms(4) True by (auto simp: GetAllocation_def)
next
  case False
  obtain net where n: "tm_List (nm_Subnet s) i = Some net" "contains net (ci_IP v)" using pod_in_subnet [OF inv assms(2)] by blast
  obtain net' where n': "tm_List (nm_Subnet s) j = Some net'" "contains net' (ci_IP v')" using pod_in_subnet [OF inv assms(3)] by blast
  show ?thesis using tm.disjoint [OF nm_invD(1) [OF inv] n(1) n'(1) False, of "ci_IP v"] n(2) n'(2) by auto
qed

lemma pods_of_demo: "pods_of demo_nm3 ''blue'' ''ns/p'' = Some (demo_ci 2)" "pods_of demo_nm3 ''red'' ''ns/q'' = Some (demo_ci 10)"
proof -
  have "GetAllocation (demo_im1 0 ''p'') ''ns/p'' = Some (demo_ci 2)" "GetAllocation (demo_im1 8 ''q'') ''ns/q'' = Some (demo_ci 10)"
    by code_simp+
  then show "pods_of demo_nm3 ''blue'' ''ns/p'' = Some (demo_ci 2)" "pods_of demo_nm3 ''red'' ''ns/q'' = Some (demo_ci 10)"
    by (simp_all add: pods_of_def demo_nm3)
qed



subsection \<open>The life cycle of a tenant\<close>

text \<open>
  C9. Roll-back of \<open>EnsureTenant\<close>: when it fails for a tenant that held no subnet, at whatever point and whatever the
  kernel answers, the tenant records, the actors and the emitted events are as before, and so is the table
  of subnets; the only exception is a node whose whole network is a single leaf, which
  the subnet manager never takes back.
\<close>

theorem EnsureTenant_rolls_back:
  assumes "nm_reach d root s" "net_pfx root rb" "tm_List (nm_Subnet s) tid = None"
    and "EnsureTenant d tid s = (Inl e, s')"
  shows "nm_TenantRecords s' = nm_TenantRecords s \<and> nm_TenantActors s' = nm_TenantActors s \<and> nm_emitter s' = nm_emitter s \<and>
    (tm_List (nm_Subnet s') = tm_List (nm_Subnet s) \<or> tm_List (nm_Subnet s') = (tm_List (nm_Subnet s))(tid \<mapsto> root))"
proof -
  have inv: "nm_inv root s" using nm_reach_inv [OF assms(1,2)] by simp
  have none: "nm_TenantRecords s tid = None"
    using nm_invD(2) [OF inv, of tid] assms(3) by (cases "nm_TenantRecords s tid") (auto dest: rec_ok_dom)
  show ?thesis
  proof (cases "tid = []")
    case True
    then show ?thesis using assms(4) by (auto simp: EnsureTenant_def)
  next
    case False
    then have r: "EnsureTenant_create d tid s = (Inl e, s')" using assms(4) none by (simp add: EnsureTenant_def)
    show ?thesis
    proof (cases rule: EnsureTenant_create_cases [OF nm_invD(1) [OF inv] r])
      case (2 e' net s3)
      then show ?thesis
        using drop_subnet_list [of s3 tid] assms(3) nm_inv_root [OF inv] by (auto simp: midway_def fun_upd_idem)
    qed auto
  qed
qed


text \<open>A kernel in which no link can be read.\<close>

definition broken_deps :: "unit deps" where
  "broken_deps = demo_deps\<lparr>dp_nl := demo_netlink\<lparr>LinkByName := (\<lambda>n k. Inl \<lparr>err_msg = ''boom'', err_no = None\<rparr>)\<rparr>\<rparr>"

lemma broken_create: "\<exists>e. fst (EnsureTenant broken_deps ''blue'' demo_nm) = Inl e"
proof -
  have "\<not> isLinkNotFound \<lparr>err_msg = ''boom'', err_no = None\<rparr>" by code_simp
  then have "bv_Create (dp_nl broken_deps) (dp_sha1 broken_deps) (dp_sha256 broken_deps) NewBridgeVTEPBackend ''blue'' (demo_net 0) n ()
      = (Inl (NetlinkErr \<lparr>err_msg = ''boom'', err_no = None\<rparr>), ())" for n
    by (simp add: broken_deps_def demo_deps_def demo_netlink_def bv_Create_def bridge_Create_def SetupBridge_def ensureBridge_def
        prog_defs demo_names)
  then show ?thesis
    by (simp add: EnsureTenant_def demo_nm_start EnsureTenant_create_def demo_allocs on_k_def)
qed

lemma nm_reach_broken: "nm_reach d demo_root demo_nm"
proof -
  obtain t where "NewTrieManager demo_root 30 = Inr t" using NewTrieManager_inv [OF demo_pfx, of 30] by auto
  then have "NewNetworkManager demo_root ''node-1'' None () = Inr (demo_nm, Some t)"
    by (simp add: NewNetworkManager_def NewNetworkManagerWithDeps_def demo_nm_def)
  then show ?thesis by (rule nm_start)
qed

theorem EnsureTenant_rolls_back_witness:
  "\<exists>e s'. EnsureTenant broken_deps ''blue'' demo_nm = (Inl e, s') \<and> nm_TenantRecords s' = nm_TenantRecords demo_nm \<and>
     nm_emitter s' = nm_emitter demo_nm"
proof -
  obtain e s' where r: "EnsureTenant broken_deps ''blue'' demo_nm = (Inl e, s')"
    using broken_create by (metis prod.collapse)
  have "tm_List (nm_Subnet demo_nm) ''blue'' = None" unfolding demo_nm_start by code_simp
  then show ?thesis using EnsureTenant_rolls_back [OF nm_reach_broken demo_pfx _ r] r by blast
qed

text \<open>
  C28. \<open>EnsureTenant\<close> commits: after a successful call for a tenant without a record the tenant has a ready record
  with no pods on exactly the subnet that the subnet manager holds for it, an actor, and one update event; the other
  tenants are untouched, and calling it again changes nothing at all.
\<close>

theorem EnsureTenant_commits:
  assumes "nm_reach d root s" "net_pfx root rb" "nm_TenantRecords s tid = None"
    and "EnsureTenant d tid s = (Inr (), s')"
  shows "(\<exists>r. nm_TenantRecords s' = (nm_TenantRecords s)(tid \<mapsto> r) \<and> rec_State r = TenantStateReady \<and>
      rec_Subnet r = tm_List (nm_Subnet s') tid \<and> rec_Subnet r \<noteq> None) \<and>
    pods_of s' = (pods_of s)(tid := Map.empty) \<and> nm_TenantActors s' = insert tid (nm_TenantActors s) \<and>
    (\<forall>t. t \<noteq> tid \<longrightarrow> tm_List (nm_Subnet s') t = tm_List (nm_Subnet s) t) \<and>
    (nm_NodeName s \<noteq> [] \<longrightarrow> (\<forall>q. nm_emitter s = Some q \<longrightarrow>
       (\<exists>w. nm_emitter s' = Some (q @ [w]) \<and> wi_Event w = EventUpdate \<and> rr_Name (wi_Resource w) = nm_NodeName s))) \<and>
    EnsureTenant d tid s' = (Inr (), s')"
proof -
  have inv: "nm_inv root s" using nm_reach_inv [OF assms(1,2)] by simp
  have ne: "tid \<noteq> []" using assms(4) by (auto simp: EnsureTenant_def)
  then have r: "EnsureTenant_create d tid s = (Inr (), s')" using assms(3,4) by (simp add: EnsureTenant_def)
  show ?thesis
  proof (cases rule: EnsureTenant_create_cases [OF nm_invD(1) [OF inv] r])
    case (4 net be ipm s3)
    let ?r = "new_record net be ipm"
    have recs: "nm_TenantRecords s' = (nm_TenantRecords s)(tid \<mapsto> ?r)" using 4(6) by simp
    have "IPs ipm = []" using 4(5) by (auto simp: NewBitmapIPAM_def Let_def split: if_splits prod.splits)
    then have "pods_of s' = (pods_of s)(tid := Map.empty)"
      using recs by (auto simp: fun_eq_iff pods_of_def new_record_def GetAllocation_def)
    moreover have "nm_NodeName s \<noteq> [] \<longrightarrow> (\<forall>q. nm_emitter s = Some q \<longrightarrow>
       (\<exists>w. nm_emitter s' = Some (q @ [w]) \<and> wi_Event w = EventUpdate \<and> rr_Name (wi_Resource w) = nm_NodeName s))"
      using 4(2,6) by (auto simp: emitNodeStoreEvent_def midway_def)
    moreover have "EnsureTenant d tid s' = (Inr (), s')" using recs ne by (simp add: EnsureTenant_def)
    ultimately show ?thesis using recs 4(2,6) by (auto simp: midway_def new_record_def)
  qed (use assms(3) in auto)
qed

theorem EnsureTenant_commits_witness:
  "\<exists>s'. EnsureTenant demo_deps ''blue'' demo_nm = (Inr (), s') \<and> ''blue'' \<in> nm_TenantActors s' \<and>
     EnsureTenant demo_deps ''blue'' s' = (Inr (), s')"
proof -
  obtain s' where r: "EnsureTenant demo_deps ''blue'' demo_nm = (Inr (), s')" using demo_nm2(4) by (metis prod.collapse)
  show ?thesis using EnsureTenant_commits [OF demo_nm_start(1) demo_pfx _ r] r demo_nm_start(3) by auto
qed

lemma drop_root:
  assumes "tm_inv (nm_Subnet s)" "tm_List (nm_Subnet s) tid = Some (tm_Root (nm_Subnet s))" "tid \<noteq> []"
  shows "drop_subnet tid s = s"
proof -
  obtain rb where inv: "trie_inv (tm_t (nm_Subnet s)) rb" using assms(1) by (auto simp: tm_inv_def)
  obtain p where p: "AllocMap (tm_t (nm_Subnet s)) tid = Some p" "node_prefix (tm_t (nm_Subnet s)) p = tm_Root (nm_Subnet s)"
    using assms(2) by (auto simp: tm_List_Some)
  have root: "net_pfx (tm_Root (nm_Subnet s)) rb" using inv by (simp add: trie_inv_def tm_Root_def)
  have "net_pfx (tm_Root (nm_Subnet s)) (rb @ p)" using node_prefix_pfx [OF inv p(1)] p(2) by simp
  then have "rb = rb @ p" by (rule net_pfx_unique [OF root])
  then have "p = []" by simp
  then show ?thesis using p(1) assms(3) by (simp add: drop_subnet_def tm_Deallocate_def GetNodeByID_def Deallocate_def)
qed

text \<open>
  \<open>RemoveTenant\<close>: for a tenant with a record it always succeeds, whatever the kernel answers; record and
  actor are gone, no other tenant changes, and the subnet is free again unless the tenant owned the whole node
  network, which stays taken for ever. Calling it again changes nothing.
\<close>

theorem RemoveTenant_clears:
  assumes "nm_reach d root s" "net_pfx root rb" "nm_TenantRecords s tid = Some r" "RemoveTenant d tid s = (res, s')"
  shows "res = Inr () \<and> nm_TenantRecords s' = (nm_TenantRecords s)(tid := None) \<and>
    nm_TenantActors s' = nm_TenantActors s - {tid} \<and>
    (if tm_List (nm_Subnet s) tid = Some root then tm_List (nm_Subnet s') = tm_List (nm_Subnet s)
     else tm_List (nm_Subnet s') = (tm_List (nm_Subnet s))(tid := None)) \<and>
    RemoveTenant d tid s' = (Inr (), s')"
proof -
  have inv: "nm_inv root s" using nm_reach_inv [OF assms(1,2)] by simp
  have ne: "tid \<noteq> []" using nm_invD(2) [OF inv assms(3)] by (simp add: rec_ok_def)
  obtain k2 X where x: "res = Inr ()" "nm_Subnet X = nm_Subnet s"
    "s' = emitNodeStoreEvent EventDelete ((drop_subnet tid X)\<lparr>nm_k := k2, nm_TenantActors := nm_TenantActors s - {tid},
       nm_TenantRecords := (nm_TenantRecords s)(tid := None)\<rparr>)"
    using RemoveTenant_eq [OF ne assms(3,4)] by metis
  have t: "tm_inv (nm_Subnet X)" using nm_invD(1) [OF inv] x(2) by simp
  have rt: "tm_Root (nm_Subnet X) = root" using nm_inv_root [OF inv] x(2) by simp
  have l: "tm_List (nm_Subnet s') = (if tm_List (nm_Subnet s) tid = Some root then tm_List (nm_Subnet s)
      else (tm_List (nm_Subnet s))(tid := None))"
  proof (cases "tm_List (nm_Subnet s) tid = Some root")
    case True
    then show ?thesis using drop_root [OF t _ ne] rt x(2,3) by simp
  next
    case False
    then show ?thesis using drop_subnet_list [OF t, of tid] rt x(2,3) ne by auto
  qed
  moreover have "RemoveTenant d tid s' = (Inr (), s')" using x(3) ne by (simp add: RemoveTenant_def)
  ultimately show ?thesis using x by simp
qed

theorem RemoveTenant_clears_witness:
  "\<exists>s'. RemoveTenant demo_deps ''red'' demo_nm2 = (Inr (), s') \<and> nm_TenantRecords s' ''red'' = None \<and>
     nm_TenantRecords s' ''blue'' \<noteq> None \<and> tm_List (nm_Subnet s') ''red'' = None"
proof -
  obtain res s' where r: "RemoveTenant demo_deps ''red'' demo_nm2 = (res, s')" by fastforce
  have "tm_List (nm_Subnet demo_nm2) ''red'' \<noteq> Some demo_root" unfolding demo_nm2 by code_simp
  then show ?thesis using RemoveTenant_clears [OF demo_nm2(1) demo_pfx _ r] r by (auto simp: demo_nm2(3))
qed


text \<open>
  The check before the commit of \<open>EnsureTenant\<close> undoes the winner of a race: when two calls for one tenant overlap,
  so that the second finds the record of the first at its commit, the second deletes the devices of the
  tenant and gives its subnet back although the record with its address manager stays. The subnet manager then
  holds nothing for a tenant whose record still hands out addresses, and may give the range to another
  tenant.
\<close>

theorem EnsureTenant_race_frees_live_subnet:
  assumes "nm_inv root s" "nm_TenantRecords s tid = Some r" "tm_List (nm_Subnet s) tid \<noteq> Some root"
    and "EnsureTenant_create d tid s = (Inr (), s')"
  shows "nm_TenantRecords s' tid = Some r \<and> rec_Subnet r \<noteq> None \<and> tm_List (nm_Subnet s') tid = None \<and> \<not> nm_inv root s'"
proof -
  note ok = nm_invD(2) [OF assms(1,2)]
  have "nm_TenantRecords s' tid = Some r \<and> tm_List (nm_Subnet s') tid = None"
  proof (cases rule: EnsureTenant_create_cases [OF nm_invD(1) [OF assms(1)] assms(4)])
    case (3 be net s3)
    obtain net0 where n0: "tm_List (nm_Subnet s) tid = Some net0" using ok by (auto simp: rec_ok_def)
    have m: "tm_Allocate (nm_Subnet s) tid = Inr (nm_Subnet s3, net)" using 3(2) by (simp add: midway_def)
    have "nm_Subnet s3 = nm_Subnet s" using tm.alloc_again [OF nm_invD(1) [OF assms(1)] n0 m] by simp
    then have "tm_List (nm_Subnet s') tid = None"
      using drop_subnet_list [of "s3\<lparr>nm_k := snd (bv_Delete (dp_nl d) be (nm_k s3))\<rparr>" tid] nm_invD(1) [OF assms(1)]
        assms(3) nm_inv_root [OF assms(1)] 3(3,4) by (auto simp: undo_tenant_def)
    then show ?thesis using 3(2,3) assms(2) by (simp add: undo_tenant_def midway_def)
  qed (use assms(2) in auto)
  moreover have "\<not> nm_inv root s'" using calculation nm_invD(2) [of root s' tid r] by (auto simp: rec_ok_def)
  ultimately show ?thesis using ok by (auto simp: rec_ok_def)
qed

theorem EnsureTenant_race_frees_live_subnet_witness:
  "\<exists>s'. EnsureTenant_create demo_deps ''blue'' demo_nm2 = (Inr (), s') \<and> nm_TenantRecords s' ''blue'' = Some (demo_rec 0 1) \<and>
     tm_List (nm_Subnet s') ''blue'' = None"
proof -
  have l: "tm_List demo_sm2 ''blue'' = Some (demo_net 0)" "tm_List demo_sm2 ''blue'' \<noteq> Some demo_root" by code_simp+
  have i: "nm_inv demo_root demo_nm2" using nm_reach_inv [OF demo_nm2(1) demo_pfx] by simp
  have "tm_Allocate demo_sm2 ''blue'' = Inr (demo_sm2, demo_net 0)"
    using tm_Allocate_Some [of "''blue''" demo_sm2] l(1) by (auto simp: tm_List_Some)
  then have "fst (EnsureTenant_create demo_deps ''blue'' demo_nm2) = Inr ()"
    using demo_bv_Create [OF demo_parts(1)] demo_isolation [of "''blue''"] demo_parts(3)
    by (simp add: EnsureTenant_create_def demo_nm2 on_k_def tenant_policy_def defaultTenantIfaces_def demo_deps_def Let_def)
  then obtain s' where r: "EnsureTenant_create demo_deps ''blue'' demo_nm2 = (Inr (), s')" by (metis prod.collapse)
  show ?thesis using EnsureTenant_race_frees_live_subnet [OF i _ _ r] l(2) r by (auto simp: demo_nm2)
qed

subsection \<open>Pods and expansion\<close>

lemma pods_of_upd_other: "nm_TenantRecords s' t = nm_TenantRecords s t \<Longrightarrow> pods_of s' t = pods_of s t"
  by (simp add: pods_of_def fun_eq_iff)

lemma pods_of_Some: "nm_TenantRecords s t = Some r \<Longrightarrow> rec_IPAM r = Some im \<Longrightarrow> pods_of s t = GetAllocation im"
  by (simp add: pods_of_def fun_eq_iff)

text \<open>
  C27. \<open>ExpandTenant\<close> on every outcome: it is refused by the subnet manager and nothing changes; or it succeeds, every pod
  of every tenant keeps its address, record and subnet manager agree on a wider network, and there is a free
  address; or the devices fail, and then record and address manager keep the old network while
  the subnet manager has moved to the wider one. The address manager itself never refuses.
\<close>

theorem ExpandTenant_outcomes:
  assumes "nm_reach d root s" "net_pfx root rb" "nm_TenantRecords s tid = Some r" "ExpandTenant d tid s = (res, s')"
  shows "pods_of s' = pods_of s \<and> (\<forall>t. t \<noteq> tid \<longrightarrow> nm_TenantRecords s' t = nm_TenantRecords s t) \<and>
    (case res of
       Inr r' \<Rightarrow> nm_TenantRecords s' tid = Some r' \<and> rec_Subnet r' = tm_List (nm_Subnet s') tid \<and>
         (\<exists>im. rec_IPAM r' = Some im \<and> Network im = rec_Subnet r' \<and> 0 < Remaining im) \<and>
         (\<exists>sm net. tm_Expand (nm_Subnet s) tid = Inr (sm, net) \<and> rec_Subnet r' = Some net)
     | Inl (NmSubnet e) \<Rightarrow> s' = s
     | Inl (NmBackend e) \<Rightarrow> (\<exists>r'. nm_TenantRecords s' tid = Some r' \<and> rec_Subnet r' = rec_Subnet r \<and> rec_IPAM r' = rec_IPAM r) \<and>
         (\<exists>net. tm_Expand (nm_Subnet s) tid = Inr (nm_Subnet s', net) \<and> tm_List (nm_Subnet s') tid = Some net)
     | _ \<Rightarrow> False)"
proof -
  have inv: "nm_inv root s" using nm_reach_inv [OF assms(1,2)] by simp
  have t: "tm_inv (nm_Subnet s)" by (rule nm_invD(1) [OF inv])
  show ?thesis
  proof (cases rule: ExpandTenant_cases [OF inv assms(3,4)])
    case (1 e)
    then show ?thesis by simp
  next
    case (2 e sm net be k)
    have "pods_of s' = pods_of s" using 2(3) assms(3) by (auto simp: fun_eq_iff pods_of_def)
    then show ?thesis using 2 tm.expand_ok [OF t 2(2)] by simp
  next
    case (3 sm net be k im im' bs r')
    have "GetAllocation im' = GetAllocation im" using 3(7) by (simp add: GetAllocation_def fun_eq_iff)
    then have "pods_of s' = pods_of s" using 3(3,9,10) assms(3) by (auto simp: fun_eq_iff pods_of_def)
    then show ?thesis using 3 tm.expand_ok [OF t 3(2)] ipam_invD(1) [OF 3(5)] by simp
  qed
qed

lemma demo_expand_ok: "is_ok (tm_Expand demo_sm2 ''blue'')"
  by code_simp

theorem ExpandTenant_outcomes_witness:
  "\<exists>res s'. ExpandTenant demo_deps ''blue'' demo_nm3 = (res, s') \<and> pods_of s' ''blue'' ''ns/p'' = Some (demo_ci 2)"
proof -
  obtain res s' where r: "ExpandTenant demo_deps ''blue'' demo_nm3 = (res, s')" by fastforce
  show ?thesis
    using ExpandTenant_outcomes [OF demo_nm3(1) demo_pfx _ r] pods_of_demo(1) r by (simp add: demo_nm3(2))
qed

lemma EnsurePod_not_full:
  assumes "nm_inv rt s" "nm_TenantRecords s tid = Some r" "rec_IPAM r = Some im" "0 < Remaining im"
    and "EnsurePod d tid args s = (Inl e, s')"
  shows "\<not> is_no_ips e"
proof -
  have "bitmap_inv im" using nm_invD(2) [OF assms(1,2)] assms(3) by (auto simp: rec_ok_def bitmap_inv_def)
  then have "\<exists>x. ipam_Allocate im k c i ns = Inr x" for k c i ns
    using bm.alloc_fails [of im k c i ns] assms(4) by (cases "ipam_Allocate im k c i ns") auto
  then have al: "\<exists>im1 ci. ipam_Allocate im (podKey (pa_Namespace args) (pa_PodName args)) (pa_ContainerID args) (pa_IfName args) (pa_NetNS args) = Inr (im1, ci)"
    by (metis prod.collapse)
  have "\<exists>e'. e = ErrTenantClosing \<or> e = NilPanic \<or> e = BridgeNotFound tid \<or> e = NmVeth e'"
  proof (cases "rec_State r = TenantStateClosing")
    case True
    then show ?thesis using assms(2,5) by (simp add: EnsurePod_def)
  next
    case False
    then show ?thesis
      using assms(2,3,5) al
      by (cases "rec_Backend r"; cases "backend_Bridge (the (rec_Backend r))"; cases "rec_Subnet r";
          cases "device_ip (the (backend_Bridge (the (rec_Backend r))))")
         (auto simp: EnsurePod_def Let_def on_k_def split: prod.splits sum.splits)
  qed
  then show ?thesis by auto
qed

lemma requestTenantExpansion_room:
  assumes inv: "nm_inv rt s" and q: "quiet s" and ok: "requestTenantExpansion d tid s = (Inr u, s')"
  shows "\<exists>r im. nm_TenantRecords s' tid = Some r \<and> rec_IPAM r = Some im \<and> 0 < Remaining im"
proof -
  obtain r where r: "nm_TenantRecords s tid = Some r" "rec_State r \<noteq> TenantStateClosing"
    using ok by (auto simp: requestTenantExpansion_def split: option.splits if_splits)
  have ch: "rec_expandCh r = None" using q r by (simp add: quiet_def)
  let ?c = "nm_nextCh s"
  let ?s1 = "(upd_rec tid (\<lambda>r. r\<lparr>rec_expandCh := Some ?c\<rparr>) s)\<lparr>nm_nextCh := ?c + 1\<rparr>"
  obtain res s2 where p: "performTenantExpansion d tid ?s1 = (res, s2)" by fastforce
  let ?f = "\<lambda>r. if rec_expandCh r = Some ?c
      then r\<lparr>rec_lastExpandErr := (case res of Inl e \<Rightarrow> Some e | Inr _ \<Rightarrow> None), rec_expandCh := None\<rparr> else r"
  have e: "res = Inr u" "s' = upd_rec tid ?f s2"
    using r ch p ok by (auto simp: requestTenantExpansion_def Let_def)
  obtain x s3 where x: "ExpandTenant d tid ?s1 = (x, s3)" by fastforce
  have xs: "s3 = s2" "\<exists>r'. x = Inr r'"
    using p e(1) x by (auto simp: performTenantExpansion_def p_bind_def p_ret_def split: sum.splits)
  have i1: "nm_inv rt ?s1" using upd_rec_inv [OF inv, of tid "\<lambda>r. r\<lparr>rec_expandCh := Some ?c\<rparr>"] nm_invD(2) [OF inv]
    by (simp add: rec_ok_other)
  have r1: "nm_TenantRecords ?s1 tid = Some (r\<lparr>rec_expandCh := Some ?c\<rparr>)" using r by (simp add: upd_rec_records)
  show ?thesis
  proof (cases rule: ExpandTenant_cases [OF i1 r1 x])
    case (3 sm net be k im im' bs r')
    then have "nm_TenantRecords s' tid = Some (?f r')" "rec_IPAM (?f r') = Some im'"
      using xs e(2) by (simp_all add: upd_rec_records)
    then show ?thesis using 3(8) by blast
  qed (use xs in auto)
qed



lemma EnsurePod_Subnet: "nm_Subnet (snd (EnsurePod d tid args s)) = nm_Subnet s"
proof -
  obtain res s' where r: "EnsurePod d tid args s = (res, s')" by fastforce
  have "nm_Subnet s' = nm_Subnet s" by (cases rule: EnsurePod_cases [OF r]) auto
  then show ?thesis using r by simp
qed



lemma alloc_then_free:
  assumes inv: "ipam_inv im n bs" and al: "ipam_Allocate im k c i ns = Inr (im1, ci)" and fresh: "GetAllocation im k = None"
  shows "\<exists>im2. ipam_Free im1 (ci_IP ci) = Inr im2 \<and> GetAllocation im2 = GetAllocation im \<and> Remaining im2 = Remaining im"
proof -
  obtain j where j: "j < podcap bs" "\<not> bm_test (bitmap im) j" "taken im n j k c i ns = (im1, ci)"
    using ipam_Allocate_Inr [OF inv al] by metis
  note t = taken_inv [OF inv j]
  have l: "length (ci_IP ci) = 4" using t(3) indexToIP_val(1) [OF ipam_invD(2) [OF inv] j(1)] by simp
  then have t4: "to4 (ci_IP ci) = indexToIP n (int j)" using t(3) by (simp add: to4_def)
  obtain im2 where f: "ipam_Free im1 (ci_IP ci) = Inr im2" using ipam_Free_cases [OF t(1), of "ci_IP ci"] t4 j(1) by auto
  note fr = ipam_Free_inv [OF t(1) f]
  have "GetAllocation im2 = GetAllocation im"
    using fr(2) t(2,3) t4 fresh t(5) by (fastforce simp: fun_eq_iff freed_def split: option.splits)
  moreover have "bm_test (bitmap im2) m = bm_test (bitmap im) m" for m
    using fr(3) [of m] t(4) [of m] t4 j indexToIP_inject [OF ipam_invD(2) [OF inv] j(1), of m] ipam_invD(4) [OF t(1), of m] by metis
  then have "Remaining im2 = Remaining im" using remaining_count [OF fr(1)] remaining_count [OF inv] by simp
  ultimately show ?thesis using f by blast
qed

text \<open>The pods after an address manager has been replaced: one more after an allocation, the former ones when the allocation was undone.\<close>

lemma pods_of_attached:
  assumes "nm_TenantRecords s tid = Some r" "rec_IPAM r = Some im" "GetAllocation im1 = (GetAllocation im)(key \<mapsto> ci)"
    "nm_TenantRecords s1 = nm_TenantRecords (upd_rec tid (\<lambda>r. r\<lparr>rec_IPAM := Some im1\<rparr>) s)"
  shows "pods_of s1 = (pods_of s)(tid := (pods_of s tid)(key \<mapsto> ci))"
  using assms by (auto simp: fun_eq_iff pods_of_def upd_rec_records)

lemma pods_of_undone:
  assumes "nm_TenantRecords s tid = Some r" "rec_IPAM r = Some im" "ipam_inv im n bs"
    "ipam_Allocate im key c i ns = Inr (im1, ci)" "GetAllocation im key = None"
  shows "pods_of (upd_rec tid (\<lambda>r. case ipam_Free im1 (ci_IP ci) of Inl _ \<Rightarrow> r | Inr im2 \<Rightarrow> r\<lparr>rec_IPAM := Some im2\<rparr>)
     ((upd_rec tid (\<lambda>r. r\<lparr>rec_IPAM := Some im1\<rparr>) s)\<lparr>nm_k := k\<rparr>)) = pods_of s"
proof -
  obtain im2 where "ipam_Free im1 (ci_IP ci) = Inr im2" "GetAllocation im2 = GetAllocation im"
    using alloc_then_free [OF assms(3-5)] by auto
  then show ?thesis using assms(1,2) by (auto simp: fun_eq_iff pods_of_def upd_rec_records)
qed

lemma attached_address_new:
  assumes inv: "nm_inv root s'" and p: "pods_of s' = (pods_of s)(tid := (pods_of s tid)(key \<mapsto> ci))"
    and own: "\<And>k v. pods_of s tid k = Some v \<Longrightarrow> ci_IP v \<noteq> ci_IP ci" and v: "pods_of s t k = Some v"
  shows "ci_IP v \<noteq> ci_IP ci"
proof (cases "t = tid")
  case False
  then show ?thesis using pods_distinct [OF inv, of t k v tid key ci] v p by simp
qed (use own v in blast)



subsection \<open>Peers\<close>

lemma remotePeersEqual_refl: "remotePeersEqual a a"
  by (auto simp: remotePeersEqual_def cidrEqual_def ipEqual_def macEqual_def ip_equal_def split: option.splits)

text \<open>What the kernel entries of a peer leave alone: the managers, and the record of the tenant but for its peers.\<close>

definition peer_frame :: "string \<Rightarrow> 'k nm \<Rightarrow> 'k nm \<Rightarrow> bool" where
  "peer_frame tid s s' \<longleftrightarrow> requireManagers s' = requireManagers s \<and>
     map_option rec_Backend (nm_TenantRecords s' tid) = map_option rec_Backend (nm_TenantRecords s tid)"

lemma peer_frame_refl [simp]: "peer_frame tid s s"
  by (simp add: peer_frame_def)

lemma peer_frame_trans: "peer_frame tid s s1 \<Longrightarrow> peer_frame tid s1 s2 \<Longrightarrow> peer_frame tid s s2"
  by (simp add: peer_frame_def)

lemma on_k_frame: "on_k w p s = (x, s') \<Longrightarrow> \<exists>k. s' = s\<lparr>nm_k := k\<rparr>"
  by (auto simp: on_k_def split: prod.splits sum.splits)

lemma entries_frame:
  assumes "ensurePeerEntries d r re s = (x, s') \<or> removePeerEntries d r re s = (x, s')"
  shows "\<exists>k. s' = s\<lparr>nm_k := k\<rparr>"
proof -
  have "(\<exists>k. snd (ensurePeerEntries d r re s) = s\<lparr>nm_k := k\<rparr>) \<and> (\<exists>k. snd (removePeerEntries d r re s) = s\<lparr>nm_k := k\<rparr>)"
    unfolding ensurePeerEntries_def removePeerEntries_def p_bind_def on_k_def
    by (auto split: prod.splits sum.splits) (metis nm.surjective nm.update_convs(12))+
  then show ?thesis using assms by (metis snd_conv)
qed

lemma peer_frame_k [simp]: "peer_frame tid s (s\<lparr>nm_k := k\<rparr>)"
  by (simp add: peer_frame_def requireManagers_def)

lemma requireManagers_upd [simp]: "requireManagers (upd_rec tid f s) = requireManagers s"
  by (auto simp: requireManagers_def upd_rec_def split: option.splits)

lemma peer_frame_upd: "(\<And>r. rec_Backend (f r) = rec_Backend r) \<Longrightarrow> peer_frame tid s (upd_rec tid f s)"
  by (auto simp: peer_frame_def upd_rec_records option.map_comp comp_def)

lemma EnsurePeer_ok:
  assumes "EnsurePeer d tid re s = (Inr (), s')"
  shows "re_NodeName re \<noteq> [] \<and> requireManagers s \<and>
    (\<exists>r be. nm_TenantRecords s tid = Some r \<and> rec_Backend r = Some be \<and>
      ((\<exists>prev. peers_map r (re_NodeName re) = Some prev \<and> remotePeersEqual prev re \<and> s' = s) \<or>
       (\<exists>s2. peer_frame tid s s2 \<and> s' = storePeerState tid re s2)))"
proof -
  obtain r be where r: "re_NodeName re \<noteq> []" "requireManagers s" "nm_TenantRecords s tid = Some r" "rec_Backend r = Some be"
    using assms by (auto simp: EnsurePeer_def getTenantRecord_def split: if_splits option.splits)
  obtain prev skip s1 where l: "lookupPeerState tid (re_NodeName re) re s = ((prev, skip), s1)" by (metis prod.collapse)
  have f1: "peer_frame tid s s1"
    using l r(3) by (auto simp: lookupPeerState_def Let_def intro: peer_frame_upd split: option.splits if_splits)
  show ?thesis
  proof (cases skip)
    case True
    then have "\<exists>pv. peers_map r (re_NodeName re) = Some pv \<and> remotePeersEqual pv re" "s1 = s"
      using l r(3) by (auto simp: lookupPeerState_def Let_def peers_map_def split: option.splits if_splits)
    moreover have "s' = s1" using assms r l True by (simp add: EnsurePeer_def getTenantRecord_def)
    ultimately show ?thesis using r by blast
  next
    case False
    let ?drop = "case prev of None \<Rightarrow> p_ret ()
       | Some pv \<Rightarrow> p_bind (removePeerEntries d r pv) (\<lambda>_ s. (Inr (), deletePeerState tid (re_NodeName pv) s))"
    have "p_bind ?drop (\<lambda>_. p_bind (ensurePeerEntries d r re) (\<lambda>_ s. (Inr (), storePeerState tid re s))) s1 = (Inr (), s')"
      using assms r l False by (simp add: EnsurePeer_def getTenantRecord_def)
    then obtain s2 s3 where 2: "?drop s1 = (Inr (), s2)" and 3: "ensurePeerEntries d r re s2 = (Inr (), s3)"
      and s': "s' = storePeerState tid re s3"
      by (auto simp: p_bind_ok)
    have "peer_frame tid s1 s2"
    proof (cases prev)
      case None
      then show ?thesis using 2 by (simp add: p_ret_def)
    next
      case (Some pv)
      then obtain s4 where "removePeerEntries d r pv s1 = (Inr (), s4)" "s2 = deletePeerState tid (re_NodeName pv) s4"
        using 2 by (auto simp: p_bind_ok)
      moreover obtain k where "s4 = s1\<lparr>nm_k := k\<rparr>" using entries_frame calculation(1) by blast
      moreover have "peer_frame tid (s1\<lparr>nm_k := k\<rparr>) (deletePeerState tid (re_NodeName pv) (s1\<lparr>nm_k := k\<rparr>))"
        unfolding deletePeerState_def by (rule peer_frame_upd) (simp split: option.splits)
      ultimately show ?thesis using peer_frame_trans [OF peer_frame_k [of tid s1 k], of s2] by simp
    qed
    moreover have "peer_frame tid s2 s3" using entries_frame 3 by (metis peer_frame_k)
    ultimately have "peer_frame tid s s3" using f1 peer_frame_trans by blast
    then show ?thesis using r s' by blast
  qed
qed

lemma frame_rec: "peer_frame tid s s' \<Longrightarrow> nm_TenantRecords s tid = Some r \<Longrightarrow> rec_Backend r = Some be \<Longrightarrow>
    \<exists>r'. nm_TenantRecords s' tid = Some r' \<and> rec_Backend r' = Some be"
  by (auto simp: peer_frame_def)

lemma EnsurePeer_stored:
  assumes "re_NodeName re \<noteq> []" "requireManagers s" "nm_TenantRecords s tid = Some r" "rec_Backend r = Some be"
    "peers_map r (re_NodeName re) = Some prev" "remotePeersEqual prev re"
  shows "EnsurePeer d tid re s = (Inr (), s)"
  using assms by (auto simp: EnsurePeer_def getTenantRecord_def lookupPeerState_def Let_def peers_map_def split: option.splits)

text \<open>
  C30. Peers: after a successful \<open>EnsurePeer\<close> the node is stored as a peer of the tenant with attributes equal to the
  desired ones, and calling it again does nothing, in the kernel neither; a \<open>RemovePeer\<close> that succeeds
  afterwards forgets that node and no other, and calling it again does nothing.
\<close>

theorem peer_lifecycle:
  assumes "nm_reach d root s" "net_pfx root rb" "EnsurePeer d tid re s = (Inr (), s1)"
  shows "(\<exists>p. getStoredPeer tid (re_NodeName re) s1 = Some p \<and> remotePeersEqual p re) \<and> EnsurePeer d1 tid re s1 = (Inr (), s1) \<and>
    (\<forall>s2. RemovePeer d2 tid re s1 = (Inr (), s2) \<longrightarrow>
       getStoredPeer tid (re_NodeName re) s2 = None \<and>
       (\<forall>n. n \<noteq> re_NodeName re \<longrightarrow> getStoredPeer tid n s2 = getStoredPeer tid n s1) \<and>
       RemovePeer d3 tid re s2 = (Inr (), s2))"
proof -
  obtain r be where r: "re_NodeName re \<noteq> []" "requireManagers s" "nm_TenantRecords s tid = Some r" "rec_Backend r = Some be"
    "(\<exists>prev. peers_map r (re_NodeName re) = Some prev \<and> remotePeersEqual prev re \<and> s1 = s) \<or>
       (\<exists>s2. peer_frame tid s s2 \<and> s1 = storePeerState tid re s2)"
    using EnsurePeer_ok [OF assms(3)] by blast
  have "\<exists>r1 p. requireManagers s1 \<and> nm_TenantRecords s1 tid = Some r1 \<and> rec_Backend r1 = Some be \<and>
      peers_map r1 (re_NodeName re) = Some p \<and> remotePeersEqual p re"
    using r(5)
  proof (elim disjE exE conjE)
    fix s2 assume f: "peer_frame tid s s2" and s1: "s1 = storePeerState tid re s2"
    obtain r2 where "nm_TenantRecords s2 tid = Some r2" "rec_Backend r2 = Some be" using frame_rec [OF f r(3,4)] by blast
    moreover have "requireManagers s2" using f r(2) by (simp add: peer_frame_def)
    ultimately show ?thesis
      using remotePeersEqual_refl [of re] s1 by (auto simp: storePeerState_def upd_rec_records peers_map_def update_conv' split: option.splits)
  qed (use r in blast)
  then obtain r1 p where r1: "requireManagers s1" "nm_TenantRecords s1 tid = Some r1" "rec_Backend r1 = Some be"
    "peers_map r1 (re_NodeName re) = Some p" "remotePeersEqual p re" by blast
  have "nm_inv root s1" using assms(3) EnsurePeer_keeps [of s d tid re] nm_reach_inv [OF assms(1,2)] by (simp add: keeps_def)
  then have p: "re_NodeName p = re_NodeName re"
    using nm_invD(2) [of root s1 tid r1] r1(2,4) by (auto simp: rec_ok_def peers_ok_def)
  have "getStoredPeer tid (re_NodeName re) s2 = None \<and>
       (\<forall>n. n \<noteq> re_NodeName re \<longrightarrow> getStoredPeer tid n s2 = getStoredPeer tid n s1) \<and> RemovePeer d3 tid re s2 = (Inr (), s2)"
    if rm: "RemovePeer d2 tid re s1 = (Inr (), s2)" for s2
  proof -
    have "p_bind (removePeerEntries d2 r1 p) (\<lambda>_ s. (Inr (), deletePeerState tid (re_NodeName p) s)) s1 = (Inr (), s2)"
      using rm r(1) r1 by (simp add: RemovePeer_def getTenantRecord_def getStoredPeer_def)
    then obtain s4 where s4: "removePeerEntries d2 r1 p s1 = (Inr (), s4)" "s2 = deletePeerState tid (re_NodeName re) s4"
      using p by (auto simp: p_bind_ok)
    obtain k where s2: "s2 = deletePeerState tid (re_NodeName re) (s1\<lparr>nm_k := k\<rparr>)"
      using entries_frame [of d2 r1 p s1 "Inr ()" s4] s4 by blast
    obtain ps where ps: "rec_Peers r1 = Some ps" using r1(4) by (auto simp: peers_map_def split: option.splits)
    have m: "nm_TenantRecords s2 tid = Some (r1\<lparr>rec_Peers := Some (AList.delete (re_NodeName re) ps)\<rparr>)" "requireManagers s2"
      using s2 r1(1,2) ps by (auto simp: deletePeerState_def upd_rec_records requireManagers_def upd_rec_def)
    have g: "getStoredPeer tid n s2 = (if n = re_NodeName re then None else getStoredPeer tid n s1)" for n
      using m(1) r1(2) ps by (simp add: getStoredPeer_def peers_map_def delete_conv')
    then show ?thesis using m r(1) r1(3) by (simp add: RemovePeer_def getTenantRecord_def)
  qed
  then show ?thesis using r1 EnsurePeer_stored [OF r(1) r1] by (auto simp: getStoredPeer_def)
qed

lemma requireManagers_emit [simp]: "requireManagers (emitNodeStoreEvent ev s) = requireManagers s"
  by (auto simp: emitNodeStoreEvent_def requireManagers_def split: option.splits)

lemma demo_managers: "requireManagers demo_nm2"
proof -
  let ?s1 = "snd (EnsureTenant demo_deps ''blue'' demo_nm)"
  obtain t where "NewTrieManager demo_root 30 = Inr t" using NewTrieManager_inv [OF demo_pfx, of 30] by auto
  then have "requireManagers demo_nm"
    by (simp add: NewNetworkManager_def NewNetworkManagerWithDeps_def demo_nm_def requireManagers_def)
  then have 1: "nm_Subnet ?s1 = demo_sm1" "nm_TenantRecords ?s1 = [''blue'' \<mapsto> demo_rec 0 1]" "requireManagers ?s1"
    using demo_EnsureTenant [of "''blue''" demo_nm demo_sm1 "demo_net 0" "demo_gw 1" "demo_im 0"]
    by (simp_all add: demo_nm_start demo_allocs demo_parts demo_rec_def requireManagers_def [of "s\<lparr>nm_TenantActors := A\<rparr>" for s A])
      (simp add: requireManagers_def)
  show ?thesis
    using demo_EnsureTenant [of "''red''" ?s1 demo_sm2 "demo_net 8" "demo_gw 9" "demo_im 8"] 1
    by (simp add: demo_allocs demo_parts demo_rec_def demo_nm2_def) (simp add: requireManagers_def)
qed

definition demo_remote :: RemoteTenantInfra where
  "demo_remote = \<lparr>re_NodeName = ''node-2'', re_NodeIP = [192, 168, 0, 2], re_VTEPIP = [10, 0, 1, 0], re_VTEPMAC = [2, 0, 0, 0, 0, 2],
     re_Subnet = Some \<lparr>net_ip = [10, 0, 1, 0], net_mask = cidr_mask 30 32\<rparr>, re_VNI = 42\<rparr>"

theorem peer_lifecycle_witness:
  "\<exists>s1. EnsurePeer demo_deps ''blue'' demo_remote demo_nm2 = (Inr (), s1) \<and>
     (\<exists>p. getStoredPeer ''blue'' ''node-2'' s1 = Some p \<and> remotePeersEqual p demo_remote) \<and>
     EnsurePeer demo_deps ''blue'' demo_remote s1 = (Inr (), s1)"
proof -
  have m: "nm_ARP demo_nm2" "nm_FDB demo_nm2" "nm_Route demo_nm2" using demo_managers by (simp_all add: requireManagers_def)
  have v: "backend_VTEP (demo_backend g net) = bv_VTEP (demo_backend g net)" for g net
    by (simp add: backend_VTEP_def bv_Devices_def demo_backend_def)
  have "fst (EnsurePeer demo_deps ''blue'' demo_remote demo_nm2) = Inr ()"
    using m v by (simp add: EnsurePeer_def demo_remote_def getTenantRecord_def demo_nm2 requireManagers_def lookupPeerState_def peers_map_def
      demo_rec_def new_record_def Let_def p_ret_def p_bind_def ensurePeerEntries_def peer_device_def demo_backend_def on_k_def
      arp_Add_def fdb_Add_def route_Update_def route_do_def arp_of_def fdb_of_def route_of_def prog_defs p_do_unless_def demo_deps_def demo_netlink_def)
  then obtain s1 where r: "EnsurePeer demo_deps ''blue'' demo_remote demo_nm2 = (Inr (), s1)" by (metis prod.collapse)
  show ?thesis using peer_lifecycle [OF demo_nm2(1) demo_pfx r] r by (intro exI [of _ s1]) (simp add: demo_remote_def)
qed

subsection \<open>Pod keys\<close>

lemma slash_split:
  "CHR ''/'' \<notin> set a \<Longrightarrow> takeWhile (\<lambda>c. c \<noteq> CHR ''/'') (a @ CHR ''/'' # b) = a \<and>
     dropWhile (\<lambda>c. c \<noteq> CHR ''/'') (a @ CHR ''/'' # b) = CHR ''/'' # b"
  by (induction a) auto

lemma splitPodKey_join:
  assumes "CHR ''/'' \<in> set key"
  shows "fst (splitPodKey key) @ ''/'' @ snd (splitPodKey key) = key"
proof -
  obtain a b where k: "key = a @ CHR ''/'' # b" "CHR ''/'' \<notin> set a" using split_list_first [OF assms] by auto
  then have "takeWhile (\<lambda>c. c \<noteq> CHR ''/'') key = a" "dropWhile (\<lambda>c. c \<noteq> CHR ''/'') key = CHR ''/'' # b"
    using slash_split [of a b] by simp_all
  then show ?thesis using k assms by (simp add: splitPodKey_def)
qed

lemma splitPodKey_podKey:
  assumes "CHR ''/'' \<notin> set ns" "ns = [] \<Longrightarrow> CHR ''/'' \<notin> set pod"
  shows "splitPodKey (podKey ns pod) = (ns, pod)"
  using assms slash_split [of ns pod] by (simp add: splitPodKey_def podKey_def)

lemma snapshot_names:
  "(\<And>key info. (key, info) \<in> set allocs \<Longrightarrow> ci_IP info \<noteq> [] \<and> take 1 key \<noteq> ''/'') \<Longrightarrow>
   snapshot_pods allocs = map (\<lambda>(key, info). \<lparr>tp_Name = key, tp_IP = ci_IP info\<rparr>) allocs"
proof (induction allocs)
  case (Cons kv allocs)
  obtain key info where kv: "kv = (key, info)" by (cases kv)
  have h: "ci_IP info \<noteq> []" "take 1 key \<noteq> ''/''" using Cons.prems kv by auto
  have n: "(if fst (splitPodKey key) \<noteq> [] then fst (splitPodKey key) @ ''/'' @ snd (splitPodKey key) else snd (splitPodKey key)) = key"
  proof (cases "CHR ''/'' \<in> set key")
    case True
    moreover have "fst (splitPodKey key) \<noteq> []" using True h(2) by (cases key) (auto simp: splitPodKey_def)
    ultimately show ?thesis using splitPodKey_join by simp
  next
    case False
    then show ?thesis by (simp add: splitPodKey_def)
  qed
  have "snapshot_pods allocs = map (\<lambda>(key, info). \<lparr>tp_Name = key, tp_IP = ci_IP info\<rparr>) allocs"
    using Cons.IH Cons.prems by (meson list.set_intros(2))
  then show ?case using h(1) n kv by (simp add: case_prod_beta)
qed simp

text \<open>
  C31. Pod keys: splitting the key of a pod gives back its namespace and its name when the namespace has no slash, as
  Kubernetes guarantees, so different pods have different keys; and the snapshot of a
  tenant in a reachable state lists exactly its pods, each with its own key as name and its own address, as long as no
  key starts with a slash.
\<close>

theorem pod_keys_faithful:
  assumes "CHR ''/'' \<notin> set ns" "CHR ''/'' \<notin> set pod" "CHR ''/'' \<notin> set ns'" "CHR ''/'' \<notin> set pod'"
    and "nm_reach d root s" "net_pfx root rb" "nm_TenantRecords s tid = Some r" "rec_Backend r \<noteq> None"
    and "\<And>key v. pods_of s tid key = Some v \<Longrightarrow> take 1 key \<noteq> ''/''"
  shows "splitPodKey (podKey ns pod) = (ns, pod) \<and> (podKey ns pod = podKey ns' pod' \<longrightarrow> ns = ns' \<and> pod = pod') \<and>
    (\<exists>snap. SnapshotTenantInfra tid s = Inr snap \<and> sn_Subnet snap = rec_Subnet r \<and>
       set (map (\<lambda>p. (tp_Name p, tp_IP p)) (sn_Pods snap)) = {(key, ci_IP v) |key v. pods_of s tid key = Some v})"
proof -
  have rt: "splitPodKey (podKey ns pod) = (ns, pod)" "splitPodKey (podKey ns' pod') = (ns', pod')"
    using splitPodKey_podKey assms(1-4) by blast+
  have inv: "nm_inv root s" using nm_reach_inv [OF assms(5,6)] by simp
  obtain im n bs where r: "rec_IPAM r = Some im" "ipam_inv im n bs" "rec_Subnet r = Some n"
    using nm_invD(2) [OF inv assms(7)] by (auto simp: rec_ok_def)
  obtain be where be: "rec_Backend r = Some be" using assms(8) by auto
  note d = ipam_invD [OF r(2)]
  have p: "pods_of s tid key = Some v \<longleftrightarrow> (key, v) \<in> set (IPs im)" for key v
    using pods_of_Some [OF assms(7) r(1)] d(5) by (simp add: GetAllocation_def)
  have "ci_IP info \<noteq> [] \<and> take 1 key \<noteq> ''/''" if "(key, info) \<in> set (IPs im)" for key info
  proof -
    have "map_of (IPs im) key = Some info" using that d(5) by simp
    then obtain i where "i < podcap bs" "ci_IP info = indexToIP n (int i)" using d(4,6) by blast
    then have "length (ci_IP info) = 4" using indexToIP_val(1) [OF d(2)] by simp
    then show ?thesis using assms(9) [of key info] p that by auto
  qed
  then have sp: "snapshot_pods (IPs im) = map (\<lambda>(key, info). \<lparr>tp_Name = key, tp_IP = ci_IP info\<rparr>) (IPs im)"
    by (rule snapshot_names)
  obtain snap where snap: "SnapshotTenantInfra tid s = Inr snap" "sn_Subnet snap = Some n" "sn_Pods snap = snapshot_pods (IPs im)"
    using assms(7) r be
    by (auto simp: SnapshotTenantInfra_def buildTenantSnapshot_def Let_def ListAllocations_def split: option.splits)
  have "map (\<lambda>p. (tp_Name p, tp_IP p)) (sn_Pods snap) = map (\<lambda>(key, info). (key, ci_IP info)) (IPs im)"
    by (simp add: snap(3) sp case_prod_beta)
  then have "set (map (\<lambda>p. (tp_Name p, tp_IP p)) (sn_Pods snap)) = (\<lambda>(key, info). (key, ci_IP info)) ` set (IPs im)" by simp
  also have "\<dots> = {(key, ci_IP v) |key v. pods_of s tid key = Some v}" unfolding p by (auto simp: image_iff)
  finally have "\<exists>snap. SnapshotTenantInfra tid s = Inr snap \<and> sn_Subnet snap = rec_Subnet r \<and>
       set (map (\<lambda>p. (tp_Name p, tp_IP p)) (sn_Pods snap)) = {(key, ci_IP v) |key v. pods_of s tid key = Some v}"
    using r(3) snap(1,2) by (intro exI [of _ snap]) simp
  moreover have "podKey ns pod = podKey ns' pod' \<longrightarrow> ns = ns' \<and> pod = pod'" using rt by (metis prod.inject)
  ultimately show ?thesis using rt(1) by blast
qed

theorem pod_keys_faithful_witness:
  "splitPodKey (podKey ''ns'' ''p'') = (''ns'', ''p'') \<and> podKey ''ns'' ''p'' \<noteq> podKey ''ns'' ''q'' \<and>
   (\<exists>snap. SnapshotTenantInfra ''blue'' demo_nm3 = Inr snap \<and> (''ns/p'', [10, 0, 0, 2]) \<in> set (map (\<lambda>p. (tp_Name p, tp_IP p)) (sn_Pods snap)))"
proof -
  let ?r = "(demo_rec 0 1)\<lparr>rec_IPAM := Some (demo_im1 0 ''p'')\<rparr>"
  have r: "nm_TenantRecords demo_nm3 ''blue'' = Some ?r" "rec_Backend ?r \<noteq> None" by (simp_all add: demo_nm3(2))
  have dom: "map fst (IPs (demo_im1 0 ''p'')) = [''ns/p'']" by code_simp
  have po: "pods_of demo_nm3 ''blue'' = map_of (IPs (demo_im1 0 ''p''))"
    using pods_of_Some [OF r(1)] by (simp add: GetAllocation_def fun_eq_iff)
  have k: "key = ''ns/p''" if "pods_of demo_nm3 ''blue'' key = Some v" for key v
  proof -
    have "(key, v) \<in> set (IPs (demo_im1 0 ''p''))" using that unfolding po by (rule map_of_SomeD)
    then have "key \<in> set (map fst (IPs (demo_im1 0 ''p'')))" by force
    then show ?thesis unfolding dom by (simp only: list.set(1) list.set(2) singleton_iff)
  qed
  have nosl: "take 1 key \<noteq> ''/''" if "pods_of demo_nm3 ''blue'' key = Some v" for key v using k [OF that] by simp
  have sl: "CHR ''/'' \<notin> set ''ns''" "CHR ''/'' \<notin> set ''p''" "CHR ''/'' \<notin> set ''q''" by simp_all
  have th: "splitPodKey (podKey ''ns'' ''p'') = (''ns'', ''p'') \<and> (podKey ''ns'' ''p'' = podKey ''ns'' ''q'' \<longrightarrow> ''ns'' = ''ns'' \<and> ''p'' = ''q'') \<and>
    (\<exists>snap. SnapshotTenantInfra ''blue'' demo_nm3 = Inr snap \<and> sn_Subnet snap = rec_Subnet ?r \<and>
       set (map (\<lambda>p. (tp_Name p, tp_IP p)) (sn_Pods snap)) = {(key, ci_IP v) |key v. pods_of demo_nm3 ''blue'' key = Some v})"
    by (rule pod_keys_faithful [OF sl(1,2) sl(1,3) demo_nm3(1) demo_pfx r]) (rule nosl)
  obtain snap where snap: "SnapshotTenantInfra ''blue'' demo_nm3 = Inr snap"
    "set (map (\<lambda>p. (tp_Name p, tp_IP p)) (sn_Pods snap)) = {(key, ci_IP v) |key v. pods_of demo_nm3 ''blue'' key = Some v}"
    using th by blast
  have "(''ns/p'', [10, 0, 0, 2]) \<in> {(key, ci_IP v) |key v. pods_of demo_nm3 ''blue'' key = Some v}"
    by (rule CollectI, rule exI [of _ "''ns/p''"], rule exI [of _ "demo_ci 2"]) (simp add: pods_of_demo(1) demo_ci_def)
  then have "\<exists>snap. SnapshotTenantInfra ''blue'' demo_nm3 = Inr snap \<and>
      (''ns/p'', [10, 0, 0, 2]) \<in> set (map (\<lambda>p. (tp_Name p, tp_IP p)) (sn_Pods snap))"
    using snap(1) unfolding snap(2) [symmetric] by (intro exI conjI)
  moreover have "podKey ''ns'' ''p'' \<noteq> podKey ''ns'' ''q''" using th by simp
  ultimately show ?thesis using th [THEN conjunct1] by (intro conjI)
qed

subsection \<open>Detaching\<close>

text \<open>\<open>RemovePod\<close> is a stub: the pod keeps its address, so a pod that is gone occupies the subnet for ever.\<close>

lemma RemovePod_keeps_address:
  assumes "RemovePod tid args s = (Inr (), s')"
  shows "pods_of s' = pods_of s \<and> nm_TenantRecords s' = nm_TenantRecords s"
  using assms by (auto simp: RemovePod_def pods_of_def fun_eq_iff split: option.splits)

end
