(* ===== verification/Dispatcher.thy ===== *)
theory Dispatcher
  imports NM_Demo
begin

text \<open>
  The dispatcher of the daemon, \<open>internal/dispatcher\<close>, and the adapter the operator calls it through,
  \<open>internal/daemon/dispatcher.go\<close>: a bounded channel of commands that one goroutine executes on the network
  manager, and a bounded channel of outcomes. A channel is the list of the values in its buffer with its capacity. The
  times in commands and events are only logged and are left out.
\<close>

subsection \<open>types.go\<close>

definition OpEnsure :: string where "OpEnsure = ''ensure''"
definition OpRemove :: string where "OpRemove = ''remove''"
definition OpEnsurePeer :: string where "OpEnsurePeer = ''ensure-peer''"
definition OpRemovePeer :: string where "OpRemovePeer = ''remove-peer''"
definition OpEnsureDefaultProxy :: string where "OpEnsureDefaultProxy = ''ensure-default-proxy''"
definition OpRemoveDefaultProxy :: string where "OpRemoveDefaultProxy = ''remove-default-proxy''"

lemmas op_defs = OpEnsure_def OpRemove_def OpEnsurePeer_def OpRemovePeer_def OpEnsureDefaultProxy_def OpRemoveDefaultProxy_def

record Command =
  cm_TenantID :: string
  cm_Op :: string
  cm_OpID :: string
  cm_Remote :: RemoteTenantInfra

datatype disp_error = DispNM nm_error | UnknownOp string

record DispEvent =
  ev_TenantID :: string
  ev_Op :: string
  ev_OpID :: string
  ev_err :: "disp_error option"

record Dispatcher =
  dq_inbox :: "Command list"
  dq_inboxCap :: nat
  dq_sink :: "DispEvent list"
  dq_sinkCap :: nat

text \<open>The two interfaces of the network manager that the dispatcher holds, \<open>TenantOps\<close> and \<open>NodestoreOps\<close>.\<close>

record 's tenant_ops =
  to_EnsureTenant :: "string \<Rightarrow> ('s, nm_error, unit) prog"
  to_RemoveTenant :: "string \<Rightarrow> ('s, nm_error, unit) prog"
  to_EnsureDefaultTenantProxy :: "string \<Rightarrow> RemoteTenantInfra \<Rightarrow> ('s, nm_error, unit) prog"
  to_RemoveDefaultTenantProxy :: "string \<Rightarrow> RemoteTenantInfra \<Rightarrow> ('s, nm_error, unit) prog"
  to_EnsurePeer :: "string \<Rightarrow> RemoteTenantInfra \<Rightarrow> ('s, nm_error, unit) prog"
  to_RemovePeer :: "string \<Rightarrow> RemoteTenantInfra \<Rightarrow> ('s, nm_error, unit) prog"

subsection \<open>dispatcher.go\<close>

definition WithInboxSize :: "int \<Rightarrow> Dispatcher \<Rightarrow> Dispatcher" where
  "WithInboxSize n D = (if n > 0 then D\<lparr>dq_inbox := [], dq_inboxCap := nat n\<rparr> else D)"

definition WithSinkSize :: "int \<Rightarrow> Dispatcher \<Rightarrow> Dispatcher" where
  "WithSinkSize n D = (if n > 0 then D\<lparr>dq_sink := [], dq_sinkCap := nat n\<rparr> else D)"

text \<open>No option of the package sets a channel to nil, so the check after the options never fires.\<close>

definition NewDispatcher :: "(Dispatcher \<Rightarrow> Dispatcher) list \<Rightarrow> Dispatcher" where
  "NewDispatcher opts = fold (\<lambda>f D. f D) opts \<lparr>dq_inbox = [], dq_inboxCap = 128, dq_sink = [], dq_sinkCap = 128\<rparr>"

text \<open>\<open>None\<close> is a sender that waits for room.\<close>

definition Enqueue :: "Command \<Rightarrow> Dispatcher \<Rightarrow> Dispatcher option" where
  "Enqueue cmd D = (if length (dq_inbox D) < dq_inboxCap D then Some (D\<lparr>dq_inbox := dq_inbox D @ [cmd]\<rparr>) else None)"

text \<open>\<open>ctxDone\<close> says that the select took the branch of the finished context.\<close>

definition EnqeueueCtx :: "bool \<Rightarrow> Command \<Rightarrow> Dispatcher \<Rightarrow> ((nm_error + unit) \<times> Dispatcher) option" where
  "EnqeueueCtx ctxDone cmd D =
     (if ctxDone then Some (Inl CtxDone, D) else map_option (\<lambda>D'. (Inr (), D')) (Enqueue cmd D))"

definition dispatch :: "'s tenant_ops \<Rightarrow> Command \<Rightarrow> 's \<Rightarrow> disp_error option \<times> 's" where
  "dispatch ops cmd s =
     (let wrap = (\<lambda>(r, s'). ((case r of Inl e \<Rightarrow> Some (DispNM e) | Inr _ \<Rightarrow> None), s')) in
      if cm_Op cmd = OpEnsure then wrap (to_EnsureTenant ops (cm_TenantID cmd) s)
      else if cm_Op cmd = OpRemove then wrap (to_RemoveTenant ops (cm_TenantID cmd) s)
      else if cm_Op cmd = OpEnsureDefaultProxy then wrap (to_EnsureDefaultTenantProxy ops (cm_TenantID cmd) (cm_Remote cmd) s)
      else if cm_Op cmd = OpRemoveDefaultProxy then wrap (to_RemoveDefaultTenantProxy ops (cm_TenantID cmd) (cm_Remote cmd) s)
      else if cm_Op cmd = OpEnsurePeer then wrap (to_EnsurePeer ops (cm_TenantID cmd) (cm_Remote cmd) s)
      else if cm_Op cmd = OpRemovePeer then wrap (to_RemovePeer ops (cm_TenantID cmd) (cm_Remote cmd) s)
      else (Some (UnknownOp (cm_Op cmd)), s))"

text \<open>
  One round of the loop of \<open>Run\<close>; \<open>None\<close> is the loop waiting for a command. The event is dropped when the sink is full.
\<close>

definition Run_round :: "'s tenant_ops \<Rightarrow> Dispatcher \<Rightarrow> 's \<Rightarrow> (Command \<times> disp_error option \<times> Dispatcher \<times> 's) option" where
  "Run_round ops D s =
     (case dq_inbox D of
        [] \<Rightarrow> None
      | cmd # rest \<Rightarrow>
          (case dispatch ops cmd s of (err, s') \<Rightarrow>
             let ev = \<lparr>ev_TenantID = cm_TenantID cmd, ev_Op = cm_Op cmd, ev_OpID = cm_OpID cmd, ev_err = err\<rparr>
             in Some (cmd, err,
                  D\<lparr>dq_inbox := rest,
                    dq_sink := (if length (dq_sink D) < dq_sinkCap D then dq_sink D @ [ev] else dq_sink D)\<rparr>, s')))"

text \<open>A receive on the channel that \<open>Events\<close> returns.\<close>

definition recv_event :: "Dispatcher \<Rightarrow> (DispEvent \<times> Dispatcher) option" where
  "recv_event D = (case dq_sink D of [] \<Rightarrow> None | e # es \<Rightarrow> Some (e, D\<lparr>dq_sink := es\<rparr>))"

subsection \<open>daemon/dispatcher.go\<close>

text \<open>
  The adapter: what each method hands to \<open>Enqueue\<close>, nothing when the dispatcher is nil (\<open>\<not> d\<close>) or the tenant is empty.
\<close>

definition mk_command :: "bool \<Rightarrow> string \<Rightarrow> string \<Rightarrow> RemoteTenantInfra \<Rightarrow> Command option" where
  "mk_command d tid opn remote =
     (if \<not> d \<or> tid = [] then None
      else Some \<lparr>cm_TenantID = tid, cm_Op = opn, cm_OpID = [], cm_Remote = remote\<rparr>)"

definition dp_EnsureTenant :: "bool \<Rightarrow> string \<Rightarrow> string \<Rightarrow> Command option" where
  "dp_EnsureTenant d namespace name = mk_command d name OpEnsure zero_remote"

definition dp_RemoveTenant :: "bool \<Rightarrow> string \<Rightarrow> string \<Rightarrow> Command option" where
  "dp_RemoveTenant d namespace name = mk_command d name OpRemove zero_remote"

definition dp_EnsurePeer :: "bool \<Rightarrow> RemoteTenantInfra \<Rightarrow> string \<Rightarrow> Command option" where
  "dp_EnsurePeer d remote tid = mk_command d tid OpEnsurePeer remote"

definition dp_RemovePeer :: "bool \<Rightarrow> RemoteTenantInfra \<Rightarrow> string \<Rightarrow> Command option" where
  "dp_RemovePeer d remote tid = mk_command d tid OpRemovePeer remote"

definition dp_EnsureDefaultProxy :: "bool \<Rightarrow> string \<Rightarrow> RemoteTenantInfra \<Rightarrow> Command option" where
  "dp_EnsureDefaultProxy d tid remote = mk_command d tid OpEnsureDefaultProxy remote"

definition dp_RemoveDefaultProxy :: "bool \<Rightarrow> string \<Rightarrow> RemoteTenantInfra \<Rightarrow> Command option" where
  "dp_RemoveDefaultProxy d tid remote = mk_command d tid OpRemoveDefaultProxy remote"

subsection \<open>Runs\<close>

text \<open>
  The interleavings of the goroutines around the dispatcher: senders, the loop, the reader of the events, and everything else that
  works on the network manager (\<open>env\<close>). A run records the commands that were accepted and those that were executed with
  their outcome, both in order.
\<close>

inductive disp_run ::
  "'s tenant_ops \<Rightarrow> ('s \<Rightarrow> 's \<Rightarrow> bool) \<Rightarrow> Dispatcher \<times> 's \<Rightarrow> Command list \<Rightarrow>
   (Command \<times> disp_error option) list \<Rightarrow> Dispatcher \<times> 's \<Rightarrow> bool" for ops env st where
  run_start: "disp_run ops env st [] [] st"
| run_send: "disp_run ops env st sent dn (D, s) \<Longrightarrow> Enqueue c D = Some D' \<Longrightarrow> disp_run ops env st (sent @ [c]) dn (D', s)"
| run_exec: "disp_run ops env st sent dn (D, s) \<Longrightarrow> Run_round ops D s = Some (c, err, D', s') \<Longrightarrow>
    disp_run ops env st sent (dn @ [(c, err)]) (D', s')"
| run_read: "disp_run ops env st sent dn (D, s) \<Longrightarrow> recv_event D = Some (e, D') \<Longrightarrow> disp_run ops env st sent dn (D', s)"
| run_env: "disp_run ops env st sent dn (D, s) \<Longrightarrow> env s s' \<Longrightarrow> disp_run ops env st sent dn (D, s')"

text \<open>
  The abstract service is a set of tenants: a successful ensure adds its tenant, a successful remove takes it away, and
  nothing else changes the set. So the last successful tenant command decides.
\<close>

definition spec_step :: "Command \<times> disp_error option \<Rightarrow> string set \<Rightarrow> string set" where
  "spec_step ce T =
     (if snd ce \<noteq> None then T
      else if cm_Op (fst ce) = OpEnsure then insert (cm_TenantID (fst ce)) T
      else if cm_Op (fst ce) = OpRemove then T - {cm_TenantID (fst ce)}
      else T)"

definition decides :: "string \<Rightarrow> Command \<times> disp_error option \<Rightarrow> bool" where
  "decides t ce \<longleftrightarrow> snd ce = None \<and> cm_TenantID (fst ce) = t \<and> (cm_Op (fst ce) = OpEnsure \<or> cm_Op (fst ce) = OpRemove)"

definition wanted :: "string \<Rightarrow> bool \<Rightarrow> (Command \<times> disp_error option) list \<Rightarrow> bool" where
  "wanted t before dn =
     (let xs = filter (decides t) dn in if xs = [] then before else cm_Op (fst (last xs)) = OpEnsure)"

lemma wanted_Nil [simp]: "wanted t b [] = b"
  by (simp add: wanted_def)

lemma wanted_snoc:
  "wanted t b (dn @ [ce]) = (if decides t ce then cm_Op (fst ce) = OpEnsure else wanted t b dn)"
  by (simp add: wanted_def)

lemma fold_spec_wanted: "t \<in> fold spec_step dn T \<longleftrightarrow> wanted t (t \<in> T) dn"
proof (induction dn rule: rev_induct)
  case (snoc ce dn)
  then show ?case by (auto simp: wanted_snoc spec_step_def decides_def op_defs)
qed simp

subsection \<open>The contract of the network manager and the runs over it\<close>

locale tenant_service =
  fixes ops :: "'s tenant_ops" and env :: "'s \<Rightarrow> 's \<Rightarrow> bool" and inv :: "'s \<Rightarrow> bool" and tenants :: "'s \<Rightarrow> string set"
  assumes ensure_inv: "inv s \<Longrightarrow> inv (snd (to_EnsureTenant ops t s))"
    and ensure_ok: "inv s \<Longrightarrow> to_EnsureTenant ops t s = (Inr u, s') \<Longrightarrow> tenants s' = insert t (tenants s)"
    and ensure_err: "inv s \<Longrightarrow> to_EnsureTenant ops t s = (Inl e, s') \<Longrightarrow> tenants s' = tenants s"
    and remove_inv: "inv s \<Longrightarrow> inv (snd (to_RemoveTenant ops t s))"
    and remove_ok: "inv s \<Longrightarrow> to_RemoveTenant ops t s = (Inr u, s') \<Longrightarrow> tenants s' = tenants s - {t}"
    and remove_err: "inv s \<Longrightarrow> to_RemoveTenant ops t s = (Inl e, s') \<Longrightarrow> tenants s' = tenants s"
    and proxy_inv: "inv s \<Longrightarrow> inv (snd (to_EnsureDefaultTenantProxy ops t re s)) \<and> inv (snd (to_RemoveDefaultTenantProxy ops t re s))"
    and proxy_tenants: "inv s \<Longrightarrow> tenants (snd (to_EnsureDefaultTenantProxy ops t re s)) = tenants s \<and>
      tenants (snd (to_RemoveDefaultTenantProxy ops t re s)) = tenants s"
    and peer_inv: "inv s \<Longrightarrow> inv (snd (to_EnsurePeer ops t re s)) \<and> inv (snd (to_RemovePeer ops t re s))"
    and peer_tenants: "inv s \<Longrightarrow> tenants (snd (to_EnsurePeer ops t re s)) = tenants s \<and> tenants (snd (to_RemovePeer ops t re s)) = tenants s"
    and env_ok: "inv s \<Longrightarrow> env s s' \<Longrightarrow> inv s' \<and> tenants s' = tenants s"
begin

lemma dispatch_inv: "inv s \<Longrightarrow> inv (snd (dispatch ops c s))"
  using ensure_inv remove_inv proxy_inv peer_inv by (simp add: dispatch_def Let_def case_prod_beta)

lemma dispatch_spec:
  assumes "inv s" "dispatch ops c s = (err, s')"
  shows "tenants s' = spec_step (c, err) (tenants s)"
proof -
  let ?t = "cm_TenantID c"
  consider "cm_Op c = OpEnsure" | "cm_Op c = OpRemove" | "cm_Op c \<noteq> OpEnsure" "cm_Op c \<noteq> OpRemove" by blast
  then show ?thesis
  proof cases
    case 1
    obtain r s1 where r: "to_EnsureTenant ops ?t s = (r, s1)" by fastforce
    then show ?thesis using 1 assms ensure_ok [OF assms(1), of ?t] ensure_err [OF assms(1), of ?t]
      by (cases r) (auto simp: dispatch_def spec_step_def)
  next
    case 2
    obtain r s1 where r: "to_RemoveTenant ops ?t s = (r, s1)" by fastforce
    then show ?thesis using 2 assms remove_ok [OF assms(1), of ?t] remove_err [OF assms(1), of ?t]
      by (cases r) (auto simp: dispatch_def spec_step_def op_defs)
  next
    case 3
    have "s' = snd (dispatch ops c s)" using assms(2) by simp
    then have "tenants s' = tenants s"
      using 3 proxy_tenants [OF assms(1)] peer_tenants [OF assms(1)] by (simp add: dispatch_def Let_def case_prod_beta)
    then show ?thesis using 3 by (simp add: spec_step_def)
  qed
qed

lemma round_cases:
  assumes "Run_round ops D s = Some (c, err, D', s')"
  shows "dq_inbox D = c # dq_inbox D'" "dq_inboxCap D' = dq_inboxCap D" "dq_sinkCap D' = dq_sinkCap D"
    "length (dq_sink D') \<le> max (length (dq_sink D)) (dq_sinkCap D)" "dispatch ops c s = (err, s')"
  using assms by (auto simp: Run_round_def Let_def split: list.splits prod.splits)

lemma run_refines:
  assumes "disp_run ops env st0 sent dn st" "inv (snd st0)" "dq_inbox (fst st0) = []" "dq_sink (fst st0) = []"
  shows "sent = map fst dn @ dq_inbox (fst st) \<and> dq_inboxCap (fst st) = dq_inboxCap (fst st0) \<and>
    dq_sinkCap (fst st) = dq_sinkCap (fst st0) \<and> length (dq_inbox (fst st)) \<le> dq_inboxCap (fst st0) \<and>
    length (dq_sink (fst st)) \<le> dq_sinkCap (fst st0) \<and> inv (snd st) \<and> tenants (snd st) = fold spec_step dn (tenants (snd st0))"
  using assms(1)
proof (induction rule: disp_run.induct)
  case run_start
  then show ?case using assms(2-4) by simp
next
  case (run_send sent dn D s c D')
  then show ?case by (auto simp: Enqueue_def split: if_splits)
next
  case (run_exec sent dn D s c err D' s')
  note r = round_cases [OF run_exec(2)]
  have i: "inv s" using run_exec.IH by simp
  have "inv s'" using dispatch_inv [OF i, of c] r(5) by simp
  moreover have "tenants s' = spec_step (c, err) (tenants s)" using dispatch_spec [OF i r(5)] .
  ultimately show ?case using run_exec.IH r by simp
next
  case (run_read sent dn D s e D')
  then show ?case by (auto simp: recv_event_def split: list.splits)
next
  case (run_env sent dn D s s')
  have "inv s' \<and> tenants s' = tenants s" using env_ok [OF _ run_env(2)] run_env.IH by simp
  then show ?case using run_env.IH by simp
qed

text \<open>The loop drains its channel: with no more senders it executes what is waiting and nothing else.\<close>

lemma drain:
  "\<exists>D' s' dn'. disp_run ops env (D, s) [] dn' (D', s') \<and> dq_inbox D' = [] \<and> map fst dn' = dq_inbox D"
proof -
  have "\<exists>D' s' dn'. disp_run ops env st [] (dn @ dn') (D', s') \<and> dq_inbox D' = [] \<and> map fst dn' = dq_inbox D"
    if "disp_run ops env st [] dn (D, s)" for st dn D s
    using that
  proof (induction "dq_inbox D" arbitrary: D s dn)
    case Nil
    then show ?case by (metis append_Nil2 list.map(1))
  next
    case (Cons c rest)
    obtain err s1 where d: "dispatch ops c s = (err, s1)" by fastforce
    obtain D1 where r: "Run_round ops D s = Some (c, err, D1, s1)" "dq_inbox D1 = rest"
      using Cons(2) [symmetric] d by (simp add: Run_round_def Let_def)
    have "disp_run ops env st [] (dn @ [(c, err)]) (D1, s1)" using run_exec [OF Cons.prems r(1)] .
    from Cons.hyps(1) [OF r(2) [symmetric] this] obtain D' s' dn' where
      "disp_run ops env st [] ((dn @ [(c, err)]) @ dn') (D', s')" "dq_inbox D' = []" "map fst dn' = dq_inbox D1" by blast
    then show ?case using r(2) Cons(2)
      by (intro exI [of _ D'] exI [of _ s'] exI [of _ "(c, err) # dn'"]) simp
  qed
  from this [OF run_start] show ?thesis by simp
qed

end

subsection \<open>The network manager keeps the contract\<close>

definition nm_ops :: "'k deps \<Rightarrow> 'k nm tenant_ops" where
  "nm_ops d = \<lparr>to_EnsureTenant = EnsureTenant d, to_RemoveTenant = RemoveTenant d,
     to_EnsureDefaultTenantProxy = EnsureDefaultTenantProxy, to_RemoveDefaultTenantProxy = RemoveDefaultTenantProxy,
     to_EnsurePeer = EnsurePeer d, to_RemovePeer = RemovePeer d\<rparr>"

text \<open>What runs beside the dispatcher: the tenant actors, the operator that sets its emitter, and the kernel.\<close>

inductive nm_env :: "'k deps \<Rightarrow> 'k nm \<Rightarrow> 'k nm \<Rightarrow> bool" for d where
  env_message: "nm_env d s (snd (actor_handle d tid m s))"
| env_SetEmitter: "nm_env d s (SetEmitter q s)"
| env_kernel: "nm_env d s (s\<lparr>nm_k := k\<rparr>)"

lemma drop_subnet_records [simp]: "nm_TenantRecords (drop_subnet tid s) = nm_TenantRecords s"
  by (simp add: drop_subnet_def split: sum.splits)

lemma EnsureTenant_tenants:
  assumes "nm_inv rt s" "EnsureTenant d t s = (r, s')"
  shows "dom (nm_TenantRecords s') = (if r = Inr () then insert t (dom (nm_TenantRecords s)) else dom (nm_TenantRecords s))"
proof (cases "t = [] \<or> nm_TenantRecords s t \<noteq> None")
  case True
  then show ?thesis using assms(2) by (auto simp: EnsureTenant_def split: if_splits)
next
  case False
  then have c: "EnsureTenant_create d t s = (r, s')" using assms(2) by (simp add: EnsureTenant_def)
  show ?thesis
  proof (cases rule: EnsureTenant_create_cases [OF nm_invD(1) [OF assms(1)] c])
    case (2 e net s3)
    then show ?thesis by (simp add: midway_def)
  next
    case (4 net be ipm s3)
    then show ?thesis by simp
  qed (use False in auto)
qed

lemma RemoveTenant_tenants:
  assumes "RemoveTenant d t s = (r, s')"
  shows "dom (nm_TenantRecords s') = (if r = Inr () then dom (nm_TenantRecords s) - {t} else dom (nm_TenantRecords s))"
proof (cases "t = [] \<or> nm_TenantRecords s t = None")
  case True
  then show ?thesis using assms by (auto simp: RemoveTenant_def split: if_splits)
next
  case False
  then obtain rr where rr: "nm_TenantRecords s t = Some rr" "t \<noteq> []" by auto
  obtain k2 X where "r = Inr ()"
    "s' = emitNodeStoreEvent EventDelete ((drop_subnet t X)\<lparr>nm_k := k2, nm_TenantActors := nm_TenantActors s - {t},
       nm_TenantRecords := (nm_TenantRecords s)(t := None)\<rparr>)"
    using RemoveTenant_eq [OF rr(2,1) assms] by metis
  then show ?thesis by simp
qed

interpretation nms: tenant_service "nm_ops d" "nm_env d" "\<lambda>s. nm_inv rt s \<and> quiet s" "\<lambda>s. dom (nm_TenantRecords s)"
  for d :: "'k deps" and rt
proof unfold_locales
  fix s :: "'k nm" and t re u e s'
  assume i: "nm_inv rt s \<and> quiet s"
  show "nm_inv rt (snd (to_EnsureTenant (nm_ops d) t s)) \<and> quiet (snd (to_EnsureTenant (nm_ops d) t s))"
    using i EnsureTenant_inv [of rt s d t] by (simp add: nm_ops_def)
  show "dom (nm_TenantRecords s') = insert t (dom (nm_TenantRecords s))" if "to_EnsureTenant (nm_ops d) t s = (Inr u, s')"
    using that EnsureTenant_tenants [of rt s d t "Inr u" s'] i by (simp add: nm_ops_def)
  show "dom (nm_TenantRecords s') = dom (nm_TenantRecords s)" if "to_EnsureTenant (nm_ops d) t s = (Inl e, s')"
    using that EnsureTenant_tenants [of rt s d t "Inl e" s'] i by (simp add: nm_ops_def)
  show "nm_inv rt (snd (to_RemoveTenant (nm_ops d) t s)) \<and> quiet (snd (to_RemoveTenant (nm_ops d) t s))"
    using i RemoveTenant_inv [of rt s d t] by (simp add: nm_ops_def)
  show "dom (nm_TenantRecords s') = dom (nm_TenantRecords s) - {t}" if "to_RemoveTenant (nm_ops d) t s = (Inr u, s')"
    using that RemoveTenant_tenants [of d t s "Inr u" s'] by (simp add: nm_ops_def)
  show "dom (nm_TenantRecords s') = dom (nm_TenantRecords s)" if "to_RemoveTenant (nm_ops d) t s = (Inl e, s')"
    using that RemoveTenant_tenants [of d t s "Inl e" s'] by (simp add: nm_ops_def)
  have p: "snd (EnsureDefaultTenantProxy t re s) = s" "snd (RemoveDefaultTenantProxy t re s) = s"
    by (simp_all add: EnsureDefaultTenantProxy_def RemoveDefaultTenantProxy_def split: option.splits)
  show "(nm_inv rt (snd (to_EnsureDefaultTenantProxy (nm_ops d) t re s)) \<and> quiet (snd (to_EnsureDefaultTenantProxy (nm_ops d) t re s))) \<and>
      nm_inv rt (snd (to_RemoveDefaultTenantProxy (nm_ops d) t re s)) \<and> quiet (snd (to_RemoveDefaultTenantProxy (nm_ops d) t re s))"
    "dom (nm_TenantRecords (snd (to_EnsureDefaultTenantProxy (nm_ops d) t re s))) = dom (nm_TenantRecords s) \<and>
      dom (nm_TenantRecords (snd (to_RemoveDefaultTenantProxy (nm_ops d) t re s))) = dom (nm_TenantRecords s)"
    using i p by (simp_all add: nm_ops_def)
  show "(nm_inv rt (snd (to_EnsurePeer (nm_ops d) t re s)) \<and> quiet (snd (to_EnsurePeer (nm_ops d) t re s))) \<and>
      nm_inv rt (snd (to_RemovePeer (nm_ops d) t re s)) \<and> quiet (snd (to_RemovePeer (nm_ops d) t re s))"
    "dom (nm_TenantRecords (snd (to_EnsurePeer (nm_ops d) t re s))) = dom (nm_TenantRecords s) \<and>
      dom (nm_TenantRecords (snd (to_RemovePeer (nm_ops d) t re s))) = dom (nm_TenantRecords s)"
    using i EnsurePeer_keeps [of s d t re] RemovePeer_keeps [of s d t re] by (simp_all add: nm_ops_def keeps_def)
  show "(nm_inv rt s' \<and> quiet s') \<and> dom (nm_TenantRecords s') = dom (nm_TenantRecords s)" if "nm_env d s s'"
    using that i
  proof (induction rule: nm_env.induct)
    case (env_message s tid m)
    then show ?case using actor_handle_inv actor_handle_dom by blast
  qed (simp_all add: SetEmitter_def nm_inv_def quiet_def)
qed

lemma NewDispatcher_empty:
  "set opts \<subseteq> range WithInboxSize \<union> range WithSinkSize \<Longrightarrow> dq_inbox (NewDispatcher opts) = [] \<and> dq_sink (NewDispatcher opts) = []"
proof -
  have "set opts \<subseteq> range WithInboxSize \<union> range WithSinkSize \<Longrightarrow> dq_inbox D = [] \<and> dq_sink D = [] \<Longrightarrow>
    dq_inbox (fold (\<lambda>f D. f D) opts D) = [] \<and> dq_sink (fold (\<lambda>f D. f D) opts D) = []" for D
    by (induction opts arbitrary: D) (auto simp: WithInboxSize_def WithSinkSize_def)
  then show "set opts \<subseteq> range WithInboxSize \<union> range WithSinkSize \<Longrightarrow> ?thesis" by (simp add: NewDispatcher_def)
qed

text \<open>
  C8. The dispatcher refines a set of tenants: in every interleaving of senders, the loop, the reader of the events, the tenant
  actors and the kernel, the commands are executed in the order in which they were accepted, none twice and none lost, at most
  as many as the channel holds are waiting, and a tenant has a record exactly when its last successful tenant command
  was an ensure, or it had one at the start and there was no such command.
\<close>

theorem dispatcher_refines_tenant_set:
  assumes "nm_reach d root s0" "net_pfx root rb" "set opts \<subseteq> range WithInboxSize \<union> range WithSinkSize"
    and "disp_run (nm_ops d) (nm_env d) (NewDispatcher opts, s0) sent dn (D, s)"
  shows "sent = map fst dn @ dq_inbox D \<and> length (dq_inbox D) \<le> dq_inboxCap (NewDispatcher opts) \<and>
    length (dq_sink D) \<le> dq_sinkCap (NewDispatcher opts) \<and> nm_inv root s \<and>
    (\<forall>t. nm_TenantRecords s t \<noteq> None \<longleftrightarrow> wanted t (nm_TenantRecords s0 t \<noteq> None) dn)"
proof -
  have i: "nm_inv root s0 \<and> quiet s0" using nm_reach_inv [OF assms(1,2)] .
  have r: "sent = map fst dn @ dq_inbox D" "length (dq_inbox D) \<le> dq_inboxCap (NewDispatcher opts)"
    "length (dq_sink D) \<le> dq_sinkCap (NewDispatcher opts)" "nm_inv root s"
    and t: "dom (nm_TenantRecords s) = fold spec_step dn (dom (nm_TenantRecords s0))"
    using nms.run_refines [OF assms(4), of root] i NewDispatcher_empty [OF assms(3)] by simp_all
  have "nm_TenantRecords s t \<noteq> None \<longleftrightarrow> wanted t (nm_TenantRecords s0 t \<noteq> None) dn" for t
    using fold_spec_wanted [of t dn "dom (nm_TenantRecords s0)"] unfolding t [symmetric] domIff .
  then show ?thesis using r by simp
qed

theorem dispatcher_refines_tenant_set_witness:
  "\<exists>D s. disp_run (nm_ops demo_deps) (nm_env demo_deps) (NewDispatcher [WithInboxSize 2], demo_nm)
      [the (dp_EnsureTenant True [] ''blue'')] [(the (dp_EnsureTenant True [] ''blue''), None)] (D, s) \<and>
     dq_inbox D = [] \<and> nm_TenantRecords s ''blue'' \<noteq> None \<and> nm_TenantRecords s ''red'' = None"
proof -
  let ?c = "the (dp_EnsureTenant True [] ''blue'')" and ?D0 = "NewDispatcher [WithInboxSize 2]"
  have c: "cm_Op ?c = OpEnsure" "cm_TenantID ?c = ''blue''" by (simp_all add: dp_EnsureTenant_def mk_command_def)
  obtain s where e: "EnsureTenant demo_deps ''blue'' demo_nm = (Inr (), s)" using demo_nm2(4) by (metis prod.collapse)
  have D: "Enqueue ?c ?D0 = Some (?D0\<lparr>dq_inbox := [?c]\<rparr>)"
    by (simp add: Enqueue_def NewDispatcher_def WithInboxSize_def)
  have dc: "dispatch (nm_ops demo_deps) ?c demo_nm = (None, s)"
    unfolding dispatch_def c by (simp only: nm_ops_def tenant_ops.simps e Let_def prod.case sum.case if_True simp_thms)
  obtain D' where r: "Run_round (nm_ops demo_deps) (?D0\<lparr>dq_inbox := [?c]\<rparr>) demo_nm = Some (?c, None, D', s)" "dq_inbox D' = []"
    using dc by (simp add: Run_round_def)
  have run: "disp_run (nm_ops demo_deps) (nm_env demo_deps) (?D0, demo_nm) [?c] [(?c, None)] (D', s)"
    using run_exec [OF run_send [OF run_start D] r(1)] by simp
  have o: "set [WithInboxSize 2] \<subseteq> range WithInboxSize \<union> range WithSinkSize" by auto
  note th = dispatcher_refines_tenant_set [OF demo_nm_start(1) demo_pfx o run]
  have w: "wanted ''blue'' False [(?c, None)]" "\<not> wanted ''red'' False [(?c, None)]"
    by (simp_all add: wanted_def decides_def c)
  have "nm_TenantRecords s t \<noteq> None \<longleftrightarrow> wanted t False [(?c, None)]" for t
    using th [THEN conjunct2, THEN conjunct2, THEN conjunct2, THEN conjunct2, rule_format, of t] unfolding demo_nm_start(3) by simp
  then have "nm_TenantRecords s ''blue'' \<noteq> None" "nm_TenantRecords s ''red'' = None" using w by blast+
  then show ?thesis using run r(2) by blast
qed

end
