(* ===== verification/Api_Types.thy ===== *)
theory Api_Types
  imports Prelude
begin

text \<open>
  The custom resources of the cluster, \<open>pkg/api/setera.com/v1\<close>: tenants and node stores, with the parts of
  the object metadata that the program reads. The conditions of a tenant are never read and are left out. A Go map is an
  association list without duplicate keys whose order is the order in which \<open>range\<close> visits it.
\<close>

record GroupVersionKind =
  gvk_Group :: string
  gvk_Version :: string
  gvk_Kind :: string

record ObjectMeta =
  om_Name :: string
  om_Namespace :: string
  om_ResourceVersion :: string
  om_Generation :: int
  om_Labels :: "(string \<times> string) list"
  om_Annotations :: "(string \<times> string) list"
  om_Finalizers :: "string list"

record NodeInfo =
  ni_Name :: string
  ni_NodeIP :: string
  ni_TenantCIDR :: string
  ni_VtepIP :: string
  ni_VtepMAC :: string

record Tenant =
  tn_Type :: GroupVersionKind
  tn_Meta :: ObjectMeta
  tn_Name :: string
  tn_Zones :: int
  tn_AssignedNodes :: "NodeInfo list"
  tn_Paused :: bool
  tn_Awaiting :: "string list"

record Pod_Info =
  pi_Name :: string
  pi_IP :: string

record TenantInfra =
  ti_Name :: string
  ti_TenantCIDR :: string
  ti_VTEP_NAME :: string
  ti_VNI :: int
  ti_VTEP_IP :: string
  ti_VTEP_MAC :: string
  ti_BRIDGE_NAME :: string
  ti_BRIDGE_IP :: string
  ti_BRIDGE_MAC :: string
  ti_Pods :: "Pod_Info list"

record NodeStore =
  st_Type :: GroupVersionKind
  st_Meta :: ObjectMeta
  st_Name :: string
  st_NodeIP :: string
  st_Selectors :: "(string \<times> string) list"
  st_Tenants :: "(string \<times> TenantInfra) list"

end
