(* ===== verification/Operator_Base.thy ===== *)
theory Operator_Base
  imports Operator_Types Api_Types
begin

text \<open>
  The operator framework, \<open>pkg/operator\<close>: objects as the informers deliver them, the references and work items made from them,
  the router that selects a reconcile function by source and event, and the predicates on updates. Handlers are the lists of the work
  items they hand to \<open>queue.Add\<close>.
\<close>

subsection \<open>base.go and util.go: objects and references\<close>

text \<open>What an informer may deliver: one of the two resources, a tombstone around the last known object, or anything else.\<close>

datatype kobj = ObjTenant Tenant | ObjNodeStore NodeStore | Tombstone kobj | ObjOther string

definition metaObjectFrom :: "kobj \<Rightarrow> ObjectMeta option" where
  "metaObjectFrom obj =
     (case obj of
        ObjTenant t \<Rightarrow> Some (tn_Meta t)
      | ObjNodeStore n \<Rightarrow> Some (st_Meta n)
      | Tombstone x \<Rightarrow> (case x of ObjTenant t \<Rightarrow> Some (tn_Meta t) | ObjNodeStore n \<Rightarrow> Some (st_Meta n) | _ \<Rightarrow> None)
      | ObjOther _ \<Rightarrow> None)"

text \<open>The kind an object carries itself, and the name of its Go type.\<close>

definition obj_gvk :: "kobj \<Rightarrow> GroupVersionKind option" where
  "obj_gvk obj = (case obj of ObjTenant t \<Rightarrow> Some (tn_Type t) | ObjNodeStore n \<Rightarrow> Some (st_Type n) | _ \<Rightarrow> None)"

definition type_name :: "kobj \<Rightarrow> string" where
  "type_name obj = (case obj of ObjTenant _ \<Rightarrow> ''Tenant'' | ObjNodeStore _ \<Rightarrow> ''NodeStore''
     | Tombstone _ \<Rightarrow> ''DeletedFinalStateUnknown'' | ObjOther n \<Rightarrow> n)"

definition DefaultResourceFunc :: "kobj \<Rightarrow> ResourceRef" where
  "DefaultResourceFunc obj =
     (let (name, ns) = (case metaObjectFrom obj of None \<Rightarrow> ([], []) | Some m \<Rightarrow> (om_Name m, om_Namespace m));
          fallback = \<lparr>rr_Group = [], rr_Version = [], rr_Kind = type_name obj, rr_Namespace = ns, rr_Name = name\<rparr>
      in case obj_gvk obj of
           None \<Rightarrow> fallback
         | Some g \<Rightarrow> if gvk_Kind g \<noteq> []
                    then \<lparr>rr_Group = gvk_Group g, rr_Version = gvk_Version g, rr_Kind = gvk_Kind g, rr_Namespace = ns, rr_Name = name\<rparr>
                    else fallback)"

definition EnqueueWith :: "string \<Rightarrow> string \<Rightarrow> ResourceRef \<Rightarrow> WorkItem list" where
  "EnqueueWith src ev res = [\<lparr>wi_Source = src, wi_Event = ev, wi_Resource = res\<rparr>]"

definition EnqueueObjectWith :: "string \<Rightarrow> string \<Rightarrow> kobj \<Rightarrow> WorkItem list" where
  "EnqueueObjectWith src ev obj =
     (let res = DefaultResourceFunc obj in if rr_Name res = [] then [] else EnqueueWith src ev res)"

primrec ContainsString :: "string list \<Rightarrow> string \<Rightarrow> bool" where
  "ContainsString [] item = False"
| "ContainsString (s # items) item = (if s = item then True else ContainsString items item)"

primrec find_index :: "nat \<Rightarrow> 'a list \<Rightarrow> 'a \<Rightarrow> nat option" where
  "find_index i [] val = None"
| "find_index i (v # items) val = (if v = val then Some i else find_index (i + 1) items val)"

definition RemoveIndex :: "'a list \<Rightarrow> 'a \<Rightarrow> 'a list" where
  "RemoveIndex items val =
     (case find_index 0 items val of None \<Rightarrow> items | Some idx \<Rightarrow> take idx items @ drop (idx + 1) items)"

definition IsFinalizerRvUpdate_tenant :: "Tenant \<Rightarrow> Tenant \<Rightarrow> bool" where
  "IsFinalizerRvUpdate_tenant old new =
     (let strip = (\<lambda>t. t\<lparr>tn_Meta := (tn_Meta t)\<lparr>om_Finalizers := [], om_ResourceVersion := []\<rparr>\<rparr>) in strip old = strip new)"

definition IsFinalizerRvUpdate_nodestore :: "NodeStore \<Rightarrow> NodeStore \<Rightarrow> bool" where
  "IsFinalizerRvUpdate_nodestore old new =
     (let strip = (\<lambda>n. n\<lparr>st_Meta := (st_Meta n)\<lparr>om_Finalizers := [], om_ResourceVersion := []\<rparr>\<rparr>) in strip old = strip new)"

subsection \<open>filters.go and handlers.go\<close>

text \<open>The three functions of an event handler.\<close>

record handler_funcs =
  AddFunc :: "kobj \<Rightarrow> WorkItem list"
  UpdateFunc :: "kobj \<Rightarrow> kobj \<Rightarrow> WorkItem list"
  DeleteFunc :: "kobj \<Rightarrow> WorkItem list"

definition default_handlers :: "string \<Rightarrow> string \<Rightarrow> string \<Rightarrow> string \<Rightarrow> handler_funcs" where
  "default_handlers src addEv updEv delEv =
     \<lparr>AddFunc = EnqueueObjectWith src addEv, UpdateFunc = (\<lambda>_ newObj. EnqueueObjectWith src updEv newObj),
      DeleteFunc = EnqueueObjectWith src delEv\<rparr>"

definition FilteredInformerHandlers ::
  "string \<Rightarrow> string \<Rightarrow> string \<Rightarrow> string \<Rightarrow> (kobj \<Rightarrow> bool) option \<Rightarrow> (kobj \<Rightarrow> kobj \<Rightarrow> bool) option \<Rightarrow>
   (kobj \<Rightarrow> bool) option \<Rightarrow> handler_funcs" where
  "FilteredInformerHandlers src addEv updEv delEv onAdd onUpdate onDelete =
     \<lparr>AddFunc = (\<lambda>obj. if (case onAdd of None \<Rightarrow> True | Some p \<Rightarrow> p obj) then EnqueueObjectWith src addEv obj else []),
      UpdateFunc = (\<lambda>oldObj newObj. if (case onUpdate of None \<Rightarrow> True | Some p \<Rightarrow> p oldObj newObj)
                                    then EnqueueObjectWith src updEv newObj else []),
      DeleteFunc = (\<lambda>obj. if (case onDelete of None \<Rightarrow> True | Some p \<Rightarrow> p obj) then EnqueueObjectWith src delEv obj else [])\<rparr>"

definition MakeResourceEventHandlerFuncs ::
  "string \<Rightarrow> string \<Rightarrow> string \<Rightarrow> string \<Rightarrow> (kobj \<Rightarrow> WorkItem list) option \<Rightarrow> (kobj \<Rightarrow> kobj \<Rightarrow> WorkItem list) option \<Rightarrow>
   (kobj \<Rightarrow> WorkItem list) option \<Rightarrow> handler_funcs" where
  "MakeResourceEventHandlerFuncs src addEv updEv delEv onAdd onUpdate onDelete =
     \<lparr>AddFunc = (\<lambda>obj. case onAdd of Some f \<Rightarrow> f obj | None \<Rightarrow> EnqueueObjectWith src addEv obj),
      UpdateFunc = (\<lambda>oldObj newObj. case onUpdate of Some f \<Rightarrow> f oldObj newObj | None \<Rightarrow> EnqueueObjectWith src updEv newObj),
      DeleteFunc = (\<lambda>obj. case onDelete of Some f \<Rightarrow> f obj | None \<Rightarrow> EnqueueObjectWith src delEv obj)\<rparr>"

text \<open>\<open>reflect.DeepEqual\<close> of two projected values is their equality.\<close>

definition UpdateFieldChanged :: "(kobj \<Rightarrow> 'a) \<Rightarrow> kobj \<Rightarrow> kobj \<Rightarrow> bool" where
  "UpdateFieldChanged field oldObj newObj \<longleftrightarrow> \<not> field oldObj = field newObj"

definition UpdateComparableChanged :: "(kobj \<Rightarrow> 'a) \<Rightarrow> kobj \<Rightarrow> kobj \<Rightarrow> bool" where
  "UpdateComparableChanged field oldObj newObj \<longleftrightarrow> field oldObj \<noteq> field newObj"

definition UpdateGenerationChanged :: "kobj \<Rightarrow> kobj \<Rightarrow> bool" where
  "UpdateGenerationChanged oldObj newObj =
     (case (metaObjectFrom oldObj, metaObjectFrom newObj) of
        (Some o1, Some o2) \<Rightarrow> om_Generation o1 \<noteq> om_Generation o2 | _ \<Rightarrow> False)"

text \<open>Reading a missing key of a Go map of strings gives the empty string.\<close>

definition get_str :: "(string \<times> string) list \<Rightarrow> string \<Rightarrow> string" where
  "get_str m k = (case map_of m k of None \<Rightarrow> [] | Some v \<Rightarrow> v)"

definition UpdateLabelChanged :: "string \<Rightarrow> kobj \<Rightarrow> kobj \<Rightarrow> bool" where
  "UpdateLabelChanged key oldObj newObj =
     (case (metaObjectFrom oldObj, metaObjectFrom newObj) of
        (Some o1, Some o2) \<Rightarrow> get_str (om_Labels o1) key \<noteq> get_str (om_Labels o2) key | _ \<Rightarrow> False)"

definition UpdateAnnotationChanged :: "string \<Rightarrow> kobj \<Rightarrow> kobj \<Rightarrow> bool" where
  "UpdateAnnotationChanged key oldObj newObj =
     (case (metaObjectFrom oldObj, metaObjectFrom newObj) of
        (Some o1, Some o2) \<Rightarrow> get_str (om_Annotations o1) key \<noteq> get_str (om_Annotations o2) key | _ \<Rightarrow> False)"

subsection \<open>reconciler.go and funcmap.go\<close>

text \<open>
  A reconcile function is a program over the world of its operator; \<open>None\<close> in the table is a nil function.
\<close>

datatype 'e op_error = NoHandler string string | OpError 'e

type_synonym ('w, 'e) reconcile_func = "string \<Rightarrow> ResourceRef \<Rightarrow> 'w \<Rightarrow> 'e op_error option \<times> 'w"

record ('w, 'e) Router =
  ro_name :: string
  ro_table :: "(string \<times> (string \<times> ('w, 'e) reconcile_func) list) list"
  ro_def :: "('w, 'e) reconcile_func option"

definition NewRouter ::
  "string \<Rightarrow> (string \<times> (string \<times> ('w, 'e) reconcile_func option) list) list \<Rightarrow> ('w, 'e) reconcile_func option \<Rightarrow> ('w, 'e) Router" where
  "NewRouter name matrix deflt =
     \<lparr>ro_name = name,
      ro_table = filter (\<lambda>(s, rc). rc \<noteq> [])
        (map (\<lambda>(s, row). (s, List.map_filter (\<lambda>(e, fn). map_option (Pair e) fn) row)) matrix),
      ro_def = deflt\<rparr>"

definition ReconcileEvent :: "('w, 'e) Router \<Rightarrow> string \<Rightarrow> string \<Rightarrow> ResourceRef \<Rightarrow> 'w \<Rightarrow> 'e op_error option \<times> 'w" where
  "ReconcileEvent r src ev res w =
     (case (case map_of (ro_table r) src of None \<Rightarrow> None | Some row \<Rightarrow> map_of row ev) of
        Some h \<Rightarrow> h src res w
      | None \<Rightarrow> (case ro_def r of Some f \<Rightarrow> f src res w | None \<Rightarrow> (Some (NoHandler src ev), w)))"

definition FuncMap_ReconcileEvent ::
  "(string \<times> (string \<Rightarrow> 'w \<Rightarrow> 'e option \<times> 'w) option) list \<Rightarrow> (string \<Rightarrow> string \<Rightarrow> 'w \<Rightarrow> 'e option \<times> 'w) option \<Rightarrow>
   string \<Rightarrow> string \<Rightarrow> 'w \<Rightarrow> 'e option \<times> 'w" where
  "FuncMap_ReconcileEvent handlers deflt ev key w =
     (case map_of handlers ev of
        Some (Some h) \<Rightarrow> h key w
      | _ \<Rightarrow> (case deflt of Some f \<Rightarrow> f ev key w | None \<Rightarrow> (None, w)))"

definition Single_ReconcileEvent ::
  "string list \<Rightarrow> (string \<Rightarrow> 'w \<Rightarrow> 'e option \<times> 'w) \<Rightarrow> string \<Rightarrow> string \<Rightarrow> 'w \<Rightarrow> 'e option \<times> 'w" where
  "Single_ReconcileEvent allowed single ev key w =
     (if allowed \<noteq> [] \<and> ev \<notin> set allowed then (None, w) else single key w)"

subsection \<open>What the helpers do\<close>

lemma ContainsString_iff [simp]: "ContainsString xs x \<longleftrightarrow> x \<in> set xs"
  by (induction xs) auto

lemma find_index_shift: "find_index (Suc i) xs x = map_option Suc (find_index i xs x)"
  by (induction xs arbitrary: i) auto

lemma RemoveIndex_eq: "RemoveIndex xs x = remove1 x xs"
  by (induction xs) (auto simp: RemoveIndex_def find_index_shift [of 0, simplified] split: option.splits)

lemma ReconcileEvent_matrix:
  assumes "map_of matrix src = Some row" "map_of row ev = Some (Some h)" "distinct (map fst row)" "distinct (map fst matrix)"
  shows "ReconcileEvent (NewRouter n matrix deflt) src ev res w = h src res w"
proof -
  have r: "map_of (List.map_filter (\<lambda>(e, fn). map_option (Pair e) fn) row) ev = Some h"
    using assms(2,3) by (induction row) (auto simp: List.map_filter_def split: option.splits if_splits)
  then have ne: "List.map_filter (\<lambda>(e, fn). map_option (Pair e) fn) row \<noteq> []" by auto
  have "map_of (ro_table (NewRouter n matrix deflt)) src = Some (List.map_filter (\<lambda>(e, fn). map_option (Pair e) fn) row)"
    using assms(1,4) ne by (induction matrix) (auto simp: NewRouter_def split: if_splits)
  then show ?thesis using r by (simp add: ReconcileEvent_def)
qed

end
