(* ===== verification/Orchestrator.thy ===== *)
theory Orchestrator
  imports Operator_Base "HOL-Library.Char_ord" "HOL-Library.List_Lexorder"
begin

text \<open>
  The orchestrator, \<open>internal/orchestrator\<close>: the operator that decides on which nodes a tenant runs. The status of a
  tenant lists the nodes that are assigned and those that are still to be configured; the reconcile functions keep their
  number at the number of zones the tenant asks for. Listers, indexers and the client of the API server are a record of functions
  over the state of the cluster.
\<close>

subsection \<open>const.go and the cluster\<close>

definition SourceTenantCRD :: string where "SourceTenantCRD = ''k8s:tenant''"
definition SourceNodeStoreCRD :: string where "SourceNodeStoreCRD = ''k8s:nodestore''"
definition tenantFinalizer :: string where "tenantFinalizer = ''setera.com/tenant-finalizer''"

datatype orch_error =
    GetTenantErr string
  | ListErr string
  | NoNodeStores
  | PatchErr string
  | UpdateErr string
  | IndexErr string
  | AwaitingZones int nat nat

record 'w kube =
  kb_GetTenant :: "string \<Rightarrow> string \<Rightarrow> 'w \<Rightarrow> string + Tenant"
  kb_ListTenants :: "'w \<Rightarrow> string + Tenant list"
  kb_ListNodeStores :: "'w \<Rightarrow> string + NodeStore list"
  kb_ByIndex :: "(kobj \<Rightarrow> string list) \<Rightarrow> string \<Rightarrow> 'w \<Rightarrow> string + kobj list"
  kb_Patch :: "string \<Rightarrow> string \<Rightarrow> string list \<Rightarrow> 'w \<Rightarrow> string option \<times> 'w"
  kb_UpdateStatus :: "Tenant \<Rightarrow> 'w \<Rightarrow> string option \<times> 'w"

subsection \<open>util.go, indexer.go\<close>

primrec containsStr :: "string list \<Rightarrow> string \<Rightarrow> bool" where
  "containsStr [] v = False"
| "containsStr (s # xs) v = (if s = v then True else containsStr xs v)"

definition sameStrSlice :: "string list \<Rightarrow> string list \<Rightarrow> bool" where
  "sameStrSlice a b \<longleftrightarrow> length a = length b \<and> (\<forall>i\<in>set [0..<length a]. a ! i = b ! i)"

text \<open>The map built by the loop holds the last value with a name.\<close>

definition by_name :: "NodeInfo list \<Rightarrow> (string \<rightharpoonup> NodeInfo)" where
  "by_name a = map_of (rev (map (\<lambda>x. (ni_Name x, x)) a))"

definition equalNodeInfosByName :: "NodeInfo list \<Rightarrow> NodeInfo list \<Rightarrow> bool" where
  "equalNodeInfosByName a b \<longleftrightarrow> length a = length b \<and> (\<forall>y\<in>set b. by_name a (ni_Name y) \<noteq> None)"

definition equalNodeInfosByValue :: "NodeInfo list \<Rightarrow> NodeInfo list \<Rightarrow> bool" where
  "equalNodeInfosByValue a b \<longleftrightarrow> length a = length b \<and> (\<forall>y\<in>set b. by_name a (ni_Name y) = Some y)"

definition equalNodeInfos :: "NodeInfo list \<Rightarrow> NodeInfo list \<Rightarrow> bool" where
  "equalNodeInfos a b \<longleftrightarrow> length a = length b \<and> (\<forall>y\<in>set b. by_name a (ni_Name y) = Some y)"

definition indexNodestoreByTenant :: "kobj \<Rightarrow> string list" where
  "indexNodestoreByTenant obj =
     (case obj of ObjNodeStore n \<Rightarrow> filter (\<lambda>x. x \<noteq> []) (map (ti_Name \<circ> snd) (st_Tenants n)) | _ \<Rightarrow> [])"

subsection \<open>tenant.go\<close>

definition ensureTenantFinalizer :: "'w kube \<Rightarrow> Tenant \<Rightarrow> 'w \<Rightarrow> orch_error option \<times> 'w" where
  "ensureTenantFinalizer kb t w =
     (let m = tn_Meta t in
      if tenantFinalizer \<in> set (om_Finalizers m) then (None, w)
      else case kb_Patch kb (om_Namespace m) (om_Name m) (om_Finalizers m @ [tenantFinalizer]) w of
             (Some e, w') \<Rightarrow> (Some (PatchErr e), w')
           | (None, w') \<Rightarrow> (None, w'))"

text \<open>The name of the node a store stands for.\<close>

definition node_id :: "NodeStore \<Rightarrow> string" where
  "node_id n = (if st_Name n = [] then om_Name (st_Meta n) else st_Name n)"

fun select_loop :: "int \<Rightarrow> NodeStore list \<Rightarrow> string list \<Rightarrow> string list" where
  "select_loop zones [] out = out"
| "select_loop zones (n # stores) out =
     (if int (length out) \<ge> zones then out else select_loop zones stores (out @ [node_id n]))"

definition selectInitialAwaitingNodes :: "'w kube \<Rightarrow> Tenant \<Rightarrow> 'w \<Rightarrow> orch_error + string list" where
  "selectInitialAwaitingNodes kb t w =
     (if tn_Zones t \<le> 0 then Inr []
      else case kb_ListNodeStores kb w of
             Inl e \<Rightarrow> Inl (ListErr e)
           | Inr stores \<Rightarrow> if stores = [] then Inl NoNodeStores else Inr (select_loop (tn_Zones t) stores []))"

text \<open>The loop that takes unused candidates while nodes are missing; the result is what it appends.\<close>

fun add_awaiting :: "string list \<Rightarrow> string list \<Rightarrow> nat \<Rightarrow> string list" where
  "add_awaiting [] used delta = []"
| "add_awaiting (i # ids) used delta =
     (if delta = 0 then []
      else if i \<in> set used then add_awaiting ids used delta
      else i # add_awaiting ids (i # used) (delta - 1))"

definition candidates :: "NodeStore list \<Rightarrow> string list" where
  "candidates stores = sort (filter (\<lambda>x. x \<noteq> []) (map node_id stores))"

definition recomputeAwaitingAndAssignedForZones :: "Tenant \<Rightarrow> NodeStore list \<Rightarrow> string list \<times> NodeInfo list \<times> bool" where
  "recomputeAwaitingAndAssignedForZones t stores =
     (let zones = max (tn_Zones t) 0;
          assigned = tn_AssignedNodes t;
          awaitingOrig = tn_Awaiting t;
          assignedIDs = filter (\<lambda>x. x \<noteq> []) (map ni_Name assigned);
          awaiting = filter (\<lambda>i. i \<notin> set assignedIDs) awaitingOrig;
          delta = zones - int (length assigned + length awaiting);
          awaiting' = (if delta > 0
                       then awaiting @ add_awaiting (candidates stores) (assignedIDs @ awaiting) (nat delta)
                       else awaiting);
          assigned' = (if delta < 0
                       then (if - delta \<ge> int (length assigned) then [] else take (nat (int (length assigned) + delta)) assigned)
                       else assigned)
      in (awaiting', assigned', awaitingOrig \<noteq> awaiting' \<or> \<not> equalNodeInfos assigned assigned'))"

subsection \<open>reconcile\_tenant\_source.go\<close>

definition reconcileTenantAdd :: "'w kube \<Rightarrow> ResourceRef \<Rightarrow> 'w \<Rightarrow> orch_error option \<times> 'w" where
  "reconcileTenantAdd kb ref w =
     (case kb_GetTenant kb (rr_Namespace ref) (rr_Name ref) w of
        Inl e \<Rightarrow> (Some (GetTenantErr e), w)
      | Inr t \<Rightarrow>
          (case ensureTenantFinalizer kb t w of
             (Some e, w1) \<Rightarrow> (Some e, w1)
           | (None, w1) \<Rightarrow>
               if tn_Awaiting t \<noteq> [] \<or> tn_AssignedNodes t \<noteq> [] then (None, w1)
               else (case selectInitialAwaitingNodes kb t w1 of
                       Inl e \<Rightarrow> (Some e, w1)
                     | Inr seed \<Rightarrow>
                         if seed = [] then (None, w1)
                         else (case kb_UpdateStatus kb (t\<lparr>tn_Awaiting := seed\<rparr>) w1 of
                                 (Some e, w2) \<Rightarrow> (Some (UpdateErr e), w2)
                               | (None, w2) \<Rightarrow> (None, w2)))))"

definition reconcileTenantUpdate :: "'w kube \<Rightarrow> ResourceRef \<Rightarrow> 'w \<Rightarrow> orch_error option \<times> 'w" where
  "reconcileTenantUpdate kb ref w =
     (case kb_GetTenant kb (rr_Namespace ref) (rr_Name ref) w of
        Inl e \<Rightarrow> (Some (GetTenantErr e), w)
      | Inr t \<Rightarrow>
          (case ensureTenantFinalizer kb t w of
             (Some e, w1) \<Rightarrow> (Some e, w1)
           | (None, w1) \<Rightarrow>
               (case kb_ListNodeStores kb w1 of
                  Inl e \<Rightarrow> (Some (ListErr e), w1)
                | Inr stores \<Rightarrow>
                    (case recomputeAwaitingAndAssignedForZones t stores of
                       (newAwaiting, newAssigned, changed) \<Rightarrow>
                         if \<not> changed then (None, w1)
                         else (case kb_UpdateStatus kb (t\<lparr>tn_Awaiting := newAwaiting, tn_AssignedNodes := newAssigned\<rparr>) w1 of
                                 (Some e, w2) \<Rightarrow> (Some (UpdateErr e), w2)
                               | (None, w2) \<Rightarrow> (None, w2))))))"

definition reconcileTenantDelete :: "ResourceRef \<Rightarrow> 'w \<Rightarrow> orch_error option \<times> 'w" where
  "reconcileTenantDelete ref w = (None, w)"

subsection \<open>reconcile\_nodestore\_source.go\<close>

definition nodeStoresForTenant :: "'w kube \<Rightarrow> string \<Rightarrow> 'w \<Rightarrow> string + NodeStore list" where
  "nodeStoresForTenant kb tenantName w =
     (case kb_ByIndex kb indexNodestoreByTenant tenantName w of
        Inl e \<Rightarrow> Inl e
      | Inr objs \<Rightarrow> Inr (List.map_filter (\<lambda>obj. case obj of ObjNodeStore n \<Rightarrow> Some n | _ \<Rightarrow> None) objs))"

definition assigned_from :: "string \<Rightarrow> NodeStore list \<Rightarrow> NodeInfo list" where
  "assigned_from name nodestores =
     List.map_filter (\<lambda>n. map_option (\<lambda>ti. \<lparr>ni_Name = st_Name n, ni_NodeIP = st_NodeIP n, ni_TenantCIDR = ti_TenantCIDR ti,
       ni_VtepIP = ti_VTEP_IP ti, ni_VtepMAC = ti_VTEP_MAC ti\<rparr>) (map_of (st_Tenants n) name)) nodestores"

definition reconcileNodestoreUpdate :: "'w kube \<Rightarrow> ResourceRef \<Rightarrow> 'w \<Rightarrow> orch_error option \<times> 'w" where
  "reconcileNodestoreUpdate kb ref w =
     (case kb_GetTenant kb (rr_Namespace ref) (rr_Name ref) w of
        Inl e \<Rightarrow> (Some (GetTenantErr e), w)
      | Inr t \<Rightarrow>
          (case nodeStoresForTenant kb (om_Name (tn_Meta t)) w of
             Inl e \<Rightarrow> (Some (IndexErr e), w)
           | Inr nodestores \<Rightarrow>
               (case kb_ListNodeStores kb w of
                  Inl e \<Rightarrow> (Some (ListErr e), w)
                | Inr allStores \<Rightarrow>
                    (case recomputeAwaitingAndAssignedForZones
                            (t\<lparr>tn_AssignedNodes := assigned_from (om_Name (tn_Meta t)) nodestores\<rparr>) allStores of
                       (newAwaiting, newAssigned, changed) \<Rightarrow>
                         if \<not> changed \<and> tn_Awaiting t = newAwaiting \<and> equalNodeInfosByValue (tn_AssignedNodes t) newAssigned
                         then (None, w)
                         else (case kb_UpdateStatus kb (t\<lparr>tn_Awaiting := newAwaiting, tn_AssignedNodes := newAssigned\<rparr>) w of
                                 (Some e, w1) \<Rightarrow> (Some (UpdateErr e), w1)
                               | (None, w1) \<Rightarrow>
                                   if int (length allStores) \<ge> tn_Zones t \<and> int (length newAssigned) \<noteq> tn_Zones t
                                   then (Some (AwaitingZones (tn_Zones t) (length newAssigned) (length allStores)), w1)
                                   else (None, w1))))))"

definition reconcileNodestoreAdd :: "'w kube \<Rightarrow> ResourceRef \<Rightarrow> 'w \<Rightarrow> orch_error option \<times> 'w" where
  "reconcileNodestoreAdd kb ref w = reconcileNodestoreUpdate kb ref w"

definition reconcileNodestoreDelete :: "'w kube \<Rightarrow> ResourceRef \<Rightarrow> 'w \<Rightarrow> orch_error option \<times> 'w" where
  "reconcileNodestoreDelete kb ref w =
     (case kb_GetTenant kb (rr_Namespace ref) (rr_Name ref) w of
        Inl e \<Rightarrow> (Some (GetTenantErr e), w)
      | Inr t \<Rightarrow>
          let newAssigned = filter (\<lambda>ni. ni_Name ni \<noteq> rr_Name ref) (tn_AssignedNodes t) in
          if equalNodeInfosByValue (tn_AssignedNodes t) newAssigned then (None, w)
          else (case kb_UpdateStatus kb (t\<lparr>tn_AssignedNodes := newAssigned\<rparr>) w of
                  (Some e, w1) \<Rightarrow> (Some (UpdateErr e), w1)
                | (None, w1) \<Rightarrow> (None, w1)))"

subsection \<open>The event handlers\<close>

definition as_tenant :: "kobj \<Rightarrow> Tenant option" where
  "as_tenant obj = (case obj of ObjTenant t \<Rightarrow> Some t | Tombstone (ObjTenant t) \<Rightarrow> Some t | _ \<Rightarrow> None)"

definition as_nodestore :: "kobj \<Rightarrow> NodeStore option" where
  "as_nodestore obj = (case obj of ObjNodeStore n \<Rightarrow> Some n | Tombstone (ObjNodeStore n) \<Rightarrow> Some n | _ \<Rightarrow> None)"

definition addEventTenantHandler :: "kobj \<Rightarrow> WorkItem list" where
  "addEventTenantHandler obj =
     (case obj of ObjTenant t \<Rightarrow> EnqueueObjectWith SourceTenantCRD EventAdd (ObjTenant t) | _ \<Rightarrow> [])"

definition updateEventTenantHandler :: "kobj \<Rightarrow> kobj \<Rightarrow> WorkItem list" where
  "updateEventTenantHandler oldObj newObj =
     (case (as_tenant oldObj, as_tenant newObj) of
        (Some old, Some new) \<Rightarrow>
          if om_Generation (tn_Meta old) \<noteq> om_Generation (tn_Meta new)
          then EnqueueObjectWith SourceTenantCRD EventUpdate (ObjTenant new) else []
      | _ \<Rightarrow> [])"

definition deleteEventTenantHandler :: "kobj \<Rightarrow> WorkItem list" where
  "deleteEventTenantHandler obj =
     (case as_tenant obj of None \<Rightarrow> [] | Some t \<Rightarrow> EnqueueObjectWith SourceTenantCRD EventDelete (ObjTenant t))"

definition tenant_ref :: "string \<Rightarrow> string \<Rightarrow> ResourceRef" where
  "tenant_ref ns name = \<lparr>rr_Group = ''setera.com'', rr_Version = ''v1'', rr_Kind = ''Tenant'', rr_Namespace = ns, rr_Name = name\<rparr>"

definition addEventNodestoreHandler :: "'w kube \<Rightarrow> kobj \<Rightarrow> 'w \<Rightarrow> WorkItem list" where
  "addEventNodestoreHandler kb obj w =
     (case obj of
        ObjNodeStore n \<Rightarrow>
          (case kb_ListTenants kb w of
             Inl e \<Rightarrow> []
           | Inr tenants \<Rightarrow> concat (map (\<lambda>t.
               if int (length (tn_AssignedNodes t) + length (tn_Awaiting t)) = tn_Zones t then []
               else EnqueueWith SourceNodeStoreCRD EventAdd (tenant_ref (om_Namespace (tn_Meta t)) (om_Name (tn_Meta t)))) tenants))
      | _ \<Rightarrow> [])"

definition affected :: "NodeStore \<Rightarrow> NodeStore \<Rightarrow> string list" where
  "affected old new =
     map fst (filter (\<lambda>(name, ti). map_of (st_Tenants old) name \<noteq> Some ti) (st_Tenants new)) @
     filter (\<lambda>name. map_of (st_Tenants new) name = None) (map fst (st_Tenants old))"

definition updateEventNodestoreHandler :: "kobj \<Rightarrow> kobj \<Rightarrow> WorkItem list" where
  "updateEventNodestoreHandler oldObj newObj =
     (case (as_nodestore oldObj, as_nodestore newObj) of
        (Some old, Some new) \<Rightarrow>
          concat (map (\<lambda>name. EnqueueWith SourceNodeStoreCRD EventUpdate (tenant_ref (om_Namespace (st_Meta new)) name)) (affected old new))
      | _ \<Rightarrow> [])"

definition deleteEventNodestoreHandler :: "kobj \<Rightarrow> WorkItem list" where
  "deleteEventNodestoreHandler obj =
     (case obj of
        ObjNodeStore n \<Rightarrow>
          concat (map (\<lambda>(name, _). EnqueueWith SourceNodeStoreCRD EventDelete (tenant_ref (om_Namespace (st_Meta n)) name)) (st_Tenants n))
      | _ \<Rightarrow> [])"

subsection \<open>operator.go\<close>

definition orch_reconcile :: "('w kube \<Rightarrow> ResourceRef \<Rightarrow> 'w \<Rightarrow> orch_error option \<times> 'w) \<Rightarrow> 'w kube \<Rightarrow> ('w, orch_error) reconcile_func" where
  "orch_reconcile f kb src res w = (case f kb res w of (e, w') \<Rightarrow> (map_option OpError e, w'))"

definition orch_router :: "'w kube \<Rightarrow> ('w, orch_error) Router" where
  "orch_router kb = NewRouter ''orchestrator''
     [(SourceTenantCRD, [(EventAdd, Some (orch_reconcile reconcileTenantAdd kb)),
                         (EventUpdate, Some (orch_reconcile reconcileTenantUpdate kb)),
                         (EventDelete, Some (orch_reconcile (\<lambda>_. reconcileTenantDelete) kb))]),
      (SourceNodeStoreCRD, [(EventAdd, Some (orch_reconcile reconcileNodestoreAdd kb)),
                            (EventUpdate, Some (orch_reconcile reconcileNodestoreUpdate kb)),
                            (EventDelete, Some (orch_reconcile reconcileNodestoreDelete kb))])] None"

end
