(* ===== verification/Orchestrator_Properties.thy ===== *)
theory Orchestrator_Properties
  imports Orchestrator
begin

text \<open>
  What the orchestrator guarantees: how many nodes a tenant gets, that reconciling a tenant twice writes nothing the second
  time, and that a deleted node store leaves the assignments of the tenants as they are.
\<close>

subsection \<open>Choosing nodes\<close>

lemma select_loop_take: "select_loop z stores out = out @ take (nat (z - int (length out))) (map node_id stores)"
proof (induction z stores out rule: select_loop.induct)
  case (2 zones n stores out)
  show ?case
  proof (cases "int (length out) \<ge> zones")
    case False
    then have "nat (zones - int (length out)) = Suc (nat (zones - int (length (out @ [node_id n]))))" by simp
    then show ?thesis using "2.IH" [OF False] False by simp
  qed simp
qed simp

lemma add_awaiting_sub: "set (add_awaiting ids used d) \<subseteq> set ids - set used" "distinct (add_awaiting ids used d)"
  by (induction ids used d rule: add_awaiting.induct) (auto split: if_splits)

lemma add_awaiting_length: "length (add_awaiting ids used d) = min d (card (set ids - set used))"
proof (induction ids used d rule: add_awaiting.induct)
  case (2 i ids used d)
  show ?case
  proof (cases "d = 0 \<or> i \<in> set used")
    case True
    then show ?thesis using 2 by (auto simp: insert_Diff_if)
  next
    case False
    have "set (i # ids) - set used = insert i (set ids - set (i # used))" using False by auto
    then have "card (set (i # ids) - set used) = Suc (card (set ids - set (i # used)))"
      by (simp add: card_insert_if)
    then show ?thesis using False "2.IH"(2) by (cases d) (auto simp: min_def)
  qed
qed simp

lemma add_awaiting_all:
  assumes "card (set ids - set used) \<le> d"
  shows "set (add_awaiting ids used d) = set ids - set used"
proof (rule card_subset_eq)
  show "card (set (add_awaiting ids used d)) = card (set ids - set used)"
    using add_awaiting_length [of ids used d] distinct_card [OF add_awaiting_sub(2) [of ids used d]] assms by simp
qed (use add_awaiting_sub in auto)

text \<open>The node stores that are not in use by a tenant, and what is left of its awaiting nodes.\<close>

definition node_ids :: "NodeStore list \<Rightarrow> string set" where
  "node_ids stores = node_id ` set stores - {[]}"

definition assigned_ids :: "Tenant \<Rightarrow> string set" where
  "assigned_ids t = ni_Name ` set (tn_AssignedNodes t) - {[]}"

definition still_awaiting :: "Tenant \<Rightarrow> string list" where
  "still_awaiting t = filter (\<lambda>i. i \<notin> assigned_ids t) (tn_Awaiting t)"

definition fresh_ids :: "Tenant \<Rightarrow> NodeStore list \<Rightarrow> string set" where
  "fresh_ids t stores = node_ids stores - assigned_ids t - set (still_awaiting t)"

lemma candidates_set: "set (candidates stores) = node_ids stores"
  by (auto simp: candidates_def node_ids_def)

lemma recompute_eq:
  "recomputeAwaitingAndAssignedForZones t stores =
     (let total = length (tn_AssignedNodes t) + length (still_awaiting t); zones = nat (tn_Zones t);
          aw = (if total < zones
                then still_awaiting t @ add_awaiting (candidates stores)
                       (filter (\<lambda>x. x \<noteq> []) (map ni_Name (tn_AssignedNodes t)) @ still_awaiting t) (zones - total)
                else still_awaiting t);
          as = (if zones < total then take (zones - length (still_awaiting t)) (tn_AssignedNodes t) else tn_AssignedNodes t)
      in (aw, as, tn_Awaiting t \<noteq> aw \<or> \<not> equalNodeInfos (tn_AssignedNodes t) as))"
proof -
  have ids: "set (filter (\<lambda>x. x \<noteq> []) (map ni_Name (tn_AssignedNodes t))) = assigned_ids t"
    by (auto simp: assigned_ids_def)
  have aw: "filter (\<lambda>i. i \<notin> set (filter (\<lambda>x. x \<noteq> []) (map ni_Name (tn_AssignedNodes t)))) (tn_Awaiting t) = still_awaiting t"
    unfolding ids still_awaiting_def by simp
  let ?a = "length (tn_AssignedNodes t)" and ?k = "length (still_awaiting t)" and ?z = "tn_Zones t"
  let ?d = "max ?z 0 - int (?a + ?k)"
  have d: "?d > 0 \<longleftrightarrow> ?a + ?k < nat ?z" "?d < 0 \<longleftrightarrow> nat ?z < ?a + ?k" "nat ?d = nat ?z - (?a + ?k)" by auto
  have tk: "(if - ?d \<ge> int ?a then [] else take (nat (int ?a + ?d)) (tn_AssignedNodes t)) =
      take (nat ?z - ?k) (tn_AssignedNodes t)" if "?d < 0"
  proof -
    have "nat (int ?a + ?d) = nat ?z - ?k" using that by linarith
    moreover have "- ?d \<ge> int ?a \<Longrightarrow> nat ?z - ?k = 0" by linarith
    ultimately show ?thesis by auto
  qed
  have tk': "(if ?d < 0 then (if - ?d \<ge> int ?a then [] else take (nat (int ?a + ?d)) (tn_AssignedNodes t)) else tn_AssignedNodes t) =
      (if nat ?z < ?a + ?k then take (nat ?z - ?k) (tn_AssignedNodes t) else tn_AssignedNodes t)"
    using tk d(2) by presburger
  show ?thesis
    unfolding recomputeAwaitingAndAssignedForZones_def Let_def aw tk' d(1) d(3) by (rule refl)
qed

lemma recompute_cong:
  "tn_Zones t' = tn_Zones t \<Longrightarrow> tn_AssignedNodes t' = tn_AssignedNodes t \<Longrightarrow> tn_Awaiting t' = tn_Awaiting t \<Longrightarrow>
   recomputeAwaitingAndAssignedForZones t' stores = recomputeAwaitingAndAssignedForZones t stores"
  by (simp only: recomputeAwaitingAndAssignedForZones_def)

lemma zone_arith:
  fixes a k z f :: nat
  assumes "la = (if a + k < z then k + min (z - (a + k)) f else k)" "ls = (if z < a + k then min a (z - k) else a)"
  shows "ls + la = (if a + k \<le> z then min z (a + k + f) else max z k)"
  using assms by (cases "a + k < z"; cases "z < a + k") (auto simp: min_def max_def)

lemma recompute_cases:
  assumes "recomputeAwaitingAndAssignedForZones t stores = (aw, as, ch)"
  shows "set aw \<subseteq> set (still_awaiting t) \<union> fresh_ids t stores" "set (still_awaiting t) \<subseteq> set aw"
    "distinct (tn_Awaiting t) \<Longrightarrow> distinct aw"
    "\<exists>n. as = take n (tn_AssignedNodes t)"
    "length as + length aw = (if length (tn_AssignedNodes t) + length (still_awaiting t) \<le> nat (tn_Zones t)
       then min (nat (tn_Zones t)) (length (tn_AssignedNodes t) + length (still_awaiting t) + card (fresh_ids t stores))
       else max (nat (tn_Zones t)) (length (still_awaiting t)))"
    "ch \<longleftrightarrow> tn_Awaiting t \<noteq> aw \<or> \<not> equalNodeInfos (tn_AssignedNodes t) as"
proof -
  let ?used = "filter (\<lambda>x. x \<noteq> []) (map ni_Name (tn_AssignedNodes t)) @ still_awaiting t"
  let ?add = "add_awaiting (candidates stores) ?used (nat (tn_Zones t) - (length (tn_AssignedNodes t) + length (still_awaiting t)))"
  have u: "set ?used = assigned_ids t \<union> set (still_awaiting t)" by (auto simp: assigned_ids_def)
  then have f: "set (candidates stores) - set ?used = fresh_ids t stores" by (auto simp: candidates_set fresh_ids_def)
  note add = add_awaiting_sub [of "candidates stores" ?used "nat (tn_Zones t) - (length (tn_AssignedNodes t) + length (still_awaiting t))", unfolded f]
  note len = add_awaiting_length [of "candidates stores" ?used "nat (tn_Zones t) - (length (tn_AssignedNodes t) + length (still_awaiting t))", unfolded f]
  have dis: "distinct (tn_Awaiting t) \<Longrightarrow> distinct (still_awaiting t)" by (simp add: still_awaiting_def)
  have fr: "set (still_awaiting t) \<inter> fresh_ids t stores = {}" by (auto simp: fresh_ids_def)
  show "set aw \<subseteq> set (still_awaiting t) \<union> fresh_ids t stores" "set (still_awaiting t) \<subseteq> set aw"
    "\<exists>n. as = take n (tn_AssignedNodes t)" "ch \<longleftrightarrow> tn_Awaiting t \<noteq> aw \<or> \<not> equalNodeInfos (tn_AssignedNodes t) as"
    using assms add(1) unfolding recompute_eq Let_def by (auto split: if_splits intro: exI [of _ "length (tn_AssignedNodes t)"])
  have "fst (recomputeAwaitingAndAssignedForZones t stores) \<in> {still_awaiting t @ ?add, still_awaiting t}"
    unfolding recompute_eq Let_def fst_conv by (rule if_split [THEN iffD2]) blast
  then have "aw = still_awaiting t @ ?add \<or> aw = still_awaiting t" unfolding assms by simp
  then show "distinct aw" if "distinct (tn_Awaiting t)"
  proof -
    have "distinct (still_awaiting t @ ?add)" unfolding distinct_append
    proof (intro conjI)
      show "set (still_awaiting t) \<inter> set ?add = {}" using fr add(1) by (meson disjoint_iff subsetD)
    qed (rule dis [OF that], rule add(2))
    then show ?thesis using \<open>aw = still_awaiting t @ ?add \<or> aw = still_awaiting t\<close> dis [OF that] by metis
  qed
  show "length as + length aw = (if length (tn_AssignedNodes t) + length (still_awaiting t) \<le> nat (tn_Zones t)
       then min (nat (tn_Zones t)) (length (tn_AssignedNodes t) + length (still_awaiting t) + card (fresh_ids t stores))
       else max (nat (tn_Zones t)) (length (still_awaiting t)))"
  proof -
    let ?a = "length (tn_AssignedNodes t)" and ?k = "length (still_awaiting t)" and ?z = "nat (tn_Zones t)"
    have "length aw = (if ?a + ?k < ?z then ?k + min (?z - (?a + ?k)) (card (fresh_ids t stores)) else ?k)"
      "length as = (if ?z < ?a + ?k then min ?a (?z - ?k) else ?a)"
      using assms len unfolding recompute_eq Let_def by auto
    then show ?thesis by (rule zone_arith)
  qed
qed

definition demo_meta :: "string \<Rightarrow> ObjectMeta" where
  "demo_meta n = \<lparr>om_Name = n, om_Namespace = [], om_ResourceVersion = [], om_Generation = 1, om_Labels = [], om_Annotations = [], om_Finalizers = []\<rparr>"

definition demo_gvk :: GroupVersionKind where "demo_gvk = \<lparr>gvk_Group = [], gvk_Version = [], gvk_Kind = []\<rparr>"

definition demo_store :: "string \<Rightarrow> NodeStore" where
  "demo_store n = \<lparr>st_Type = demo_gvk, st_Meta = demo_meta n, st_Name = n, st_NodeIP = [], st_Selectors = [], st_Tenants = []\<rparr>"

definition demo_info :: "string \<Rightarrow> NodeInfo" where
  "demo_info n = \<lparr>ni_Name = n, ni_NodeIP = [], ni_TenantCIDR = [], ni_VtepIP = [], ni_VtepMAC = []\<rparr>"

definition demo_tenant :: "int \<Rightarrow> Tenant" where
  "demo_tenant z = \<lparr>tn_Type = demo_gvk, tn_Meta = demo_meta ''blue'', tn_Name = ''blue'', tn_Zones = z,
     tn_AssignedNodes = [demo_info ''n2''], tn_Paused = False, tn_Awaiting = [''n2'', ''n4'']\<rparr>"



subsection \<open>Reconciling again\<close>

lemma by_name_distinct: "distinct (map ni_Name xs) \<Longrightarrow> y \<in> set xs \<Longrightarrow> by_name xs (ni_Name y) = Some y"
  unfolding by_name_def by (rule map_of_is_SomeI) (auto simp: comp_def rev_map [symmetric] distinct_rev)

lemma equalNodeInfos_refl: "distinct (map ni_Name xs) \<Longrightarrow> equalNodeInfos xs xs"
  by (simp add: equalNodeInfos_def by_name_distinct)

lemma recompute_fixed:
  assumes r: "recomputeAwaitingAndAssignedForZones t stores = (aw, as, ch)" and d: "distinct (map ni_Name (tn_AssignedNodes t))"
    and t': "tn_AssignedNodes t' = as" "tn_Awaiting t' = aw" "tn_Zones t' = tn_Zones t"
  shows "recomputeAwaitingAndAssignedForZones t' stores = (aw, as, False)"
proof -
  note c = recompute_cases [OF r]
  let ?a = "length (tn_AssignedNodes t)" and ?k = "length (still_awaiting t)" and ?z = "nat (tn_Zones t)"
  obtain n where n: "as = take n (tn_AssignedNodes t)" using c(4) by blast
  have ids: "assigned_ids t' \<subseteq> assigned_ids t" using n t'(1) set_take_subset by (fastforce simp: assigned_ids_def)
  have "set aw \<inter> assigned_ids t = {}" using c(1) by (auto simp: still_awaiting_def fresh_ids_def)
  then have sa: "still_awaiting t' = aw" using ids t'(2) by (auto simp: still_awaiting_def filter_id_conv)
  have eq: "equalNodeInfos as as" using d n by (intro equalNodeInfos_refl) (simp add: take_map [symmetric])
  have aw': "(if length as + length aw < ?z
      then aw @ add_awaiting (candidates stores) (filter (\<lambda>x. x \<noteq> []) (map ni_Name as) @ aw) (?z - (length as + length aw)) else aw) = aw"
  proof (cases "length as + length aw < ?z")
    case True
    then have tot: "?a + ?k \<le> ?z" "length as + length aw = ?a + ?k + card (fresh_ids t stores)"
      using c(5) by (auto split: if_splits)
    have as: "as = tn_AssignedNodes t" using r tot(1) unfolding recompute_eq Let_def by (auto split: if_splits)
    have sub: "node_ids stores \<subseteq> assigned_ids t \<union> set aw"
    proof (cases "?a + ?k < ?z")
      case True
      let ?used = "filter (\<lambda>x. x \<noteq> []) (map ni_Name (tn_AssignedNodes t)) @ still_awaiting t"
      have u: "set ?used = assigned_ids t \<union> set (still_awaiting t)" by (auto simp: assigned_ids_def)
      have f: "set (candidates stores) - set ?used = fresh_ids t stores" using u by (auto simp: candidates_set fresh_ids_def)
      have "card (fresh_ids t stores) \<le> ?z - (?a + ?k)" using tot \<open>length as + length aw < ?z\<close> by simp
      then have "set (add_awaiting (candidates stores) ?used (?z - (?a + ?k))) = fresh_ids t stores"
        using add_awaiting_all [of "candidates stores" ?used "?z - (?a + ?k)", unfolded f] by simp
      moreover have "aw = still_awaiting t @ add_awaiting (candidates stores) ?used (?z - (?a + ?k))"
        using r True unfolding recompute_eq Let_def by auto
      ultimately show ?thesis by (auto simp: fresh_ids_def)
    next
      case False
      then show ?thesis using tot \<open>length as + length aw < ?z\<close> by simp
    qed
    have "set (candidates stores) - set (filter (\<lambda>x. x \<noteq> []) (map ni_Name as) @ aw) = {}"
      using sub as by (auto simp: candidates_set assigned_ids_def)
    then have "add_awaiting (candidates stores) (filter (\<lambda>x. x \<noteq> []) (map ni_Name as) @ aw) (?z - (length as + length aw)) = []"
      using add_awaiting_sub(1) [of "candidates stores" "filter (\<lambda>x. x \<noteq> []) (map ni_Name as) @ aw"] by (metis set_empty subset_empty)
    then show ?thesis by simp
  qed simp
  have as': "(if ?z < length as + length aw then take (?z - length aw) as else as) = as"
  proof (cases "?z < length as + length aw")
    case True
    then have "?z < ?a + ?k" "length as + length aw = ?k" using c(5) by (auto simp: max_def split: if_splits)
    moreover have "aw = still_awaiting t" using r \<open>?z < ?a + ?k\<close> unfolding recompute_eq Let_def by (simp split: if_splits)
    ultimately show ?thesis by simp
  qed simp
  show ?thesis unfolding recompute_eq t' sa Let_def using aw' as' eq by simp
qed

text \<open>
  What the orchestrator relies on in the API server and its caches: a successful patch or status update is what the next read of the
  object returns, other fields and the node stores are not affected, and an object has the name it is read under.
\<close>

locale kube_api =
  fixes kb :: "'w kube"
  assumes get_name: "kb_GetTenant kb ns n w = Inr t \<Longrightarrow> om_Namespace (tn_Meta t) = ns \<and> om_Name (tn_Meta t) = n"
    and patch_get: "kb_Patch kb ns n fs w = (None, w') \<Longrightarrow> kb_GetTenant kb ns n w = Inr t \<Longrightarrow>
      kb_GetTenant kb ns n w' = Inr (t\<lparr>tn_Meta := (tn_Meta t)\<lparr>om_Finalizers := fs\<rparr>\<rparr>)"
    and patch_list: "kb_Patch kb ns n fs w = (x, w') \<Longrightarrow> kb_ListNodeStores kb w' = kb_ListNodeStores kb w"
    and update_get: "kb_UpdateStatus kb t w = (None, w') \<Longrightarrow> kb_GetTenant kb (om_Namespace (tn_Meta t)) (om_Name (tn_Meta t)) w = Inr t0 \<Longrightarrow>
      kb_GetTenant kb (om_Namespace (tn_Meta t)) (om_Name (tn_Meta t)) w' =
        Inr (t0\<lparr>tn_AssignedNodes := tn_AssignedNodes t, tn_Awaiting := tn_Awaiting t, tn_Paused := tn_Paused t\<rparr>)"
    and update_list: "kb_UpdateStatus kb t w = (x, w') \<Longrightarrow> kb_ListNodeStores kb w' = kb_ListNodeStores kb w"
begin

lemma update_twice:
  assumes get: "kb_GetTenant kb (rr_Namespace ref) (rr_Name ref) w = Inr t" and d: "distinct (map ni_Name (tn_AssignedNodes t))"
    and run: "reconcileTenantUpdate kb ref w = (None, w')"
  shows "reconcileTenantUpdate kb ref w' = (None, w')"
proof -
  let ?ns = "rr_Namespace ref" and ?n = "rr_Name ref"
  note nm = get_name [OF get]
  obtain w1 where f: "ensureTenantFinalizer kb t w = (None, w1)"
    using run get by (auto simp: reconcileTenantUpdate_def split: prod.splits option.splits)
  have g1: "\<exists>m. kb_GetTenant kb ?ns ?n w1 = Inr (t\<lparr>tn_Meta := m\<rparr>) \<and> tenantFinalizer \<in> set (om_Finalizers m)"
    and l1: "kb_ListNodeStores kb w1 = kb_ListNodeStores kb w"
  proof -
    show "\<exists>m. kb_GetTenant kb ?ns ?n w1 = Inr (t\<lparr>tn_Meta := m\<rparr>) \<and> tenantFinalizer \<in> set (om_Finalizers m)"
    proof (cases "tenantFinalizer \<in> set (om_Finalizers (tn_Meta t))")
      case True
      then show ?thesis using f get by (intro exI [of _ "tn_Meta t"]) (simp add: ensureTenantFinalizer_def)
    next
      case False
      then have "kb_Patch kb ?ns ?n (om_Finalizers (tn_Meta t) @ [tenantFinalizer]) w = (None, w1)"
        using f nm by (auto simp: ensureTenantFinalizer_def Let_def split: prod.splits option.splits)
      from patch_get [OF this get] show ?thesis by auto
    qed
    show "kb_ListNodeStores kb w1 = kb_ListNodeStores kb w"
      using f patch_list by (auto simp: ensureTenantFinalizer_def Let_def split: prod.splits option.splits if_splits)
  qed
  obtain m where g1: "kb_GetTenant kb ?ns ?n w1 = Inr (t\<lparr>tn_Meta := m\<rparr>)" "tenantFinalizer \<in> set (om_Finalizers m)" using g1 by blast
  obtain stores where st: "kb_ListNodeStores kb w1 = Inr stores"
    using run get f by (auto simp: reconcileTenantUpdate_def split: sum.splits)
  obtain aw as ch where rc: "recomputeAwaitingAndAssignedForZones t stores = (aw, as, ch)" by (metis prod_cases3)
  have again: "reconcileTenantUpdate kb ref w' = (None, w')"
    if g: "kb_GetTenant kb ?ns ?n w' = Inr t'" "tenantFinalizer \<in> set (om_Finalizers (tn_Meta t'))" "kb_ListNodeStores kb w' = Inr stores"
      and u: "recomputeAwaitingAndAssignedForZones t' stores = (aw, as, False)" for t'
    using g u by (simp add: reconcileTenantUpdate_def ensureTenantFinalizer_def)
  show ?thesis
  proof (cases ch)
    case False
    then have w': "w' = w1" using run get f st rc by (simp add: reconcileTenantUpdate_def)
    have "recomputeAwaitingAndAssignedForZones (t\<lparr>tn_Meta := m\<rparr>) stores = recomputeAwaitingAndAssignedForZones t stores"
      by (rule recompute_cong) simp_all
    then show ?thesis using again [of "t\<lparr>tn_Meta := m\<rparr>"] g1 st rc False w' by simp
  next
    case True
    let ?t = "t\<lparr>tn_Awaiting := aw, tn_AssignedNodes := as\<rparr>"
    obtain x w2 where x: "kb_UpdateStatus kb ?t w1 = (x, w2)" by fastforce
    then have up: "kb_UpdateStatus kb ?t w1 = (None, w')"
      using run get f st rc True by (cases x) (simp_all add: reconcileTenantUpdate_def)
    have g: "kb_GetTenant kb ?ns ?n w' = Inr (t\<lparr>tn_Meta := m, tn_AssignedNodes := as, tn_Awaiting := aw\<rparr>)"
      using update_get [OF up] nm g1(1) by simp
    have l: "kb_ListNodeStores kb w' = Inr stores" using update_list [OF up] st by simp
    have "recomputeAwaitingAndAssignedForZones (t\<lparr>tn_Meta := m, tn_AssignedNodes := as, tn_Awaiting := aw\<rparr>) stores = (aw, as, False)"
      by (rule recompute_fixed [OF rc d]) simp_all
    then show ?thesis using again [OF g] g1(2) l by simp
  qed
qed

end

text \<open>A cluster held in memory, as the fake client of the tests: the tenants by namespace and name, and the node stores.\<close>

record mem_cluster =
  mc_tenants :: "Tenant list"
  mc_stores :: "NodeStore list"

definition mc_key :: "string \<Rightarrow> string \<Rightarrow> Tenant \<Rightarrow> bool" where
  "mc_key ns n t \<longleftrightarrow> om_Namespace (tn_Meta t) = ns \<and> om_Name (tn_Meta t) = n"

definition mc_get :: "string \<Rightarrow> string \<Rightarrow> mem_cluster \<Rightarrow> string + Tenant" where
  "mc_get ns n w = (case find (mc_key ns n) (mc_tenants w) of None \<Rightarrow> Inl ''not found'' | Some t \<Rightarrow> Inr t)"

definition mc_put :: "string \<Rightarrow> string \<Rightarrow> (Tenant \<Rightarrow> Tenant) \<Rightarrow> mem_cluster \<Rightarrow> string option \<times> mem_cluster" where
  "mc_put ns n f w = (case find (mc_key ns n) (mc_tenants w) of
     None \<Rightarrow> (Some ''not found'', w)
   | Some _ \<Rightarrow> (None, w\<lparr>mc_tenants := map (\<lambda>t. if mc_key ns n t then f t else t) (mc_tenants w)\<rparr>))"

definition mem_kube :: "mem_cluster kube" where
  "mem_kube =
     \<lparr>kb_GetTenant = mc_get, kb_ListTenants = (\<lambda>w. Inr (mc_tenants w)), kb_ListNodeStores = (\<lambda>w. Inr (mc_stores w)),
      kb_ByIndex = (\<lambda>idx name w. Inr (filter (\<lambda>x. name \<in> set (idx x)) (map ObjNodeStore (mc_stores w)))),
      kb_Patch = (\<lambda>ns n fs. mc_put ns n (\<lambda>t. t\<lparr>tn_Meta := (tn_Meta t)\<lparr>om_Finalizers := fs\<rparr>\<rparr>)),
      kb_UpdateStatus = (\<lambda>t. mc_put (om_Namespace (tn_Meta t)) (om_Name (tn_Meta t))
        (\<lambda>t0. t0\<lparr>tn_AssignedNodes := tn_AssignedNodes t, tn_Awaiting := tn_Awaiting t, tn_Paused := tn_Paused t\<rparr>))\<rparr>"

lemma mc_put_get:
  assumes "mc_put ns n f w = (None, w')" "mc_get ns n w = Inr t" "\<And>t. mc_key ns n (f t) = mc_key ns n t"
  shows "mc_get ns n w' = Inr (f t)"
proof -
  have t: "find (mc_key ns n) (mc_tenants w) = Some t" using assms(2) by (auto simp: mc_get_def split: option.splits)
  have "find (mc_key ns n) (map (\<lambda>t. if mc_key ns n t then f t else t) ts) = Some (f t)" if "find (mc_key ns n) ts = Some t" for ts
    using that assms(3) by (induction ts) (auto split: if_splits)
  then show ?thesis using assms(1) t by (auto simp: mc_put_def mc_get_def)
qed

interpretation mk: kube_api mem_kube
proof unfold_locales
  fix ns n w t
  assume "kb_GetTenant mem_kube ns n w = Inr t"
  then show "om_Namespace (tn_Meta t) = ns \<and> om_Name (tn_Meta t) = n"
    by (auto simp: mem_kube_def mc_get_def mc_key_def find_Some_iff split: option.splits)
next
  fix ns n fs w w' t
  assume "kb_Patch mem_kube ns n fs w = (None, w')" "kb_GetTenant mem_kube ns n w = Inr t"
  then show "kb_GetTenant mem_kube ns n w' = Inr (t\<lparr>tn_Meta := (tn_Meta t)\<lparr>om_Finalizers := fs\<rparr>\<rparr>)"
    using mc_put_get [of ns n "\<lambda>t. t\<lparr>tn_Meta := (tn_Meta t)\<lparr>om_Finalizers := fs\<rparr>\<rparr>" w w' t] by (simp add: mem_kube_def mc_key_def)
next
  fix t w w' t0
  assume "kb_UpdateStatus mem_kube t w = (None, w')" "kb_GetTenant mem_kube (om_Namespace (tn_Meta t)) (om_Name (tn_Meta t)) w = Inr t0"
  then show "kb_GetTenant mem_kube (om_Namespace (tn_Meta t)) (om_Name (tn_Meta t)) w' =
        Inr (t0\<lparr>tn_AssignedNodes := tn_AssignedNodes t, tn_Awaiting := tn_Awaiting t, tn_Paused := tn_Paused t\<rparr>)"
    using mc_put_get [of _ _ "\<lambda>t0. t0\<lparr>tn_AssignedNodes := tn_AssignedNodes t, tn_Awaiting := tn_Awaiting t, tn_Paused := tn_Paused t\<rparr>" w w' t0]
    by (simp add: mem_kube_def mc_key_def)
qed (auto simp: mem_kube_def mc_put_def split: option.splits)



subsection \<open>Deleting a node store\<close>

text \<open>
  A deleted node store is never taken off the tenants: the delete handler queues the tenants of the store by their own names, and
  the reconcile function compares these names with the names of the assigned nodes. For every tenant of which no assigned node has the
  name of the tenant, and whose nodes have different names, it changes nothing and reports success.
\<close>

theorem nodestore_delete_keeps_assignment:
  assumes "it \<in> set (deleteEventNodestoreHandler obj)" "kb_GetTenant kb (rr_Namespace (wi_Resource it)) (rr_Name (wi_Resource it)) w = Inr t"
    and "rr_Name (wi_Resource it) \<notin> ni_Name ` set (tn_AssignedNodes t)" "distinct (map ni_Name (tn_AssignedNodes t))"
  shows "(\<exists>n. obj = ObjNodeStore n \<and> rr_Name (wi_Resource it) \<in> fst ` set (st_Tenants n)) \<and>
    reconcileNodestoreDelete kb (wi_Resource it) w = (None, w)"
proof -
  have "filter (\<lambda>ni. ni_Name ni \<noteq> rr_Name (wi_Resource it)) (tn_AssignedNodes t) = tn_AssignedNodes t"
    using assms(3) by (intro filter_True ballI) (metis image_eqI)
  moreover have "equalNodeInfosByValue (tn_AssignedNodes t) (tn_AssignedNodes t)"
    using equalNodeInfos_refl [OF assms(4)] by (simp add: equalNodeInfos_def equalNodeInfosByValue_def)
  ultimately have "reconcileNodestoreDelete kb (wi_Resource it) w = (None, w)"
    using assms(2) by (simp add: reconcileNodestoreDelete_def)
  moreover have "\<exists>n. obj = ObjNodeStore n \<and> rr_Name (wi_Resource it) \<in> fst ` set (st_Tenants n)"
    using assms(1) by (auto simp: deleteEventNodestoreHandler_def EnqueueWith_def tenant_ref_def image_iff Bex_def split: kobj.splits)
  ultimately show ?thesis by blast
qed

definition demo_infra :: "string \<Rightarrow> TenantInfra" where
  "demo_infra n = \<lparr>ti_Name = n, ti_TenantCIDR = [], ti_VTEP_NAME = [], ti_VNI = 1, ti_VTEP_IP = [], ti_VTEP_MAC = [], ti_BRIDGE_NAME = [],
     ti_BRIDGE_IP = [], ti_BRIDGE_MAC = [], ti_Pods = []\<rparr>"

theorem nodestore_delete_keeps_assignment_witness:
  "\<exists>it. deleteEventNodestoreHandler (ObjNodeStore ((demo_store ''n2'')\<lparr>st_Tenants := [(''blue'', demo_infra ''blue'')]\<rparr>)) = [it] \<and>
     ''n2'' \<in> set (map ni_Name (tn_AssignedNodes (demo_tenant 3))) \<and>
     reconcileNodestoreDelete mem_kube (wi_Resource it) \<lparr>mc_tenants = [demo_tenant 3], mc_stores = []\<rparr> =
       (None, \<lparr>mc_tenants = [demo_tenant 3], mc_stores = []\<rparr>)"
proof -
  let ?o = "ObjNodeStore ((demo_store ''n2'')\<lparr>st_Tenants := [(''blue'', demo_infra ''blue'')]\<rparr>)"
  let ?it = "\<lparr>wi_Source = SourceNodeStoreCRD, wi_Event = EventDelete, wi_Resource = tenant_ref [] ''blue''\<rparr>"
  have o: "deleteEventNodestoreHandler ?o = [?it]" by code_simp
  have g: "kb_GetTenant mem_kube (rr_Namespace (wi_Resource ?it)) (rr_Name (wi_Resource ?it)) \<lparr>mc_tenants = [demo_tenant 3], mc_stores = []\<rparr> = Inr (demo_tenant 3)"
    by code_simp
  have d: "rr_Name (wi_Resource ?it) \<notin> ni_Name ` set (tn_AssignedNodes (demo_tenant 3))" "distinct (map ni_Name (tn_AssignedNodes (demo_tenant 3)))"
    "''n2'' \<in> set (map ni_Name (tn_AssignedNodes (demo_tenant 3)))" by code_simp+
  have "?it \<in> set (deleteEventNodestoreHandler ?o)" using o by simp
  from nodestore_delete_keeps_assignment [OF this g d(1,2)] show ?thesis using o d(3) by blast
qed

end
