(* ===== verification/Resolver.thy ===== *)
theory Resolver
  imports Prelude "HOL-Library.AList"
begin

text \<open>
  The resolver of the daemon, \<open>internal/resolver\<close>: from the UID of a pod to its tenant, by the pod informer of
  client-go, whose index lookup is a function given from outside. Strings are ASCII. Of the informers the resolver starts,
  what counts is whether they came in sync before the context ended.
\<close>

subsection \<open>The string functions of Go that the component uses\<close>

definition is_space :: "char \<Rightarrow> bool" where
  "is_space c \<longleftrightarrow> c \<in> {CHR '' '', CHR 0x09, CHR 0x0A, CHR 0x0B, CHR 0x0C, CHR 0x0D}"

definition TrimSpace :: "string \<Rightarrow> string" where
  "TrimSpace s = rev (dropWhile is_space (rev (dropWhile is_space s)))"

text \<open>\<open>strings.Split\<close> and \<open>strings.SplitN(s, sep, 2)\<close> for a separator of one character.\<close>

fun split_on :: "char \<Rightarrow> string \<Rightarrow> string list" where
  "split_on c [] = [[]]"
| "split_on c (x # xs) =
     (if x = c then [] # split_on c xs
      else case split_on c xs of [] \<Rightarrow> [[x]] | p # ps \<Rightarrow> (x # p) # ps)"

definition split_first :: "char \<Rightarrow> string \<Rightarrow> string list" where
  "split_first c s =
     (if c \<in> set s then [takeWhile (\<lambda>x. x \<noteq> c) s, tl (dropWhile (\<lambda>x. x \<noteq> c) s)] else [s])"

subsection \<open>config.go, errors.go\<close>

datatype resolver_error = ErrNotReady | ErrNotIndexed | ErrNoTenantLabel | ErrEmptyTenantLabelKey | ErrUnknownTenant | ErrEmptyNodeName

fun resolver_text :: "resolver_error \<Rightarrow> string" where
  "resolver_text ErrNotReady = ''resolver not ready''"
| "resolver_text ErrNotIndexed = ''pod not indexed''"
| "resolver_text ErrNoTenantLabel = ''pod missing tenant label''"
| "resolver_text ErrEmptyTenantLabelKey = ''tenant label key cannot be empty''"
| "resolver_text ErrUnknownTenant = ''tenant unknown''"
| "resolver_text ErrEmptyNodeName = ''node name cannot be empty''"

text \<open>
  The errors that carry the pod, with \<open>Error\<close> and \<open>Unwrap\<close>; the two structures with a UID have the same text but for the error they
  wrap.
\<close>

datatype pod_error =
    UnknownTenantError string string
  | NotIndexedError string string string
  | NoTenantLabelError string string string

fun pod_error_unwrap :: "pod_error \<Rightarrow> resolver_error" where
  "pod_error_unwrap (UnknownTenantError ns pod) = ErrUnknownTenant"
| "pod_error_unwrap (NotIndexedError ns pod uid) = ErrNotIndexed"
| "pod_error_unwrap (NoTenantLabelError ns pod uid) = ErrNoTenantLabel"

definition uid_text :: "resolver_error \<Rightarrow> string \<Rightarrow> string \<Rightarrow> string \<Rightarrow> string" where
  "uid_text e ns pod uid =
     (if uid \<noteq> [] then resolver_text e @ '': '' @ ns @ ''/'' @ pod @ '' (uid='' @ uid @ '')''
      else resolver_text e @ '': '' @ ns @ ''/'' @ pod)"

fun pod_error_text :: "pod_error \<Rightarrow> string" where
  "pod_error_text (UnknownTenantError ns pod) = resolver_text ErrUnknownTenant @ '' for '' @ ns @ ''/'' @ pod"
| "pod_error_text (NotIndexedError ns pod uid) = uid_text ErrNotIndexed ns pod uid"
| "pod_error_text (NoTenantLabelError ns pod uid) = uid_text ErrNoTenantLabel ns pod uid"

record Config =
  cf_TenantLabelKey :: string
  cf_NodeName :: string
  cf_DefaultTenant :: string

definition Validate :: "Config \<Rightarrow> resolver_error option" where
  "Validate c =
     (if cf_TenantLabelKey c = [] then Some ErrEmptyTenantLabelKey
      else if cf_NodeName c = [] then Some ErrEmptyNodeName
      else None)"

definition SetDefaults :: "Config \<Rightarrow> Config" where
  "SetDefaults c =
     (let c1 = (if cf_TenantLabelKey c = [] then c\<lparr>cf_TenantLabelKey := ''setera.com/tenant''\<rparr> else c)
      in if cf_DefaultTenant c1 = [] then c1\<lparr>cf_DefaultTenant := ''default''\<rparr> else c1)"

subsection \<open>helpers.go\<close>

definition PodKey :: "string \<Rightarrow> string \<Rightarrow> string" where
  "PodKey ns pod = ns @ ''/'' @ pod"

definition parse_kv :: "string \<Rightarrow> string \<times> string \<times> string \<Rightarrow> string \<times> string \<times> string" where
  "parse_kv kv acc =
     (case acc of (ns, pod, uid) \<Rightarrow>
        if kv = [] then acc
        else (case split_first (CHR ''='') kv of
                [k, v] \<Rightarrow>
                  if k = ''K8S_POD_NAME'' then (ns, v, uid)
                  else if k = ''K8S_POD_NAMESPACE'' then (v, pod, uid)
                  else if k = ''K8S_POD_UID'' then (ns, pod, v)
                  else acc
              | _ \<Rightarrow> acc))"

definition ParseK8sArgs :: "string \<Rightarrow> string \<times> string \<times> string" where
  "ParseK8sArgs args = fold parse_kv (split_on (CHR '';'') args) ([], [], [])"

record Pod =
  pd_UID :: string
  pd_Labels :: "(string \<times> string) list"
  pd_Annotations :: "(string \<times> string) list"

definition str_of :: "(string \<times> string) list \<Rightarrow> string \<Rightarrow> string" where
  "str_of m k = (case map_of m k of None \<Rightarrow> [] | Some v \<Rightarrow> v)"

definition tenantFromLabels :: "(string \<times> string) list \<Rightarrow> string \<Rightarrow> string" where
  "tenantFromLabels lbls key = (if key = [] then [] else TrimSpace (str_of lbls key))"

definition tenant_keys :: "string \<Rightarrow> string list" where
  "tenant_keys key =
     (if key = [] then []
      else key # (case dropWhile (\<lambda>c. c \<noteq> CHR ''/'') key of _ # x # xs \<Rightarrow> [x # xs] | _ \<Rightarrow> [])) @
     [''setera.com/tenant'', ''tenant'', ''tenantId'', ''tenant-id'', ''tenant_name'']"

text \<open>The first non-blank value under one of the keys.\<close>

fun first_value :: "(string \<times> string) list \<Rightarrow> string list \<Rightarrow> string" where
  "first_value m [] = []"
| "first_value m (k # ks) = (if TrimSpace (str_of m k) \<noteq> [] then TrimSpace (str_of m k) else first_value m ks)"

definition tenantFromPod :: "Pod option \<Rightarrow> string \<Rightarrow> string" where
  "tenantFromPod p key =
     (case p of
        None \<Rightarrow> []
      | Some pod \<Rightarrow>
          let v = first_value (pd_Labels pod) (tenant_keys key) in
          if v \<noteq> [] then v else first_value (pd_Annotations pod) (tenant_keys key))"

subsection \<open>resolver.go\<close>

text \<open>The index function registered under \<open>byUID\<close>.\<close>

definition byUID :: "Pod \<Rightarrow> string list" where
  "byUID p = (if pd_UID p = [] then [] else [pd_UID p])"

text \<open>
  The result of \<open>Resolve\<close>: tenant, whether to retry, error. \<open>index\<close> is the lookup of the informer for the index function
  that was registered; the pods of the informer are never nil.
\<close>

definition Resolve ::
  "Config \<Rightarrow> bool \<Rightarrow> ((Pod \<Rightarrow> string list) \<Rightarrow> string \<Rightarrow> string + Pod list) \<Rightarrow> string \<Rightarrow> string \<times> bool \<times> resolver_error option" where
  "Resolve cfg synced index puid =
     (if \<not> synced then ([], True, Some ErrNotReady)
      else case index byUID puid of
             Inl e \<Rightarrow> ([], True, Some ErrNotReady)
           | Inr [] \<Rightarrow> ([], True, Some ErrNotReady)
           | Inr (p # _) \<Rightarrow>
               let t = str_of (pd_Annotations p) (cf_TenantLabelKey cfg)
               in (if t = [] then cf_DefaultTenant cfg else t, False, None))"

text \<open>
  The resolver and its life: \<open>add_index\<close> is the error of registering the index function with the informer, \<open>sync\<close> the result of
  waiting for the cache, false when the context ends first. The flag is what \<open>Resolve\<close> asks; \<open>StartAsync\<close> sets it in the background, so its
  second component is what the resolver becomes.
\<close>

record ResolverImpl =
  ri_cfg :: Config
  ri_podsSynced :: bool

datatype start_error = ContextCanceled

definition NewResolver :: "((Pod \<Rightarrow> string list) \<Rightarrow> string option) \<Rightarrow> Config \<Rightarrow> string + ResolverImpl" where
  "NewResolver add_index cfg =
     (case add_index byUID of
        Some e \<Rightarrow> Inl e
      | None \<Rightarrow> Inr \<lparr>ri_cfg = SetDefaults cfg, ri_podsSynced = False\<rparr>)"

definition resolver_Start :: "bool \<Rightarrow> ResolverImpl \<Rightarrow> start_error option \<times> ResolverImpl" where
  "resolver_Start sync r =
     (let r1 = r\<lparr>ri_podsSynced := sync\<rparr> in if sync then (None, r1) else (Some ContextCanceled, r1))"

definition StartAsync :: "bool \<Rightarrow> ResolverImpl \<Rightarrow> start_error option \<times> ResolverImpl" where
  "StartAsync sync r = (None, r\<lparr>ri_podsSynced := sync\<rparr>)"

definition resolver_Shutdown :: "ResolverImpl \<Rightarrow> start_error option \<times> ResolverImpl" where
  "resolver_Shutdown r = (None, r)"

definition Ready :: "ResolverImpl \<Rightarrow> bool" where
  "Ready r = ri_podsSynced r"

definition NewAndStartWithClient ::
  "((Pod \<Rightarrow> string list) \<Rightarrow> string option) \<Rightarrow> bool \<Rightarrow> Config \<Rightarrow> string + ResolverImpl \<times> ResolverImpl" where
  "NewAndStartWithClient add_index sync cfg =
     (case NewResolver add_index cfg of
        Inl e \<Rightarrow> Inl e
      | Inr r \<Rightarrow> Inr (r, snd (StartAsync sync r)))"

definition NewAndStartWithRestConfig ::
  "string + 'client \<Rightarrow> ('client \<Rightarrow> (Pod \<Rightarrow> string list) \<Rightarrow> string option) \<Rightarrow> bool \<Rightarrow> Config \<Rightarrow> string + ResolverImpl \<times> ResolverImpl" where
  "NewAndStartWithRestConfig client add_index sync cfg =
     (case client of
        Inl e \<Rightarrow> Inl e
      | Inr c \<Rightarrow> (case NewAndStartWithClient (add_index c) sync cfg of Inl e \<Rightarrow> Inl e | Inr r \<Rightarrow> Inr r))"

text \<open>snapshot.go: an atomic value that may not have been stored yet; reading it gives an empty snapshot that is not in sync.\<close>

record Snapshot =
  ss_ByUID :: "(string \<times> string) list"
  ss_Synced :: bool

definition snap_load :: "Snapshot option \<Rightarrow> Snapshot" where
  "snap_load v = (case v of None \<Rightarrow> \<lparr>ss_ByUID = [], ss_Synced = False\<rparr> | Some s \<Rightarrow> s)"

definition snap_store :: "Snapshot \<Rightarrow> Snapshot option \<Rightarrow> Snapshot option" where
  "snap_store s v = Some s"

definition cloneMap :: "(string \<times> string) list \<Rightarrow> (string \<times> string) list" where
  "cloneMap m = fold (\<lambda>(k, v) n. AList.update k v n) m []"

text \<open>What client-go documents of an index: the objects for which the index function returns the value.\<close>

locale pod_index =
  fixes index :: "(Pod \<Rightarrow> string list) \<Rightarrow> string \<Rightarrow> string + Pod list" and pods :: "Pod list"
  assumes index_eq: "index f v = Inr (filter (\<lambda>p. v \<in> set (f p)) pods)"
begin

lemma no_uid: "Resolve cfg synced index [] = ([], True, Some ErrNotReady)"
proof -
  have "filter (\<lambda>p. [] \<in> set (byUID p)) pods = []" by (simp add: filter_empty_conv byUID_def)
  then show ?thesis by (simp add: Resolve_def index_eq)
qed

lemma resolves:
  assumes "p \<in> set pods" "pd_UID p = uid" "uid \<noteq> []" "\<And>q. q \<in> set pods \<Longrightarrow> pd_UID q = uid \<Longrightarrow> q = p"
  shows "Resolve cfg True index uid =
    (if str_of (pd_Annotations p) (cf_TenantLabelKey cfg) = [] then cf_DefaultTenant cfg else str_of (pd_Annotations p) (cf_TenantLabelKey cfg),
     False, None)"
proof -
  obtain q qs where q: "filter (\<lambda>p. uid \<in> set (byUID p)) pods = q # qs"
    using assms(1-3) by (cases "filter (\<lambda>p. uid \<in> set (byUID p)) pods") (auto simp: filter_empty_conv byUID_def)
  have "q \<in> set (filter (\<lambda>p. uid \<in> set (byUID p)) pods)" unfolding q by simp
  then have "q \<in> set pods" "uid \<in> set (byUID q)" by simp_all
  then have "q = p" using assms(4) by (auto simp: byUID_def split: if_splits)
  then show ?thesis using q by (simp add: Resolve_def index_eq Let_def)
qed

end

text \<open>The index of an informer that holds a list of pods.\<close>

definition list_index :: "Pod list \<Rightarrow> (Pod \<Rightarrow> string list) \<Rightarrow> string \<Rightarrow> string + Pod list" where
  "list_index pods f v = Inr (filter (\<lambda>p. v \<in> set (f p)) pods)"

interpretation li: pod_index "list_index pods" pods for pods
  by unfold_locales (simp add: list_index_def)

subsection \<open>The life of a resolver\<close>

text \<open>A copy of a map has the same entries and is independent of the order of the original.\<close>

lemma cloneMap_fold: "map_of (fold (\<lambda>(k, v) n. AList.update k v n) m n0) = map_of n0 ++ map_of (rev m)"
  by (induction m arbitrary: n0) (auto simp: AList.update_conv' map_add_def fun_eq_iff split: option.splits)

lemma cloneMap_lookup: "distinct (map fst m) \<Longrightarrow> map_of (cloneMap m) = map_of m"
  using map_of_inject_set [of "rev m" m] by (simp add: cloneMap_def cloneMap_fold rev_map [symmetric])

lemma snap_load_store: "snap_load (snap_store s v) = s" "\<not> ss_Synced (snap_load None)"
  by (simp_all add: snap_load_def snap_store_def)

text \<open>
  A resolver answers no request before the cache of the pods is in sync: until then every answer asks for a retry. Its keys are
  never empty, whatever the configuration.
\<close>

lemma SetDefaults_nonempty: "cf_TenantLabelKey (SetDefaults c) \<noteq> []" "cf_DefaultTenant (SetDefaults c) \<noteq> []"
  by (cases "cf_TenantLabelKey c = []"; cases "cf_DefaultTenant c = []"; simp add: SetDefaults_def Let_def)+

lemma fresh_resolver:
  assumes "NewAndStartWithClient add_index sync cfg = Inr (r, r')"
  shows "Resolve (ri_cfg r) (ri_podsSynced r) index uid = ([], True, Some ErrNotReady)" "Ready r' = sync" "ri_cfg r' = ri_cfg r"
    "cf_TenantLabelKey (ri_cfg r) \<noteq> []" "cf_DefaultTenant (ri_cfg r) \<noteq> []"
  using assms SetDefaults_nonempty
  by (auto simp: NewAndStartWithClient_def NewResolver_def StartAsync_def Ready_def Resolve_def split: option.splits)

subsection \<open>The arguments of the container runtime\<close>

lemma split_on_nonempty: "split_on c xs \<noteq> []"
  by (induction xs) (auto split: list.splits)

lemma split_on_append: "c \<notin> set a \<Longrightarrow> split_on c (a @ c # b) = a # split_on c b"
  by (induction a) auto

lemma split_on_id: "c \<notin> set a \<Longrightarrow> split_on c a = [a]"
  by (induction a) auto

lemma split_first_eq: "c \<notin> set k \<Longrightarrow> split_first c (k @ c # v) = [k, v]"
  by (auto simp: split_first_def takeWhile_append dropWhile_append split: if_splits)

lemma parse_pair:
  assumes "CHR ''='' \<notin> set k" "k \<noteq> []"
  shows "parse_kv (k @ CHR ''='' # v) (ns, pod, uid) =
    (if k = ''K8S_POD_NAME'' then (ns, v, uid) else if k = ''K8S_POD_NAMESPACE'' then (v, pod, uid)
     else if k = ''K8S_POD_UID'' then (ns, pod, v) else (ns, pod, uid))"
  using split_first_eq [OF assms(1)] assms(2) by (simp add: parse_kv_def)

text \<open>
  The runtime passes \<open>K8S_POD_NAMESPACE\<close>, \<open>K8S_POD_NAME\<close> and \<open>K8S_POD_UID\<close> among other pairs; values without a semicolon, which
  may hold equals signs, are read back exactly.
\<close>

lemma ParseK8sArgs_roundtrip:
  assumes "CHR '';'' \<notin> set ns" "CHR '';'' \<notin> set pod" "CHR '';'' \<notin> set uid"
  shows "ParseK8sArgs (''IgnoreUnknown=1;K8S_POD_NAMESPACE='' @ ns @ '';K8S_POD_NAME='' @ pod @ '';K8S_POD_UID='' @ uid) = (ns, pod, uid)"
proof -
  let ?p1 = "''K8S_POD_NAMESPACE'' @ CHR ''='' # ns" and ?p2 = "''K8S_POD_NAME'' @ CHR ''='' # pod" and ?p3 = "''K8S_POD_UID'' @ CHR ''='' # uid"
  let ?p0 = "''IgnoreUnknown'' @ CHR ''='' # ''1''"
  have e: "''IgnoreUnknown=1;K8S_POD_NAMESPACE='' @ ns @ '';K8S_POD_NAME='' @ pod @ '';K8S_POD_UID='' @ uid =
    ?p0 @ CHR '';'' # ?p1 @ CHR '';'' # ?p2 @ CHR '';'' # ?p3" by simp
  have "split_on (CHR '';'') (?p0 @ CHR '';'' # ?p1 @ CHR '';'' # ?p2 @ CHR '';'' # ?p3) = [?p0, ?p1, ?p2, ?p3]"
    using split_on_append [of "CHR '';''" ?p0] split_on_append [of "CHR '';''" ?p1] split_on_append [of "CHR '';''" ?p2] split_on_id [of "CHR '';''" ?p3] assms
    by simp
  moreover have "parse_kv ?p0 ([], [], []) = ([], [], [])" "parse_kv ?p1 ([], [], []) = (ns, [], [])" "parse_kv ?p2 (ns, [], []) = (ns, pod, [])"
    "parse_kv ?p3 (ns, pod, []) = (ns, pod, uid)"
    using parse_pair [of "''IgnoreUnknown''"] parse_pair [of "''K8S_POD_NAMESPACE''"] parse_pair [of "''K8S_POD_NAME''"] parse_pair [of "''K8S_POD_UID''"] by simp_all
  ultimately show ?thesis unfolding e ParseK8sArgs_def by (simp only: fold.simps comp_apply id_apply)
qed

end
