(* ===== verification/CNI_Server.thy ===== *)
theory CNI_Server
  imports Resolver UDS_Transport NM_Demo
begin

text \<open>
  The CNI server of the daemon, \<open>internal/daemon/cniserver.go\<close>: it reads a request from the socket, resolves the tenant of the
  pod, hands the request to the router and remembers the last answer of every pod, so that a request that the runtime
  repeats is not executed twice. A request is handled as one step; the clock is read once per request, in nanoseconds.
\<close>

subsection \<open>Results and the cache\<close>

text \<open>A CNI result: the version and the interfaces and addresses that \<open>buildPodResult\<close> fills in.\<close>

record cni_result =
  cr_CNIVersion :: string
  cr_pod :: pod_result

definition zero_result :: "string \<Rightarrow> cni_result" where
  "zero_result ver = \<lparr>cr_CNIVersion = ver, cr_pod = \<lparr>pr_Interfaces = [], pr_IPs = []\<rparr>\<rparr>"

record podCacheEntry =
  ce_result :: cni_result
  ce_lastCmd :: string
  ce_idemKey :: string
  ce_updated :: int

record CNIServer =
  cs_defaultCNIVersion :: string
  cs_cache :: "string \<rightharpoonup> podCacheEntry"

text \<open>The router, and what the server is given from outside.\<close>

record 's pod_router =
  rt_ConfigurePod :: "int64 option \<Rightarrow> string \<Rightarrow> string \<Rightarrow> PodAttachArgs \<Rightarrow> ('s, nm_error, pod_result option) prog"
  rt_RemovePod :: "int64 option \<Rightarrow> string \<Rightarrow> string \<Rightarrow> PodAttachArgs \<Rightarrow> ('s, nm_error, unit) prog"

text \<open>
  \<open>cd_resolver\<close> is nil or whether the resolver is ready with its \<open>Resolve\<close>; \<open>cd_convert\<close> is \<open>GetAsVersion\<close> of the CNI library, \<open>cd_json\<close>
  is \<open>json.Marshal\<close> of a converted result, \<open>cd_text\<close> the text of an error of the router.
\<close>

record ('s, 'c) cni_deps =
  cd_resolver :: "(bool \<times> (string \<Rightarrow> string \<times> bool \<times> resolver_error option)) option"
  cd_router :: "'s pod_router option"
  cd_convert :: "cni_result \<Rightarrow> string \<Rightarrow> 'c option"
  cd_result :: "cni_result \<Rightarrow> 'c"
  cd_json :: "'c \<Rightarrow> byte list option"
  cd_text :: "nm_error \<Rightarrow> string"

definition cacheStore :: "int \<Rightarrow> string \<Rightarrow> string \<Rightarrow> string \<Rightarrow> cni_result option \<Rightarrow> CNIServer \<Rightarrow> CNIServer" where
  "cacheStore now uid cmd idemKey res srv =
     (if uid = [] then srv
      else srv\<lparr>cs_cache := (cs_cache srv)(uid \<mapsto>
        \<lparr>ce_result = (case res of None \<Rightarrow> zero_result [] | Some r \<Rightarrow> r), ce_lastCmd = cmd, ce_idemKey = idemKey, ce_updated = now\<rparr>)\<rparr>)"

definition ten_minutes :: int where "ten_minutes = 10 * 60 * 1000000000"

definition cacheGet :: "int \<Rightarrow> string \<Rightarrow> CNIServer \<Rightarrow> podCacheEntry option \<times> CNIServer" where
  "cacheGet now uid srv =
     (if uid = [] then (None, srv)
      else case cs_cache srv uid of
             None \<Rightarrow> (None, srv)
           | Some entry \<Rightarrow>
               if now - ce_updated entry > ten_minutes then (None, srv\<lparr>cs_cache := (cs_cache srv)(uid := None)\<rparr>)
               else (Some entry, srv))"

definition cacheTouch :: "int \<Rightarrow> string \<Rightarrow> CNIServer \<Rightarrow> CNIServer" where
  "cacheTouch now uid srv =
     (if uid = [] then srv
      else case cs_cache srv uid of
             None \<Rightarrow> srv
           | Some entry \<Rightarrow> srv\<lparr>cs_cache := (cs_cache srv)(uid \<mapsto> entry\<lparr>ce_updated := now\<rparr>)\<rparr>)"

definition fallbackCNIVersion :: string where "fallbackCNIVersion = ''1.1.0''"

text \<open>\<open>NewCNIServer\<close> panics on an empty socket path.\<close>

definition NewCNIServer :: "string \<Rightarrow> string \<Rightarrow> CNIServer option" where
  "NewCNIServer socketPath defaultVersion =
     (if socketPath = [] then None
      else Some \<lparr>cs_defaultCNIVersion = (if defaultVersion = [] then fallbackCNIVersion else defaultVersion), cs_cache = Map.empty\<rparr>)"

subsection \<open>Helpers\<close>

definition buildPodAttachArgs :: "Request \<Rightarrow> PodAttachArgs" where
  "buildPodAttachArgs req =
     \<lparr>pa_Namespace = PodNamespace req, pa_PodName = PodName req, pa_ContainerID = ContainerID req,
      pa_NetNS = NetNS req, pa_IfName = IfName req\<rparr>"

definition ensureResultStruct :: "string \<Rightarrow> cni_result option \<Rightarrow> cni_result" where
  "ensureResultStruct ver res =
     (case res of
        None \<Rightarrow> zero_result ver
      | Some r \<Rightarrow> if cr_CNIVersion r = [] then r\<lparr>cr_CNIVersion := ver\<rparr> else r)"

definition encodeResult :: "('s, 'c) cni_deps \<Rightarrow> CNIServer \<Rightarrow> string \<Rightarrow> cni_result option \<Rightarrow> byte list" where
  "encodeResult env srv ver res =
     (let target = (if ver = [] then cs_defaultCNIVersion srv else ver);
          r = (case res of None \<Rightarrow> zero_result target | Some x \<Rightarrow> x);
          converted = (case cd_convert env r target of None \<Rightarrow> cd_result env (zero_result target) | Some c \<Rightarrow> c)
      in case cd_json env converted of None \<Rightarrow> [123, 125] | Some data \<Rightarrow> data)"

definition resolveTenantForRequest :: "('s, 'c) cni_deps \<Rightarrow> Request \<Rightarrow> string + string" where
  "resolveTenantForRequest env req =
     (if Cmd req \<noteq> CmdADD \<and> Cmd req \<noteq> CmdCHECK \<and> Cmd req \<noteq> CmdDEL then Inr []
      else case cd_resolver env of
             None \<Rightarrow> Inl ''resolver not configured''
           | Some (ready, res) \<Rightarrow>
               if \<not> ready then Inl ''resolver pending''
               else case res (PodUID req) of
                      (_, _, Some e) \<Rightarrow> Inl (resolver_text e)
                    | (tid, pending, None) \<Rightarrow> if pending then Inl ''resolver pending'' else Inr tid)"

definition req_timeout :: "Request \<Rightarrow> int64 option" where
  "req_timeout req = (if 0 < sint (TimeoutSeconds req) then Some (TimeoutSeconds req * 1000000000) else None)"

definition mk_resp :: "bool \<Rightarrow> string \<Rightarrow> byte list \<Rightarrow> Response" where
  "mk_resp ok msg res = \<lparr>OK = ok, Code = [], Message = msg, Result = res\<rparr>"

definition handleStatusRequest :: "('s, 'c) cni_deps \<Rightarrow> CNIServer \<Rightarrow> Request \<Rightarrow> Response" where
  "handleStatusRequest env srv req = mk_resp True ''ready'' (encodeResult env srv (CNIVersion req) None)"

definition handleGCRequest :: "('s, 'c) cni_deps \<Rightarrow> CNIServer \<Rightarrow> Request \<Rightarrow> Response" where
  "handleGCRequest env srv req = mk_resp True ''gc ok'' (encodeResult env srv (CNIVersion req) None)"

subsection \<open>Requests\<close>

text \<open>An entry answers a request when it is of the same command with the same key, which must not be empty.\<close>

definition idem_hit :: "string \<Rightarrow> Request \<Rightarrow> podCacheEntry option \<Rightarrow> podCacheEntry option" where
  "idem_hit cmd req entry =
     (case entry of
        Some e \<Rightarrow> if ce_lastCmd e = cmd \<and> ce_idemKey e \<noteq> [] \<and> ce_idemKey e = IdemKey req then Some e else None
      | None \<Rightarrow> None)"

text \<open>The response, the result to store and whether to store it.\<close>

definition handleTenantCommand ::
  "('s, 'c) cni_deps \<Rightarrow> int \<Rightarrow> CNIServer \<Rightarrow> Request \<Rightarrow> string \<Rightarrow> 's \<Rightarrow> (Response \<times> cni_result option \<times> bool) \<times> CNIServer \<times> 's" where
  "handleTenantCommand env now srv req tenantID s =
     (if Cmd req = CmdADD then
        (case cacheGet now (PodUID req) srv of (entry, srv1) \<Rightarrow>
          (case idem_hit CmdADD req entry of
             Some e \<Rightarrow>
               ((mk_resp True ''add ok (cached)'' (encodeResult env srv1 (CNIVersion req) (Some (ce_result e))), None, False),
                cacheTouch now (PodUID req) srv1, s)
           | None \<Rightarrow>
               let ver = (if CNIVersion req = [] then cs_defaultCNIVersion srv else CNIVersion req);
                   (res, s1) = (case cd_router env of
                                  None \<Rightarrow> (Inr None, s)
                                | Some rt \<Rightarrow> rt_ConfigurePod rt (req_timeout req) tenantID (PodUID req) (buildPodAttachArgs req) s)
               in (case res of
                     Inl e \<Rightarrow> ((mk_resp False (''configure pod: '' @ cd_text env e) (encodeResult env srv1 ver None), None, False), srv1, s1)
                   | Inr pr \<Rightarrow>
                       let podResult = ensureResultStruct ver (map_option (\<lambda>p. \<lparr>cr_CNIVersion = [], cr_pod = p\<rparr>) pr)
                       in ((mk_resp True (''add ok for tenant:'' @ tenantID) (encodeResult env srv1 ver (Some podResult)), Some podResult, True),
                           srv1, s1))))
      else if Cmd req = CmdDEL then
        (case cacheGet now (PodUID req) srv of (entry, srv1) \<Rightarrow>
          if idem_hit CmdDEL req entry \<noteq> None
          then ((mk_resp True ''del ok (cached)'' (encodeResult env srv1 (CNIVersion req) None), None, False),
                cacheTouch now (PodUID req) srv1, s)
          else let (res, s1) = (case cd_router env of
                                  None \<Rightarrow> (Inr (), s)
                                | Some rt \<Rightarrow> rt_RemovePod rt (req_timeout req) tenantID (PodUID req) (buildPodAttachArgs req) s)
               in (case res of
                     Inl e \<Rightarrow> ((mk_resp False (''remove pod: '' @ cd_text env e) (encodeResult env srv1 (CNIVersion req) None), None, False), srv1, s1)
                   | Inr _ \<Rightarrow> ((mk_resp True ''del ok'' (encodeResult env srv1 (CNIVersion req) None), None, True), srv1, s1)))
      else if Cmd req = CmdCHECK then
        (case cacheGet now (PodUID req) srv of (entry, srv1) \<Rightarrow>
          (case entry of
             Some e \<Rightarrow>
               if ce_lastCmd e = CmdADD
               then ((mk_resp True ''check ok (cached)'' (encodeResult env srv1 (CNIVersion req) (Some (ce_result e))), None, False),
                     cacheTouch now (PodUID req) srv1, s)
               else ((mk_resp True ''check ok'' (encodeResult env srv1 (CNIVersion req) None), None, False), srv1, s)
           | None \<Rightarrow> ((mk_resp True ''check ok'' (encodeResult env srv1 (CNIVersion req) None), None, False), srv1, s)))
      else ((mk_resp False ''unknown cmd'' [], None, False), srv, s))"

text \<open>\<open>handleConn\<close> between reading the request and writing the response.\<close>

definition serve_request :: "('s, 'c) cni_deps \<Rightarrow> int \<Rightarrow> Request \<Rightarrow> CNIServer \<times> 's \<Rightarrow> Response \<times> CNIServer \<times> 's" where
  "serve_request env now req st =
     (case st of (srv, s) \<Rightarrow>
        if Cmd req = CmdSTATUS then (handleStatusRequest env srv req, srv, s)
        else if Cmd req = CmdGC then (handleGCRequest env srv req, srv, s)
        else (case resolveTenantForRequest env req of
                Inl e \<Rightarrow> (mk_resp False (''resolve tenant: '' @ e) (encodeResult env srv (CNIVersion req) None), srv, s)
              | Inr tenantID \<Rightarrow>
                  (case handleTenantCommand env now srv req tenantID s of
                     ((resp, storeRes, storeEntry), srv1, s1) \<Rightarrow>
                       (resp,
                        if OK resp \<and> storeEntry then cacheStore now (PodUID req) (Cmd req) (IdemKey req) storeRes srv1 else srv1,
                        s1))))"

text \<open>The bytes that come in and the bytes that go out; nothing when the request can not be read.\<close>

definition handleConn :: "('s, 'c) cni_deps \<Rightarrow> Codec \<Rightarrow> int \<Rightarrow> byte list \<Rightarrow> CNIServer \<times> 's \<Rightarrow> byte list \<times> CNIServer \<times> 's" where
  "handleConn env json now conn st =
     (case ReadRequest json conn zero_req of
        Inl e \<Rightarrow> ([], st)
      | Inr (hdr, req, _) \<Rightarrow>
          (case serve_request env now req st of (resp, st') \<Rightarrow>
             ((case WriteResponse json 2 (hCmd hdr) (hFlags hdr) resp of Inl _ \<Rightarrow> [] | Inr b \<Rightarrow> b), st')))"

end
