(* ===== verification/CNI_Properties.thy ===== *)
theory CNI_Properties
  imports CNI_Server
begin

text \<open>
  What the CNI server guarantees to the container runtime: a repeated request is answered from memory, requests of one pod never
  touch the memory of another, the network manager is only driven through its own operations, and why requests of
  the binary codec are refused.
\<close>

subsection \<open>The cache\<close>

lemma cacheGet_default [simp]: "cs_defaultCNIVersion (snd (cacheGet now uid srv)) = cs_defaultCNIVersion srv"
  by (simp add: cacheGet_def split: option.splits)

lemma cacheGet_other: "uid \<noteq> u \<Longrightarrow> cs_cache (snd (cacheGet now uid srv)) u = cs_cache srv u"
  by (simp add: cacheGet_def split: option.splits)

lemma cacheTouch_other: "uid \<noteq> u \<Longrightarrow> cs_cache (cacheTouch now uid srv) u = cs_cache srv u"
  "cs_defaultCNIVersion (cacheTouch now uid srv) = cs_defaultCNIVersion srv"
  by (simp_all add: cacheTouch_def split: option.splits)

lemma cacheStore_other: "uid \<noteq> u \<Longrightarrow> cs_cache (cacheStore now uid cmd k r srv) u = cs_cache srv u"
  "cs_defaultCNIVersion (cacheStore now uid cmd k r srv) = cs_defaultCNIVersion srv"
  by (simp_all add: cacheStore_def)

lemma encodeResult_default: "cs_defaultCNIVersion srv' = cs_defaultCNIVersion srv \<Longrightarrow> encodeResult env srv' v r = encodeResult env srv v r"
  by (simp add: encodeResult_def)

lemmas cache_simps = cacheGet_other cacheTouch_other cacheStore_other

lemma handle_other:
  assumes "handleTenantCommand env now srv req tid s = (x, srv', s')"
  shows "cs_defaultCNIVersion srv' = cs_defaultCNIVersion srv" "PodUID req \<noteq> u \<Longrightarrow> cs_cache srv' u = cs_cache srv u"
proof -
  obtain entry srv1 where g: "cacheGet now (PodUID req) srv = (entry, srv1)" by fastforce
  have d: "cs_defaultCNIVersion srv1 = cs_defaultCNIVersion srv" using cacheGet_default [of now "PodUID req" srv] g by simp
  have o: "PodUID req \<noteq> u \<Longrightarrow> cs_cache srv1 u = cs_cache srv u" using cacheGet_other [of "PodUID req" u now srv] g by simp
  have "srv' \<in> {srv, srv1, cacheTouch now (PodUID req) srv1}"
    using assms g by (auto simp: handleTenantCommand_def Let_def split: if_splits option.splits sum.splits prod.splits)
  then show "cs_defaultCNIVersion srv' = cs_defaultCNIVersion srv" "PodUID req \<noteq> u \<Longrightarrow> cs_cache srv' u = cs_cache srv u"
    using d o cacheTouch_other(1) [of "PodUID req" u now srv1] cacheTouch_other(2) [of now "PodUID req" srv1] by auto
qed

lemma serve_other:
  assumes "serve_request env now req (srv, s) = (resp, srv', s')"
  shows "cs_defaultCNIVersion srv' = cs_defaultCNIVersion srv" "PodUID req \<noteq> u \<Longrightarrow> cs_cache srv' u = cs_cache srv u"
proof -
  have "srv' = srv \<or> (\<exists>tid rs st srv1. handleTenantCommand env now srv req tid s = ((resp, rs, st), srv1, s') \<and>
      srv' \<in> {srv1, cacheStore now (PodUID req) (Cmd req) (IdemKey req) rs srv1})"
    using assms by (auto simp: serve_request_def split: if_splits sum.splits prod.splits)
  then have "cs_defaultCNIVersion srv' = cs_defaultCNIVersion srv \<and> (PodUID req \<noteq> u \<longrightarrow> cs_cache srv' u = cs_cache srv u)"
  proof
    assume "\<exists>tid rs st srv1. handleTenantCommand env now srv req tid s = ((resp, rs, st), srv1, s') \<and>
      srv' \<in> {srv1, cacheStore now (PodUID req) (Cmd req) (IdemKey req) rs srv1}"
    then obtain tid rs st srv1 where h: "handleTenantCommand env now srv req tid s = ((resp, rs, st), srv1, s')"
      "srv' \<in> {srv1, cacheStore now (PodUID req) (Cmd req) (IdemKey req) rs srv1}" by blast
    then show ?thesis using handle_other [OF h(1)] by (auto simp: cacheStore_other)
  qed simp
  then show "cs_defaultCNIVersion srv' = cs_defaultCNIVersion srv" "PodUID req \<noteq> u \<Longrightarrow> cs_cache srv' u = cs_cache srv u" by simp_all
qed

text \<open>A sequence of requests, each with the time of its arrival.\<close>

fun serve_all :: "('s, 'c) cni_deps \<Rightarrow> (int \<times> Request) list \<Rightarrow> CNIServer \<times> 's \<Rightarrow> CNIServer \<times> 's" where
  "serve_all env [] st = st"
| "serve_all env ((now, req) # rest) st = serve_all env rest (snd (serve_request env now req st))"

lemma serve_all_other:
  assumes "\<And>n r. (n, r) \<in> set rest \<Longrightarrow> PodUID r \<noteq> u" "serve_all env rest (srv, s) = (srv', s')"
  shows "cs_defaultCNIVersion srv' = cs_defaultCNIVersion srv \<and> cs_cache srv' u = cs_cache srv u"
  using assms
proof (induction rest arbitrary: srv s)
  case (Cons x rest)
  obtain n r where x: "x = (n, r)" by (cases x)
  obtain resp srv1 s1 where e: "serve_request env n r (srv, s) = (resp, srv1, s1)" by (metis prod_cases3)
  have "PodUID r \<noteq> u" using Cons.prems(1) [of n r] x by simp
  then have "cs_defaultCNIVersion srv1 = cs_defaultCNIVersion srv" "cs_cache srv1 u = cs_cache srv u" using serve_other [OF e] by auto
  moreover have "serve_all env rest (srv1, s1) = (srv', s')" using Cons.prems(2) x e by simp
  ultimately show ?case using Cons.IH [of srv1 s1] Cons.prems(1) by (metis list.set_intros(2))
qed simp

subsection \<open>Repeating an ADD\<close>

lemma resolve_cmd: "resolveTenantForRequest env req = Inl e \<Longrightarrow> Cmd req = CmdADD \<or> Cmd req = CmdCHECK \<or> Cmd req = CmdDEL"
  by (auto simp: resolveTenantForRequest_def split: if_splits)

text \<open>After a successful ADD the cache holds an entry of this moment that encodes to the answer.\<close>

lemma add_ok_entry:
  assumes e: "serve_request env now req (srv, s) = (resp, srv', s')" and ok: "OK resp" "Cmd req = CmdADD" "PodUID req \<noteq> []" "IdemKey req \<noteq> []"
  shows "\<exists>tid en. resolveTenantForRequest env req = Inr tid \<and> cs_cache srv' (PodUID req) = Some en \<and> ce_lastCmd en = CmdADD \<and>
    ce_idemKey en = IdemKey req \<and> ce_updated en = now \<and> Result resp = encodeResult env srv' (CNIVersion req) (Some (ce_result en))"
proof -
  have ns: "Cmd req \<noteq> CmdSTATUS" "Cmd req \<noteq> CmdGC" using ok(2) by (simp_all add: CmdADD_def CmdSTATUS_def CmdGC_def)
  obtain tid where tid: "resolveTenantForRequest env req = Inr tid"
    using e ok ns by (auto simp: serve_request_def mk_resp_def split: sum.splits)
  obtain rs st srv1 s1 where h: "handleTenantCommand env now srv req tid s = ((resp, rs, st), srv1, s1)"
    "srv' = (if OK resp \<and> st then cacheStore now (PodUID req) (Cmd req) (IdemKey req) rs srv1 else srv1)"
    using e ns tid by (auto simp: serve_request_def split: prod.splits)
  obtain entry srv0 where g: "cacheGet now (PodUID req) srv = (entry, srv0)" by fastforce
  have d0: "cs_defaultCNIVersion srv0 = cs_defaultCNIVersion srv" using cacheGet_default [of now "PodUID req" srv] g by simp
  have "\<exists>en. cs_cache srv' (PodUID req) = Some en \<and> ce_lastCmd en = CmdADD \<and>
    ce_idemKey en = IdemKey req \<and> ce_updated en = now \<and> Result resp = encodeResult env srv' (CNIVersion req) (Some (ce_result en))"
  proof (cases "idem_hit CmdADD req entry")
    case (Some en)
    have en: "entry = Some en" "ce_lastCmd en = CmdADD" "ce_idemKey en = IdemKey req"
      using Some by (auto simp: idem_hit_def split: option.splits if_splits)
    have c: "cs_cache srv0 (PodUID req) = Some en" using g en(1) ok(3) by (auto simp: cacheGet_def split: option.splits if_splits)
    have r: "resp = mk_resp True ''add ok (cached)'' (encodeResult env srv0 (CNIVersion req) (Some (ce_result en)))" "\<not> st"
      "srv1 = cacheTouch now (PodUID req) srv0"
      using h(1) ok(2) g Some by (auto simp: handleTenantCommand_def)
    have s': "srv' = cacheTouch now (PodUID req) srv0" using h(2) r(2,3) by simp
    then have "cs_cache srv' (PodUID req) = Some (en\<lparr>ce_updated := now\<rparr>)" using c ok(3) by (simp add: cacheTouch_def)
    moreover have "encodeResult env srv' (CNIVersion req) (Some (ce_result en)) = encodeResult env srv0 (CNIVersion req) (Some (ce_result en))"
      by (rule encodeResult_default) (simp add: s' cacheTouch_other(2))
    ultimately show ?thesis using en r(1) by (intro exI [of _ "en\<lparr>ce_updated := now\<rparr>"]) (simp add: mk_resp_def)
  next
    case None
    let ?ver = "if CNIVersion req = [] then cs_defaultCNIVersion srv else CNIVersion req"
    obtain res s2 where c: "(case cd_router env of None \<Rightarrow> (Inr None, s)
        | Some rt \<Rightarrow> rt_ConfigurePod rt (req_timeout req) tid (PodUID req) (buildPodAttachArgs req) s) = (res, s2)" by fastforce
    have hc: "((resp, rs, st), srv1, s1) = (case res of
        Inl e \<Rightarrow> ((mk_resp False (''configure pod: '' @ cd_text env e) (encodeResult env srv0 ?ver None), None, False), srv0, s2)
      | Inr pr \<Rightarrow>
          let podResult = ensureResultStruct ?ver (map_option (\<lambda>p. \<lparr>cr_CNIVersion = [], cr_pod = p\<rparr>) pr)
          in ((mk_resp True (''add ok for tenant:'' @ tid) (encodeResult env srv0 ?ver (Some podResult)), Some podResult, True), srv0, s2))"
      using h(1) None unfolding handleTenantCommand_def g prod.case Let_def c by (simp add: ok(2))
    obtain x where x: "res = Inr x" using hc ok(1) by (cases res) (simp_all add: mk_resp_def)
    obtain pr where pr: "resp = mk_resp True (''add ok for tenant:'' @ tid) (encodeResult env srv0 ?ver (Some pr))" "rs = Some pr" "st" "srv1 = srv0"
      using hc x by (simp add: Let_def)
    have s': "srv' = cacheStore now (PodUID req) CmdADD (IdemKey req) (Some pr) srv0" using h(2) pr ok(1,2) by simp
    then have c: "cs_cache srv' (PodUID req) = Some \<lparr>ce_result = pr, ce_lastCmd = CmdADD, ce_idemKey = IdemKey req, ce_updated = now\<rparr>"
      using ok(3) by (simp add: cacheStore_def)
    have "encodeResult env srv' (CNIVersion req) (Some pr) = encodeResult env srv0 (CNIVersion req) (Some pr)"
      by (rule encodeResult_default) (simp add: s' cacheStore_other(2))
    also have "\<dots> = encodeResult env srv0 ?ver (Some pr)" using d0 by (simp add: encodeResult_def)
    finally show ?thesis using c pr(1) by (simp add: mk_resp_def)
  qed
  then show ?thesis using tid by blast
qed

lemma add_hit:
  assumes "resolveTenantForRequest env req = Inr tid" "Cmd req = CmdADD" "PodUID req \<noteq> []" "IdemKey req \<noteq> []"
    and "cs_cache srv (PodUID req) = Some en" "ce_lastCmd en = CmdADD" "ce_idemKey en = IdemKey req" "now - ce_updated en \<le> ten_minutes"
  shows "serve_request env now req (srv, s) =
    (mk_resp True ''add ok (cached)'' (encodeResult env srv (CNIVersion req) (Some (ce_result en))), cacheTouch now (PodUID req) srv, s)"
proof -
  have ns: "Cmd req \<noteq> CmdSTATUS" "Cmd req \<noteq> CmdGC" using assms(2) by (simp_all add: CmdADD_def CmdSTATUS_def CmdGC_def)
  have g: "cacheGet now (PodUID req) srv = (Some en, srv)" using assms(3,5,8) by (simp add: cacheGet_def)
  have "idem_hit CmdADD req (Some en) = Some en" using assms(4,6,7) by (simp add: idem_hit_def)
  then have "handleTenantCommand env now srv req tid s =
    ((mk_resp True ''add ok (cached)'' (encodeResult env srv (CNIVersion req) (Some (ce_result en))), None, False), cacheTouch now (PodUID req) srv, s)"
    using assms(2) g by (simp add: handleTenantCommand_def)
  then show ?thesis using ns assms(1) by (simp add: serve_request_def)
qed

text \<open>
  C11. A repeated ADD is not executed again: when an ADD with a pod UID and an idempotency key has been answered OK, and the same request
  comes again within ten minutes, with any requests of other pods in between, the server answers OK
  with byte for byte the same CNI result and the network manager is not called at all. So the retries of the runtime do not
  take a second address.
\<close>

theorem cni_add_idempotent:
  assumes "serve_request env now req (srv, s) = (resp, srv1, s1)" "OK resp" "Cmd req = CmdADD" "PodUID req \<noteq> []" "IdemKey req \<noteq> []"
    and "\<And>n r. (n, r) \<in> set others \<Longrightarrow> PodUID r \<noteq> PodUID req" "serve_all env others (srv1, s1) = (srv2, s2)"
    and "now2 - now \<le> ten_minutes"
  shows "\<exists>resp2 srv3. serve_request env now2 req (srv2, s2) = (resp2, srv3, s2) \<and> OK resp2 \<and> Result resp2 = Result resp"
proof -
  obtain tid en where en: "resolveTenantForRequest env req = Inr tid" "cs_cache srv1 (PodUID req) = Some en" "ce_lastCmd en = CmdADD"
    "ce_idemKey en = IdemKey req" "ce_updated en = now" "Result resp = encodeResult env srv1 (CNIVersion req) (Some (ce_result en))"
    using add_ok_entry [OF assms(1-5)] by blast
  have o: "cs_defaultCNIVersion srv2 = cs_defaultCNIVersion srv1" "cs_cache srv2 (PodUID req) = Some en"
    using serve_all_other [OF assms(6,7)] en(2) by simp_all
  have "now2 - ce_updated en \<le> ten_minutes" using assms(8) en(5) by simp
  from add_hit [OF en(1) assms(3-5) o(2) en(3,4) this] show ?thesis
    using en(6) encodeResult_default [OF o(1)] by (simp add: mk_resp_def)
qed

subsection \<open>The router in front of the network manager\<close>

text \<open>What the server needs of the router: its two operations keep the invariant of the state behind it.\<close>

locale pod_service =
  fixes rt :: "'s pod_router" and inv :: "'s \<Rightarrow> bool"
  assumes configure_inv: "inv s \<Longrightarrow> inv (snd (rt_ConfigurePod rt tmo tid uid args s))"
    and remove_inv: "inv s \<Longrightarrow> inv (snd (rt_RemovePod rt tmo tid uid args s))"
begin

lemma handle_inv:
  assumes "cd_router env = Some rt" "inv s"
  shows "inv (snd (snd (handleTenantCommand env now srv req tid s)))"
proof -
  obtain x s1 where c: "rt_ConfigurePod rt (req_timeout req) tid (PodUID req) (buildPodAttachArgs req) s = (x, s1)" by fastforce
  obtain y s2 where r: "rt_RemovePod rt (req_timeout req) tid (PodUID req) (buildPodAttachArgs req) s = (y, s2)" by fastforce
  have "inv s1" "inv s2"
    using configure_inv [OF assms(2), of "req_timeout req" tid "PodUID req" "buildPodAttachArgs req"]
      remove_inv [OF assms(2), of "req_timeout req" tid "PodUID req" "buildPodAttachArgs req"] c r by simp_all
  moreover have "snd (snd (handleTenantCommand env now srv req tid s)) \<in> {s, s1, s2}"
    using assms(1) c r by (auto simp: handleTenantCommand_def Let_def split: option.splits sum.splits prod.splits)
  ultimately show ?thesis using assms(2) by auto
qed

lemma serve_inv: "cd_router env = Some rt \<Longrightarrow> inv s \<Longrightarrow> inv (snd (snd (serve_request env now req (srv, s))))"
  using handle_inv [of env s now srv req]
  by (simp add: serve_request_def split: sum.splits prod.splits) (metis snd_conv)

lemma serve_all_inv: "cd_router env = Some rt \<Longrightarrow> inv (snd st) \<Longrightarrow> inv (snd (serve_all env rest st))"
proof (induction rest arbitrary: st)
  case (Cons x rest)
  obtain n r where x: "x = (n, r)" by (cases x)
  obtain srv s where st: "st = (srv, s)" by (cases st)
  have "inv (snd (snd (serve_request env n r st)))" using serve_inv [OF Cons.prems(1)] Cons.prems(2) st by simp
  then show ?case using Cons.IH [OF Cons.prems(1), of "snd (serve_request env n r st)"] x by simp
qed simp

end

text \<open>
  The router over the network manager; \<open>w\<close> says for each call whether the message reached the mailbox and the reply came in time.
\<close>

definition nm_router :: "(int64 option \<Rightarrow> PodAttachArgs \<Rightarrow> 'k nm \<Rightarrow> delivery) \<Rightarrow> 'k deps \<Rightarrow> 'k nm pod_router" where
  "nm_router w d =
     \<lparr>rt_ConfigurePod = (\<lambda>tmo tid uid args s. router_ConfigurePod (w tmo args s) d tid args s),
      rt_RemovePod = (\<lambda>tmo tid uid args s. router_RemovePod (w tmo args s) d tid args s)\<rparr>"

lemma actor_call_reach: "nm_reach d root s \<Longrightarrow> nm_reach d root (snd (actor_call w f d tid m s))"
  using nm_next [OF _ step_message, of d root s tid m]
  by (cases w) (simp_all add: actor_call_def case_prod_beta)

interpretation nmr: pod_service "nm_router w d" "nm_reach d root" for w d root
proof unfold_locales
  fix s tmo tid uid args
  assume "nm_reach d root s"
  then show "nm_reach d root (snd (rt_ConfigurePod (nm_router w d) tmo tid uid args s))"
    "nm_reach d root (snd (rt_RemovePod (nm_router w d) tmo tid uid args s))"
    using actor_call_reach
    by (auto simp: nm_router_def router_ConfigurePod_def router_RemovePod_def actor_EnsurePod_def actor_RemovePod_def split: sum.splits)
qed

lemma cni_requests_reach:
  assumes "cd_router env = Some (nm_router w d)" "nm_reach d root s"
  shows "nm_reach d root (snd (serve_all env reqs (srv, s)))"
  using nmr.serve_all_inv [OF assms(1), of root "(srv, s)"] assms(2) by simp

subsection \<open>Requests in the binary codec\<close>

text \<open>
  Requests in the binary codec are always refused: the codec drops the UID of the pod, no pod is indexed under the empty UID, and so an
  ADD, DEL or CHECK of a binary client is answered with an error whatever the resolver knows; server and network manager stay as they
  were.
\<close>

theorem binary_requests_refused:
  assumes "pod_index index pods" "cd_resolver env = Some (synced, Resolve cfg synced index)"
    and "Cmd req = CmdADD \<or> Cmd req = CmdDEL \<or> Cmd req = CmdCHECK" "length (marshalRequest req) \<le> unat MaxPayload"
    and "h = \<lparr>Version = 1, hCmd = CommandToHeader (Cmd req), hFlags = DetectFlags BinaryCodec, hLength = word_of_nat (length (marshalRequest req))\<rparr>"
  shows "\<exists>resp out. handleConn env json now (WriteHeader h @ marshalRequest req) (srv, s) = (out, srv, s) \<and>
    WriteResponse json 2 (hCmd h) (hFlags h) resp = Inr out \<and> \<not> OK resp"
proof -
  have "unat MaxPayload < 2 ^ 64" by (simp add: MaxPayload_def)
  then have ok: "bin_ok_req req" using assms(4) by (simp add: bin_ok_req_def)
  let ?q = "bin_keeps req zero_req"
  have m: "MarshalReq BinaryCodec req = Inr (marshalRequest req)" by (simp add: BinaryCodec_def)
  have fl: "hFlags h AND FlagJSON = 0" "hFlags h AND FlagBIN \<noteq> 0" using assms(5) flag_tests by (simp_all add: DetectFlags_def BinaryCodec_def)
  have "ReadRequest BinaryCodec (WriteHeader h @ marshalRequest req) zero_req = Inr (h, ?q, [])"
    using bin.request_frame [OF ok m assms(4), of h "[]" zero_req] assms(5) by simp
  then have rr: "ReadRequest json (WriteHeader h @ marshalRequest req) zero_req = Inr (h, ?q, [])"
    using fl by (auto simp: ReadRequest_def bind_err_def split: sum.splits if_splits)
  have q: "PodUID ?q = []" "Cmd ?q = Cmd req" by (simp_all add: bin_keeps_def zero_req_def)
  have "Resolve cfg synced index [] = ([], True, Some ErrNotReady)" by (rule pod_index.no_uid [OF assms(1)])
  then have "resolveTenantForRequest env ?q = Inl (if synced then resolver_text ErrNotReady else ''resolver pending'')"
    using assms(2,3) unfolding resolveTenantForRequest_def q by auto
  then obtain e where "resolveTenantForRequest env ?q = Inl e" by blast
  moreover have "Cmd ?q \<noteq> CmdSTATUS" "Cmd ?q \<noteq> CmdGC" using q(2) assms(3) by (auto simp: CmdADD_def CmdDEL_def CmdCHECK_def CmdSTATUS_def CmdGC_def)
  ultimately have sv: "serve_request env now ?q (srv, s) =
      (mk_resp False (''resolve tenant: '' @ e) (encodeResult env srv (CNIVersion ?q) None), srv, s)" by (simp add: serve_request_def)
  obtain out where "WriteResponse json 2 (hCmd h) (hFlags h) (mk_resp False (''resolve tenant: '' @ e) (encodeResult env srv (CNIVersion ?q) None)) = Inr out"
    using fl by (auto simp: WriteResponse_def bind_err_def BinaryCodec_def Let_def)
  then show ?thesis using rr sv by (auto simp: handleConn_def mk_resp_def)
qed

subsection \<open>Witnesses\<close>

text \<open>A server with one pod of tenant \<open>blue\<close>, in front of the demonstration network manager.\<close>

definition demo_pod :: Pod where
  "demo_pod = \<lparr>pd_UID = ''u1'', pd_Labels = [], pd_Annotations = [(''setera.com/tenant'', ''blue'')]\<rparr>"

definition demo_cfg :: Config where "demo_cfg = SetDefaults \<lparr>cf_TenantLabelKey = [], cf_NodeName = ''node-1'', cf_DefaultTenant = []\<rparr>"

definition demo_cni :: "(unit nm, cni_result) cni_deps" where
  "demo_cni = \<lparr>cd_resolver = Some (True, Resolve demo_cfg True (list_index [demo_pod])),
     cd_router = Some (nm_router (\<lambda>_ _ _. Replied) demo_deps), cd_convert = (\<lambda>r v. Some (r\<lparr>cr_CNIVersion := v\<rparr>)), cd_result = (\<lambda>r. r),
     cd_json = (\<lambda>r. Some (str_bytes (cr_CNIVersion r))), cd_text = (\<lambda>_. ''error'')\<rparr>"

definition demo_srv :: CNIServer where "demo_srv = the (NewCNIServer ''/run/setera.sock'' [])"

theorem binary_requests_refused_witness:
  "\<exists>resp out. handleConn demo_cni BinaryCodec 0
      (WriteHeader \<lparr>Version = 1, hCmd = 1, hFlags = DetectFlags BinaryCodec, hLength = word_of_nat (length (marshalRequest demo_req))\<rparr> @ marshalRequest demo_req)
      (demo_srv, demo_nm2) = (out, demo_srv, demo_nm2) \<and> WriteResponse BinaryCodec 2 1 (DetectFlags BinaryCodec) resp = Inr out \<and> \<not> OK resp"
proof -
  have c: "Cmd demo_req = CmdADD" "CommandToHeader (Cmd demo_req) = 1" by code_simp+
  have "unat MaxPayload = 10485760" by (simp add: MaxPayload_def)
  then have l: "length (marshalRequest demo_req) \<le> unat MaxPayload" using demo_wire_sizes(1) by simp
  have r: "cd_resolver demo_cni = Some (True, Resolve demo_cfg True (list_index [demo_pod]))" by (simp add: demo_cni_def)
  show ?thesis
    using binary_requests_refused [OF li.pod_index_axioms r disjI1 [OF c(1)] l refl, of BinaryCodec 0 demo_srv demo_nm2] unfolding c(2) by simp
qed

definition demo_add :: Request where
  "demo_add = demo_req\<lparr>ContainerID := ''c'', NetNS := ''/netns'', PodNamespace := ''ns''\<rparr>"

lemma demo_actor: "''blue'' \<in> nm_TenantActors demo_nm2"
proof -
  let ?s1 = "snd (EnsureTenant demo_deps ''blue'' demo_nm)"
  have 1: "nm_Subnet ?s1 = demo_sm1" "nm_TenantRecords ?s1 = [''blue'' \<mapsto> demo_rec 0 1]" "''blue'' \<in> nm_TenantActors ?s1"
    using demo_EnsureTenant [of "''blue''" demo_nm demo_sm1 "demo_net 0" "demo_gw 1" "demo_im 0"]
    by (simp_all add: demo_nm_start demo_allocs demo_parts demo_rec_def)
  show ?thesis
    using demo_EnsureTenant [of "''red''" ?s1 demo_sm2 "demo_net 8" "demo_gw 9" "demo_im 8"]
    by (simp add: 1 demo_allocs demo_parts demo_rec_def demo_nm2_def)
qed

lemma demo_configure:
  "\<exists>pr s. router_ConfigurePod Replied demo_deps ''blue'' (demo_args ''p'') demo_nm2 = (Inr (Some pr), s)"
proof -
  have a: "podKey (pa_Namespace (demo_args ''p'')) (pa_PodName (demo_args ''p'')) = ''ns/p''" "pa_ContainerID (demo_args ''p'') = ''c''"
    "pa_IfName (demo_args ''p'') = ''eth0''" "pa_NetNS (demo_args ''p'') = ''/netns''" by (simp_all add: demo_args_def podKey_def)
  have r: "nm_TenantRecords demo_nm2 ''blue'' = Some (demo_rec 0 1)" by (simp add: demo_nm2(3))
  obtain y s where "EnsurePod demo_deps ''blue'' (demo_args ''p'') demo_nm2 = (Inr y, s)"
    using demo_EnsurePod [OF r, of "demo_im 0" "demo_args ''p''" "demo_im1 0 ''p''" "demo_ci 2" "demo_gw 1" "demo_net 0" "demo_net 0"] demo_veth(1)
    by (simp add: a demo_parts demo_net_def demo_gw_def demo_ci_def)
  moreover have "ensurePodWithExpansion demo_deps ''blue'' (demo_args ''p'') demo_nm2 = ensure_attempts demo_deps ''blue'' (demo_args ''p'') (Suc 1) demo_nm2"
    by (simp add: ensurePodWithExpansion_def maxRetries_def numeral_2_eq_2)
  ultimately obtain pr where "ensurePodWithExpansion demo_deps ''blue'' (demo_args ''p'') demo_nm2 = (Inr pr, s)"
    by (cases y) simp
  then show ?thesis using demo_actor r
    by (simp add: router_ConfigurePod_def GetTenantActor_def getTenantActor_def actor_EnsurePod_def actor_call_def actor_handle_def actor_state_def reply_of_def)
qed

theorem cni_add_idempotent_witness:
  "\<exists>resp srv1 s1 resp2 srv2. serve_request demo_cni 0 demo_add (demo_srv, demo_nm2) = (resp, srv1, s1) \<and> OK resp \<and>
     serve_request demo_cni 1000 demo_add (srv1, s1) = (resp2, srv2, s1) \<and> OK resp2 \<and> Result resp2 = Result resp"
proof -
  have q: "Cmd demo_add = CmdADD" "PodUID demo_add = ''u1''" "IdemKey demo_add = ''k''" "buildPodAttachArgs demo_add = demo_args ''p''"
    by (simp_all add: demo_add_def demo_req_def CmdADD_def buildPodAttachArgs_def demo_args_def)
  have t: "resolveTenantForRequest demo_cni demo_add = Inr ''blue''"
    by (simp add: resolveTenantForRequest_def q demo_cni_def Resolve_def list_index_def demo_pod_def byUID_def demo_cfg_def SetDefaults_def str_of_def)
  obtain pr s where c: "router_ConfigurePod Replied demo_deps ''blue'' (demo_args ''p'') demo_nm2 = (Inr (Some pr), s)" using demo_configure by blast
  have g: "cacheGet 0 ''u1'' demo_srv = (None, demo_srv)" by (simp add: cacheGet_def demo_srv_def NewCNIServer_def)
  have rt: "cd_router demo_cni = Some (nm_router (\<lambda>_ _ _. Replied) demo_deps)" by (simp add: demo_cni_def)
  obtain x srv1 s1 where h: "handleTenantCommand demo_cni 0 demo_srv demo_add ''blue'' demo_nm2 = (x, srv1, s1)" "OK (fst x)"
    using c unfolding handleTenantCommand_def q g rt by (simp add: idem_hit_def nm_router_def mk_resp_def Let_def)
  obtain resp rs st where x: "x = (resp, rs, st)" by (metis prod_cases3)
  have ns: "CmdADD \<noteq> CmdSTATUS" "CmdADD \<noteq> CmdGC" by (simp_all add: CmdADD_def CmdSTATUS_def CmdGC_def)
  obtain srv2 where e: "serve_request demo_cni 0 demo_add (demo_srv, demo_nm2) = (resp, srv2, s1)"
    using h(1) x t ns by (simp add: serve_request_def q)
  have "OK resp" using h(2) x by simp
  from cni_add_idempotent [OF e this q(1), of "[]" srv2 s1 1000] show ?thesis
    using e \<open>OK resp\<close> q(2,3) by (simp add: ten_minutes_def)
qed

end
