(* ===== verification/Net_Text.thy ===== *)
theory Net_Text
  imports Devices Resolver
begin

text \<open>
  The textual forms of addresses in Go's package \<open>net\<close>, as the daemons write them into the node stores and read them
  back: \<open>IP.String\<close>, \<open>IPNet.String\<close>, \<open>HardwareAddr.String\<close>, \<open>ParseIP\<close>, \<open>ParseCIDR\<close> and \<open>ParseMAC\<close>, for IPv4 and IPv6.
  Text is ASCII; an error of a parse function is \<open>None\<close>. The round trips at the end are what a remote node relies on.
\<close>

subsection \<open>Printing\<close>

fun dec :: "nat \<Rightarrow> string" where
  "dec n = (if n < 10 then [char_of (48 + n)] else dec (n div 10) @ [char_of (48 + n mod 10)])"

declare dec.simps [simp del]

fun join_with :: "char \<Rightarrow> string list \<Rightarrow> string" where
  "join_with c [] = []"
| "join_with c [x] = x"
| "join_with c (x # y # ys) = x @ c # join_with c (y # ys)"

text \<open>A group of an IPv6 address: hexadecimal without leading zeros.\<close>

definition hex16 :: "nat \<Rightarrow> string" where
  "hex16 n = (let ds = dropWhile (\<lambda>d. d = 0) [n div 4096 mod 16, n div 256 mod 16, n div 16 mod 16, n mod 16]
              in if ds = [] then ''0'' else map hex_digit ds)"

fun groups16 :: "byte list \<Rightarrow> nat list" where
  "groups16 (a # b # bs) = (unat a * 256 + unat b) # groups16 bs"
| "groups16 _ = []"

text \<open>The first longest run of at least two zero groups is written as \<open>::\<close>.\<close>

definition zero_run :: "nat list \<Rightarrow> nat \<Rightarrow> nat" where
  "zero_run gs i = length (takeWhile (\<lambda>g. g = 0) (drop i gs))"

definition longest_run :: "nat list \<Rightarrow> (nat \<times> nat) option" where
  "longest_run gs =
     fold (\<lambda>i best. let n = zero_run gs i in
             if n \<ge> 2 \<and> (case best of None \<Rightarrow> True | Some (_, m) \<Rightarrow> n > m) then Some (i, n) else best) [0..<length gs] None"

definition ip6_text :: "ip \<Rightarrow> string" where
  "ip6_text a =
     (let gs = groups16 a in
      case longest_run gs of
        None \<Rightarrow> join_with (CHR '':'') (map hex16 gs)
      | Some (i, n) \<Rightarrow> join_with (CHR '':'') (map hex16 (take i gs)) @ ''::'' @ join_with (CHR '':'') (map hex16 (drop (i + n) gs)))"

definition ip4_text :: "ip \<Rightarrow> string" where
  "ip4_text a = join_with (CHR ''.'') (map (\<lambda>b. dec (unat b)) a)"

definition ip_String :: "ip \<Rightarrow> string" where
  "ip_String a =
     (if a = [] then ''<nil>''
      else if to4 a \<noteq> [] then ip4_text (to4 a)
      else if length a = 16 then ip6_text a
      else ''?'' @ hex_encode a)"

definition ipnet_String :: "ipnet \<Rightarrow> string" where
  "ipnet_String n =
     (case network_number_and_mask n of (nn, m) \<Rightarrow>
        if nn = [] \<or> m = [] then ''<nil>''
        else if simple_mask_length m = -1 then ip_String nn @ ''/'' @ hex_encode m
        else ip_String nn @ ''/'' @ dec (nat (simple_mask_length m)))"

definition mac_String :: "hwaddr \<Rightarrow> string" where
  "mac_String m = join_with (CHR '':'') (map (\<lambda>b. hex_encode [b]) m)"

subsection \<open>Parsing\<close>

definition digit_val :: "char \<Rightarrow> nat option" where
  "digit_val c = (let n = of_char c in if 48 \<le> n \<and> n \<le> (57 :: nat) then Some (n - 48) else None)"

definition hex_val :: "char \<Rightarrow> nat option" where
  "hex_val c = (let n = of_char c :: nat in
     if 48 \<le> n \<and> n \<le> 57 then Some (n - 48)
     else if 97 \<le> n \<and> n \<le> 102 then Some (n - 87)
     else if 65 \<le> n \<and> n \<le> 70 then Some (n - 55) else None)"

definition digits :: "nat \<Rightarrow> nat list \<Rightarrow> nat" where
  "digits base ds = fold (\<lambda>d acc. acc * base + d) ds 0"

text \<open>One field of a dotted address: no leading zero, at most 255.\<close>

definition parse_octet :: "string \<Rightarrow> byte option" where
  "parse_octet s =
     (case those (map digit_val s) of
        None \<Rightarrow> None
      | Some ds \<Rightarrow> if ds = [] \<or> (length ds > 1 \<and> hd ds = 0) \<or> digits 10 ds > 255 then None
                    else Some (word_of_nat (digits 10 ds)))"

definition parse_ip4 :: "string \<Rightarrow> ip option" where
  "parse_ip4 s = (let fs = split_on (CHR ''.'') s in if length fs \<noteq> 4 then None else those (map parse_octet fs))"

text \<open>
  The groups of an IPv6 address: \<open>acc\<close> are the bytes read so far and \<open>ell\<close> the position of \<open>::\<close> among them. A dotted
  address may stand for the last four bytes.
\<close>

definition hex_prefix :: "string \<Rightarrow> nat list" where
  "hex_prefix s = map (the \<circ> hex_val) (takeWhile (\<lambda>c. hex_val c \<noteq> None) s)"

fun parse_groups :: "nat \<Rightarrow> ip \<Rightarrow> nat option \<Rightarrow> string \<Rightarrow> (ip \<times> nat option) option" where
  "parse_groups 0 acc ell s = (if s = [] then Some (acc, ell) else None)"
| "parse_groups (Suc f) acc ell s =
     (let ds = hex_prefix s; rest = drop (length ds) s; n = digits 16 ds in
      if ds = [] \<or> length ds > 4 then None
      else if rest \<noteq> [] \<and> hd rest = CHR ''.'' then
        (if (ell = None \<and> length acc \<noteq> 12) \<or> length acc + 4 > 16 then None
         else case parse_ip4 s of None \<Rightarrow> None | Some b \<Rightarrow> Some (acc @ b, ell))
      else let acc' = acc @ [word_of_nat (n div 256), word_of_nat (n mod 256)] in
        (case rest of
           [] \<Rightarrow> Some (acc', ell)
         | c # r \<Rightarrow>
             if c \<noteq> CHR '':'' \<or> r = [] then None
             else if hd r = CHR '':'' then
               (if ell \<noteq> None then None
                else if tl r = [] then Some (acc', Some (length acc')) else parse_groups f acc' (Some (length acc')) (tl r))
             else parse_groups f acc' ell r))"

definition parse_ip6 :: "string \<Rightarrow> ip option" where
  "parse_ip6 s =
     (let lead = (take 2 s = ''::''); s' = (if lead then drop 2 s else s) in
      if lead \<and> s' = [] then Some (replicate 16 0)
      else case parse_groups 8 [] (if lead then Some 0 else None) s' of
             None \<Rightarrow> None
           | Some (b, ell) \<Rightarrow>
               (if length b < 16
                then (case ell of None \<Rightarrow> None | Some e \<Rightarrow> Some (take e b @ replicate (16 - length b) 0 @ drop e b))
                else if ell \<noteq> None then None else Some b))"

text \<open>
  \<open>netip.ParseAddr\<close> for addresses without a zone: the first dot or colon tells the family. The result is the address in
  its 16-byte form and its width.
\<close>

definition parse_addr :: "string \<Rightarrow> (ip \<times> int) option" where
  "parse_addr s =
     (case dropWhile (\<lambda>c. c \<notin> {CHR ''.'', CHR '':'', CHR ''%''}) s of
        [] \<Rightarrow> None
      | c # _ \<Rightarrow>
          if c = CHR ''.'' then map_option (\<lambda>a. (to16 a, 32)) (parse_ip4 s)
          else if c = CHR '':'' then map_option (\<lambda>a. (a, 128)) (parse_ip6 s)
          else None)"

text \<open>\<open>net.ParseIP\<close>; nil is the empty list.\<close>

definition ParseIP :: "string \<Rightarrow> ip" where
  "ParseIP s = (case parse_addr s of None \<Rightarrow> [] | Some (a, _) \<Rightarrow> a)"

definition ParseCIDR :: "string \<Rightarrow> (ip \<times> ipnet) option" where
  "ParseCIDR s =
     (case split_first (CHR ''/'') s of
        [adr, msk] \<Rightarrow>
          (case (parse_addr adr, those (map digit_val msk)) of
             (Some (a, w), Some ds) \<Rightarrow>
               if ds = [] \<or> digits 10 ds \<ge> 0xFFFFFF \<or> int (digits 10 ds) > w then None
               else let m = cidr_mask (int (digits 10 ds)) w in Some (a, \<lparr>net_ip = mask_ip a m, net_mask = m\<rparr>)
           | _ \<Rightarrow> None)
      | _ \<Rightarrow> None)"

definition xtoi2 :: "string \<Rightarrow> byte option" where
  "xtoi2 s = (case map hex_val s of [Some a, Some b] \<Rightarrow> Some (word_of_nat (a * 16 + b)) | _ \<Rightarrow> None)"

text \<open>\<open>net.ParseMAC\<close>: pairs of digits with colons or hyphens, or groups of four with dots.\<close>

definition ParseMAC :: "string \<Rightarrow> hwaddr option" where
  "ParseMAC s =
     (if length s < 14 then None
      else let c = (if s ! 2 = CHR '':'' \<or> s ! 2 = CHR ''-'' then s ! 2 else CHR ''.'');
               bs = (if c = CHR ''.'' then concat (map (\<lambda>g. if length g = 4 then [take 2 g, drop 2 g] else [[]]) (split_on c s)) else split_on c s)
           in if length bs \<in> {6, 8, 20} then those (map xtoi2 bs) else None)"

subsection \<open>Round trips\<close>

lemma split_join: "xs \<noteq> [] \<Longrightarrow> \<forall>x\<in>set xs. c \<notin> set x \<Longrightarrow> split_on c (join_with c xs) = xs"
  by (induction c xs rule: join_with.induct) (simp_all add: split_on_id split_on_append)

lemma those_map_Some: "\<forall>x\<in>set xs. f x \<noteq> None \<Longrightarrow> those (map f xs) = Some (map (the \<circ> f) xs)"
  by (induction xs) auto

lemma digits_snoc: "digits b (xs @ [d]) = digits b xs * b + d"
  by (simp add: digits_def)

lemma digit_val_char: "d < 10 \<Longrightarrow> digit_val (char_of (48 + d)) = Some d"
  by (simp add: digit_val_def Let_def)

text \<open>Decimal text: its digits, their value, and that only zero starts with a zero.\<close>

lemma dec_digit: "\<forall>c\<in>set (dec n). digit_val c \<noteq> None"
  by (induction n rule: dec.induct) (subst dec.simps, auto simp: digit_val_char)

lemma dec_nonempty: "dec n \<noteq> []"
  by (subst dec.simps) simp

lemma dec_value: "digits 10 (map (the \<circ> digit_val) (dec n)) = n"
proof (induction n rule: dec.induct)
  case (1 n)
  show ?case
  proof (cases "n < 10")
    case True
    then show ?thesis by (subst dec.simps) (simp add: digits_def digit_val_char)
  next
    case False
    then have "dec n = dec (n div 10) @ [char_of (48 + n mod 10)]" by (subst dec.simps) simp
    then show ?thesis using 1 [OF False] digit_val_char [of "n mod 10"] by (simp add: digits_snoc)
  qed
qed

lemma dec_head: "0 < n \<Longrightarrow> digit_val (hd (dec n)) \<noteq> Some 0"
proof (induction n rule: dec.induct)
  case (1 n)
  show ?case
  proof (cases "n < 10")
    case True
    then show ?thesis using 1(2) by (subst dec.simps) (simp add: digit_val_char)
  next
    case False
    then have "dec n = dec (n div 10) @ [char_of (48 + n mod 10)]" "0 < n div 10"
      by (subst dec.simps, simp) (use False in \<open>simp add: div_greater_zero_iff\<close>)
    then show ?thesis using 1(1) [OF False] dec_nonempty by simp
  qed
qed

lemma those_dec: "those (map digit_val (dec n)) = Some (map (the \<circ> digit_val) (dec n))"
  by (rule those_map_Some [OF dec_digit])

lemma parse_octet_dec: "n < 256 \<Longrightarrow> parse_octet (dec n) = Some (word_of_nat n)"
proof -
  assume n: "n < 256"
  have "\<not> (length (dec n) > 1 \<and> the (digit_val (hd (dec n))) = 0)"
  proof (cases "n = 0")
    case True
    then show ?thesis by (subst dec.simps) simp
  next
    case False
    then obtain d where "digit_val (hd (dec n)) = Some d" "d \<noteq> 0"
      using dec_head [of n] dec_digit [of n] dec_nonempty [of n] by (metis hd_in_set neq0_conv not_None_eq)
    then show ?thesis by simp
  qed
  then show ?thesis using n dec_nonempty [of n]
    by (auto simp: parse_octet_def those_dec dec_value [unfolded comp_def] dec_value hd_map)
qed

lemma digit_no_sep: "digit_val c \<noteq> None \<Longrightarrow> c \<notin> {CHR ''.'', CHR '':'', CHR ''%'', CHR ''/''}"
  by (auto simp: digit_val_def)

lemma dec_no_sep: "c \<in> {CHR ''.'', CHR '':'', CHR ''%'', CHR ''/''} \<Longrightarrow> c \<notin> set (dec n)"
  using dec_digit [of n] digit_no_sep by blast

lemma unat_byte: "unat (b :: byte) < 256"
  using unsigned_less [of b] by simp

lemma byte_of_unat: "word_of_nat (unat (b :: byte)) = b"
  by simp

lemma parse_ip4_text: "length a = 4 \<Longrightarrow> parse_ip4 (ip4_text a) = Some a"
proof -
  assume l: "length a = 4"
  then obtain w x y z where a: "a = [w, x, y, z]" by (auto simp: numeral_eq_Suc length_Suc_conv)
  have "split_on (CHR ''.'') (ip4_text a) = map (\<lambda>b. dec (unat b)) a"
    unfolding ip4_text_def using a dec_no_sep [of "CHR ''.''"] by (intro split_join) auto
  then show ?thesis using l by (simp add: parse_ip4_def a parse_octet_dec [OF unat_byte])
qed

lemma ip4_text_form: "length a = 4 \<Longrightarrow> \<exists>x y. ip4_text a = x @ CHR ''.'' # y \<and> (\<forall>c\<in>set x. digit_val c \<noteq> None)"
proof -
  assume "length a = 4"
  then obtain w x y z where a: "a = [w, x, y, z]" by (auto simp: numeral_eq_Suc length_Suc_conv)
  show ?thesis
    using dec_digit [of "unat w"] unfolding a ip4_text_def
    by (intro exI [of _ "dec (unat w)"] exI [of _ "join_with (CHR ''.'') [dec (unat x), dec (unat y), dec (unat z)]"]) simp
qed

lemma parse_addr_text: "length a = 4 \<Longrightarrow> parse_addr (ip4_text a) = Some (to16 a, 32)"
proof -
  assume l: "length a = 4"
  obtain x y where t: "ip4_text a = x @ CHR ''.'' # y" "\<forall>c\<in>set x. digit_val c \<noteq> None" using ip4_text_form [OF l] by blast
  have "dropWhile (\<lambda>c. c \<notin> {CHR ''.'', CHR '':'', CHR ''%''}) (ip4_text a) = CHR ''.'' # y"
    using t(2) digit_no_sep unfolding t(1) by (subst dropWhile_append2) auto
  then show ?thesis using parse_ip4_text [OF l] by (simp add: parse_addr_def)
qed

lemma ip_String_4: "length a = 4 \<Longrightarrow> ip_String a = ip4_text a"
  by (auto simp: ip_String_def)

lemma ParseIP_String [simp]: "length a = 4 \<Longrightarrow> ParseIP (ip_String a) = to16 a"
  by (simp add: ParseIP_def ip_String_4 parse_addr_text)

lemma ip_equal_to16: "length a = 4 \<Longrightarrow> ip_equal (to16 a) a"
  by (simp add: ip_equal_def to16_def v4InV6Prefix_def)

lemma to16_nonempty: "length a = 4 \<Longrightarrow> to16 a \<noteq> []"
  by (auto simp: to16_def)

lemma ip4_text_no_slash: "length a = 4 \<Longrightarrow> CHR ''/'' \<notin> set (ip4_text a)"
proof -
  assume "length a = 4"
  then obtain w x y z where a: "a = [w, x, y, z]" by (auto simp: numeral_eq_Suc length_Suc_conv)
  show ?thesis using dec_no_sep [of "CHR ''/''"] by (simp add: a ip4_text_def)
qed

lemma mask_ip_to16: "length a = 4 \<Longrightarrow> length m = 4 \<Longrightarrow> mask_ip (to16 a) m = mask_ip a m"
  by (simp add: mask_ip_def to16_def v4InV6Prefix_def Let_def)

lemma ParseCIDR_String:
  assumes "net_pfx n bs"
  shows "ParseCIDR (ipnet_String n) = Some (to16 (net_ip n), n)"
proof -
  note d = net_pfxD [OF assms]
  have nn: "network_number_and_mask n = (net_ip n, net_mask n)" using d by (auto simp: network_number_and_mask_def Let_def)
  have sm: "simple_mask_length (net_mask n) = int (length bs)" using d(5) by (auto simp: mask_size_def split: if_splits)
  have "net_ip n \<noteq> []" "net_mask n \<noteq> []" using d(2,6) by auto
  then have s: "ipnet_String n = ip4_text (net_ip n) @ CHR ''/'' # dec (length bs)"
    by (simp add: ipnet_String_def nn sm ip_String_4 [OF d(2)])
  define ds where "ds = map (the \<circ> digit_val) (dec (length bs))"
  have ds: "those (map digit_val (dec (length bs))) = Some ds" "digits 10 ds = length bs" "ds \<noteq> []"
    unfolding ds_def using those_dec dec_value dec_nonempty by simp_all
  have "mask_ip (to16 (net_ip n)) (net_mask n) = net_ip n" using mask_ip_to16 d(2,6) mask_ip_own [OF assms] by simp
  then show ?thesis
    using split_first_eq [OF ip4_text_no_slash [OF d(2)], of "dec (length bs)"] ds d(1)
    unfolding ParseCIDR_def s by (simp add: parse_addr_text [OF d(2)] Let_def flip: d(4))
qed

lemma hex_val_digit: "d < 16 \<Longrightarrow> hex_val (hex_digit d) = Some d"
  by (auto simp: hex_val_def hex_digit_def Let_def)

lemma hex_byte: "xtoi2 (hex_encode [b]) = Some b" "CHR '':'' \<notin> set (hex_encode [b])" "length (hex_encode [b]) = 2"
proof -
  have l: "unat b div 16 < 16" "unat b mod 16 < 16" using unat_byte [of b] by simp_all
  show "xtoi2 (hex_encode [b]) = Some b" by (simp add: xtoi2_def hex_encode_def hex_val_digit l)
  have "hex_val (CHR '':'') = None" by (simp add: hex_val_def)
  then show "CHR '':'' \<notin> set (hex_encode [b])"
    using hex_val_digit [OF l(1)] hex_val_digit [OF l(2)] by (auto simp: hex_encode_def)
qed simp

lemma ParseMAC_String: "length m = 6 \<Longrightarrow> ParseMAC (mac_String m) = Some m"
proof -
  assume "length m = 6"
  then obtain a b c d e f where m: "m = [a, b, c, d, e, f]" by (auto simp: numeral_eq_Suc length_Suc_conv)
  have sp: "split_on (CHR '':'') (mac_String m) = map (\<lambda>b. hex_encode [b]) m"
    unfolding mac_String_def using hex_byte(2) m by (intro split_join) auto
  have t: "mac_String m ! 2 = CHR '':''" "length (mac_String m) = 17"
    using hex_byte(3) by (simp_all add: m mac_String_def nth_append)
  show ?thesis unfolding ParseMAC_def t Let_def using sp by (simp add: m hex_byte(1))
qed

lemma length_mac_String: "length m = 6 \<Longrightarrow> length (mac_String m) = 17"
proof -
  assume "length m = 6"
  then obtain a b c d e f where "m = [a, b, c, d, e, f]" by (auto simp: numeral_eq_Suc length_Suc_conv)
  then show ?thesis by (simp add: mac_String_def)
qed

end
