(* ===== verification/Daemon_Operator.thy ===== *)
theory Daemon_Operator
  imports Dispatcher Orchestrator Net_Text
begin

text \<open>
  The operator of the daemon on each node, \<open>internal/daemon\<close>: it turns tenants and remote node stores into commands for the
  dispatcher, and mirrors the network manager into the node store of its own node. The world \<open>'w\<close> holds the cluster, the
  dispatcher and the network manager; the operator reaches them through the functions of the record \<open>daemon\<close>. A call through a nil
  interface is the error \<open>NilPointer\<close>. The sources and the events have the same values as in the orchestrator.
\<close>

subsection \<open>operator.go, const.go\<close>

definition SourceNetworkManager :: string where "SourceNetworkManager = ''nm:network-manager''"
definition nodestoreFinalizer :: string where "nodestoreFinalizer = ''setera.com/nodestore-finalizer''"
definition TenantLabelKey :: string where "TenantLabelKey = ''setera.com.tenant''"

datatype daemon_error =
    ApiErr string | NilPointer | SnapshotErr nm_error | LocalSnapshotEmpty | RemoteStatusEmpty string
  | MissingCIDR string | BadCIDR | BadVtepIP | BadNodeIP | BadMAC

text \<open>The calls of \<open>NodestoreOps\<close> that the operator makes. A snapshot lists the tenants in the order of \<open>range\<close>.\<close>

record 'w nodestore_ops =
  no_SnapshotAll :: "'w \<Rightarrow> nm_error + (string \<times> TenantInfraSnapshot) list"
  no_EnsurePeer :: "string \<Rightarrow> RemoteTenantInfra \<Rightarrow> ('w, nm_error, unit) prog"
  no_RemovePeer :: "string \<Rightarrow> RemoteTenantInfra \<Rightarrow> ('w, nm_error, unit) prog"

text \<open>
  \<open>dm_dp\<close> is the send of the dispatcher behind the adapter, which returns when the command has been accepted; \<open>dm_GetNodeStore\<close> asks
  the API server and the other two reads ask the caches of the informers.
\<close>

record 'w daemon =
  dm_nodeName :: string
  dm_GetTenant :: "string \<Rightarrow> string \<Rightarrow> 'w \<Rightarrow> string + Tenant"
  dm_CachedNodeStore :: "string \<Rightarrow> string \<Rightarrow> 'w \<Rightarrow> string + NodeStore"
  dm_GetNodeStore :: "string \<Rightarrow> 'w \<Rightarrow> string + NodeStore"
  dm_Patch :: "string \<Rightarrow> string list \<Rightarrow> 'w \<Rightarrow> string option \<times> 'w"
  dm_UpdateStatus :: "NodeStore \<Rightarrow> 'w \<Rightarrow> string option \<times> 'w"
  dm_PatchNodeLabel :: "string \<Rightarrow> string \<Rightarrow> string \<Rightarrow> 'w \<Rightarrow> string option \<times> 'w"
  dm_dp :: "(Command \<Rightarrow> 'w \<Rightarrow> 'w) option"
  dm_nmOps :: "'w nodestore_ops option"

definition SetNodeName :: "string \<Rightarrow> 'w daemon \<Rightarrow> 'w daemon" where
  "SetNodeName name o' = o'\<lparr>dm_nodeName := name\<rparr>"

definition SetNMOps :: "'w nodestore_ops \<Rightarrow> 'w daemon \<Rightarrow> 'w daemon" where
  "SetNMOps nm o' = o'\<lparr>dm_nmOps := Some nm\<rparr>"

text \<open>What the adapter sends of a command it may have built.\<close>

definition dp_send :: "(Command \<Rightarrow> 'w \<Rightarrow> 'w) \<Rightarrow> Command option \<Rightarrow> 'w \<Rightarrow> 'w" where
  "dp_send f c w = (case c of None \<Rightarrow> w | Some cmd \<Rightarrow> f cmd w)"

definition ensurePeer :: "'w daemon \<Rightarrow> string \<Rightarrow> RemoteTenantInfra \<Rightarrow> 'w \<Rightarrow> 'w" where
  "ensurePeer o' tid remote w =
     (if tid = [] then w
      else case dm_dp o' of
             Some f \<Rightarrow> dp_send f (dp_EnsurePeer True remote tid) w
           | None \<Rightarrow> (case dm_nmOps o' of None \<Rightarrow> w | Some nm \<Rightarrow> snd (no_EnsurePeer nm tid remote w)))"

definition removePeer :: "'w daemon \<Rightarrow> string \<Rightarrow> RemoteTenantInfra \<Rightarrow> 'w \<Rightarrow> 'w" where
  "removePeer o' tid remote w =
     (if tid = [] then w
      else case dm_dp o' of
             Some f \<Rightarrow> dp_send f (dp_RemovePeer True remote tid) w
           | None \<Rightarrow> (case dm_nmOps o' of None \<Rightarrow> w | Some nm \<Rightarrow> snd (no_RemovePeer nm tid remote w)))"

subsection \<open>nodestore.go\<close>

definition ensureNodestoreFinalizer :: "'w daemon \<Rightarrow> NodeStore \<Rightarrow> 'w \<Rightarrow> daemon_error option \<times> 'w" where
  "ensureNodestoreFinalizer o' ns w =
     (let m = st_Meta ns in
      if nodestoreFinalizer \<in> set (om_Finalizers m) then (None, w)
      else case dm_Patch o' (om_Name m) (om_Finalizers m @ [nodestoreFinalizer]) w of
             (Some e, w') \<Rightarrow> (Some (ApiErr e), w')
           | (None, w') \<Rightarrow> (None, w'))"

subsection \<open>pkg/k8s/kube.go: StoreTenantLabel\<close>

definition StoreTenantLabel :: "'w daemon \<Rightarrow> string \<Rightarrow> string \<Rightarrow> string \<Rightarrow> 'w \<Rightarrow> string option \<times> 'w" where
  "StoreTenantLabel o' labelKey nodeName tenant w =
     dm_PatchNodeLabel o' nodeName (labelKey @ ''.'' @ tenant) ''Enabled'' w"

subsection \<open>reconcile\_nm\_source.go\<close>

text \<open>What both mirror functions write of one snapshot. A nil slice is the empty list.\<close>

definition text_of :: "('a list \<Rightarrow> string) \<Rightarrow> 'a list \<Rightarrow> string" where
  "text_of f a = (if a = [] then [] else f a)"

definition mirror_tenant :: "string \<Rightarrow> TenantInfraSnapshot \<Rightarrow> TenantInfra" where
  "mirror_tenant tenant snap =
     \<lparr>ti_Name = tenant,
      ti_TenantCIDR = (case sn_Subnet snap of None \<Rightarrow> [] | Some n \<Rightarrow> ipnet_String n),
      ti_VTEP_NAME = sn_VTEPDev snap, ti_VNI = uint (sn_VNI snap),
      ti_VTEP_IP = text_of ip_String (sn_VTEPIP snap), ti_VTEP_MAC = text_of mac_String (sn_VTEPMAC snap),
      ti_BRIDGE_NAME = sn_Bridge snap, ti_BRIDGE_IP = text_of ip_String (sn_BridgeIP snap),
      ti_BRIDGE_MAC = text_of mac_String (sn_BridgeMAC snap),
      ti_Pods = map (\<lambda>p. \<lparr>pi_Name = tp_Name p, pi_IP = text_of ip_String (tp_IP p)\<rparr>) (sn_Pods snap)\<rparr>"

definition mirror_tenants :: "(string \<times> TenantInfraSnapshot) list \<Rightarrow> (string \<times> TenantInfra) list" where
  "mirror_tenants snaps = map (\<lambda>(t, snap). (t, mirror_tenant t snap)) snaps"

definition reconcileNodestoreTenantAdd :: "'w daemon \<Rightarrow> ResourceRef \<Rightarrow> 'w \<Rightarrow> daemon_error option \<times> 'w" where
  "reconcileNodestoreTenantAdd o' ref w = (None, w)"

text \<open>The guard at the start only logs, so without the network manager the function runs into the nil interface.\<close>

definition reconcileNodestoreTenantUpdate :: "'w daemon \<Rightarrow> ResourceRef \<Rightarrow> 'w \<Rightarrow> daemon_error option \<times> 'w" where
  "reconcileNodestoreTenantUpdate o' ref w =
     (case dm_GetNodeStore o' (dm_nodeName o') w of
        Inl _ \<Rightarrow> (None, w)
      | Inr ns \<Rightarrow>
          (case dm_nmOps o' of
             None \<Rightarrow> (Some NilPointer, w)
           | Some nm \<Rightarrow>
               (case no_SnapshotAll nm w of
                  Inl _ \<Rightarrow> (None, w)
                | Inr snaps \<Rightarrow>
                    let newTenants = mirror_tenants snaps;
                        w1 = fold (\<lambda>(t, _) w. snd (StoreTenantLabel o' TenantLabelKey (dm_nodeName o') t w)) newTenants w
                    in (case dm_UpdateStatus o' (ns\<lparr>st_Tenants := newTenants\<rparr>) w1 of
                          (Some e, w2) \<Rightarrow> (Some (ApiErr e), w2)
                        | (None, w2) \<Rightarrow> (None, w2)))))"

definition reconcileNodestoreTenantDelete :: "'w daemon \<Rightarrow> ResourceRef \<Rightarrow> 'w \<Rightarrow> daemon_error option \<times> 'w" where
  "reconcileNodestoreTenantDelete o' ref w =
     (case dm_nmOps o' of
        None \<Rightarrow> (None, w)
      | Some nm \<Rightarrow>
          if dm_nodeName o' = [] then (None, w)
          else case dm_GetNodeStore o' (dm_nodeName o') w of
                 Inl _ \<Rightarrow> (None, w)
               | Inr ns \<Rightarrow>
                   (case no_SnapshotAll nm w of
                      Inl _ \<Rightarrow> (None, w)
                    | Inr snaps \<Rightarrow> (None, snd (dm_UpdateStatus o' (ns\<lparr>st_Tenants := mirror_tenants snaps\<rparr>) w))))"

subsection \<open>reconcile\_nodestore\_source.go\<close>

definition reconcileNodeStoreAdd :: "'w daemon \<Rightarrow> ResourceRef \<Rightarrow> 'w \<Rightarrow> daemon_error option \<times> 'w" where
  "reconcileNodeStoreAdd o' ref w =
     (case dm_CachedNodeStore o' (rr_Namespace ref) (rr_Name ref) w of
        Inl e \<Rightarrow> (Some (ApiErr e), w)
      | Inr ns \<Rightarrow> ensureNodestoreFinalizer o' ns w)"

definition buildRemoteTenantInfra :: "NodeStore \<Rightarrow> TenantInfra \<Rightarrow> daemon_error + RemoteTenantInfra" where
  "buildRemoteTenantInfra ns info =
     (if ti_TenantCIDR info = [] then Inl (MissingCIDR (ti_Name info))
      else case ParseCIDR (ti_TenantCIDR info) of
             None \<Rightarrow> Inl BadCIDR
           | Some (_, subnet) \<Rightarrow>
               let vtepIP = ParseIP (ti_VTEP_IP info); nodeIP = ParseIP (st_NodeIP ns) in
               if vtepIP = [] then Inl BadVtepIP
               else if nodeIP = [] then Inl BadNodeIP
               else case ParseMAC (ti_VTEP_MAC info) of
                      None \<Rightarrow> Inl BadMAC
                    | Some mac \<Rightarrow>
                        Inr \<lparr>re_NodeName = st_Name ns, re_NodeIP = nodeIP, re_VTEPIP = vtepIP, re_VTEPMAC = mac,
                             re_Subnet = Some subnet, re_VNI = word_of_int (ti_VNI info)\<rparr>)"

text \<open>The loop over the tenants of the remote node, which stops at the first entry that can not be read.\<close>

fun peers_loop :: "'w daemon \<Rightarrow> NodeStore \<Rightarrow> (string \<times> TenantInfraSnapshot) list \<Rightarrow> (string \<times> TenantInfra) list \<Rightarrow>
    'w \<Rightarrow> daemon_error option \<times> 'w" where
  "peers_loop o' ns localSnaps [] w = (None, w)"
| "peers_loop o' ns localSnaps ((tid, info) # ts) w =
     (case buildRemoteTenantInfra ns info of
        Inl e \<Rightarrow> (Some e, w)
      | Inr remote \<Rightarrow> peers_loop o' ns localSnaps ts (if map_of localSnaps tid \<noteq> None then ensurePeer o' tid remote w else w))"

definition reconcileNodeStoreUpdate :: "'w daemon \<Rightarrow> ResourceRef \<Rightarrow> 'w \<Rightarrow> daemon_error option \<times> 'w" where
  "reconcileNodeStoreUpdate o' ref w =
     (case dm_nmOps o' of
        None \<Rightarrow> (None, w)
      | Some nm \<Rightarrow>
          (case dm_CachedNodeStore o' (rr_Namespace ref) (rr_Name ref) w of
             Inl e \<Rightarrow> (Some (ApiErr e), w)
           | Inr ns \<Rightarrow>
               if st_Name ns = dm_nodeName o' then (None, w)
               else case no_SnapshotAll nm w of
                      Inl e \<Rightarrow> (Some (SnapshotErr e), w)
                    | Inr localSnaps \<Rightarrow>
                        if localSnaps = [] then (Some LocalSnapshotEmpty, w)
                        else if st_Tenants ns = [] then (Some (RemoteStatusEmpty (st_Name ns)), w)
                        else case peers_loop o' ns localSnaps (st_Tenants ns) w of
                               (Some e, w1) \<Rightarrow> (Some e, w1)
                             | (None, w1) \<Rightarrow>
                                 (None, fold (\<lambda>(tid, _) w. if map_of (st_Tenants ns) tid = None
                                                             then removePeer o' tid (zero_remote\<lparr>re_NodeName := st_Name ns\<rparr>) w
                                                             else w) localSnaps w1)))"

definition reconcileNodeStoreDelete :: "'w daemon \<Rightarrow> ResourceRef \<Rightarrow> 'w \<Rightarrow> daemon_error option \<times> 'w" where
  "reconcileNodeStoreDelete o' ref w = (None, w)"

subsection \<open>reconcile\_tenant\_source.go\<close>

definition reconcileTenantSourceAdd :: "'w daemon \<Rightarrow> ResourceRef \<Rightarrow> 'w \<Rightarrow> daemon_error option \<times> 'w" where
  "reconcileTenantSourceAdd o' ref w =
     (None, case dm_dp o' of None \<Rightarrow> w | Some f \<Rightarrow> dp_send f (dp_EnsureTenant True (rr_Namespace ref) (rr_Name ref)) w)"

definition tenantAwaitingContains :: "Tenant option \<Rightarrow> string \<Rightarrow> bool" where
  "tenantAwaitingContains t node = (case t of None \<Rightarrow> False | Some t \<Rightarrow> list_ex (\<lambda>n. n = node) (tn_Awaiting t))"

definition tenantAssignedContains :: "Tenant option \<Rightarrow> string \<Rightarrow> bool" where
  "tenantAssignedContains t node = (case t of None \<Rightarrow> False | Some t \<Rightarrow> list_ex (\<lambda>n. ni_Name n = node) (tn_AssignedNodes t))"

text \<open>
  The proxies for a tenant that this node does not serve. The MAC address is the text of the status converted byte by
  byte, as \<open>net.HardwareAddr(s)\<close> does; address and VNI of the node stay zero.
\<close>

definition proxy_remote :: "NodeInfo \<Rightarrow> ipnet \<Rightarrow> RemoteTenantInfra" where
  "proxy_remote ni subnet = zero_remote\<lparr>re_NodeName := ni_Name ni, re_VTEPIP := ParseIP (ni_VtepIP ni),
     re_VTEPMAC := str_bytes (ni_VtepMAC ni), re_Subnet := Some subnet\<rparr>"

fun proxy_loop :: "'w daemon \<Rightarrow> string \<Rightarrow> NodeInfo list \<Rightarrow> 'w \<Rightarrow> daemon_error option \<times> 'w" where
  "proxy_loop o' tid [] w = (None, w)"
| "proxy_loop o' tid (ni # nis) w =
     (if ni_Name ni = dm_nodeName o' then proxy_loop o' tid nis w
      else case ParseCIDR (ni_TenantCIDR ni) of
             None \<Rightarrow> proxy_loop o' tid nis w
           | Some (_, subnet) \<Rightarrow>
               (case dm_dp o' of
                  None \<Rightarrow> (Some NilPointer, w)
                | Some f \<Rightarrow> proxy_loop o' tid nis (dp_send f (dp_EnsureDefaultProxy True tid (proxy_remote ni subnet)) w)))"

definition reconcileTenantSourceUpdate :: "'w daemon \<Rightarrow> ResourceRef \<Rightarrow> 'w \<Rightarrow> daemon_error option \<times> 'w" where
  "reconcileTenantSourceUpdate o' ref w =
     (case dm_GetTenant o' (rr_Namespace ref) (rr_Name ref) w of
        Inl e \<Rightarrow> (Some (ApiErr e), w)
      | Inr tenant \<Rightarrow>
          let nodeName = dm_nodeName o' in
          if nodeName = [] then (None, w)
          else if tenantAssignedContains (Some tenant) nodeName then (None, w)
          else if tenantAwaitingContains (Some tenant) nodeName
          then (None, case dm_dp o' of None \<Rightarrow> w | Some f \<Rightarrow> dp_send f (dp_EnsureTenant True (rr_Namespace ref) (rr_Name ref)) w)
          else proxy_loop o' (rr_Name ref) (tn_AssignedNodes tenant) w)"

definition reconcileTenantDelete_daemon :: "'w daemon \<Rightarrow> ResourceRef \<Rightarrow> 'w \<Rightarrow> daemon_error option \<times> 'w" where
  "reconcileTenantDelete_daemon o' ref w =
     (None, case dm_dp o' of None \<Rightarrow> w | Some f \<Rightarrow> dp_send f (dp_RemoveTenant True (rr_Namespace ref) (rr_Name ref)) w)"

subsection \<open>The event handlers\<close>

text \<open>\<open>env\<close> is the value of the environment variable \<open>NODE_NAME\<close>.\<close>

definition addEventTenantHandler_daemon :: "string \<Rightarrow> kobj \<Rightarrow> WorkItem list" where
  "addEventTenantHandler_daemon env obj =
     (case as_tenant obj of
        None \<Rightarrow> []
      | Some t \<Rightarrow>
          if env \<noteq> [] \<and> tenantAwaitingContains (Some t) env
          then EnqueueWith SourceTenantCRD EventAdd (tenant_ref (om_Namespace (tn_Meta t)) (om_Name (tn_Meta t))) else [])"

definition updateEventTenantHandler_daemon :: "kobj \<Rightarrow> kobj \<Rightarrow> WorkItem list" where
  "updateEventTenantHandler_daemon oldObj newObj =
     (case as_tenant newObj of
        None \<Rightarrow> []
      | Some t \<Rightarrow> EnqueueWith SourceTenantCRD EventUpdate (tenant_ref (om_Namespace (tn_Meta t)) (om_Name (tn_Meta t))))"

definition deleteEventTenantHandler_daemon :: "kobj \<Rightarrow> WorkItem list" where
  "deleteEventTenantHandler_daemon obj =
     (case as_tenant obj of
        None \<Rightarrow> []
      | Some t \<Rightarrow> EnqueueWith SourceTenantCRD EventDelete (tenant_ref (om_Namespace (tn_Meta t)) (om_Name (tn_Meta t))))"

definition addNodestoreEventHandler :: "string \<Rightarrow> kobj \<Rightarrow> WorkItem list" where
  "addNodestoreEventHandler nodeName obj =
     (case obj of
        ObjNodeStore n \<Rightarrow> EnqueueObjectWith SourceNodeStoreCRD (if st_Name n = nodeName then EventAdd else EventUpdate) obj
      | _ \<Rightarrow> [])"

definition equalTenantInfraForPeers :: "(string \<times> TenantInfra) list \<Rightarrow> (string \<times> TenantInfra) list \<Rightarrow> bool" where
  "equalTenantInfraForPeers a b \<longleftrightarrow>
     length a = length b \<and>
     list_all (\<lambda>(t, old). case map_of b t of
        None \<Rightarrow> False
      | Some new \<Rightarrow> ti_TenantCIDR old = ti_TenantCIDR new \<and> ti_VNI old = ti_VNI new \<and> ti_VTEP_NAME old = ti_VTEP_NAME new \<and>
          ti_VTEP_IP old = ti_VTEP_IP new \<and> ti_VTEP_MAC old = ti_VTEP_MAC new \<and> ti_BRIDGE_NAME old = ti_BRIDGE_NAME new \<and>
          ti_BRIDGE_IP old = ti_BRIDGE_IP new \<and> ti_BRIDGE_MAC old = ti_BRIDGE_MAC new) a"

definition updateNodestoreEventHandler :: "string \<Rightarrow> kobj \<Rightarrow> kobj \<Rightarrow> WorkItem list" where
  "updateNodestoreEventHandler nodeName oldObj newObj =
     (case (as_nodestore oldObj, as_nodestore newObj) of
        (Some old, Some new) \<Rightarrow>
          if st_Name new = nodeName \<or> equalTenantInfraForPeers (st_Tenants old) (st_Tenants new) then []
          else EnqueueObjectWith SourceNodeStoreCRD EventUpdate (ObjNodeStore new)
      | _ \<Rightarrow> [])"

definition deleteEventNodestoretHandler :: "kobj \<Rightarrow> WorkItem list" where
  "deleteEventNodestoretHandler obj = []"

subsection \<open>operator.go: the router\<close>

definition daemon_reconcile :: "('w daemon \<Rightarrow> ResourceRef \<Rightarrow> 'w \<Rightarrow> daemon_error option \<times> 'w) \<Rightarrow> 'w daemon \<Rightarrow> ('w, daemon_error) reconcile_func" where
  "daemon_reconcile f o' src res w = (case f o' res w of (e, w') \<Rightarrow> (map_option OpError e, w'))"

definition daemon_router :: "'w daemon \<Rightarrow> ('w, daemon_error) Router" where
  "daemon_router o' = NewRouter ''daemon''
     [(SourceTenantCRD, [(EventAdd, Some (daemon_reconcile reconcileTenantSourceAdd o')),
                         (EventUpdate, Some (daemon_reconcile reconcileTenantSourceUpdate o')),
                         (EventDelete, Some (daemon_reconcile reconcileTenantDelete_daemon o'))]),
      (SourceNodeStoreCRD, [(EventAdd, Some (daemon_reconcile reconcileNodeStoreAdd o')),
                            (EventUpdate, Some (daemon_reconcile reconcileNodeStoreUpdate o')),
                            (EventDelete, Some (daemon_reconcile reconcileNodeStoreDelete o'))]),
      (SourceNetworkManager, [(EventAdd, Some (daemon_reconcile reconcileNodestoreTenantAdd o')),
                              (EventUpdate, Some (daemon_reconcile reconcileNodestoreTenantUpdate o')),
                              (EventDelete, Some (daemon_reconcile reconcileNodestoreTenantDelete o'))])] None"

end
