(* ===== verification/Daemon_Properties.thy ===== *)
theory Daemon_Properties
  imports Daemon_Operator Orchestrator_Properties
begin

text \<open>
  What the daemons of two nodes agree on: the node store that one writes from its network manager is read back by the
  others without loss, and gives exactly the peer commands that the two sets of tenants ask for.
\<close>

subsection \<open>The mirror\<close>

text \<open>The interface of the cluster that the mirror relies on: labels do not touch node stores, and a written status is read back.\<close>

locale nodestore_api =
  fixes o' :: "'w daemon"
  assumes label_get: "dm_GetNodeStore o' n (snd (dm_PatchNodeLabel o' m k v w)) = dm_GetNodeStore o' n w"
    and status_get: "dm_GetNodeStore o' (om_Name (st_Meta st)) w = Inr st0 \<Longrightarrow> dm_UpdateStatus o' st w = (None, w') \<Longrightarrow>
      \<exists>m. dm_GetNodeStore o' (om_Name (st_Meta st)) w' = Inr (st0\<lparr>st_Meta := m, st_Tenants := st_Tenants st\<rparr>)"
    and get_name: "dm_GetNodeStore o' n w = Inr st \<Longrightarrow> om_Name (st_Meta st) = n"
begin

lemma labels_get: "dm_GetNodeStore o' n (fold (\<lambda>(t, _) w. snd (StoreTenantLabel o' k m t w)) ts w) = dm_GetNodeStore o' n w"
  by (induction ts arbitrary: w) (auto simp: StoreTenantLabel_def label_get)

lemma mirror_written:
  assumes "dm_nmOps o' = Some nm" "dm_GetNodeStore o' (dm_nodeName o') w = Inr ns" "no_SnapshotAll nm w = Inr snaps"
    and "reconcileNodestoreTenantUpdate o' ref w = (None, w')"
  shows "\<exists>m. dm_GetNodeStore o' (dm_nodeName o') w' = Inr (ns\<lparr>st_Meta := m, st_Tenants := mirror_tenants snaps\<rparr>)"
proof -
  let ?w1 = "fold (\<lambda>(t, _) w. snd (StoreTenantLabel o' TenantLabelKey (dm_nodeName o') t w)) (mirror_tenants snaps) w"
  obtain x w2 where u: "dm_UpdateStatus o' (ns\<lparr>st_Tenants := mirror_tenants snaps\<rparr>) ?w1 = (x, w2)" by fastforce
  then have "x = None" "w2 = w'" using assms by (cases x; simp add: reconcileNodestoreTenantUpdate_def Let_def)+
  moreover have "dm_GetNodeStore o' (dm_nodeName o') ?w1 = Inr ns" by (rule trans [OF labels_get assms(2)])
  ultimately show ?thesis
    using status_get [of "ns\<lparr>st_Tenants := mirror_tenants snaps\<rparr>" ?w1 ns w'] u get_name [OF assms(2)] by simp
qed

end

subsection \<open>Reading a mirror\<close>

definition vtep_ready :: "TenantInfraSnapshot \<Rightarrow> bool" where
  "vtep_ready sn \<longleftrightarrow> length (sn_VTEPIP sn) = 4 \<and> length (sn_VTEPMAC sn) = 6"

text \<open>The peer that a node with the given name and address is for its tenants: the addresses come back in their 16-byte form.\<close>

definition peer_of :: "string \<Rightarrow> ip \<Rightarrow> TenantInfraSnapshot \<Rightarrow> RemoteTenantInfra" where
  "peer_of node a sn = \<lparr>re_NodeName = node, re_NodeIP = to16 a, re_VTEPIP = to16 (sn_VTEPIP sn), re_VTEPMAC = sn_VTEPMAC sn,
     re_Subnet = sn_Subnet sn, re_VNI = sn_VNI sn\<rparr>"

lemma ipnet_String_nonempty: "ipnet_String n \<noteq> []"
  by (auto simp: ipnet_String_def split: prod.splits)

lemma buildRemote_mirror:
  assumes "sn_Subnet sn = Some n" "net_pfx n bs" "vtep_ready sn" "st_NodeIP ns = ip_String a" "length a = 4"
  shows "buildRemoteTenantInfra ns (mirror_tenant t sn) = Inr (peer_of (st_Name ns) a sn)"
proof -
  have v: "length (sn_VTEPIP sn) = 4" "length (sn_VTEPMAC sn) = 6" using assms(3) by (simp_all add: vtep_ready_def)
  then have "sn_VTEPIP sn \<noteq> []" "sn_VTEPMAC sn \<noteq> []" by auto
  then show ?thesis
    using assms(1,4,5) v ParseCIDR_String [OF assms(2)] ParseMAC_String [OF v(2)] to16_nonempty ipnet_String_nonempty
    by (simp add: buildRemoteTenantInfra_def mirror_tenant_def text_of_def peer_of_def Let_def)
qed

lemma ip_equal_refl: "ip_equal a a"
  by (simp add: ip_equal_def)

lemma peer_of_equal:
  assumes "vtep_ready sn" "length a = 4"
  shows "remotePeersEqual (peer_of node a sn) \<lparr>re_NodeName = node, re_NodeIP = a, re_VTEPIP = sn_VTEPIP sn,
    re_VTEPMAC = sn_VTEPMAC sn, re_Subnet = sn_Subnet sn, re_VNI = sn_VNI sn\<rparr>"
  using assms ip_equal_to16 to16_nonempty ip_equal_refl
  by (auto simp: remotePeersEqual_def peer_of_def vtep_ready_def cidrEqual_def ipEqual_def macEqual_def split: option.splits)

subsection \<open>The snapshots of the network manager\<close>

text \<open>The snapshots in the order in which \<open>range\<close> visits the tenants.\<close>

definition nm_snapshots :: "string list \<Rightarrow> 'k nm \<Rightarrow> (string \<times> TenantInfraSnapshot) list" where
  "nm_snapshots ord s = List.map_filter (\<lambda>t. map_option (Pair t) (SnapshotAllTenantInfra s t)) ord"

text \<open>What a mirror needs of the network manager: tenants have names and canonical IPv4 subnets.\<close>

locale snapshot_source =
  fixes snaps :: "'s \<Rightarrow> (string \<times> TenantInfraSnapshot) list" and inv :: "'s \<Rightarrow> bool"
  assumes snap_subnet: "inv s \<Longrightarrow> (t, sn) \<in> set (snaps s) \<Longrightarrow> \<exists>n bs. sn_Subnet sn = Some n \<and> net_pfx n bs"
    and snap_name: "inv s \<Longrightarrow> (t, sn) \<in> set (snaps s) \<Longrightarrow> t \<noteq> []"
begin

lemma entry_read:
  assumes "inv s" "(t, sn) \<in> set (snaps s)" "vtep_ready sn" "st_NodeIP ns = ip_String a" "length a = 4"
  shows "buildRemoteTenantInfra ns (mirror_tenant t sn) = Inr (peer_of (st_Name ns) a sn)"
  using snap_subnet [OF assms(1,2)] buildRemote_mirror assms(3-5) by blast

end

lemma buildTenantSnapshot_Subnet: "buildTenantSnapshot r = Inr sn \<Longrightarrow> sn_Subnet sn = rec_Subnet r"
  by (auto simp: buildTenantSnapshot_def Let_def split: option.splits)

lemma nm_snapshots_mem:
  assumes "(t, sn) \<in> set (nm_snapshots ord s)"
  shows "\<exists>r. nm_TenantRecords s t = Some r \<and> buildTenantSnapshot r = Inr sn"
  using assms by (auto simp: nm_snapshots_def List.map_filter_def SnapshotAllTenantInfra_def split: option.splits sum.splits)

interpretation nmsrc: snapshot_source "nm_snapshots ord" "nm_inv rt" for ord rt
proof
  fix s :: "'a nm" and t sn
  assume i: "nm_inv rt s" "(t, sn) \<in> set (nm_snapshots ord s)"
  obtain r where r: "nm_TenantRecords s t = Some r" "buildTenantSnapshot r = Inr sn" using nm_snapshots_mem [OF i(2)] by blast
  then have ok: "rec_ok (nm_Subnet s) t r" using i(1) by (simp add: nm_inv_def)
  then obtain im n bs where "rec_Subnet r = Some n" "ipam_inv im n bs" by (auto simp: rec_ok_def)
  then show "\<exists>n bs. sn_Subnet sn = Some n \<and> net_pfx n bs"
    using buildTenantSnapshot_Subnet [OF r(2)] by (auto simp: ipam_inv_def pod_net_def)
  show "t \<noteq> []" using ok by (simp add: rec_ok_def)
qed

subsection \<open>The commands of a synchronisation\<close>

definition ensure_cmds :: "string \<Rightarrow> ip \<Rightarrow> (string \<times> TenantInfraSnapshot) list \<Rightarrow> (string \<times> TenantInfraSnapshot) list \<Rightarrow> Command list" where
  "ensure_cmds node a localSnaps snaps =
     map (\<lambda>(t, sn). \<lparr>cm_TenantID = t, cm_Op = OpEnsurePeer, cm_OpID = [], cm_Remote = peer_of node a sn\<rparr>)
       (filter (\<lambda>(t, sn). t \<in> fst ` set localSnaps) snaps)"

definition remove_cmds :: "string \<Rightarrow> (string \<times> TenantInfraSnapshot) list \<Rightarrow> (string \<times> TenantInfraSnapshot) list \<Rightarrow> Command list" where
  "remove_cmds node localSnaps snaps =
     map (\<lambda>(t, sn). \<lparr>cm_TenantID = t, cm_Op = OpRemovePeer, cm_OpID = [], cm_Remote = zero_remote\<lparr>re_NodeName := node\<rparr>\<rparr>)
       (filter (\<lambda>(t, sn). t \<notin> fst ` set snaps) localSnaps)"

lemma map_of_mirror: "map_of (mirror_tenants snaps) t = None \<longleftrightarrow> t \<notin> fst ` set snaps"
  by (force simp: mirror_tenants_def map_of_eq_None_iff image_iff)

lemma dp_send_peer:
  assumes "dm_dp o' = Some f" "t \<noteq> []"
  shows "ensurePeer o' t r w = f \<lparr>cm_TenantID = t, cm_Op = OpEnsurePeer, cm_OpID = [], cm_Remote = r\<rparr> w"
    "removePeer o' t r w = f \<lparr>cm_TenantID = t, cm_Op = OpRemovePeer, cm_OpID = [], cm_Remote = r\<rparr> w"
  using assms
  by (simp_all add: ensurePeer_def removePeer_def dp_send_def dp_EnsurePeer_def dp_RemovePeer_def mk_command_def)

lemma peers_loop_mirror:
  assumes "dm_dp o' = Some f"
    and "\<forall>(t, sn) \<in> set snaps. t \<noteq> [] \<and> buildRemoteTenantInfra ns (mirror_tenant t sn) = Inr (peer_of (st_Name ns) a sn)"
  shows "peers_loop o' ns localSnaps (mirror_tenants snaps) w = (None, fold f (ensure_cmds (st_Name ns) a localSnaps snaps) w)"
  using assms(2)
proof (induction snaps arbitrary: w)
  case Nil
  then show ?case by (simp add: mirror_tenants_def ensure_cmds_def)
next
  case (Cons p snaps)
  obtain t sn where p: "p = (t, sn)" by fastforce
  have l: "map_of localSnaps t \<noteq> None \<longleftrightarrow> t \<in> fst ` set localSnaps" by (force simp: map_of_eq_None_iff)
  show ?case
    using Cons.IH Cons.prems dp_send_peer(1) [OF assms(1), of t] l
    unfolding p by (simp add: mirror_tenants_def ensure_cmds_def)
qed

lemma removes_fold:
  assumes "dm_dp o' = Some f" "[] \<notin> fst ` set localSnaps"
  shows "fold (\<lambda>(tid, _) w. if map_of (mirror_tenants snaps) tid = None then removePeer o' tid (zero_remote\<lparr>re_NodeName := node\<rparr>) w else w)
      localSnaps w = fold f (remove_cmds node localSnaps snaps) w"
  using assms(2)
proof (induction localSnaps arbitrary: w)
  case Nil
  then show ?case by (simp add: remove_cmds_def)
next
  case (Cons p ls)
  obtain t sn where p: "p = (t, sn)" by fastforce
  have "t \<noteq> []" using Cons.prems by (auto simp: p)
  then show ?case
    using Cons.IH [of w] Cons.IH Cons.prems dp_send_peer(2) [OF assms(1), of t] map_of_mirror [of snaps t]
    unfolding p by (simp add: remove_cmds_def)
qed


subsection \<open>A cluster in memory\<close>

record daemon_world =
  dw_stores :: "NodeStore list"
  dw_log :: "Command list"

definition dw_get :: "string \<Rightarrow> daemon_world \<Rightarrow> string + NodeStore" where
  "dw_get n w = (case find (\<lambda>st. om_Name (st_Meta st) = n) (dw_stores w) of None \<Rightarrow> Inl ''not found'' | Some st \<Rightarrow> Inr st)"

definition dw_put :: "(NodeStore \<Rightarrow> NodeStore) \<Rightarrow> string \<Rightarrow> daemon_world \<Rightarrow> string option \<times> daemon_world" where
  "dw_put f n w = (None, w\<lparr>dw_stores := map (\<lambda>st. if om_Name (st_Meta st) = n then f st else st) (dw_stores w)\<rparr>)"

definition mem_daemon :: "string \<Rightarrow> (string \<times> TenantInfraSnapshot) list \<Rightarrow> daemon_world daemon" where
  "mem_daemon name snaps = \<lparr>dm_nodeName = name, dm_GetTenant = (\<lambda>_ _ _. Inl ''not found''), dm_CachedNodeStore = (\<lambda>_. dw_get),
     dm_GetNodeStore = dw_get, dm_Patch = (\<lambda>n fs. dw_put (\<lambda>st. st\<lparr>st_Meta := (st_Meta st)\<lparr>om_Finalizers := fs\<rparr>\<rparr>) n),
     dm_UpdateStatus = (\<lambda>st. dw_put (\<lambda>st0. st0\<lparr>st_Tenants := st_Tenants st\<rparr>) (om_Name (st_Meta st))),
     dm_PatchNodeLabel = (\<lambda>_ _ _ w. (None, w)), dm_dp = Some (\<lambda>c w. w\<lparr>dw_log := dw_log w @ [c]\<rparr>),
     dm_nmOps = Some \<lparr>no_SnapshotAll = (\<lambda>w. Inr snaps), no_EnsurePeer = (\<lambda>_ _ w. (Inr (), w)), no_RemovePeer = (\<lambda>_ _ w. (Inr (), w))\<rparr>\<rparr>"

lemma find_map_upd:
  assumes "\<And>st. k (f st) = k st" "find (\<lambda>st. k st = n) xs = Some x"
  shows "find (\<lambda>st. k st = n) (map (\<lambda>st. if k st = n then f st else st) xs) = Some (f x)"
  using assms(2) by (induction xs) (auto simp: assms(1) split: if_splits)

interpretation md: nodestore_api "mem_daemon name snaps" for name snaps
proof
  fix st st0 :: NodeStore and w w'
  let ?n = "om_Name (st_Meta st)" and ?f = "\<lambda>st0. st0\<lparr>st_Tenants := st_Tenants st\<rparr>"
  assume a: "dm_GetNodeStore (mem_daemon name snaps) ?n w = Inr st0" "dm_UpdateStatus (mem_daemon name snaps) st w = (None, w')"
  then have "find (\<lambda>x. om_Name (st_Meta x) = ?n) (dw_stores w) = Some st0" by (simp add: mem_daemon_def dw_get_def split: option.splits)
  from find_map_upd [OF _ this, of ?f] have "dm_GetNodeStore (mem_daemon name snaps) ?n w' = Inr (?f st0)"
    using a(2) by (auto simp: mem_daemon_def dw_get_def dw_put_def)
  then show "\<exists>m. dm_GetNodeStore (mem_daemon name snaps) ?n w' = Inr (st0\<lparr>st_Meta := m, st_Tenants := st_Tenants st\<rparr>)"
    by (intro exI [of _ "st_Meta st0"]) simp
qed (auto simp: mem_daemon_def dw_get_def find_Some_iff split: option.splits)

definition demo_snap :: "byte \<Rightarrow> byte \<Rightarrow> TenantInfraSnapshot" where
  "demo_snap b g = projr (buildTenantSnapshot (demo_rec b g))"

lemma demo_snaps:
  "nm_snapshots [''blue'', ''red''] demo_nm2 = [(''blue'', demo_snap 0 1), (''red'', demo_snap 8 9)]"
  "vtep_ready (demo_snap 0 1)" "vtep_ready (demo_snap 8 9)"
proof -
  have "is_ok (buildTenantSnapshot (demo_rec 0 1))" "is_ok (buildTenantSnapshot (demo_rec 8 9))" by code_simp+
  then have "buildTenantSnapshot (demo_rec 0 1) = Inr (demo_snap 0 1)" "buildTenantSnapshot (demo_rec 8 9) = Inr (demo_snap 8 9)"
    unfolding demo_snap_def by (metis is_ok_iff sum.sel(2))+
  then show "nm_snapshots [''blue'', ''red''] demo_nm2 = [(''blue'', demo_snap 0 1), (''red'', demo_snap 8 9)]"
    by (simp add: nm_snapshots_def List.map_filter_def SnapshotAllTenantInfra_def demo_nm2(3))
  show "vtep_ready (demo_snap 0 1)" "vtep_ready (demo_snap 8 9)" by code_simp+
qed

definition demo_world :: daemon_world where
  "demo_world = \<lparr>dw_stores = [(demo_store ''n1'')\<lparr>st_NodeIP := ''192.168.0.7''\<rparr>], dw_log = []\<rparr>"


subsection \<open>The proxies of tenants without this node\<close>

lemma proxy_loop_cmds:
  assumes "dm_dp o' = Some f" "tid \<noteq> []" "\<forall>ni\<in>set nis. ni_Name ni \<noteq> dm_nodeName o'"
  shows "proxy_loop o' tid nis w = (None, fold f (List.map_filter (\<lambda>ni. map_option (\<lambda>(_, n).
      \<lparr>cm_TenantID = tid, cm_Op = OpEnsureDefaultProxy, cm_OpID = [], cm_Remote = proxy_remote ni n\<rparr>) (ParseCIDR (ni_TenantCIDR ni))) nis) w)"
  using assms
  by (induction nis arbitrary: w)
    (auto simp: List.map_filter_simps dp_send_def dp_EnsureDefaultProxy_def mk_command_def split: option.splits)

text \<open>
  The proxies for the tenants of other nodes carry no usable MAC address: for a tenant that the node neither serves nor is to
  serve, the daemon sends one command for each assigned node whose subnet can be read, but takes the text of the MAC
  address for the address. So wherever the status holds a MAC address, the command holds 17 bytes
  instead of six, and no address of the node and no VNI.
\<close>

theorem default_proxy_mac_is_text:
  assumes "dm_GetTenant o' (rr_Namespace ref) (rr_Name ref) w = Inr t" "dm_dp o' = Some f" "dm_nodeName o' \<noteq> []" "rr_Name ref \<noteq> []"
    and "dm_nodeName o' \<notin> ni_Name ` set (tn_AssignedNodes t)" "dm_nodeName o' \<notin> set (tn_Awaiting t)"
    and "\<forall>ni\<in>set (tn_AssignedNodes t). \<exists>m. ni_VtepMAC ni = mac_String m \<and> length m = 6"
  shows "\<exists>cmds. reconcileTenantSourceUpdate o' ref w = (None, fold f cmds w) \<and>
    map (\<lambda>c. re_NodeName (cm_Remote c)) cmds = map ni_Name (filter (\<lambda>ni. ParseCIDR (ni_TenantCIDR ni) \<noteq> None) (tn_AssignedNodes t)) \<and>
    (\<forall>c\<in>set cmds. cm_TenantID c = rr_Name ref \<and> cm_Op c = OpEnsureDefaultProxy \<and>
       length (re_VTEPMAC (cm_Remote c)) = 17 \<and> re_NodeIP (cm_Remote c) = [] \<and> re_VNI (cm_Remote c) = 0)"
proof -
  let ?g = "\<lambda>ni. map_option (\<lambda>(_, n). \<lparr>cm_TenantID = rr_Name ref, cm_Op = OpEnsureDefaultProxy, cm_OpID = [], cm_Remote = proxy_remote ni n\<rparr>)
      (ParseCIDR (ni_TenantCIDR ni))"
  let ?nis = "tn_AssignedNodes t"
  have r: "reconcileTenantSourceUpdate o' ref w = (None, fold f (List.map_filter ?g ?nis) w)"
  proof -
    have a: "\<forall>ni\<in>set ?nis. ni_Name ni \<noteq> dm_nodeName o'" using assms(5) by force
    then show ?thesis
      using assms(1,3,6) proxy_loop_cmds [OF assms(2,4) a, of w]
      by (auto simp: reconcileTenantSourceUpdate_def tenantAssignedContains_def tenantAwaitingContains_def list_ex_iff Let_def)
  qed
  have n: "map (\<lambda>c. re_NodeName (cm_Remote c)) (List.map_filter ?g nis) = map ni_Name (filter (\<lambda>ni. ParseCIDR (ni_TenantCIDR ni) \<noteq> None) nis)" for nis
    by (induction nis) (auto simp: List.map_filter_simps proxy_remote_def split: option.splits)
  have l: "length (str_bytes (ni_VtepMAC ni)) = 17" if "ni \<in> set ?nis" for ni
    using assms(7) that length_mac_String by (auto simp: str_bytes_def)
  have "\<forall>c\<in>set (List.map_filter ?g ?nis). cm_TenantID c = rr_Name ref \<and> cm_Op c = OpEnsureDefaultProxy \<and>
       length (re_VTEPMAC (cm_Remote c)) = 17 \<and> re_NodeIP (cm_Remote c) = [] \<and> re_VNI (cm_Remote c) = 0"
    using l by (auto simp: List.map_filter_def proxy_remote_def zero_remote_def)
  then show ?thesis using r n by blast
qed

theorem default_proxy_mac_is_text_witness:
  "\<exists>cmds. reconcileTenantSourceUpdate ((mem_daemon ''n9'' [])\<lparr>dm_GetTenant := \<lambda>_ _ _. Inr ((demo_tenant 3)\<lparr>tn_AssignedNodes :=
       [(demo_info ''n2'')\<lparr>ni_TenantCIDR := ipnet_String demo_root, ni_VtepMAC := mac_String [2, 0, 0, 0, 0, 1]\<rparr>]\<rparr>)\<rparr>) (tenant_ref [] ''blue'') demo_world =
       (None, demo_world\<lparr>dw_log := cmds\<rparr>) \<and>
     map (\<lambda>c. length (re_VTEPMAC (cm_Remote c))) cmds = [17]"
proof -
  let ?ni = "(demo_info ''n2'')\<lparr>ni_TenantCIDR := ipnet_String demo_root, ni_VtepMAC := mac_String [2, 0, 0, 0, 0, 1]\<rparr>"
  let ?t = "(demo_tenant 3)\<lparr>tn_AssignedNodes := [?ni]\<rparr>" and ?f = "\<lambda>c w. w\<lparr>dw_log := dw_log w @ [c]\<rparr>"
  let ?o = "(mem_daemon ''n9'' [])\<lparr>dm_GetTenant := \<lambda>_ _ _. Inr ?t\<rparr>"
  have m: "ni_VtepMAC ?ni = mac_String [2, 0, 0, 0, 0, 1] \<and> length [2, 0, 0, 0, 0, 1 :: byte] = 6" by simp
  have c: "ParseCIDR (ni_TenantCIDR ?ni) \<noteq> None" by (simp add: ParseCIDR_String [OF demo_pfx])
  have th: "\<exists>cmds. reconcileTenantSourceUpdate ?o (tenant_ref [] ''blue'') demo_world = (None, fold ?f cmds demo_world) \<and>
    map (\<lambda>c. re_NodeName (cm_Remote c)) cmds = map ni_Name (filter (\<lambda>ni. ParseCIDR (ni_TenantCIDR ni) \<noteq> None) (tn_AssignedNodes ?t)) \<and>
    (\<forall>c\<in>set cmds. cm_TenantID c = rr_Name (tenant_ref [] ''blue'') \<and> cm_Op c = OpEnsureDefaultProxy \<and>
       length (re_VTEPMAC (cm_Remote c)) = 17 \<and> re_NodeIP (cm_Remote c) = [] \<and> re_VNI (cm_Remote c) = 0)"
  proof (rule default_proxy_mac_is_text)
    show "\<forall>ni\<in>set (tn_AssignedNodes ?t). \<exists>m. ni_VtepMAC ni = mac_String m \<and> length m = 6" using m by auto
  qed (simp_all add: mem_daemon_def tenant_ref_def demo_tenant_def demo_info_def)
  then obtain cmds where cm: "reconcileTenantSourceUpdate ?o (tenant_ref [] ''blue'') demo_world = (None, fold ?f cmds demo_world)"
    "map (\<lambda>c. re_NodeName (cm_Remote c)) cmds = map ni_Name (filter (\<lambda>ni. ParseCIDR (ni_TenantCIDR ni) \<noteq> None) [?ni])"
    "\<forall>c\<in>set cmds. length (re_VTEPMAC (cm_Remote c)) = 17" by auto
  have "length cmds = 1" using arg_cong [OF cm(2), of length] c by (simp del: not_None_eq)
  then obtain x where x: "cmds = [x]" by (auto simp: length_Suc_conv)
  show ?thesis using cm(1,3) unfolding x by (intro exI [of _ "[x]"]) (simp add: demo_world_def)
qed

end
