(* ===== verification/CNI_Plugin.thy ===== *)
theory CNI_Plugin
  imports CNI_Server Devices
begin

text \<open>
  The CNI plugin that the container runtime calls, \<open>internal/cniplugin\<close>: it reads the pod from the runtime's arguments,
  sends one request to the daemon of the node and prints its result. The daemon is a function from the bytes of the
  request and the world \<open>'w\<close> to the bytes of the answer and the new world. Reading the version out of the configuration on
  standard input is \<open>encoding/json\<close>, the hash is \<open>crypto/sha256\<close>; both are parameters. An index
  out of range, on which the plugin crashes, is the error \<open>Crash\<close>.
\<close>

record CmdArgs =
  ca_ContainerID :: string
  ca_Netns :: string
  ca_IfName :: string
  ca_Args :: string
  ca_StdinData :: "byte list"

datatype plugin_error =
    MissingEnv | NetnsTooLong | DaemonNotReady | Transport wire_error | DaemonError string | OutputFailed | Crash

text \<open>\<open>pe_seconds\<close> is the timeout of the options in whole seconds; \<open>pe_out_ok\<close> says whether standard output can be written.\<close>

record 'w plugin_env =
  pe_codec :: Codec
  pe_net :: net_env
  pe_peer :: "byte list \<Rightarrow> 'w \<Rightarrow> byte list \<times> 'w"
  pe_seconds :: int64
  pe_version :: "byte list \<Rightarrow> string option"
  pe_sha256 :: "byte list \<Rightarrow> byte list"
  pe_out_ok :: bool

subsection \<open>helpers.go\<close>

definition checkReadiness :: "'w plugin_env \<Rightarrow> plugin_error option" where
  "checkReadiness pe = (if dial_ok (pe_net pe) then None else Some DaemonNotReady)"

definition validateArgs :: "CmdArgs \<Rightarrow> plugin_error option" where
  "validateArgs a =
     (if ca_ContainerID a = [] \<or> ca_Netns a = [] \<or> ca_IfName a = [] then Some MissingEnv
      else if length (ca_Netns a) > 512 then Some NetnsTooLong
      else None)"

definition detectCNIVersion :: "'w plugin_env \<Rightarrow> byte list \<Rightarrow> string" where
  "detectCNIVersion pe stdin =
     (case pe_version pe stdin of
        Some v \<Rightarrow> if v \<noteq> [] then v else ''1.1.0''
      | None \<Rightarrow> ''1.1.0'')"

definition nonEmpty :: "string \<Rightarrow> string \<Rightarrow> string" where
  "nonEmpty s deflt = (if s = [] then deflt else s)"

text \<open>
  The regular expression \<open>KEY=(.+?)(;|$)\<close> at one position: at least one character, then up to the first semicolon or the end;
  the dot does not match a newline. The search takes the leftmost position that matches, in the middle of a word too.
\<close>

definition regex_match :: "string \<Rightarrow> string \<Rightarrow> string option" where
  "regex_match key s =
     (if take (length key) s = key
      then (case drop (length key) s of
              [] \<Rightarrow> None
            | c # r \<Rightarrow> let v = c # takeWhile (\<lambda>x. x \<noteq> CHR '';'') r in if CHR 0x0A \<in> set v then None else Some v)
      else None)"

fun regex_find :: "string \<Rightarrow> string \<Rightarrow> string option" where
  "regex_find key [] = None"
| "regex_find key (x # xs) = (case regex_match key (x # xs) of Some v \<Rightarrow> Some v | None \<Rightarrow> regex_find key xs)"

text \<open>Without a match the functions index an empty slice: \<open>None\<close>.\<close>

definition get_pod_name_regex :: "string \<Rightarrow> string option" where
  "get_pod_name_regex arg = regex_find ''K8S_POD_NAME='' arg"

definition get_pod_namespace_regex :: "string \<Rightarrow> string option" where
  "get_pod_namespace_regex arg = regex_find ''K8S_POD_NAMESPACE='' arg"

definition get_pod_uid_regex :: "string \<Rightarrow> string option" where
  "get_pod_uid_regex arg = regex_find ''K8S_POD_UID='' arg"

definition idem_input :: "string list \<Rightarrow> byte list" where
  "idem_input fs = concat (map (\<lambda>s. str_bytes s @ [0]) fs)"

definition computeIdemKey :: "(byte list \<Rightarrow> byte list) \<Rightarrow> string \<Rightarrow> string \<Rightarrow> string \<Rightarrow> string \<Rightarrow> string \<Rightarrow> string \<Rightarrow> string \<Rightarrow> string" where
  "computeIdemKey sha256 cmd containerID netns ifname podNS podName podUID =
     hex_encode (take 16 (sha256 (idem_input [cmd, containerID, netns, ifname, podNS, podName, podUID])))"

subsection \<open>api.go\<close>

definition zero_resp :: Response where
  "zero_resp = \<lparr>OK = False, Code = [], Message = [], Result = []\<rparr>"

text \<open>
  The call of the client of \<open>pkg/transport/uds\<close>, with what it does to the daemon: the daemon sees the frame when both
  writes went through.
\<close>

definition plugin_Call :: "'w plugin_env \<Rightarrow> Request \<Rightarrow> 'w \<Rightarrow> (wire_error + Response) \<times> 'w" where
  "plugin_Call pe req w =
     (client_Call (pe_codec pe) (pe_net pe) (\<lambda>i. fst (pe_peer pe i w)) req zero_resp,
      (case MarshalReq (pe_codec pe) req of
         Inl _ \<Rightarrow> w
       | Inr body \<Rightarrow>
           if dial_ok (pe_net pe) \<and> 2 \<le> writes_ok (pe_net pe)
           then snd (pe_peer pe (WriteHeader \<lparr>Version = 1, hCmd = CommandToHeader (Cmd req), hFlags = DetectFlags (pe_codec pe),
                   hLength = word_of_nat (length body)\<rparr> @ body) w)
           else w))"

text \<open>The request that ADD, CHECK and DEL build; \<open>None\<close> when a pod field is missing.\<close>

definition build_request :: "'w plugin_env \<Rightarrow> string \<Rightarrow> CmdArgs \<Rightarrow> Request option" where
  "build_request pe cmd a =
     (case (get_pod_name_regex (ca_Args a), get_pod_namespace_regex (ca_Args a), get_pod_uid_regex (ca_Args a)) of
        (Some pod, Some ns, Some uid) \<Rightarrow>
          Some \<lparr>Cmd = cmd, TraceID = [], CNIVersion = detectCNIVersion pe (ca_StdinData a), ContainerID = ca_ContainerID a,
                NetNS = ca_Netns a, IfName = ca_IfName a, PodName = pod, PodNamespace = ns, PodUID = uid,
                TimeoutSeconds = pe_seconds pe,
                IdemKey = computeIdemKey (pe_sha256 pe) cmd (ca_ContainerID a) (ca_Netns a) (ca_IfName a) ns pod uid\<rparr>
      | _ \<Rightarrow> None)"

definition dq :: string where "dq = [CHR 0x22]"

definition empty_result :: "string \<Rightarrow> byte list" where
  "empty_result ver = str_bytes (''{'' @ dq @ ''cniVersion'' @ dq @ '':'' @ dq @ ver @ dq @ '','' @ dq @ ''interfaces'' @ dq @ '':[],'' @
     dq @ ''ips'' @ dq @ '':[],'' @ dq @ ''routes'' @ dq @ '':[]}'')"

type_synonym 'w plugin_result = "(plugin_error option \<times> byte list) \<times> 'w"

definition cni_Add :: "'w plugin_env \<Rightarrow> CmdArgs \<Rightarrow> 'w \<Rightarrow> 'w plugin_result" where
  "cni_Add pe a w =
     (case validateArgs a of
        Some e \<Rightarrow> ((Some e, []), w)
      | None \<Rightarrow>
          (case checkReadiness pe of
             Some e \<Rightarrow> ((Some e, []), w)
           | None \<Rightarrow>
               (case build_request pe CmdADD a of
                  None \<Rightarrow> ((Some Crash, []), w)
                | Some req \<Rightarrow>
                    (case plugin_Call pe req w of
                       (Inl e, w1) \<Rightarrow> ((Some (Transport e), []), w1)
                     | (Inr resp, w1) \<Rightarrow>
                         if \<not> OK resp then ((Some (DaemonError (nonEmpty (Message resp) ''daemon error'')), []), w1)
                         else if Result resp = []
                         then ((None, if pe_out_ok pe then empty_result (CNIVersion req) else []), w1)
                         else if pe_out_ok pe then ((None, Result resp), w1) else ((Some OutputFailed, []), w1)))))"

text \<open>What CHECK, GC and STATUS do with the answer.\<close>

definition print_result :: "'w plugin_env \<Rightarrow> string \<Rightarrow> (wire_error + Response) \<times> 'w \<Rightarrow> 'w plugin_result" where
  "print_result pe deflt r =
     (case r of
        (Inl e, w1) \<Rightarrow> ((Some (Transport e), []), w1)
      | (Inr resp, w1) \<Rightarrow>
          if \<not> OK resp then ((Some (DaemonError (nonEmpty (Message resp) deflt)), []), w1)
          else ((None, if pe_out_ok pe then Result resp else []), w1))"

definition cni_Check :: "'w plugin_env \<Rightarrow> CmdArgs \<Rightarrow> 'w \<Rightarrow> 'w plugin_result" where
  "cni_Check pe a w =
     (case validateArgs a of
        Some e \<Rightarrow> ((Some e, []), w)
      | None \<Rightarrow>
          (case checkReadiness pe of
             Some e \<Rightarrow> ((Some e, []), w)
           | None \<Rightarrow>
               (case build_request pe CmdCHECK a of
                  None \<Rightarrow> ((Some Crash, []), w)
                | Some req \<Rightarrow> print_result pe ''daemon error'' (plugin_Call pe req w))))"

text \<open>DEL has no output and reports no error of the daemon.\<close>

definition cni_Del :: "'w plugin_env \<Rightarrow> CmdArgs \<Rightarrow> 'w \<Rightarrow> plugin_error option \<times> 'w" where
  "cni_Del pe a w =
     (case checkReadiness pe of
        Some e \<Rightarrow> (None, w)
      | None \<Rightarrow>
          (case build_request pe CmdDEL a of
             None \<Rightarrow> (Some Crash, w)
           | Some req \<Rightarrow> (None, snd (plugin_Call pe req w))))"

definition bare_request :: "'w plugin_env \<Rightarrow> string \<Rightarrow> Request" where
  "bare_request pe cmd = zero_req\<lparr>Cmd := cmd, TimeoutSeconds := pe_seconds pe\<rparr>"

definition cni_GC :: "'w plugin_env \<Rightarrow> CmdArgs \<Rightarrow> 'w \<Rightarrow> 'w plugin_result" where
  "cni_GC pe a w =
     (case checkReadiness pe of
        Some e \<Rightarrow> ((Some e, []), w)
      | None \<Rightarrow> print_result pe ''daemon error'' (plugin_Call pe (bare_request pe CmdGC) w))"

definition cni_Status :: "'w plugin_env \<Rightarrow> CmdArgs \<Rightarrow> 'w \<Rightarrow> 'w plugin_result" where
  "cni_Status pe a w =
     (case checkReadiness pe of
        Some e \<Rightarrow> ((Some e, []), w)
      | None \<Rightarrow> print_result pe ''daemon not OK'' (plugin_Call pe (bare_request pe CmdSTATUS) w))"

subsection \<open>Reading the arguments of the runtime\<close>

lemma regex_match_prefix: "regex_match key s \<noteq> None \<Longrightarrow> prefix key s"
  unfolding regex_match_def by (metis prefixI append_take_drop_id)

text \<open>A key does not match inside a pair that does not contain it.\<close>

lemma regex_find_skip:
  assumes "CHR '';'' \<notin> set key" "\<not> sublist key seg"
  shows "regex_find key (seg @ CHR '';'' # rest) = regex_find key rest"
  using assms(2)
proof (induction seg)
  case Nil
  have "\<not> prefix key (CHR '';'' # rest)" using Nil assms(1) by (cases key) auto
  then show ?case using regex_match_prefix [of key "CHR '';'' # rest"] by (auto split: option.splits)
next
  case (Cons x seg)
  have "\<not> prefix key ((x # seg) @ CHR '';'' # rest)"
  proof
    assume p: "prefix key ((x # seg) @ CHR '';'' # rest)"
    then have "prefix key (x # seg) \<or> (\<exists>us. key = (x # seg) @ us \<and> prefix us (CHR '';'' # rest))" by (simp only: prefix_append)
    moreover have "us = []" if "key = (x # seg) @ us" "prefix us (CHR '';'' # rest)" for us
      using that assms(1) by (cases us) auto
    ultimately have "prefix key (x # seg)" by fastforce
    then show False using Cons.prems by (simp add: prefix_imp_sublist)
  qed
  then have "regex_match key (x # seg @ CHR '';'' # rest) = None" using regex_match_prefix by (metis append_Cons)
  moreover have "\<not> sublist key seg" using Cons.prems by (simp add: sublist_Cons_right)
  ultimately show ?case using Cons.IH by simp
qed

lemma pair_no_key:
  assumes "sublist (nm @ ''='') (k @ CHR ''='' # v)" "CHR ''='' \<notin> set k" "CHR ''='' \<notin> set v"
  shows "suffix nm k"
proof -
  obtain a b where "k @ CHR ''='' # v = (a @ nm) @ CHR ''='' # b" using assms(1) by (auto simp: sublist_def)
  then have "k = a @ nm" using append_Cons_eq_iff [OF assms(2,3)] by blast
  then show ?thesis by (simp add: suffix_def)
qed

lemma regex_find_pair:
  assumes "CHR '';'' \<notin> set nm" "CHR '';'' \<notin> set k" "CHR ''='' \<notin> set k" "CHR ''='' \<notin> set v" "\<not> suffix nm k"
  shows "regex_find (nm @ ''='') (k @ CHR ''='' # v @ CHR '';'' # rest) = regex_find (nm @ ''='') rest"
  using regex_find_skip [of "nm @ ''=''" "k @ CHR ''='' # v" rest] pair_no_key [of nm k v] assms by auto

lemma takeWhile_stop: "c \<notin> set r \<Longrightarrow> takeWhile (\<lambda>x. x \<noteq> c) (r @ c # l) = r"
  by (induction r) auto

lemma regex_find_value:
  assumes "key \<noteq> []" "v \<noteq> []" "CHR '';'' \<notin> set v" "CHR 0x0A \<notin> set v" "rest = [] \<or> hd rest = CHR '';''"
  shows "regex_find key (key @ v @ rest) = Some v"
proof -
  obtain c r where v: "v = c # r" using assms(2) by (cases v) auto
  have "takeWhile (\<lambda>x. x \<noteq> CHR '';'') (r @ rest) = r"
    using assms(3,5) takeWhile_stop unfolding v by (cases rest) (auto simp: takeWhile_eq_all_conv)
  then have m: "regex_match key (key @ v @ rest) = Some v"
    using assms(4) by (auto simp: regex_match_def v)
  obtain x xs where "key = x # xs" using assms(1) by (cases key) auto
  then show ?thesis using m by simp
qed

end
