(* ===== verification/Plugin_Properties.thy ===== *)
theory Plugin_Properties
  imports CNI_Plugin CNI_Properties Net_Text
begin

text \<open>
  The plugin and the daemon together: what the container runtime gets back for a command is what the daemon computed for the
  pod named in the arguments of the runtime.
\<close>

subsection \<open>The arguments of the runtime\<close>

text \<open>The arguments as the Kubernetes runtimes write them, with values free of separators and newlines.\<close>

definition runtime_args :: "string \<Rightarrow> string \<Rightarrow> string \<Rightarrow> string \<Rightarrow> string" where
  "runtime_args ns pod infra uid =
     ''IgnoreUnknown'' @ CHR ''='' # ''1'' @ CHR '';'' # ''K8S_POD_NAMESPACE'' @ CHR ''='' # ns @ CHR '';'' #
     ''K8S_POD_NAME'' @ CHR ''='' # pod @ CHR '';'' # ''K8S_POD_INFRA_CONTAINER_ID'' @ CHR ''='' # infra @ CHR '';'' #
     ''K8S_POD_UID'' @ CHR ''='' # uid"

definition plain :: "string \<Rightarrow> bool" where
  "plain v \<longleftrightarrow> v \<noteq> [] \<and> list_all (\<lambda>c. c \<notin> {CHR '';'', CHR ''='', CHR 0x0A}) v"

lemma plainD: "plain v \<Longrightarrow> v \<noteq> [] \<and> CHR '';'' \<notin> set v \<and> CHR ''='' \<notin> set v \<and> CHR 0x0A \<notin> set v"
  by (auto simp: plain_def list_all_iff)

lemma not_suffixes:
  "\<not> suffix ''K8S_POD_NAME'' ''IgnoreUnknown''" "\<not> suffix ''K8S_POD_NAMESPACE'' ''IgnoreUnknown''" "\<not> suffix ''K8S_POD_UID'' ''IgnoreUnknown''"
  "\<not> suffix ''K8S_POD_NAME'' ''K8S_POD_NAMESPACE''" "\<not> suffix ''K8S_POD_UID'' ''K8S_POD_NAMESPACE''"
  "\<not> suffix ''K8S_POD_UID'' ''K8S_POD_NAME''" "\<not> suffix ''K8S_POD_UID'' ''K8S_POD_INFRA_CONTAINER_ID''"
  by (simp_all add: suffix_to_prefix)

lemma value_at:
  assumes "plain v" "nm \<noteq> []"
  shows "regex_find (nm @ ''='') (nm @ CHR ''='' # v @ CHR '';'' # rest) = Some v" "regex_find (nm @ ''='') (nm @ CHR ''='' # v) = Some v"
  using regex_find_value [of "nm @ ''=''" v "CHR '';'' # rest"] regex_find_value [of "nm @ ''=''" v "[]"] plainD [OF assms(1)] by simp_all

lemma runtime_args_read:
  assumes "plain ns" "plain pod" "plain infra" "plain uid"
  shows "get_pod_name_regex (runtime_args ns pod infra uid) = Some pod"
    "get_pod_namespace_regex (runtime_args ns pod infra uid) = Some ns"
    "get_pod_uid_regex (runtime_args ns pod infra uid) = Some uid"
proof -
  note p = plainD [OF assms(1)] plainD [OF assms(2)] plainD [OF assms(3)]
  have s1: "regex_find (nm @ ''='') (runtime_args ns pod infra uid) =
      regex_find (nm @ ''='') (''K8S_POD_NAMESPACE'' @ CHR ''='' # ns @ CHR '';'' # ''K8S_POD_NAME'' @ CHR ''='' # pod @ CHR '';'' #
        ''K8S_POD_INFRA_CONTAINER_ID'' @ CHR ''='' # infra @ CHR '';'' # ''K8S_POD_UID'' @ CHR ''='' # uid)"
    if "CHR '';'' \<notin> set nm" "\<not> suffix nm ''IgnoreUnknown''" for nm
    unfolding runtime_args_def by (rule regex_find_pair) (use that in simp_all)
  have s2: "regex_find (nm @ ''='') (''K8S_POD_NAMESPACE'' @ CHR ''='' # ns @ CHR '';'' # rest) = regex_find (nm @ ''='') rest"
    if "CHR '';'' \<notin> set nm" "\<not> suffix nm ''K8S_POD_NAMESPACE''" for nm rest
    by (rule regex_find_pair) (use that p in simp_all)
  have s3: "regex_find (nm @ ''='') (''K8S_POD_NAME'' @ CHR ''='' # pod @ CHR '';'' # rest) = regex_find (nm @ ''='') rest"
    if "CHR '';'' \<notin> set nm" "\<not> suffix nm ''K8S_POD_NAME''" for nm rest
    by (rule regex_find_pair) (use that p in simp_all)
  have s4: "regex_find (nm @ ''='') (''K8S_POD_INFRA_CONTAINER_ID'' @ CHR ''='' # infra @ CHR '';'' # rest) = regex_find (nm @ ''='') rest"
    if "CHR '';'' \<notin> set nm" "\<not> suffix nm ''K8S_POD_INFRA_CONTAINER_ID''" for nm rest
    by (rule regex_find_pair) (use that p in simp_all)
  have "regex_find (''K8S_POD_NAMESPACE'' @ ''='') (runtime_args ns pod infra uid) = Some ns"
    by (subst s1, simp, rule not_suffixes) (rule value_at [OF assms(1)], simp)
  then show "get_pod_namespace_regex (runtime_args ns pod infra uid) = Some ns" by (simp add: get_pod_namespace_regex_def)
  have "regex_find (''K8S_POD_NAME'' @ ''='') (runtime_args ns pod infra uid) = Some pod"
    by (subst s1, simp, rule not_suffixes, subst s2, simp, rule not_suffixes) (rule value_at [OF assms(2)], simp)
  then show "get_pod_name_regex (runtime_args ns pod infra uid) = Some pod" by (simp add: get_pod_name_regex_def)
  have "regex_find (''K8S_POD_UID'' @ ''='') (runtime_args ns pod infra uid) = Some uid"
    by (subst s1, simp, rule not_suffixes, subst s2, simp, rule not_suffixes, subst s3, simp, rule not_suffixes, subst s4, simp, rule not_suffixes)
      (rule value_at [OF assms(4)], simp)
  then show "get_pod_uid_regex (runtime_args ns pod infra uid) = Some uid" by (simp add: get_pod_uid_regex_def)
qed

subsection \<open>The idempotency key\<close>

lemma str_bytes_inject: "str_bytes a = str_bytes b \<longleftrightarrow> a = b"
  using bytes_str_inverse by metis

lemma nul_split: "(0 :: byte) \<notin> set a \<Longrightarrow> 0 \<notin> set b \<Longrightarrow> a @ 0 # x = b @ 0 # y \<longleftrightarrow> a = b \<and> x = y"
proof (induction a arbitrary: b)
  case Nil
  then show ?case by (cases b) auto
next
  case (Cons c a)
  then show ?case by (cases b) auto
qed

lemma idem_input_inject:
  assumes "length xs = length ys" "\<forall>s \<in> set xs \<union> set ys. CHR 0x00 \<notin> set s"
  shows "idem_input xs = idem_input ys \<longleftrightarrow> xs = ys"
  using assms
proof (induction xs ys rule: list_induct2)
  case Nil
  then show ?case by simp
next
  case (Cons x xs y ys)
  have z: "0 \<notin> set (str_bytes s)" if "CHR 0x00 \<notin> set s" for s
  proof
    assume "0 \<in> set (str_bytes s)"
    then have "char_of (unat (0 :: byte)) \<in> set (bytes_str (str_bytes s))" unfolding bytes_str_def set_map by (rule imageI)
    moreover have "char_of (unat (0 :: byte)) = CHR 0x00" by code_simp
    ultimately show False using that by simp
  qed
  show ?case
    using Cons nul_split [OF z [of x] z [of y]] by (simp add: idem_input_def str_bytes_inject)
qed

lemma hex_encode_Cons: "hex_encode (a # as) = hex_encode [a] @ hex_encode as"
  by (simp add: hex_encode_def)

lemma hex_encode_inject: "hex_encode as = hex_encode bs \<longleftrightarrow> as = bs"
proof
  show "hex_encode as = hex_encode bs \<Longrightarrow> as = bs"
  proof (induction as arbitrary: bs)
    case Nil
    then show ?case using length_hex_encode [of bs] by (simp add: hex_encode_def)
  next
    case (Cons a as)
    then obtain b cs where bs: "bs = b # cs" using length_hex_encode [of bs] length_hex_encode [of "a # as"] by (cases bs) auto
    have "hex_encode [a] @ hex_encode as = hex_encode [b] @ hex_encode cs"
      using Cons.prems unfolding bs hex_encode_Cons [of a as] hex_encode_Cons [of b cs] .
    moreover have "length (hex_encode [a]) = length (hex_encode [b])" using hex_byte(3) by simp
    ultimately have "hex_encode [a] = hex_encode [b]" "hex_encode as = hex_encode cs" by (metis append_eq_append_conv)+
    then show ?case using Cons.IH hex_byte(1) [of a] hex_byte(1) [of b] bs by (metis option.inject)
  qed
qed simp

text \<open>
  The idempotency key names the request: two commands have the same key exactly when command, container, network
  namespace, interface and the three fields of the pod are the same, for texts without NUL, as long as the truncated hash does
  not collide on the two inputs.
\<close>

theorem idem_key_names_request:
  assumes "\<forall>s \<in> set xs \<union> set ys. CHR 0x00 \<notin> set s" "xs = [c, i, n, f, s1, s2, s3]" "ys = [c', i', n', f', s1', s2', s3']"
    and "take 16 (sha256 (idem_input xs)) = take 16 (sha256 (idem_input ys)) \<Longrightarrow> idem_input xs = idem_input ys"
  shows "computeIdemKey sha256 c i n f s1 s2 s3 = computeIdemKey sha256 c' i' n' f' s1' s2' s3' \<longleftrightarrow> xs = ys"
proof -
  have "idem_input xs = idem_input ys \<longleftrightarrow> xs = ys" by (rule idem_input_inject [OF _ assms(1)]) (simp add: assms(2,3))
  then show ?thesis using assms(4) hex_encode_inject unfolding computeIdemKey_def assms(2,3) by metis
qed

theorem idem_key_names_request_witness:
  "computeIdemKey (\<lambda>b. [word_of_nat (length b)]) ''ADD'' ''c'' ''/n'' ''eth0'' ''ns'' ''p'' ''u1'' \<noteq>
   computeIdemKey (\<lambda>b. [word_of_nat (length b)]) ''ADD'' ''c'' ''/n'' ''eth0'' ''ns'' ''p'' ''u12''"
proof -
  let ?xs = "[''ADD'', ''c'', ''/n'', ''eth0'', ''ns'', ''p'', ''u1'']" and ?ys = "[''ADD'', ''c'', ''/n'', ''eth0'', ''ns'', ''p'', ''u12'']"
  have z: "\<forall>s \<in> set ?xs \<union> set ?ys. CHR 0x00 \<notin> set s" by simp
  have "(word_of_nat (length (idem_input ?xs)) :: byte) \<noteq> word_of_nat (length (idem_input ?ys))" by code_simp
  then have "take 16 [word_of_nat (length (idem_input ?xs)) :: byte] = take 16 [word_of_nat (length (idem_input ?ys))] \<Longrightarrow> idem_input ?xs = idem_input ?ys"
    by simp
  from idem_key_names_request [OF z refl refl, of "\<lambda>b. [word_of_nat (length b)]", OF this] show ?thesis by simp
qed

subsection \<open>The plugin and the daemon\<close>

context wire_codec
begin

text \<open>One exchange with the server of the daemon: it serves exactly the request, and the client gets exactly its response.\<close>

lemma daemon_exchange:
  assumes "ok_req r" "MarshalReq c r = Inr b" "length b \<le> unat MaxPayload" "keeps r zero_req = r"
    and "serve_request env now r st = (resp, st')" "ok_resp resp" "MarshalResp c resp = Inr b'" "length b' \<le> unat MaxPayload"
    and "dial_ok nenv" "2 \<le> writes_ok nenv"
    and h: "h = \<lparr>Version = 1, hCmd = CommandToHeader (Cmd r), hFlags = DetectFlags c, hLength = word_of_nat (length b)\<rparr>"
  shows "client_Call c nenv (\<lambda>i. fst (handleConn env c now i st)) r out = Inr resp"
    "snd (handleConn env c now (WriteHeader h @ b) st) = st'"
proof -
  let ?h' = "\<lparr>Version = 1, hCmd = hCmd h, hFlags = DetectFlags c, hLength = word_of_nat (length b')\<rparr>"
  have "ReadRequest c (WriteHeader h @ b @ []) zero_req = Inr (h, r, [])"
    using request_frame [OF assms(1-3), of h "[]" zero_req] assms(4) h by simp
  moreover have "WriteResponse c 2 (hCmd h) (hFlags h) resp = Inr (WriteHeader ?h' @ b')"
    using response_frame [OF assms(6-8), of 2 "hCmd h"] h by auto
  ultimately have hc: "handleConn env c now (WriteHeader h @ b) st = (WriteHeader ?h' @ b', st')"
    using assms(5) by (simp add: handleConn_def)
  then show "snd (handleConn env c now (WriteHeader h @ b) st) = st'" by simp
  show "client_Call c nenv (\<lambda>i. fst (handleConn env c now i st)) r out = Inr resp"
    using assms(2,9,10) frame_read [of b' ?h' "[]"] assms(8) resp_back [OF assms(6,7)] hc h
    by (simp add: client_Call_def bind_err_simps Let_def)
qed

end

text \<open>
  C4. ADD end to end: for the arguments that the Kubernetes runtimes pass, the plugin asks the daemon for exactly the pod named there,
  the daemon is in the state after serving exactly this request, and the runtime gets the result of the daemon,
  byte for byte, or an error with the message of the daemon. The codec is any one that reads back requests and
  responses, as \<open>encoding/json\<close> does.
\<close>

theorem cni_add_end_to_end:
  assumes "wire_codec (pe_codec pe) ok_req ok_resp kept" "kept req zero_req = req"
    and "dial_ok (pe_net pe)" "2 \<le> writes_ok (pe_net pe)" "pe_out_ok pe" "pe_peer pe = handleConn env (pe_codec pe) now"
    and "validateArgs a = None" "ca_Args a = runtime_args ns pod infra uid" "plain ns" "plain pod" "plain infra" "plain uid"
    and "req = \<lparr>Cmd = CmdADD, TraceID = [], CNIVersion = detectCNIVersion pe (ca_StdinData a), ContainerID = ca_ContainerID a,
        NetNS = ca_Netns a, IfName = ca_IfName a, PodName = pod, PodNamespace = ns, PodUID = uid, TimeoutSeconds = pe_seconds pe,
        IdemKey = computeIdemKey (pe_sha256 pe) CmdADD (ca_ContainerID a) (ca_Netns a) (ca_IfName a) ns pod uid\<rparr>"
    and "ok_req req" "MarshalReq (pe_codec pe) req = Inr b" "length b \<le> unat MaxPayload"
    and "serve_request env now req st = (resp, st')"
    and "ok_resp resp" "MarshalResp (pe_codec pe) resp = Inr b'" "length b' \<le> unat MaxPayload"
  shows "cni_Add pe a st =
    (if OK resp then (None, if Result resp = [] then empty_result (CNIVersion req) else Result resp)
     else (Some (DaemonError (nonEmpty (Message resp) ''daemon error'')), []), st')"
proof -
  have br: "build_request pe CmdADD a = Some req"
    using runtime_args_read [OF assms(9-12)] assms(8,13) by (simp add: build_request_def)
  note ex = wire_codec.daemon_exchange [OF assms(1,14,15,16,2,17,18,19,20,3,4)]
  have "plugin_Call pe req st = (Inr resp, st')"
    using ex(1) [OF refl] ex(2) [OF refl] assms(3,4,6,15) by (simp add: plugin_Call_def)
  then show ?thesis using assms(3,5,7) br by (simp add: cni_Add_def checkReadiness_def)
qed

text \<open>A codec that knows one request and one response.\<close>

definition table_codec :: "Request \<Rightarrow> Response \<Rightarrow> Codec" where
  "table_codec q p = JSONCodec (\<lambda>r. if r = q then Inr [1] else Inl UnexpectedEOF) (\<lambda>b out. if b = [1] then Inr q else Inl UnexpectedEOF)
     (\<lambda>r. if r = p then Inr [2] else Inl UnexpectedEOF) (\<lambda>b out. if b = [2] then Inr p else Inl UnexpectedEOF)"

lemma table_codec: "wire_codec (table_codec q p) (\<lambda>_. True) (\<lambda>_. True) (\<lambda>r _. r)"
  by unfold_locales (auto simp: table_codec_def JSONCodec_def DetectFlags_def split: if_splits)

definition demo_plugin :: "Codec \<Rightarrow> (CNIServer \<times> unit) plugin_env" where
  "demo_plugin c = \<lparr>pe_codec = c, pe_net = \<lparr>dial_ok = True, writes_ok = 2\<rparr>,
     pe_peer = handleConn \<lparr>cd_resolver = Some (True, Resolve demo_cfg True (list_index [demo_pod])), cd_router = None,
       cd_convert = (\<lambda>r v. Some (r\<lparr>cr_CNIVersion := v\<rparr>)), cd_result = (\<lambda>r. r), cd_json = (\<lambda>r. Some (str_bytes (cr_CNIVersion r))),
       cd_text = (\<lambda>_. ''error'')\<rparr> c 0,
     pe_seconds = 30, pe_version = (\<lambda>_. None), pe_sha256 = (\<lambda>b. b), pe_out_ok = True\<rparr>"

definition demo_cmd :: CmdArgs where
  "demo_cmd = \<lparr>ca_ContainerID = ''c'', ca_Netns = ''/netns'', ca_IfName = ''eth0'', ca_Args = runtime_args ''ns'' ''p'' ''i'' ''u1'', ca_StdinData = []\<rparr>"

theorem cni_add_end_to_end_witness:
  "\<exists>codec st'. cni_Add (demo_plugin codec) demo_cmd (demo_srv, ()) = ((None, str_bytes ''1.1.0''), st') \<and> cs_cache (fst st') ''u1'' \<noteq> None"
proof -
  let ?e = "\<lparr>cd_resolver = Some (True, Resolve demo_cfg True (list_index [demo_pod])), cd_router = None,
       cd_convert = (\<lambda>r v. Some (r\<lparr>cr_CNIVersion := v\<rparr>)), cd_result = (\<lambda>r. r), cd_json = (\<lambda>r. Some (str_bytes (cr_CNIVersion r))),
       cd_text = (\<lambda>_. ''error'')\<rparr> :: (unit, cni_result) cni_deps"
  define req where "req = \<lparr>Cmd = CmdADD, TraceID = [], CNIVersion = ''1.1.0'', ContainerID = ''c'', NetNS = ''/netns'', IfName = ''eth0'',
    PodName = ''p'', PodNamespace = ''ns'', PodUID = ''u1'', TimeoutSeconds = 30,
    IdemKey = computeIdemKey (\<lambda>b. b) CmdADD ''c'' ''/netns'' ''eth0'' ''ns'' ''p'' ''u1''\<rparr>"
  have q: "Cmd req = CmdADD" "CNIVersion req = ''1.1.0''" "PodUID req = ''u1''" by (simp_all add: req_def)
  have t: "resolveTenantForRequest ?e req = Inr ''blue''"
    by (simp add: resolveTenantForRequest_def q Resolve_def list_index_def demo_pod_def byUID_def demo_cfg_def SetDefaults_def str_of_def)
  have g: "cacheGet 0 ''u1'' demo_srv = (None, demo_srv)" by (simp add: cacheGet_def demo_srv_def NewCNIServer_def)
  have ns: "CmdADD \<noteq> CmdSTATUS" "CmdADD \<noteq> CmdGC" by (simp_all add: CmdADD_def CmdSTATUS_def CmdGC_def)
  obtain resp st' where r: "serve_request ?e 0 req (demo_srv, ()) = (resp, st')" by (metis surj_pair)
  then have ok: "OK resp" "Result resp = str_bytes ''1.1.0''" "cs_cache (fst st') ''u1'' \<noteq> None"
    using t g ns by (auto simp: serve_request_def q handleTenantCommand_def idem_hit_def mk_resp_def encodeResult_def ensureResultStruct_def
        cacheStore_def demo_srv_def NewCNIServer_def Let_def)
  let ?c = "table_codec req resp"
  have m: "unat MaxPayload = 10485760" by (simp add: MaxPayload_def)
  have pl: "plain ''ns''" "plain ''p''" "plain ''i''" "plain ''u1''" by code_simp+
  have req: "req = \<lparr>Cmd = CmdADD, TraceID = [], CNIVersion = detectCNIVersion (demo_plugin ?c) (ca_StdinData demo_cmd), ContainerID = ca_ContainerID demo_cmd,
      NetNS = ca_Netns demo_cmd, IfName = ca_IfName demo_cmd, PodName = ''p'', PodNamespace = ''ns'', PodUID = ''u1'',
      TimeoutSeconds = pe_seconds (demo_plugin ?c), IdemKey = computeIdemKey (pe_sha256 (demo_plugin ?c)) CmdADD (ca_ContainerID demo_cmd)
        (ca_Netns demo_cmd) (ca_IfName demo_cmd) ''ns'' ''p'' ''u1''\<rparr>"
    by (simp add: req_def demo_plugin_def demo_cmd_def detectCNIVersion_def)
  have w: "wire_codec (pe_codec (demo_plugin ?c)) (\<lambda>_. True) (\<lambda>_. True) (\<lambda>r _. r)" using table_codec by (simp add: demo_plugin_def)
  have "cni_Add (demo_plugin ?c) demo_cmd (demo_srv, ()) =
    (if OK resp then (None, if Result resp = [] then empty_result (CNIVersion req) else Result resp)
     else (Some (DaemonError (nonEmpty (Message resp) ''daemon error'')), []), st')"
    by (rule cni_add_end_to_end [OF w refl _ _ _ _ _ _ pl req _ _ _ r, of "[1]" "[2]"])
      (simp_all add: demo_plugin_def demo_cmd_def validateArgs_def table_codec_def JSONCodec_def m)
  then show ?thesis using ok by (intro exI [of _ ?c] exI [of _ st']) (simp add: str_bytes_def)
qed

end
