(* ===== verification/Admission.thy ===== *)
theory Admission
  imports Api_Types
begin

text \<open>
  The admission webhook, \<open>internal/webhook\<close>: from an HTTP request to an HTTP answer. The bodies go through
  \<open>encoding/json\<close> and the lists of tenants and nodes come from the API server; both are fields of \<open>webhook\<close>.
  A panic, which \<open>net/http\<close> turns into a closed connection, is \<open>Aborted\<close>. Logging and the TLS listener are left out.
\<close>

subsection \<open>config.go\<close>

definition tenantLabelKey :: string where "tenantLabelKey = ''setera.com.v1.tenant''"
definition tenantNotFound :: string where "tenantNotFound = ''tenant not found''"
definition tenantLabelNotFound :: string where "tenantLabelNotFound = ''tenant label not found''"
definition tenantIsValid :: string where "tenantIsValid = ''tenant is valid''"
definition zonesAboveNodes :: string where
  "zonesAboveNodes = ''the number of tenant zones is greater than the number of nodes''"

definition deploymentGVK :: GroupVersionKind where "deploymentGVK = \<lparr>gvk_Group = ''apps'', gvk_Version = ''v1'', gvk_Kind = ''Deployment''\<rparr>"
definition daemonsetGVK :: GroupVersionKind where "daemonsetGVK = \<lparr>gvk_Group = ''apps'', gvk_Version = ''v1'', gvk_Kind = ''Daemonset''\<rparr>"
definition podGVK :: GroupVersionKind where "podGVK = \<lparr>gvk_Group = [], gvk_Version = ''v1'', gvk_Kind = ''Pod''\<rparr>"
definition tenantGVK :: GroupVersionKind where "tenantGVK = \<lparr>gvk_Group = ''setera.com'', gvk_Version = ''v1'', gvk_Kind = ''Tenant''\<rparr>"

text \<open>The parts of the admission types that are read or written.\<close>

record AdmissionRequest =
  aq_UID :: string
  aq_RequestKind :: "GroupVersionKind option"
  aq_Object :: "byte list"

record AdmissionResponse =
  ar_UID :: string
  ar_Allowed :: bool
  ar_Message :: "string option"

record AdmissionReview =
  av_Type :: GroupVersionKind
  av_Request :: "AdmissionRequest option"
  av_Response :: "AdmissionResponse option"

record webhook =
  wh_DecodeReview :: "byte list \<Rightarrow> AdmissionReview option"
  wh_PodLabels :: "byte list \<Rightarrow> ((string \<times> string) list) option"
  wh_DecodeTenant :: "byte list \<Rightarrow> Tenant option"
  wh_EncodeReview :: "AdmissionReview \<Rightarrow> byte list option"
  wh_ListTenants :: "string + Tenant list"
  wh_ListNodes :: "string + string list"

subsection \<open>util.go\<close>

definition isMapped :: "'v \<Rightarrow> ('k \<times> 'v) list \<Rightarrow> bool" where
  "isMapped target m = list_ex (\<lambda>(_, v). v = target) m"

definition isMapSubset :: "('k \<times> 'v) list \<Rightarrow> ('k \<times> 'v) list \<Rightarrow> bool" where
  "isMapSubset m sub \<longleftrightarrow> length sub \<le> length m \<and> list_all (\<lambda>(k, vsub). map_of m k = Some vsub) sub"

definition checkTenantLabel :: "(string \<times> string) list \<Rightarrow> Tenant list \<Rightarrow> bool \<times> string" where
  "checkTenantLabel labels tenants =
     (case map_of labels tenantLabelKey of
        None \<Rightarrow> (False, tenantLabelNotFound)
      | Some l \<Rightarrow> if list_ex (\<lambda>t. l = om_Name (tn_Meta t)) tenants then (True, tenantIsValid) else (False, tenantNotFound))"

definition checkNodeZones :: "string list \<Rightarrow> Tenant \<Rightarrow> bool \<times> string" where
  "checkNodeZones nodes t =
     (if length nodes < length (tn_AssignedNodes t) then (False, zonesAboveNodes) else (True, tenantIsValid))"

definition createAdmissionResponse :: "bool \<Rightarrow> string \<Rightarrow> AdmissionResponse" where
  "createAdmissionResponse result msg = \<lparr>ar_UID = [], ar_Allowed = result, ar_Message = Some msg\<rparr>"

definition newAdmissionReview :: "AdmissionReview \<Rightarrow> AdmissionRequest \<Rightarrow> AdmissionResponse \<Rightarrow> AdmissionReview" where
  "newAdmissionReview rv rq res =
     \<lparr>av_Type = av_Type rv, av_Request = None, av_Response = Some (res\<lparr>ar_UID := aq_UID rq\<rparr>)\<rparr>"

subsection \<open>pod\_validation.go, tenant\_validation.go\<close>

definition validatePod :: "webhook \<Rightarrow> AdmissionRequest \<Rightarrow> string + AdmissionResponse" where
  "validatePod ws rq =
     (case wh_PodLabels ws (aq_Object rq) of
        None \<Rightarrow> Inl ''unmarshal''
      | Some labels \<Rightarrow>
          (case wh_ListTenants ws of
             Inl e \<Rightarrow> Inl e
           | Inr tenants \<Rightarrow> (case checkTenantLabel labels tenants of (allowed, reason) \<Rightarrow> Inr (createAdmissionResponse allowed reason))))"

definition validateTenant :: "webhook \<Rightarrow> AdmissionRequest \<Rightarrow> string + AdmissionResponse" where
  "validateTenant ws rq =
     (case wh_DecodeTenant ws (aq_Object rq) of
        None \<Rightarrow> Inl ''unmarshal''
      | Some t \<Rightarrow>
          (case wh_ListNodes ws of
             Inl e \<Rightarrow> Inl e
           | Inr nodes \<Rightarrow> (case checkNodeZones nodes t of (allowed, reason) \<Rightarrow> Inr (createAdmissionResponse allowed reason))))"

subsection \<open>handlers.go\<close>

datatype http_answer = Answer int "byte list" | Failure int | Aborted

record http_request =
  hr_Method :: string
  hr_Path :: string
  hr_ContentType :: string
  hr_Body :: "byte list option"

text \<open>The switch over the kind of the object; the cases that do nothing leave the zero response, which does not allow.\<close>

definition admit :: "webhook \<Rightarrow> AdmissionRequest \<Rightarrow> GroupVersionKind \<Rightarrow> string + AdmissionResponse" where
  "admit ws rq kind =
     (if kind = daemonsetGVK \<or> kind = deploymentGVK then Inr \<lparr>ar_UID = [], ar_Allowed = False, ar_Message = None\<rparr>
      else if kind = podGVK then validatePod ws rq
      else if kind = tenantGVK then validateTenant ws rq
      else Inr \<lparr>ar_UID = [], ar_Allowed = False, ar_Message = None\<rparr>)"

definition admissionValidationHandler :: "webhook \<Rightarrow> byte list \<Rightarrow> http_answer" where
  "admissionValidationHandler ws body =
     (case wh_DecodeReview ws body of
        None \<Rightarrow> Failure 400
      | Some rv \<Rightarrow>
          (case av_Request rv of
             None \<Rightarrow> Aborted
           | Some rq \<Rightarrow>
               (case aq_RequestKind rq of
                  None \<Rightarrow> Failure 400
                | Some kind \<Rightarrow>
                    (case admit ws rq kind of
                       Inl e \<Rightarrow> Failure 500
                     | Inr r \<Rightarrow>
                         (case wh_EncodeReview ws (newAdmissionReview rv rq r) of
                            None \<Rightarrow> Failure 500
                          | Some b \<Rightarrow> Answer 200 b)))))"

subsection \<open>middleware.go, server.go\<close>

text \<open>A middleware wraps a handler; the first of the list is the outermost.\<close>

definition runMiddleware :: "(('r \<Rightarrow> 'a) \<Rightarrow> 'r \<Rightarrow> 'a) list \<Rightarrow> ('r \<Rightarrow> 'a) \<Rightarrow> 'r \<Rightarrow> 'a" where
  "runMiddleware xs nxt = foldr (\<lambda>x h. x h) xs nxt"

definition validatingMiddleware :: "(http_request \<Rightarrow> http_answer) \<Rightarrow> http_request \<Rightarrow> http_answer" where
  "validatingMiddleware nxt r =
     (if hr_Method r \<noteq> ''POST'' then Failure 405
      else if hr_ContentType r \<noteq> ''application/json'' then Failure 415
      else if hr_Body r = None then Failure 405
      else nxt r)"

definition loggingMiddleware :: "(http_request \<Rightarrow> http_answer) \<Rightarrow> http_request \<Rightarrow> http_answer" where
  "loggingMiddleware nxt r = nxt r"

text \<open>The mux has one pattern; it answers other paths with 404.\<close>

definition webhook_mux :: "webhook \<Rightarrow> http_request \<Rightarrow> http_answer" where
  "webhook_mux ws r =
     (if hr_Path r = ''/validate'' then admissionValidationHandler ws (case hr_Body r of None \<Rightarrow> [] | Some b \<Rightarrow> b) else Failure 404)"

definition webhook_serve :: "webhook \<Rightarrow> http_request \<Rightarrow> http_answer" where
  "webhook_serve ws = runMiddleware [loggingMiddleware, validatingMiddleware] (webhook_mux ws)"

subsection \<open>The decisions\<close>

lemma webhook_serve_post:
  assumes "hr_Method r = ''POST''" "hr_ContentType r = ''application/json''" "hr_Path r = ''/validate''" "hr_Body r = Some b"
  shows "webhook_serve ws r = admissionValidationHandler ws b"
  using assms by (simp add: webhook_serve_def runMiddleware_def loggingMiddleware_def validatingMiddleware_def webhook_mux_def)

text \<open>Subset of maps: what the helper decides for maps without duplicate keys.\<close>

lemma isMapSubset_iff:
  assumes "distinct (map fst m)" "distinct (map fst sub)"
  shows "isMapSubset m sub \<longleftrightarrow> map_of sub \<subseteq>\<^sub>m map_of m"
proof
  assume "isMapSubset m sub"
  then have "\<forall>(k, v) \<in> set sub. map_of m k = Some v" by (simp add: isMapSubset_def list_all_iff)
  then show "map_of sub \<subseteq>\<^sub>m map_of m" by (fastforce simp: map_le_def dest: map_of_SomeD)
next
  assume le: "map_of sub \<subseteq>\<^sub>m map_of m"
  have "\<forall>(k, v) \<in> set sub. map_of m k = Some v"
    using le assms(2) by (fastforce simp: map_le_def dom_def dest: map_of_is_SomeI)
  moreover have "fst ` set sub \<subseteq> fst ` set m" using le by (metis dom_map_of_conv_image_fst map_le_implies_dom_le)
  then have "length sub \<le> length m"
    using assms by (metis card_mono distinct_card finite_imageI finite_set length_map set_map)
  ultimately show "isMapSubset m sub" by (simp add: isMapSubset_def list_all_iff)
qed


definition demo_webhook :: webhook where
  "demo_webhook = \<lparr>wh_DecodeReview = (\<lambda>b. Some \<lparr>av_Type = podGVK,
       av_Request = Some \<lparr>aq_UID = ''q1'', aq_RequestKind = Some deploymentGVK, aq_Object = []\<rparr>, av_Response = None\<rparr>),
     wh_PodLabels = (\<lambda>_. None), wh_DecodeTenant = (\<lambda>_. None),
     wh_EncodeReview = (\<lambda>v. Some (case av_Response v of Some res \<Rightarrow> [if ar_Allowed res then 1 else 0] | None \<Rightarrow> [])),
     wh_ListTenants = Inr [], wh_ListNodes = Inr [''n1'']\<rparr>"


end
