(* ===== verification/Score_Cache.thy ===== *)
theory Score_Cache
  imports Prelude "HOL-Library.AList" "HOL-Library.Multiset"
begin

text \<open>
  The generic cache of \<open>pkg/cache\<close> and the node scores of \<open>pkg/nodescore\<close>. The map is an association list without duplicate
  keys, in the order in which \<open>range\<close> visits it; as that order is arbitrary, a stable sort gives every result
  that \<open>sort.Slice\<close> can give. A panic or a fatal error is \<open>None\<close>. The read-write lock of the node
  scores is a number of readers and a flag for the writer.
\<close>

subsection \<open>cache.go\<close>

record ('k, 'v) Cache =
  ca_data :: "('k \<times> 'v) list"
  ca_comparator :: "'v \<Rightarrow> 'v \<Rightarrow> bool"

definition cache_New :: "('v \<Rightarrow> 'v \<Rightarrow> bool) \<Rightarrow> ('k, 'v) Cache" where
  "cache_New cmp = \<lparr>ca_data = [], ca_comparator = cmp\<rparr>"

definition cache_Update :: "'k \<Rightarrow> 'v \<Rightarrow> ('k, 'v) Cache \<Rightarrow> ('k, 'v) Cache" where
  "cache_Update key v c = c\<lparr>ca_data := AList.update key v (ca_data c)\<rparr>"

definition cache_Get :: "('k, 'v) Cache \<Rightarrow> 'k \<Rightarrow> 'v option" where
  "cache_Get c key = map_of (ca_data c) key"

fun insert_by :: "('v \<Rightarrow> 'v \<Rightarrow> bool) \<Rightarrow> 'k \<times> 'v \<Rightarrow> ('k \<times> 'v) list \<Rightarrow> ('k \<times> 'v) list" where
  "insert_by cmp x [] = [x]"
| "insert_by cmp x (y # ys) = (if cmp (snd y) (snd x) then y # insert_by cmp x ys else x # y # ys)"

definition sort_slice :: "('v \<Rightarrow> 'v \<Rightarrow> bool) \<Rightarrow> ('k \<times> 'v) list \<Rightarrow> ('k \<times> 'v) list" where
  "sort_slice cmp es = foldr (insert_by cmp) es []"

definition cache_GetWithCriteria :: "('k, 'v) Cache \<Rightarrow> int \<Rightarrow> ('k \<times> 'v) list option" where
  "cache_GetWithCriteria c n =
     (let entries = sort_slice (ca_comparator c) (ca_data c);
          n' = (if n > int (length entries) then int (length entries) else n)
      in if n' < 0 then None else Some (take (nat n') entries))"

subsection \<open>score.go\<close>

record rwmutex =
  rw_readers :: nat
  rw_writer :: bool

definition RLock :: "rwmutex \<Rightarrow> rwmutex option" where
  "RLock m = (if rw_writer m then None else Some (m\<lparr>rw_readers := Suc (rw_readers m)\<rparr>))"

definition RUnlock :: "rwmutex \<Rightarrow> rwmutex option" where
  "RUnlock m = (if rw_readers m = 0 then None else Some (m\<lparr>rw_readers := rw_readers m - 1\<rparr>))"

definition Lock :: "rwmutex \<Rightarrow> rwmutex option" where
  "Lock m = (if rw_writer m \<or> rw_readers m > 0 then None else Some (m\<lparr>rw_writer := True\<rparr>))"

definition Unlock :: "rwmutex \<Rightarrow> rwmutex option" where
  "Unlock m = (if rw_writer m then Some (m\<lparr>rw_writer := False\<rparr>) else None)"

record NodeScoreCache =
  ns_scoreCache :: "(string, int) Cache"
  ns_mu :: rwmutex

definition NewNodeScoreCache :: NodeScoreCache where
  "NewNodeScoreCache = \<lparr>ns_scoreCache = cache_New (\<lambda>a b. a > b), ns_mu = \<lparr>rw_readers = 0, rw_writer = False\<rparr>\<rparr>"

definition nodescore_Update :: "string \<Rightarrow> int \<Rightarrow> NodeScoreCache \<Rightarrow> NodeScoreCache option" where
  "nodescore_Update nodeID score n =
     (case Lock (ns_mu n) of
        None \<Rightarrow> None
      | Some m \<Rightarrow>
          let n1 = n\<lparr>ns_mu := m, ns_scoreCache := cache_Update nodeID score (ns_scoreCache n)\<rparr>
          in map_option (\<lambda>m'. n1\<lparr>ns_mu := m'\<rparr>) (Unlock m))"

definition nodescore_Get :: "NodeScoreCache \<Rightarrow> string \<Rightarrow> (int option \<times> NodeScoreCache) option" where
  "nodescore_Get n nodeID =
     (case RLock (ns_mu n) of
        None \<Rightarrow> None
      | Some m \<Rightarrow> map_option (\<lambda>m'. (cache_Get (ns_scoreCache n) nodeID, n\<lparr>ns_mu := m'\<rparr>)) (RUnlock m))"

text \<open>The read lock is given back with \<open>Unlock\<close>, as in the code.\<close>

definition nodescore_GetWithCriteria :: "NodeScoreCache \<Rightarrow> int \<Rightarrow> ((string \<times> int) list \<times> NodeScoreCache) option" where
  "nodescore_GetWithCriteria n interval =
     (case RLock (ns_mu n) of
        None \<Rightarrow> None
      | Some m \<Rightarrow>
          (case cache_GetWithCriteria (ns_scoreCache n) interval of
             None \<Rightarrow> None
           | Some r \<Rightarrow> map_option (\<lambda>m'. (r, n\<lparr>ns_mu := m'\<rparr>)) (Unlock m)))"

subsection \<open>Properties\<close>

lemma insert_by_mset: "mset (insert_by cmp x ys) = add_mset x (mset ys)"
  by (induction ys) auto

lemma sort_slice_mset: "mset (sort_slice cmp es) = mset es"
  by (induction es) (auto simp: sort_slice_def insert_by_mset)

lemma insert_by_set: "set (insert_by cmp x ys) = insert x (set ys)"
  using insert_by_mset [of cmp x ys] by (metis set_mset_add_mset_insert set_mset_mset)

text \<open>A strict weak order, which \<open>sort.Slice\<close> asks of its comparison.\<close>

definition weak_order :: "('v \<Rightarrow> 'v \<Rightarrow> bool) \<Rightarrow> bool" where
  "weak_order cmp \<longleftrightarrow> (\<forall>a b. cmp a b \<longrightarrow> \<not> cmp b a) \<and> (\<forall>a b c. \<not> cmp b a \<longrightarrow> \<not> cmp c b \<longrightarrow> \<not> cmp c a)"

lemma weak_order_asym: "weak_order cmp \<Longrightarrow> cmp a b \<Longrightarrow> \<not> cmp b a"
  unfolding weak_order_def by blast

lemma insert_by_sorted:
  assumes "weak_order cmp" "sorted_wrt (\<lambda>x y. \<not> cmp (snd y) (snd x)) ys"
  shows "sorted_wrt (\<lambda>x y. \<not> cmp (snd y) (snd x)) (insert_by cmp x ys)"
  using assms(2)
proof (induction ys)
  case (Cons y ys)
  show ?case
  proof (cases "cmp (snd y) (snd x)")
    case True
    then show ?thesis using Cons weak_order_asym [OF assms(1) True] by (simp add: insert_by_set)
  next
    case False
    then have "\<not> cmp (snd z) (snd x)" if "z \<in> set ys" for z
      using Cons.prems that assms(1) unfolding weak_order_def by (metis sorted_wrt.simps(2))
    then show ?thesis using Cons.prems False by simp
  qed
qed simp

lemma sort_slice_sorted: "weak_order cmp \<Longrightarrow> sorted_wrt (\<lambda>x y. \<not> cmp (snd y) (snd x)) (sort_slice cmp es)"
  by (induction es) (auto simp: sort_slice_def intro: insert_by_sorted)

text \<open>
  The query returns the best entries, best first: as many as asked for or all there are, each once, and no entry
  left out is better than one returned.
\<close>

lemma GetWithCriteria_best:
  assumes "weak_order (ca_comparator c)" "0 \<le> n" "distinct (map fst (ca_data c))"
  shows "\<exists>r. cache_GetWithCriteria c n = Some r \<and> length r = min (nat n) (length (ca_data c)) \<and> set r \<subseteq> set (ca_data c) \<and>
    distinct (map fst r) \<and> sorted_wrt (\<lambda>x y. \<not> ca_comparator c (snd y) (snd x)) r \<and>
    (\<forall>x \<in> set r. \<forall>y \<in> set (ca_data c) - set r. \<not> ca_comparator c (snd y) (snd x))"
proof -
  let ?s = "sort_slice (ca_comparator c) (ca_data c)" and ?k = "nat (if n > int (length (ca_data c)) then int (length (ca_data c)) else n)"
  have m: "mset ?s = mset (ca_data c)" by (rule sort_slice_mset)
  then have l: "length ?s = length (ca_data c)" "set ?s = set (ca_data c)" by (metis size_mset, metis mset_eq_setD)
  have so: "sorted_wrt (\<lambda>x y. \<not> ca_comparator c (snd y) (snd x)) (take ?k ?s @ drop ?k ?s)" using sort_slice_sorted [OF assms(1)] by simp
  have di: "distinct (map fst ?s)" using m assms(3) by (metis mset_map mset_eq_imp_distinct_iff)
  have r: "cache_GetWithCriteria c n = Some (take ?k ?s)" using assms(2) l(1) by (auto simp: cache_GetWithCriteria_def Let_def)
  have "set (ca_data c) - set (take ?k ?s) \<subseteq> set (drop ?k ?s)" using l(2) by (metis Diff_subset_conv append_take_drop_id set_append subset_refl)
  then have "\<forall>x \<in> set (take ?k ?s). \<forall>y \<in> set (ca_data c) - set (take ?k ?s). \<not> ca_comparator c (snd y) (snd x)"
    using so unfolding sorted_wrt_append by blast
  moreover have "length (take ?k ?s) = min (nat n) (length (ca_data c))" using l(1) assms(2) by (simp add: min_def)
  moreover have "set (take ?k ?s) \<subseteq> set (ca_data c)" using l(2) set_take_subset by metis
  moreover have "distinct (map fst (take ?k ?s))" using di by (metis distinct_take take_map)
  moreover have "sorted_wrt (\<lambda>x y. \<not> ca_comparator c (snd y) (snd x)) (take ?k ?s)" using so sorted_wrt_append by blast
  ultimately show ?thesis using r by blast
qed

text \<open>Updates and lookups.\<close>

lemma cache_Get_Update: "cache_Get (cache_Update key v c) k = (if k = key then Some v else cache_Get c k)"
  by (simp add: cache_Get_def cache_Update_def update_conv)

text \<open>
  The query of the node scores never returns: in every state without a writer it ends in unlocking a lock that is
  held for reading only, whatever the scores are; updates and lookups do return.
\<close>

lemma nodescore_query_crashes: "nodescore_GetWithCriteria n k = None"
  by (auto simp: nodescore_GetWithCriteria_def RLock_def Unlock_def split: option.splits)

lemma nodescore_Update_Get:
  assumes "\<not> rw_writer (ns_mu n)" "rw_readers (ns_mu n) = 0"
  shows "\<exists>n1 n2. nodescore_Update i s n = Some n1 \<and> nodescore_Get n1 i = Some (Some s, n2) \<and> ns_mu n2 = ns_mu n"
  using assms by (auto simp: nodescore_Update_def nodescore_Get_def Lock_def Unlock_def RLock_def RUnlock_def cache_Get_Update Let_def)

end
