(* ===== verification/Node_Setup.thy ===== *)
theory Node_Setup
  imports Peer_Tables Tenant_Policy Resolver Devices
begin

text \<open>
  What a node needs once: the sysctls, forward policy and masquerading of \<open>pkg/network/policy/node\<close>, and the older helpers of
  \<open>pkg/network/routing\<close> that write neighbours, routes and chains directly. The command line of
  \<open>sysctl\<close> and \<open>modprobe\<close> and the handle of iptables are fields of \<open>node_env\<close>; \<open>ne_ipt\<close> is \<open>None\<close> for a nil handle.
\<close>

datatype node_error = NoHandle | NoClusterCIDR | SysctlFailed string string | NodeIPT nl_error | NodeNL nl_error

text \<open>\<open>ne_sysctl\<close> gives the output of the command when it fails.\<close>

record 'k node_env =
  ne_ipt :: "'k iptables option"
  ne_policy :: "string \<Rightarrow> string \<Rightarrow> string \<Rightarrow> 'k \<Rightarrow> nl_error option \<times> 'k"
  ne_sysctl :: "string \<Rightarrow> string \<Rightarrow> 'k \<Rightarrow> string option \<times> 'k"
  ne_modprobe :: "string \<Rightarrow> 'k \<Rightarrow> 'k"

subsection \<open>policy/node/policy.go\<close>

definition isIgnorableSysctlError :: "string \<Rightarrow> bool" where
  "isIgnorableSysctlError msg =
     (if msg = [] then False
      else let lower = to_lower msg in str_contains lower ''no such file'' \<or> str_contains lower ''invalid argument'')"

definition writeSysctl :: "'k node_env \<Rightarrow> string \<Rightarrow> string \<Rightarrow> bool \<Rightarrow> ('k, node_error, unit) prog" where
  "writeSysctl ne key v ignoreMissing k =
     (case ne_sysctl ne key v k of
        (None, k1) \<Rightarrow> (Inr (), k1)
      | (Some out, k1) \<Rightarrow>
          if ignoreMissing \<and> isIgnorableSysctlError (TrimSpace out) then (Inr (), k1)
          else (Inl (SysctlFailed key (TrimSpace out)), k1))"

definition EnsureIPForwarding :: "'k node_env \<Rightarrow> ('k, node_error, unit) prog" where
  "EnsureIPForwarding ne =
     p_bind (writeSysctl ne ''net.ipv4.ip_forward'' ''1'' False) (\<lambda>_.
     writeSysctl ne ''net.ipv6.conf.all.forwarding'' ''1'' True)"

definition EnsureBridgeNetfilter :: "'k node_env \<Rightarrow> ('k, node_error, unit) prog" where
  "EnsureBridgeNetfilter ne k =
     p_bind (writeSysctl ne ''net.bridge.bridge-nf-call-iptables'' ''1'' True) (\<lambda>_.
     writeSysctl ne ''net.bridge.bridge-nf-call-ip6tables'' ''1'' True) (ne_modprobe ne ''br_netfilter'' k)"

definition EnsureForwardPolicyDrop :: "'k node_env \<Rightarrow> ('k, node_error, unit) prog" where
  "EnsureForwardPolicyDrop ne =
     (case ne_ipt ne of None \<Rightarrow> p_fail NoHandle | Some _ \<Rightarrow> p_do NodeIPT (ne_policy ne ''filter'' ''FORWARD'' ''DROP''))"

definition EnsureClusterMasquerade :: "'k node_env \<Rightarrow> string \<Rightarrow> ('k, node_error, unit) prog" where
  "EnsureClusterMasquerade ne clusterCIDR =
     p_bind (p_guard (clusterCIDR = []) NoClusterCIDR) (\<lambda>_.
     (case ne_ipt ne of
        None \<Rightarrow> p_fail NoHandle
      | Some ipt \<Rightarrow> p_do NodeIPT (AppendUnique ipt ''nat'' ''POSTROUTING''
          [''-s'', clusterCIDR, ''!'', ''-d'', clusterCIDR, ''-j'', ''MASQUERADE''])))"

subsection \<open>routing/iptables.go, routing/default.go\<close>

text \<open>These helpers open a handle of their own, which is the first argument.\<close>

definition iptablesExistsErr :: "nl_error \<Rightarrow> bool" where
  "iptablesExistsErr e = str_contains (err_msg e) ''exists''"

definition routing_AddClusterMasquerade :: "'k iptables \<Rightarrow> ('k, node_error, unit) prog" where
  "routing_AddClusterMasquerade ipt = p_do NodeIPT (AppendUnique ipt ''nat'' ''POSTROUTING''
     [''-s'', ''10.244.0.0/16'', ''!'', ''-d'', ''10.244.0.0/16'', ''-j'', ''MASQUERADE''])"

definition new_chain :: "'k iptables \<Rightarrow> string \<Rightarrow> string \<Rightarrow> ('k, node_error, unit) prog" where
  "new_chain ipt table chain k =
     (case NewChain ipt table chain k of
        (Some e, k1) \<Rightarrow> if iptablesExistsErr e then (Inr (), k1) else (Inl (NodeIPT e), k1)
      | (None, k1) \<Rightarrow> (Inr (), k1))"

definition routing_EnsureTenantChains :: "'k iptables \<Rightarrow> string \<Rightarrow> bool \<Rightarrow> ('k, node_error, unit) prog" where
  "routing_EnsureTenantChains ipt slug needFilterCh =
     p_bind (new_chain ipt ''nat'' (''NAT-'' @ slug)) (\<lambda>_.
     if needFilterCh then new_chain ipt ''filter'' (''FW-'' @ slug) else p_ret ())"

definition InsertTenantJump :: "'k iptables \<Rightarrow> string \<Rightarrow> string \<Rightarrow> ('k, node_error, unit) prog" where
  "InsertTenantJump ipt slug tenantCIDR =
     p_do NodeIPT (AppendUnique ipt ''nat'' ''POSTROUTING'' [''-s'', tenantCIDR, ''-j'', ''NAT-'' @ slug])"

definition AddSNATRule :: "'k iptables \<Rightarrow> string \<Rightarrow> string \<Rightarrow> string \<Rightarrow> string \<Rightarrow> ('k, node_error, unit) prog" where
  "AddSNATRule ipt slug remoteDefaultCIDR nodeVTEPDev nodeVTEPIP =
     p_do NodeIPT (AppendUnique ipt ''nat'' (''NAT-'' @ slug)
       [''-d'', remoteDefaultCIDR, ''-o'', nodeVTEPDev, ''-j'', ''SNAT'', ''--to-source'', nodeVTEPIP])"

definition AddForwardAccept :: "'k iptables \<Rightarrow> string \<Rightarrow> string \<Rightarrow> ('k, node_error, unit) prog" where
  "AddForwardAccept ipt slug remoteDefaultCIDR =
     p_do NodeIPT (AppendUnique ipt ''filter'' (''FW-'' @ slug) [''-d'', remoteDefaultCIDR, ''-j'', ''ACCEPT''])"

definition AllowForwardingTenant :: "'k iptables \<Rightarrow> string \<Rightarrow> ('k, node_error, unit) prog" where
  "AllowForwardingTenant ipt tenantCIDR =
     p_bind (p_do NodeIPT (AppendUnique ipt ''filter'' ''FORWARD'' [''-s'', tenantCIDR, ''-j'', ''ACCEPT''])) (\<lambda>_.
     p_do NodeIPT (AppendUnique ipt ''filter'' ''FORWARD'' [''-d'', tenantCIDR, ''-j'', ''ACCEPT'']))"

definition BlockTenant2TenantTraffic :: "'k iptables \<Rightarrow> string \<Rightarrow> string \<Rightarrow> ('k, node_error, unit) prog" where
  "BlockTenant2TenantTraffic ipt t1 t2 =
     p_bind (p_do NodeIPT (InsertUnique ipt ''filter'' ''FORWARD'' 1 [''-s'', t1, ''-d'', t2, ''-j'', ''DROP''])) (\<lambda>_.
     p_do NodeIPT (InsertUnique ipt ''filter'' ''FORWARD'' 1 [''-s'', t2, ''-d'', t1, ''-j'', ''DROP'']))"

definition GetIfaceAddr :: "'k netlink \<Rightarrow> net_interface \<Rightarrow> 'k \<Rightarrow> nl_error + ipnet list" where
  "GetIfaceAddr nl iface k = AddrList nl (if_Index iface) k"

definition EnableIPForwarding :: "'k node_env \<Rightarrow> ('k, node_error, unit) prog" where
  "EnableIPForwarding ne k =
     (case ne_sysctl ne ''net.ipv4.ip_forward'' ''1'' k of
        (None, k1) \<Rightarrow> (Inr (), k1)
      | (Some out, k1) \<Rightarrow> (Inl (SysctlFailed ''net.ipv4.ip_forward'' out), k1))"

definition AllowBridgeForward :: "'k iptables \<Rightarrow> string \<Rightarrow> ('k, node_error, unit) prog" where
  "AllowBridgeForward ipt bridgeInterface =
     p_do NodeIPT (AppendUnique ipt ''filter'' ''FORWARD'' [''-i'', bridgeInterface, ''-j'', ''ACCEPT''])"

subsection \<open>routing/routing.go\<close>

definition arp_entry :: "int \<Rightarrow> ip \<Rightarrow> hwaddr \<Rightarrow> neigh" where
  "arp_entry localVtepID a mac = \<lparr>ne_LinkIndex = localVtepID, ne_Family = 0, ne_State = NUD_PERMANENT, ne_Type = RTN_UNICAST,
     ne_Flags = 0, ne_IP = a, ne_HardwareAddr = mac\<rparr>"

definition fdb_entry :: "int \<Rightarrow> ip \<Rightarrow> hwaddr \<Rightarrow> neigh" where
  "fdb_entry localVtepID a mac = \<lparr>ne_LinkIndex = localVtepID, ne_Family = AF_BRIDGE, ne_State = NUD_PERMANENT, ne_Type = 0,
     ne_Flags = NTF_SELF, ne_IP = a, ne_HardwareAddr = mac\<rparr>"

definition AddARP :: "'k netlink \<Rightarrow> int \<Rightarrow> ip \<Rightarrow> hwaddr \<Rightarrow> ('k, node_error, unit) prog" where
  "AddARP nl localVtepID a mac = p_do NodeNL (NeighSet nl (arp_entry localVtepID a mac))"

definition DelARP :: "'k netlink \<Rightarrow> int \<Rightarrow> ip \<Rightarrow> hwaddr \<Rightarrow> ('k, node_error, unit) prog" where
  "DelARP nl localVtepID a mac = p_do NodeNL (NeighDel nl (arp_entry localVtepID a mac))"

definition AddFDB :: "'k netlink \<Rightarrow> int \<Rightarrow> ip \<Rightarrow> hwaddr \<Rightarrow> ('k, node_error, unit) prog" where
  "AddFDB nl localVtepID a mac = p_do NodeNL (NeighSet nl (fdb_entry localVtepID a mac))"

definition DelFDB :: "'k netlink \<Rightarrow> int \<Rightarrow> ip \<Rightarrow> hwaddr \<Rightarrow> ('k, node_error, unit) prog" where
  "DelFDB nl localVtepID a mac = p_do NodeNL (NeighDel nl (fdb_entry localVtepID a mac))"

definition host_route :: "int \<Rightarrow> ip \<Rightarrow> nl_route" where
  "host_route localVtepID a = \<lparr>rt_LinkIndex = localVtepID, rt_Dst = Some \<lparr>net_ip = a, net_mask = cidr_mask 32 32\<rparr>, rt_Gw = [],
     rt_Table = 0, rt_Priority = 0, rt_Flags = RTNH_F_ONLINK, rt_Scope = SCOPE_UNIVERSE\<rparr>"

text \<open>The results of the three calls are dropped.\<close>

definition AddRoutes :: "'k netlink \<Rightarrow> int \<Rightarrow> ipnet \<Rightarrow> ip \<Rightarrow> ('k, node_error, unit) prog" where
  "AddRoutes nl localVtepID remoteTenantCIDR a k =
     (let k1 = snd (RouteAdd nl (host_route localVtepID a) k);
          k2 = snd (RouteAdd nl \<lparr>rt_LinkIndex = localVtepID, rt_Dst = Some remoteTenantCIDR, rt_Gw = a, rt_Table = 0, rt_Priority = 0,
                                 rt_Flags = RTNH_F_ONLINK, rt_Scope = SCOPE_UNIVERSE\<rparr> k1);
          k3 = snd (RouteDel nl (host_route localVtepID a) k2)
      in (Inr (), k3))"

definition CheckARP :: "'k netlink \<Rightarrow> int \<Rightarrow> 'k \<Rightarrow> nl_error + neigh list" where
  "CheckARP nl localVtepID k = NeighList nl localVtepID FAMILY_V4 k"

subsection \<open>Properties\<close>

text \<open>The three copies of the masquerading rule write the same rule for the network of the cluster.\<close>

lemma masquerade_copies:
  assumes "ne_ipt ne = Some ipt" "iptables_laws ipt rules" "cidr = ''10.244.0.0/16''"
  shows "snd (routing_AddClusterMasquerade ipt k) = snd (EnsureClusterMasquerade ne cidr k)"
    "snd (AddClusterMasquerade ipt cidr k) = snd (EnsureClusterMasquerade ne cidr k)"
  using assms
  by (simp_all add: routing_AddClusterMasquerade_def EnsureClusterMasquerade_def AddClusterMasquerade_def p_bind_def p_guard_def p_do_def p_ret_def p_fail_def
      split: prod.splits option.splits)

text \<open>Allowing a tenant is idempotent on the rules of the node.\<close>

lemma AllowForwardingTenant_rules:
  assumes "iptables_laws ipt rules" "AllowForwardingTenant ipt c k = (Inr (), k')"
  shows "rules k' = (rules k)((''filter'', ''FORWARD'') :=
    add_unique [''-d'', c, ''-j'', ''ACCEPT''] (add_unique [''-s'', c, ''-j'', ''ACCEPT''] (rules k (''filter'', ''FORWARD''))))"
proof -
  obtain k1 where 1: "AppendUnique ipt ''filter'' ''FORWARD'' [''-s'', c, ''-j'', ''ACCEPT''] k = (None, k1)"
    and 2: "AppendUnique ipt ''filter'' ''FORWARD'' [''-d'', c, ''-j'', ''ACCEPT''] k1 = (None, k')"
    using assms(2) by (auto simp: AllowForwardingTenant_def p_bind_def p_do_def split: prod.splits option.splits sum.splits)
  show ?thesis using iptables_lawsD(3) [OF assms(1) 1] iptables_lawsD(3) [OF assms(1) 2] by simp
qed

text \<open>Forwarding is on after success: both keys were written, or the one of IPv6 is missing on the node.\<close>

lemma EnsureIPForwarding_ok:
  "fst (EnsureIPForwarding ne k) = Inr () \<longleftrightarrow>
     fst (ne_sysctl ne ''net.ipv4.ip_forward'' ''1'' k) = None \<and>
     (case fst (ne_sysctl ne ''net.ipv6.conf.all.forwarding'' ''1'' (snd (ne_sysctl ne ''net.ipv4.ip_forward'' ''1'' k))) of
        None \<Rightarrow> True | Some out \<Rightarrow> isIgnorableSysctlError (TrimSpace out))"
  by (auto simp: EnsureIPForwarding_def writeSysctl_def p_bind_def split: prod.splits option.splits)

end
