(* ===== verification/Operator_Run.thy ===== *)
theory Operator_Run
  imports Operator_Base
begin

text \<open>
  Running an operator, the rest of \<open>pkg/operator\<close>: the operator and its options, the registration of informers, the sources of
  work that are not informers, and \<open>Run\<close> with its pool of workers. The queue of client-go is a record of functions over its own
  state; the locale \<open>work_queue\<close> states its documented behaviour. The workers, the
  handlers and the timers of the queue interleave freely: the step relation \<open>pool_step\<close> has one rule per call on the queue.
\<close>

subsection \<open>base.go: the operator and its options\<close>

text \<open>An informer is known by a name; \<open>None\<close> is the nil informer. The clock counts nanoseconds.\<close>

type_synonym informer = string

type_synonym resource_func = "kobj \<Rightarrow> string + ResourceRef"

record 'q BaseOperator =
  bo_name :: string
  bo_queue :: 'q
  bo_hasSynced :: "informer list"
  bo_resourceFunc :: resource_func
  bo_workers :: int
  bo_shutdownDelay :: int

definition WithQueue :: "'q \<Rightarrow> 'q BaseOperator \<Rightarrow> 'q BaseOperator" where
  "WithQueue q c = c\<lparr>bo_queue := q\<rparr>"

definition WithWorkers :: "int \<Rightarrow> 'q BaseOperator \<Rightarrow> 'q BaseOperator" where
  "WithWorkers n c = (if n > 0 then c\<lparr>bo_workers := n\<rparr> else c)"

definition WithShutdownDrain :: "int \<Rightarrow> 'q BaseOperator \<Rightarrow> 'q BaseOperator" where
  "WithShutdownDrain d c = c\<lparr>bo_shutdownDelay := d\<rparr>"

definition WithResourceFunc :: "resource_func \<Rightarrow> 'q BaseOperator \<Rightarrow> 'q BaseOperator" where
  "WithResourceFunc fn c = c\<lparr>bo_resourceFunc := fn\<rparr>"

text \<open>The first argument is the fresh queue that client-go makes.\<close>

definition NewBaseOperator :: "'q \<Rightarrow> string \<Rightarrow> ('q BaseOperator \<Rightarrow> 'q BaseOperator) list \<Rightarrow> 'q BaseOperator" where
  "NewBaseOperator fresh name opts =
     fold (\<lambda>opt c. opt c) opts
       \<lparr>bo_name = name, bo_queue = fresh, bo_hasSynced = [], bo_resourceFunc = (\<lambda>obj. Inr (DefaultResourceFunc obj)),
        bo_workers = 1, bo_shutdownDelay = 0\<rparr>"

definition ResourceFor :: "'q BaseOperator \<Rightarrow> kobj \<Rightarrow> string + ResourceRef" where
  "ResourceFor c obj = bo_resourceFunc c obj"

definition bo_EnqueueObjectWith :: "'q BaseOperator \<Rightarrow> string \<Rightarrow> string \<Rightarrow> kobj \<Rightarrow> WorkItem list" where
  "bo_EnqueueObjectWith c src ev obj =
     (case bo_resourceFunc c obj of
        Inl err \<Rightarrow> []
      | Inr res \<Rightarrow> if rr_Name res = [] then [] else EnqueueWith src ev res)"

text \<open>The handlers attached to the informers, in order, beside the operator.\<close>

type_synonym handler_table = "(informer \<times> handler_funcs) list"

definition AddDefaultInformerHandlers ::
  "informer \<Rightarrow> string \<Rightarrow> string \<Rightarrow> string \<Rightarrow> string \<Rightarrow> 'q BaseOperator \<times> handler_table \<Rightarrow> 'q BaseOperator \<times> handler_table" where
  "AddDefaultInformerHandlers infm src addEv updEv delEv = (\<lambda>(c, hs).
     (c\<lparr>bo_hasSynced := bo_hasSynced c @ [infm]\<rparr>,
      hs @ [(infm, \<lparr>AddFunc = bo_EnqueueObjectWith c src addEv, UpdateFunc = (\<lambda>_ newObj. bo_EnqueueObjectWith c src updEv newObj),
                   DeleteFunc = bo_EnqueueObjectWith c src delEv\<rparr>)]))"

definition AddInformer :: "informer \<Rightarrow> 'q BaseOperator \<Rightarrow> 'q BaseOperator" where
  "AddInformer infm c = c\<lparr>bo_hasSynced := bo_hasSynced c @ [infm]\<rparr>"

definition AddInformerWithHandlers ::
  "informer \<Rightarrow> handler_funcs option list \<Rightarrow> 'q BaseOperator \<times> handler_table \<Rightarrow> 'q BaseOperator \<times> handler_table" where
  "AddInformerWithHandlers infm hs = (\<lambda>(c, tab).
     (c\<lparr>bo_hasSynced := bo_hasSynced c @ [infm]\<rparr>, tab @ List.map_filter (map_option (Pair infm)) hs))"

fun RegisterEventHandlers ::
  "(informer option \<times> handler_funcs) list \<Rightarrow> 'q BaseOperator \<times> handler_table \<Rightarrow> 'q BaseOperator \<times> handler_table" where
  "RegisterEventHandlers [] s = s"
| "RegisterEventHandlers ((None, h) # regs) s = RegisterEventHandlers regs s"
| "RegisterEventHandlers ((Some infm, h) # regs) (c, tab) =
     RegisterEventHandlers regs (c\<lparr>bo_hasSynced := bo_hasSynced c @ [infm]\<rparr>, tab @ [(infm, h)])"

subsection \<open>emitter.go\<close>

text \<open>
  What the \<open>select\<close> of a source chooses next: the end of the context, a value, the closed channel. The result are the items handed to \<open>EnqueueWith\<close>.
\<close>

datatype 'a channel_case = CtxDone | Received 'a | ChanClosed

fun BindChannel :: "('a \<Rightarrow> (string \<times> string \<times> ResourceRef) option) \<Rightarrow> 'a channel_case list \<Rightarrow> WorkItem list" where
  "BindChannel mapFn [] = []"
| "BindChannel mapFn (CtxDone # cs) = []"
| "BindChannel mapFn (ChanClosed # cs) = []"
| "BindChannel mapFn (Received v # cs) =
     (case mapFn v of None \<Rightarrow> [] | Some (src, ev, res) \<Rightarrow> EnqueueWith src ev res) @ BindChannel mapFn cs"

datatype tick_case = Stopped | Tick

fun periodic_loop :: "string \<Rightarrow> string \<Rightarrow> ResourceRef list \<Rightarrow> tick_case list \<Rightarrow> WorkItem list" where
  "periodic_loop src ev resources [] = []"
| "periodic_loop src ev resources (Stopped # cs) = []"
| "periodic_loop src ev resources (Tick # cs) = concat (map (EnqueueWith src ev) resources) @ periodic_loop src ev resources cs"

definition Periodic :: "int \<Rightarrow> string \<Rightarrow> string \<Rightarrow> ResourceRef list \<Rightarrow> tick_case list \<Rightarrow> WorkItem list" where
  "Periodic every src ev resources cs = (if every \<le> 0 \<or> resources = [] then [] else periodic_loop src ev resources cs)"

subsection \<open>base.go: the queue and the workers\<close>

text \<open>\<open>Get\<close> blocks while there is nothing to hand out; \<open>q_Due\<close> is the timer of a delayed item.\<close>

datatype 'q get_result = Blocks | ShutDown | Item WorkItem 'q

record 'q workqueue =
  q_Add :: "WorkItem \<Rightarrow> 'q \<Rightarrow> 'q"
  q_Get :: "'q \<Rightarrow> 'q get_result"
  q_Done :: "WorkItem \<Rightarrow> 'q \<Rightarrow> 'q"
  q_AddRateLimited :: "WorkItem \<Rightarrow> 'q \<Rightarrow> 'q"
  q_Forget :: "WorkItem \<Rightarrow> 'q \<Rightarrow> 'q"
  q_Due :: "WorkItem \<Rightarrow> 'q \<Rightarrow> 'q option"
  q_ShutDown :: "'q \<Rightarrow> 'q"

text \<open>Where a worker is in its loop.\<close>

datatype phase = Getting | Reconciling WorkItem | Failed WorkItem | Succeeded WorkItem | Releasing WorkItem | Returned

record ('q, 'w) pool =
  pl_queue :: 'q
  pl_world :: 'w
  pl_workers :: "phase list"

definition set_phase :: "nat \<Rightarrow> phase \<Rightarrow> ('q, 'w) pool \<Rightarrow> ('q, 'w) pool" where
  "set_phase i ph p = p\<lparr>pl_workers := (pl_workers p)[i := ph]\<rparr>"

text \<open>One move of the loop of worker \<open>i\<close>; \<open>None\<close> when \<open>Get\<close> blocks or the worker has returned. The deferred \<open>Done\<close> runs after the
  decision about the retry.\<close>

definition worker :: "'q workqueue \<Rightarrow> ('w, 'e) Router \<Rightarrow> nat \<Rightarrow> ('q, 'w) pool \<Rightarrow> ('q, 'w) pool option" where
  "worker wq r i p =
     (if i < length (pl_workers p)
      then case pl_workers p ! i of
             Getting \<Rightarrow>
               (case q_Get wq (pl_queue p) of
                  Blocks \<Rightarrow> None
                | ShutDown \<Rightarrow> Some (set_phase i Returned p)
                | Item it q \<Rightarrow> Some (set_phase i (Reconciling it) (p\<lparr>pl_queue := q\<rparr>)))
           | Reconciling it \<Rightarrow>
               (case ReconcileEvent r (wi_Source it) (wi_Event it) (wi_Resource it) (pl_world p) of
                  (Some err, w) \<Rightarrow> Some (set_phase i (Failed it) (p\<lparr>pl_world := w\<rparr>))
                | (None, w) \<Rightarrow> Some (set_phase i (Succeeded it) (p\<lparr>pl_world := w\<rparr>)))
           | Failed it \<Rightarrow> Some (set_phase i (Releasing it) (p\<lparr>pl_queue := q_AddRateLimited wq it (pl_queue p)\<rparr>))
           | Succeeded it \<Rightarrow> Some (set_phase i (Releasing it) (p\<lparr>pl_queue := q_Forget wq it (pl_queue p)\<rparr>))
           | Releasing it \<Rightarrow> Some (set_phase i Getting (p\<lparr>pl_queue := q_Done wq it (pl_queue p)\<rparr>))
           | Returned \<Rightarrow> None
      else None)"

text \<open>
  \<open>Run\<close>: \<open>sync\<close> is \<open>cache.WaitForCacheSync\<close>, false when the context ends first. The workers start on the queue of the operator;
  without the caches none is started and the queue is shut down.
\<close>

datatype run_error = CacheSyncFailed string

definition Run :: "'q workqueue \<Rightarrow> (informer list \<Rightarrow> bool) \<Rightarrow> 'q BaseOperator \<Rightarrow> 'w \<Rightarrow> (run_error \<times> 'q) + ('q, 'w) pool" where
  "Run wq sync c w =
     (if bo_hasSynced c \<noteq> [] \<and> \<not> sync (bo_hasSynced c)
      then Inl (CacheSyncFailed (bo_name c), q_ShutDown wq (bo_queue c))
      else Inr \<lparr>pl_queue = bo_queue c, pl_world = w, pl_workers = replicate (nat (bo_workers c)) Getting\<rparr>)"

text \<open>After the end of the context and the delay, the deferred \<open>ShutDown\<close>.\<close>

definition run_end :: "'q workqueue \<Rightarrow> ('q, 'w) pool \<Rightarrow> ('q, 'w) pool" where
  "run_end wq p = p\<lparr>pl_queue := q_ShutDown wq (pl_queue p)\<rparr>"

text \<open>What happens in a running operator: a handler or emitter adds an item, the timer of a delayed item ends, a worker moves, the operator stops.\<close>

datatype pool_event = Emit WorkItem | Due WorkItem | Move nat | Cancel

inductive pool_step :: "'q workqueue \<Rightarrow> ('w, 'e) Router \<Rightarrow> ('q, 'w) pool \<Rightarrow> pool_event \<Rightarrow> ('q, 'w) pool \<Rightarrow> bool"
  for wq :: "'q workqueue" and r :: "('w, 'e) Router" where
  ps_emit: "pool_step wq r p (Emit it) (p\<lparr>pl_queue := q_Add wq it (pl_queue p)\<rparr>)"
| ps_due: "q_Due wq it (pl_queue p) = Some q \<Longrightarrow> pool_step wq r p (Due it) (p\<lparr>pl_queue := q\<rparr>)"
| ps_move: "worker wq r i p = Some p' \<Longrightarrow> pool_step wq r p (Move i) p'"
| ps_cancel: "pool_step wq r p Cancel (run_end wq p)"

inductive pool_run :: "'q workqueue \<Rightarrow> ('w, 'e) Router \<Rightarrow> ('q, 'w) pool \<Rightarrow> (pool_event \<times> ('q, 'w) pool) list \<Rightarrow> ('q, 'w) pool \<Rightarrow> bool"
  for wq :: "'q workqueue" and r :: "('w, 'e) Router" and p0 :: "('q, 'w) pool" where
  pr_start: "pool_run wq r p0 [] p0"
| pr_step: "pool_run wq r p0 tr p \<Longrightarrow> pool_step wq r p ev p' \<Longrightarrow> pool_run wq r p0 (tr @ [(ev, p)]) p'"


inductive_cases pool_step_cases: "pool_step wq r p ev p'"

inductive_simps pool_step_simps [simp]:
  "pool_step wq r p (Emit it) p'" "pool_step wq r p (Due it) p'" "pool_step wq r p (Move i) p'" "pool_step wq r p Cancel p'"

text \<open>
  The work that is owed after a history: the items added since a worker last took them, and the items whose reconciliation
  failed since. The entries carry the state before each event.
\<close>

definition owed_step :: "'q workqueue \<Rightarrow> ('w, 'e) Router \<Rightarrow> pool_event \<times> ('q, 'w) pool \<Rightarrow> WorkItem set \<Rightarrow> WorkItem set" where
  "owed_step wq r = (\<lambda>(ev, p) S.
     (case ev of
        Emit it \<Rightarrow> insert it S
      | Move i \<Rightarrow>
          (case pl_workers p ! i of
             Getting \<Rightarrow> (case q_Get wq (pl_queue p) of Item it q \<Rightarrow> S - {it} | _ \<Rightarrow> S)
           | Reconciling it \<Rightarrow>
               (case fst (ReconcileEvent r (wi_Source it) (wi_Event it) (wi_Resource it) (pl_world p)) of
                  Some err \<Rightarrow> insert it S | None \<Rightarrow> S)
           | _ \<Rightarrow> S)
      | _ \<Rightarrow> S))"

definition owed :: "'q workqueue \<Rightarrow> ('w, 'e) Router \<Rightarrow> (pool_event \<times> ('q, 'w) pool) list \<Rightarrow> WorkItem set" where
  "owed wq r tr = fold (owed_step wq r) tr {}"

text \<open>The item a worker has taken and not yet released.\<close>

fun held :: "phase \<Rightarrow> WorkItem option" where
  "held (Reconciling it) = Some it"
| "held (Failed it) = Some it"
| "held (Succeeded it) = Some it"
| "held (Releasing it) = Some it"
| "held _ = None"

definition holders :: "('q, 'w) pool \<Rightarrow> nat \<Rightarrow> WorkItem option" where
  "holders p i = (if i < length (pl_workers p) then held (pl_workers p ! i) else None)"

definition sole :: "(nat \<Rightarrow> WorkItem option) \<Rightarrow> bool" where
  "sole m \<longleftrightarrow> (\<forall>i j x. m i = Some x \<longrightarrow> m j = Some x \<longrightarrow> i = j)"

text \<open>The items whose retry is not yet asked for.\<close>

definition failing :: "('q, 'w) pool \<Rightarrow> WorkItem set" where
  "failing p = {it. Failed it \<in> set (pl_workers p)}"

text \<open>How far a worker is from its next \<open>Get\<close>.\<close>

fun rank :: "phase \<Rightarrow> nat" where
  "rank (Reconciling it) = 3"
| "rank (Failed it) = 2"
| "rank (Succeeded it) = 2"
| "rank (Releasing it) = 1"
| "rank _ = 0"

text \<open>How far an item is from being handed out: it may have to be let back, other items may go first, workers may be busy.\<close>

definition distance :: "('q \<Rightarrow> WorkItem set) \<Rightarrow> WorkItem \<Rightarrow> ('q, 'w) pool \<Rightarrow> nat \<times> nat \<times> nat" where
  "distance dirty x p =
     (if x \<in> dirty (pl_queue p) then 0 else 1, card (dirty (pl_queue p)), sum_list (map rank (pl_workers p)))"

abbreviation nearer :: "((nat \<times> nat \<times> nat) \<times> nat \<times> nat \<times> nat) set" where
  "nearer \<equiv> less_than <*lex*> less_than <*lex*> less_than"

text \<open>Events that need nothing from outside the pool.\<close>

fun internal :: "pool_event \<Rightarrow> bool" where
  "internal (Move i) = True"
| "internal (Due it) = True"
| "internal _ = False"

text \<open>What the queue has handed out is what the workers hold, and no two of them hold the same item.\<close>

definition pool_inv :: "('q \<Rightarrow> bool) \<Rightarrow> ('q \<Rightarrow> WorkItem set) \<Rightarrow> ('q, 'w) pool \<Rightarrow> bool" where
  "pool_inv invar processing p \<longleftrightarrow>
     invar (pl_queue p) \<and> processing (pl_queue p) = ran (holders p) \<and> sole (holders p)"

lemma set_phase_sel [simp]:
  "pl_queue (set_phase i ph p) = pl_queue p" "pl_world (set_phase i ph p) = pl_world p"
  "pl_workers (set_phase i ph p) = (pl_workers p)[i := ph]"
  by (simp_all add: set_phase_def)

lemma holders_upd [simp]:
  "holders (p\<lparr>pl_queue := q\<rparr>) = holders p" "holders (p\<lparr>pl_world := w\<rparr>) = holders p" "holders (run_end wq p) = holders p"
  by (simp_all add: holders_def run_end_def fun_eq_iff)

lemma holders_set_phase [simp]: "i < length (pl_workers p) \<Longrightarrow> holders (set_phase i ph p) = (holders p)(i := held ph)"
  by (auto simp: holders_def fun_eq_iff)

lemma holders_keep: "holders p i = held ph \<Longrightarrow> i < length (pl_workers p) \<Longrightarrow> holders (set_phase i ph p) = holders p"
  by (auto simp: fun_eq_iff)

lemma ran_release: "m i = Some x \<Longrightarrow> sole m \<Longrightarrow> ran (m(i := None)) = ran m - {x}"
  unfolding sole_def ran_def by (auto split: if_splits) (metis option.inject)

lemma ran_idle: "m i = None \<Longrightarrow> m(i := None) = m"
  by (rule ext) simp

lemma sole_take: "x \<notin> ran m \<Longrightarrow> sole m \<Longrightarrow> sole (m(i := Some x))"
  by (auto simp: sole_def ran_def)

lemma sole_release: "sole m \<Longrightarrow> sole (m(i := None))"
  by (auto simp: sole_def)

lemma pool_run_prepend: "pool_step wq r p ev p1 \<Longrightarrow> pool_run wq r p1 tr p2 \<Longrightarrow> pool_run wq r p ((ev, p) # tr) p2"
proof (rotate_tac, induction rule: pool_run.induct)
  case pr_start
  then show ?case using pool_run.pr_step [OF pool_run.pr_start, of wq r p ev p1] by simp
next
  case (pr_step tr q ev' q')
  then show ?case using pool_run.pr_step [of wq r p "(ev, p) # tr" q ev' q'] by simp
qed

subsection \<open>The documented behaviour of the queue\<close>

text \<open>
  The items that wait (\<open>dirty\<close>), the items handed out and not yet done (\<open>processing\<close>) and the items whose rate limiter has not yet let them
  back (\<open>delayed\<close>). An item handed out is not handed out again before it is done; an item added meanwhile waits.
\<close>

locale work_queue =
  fixes wq :: "'q workqueue" and invar :: "'q \<Rightarrow> bool"
    and dirty processing delayed :: "'q \<Rightarrow> WorkItem set" and down :: "'q \<Rightarrow> bool"
  assumes finite_dirty: "invar q \<Longrightarrow> finite (dirty q)"
    and add: "invar q \<Longrightarrow> invar (q_Add wq x q) \<and> dirty (q_Add wq x q) = (if down q then dirty q else insert x (dirty q)) \<and>
      processing (q_Add wq x q) = processing q \<and> delayed (q_Add wq x q) = delayed q \<and> down (q_Add wq x q) = down q"
    and get: "invar q \<Longrightarrow> q_Get wq q = Item x q' \<Longrightarrow> invar q' \<and> x \<in> dirty q \<and> x \<notin> processing q \<and> dirty q' = dirty q - {x} \<and>
      processing q' = insert x (processing q) \<and> delayed q' = delayed q \<and> down q' = down q"
    and get_ready: "invar q \<Longrightarrow> \<not> dirty q \<subseteq> processing q \<Longrightarrow> \<exists>x q'. q_Get wq q = Item x q'"
    and get_down: "invar q \<Longrightarrow> q_Get wq q = ShutDown \<Longrightarrow> down q"
    and finished: "invar q \<Longrightarrow> invar (q_Done wq x q) \<and> dirty (q_Done wq x q) = dirty q \<and>
      processing (q_Done wq x q) = processing q - {x} \<and> delayed (q_Done wq x q) = delayed q \<and> down (q_Done wq x q) = down q"
    and limited: "invar q \<Longrightarrow> invar (q_AddRateLimited wq x q) \<and> dirty (q_AddRateLimited wq x q) = dirty q \<and>
      processing (q_AddRateLimited wq x q) = processing q \<and>
      delayed (q_AddRateLimited wq x q) = (if down q then delayed q else insert x (delayed q)) \<and>
      down (q_AddRateLimited wq x q) = down q"
    and forget: "invar q \<Longrightarrow> invar (q_Forget wq x q) \<and> dirty (q_Forget wq x q) = dirty q \<and>
      processing (q_Forget wq x q) = processing q \<and> delayed (q_Forget wq x q) = delayed q \<and> down (q_Forget wq x q) = down q"
    and due: "invar q \<Longrightarrow> q_Due wq x q = Some q' \<Longrightarrow> x \<in> delayed q \<and> invar q' \<and> dirty q' = (if down q then dirty q else insert x (dirty q)) \<and>
      processing q' = processing q \<and> delayed q' = delayed q - {x} \<and> down q' = down q"
    and due_ready: "invar q \<Longrightarrow> x \<in> delayed q \<Longrightarrow> \<exists>q'. q_Due wq x q = Some q'"
    and shut: "invar q \<Longrightarrow> invar (q_ShutDown wq q) \<and> dirty (q_ShutDown wq q) = dirty q \<and>
      processing (q_ShutDown wq q) = processing q \<and> delayed (q_ShutDown wq q) = delayed q \<and> down (q_ShutDown wq q)"
begin

lemma worker_inv:
  assumes "pool_inv invar processing p" "worker wq r i p = Some p'"
  shows "pool_inv invar processing p'"
proof -
  have i: "i < length (pl_workers p)" using assms(2) by (auto simp: worker_def split: if_splits)
  have inv: "invar (pl_queue p)" and pr: "processing (pl_queue p) = ran (holders p)" and inj: "sole (holders p)"
    using assms(1) by (auto simp: pool_inv_def)
  have h: "holders p i = held (pl_workers p ! i)" using i by (simp add: holders_def)
  show ?thesis
  proof (cases "pl_workers p ! i")
    case Getting
    then show ?thesis using assms(2) i h inv pr inj get [OF inv]
      by (auto simp: worker_def pool_inv_def sole_take ran_idle ran_map_upd split: get_result.splits)
  next
    case (Reconciling it)
    then show ?thesis using assms(2) i h inv pr inj
      by (auto simp: worker_def pool_inv_def fun_upd_idem split: prod.splits option.splits)
  next
    case (Releasing it)
    then show ?thesis using assms(2) i h inv pr inj finished [OF inv]
      by (auto simp: worker_def pool_inv_def ran_release sole_release)
  qed (use assms(2) i h inv pr inj limited [OF inv] forget [OF inv] in \<open>auto simp: worker_def pool_inv_def fun_upd_idem\<close>)
qed

lemma step_inv: "pool_step wq r p ev p' \<Longrightarrow> pool_inv invar processing p \<Longrightarrow> pool_inv invar processing p'"
proof (induction rule: pool_step.induct)
  case (ps_move i p p')
  then show ?case by (blast intro: worker_inv)
next
  case (ps_due it p q)
  then show ?case using due [of "pl_queue p" it q] by (simp add: pool_inv_def)
qed (simp_all add: pool_inv_def run_end_def add shut)

lemma run_inv: "pool_run wq r p0 tr p \<Longrightarrow> pool_inv invar processing p0 \<Longrightarrow> pool_inv invar processing p"
  by (induction rule: pool_run.induct) (auto intro: step_inv)

lemma worker_down: "pool_inv invar processing p \<Longrightarrow> worker wq r i p = Some p' \<Longrightarrow> down (pl_queue p') = down (pl_queue p)"
  by (auto simp: worker_def pool_inv_def get finished limited forget split: if_splits phase.splits get_result.splits prod.splits option.splits)

lemma step_down: "pool_step wq r p ev p' \<Longrightarrow> pool_inv invar processing p \<Longrightarrow> down (pl_queue p) \<Longrightarrow> down (pl_queue p')"
proof (induction rule: pool_step.induct)
  case (ps_due it p q)
  then show ?case using due [of "pl_queue p" it q] by (simp add: pool_inv_def)
next
  case (ps_move i p p')
  then show ?case using worker_down [of p r i p'] by simp
qed (simp_all add: pool_inv_def run_end_def add shut)

lemma owed_covered_move:
  assumes "worker wq r i p = Some p'" "pool_inv invar processing p" "\<not> down (pl_queue p)"
    and "S \<subseteq> dirty (pl_queue p) \<union> delayed (pl_queue p) \<union> failing p"
  shows "owed_step wq r (Move i, p) S \<subseteq> dirty (pl_queue p') \<union> delayed (pl_queue p') \<union> failing p'"
proof -
  have i: "i < length (pl_workers p)" using assms(1) by (auto simp: worker_def split: if_splits)
  have inv: "invar (pl_queue p)" using assms(2) by (auto simp: pool_inv_def)
  have keep: "failing p - {it. pl_workers p ! i = Failed it} \<subseteq> failing (set_phase i ph q)" if "pl_workers q = pl_workers p" for ph q
    using i that by (auto simp: failing_def in_set_conv_nth nth_list_update)
  show ?thesis
  proof (cases "pl_workers p ! i")
    case Getting
    note ph = this
    show ?thesis
    proof (cases "q_Get wq (pl_queue p)")
      case ShutDown
      then show ?thesis using assms(1,4) i ph keep [of p Returned] by (auto simp: worker_def owed_step_def)
    next
      case (Item it q)
      then show ?thesis using assms(1,4) i ph get [OF inv Item] keep [of "p\<lparr>pl_queue := q\<rparr>" "Reconciling it"]
        by (auto simp: worker_def owed_step_def)
    qed (use assms(1) i ph in \<open>simp add: worker_def\<close>)
  next
    case (Reconciling it)
    obtain e w where e: "ReconcileEvent r (wi_Source it) (wi_Event it) (wi_Resource it) (pl_world p) = (e, w)" by fastforce
    have "it \<in> failing (set_phase i (Failed it) (p\<lparr>pl_world := w\<rparr>))" using i by (simp add: failing_def set_update_memI)
    then show ?thesis using assms(1,4) i Reconciling e
        keep [of "p\<lparr>pl_world := w\<rparr>" "Failed it"] keep [of "p\<lparr>pl_world := w\<rparr>" "Succeeded it"]
      by (cases e) (auto simp: worker_def owed_step_def)
  next
    case (Failed it)
    let ?q = "q_AddRateLimited wq it (pl_queue p)"
    have p': "p' = set_phase i (Releasing it) (p\<lparr>pl_queue := ?q\<rparr>)" using assms(1) i Failed by (simp add: worker_def)
    have "failing p - {it} \<subseteq> failing p'" using keep [of "p\<lparr>pl_queue := ?q\<rparr>" "Releasing it"] unfolding p' Failed by simp
    then have "S \<subseteq> dirty (pl_queue p) \<union> insert it (delayed (pl_queue p)) \<union> failing p'" using assms(4) by blast
    then show ?thesis using limited [OF inv, of it] assms(3) Failed by (simp add: owed_step_def p')
  next
    case (Succeeded it)
    then show ?thesis using assms(1,4) i forget [OF inv, of it] keep [of "p\<lparr>pl_queue := q_Forget wq it (pl_queue p)\<rparr>" "Releasing it"]
      by (auto simp: worker_def owed_step_def)
  next
    case (Releasing it)
    then show ?thesis using assms(1,4) i finished [OF inv, of it] keep [of "p\<lparr>pl_queue := q_Done wq it (pl_queue p)\<rparr>" Getting]
      by (auto simp: worker_def owed_step_def)
  qed (use assms(1) i in \<open>simp add: worker_def\<close>)
qed

lemma owed_covered:
  assumes "pool_run wq r p0 tr p" "pool_inv invar processing p0" "\<not> down (pl_queue p)"
  shows "owed wq r tr \<subseteq> dirty (pl_queue p) \<union> delayed (pl_queue p) \<union> failing p"
  using assms
proof (induction rule: pool_run.induct)
  case pr_start
  then show ?case by (simp add: owed_def)
next
  case (pr_step tr p ev p')
  have inv: "pool_inv invar processing p" using pr_step.hyps(1) pr_step.prems(1) by (rule run_inv)
  then have up: "\<not> down (pl_queue p)" using pr_step.hyps(2) pr_step.prems(2) step_down by blast
  note IH = pr_step.IH [OF pr_step.prems(1) up]
  have "owed_step wq r (ev, p) (owed wq r tr) \<subseteq> dirty (pl_queue p') \<union> delayed (pl_queue p') \<union> failing p'"
    using pr_step.hyps(2)
  proof cases
    case ps_move
    then show ?thesis using owed_covered_move [OF _ inv up IH] by simp
  next
    case (ps_due it q)
    then show ?thesis using due [of "pl_queue p" it q] inv up IH by (auto simp: owed_step_def pool_inv_def failing_def)
  qed (use IH inv up in \<open>auto simp: owed_step_def pool_inv_def failing_def run_end_def add shut\<close>)
  then show ?case by (simp add: owed_def)
qed

text \<open>A worker whose loop has returned saw the queue shut down.\<close>

lemma returned_down:
  assumes "pool_run wq r p0 tr p" "pool_inv invar processing p0" "Returned \<notin> set (pl_workers p0)" "\<not> down (pl_queue p)"
  shows "Returned \<notin> set (pl_workers p)"
  using assms
proof (induction rule: pool_run.induct)
  case (pr_step tr p ev p')
  have inv: "pool_inv invar processing p" using pr_step.hyps(1) pr_step.prems(1) by (rule run_inv)
  then have up: "\<not> down (pl_queue p)" using pr_step.hyps(2) pr_step.prems(3) step_down by blast
  note IH = pr_step.IH [OF pr_step.prems(1,2) up]
  show ?case using pr_step.hyps(2)
  proof cases
    case (ps_move i)
    then show ?thesis using IH up get_down inv [unfolded pool_inv_def]
      by (auto simp: worker_def pool_inv_def dest!: subsetD [OF set_update_subset_insert]
          split: if_splits phase.splits get_result.splits prod.splits option.splits)
  qed (use IH in \<open>auto simp: run_end_def\<close>)
qed

lemma run_workers: "pool_run wq r p0 tr p \<Longrightarrow> length (pl_workers p) = length (pl_workers p0)"
  by (induction rule: pool_run.induct)
    (auto simp: run_end_def worker_def elim!: pool_step_cases split: if_splits phase.splits get_result.splits prod.splits option.splits)

text \<open>A worker that holds an item can move, keeps what waits and comes nearer to its next \<open>Get\<close>.\<close>

lemma busy_moves:
  assumes inv: "pool_inv invar processing p" and up: "\<not> down (pl_queue p)" and i: "i < length (pl_workers p)" and b: "0 < rank (pl_workers p ! i)"
  obtains p' where "worker wq r i p = Some p'" "dirty (pl_queue p') = dirty (pl_queue p)"
    "dirty (pl_queue p) \<union> delayed (pl_queue p) \<union> failing p \<subseteq> dirty (pl_queue p') \<union> delayed (pl_queue p') \<union> failing p'"
    "sum_list (map rank (pl_workers p')) < sum_list (map rank (pl_workers p))"
proof -
  have "\<exists>p'. worker wq r i p = Some p'"
    using b i by (cases "pl_workers p ! i") (auto simp: worker_def split: prod.splits option.splits)
  then obtain p' where w: "worker wq r i p = Some p'" by blast
  have d: "dirty (pl_queue p') = dirty (pl_queue p)" using w b i inv
    by (cases "pl_workers p ! i") (auto simp: worker_def pool_inv_def finished limited forget split: prod.splits option.splits)
  have c: "dirty (pl_queue p) \<union> delayed (pl_queue p) \<union> failing p \<subseteq> dirty (pl_queue p') \<union> delayed (pl_queue p') \<union> failing p'"
  proof -
    have "dirty (pl_queue p) \<union> delayed (pl_queue p) \<union> failing p
      \<subseteq> owed_step wq r (Move i, p) (dirty (pl_queue p) \<union> delayed (pl_queue p) \<union> failing p)"
      using b by (cases "pl_workers p ! i") (auto simp: owed_step_def split: option.splits)
    then show ?thesis using owed_covered_move [OF w inv up subset_refl] by blast
  qed
  have "\<exists>ph. pl_workers p' = (pl_workers p)[i := ph] \<and> rank ph < rank (pl_workers p ! i)"
    using w b i by (cases "pl_workers p ! i") (auto simp: worker_def split: prod.splits option.splits)
  then obtain ph where ph: "pl_workers p' = (pl_workers p)[i := ph]" "rank ph < rank (pl_workers p ! i)" by blast
  have "rank (pl_workers p ! i) \<le> sum_list (map rank (pl_workers p))" using i elem_le_sum_list [of i "map rank (pl_workers p)"] by simp
  then have "sum_list (map rank (pl_workers p')) + rank (pl_workers p ! i) = sum_list (map rank (pl_workers p)) + rank ph"
    using i unfolding ph(1) by (simp add: map_update sum_list_update)
  then have "sum_list (map rank (pl_workers p')) < sum_list (map rank (pl_workers p))" using ph(2) by simp
  then show ?thesis using that w d c by blast
qed

lemma idle_moves:
  assumes inv: "pool_inv invar processing p" and up: "\<not> down (pl_queue p)" and ne: "pl_workers p \<noteq> []" and nret: "Returned \<notin> set (pl_workers p)"
    and idle: "\<And>i. i < length (pl_workers p) \<Longrightarrow> rank (pl_workers p ! i) = 0" and x: "x \<in> dirty (pl_queue p) \<union> delayed (pl_queue p) \<union> failing p"
  obtains ev p' where "pool_step wq r p ev p'" "internal ev" "\<not> down (pl_queue p')"
    "Reconciling x \<in> set (pl_workers p') \<or> x \<in> dirty (pl_queue p') \<and> (distance dirty x p', distance dirty x p) \<in> nearer"
proof -
  have invar: "invar (pl_queue p)" and pr: "processing (pl_queue p) = ran (holders p)" using inv by (auto simp: pool_inv_def)
  have all: "pl_workers p ! i = Getting" if "i < length (pl_workers p)" for i
    using idle [OF that] nret that by (cases "pl_workers p ! i") (auto dest: nth_mem)
  have nofail: "failing p = {}" using all by (auto simp: failing_def in_set_conv_nth)
  have free: "processing (pl_queue p) = {}" unfolding pr by (auto simp: ran_def holders_def all split: if_splits)
  show ?thesis
  proof (cases "x \<in> dirty (pl_queue p)")
    case True
    then obtain y q where g: "q_Get wq (pl_queue p) = Item y q" using get_ready [OF invar] free by blast
    let ?p1 = "set_phase 0 (Reconciling y) (p\<lparr>pl_queue := q\<rparr>)"
    have w: "pool_step wq r p (Move 0) ?p1" using g ne all [of 0] by (simp add: worker_def)
    have q: "dirty q = dirty (pl_queue p) - {y}" "y \<in> dirty (pl_queue p)" "down q = down (pl_queue p)" using get [OF invar g] by auto
    have "card (dirty q) < card (dirty (pl_queue p))"
      unfolding q(1) using finite_dirty [OF invar] q(2) by (rule card_Diff1_less)
    then show ?thesis using that [OF w] q True up ne by (cases "y = x") (auto simp: distance_def set_update_memI)
  next
    case False
    then have "x \<in> delayed (pl_queue p)" using x nofail by blast
    then obtain q where q: "q_Due wq x (pl_queue p) = Some q" using due_ready [OF invar] by blast
    show ?thesis
      by (rule that [of "Due x" "p\<lparr>pl_queue := q\<rparr>"]) (use q due [OF invar q] up False in \<open>auto simp: distance_def\<close>)
  qed
qed

text \<open>An item that waits is handed out by some schedule of the workers and timers alone.\<close>

lemma item_is_taken:
  assumes "pool_inv invar processing p" "\<not> down (pl_queue p)" "Returned \<notin> set (pl_workers p)" "pl_workers p \<noteq> []"
    and "x \<in> dirty (pl_queue p) \<union> delayed (pl_queue p) \<union> failing p"
  shows "\<exists>tr p'. pool_run wq r p tr p' \<and> (\<forall>ev\<in>fst ` set tr. internal ev) \<and> Reconciling x \<in> set (pl_workers p')"
  using assms
proof (induction "distance dirty x p" arbitrary: p rule: wf_induct_rule [OF wf_lex_prod [OF wf_less_than wf_lex_prod [OF wf_less_than wf_less_than]]])
  case (1 p)
  note inv = "1.prems"(1) and up = "1.prems"(2) and nret = "1.prems"(3) and ne = "1.prems"(4) and x = "1.prems"(5)
  obtain ev p1 where st: "pool_step wq r p ev p1" "internal ev" "\<not> down (pl_queue p1)"
    and or: "Reconciling x \<in> set (pl_workers p1) \<or>
      x \<in> dirty (pl_queue p1) \<union> delayed (pl_queue p1) \<union> failing p1 \<and> (distance dirty x p1, distance dirty x p) \<in> nearer"
  proof (cases "\<exists>i<length (pl_workers p). 0 < rank (pl_workers p ! i)")
    case True
    then obtain i where i: "i < length (pl_workers p)" "0 < rank (pl_workers p ! i)" by blast
    obtain p1 where p1: "worker wq r i p = Some p1" "dirty (pl_queue p1) = dirty (pl_queue p)"
      "dirty (pl_queue p) \<union> delayed (pl_queue p) \<union> failing p \<subseteq> dirty (pl_queue p1) \<union> delayed (pl_queue p1) \<union> failing p1"
      "sum_list (map rank (pl_workers p1)) < sum_list (map rank (pl_workers p))"
      by (rule busy_moves [OF inv up i, of r])
    show ?thesis
      by (rule that [OF ps_move [OF p1(1)]]) (use p1 x up worker_down [OF inv p1(1)] in \<open>auto simp: distance_def\<close>)
  next
    case False
    then have idle: "rank (pl_workers p ! i) = 0" if "i < length (pl_workers p)" for i using that by auto
    show ?thesis by (rule idle_moves [OF inv up ne nret idle x, of r]) (use that in blast)+
  qed
  have r1: "pool_run wq r p [(ev, p)] p1" using pr_step [OF pr_start st(1)] by simp
  show ?case
  proof (cases "Reconciling x \<in> set (pl_workers p1)")
    case True
    then show ?thesis using r1 st(2) by (intro exI [of _ "[(ev, p)]"] exI [of _ p1]) simp
  next
    case False
    have "Returned \<notin> set (pl_workers p1)" using returned_down [OF r1 inv nret st(3)] .
    moreover have "pl_workers p1 \<noteq> []" using run_workers [OF r1] ne by auto
    ultimately obtain tr p' where "pool_run wq r p1 tr p'" "\<forall>ev\<in>fst ` set tr. internal ev" "Reconciling x \<in> set (pl_workers p')"
      using "1.hyps" [OF _ step_inv [OF st(1) inv] st(3)] or False by blast
    then show ?thesis using pool_run_prepend [OF st(1)] st(2) by (intro exI [of _ "(ev, p) # tr"] exI [of _ p']) auto
  qed
qed

text \<open>
  What every reconciliation keeps, the pool keeps: a property of the world that the reconcile functions preserve for a set of items, in a pool
  that is only ever given items of the set.
\<close>

lemma move_preserves:
  assumes w: "worker wq r i p = Some p'" and inv: "pool_inv invar processing p" and P: "P (pl_world p)"
    and S: "dirty (pl_queue p) \<union> processing (pl_queue p) \<union> delayed (pl_queue p) \<subseteq> S"
    and keeps: "\<And>it w. it \<in> S \<Longrightarrow> P w \<Longrightarrow> P (snd (ReconcileEvent r (wi_Source it) (wi_Event it) (wi_Resource it) w))"
  shows "P (pl_world p') \<and> dirty (pl_queue p') \<union> processing (pl_queue p') \<union> delayed (pl_queue p') \<subseteq> S"
proof -
  have q: "invar (pl_queue p)" and pr: "processing (pl_queue p) = ran (holders p)" using inv by (simp_all add: pool_inv_def)
  have i: "i < length (pl_workers p)" using w by (auto simp: worker_def split: if_splits)
  have held: "it \<in> S" if "held (pl_workers p ! i) = Some it" for it
    using that i S unfolding pr by (auto simp: ran_def holders_def split: if_splits)
  show ?thesis
  proof (cases "pl_workers p ! i")
    case Getting
    note ph = this
    show ?thesis
    proof (cases "q_Get wq (pl_queue p)")
      case (Item it q')
      then show ?thesis using w i ph P S get [OF q Item] by (auto simp: worker_def)
    qed (use w i ph P S in \<open>auto simp: worker_def\<close>)
  next
    case (Reconciling it)
    obtain e w1 where e: "ReconcileEvent r (wi_Source it) (wi_Event it) (wi_Resource it) (pl_world p) = (e, w1)" by fastforce
    then have "P w1" using keeps [OF held P, of it] Reconciling by simp
    then show ?thesis using w i Reconciling e S by (cases e) (auto simp: worker_def)
  next
    case (Failed it)
    then show ?thesis using w i P S held limited [OF q, of it] by (auto simp: worker_def split: if_splits)
  next
    case (Succeeded it)
    then show ?thesis using w i P S forget [OF q, of it] by (auto simp: worker_def)
  next
    case (Releasing it)
    then show ?thesis using w i P S finished [OF q, of it] by (auto simp: worker_def)
  qed (use w i in \<open>simp add: worker_def\<close>)
qed

lemma run_preserves:
  assumes "pool_run wq r p0 tr p" "pool_inv invar processing p0" "P (pl_world p0)"
    and "dirty (pl_queue p0) \<union> processing (pl_queue p0) \<union> delayed (pl_queue p0) \<subseteq> S"
    and emits: "\<And>it. Emit it \<in> fst ` set tr \<Longrightarrow> it \<in> S"
    and keeps: "\<And>it w. it \<in> S \<Longrightarrow> P w \<Longrightarrow> P (snd (ReconcileEvent r (wi_Source it) (wi_Event it) (wi_Resource it) w))"
  shows "P (pl_world p) \<and> dirty (pl_queue p) \<union> processing (pl_queue p) \<union> delayed (pl_queue p) \<subseteq> S"
  using assms(1-5)
proof (induction rule: pool_run.induct)
  case (pr_step tr p ev p')
  have inv: "pool_inv invar processing p" using pr_step.hyps(1) pr_step.prems(1) by (rule run_inv)
  then have q: "invar (pl_queue p)" by (simp add: pool_inv_def)
  have IH: "P (pl_world p)" "dirty (pl_queue p) \<union> processing (pl_queue p) \<union> delayed (pl_queue p) \<subseteq> S"
    using pr_step.IH pr_step.prems by auto
  show ?case using pr_step.hyps(2)
  proof cases
    case (ps_emit it)
    then show ?thesis using IH add [OF q, of it] pr_step.prems(4) [of it] by (auto split: if_splits)
  next
    case (ps_due it q')
    then show ?thesis using IH due [OF q, of it q'] by (auto split: if_splits)
  next
    case (ps_move i)
    then show ?thesis using move_preserves [OF _ inv IH keeps] by blast
  next
    case ps_cancel
    then show ?thesis using IH shut [OF q] by (simp add: run_end_def)
  qed
qed simp

end

subsection \<open>A queue in memory\<close>

text \<open>The documented behaviour as a first-in first-out queue: the items in order, what is dirty, in processing, delayed, and the shutdown flag.\<close>

record fifo =
  ff_queue :: "WorkItem list"
  ff_dirty :: "WorkItem list"
  ff_processing :: "WorkItem list"
  ff_delayed :: "WorkItem list"
  ff_down :: bool

definition fifo_empty :: fifo where
  "fifo_empty = \<lparr>ff_queue = [], ff_dirty = [], ff_processing = [], ff_delayed = [], ff_down = False\<rparr>"

definition fifo_add :: "WorkItem \<Rightarrow> fifo \<Rightarrow> fifo" where
  "fifo_add x q =
     (if ff_down q \<or> x \<in> set (ff_dirty q) then q
      else q\<lparr>ff_dirty := x # ff_dirty q, ff_queue := (if x \<in> set (ff_processing q) then ff_queue q else ff_queue q @ [x])\<rparr>)"

definition fifo_get :: "fifo \<Rightarrow> fifo get_result" where
  "fifo_get q =
     (case ff_queue q of
        [] \<Rightarrow> if ff_down q then ShutDown else Blocks
      | x # xs \<Rightarrow> Item x (q\<lparr>ff_queue := xs, ff_dirty := removeAll x (ff_dirty q), ff_processing := x # ff_processing q\<rparr>))"

definition fifo_done :: "WorkItem \<Rightarrow> fifo \<Rightarrow> fifo" where
  "fifo_done x q =
     q\<lparr>ff_processing := removeAll x (ff_processing q),
       ff_queue := (if x \<in> set (ff_dirty q) \<and> x \<notin> set (ff_queue q) then ff_queue q @ [x] else ff_queue q)\<rparr>"

definition fifo_limited :: "WorkItem \<Rightarrow> fifo \<Rightarrow> fifo" where
  "fifo_limited x q = (if ff_down q then q else q\<lparr>ff_delayed := x # ff_delayed q\<rparr>)"

definition fifo_due :: "WorkItem \<Rightarrow> fifo \<Rightarrow> fifo option" where
  "fifo_due x q = (if x \<in> set (ff_delayed q) then Some (fifo_add x (q\<lparr>ff_delayed := removeAll x (ff_delayed q)\<rparr>)) else None)"

definition fifo_queue :: "fifo workqueue" where
  "fifo_queue = \<lparr>q_Add = fifo_add, q_Get = fifo_get, q_Done = fifo_done, q_AddRateLimited = fifo_limited, q_Forget = (\<lambda>x q. q),
     q_Due = fifo_due, q_ShutDown = (\<lambda>q. q\<lparr>ff_down := True\<rparr>)\<rparr>"

definition fifo_inv :: "fifo \<Rightarrow> bool" where
  "fifo_inv q \<longleftrightarrow> distinct (ff_queue q) \<and> set (ff_queue q) = set (ff_dirty q) - set (ff_processing q)"

lemma fifo_add_laws:
  assumes "fifo_inv q"
  shows "fifo_inv (fifo_add x q)" "set (ff_dirty (fifo_add x q)) = (if ff_down q then set (ff_dirty q) else insert x (set (ff_dirty q)))"
    "ff_processing (fifo_add x q) = ff_processing q" "ff_delayed (fifo_add x q) = ff_delayed q" "ff_down (fifo_add x q) = ff_down q"
proof -
  have "set (ff_queue q) = set (ff_dirty q) - set (ff_processing q)" "distinct (ff_queue q)" using assms by (simp_all add: fifo_inv_def)
  then show "fifo_inv (fifo_add x q)" by (cases "x \<in> set (ff_processing q)") (simp_all add: fifo_inv_def fifo_add_def insert_Diff_if)
qed (auto simp: fifo_add_def)

lemma fifo_done_inv: "fifo_inv q \<Longrightarrow> fifo_inv (fifo_done x q)"
  unfolding fifo_inv_def fifo_done_def by (cases "x \<in> set (ff_dirty q)"; cases "x \<in> set (ff_processing q)") (simp_all, blast+)

lemma fifo_inv_delayed [simp]: "fifo_inv (q\<lparr>ff_delayed := d\<rparr>) = fifo_inv q" "fifo_inv (q\<lparr>ff_down := b\<rparr>) = fifo_inv q"
  by (simp_all add: fifo_inv_def)

interpretation fq: work_queue fifo_queue fifo_inv "\<lambda>q. set (ff_dirty q)" "\<lambda>q. set (ff_processing q)" "\<lambda>q. set (ff_delayed q)" ff_down
proof (unfold_locales, goal_cases)
  case (3 q x q')
  then obtain xs where xs: "ff_queue q = x # xs"
    and q': "q' = q\<lparr>ff_queue := xs, ff_dirty := removeAll x (ff_dirty q), ff_processing := x # ff_processing q\<rparr>"
    by (simp add: fifo_queue_def fifo_get_def split: list.splits if_splits)
  have s: "insert x (set xs) = set (ff_dirty q) - set (ff_processing q)" "x \<notin> set xs" "distinct xs" using 3(1) xs by (simp_all add: fifo_inv_def)
  then have "set xs = set (ff_dirty q) - set (ff_processing q) - {x}" "x \<in> set (ff_dirty q) - set (ff_processing q)" by blast+
  then show ?case using s(3) by (simp add: q' fifo_inv_def) blast
next
  case (4 q)
  then have "ff_queue q \<noteq> []" by (auto simp: fifo_inv_def)
  then show ?case by (simp add: fifo_queue_def fifo_get_def neq_Nil_conv) fastforce
next
  case (9 q x q')
  then have "x \<in> set (ff_delayed q)" "q' = fifo_add x (q\<lparr>ff_delayed := removeAll x (ff_delayed q)\<rparr>)"
    by (simp_all add: fifo_queue_def fifo_due_def split: if_splits)
  then show ?case using 9(1) fifo_add_laws [of "q\<lparr>ff_delayed := removeAll x (ff_delayed q)\<rparr>" x] by simp
next
  case (6 q x)
  then show ?case using fifo_done_inv [of q x] by (simp add: fifo_queue_def fifo_done_def)
qed (simp_all add: fifo_queue_def fifo_add_laws fifo_get_def fifo_limited_def fifo_due_def split: list.splits if_splits)

subsection \<open>What an operator guarantees\<close>

text \<open>The default extractor never fails, so an operator with it enqueues what \<open>Operator_Base.EnqueueObjectWith\<close> says.\<close>

lemma bo_EnqueueObjectWith_default:
  "bo_resourceFunc c = (\<lambda>obj. Inr (DefaultResourceFunc obj)) \<Longrightarrow> bo_EnqueueObjectWith c = EnqueueObjectWith"
  by (simp add: bo_EnqueueObjectWith_def EnqueueObjectWith_def fun_eq_iff Let_def)

text \<open>Every informer that has a handler is one that \<open>Run\<close> waits for, whichever way it was registered.\<close>

definition awaited :: "'q BaseOperator \<times> handler_table \<Rightarrow> bool" where
  "awaited = (\<lambda>(c, tab). fst ` set tab \<subseteq> set (bo_hasSynced c))"

lemma awaited_register:
  "awaited s \<Longrightarrow> awaited (AddDefaultInformerHandlers infm src a u d s)"
  "awaited s \<Longrightarrow> awaited (AddInformerWithHandlers infm hs s)"
  "awaited (c, tab) \<Longrightarrow> awaited (AddInformer infm c, tab)"
  by (auto simp: awaited_def AddDefaultInformerHandlers_def AddInformerWithHandlers_def AddInformer_def List.map_filter_def split: prod.splits)

lemma awaited_RegisterEventHandlers: "awaited s \<Longrightarrow> awaited (RegisterEventHandlers regs s)"
proof (induction regs s rule: RegisterEventHandlers.induct)
  case (3 infm h regs c tab)
  then have "awaited (c\<lparr>bo_hasSynced := bo_hasSynced c @ [infm]\<rparr>, tab @ [(infm, h)])" by (auto simp: awaited_def)
  then show ?case using 3 by simp
qed simp_all

lemma Run_synced: "Run wq sync c w = Inr p \<Longrightarrow> awaited (c, tab) \<Longrightarrow> tab \<noteq> [] \<Longrightarrow> sync (bo_hasSynced c) \<and> fst ` set tab \<subseteq> set (bo_hasSynced c)"
  by (auto simp: Run_def awaited_def split: if_splits)

lemma Run_unsynced: "bo_hasSynced c \<noteq> [] \<Longrightarrow> \<not> sync (bo_hasSynced c) \<Longrightarrow> Run wq sync c w = Inl (CacheSyncFailed (bo_name c), q_ShutDown wq (bo_queue c))"
  by (simp add: Run_def)

text \<open>A source emits what its messages map to, up to the first end of the context or of the channel.\<close>

lemma BindChannel_prefix:
  "BindChannel f (map Received vs @ c # cs) =
     (case c of Received v \<Rightarrow> BindChannel f (map Received vs) @ BindChannel f (c # cs) | _ \<Rightarrow> BindChannel f (map Received vs))"
  by (induction vs) (auto split: channel_case.splits)

lemma Periodic_ticks:
  "every > 0 \<Longrightarrow> Periodic every src ev rs (replicate n Tick @ Stopped # cs) = concat (replicate n (concat (map (EnqueueWith src ev) rs)))"
  by (cases "rs = []") (simp_all add: Periodic_def, induction n, simp_all)

text \<open>The options that keep the queue the constructor makes.\<close>

inductive_set plain_options :: "('q BaseOperator \<Rightarrow> 'q BaseOperator) set" where
  "WithWorkers n \<in> plain_options"
| "WithShutdownDrain d \<in> plain_options"
| "WithResourceFunc fn \<in> plain_options"

lemma plain_options_keep:
  "opt \<in> plain_options \<Longrightarrow> 0 < bo_workers c \<Longrightarrow> 0 < bo_workers (opt c) \<and> bo_queue (opt c) = bo_queue c"
  by (induction rule: plain_options.induct) (simp_all add: WithWorkers_def WithShutdownDrain_def WithResourceFunc_def)

lemma fold_options_keep:
  assumes "set opts \<subseteq> plain_options" "0 < bo_workers c"
  shows "0 < bo_workers (fold (\<lambda>opt c. opt c) opts c) \<and> bo_queue (fold (\<lambda>opt c. opt c) opts c) = bo_queue c"
  using assms
proof (induction opts arbitrary: c)
  case (Cons opt opts)
  then show ?case using plain_options_keep [of opt c] Cons.IH [of "opt c"] by simp
qed simp

lemma NewBaseOperator_keep:
  assumes "set opts \<subseteq> plain_options"
  shows "0 < bo_workers (NewBaseOperator q name opts)" "bo_queue (NewBaseOperator q name opts) = q"
  using fold_options_keep [OF assms] by (simp_all add: NewBaseOperator_def)

lemma Run_pool:
  assumes "set opts \<subseteq> plain_options" "Run wq sync ((NewBaseOperator q name opts)\<lparr>bo_hasSynced := infs\<rparr>) w = Inr p"
  shows "pl_queue p = q" "pl_workers p \<noteq> []" "set (pl_workers p) \<subseteq> {Getting}" "pl_world p = w"
  using assms(2) NewBaseOperator_keep [OF assms(1), of q name] by (auto simp: Run_def split: if_splits)

lemma fresh_pool_inv: "invar (pl_queue p) \<Longrightarrow> processing (pl_queue p) = {} \<Longrightarrow> set (pl_workers p) \<subseteq> {Getting} \<Longrightarrow> pool_inv invar processing p"
  by (auto simp: pool_inv_def sole_def ran_def holders_def dest!: nth_mem)

text \<open>Running a given list of events, with the history.\<close>

definition pool_do :: "'q workqueue \<Rightarrow> ('w, 'e) Router \<Rightarrow> pool_event \<Rightarrow> ('q, 'w) pool \<Rightarrow> ('q, 'w) pool option" where
  "pool_do wq r ev p =
     (case ev of
        Emit it \<Rightarrow> Some (p\<lparr>pl_queue := q_Add wq it (pl_queue p)\<rparr>)
      | Due it \<Rightarrow> map_option (\<lambda>q. p\<lparr>pl_queue := q\<rparr>) (q_Due wq it (pl_queue p))
      | Move i \<Rightarrow> worker wq r i p
      | Cancel \<Rightarrow> Some (run_end wq p))"

fun pool_exec :: "'q workqueue \<Rightarrow> ('w, 'e) Router \<Rightarrow> pool_event list \<Rightarrow> ('q, 'w) pool \<Rightarrow> ((pool_event \<times> ('q, 'w) pool) list \<times> ('q, 'w) pool) option" where
  "pool_exec wq r [] p = Some ([], p)"
| "pool_exec wq r (ev # evs) p =
     (case pool_do wq r ev p of
        None \<Rightarrow> None
      | Some p1 \<Rightarrow> map_option (\<lambda>(tr, p2). ((ev, p) # tr, p2)) (pool_exec wq r evs p1))"

lemma pool_do_step: "pool_do wq r ev p = Some p' \<longleftrightarrow> pool_step wq r p ev p'"
  by (cases ev) (auto simp: pool_do_def)

lemma pool_exec_run: "pool_exec wq r evs p = Some (tr, p') \<Longrightarrow> pool_run wq r p tr p'"
  by (induction evs arbitrary: p tr) (auto simp: pr_start pool_do_step intro: pool_run_prepend split: option.splits)

text \<open>An operator with two workers and no handler for its events, so that every reconciliation fails.\<close>

definition demo_item :: "string \<Rightarrow> WorkItem" where
  "demo_item n = \<lparr>wi_Source = ''k8s'', wi_Event = EventAdd, wi_Resource = \<lparr>rr_Group = [], rr_Version = [], rr_Kind = [], rr_Namespace = [], rr_Name = n\<rparr>\<rparr>"

definition demo_router :: "(unit, unit) Router" where
  "demo_router = NewRouter ''demo'' [] None"

definition demo_pool :: "(fifo, unit) pool" where
  "demo_pool = \<lparr>pl_queue = fifo_empty, pl_world = (), pl_workers = [Getting, Getting]\<rparr>"

definition demo_hist :: "pool_event list \<Rightarrow> (pool_event \<times> (fifo, unit) pool) list \<times> (fifo, unit) pool" where
  "demo_hist evs = the (pool_exec fifo_queue demo_router evs demo_pool)"

lemma demo_options: "set [WithWorkers 2] \<subseteq> plain_options"
  by (simp add: plain_options.intros)

lemma demo_Run: "Run fifo_queue (\<lambda>_. True) ((NewBaseOperator fifo_empty ''demo'' [WithWorkers 2])\<lparr>bo_hasSynced := [''tenants'']\<rparr>) () = Inr demo_pool"
  by (simp add: Run_def NewBaseOperator_def WithWorkers_def demo_pool_def numeral_2_eq_2)

lemma demo_fresh: "fifo_inv fifo_empty" "set (ff_processing fifo_empty) = {}"
  by (simp_all add: fifo_inv_def fifo_empty_def)

lemma demo_hist_run:
  "pool_exec fifo_queue demo_router evs demo_pool \<noteq> None \<Longrightarrow> pool_run fifo_queue demo_router demo_pool (fst (demo_hist evs)) (snd (demo_hist evs))"
  by (auto simp: demo_hist_def intro: pool_exec_run)

text \<open>
  C16. However many workers an operator has and however they interleave with handlers and timers, no work item is
  with two of them at once: what a worker has taken stays its own until it has called \<open>Done\<close>.
\<close>

theorem one_worker_per_item:
  assumes q: "work_queue wq invar dirty processing delayed down" "invar q" "processing q = {}"
    and opts: "set opts \<subseteq> plain_options"
    and run: "Run wq sync ((NewBaseOperator q name opts)\<lparr>bo_hasSynced := infs\<rparr>) w = Inr p0" "pool_run wq r p0 tr p"
    and i: "i < length (pl_workers p)" "j < length (pl_workers p)" "i \<noteq> j" and h: "held (pl_workers p ! i) = Some it"
  shows "held (pl_workers p ! j) \<noteq> Some it"
proof -
  have "pool_inv invar processing p0" using Run_pool [OF opts run(1)] q(2,3) by (intro fresh_pool_inv) simp_all
  then have "sole (holders p)" using work_queue.run_inv [OF q(1) run(2)] by (simp add: pool_inv_def)
  then show ?thesis using i h by (auto simp: sole_def holders_def)
qed

theorem one_worker_per_item_witness:
  "let p = snd (demo_hist [Emit (demo_item ''a''), Emit (demo_item ''b''), Move 0, Move 1]) in
     held (pl_workers p ! 0) = Some (demo_item ''a'') \<and> held (pl_workers p ! 1) \<noteq> Some (demo_item ''a'')"
proof -
  let ?evs = "[Emit (demo_item ''a''), Emit (demo_item ''b''), Move 0, Move 1]"
  have run: "pool_run fifo_queue demo_router demo_pool (fst (demo_hist ?evs)) (snd (demo_hist ?evs))"
    by (rule demo_hist_run) code_simp
  have h: "held (pl_workers (snd (demo_hist ?evs)) ! 0) = Some (demo_item ''a'')" "length (pl_workers (snd (demo_hist ?evs))) = 2" by code_simp+
  have "held (pl_workers (snd (demo_hist ?evs)) ! 1) \<noteq> Some (demo_item ''a'')"
    by (rule one_worker_per_item [OF fq.work_queue_axioms demo_fresh demo_options demo_Run run _ _ _ h(1)]) (unfold h(2), simp_all)
  with h(1) show ?thesis by (simp only: Let_def simp_thms)
qed

text \<open>
  C5. No work is lost while an operator runs: an item that was added, or whose reconciliation failed, after a worker last
  took it, also one added while it was being reconciled, waits in the queue, waits for its rate limiter, or is
  with the worker that is about to return it; and from there the workers and timers alone, without any further event, can bring
  it to a worker again.
\<close>

theorem owed_work_is_taken:
  assumes q: "work_queue wq invar dirty processing delayed down" "invar q" "processing q = {}"
    and opts: "set opts \<subseteq> plain_options"
    and run: "Run wq sync ((NewBaseOperator q name opts)\<lparr>bo_hasSynced := infs\<rparr>) w = Inr p0" "pool_run wq r p0 tr p"
    and up: "\<not> down (pl_queue p)" and it: "it \<in> owed wq r tr"
  shows "it \<in> dirty (pl_queue p) \<union> delayed (pl_queue p) \<union> failing p \<and>
    (\<exists>tr' p'. pool_run wq r p tr' p' \<and> (\<forall>ev\<in>fst ` set tr'. internal ev) \<and> Reconciling it \<in> set (pl_workers p'))"
proof -
  have inv0: "pool_inv invar processing p0" using Run_pool [OF opts run(1)] q(2,3) by (intro fresh_pool_inv) simp_all
  then have inv: "pool_inv invar processing p" by (rule work_queue.run_inv [OF q(1) run(2)])
  have w: "it \<in> dirty (pl_queue p) \<union> delayed (pl_queue p) \<union> failing p"
    using work_queue.owed_covered [OF q(1) run(2) inv0 up] it by blast
  have "Returned \<notin> set (pl_workers p0)" using Run_pool(3) [OF opts run(1)] by auto
  then have nret: "Returned \<notin> set (pl_workers p)" using work_queue.returned_down [OF q(1) run(2) inv0 _ up] by blast
  have ne: "pl_workers p \<noteq> []" using work_queue.run_workers [OF q(1) run(2)] Run_pool(2) [OF opts run(1)] by auto
  show ?thesis using w work_queue.item_is_taken [OF q(1) inv up nret ne w] by blast
qed

theorem owed_work_is_taken_witness:
  "let evs = [Emit (demo_item ''a''), Move 0, Emit (demo_item ''a''), Move 0] in
     demo_item ''a'' \<in> owed fifo_queue demo_router (fst (demo_hist evs)) \<and> demo_item ''a'' \<in> failing (snd (demo_hist evs)) \<and>
     (\<exists>tr' p'. pool_run fifo_queue demo_router (snd (demo_hist evs)) tr' p' \<and> Reconciling (demo_item ''a'') \<in> set (pl_workers p'))"
proof -
  let ?evs = "[Emit (demo_item ''a''), Move 0, Emit (demo_item ''a''), Move 0]"
  have run: "pool_run fifo_queue demo_router demo_pool (fst (demo_hist ?evs)) (snd (demo_hist ?evs))"
    by (rule demo_hist_run) code_simp
  have up: "\<not> ff_down (pl_queue (snd (demo_hist ?evs)))" by code_simp
  have it: "demo_item ''a'' \<in> owed fifo_queue demo_router (fst (demo_hist ?evs))" by code_simp
  have f: "Failed (demo_item ''a'') \<in> set (pl_workers (snd (demo_hist ?evs)))" by code_simp
  show ?thesis unfolding Let_def
    using owed_work_is_taken [OF fq.work_queue_axioms demo_fresh demo_options demo_Run run up it] it f by (auto simp: failing_def)
qed

end
