(* ===== verification/Kube_Client.thy ===== *)
theory Kube_Client
  imports Net_Text Orchestrator
begin

text \<open>
  The Kubernetes helpers of \<open>pkg/k8s\<close> and what they use of Go's \<open>flag\<close> and \<open>path/filepath\<close>: finding the configuration of the
  cluster, building the clients, and reading name, address and network of the node. The process environment, the files and the API
  server are the fields of \<open>kube_host\<close>, with \<open>'r\<close> the configuration of a client and \<open>'c\<close> the cluster.
\<close>

subsection \<open>The package flag\<close>

text \<open>
  One argument: where the flags end, a malformed flag, or the name of a flag and perhaps its value. All flags of the programs
  take a value.
\<close>

datatype flag_arg = NoMoreFlags | BadFlag | FlagNamed string "string option"

definition flag_arg :: "string \<Rightarrow> flag_arg" where
  "flag_arg s =
     (case s of
        a # b # r \<Rightarrow>
          if a \<noteq> CHR ''-'' then NoMoreFlags
          else if b = CHR ''-'' \<and> r = [] then NoMoreFlags
          else let name = (if b = CHR ''-'' then r else b # r) in
               if hd name = CHR ''-'' \<or> hd name = CHR ''='' then BadFlag
               else if CHR ''='' \<in> set (tl name)
                    then FlagNamed (hd name # takeWhile (\<lambda>c. c \<noteq> CHR ''='') (tl name)) (Some (tl (dropWhile (\<lambda>c. c \<noteq> CHR ''='') (tl name))))
                    else FlagNamed name None
      | _ \<Rightarrow> NoMoreFlags)"

datatype flag_error = FlagHelp | FlagSyntax

text \<open>\<open>flag.Parse\<close> over the flags defined so far; the values in the order they are set.\<close>

fun flag_Parse :: "string list \<Rightarrow> string list \<Rightarrow> flag_error + (string \<times> string) list" where
  "flag_Parse defs [] = Inr []"
| "flag_Parse defs (s # args) =
     (case flag_arg s of
        NoMoreFlags \<Rightarrow> Inr []
      | BadFlag \<Rightarrow> Inl FlagSyntax
      | FlagNamed name val \<Rightarrow>
          if name \<notin> set defs then Inl (if name = ''help'' \<or> name = ''h'' then FlagHelp else FlagSyntax)
          else case val of
                 Some v \<Rightarrow> map_sum id (Cons (name, v)) (flag_Parse defs args)
               | None \<Rightarrow> (case args of
                           [] \<Rightarrow> Inl FlagSyntax
                         | v # args' \<Rightarrow> map_sum id (Cons (name, v)) (flag_Parse defs args')))"

definition flag_value :: "(string \<times> string) list \<Rightarrow> string \<Rightarrow> string \<Rightarrow> string" where
  "flag_value vals name deflt = (case map_of (rev vals) name of None \<Rightarrow> deflt | Some v \<Rightarrow> v)"

text \<open>The flag set of a program ends it with this status when the arguments can not be parsed.\<close>

fun flag_exit :: "flag_error \<Rightarrow> int" where
  "flag_exit FlagHelp = 0"
| "flag_exit FlagSyntax = 2"

subsection \<open>The package filepath\<close>

definition clean_step :: "bool \<Rightarrow> string \<Rightarrow> string list \<Rightarrow> string list" where
  "clean_step rooted c out =
     (if c = [] \<or> c = ''.'' then out
      else if c = ''..''
           then (if out \<noteq> [] \<and> last out \<noteq> ''..'' then butlast out else if rooted then out else out @ [''..''])
      else out @ [c])"

definition path_Clean :: "string \<Rightarrow> string" where
  "path_Clean s =
     (if s = [] then ''.''
      else let rooted = (hd s = CHR ''/'');
               body = join_with (CHR ''/'') (fold (clean_step rooted) (split_on (CHR ''/'') s) [])
           in if rooted then CHR ''/'' # body else if body = [] then ''.'' else body)"

definition path_Join :: "string list \<Rightarrow> string" where
  "path_Join elems =
     (case dropWhile (\<lambda>e. e = []) elems of [] \<Rightarrow> [] | es \<Rightarrow> path_Clean (join_with (CHR ''/'') es))"

definition path_Dir :: "string \<Rightarrow> string" where
  "path_Dir s = path_Clean (rev (dropWhile (\<lambda>c. c \<noteq> CHR ''/'') (rev s)))"

subsection \<open>kube.go and crd.go\<close>

text \<open>What the programs read of a node of the cluster: its pod network and its addresses with their types.\<close>

record core_node =
  cn_Name :: string
  cn_PodCIDR :: string
  cn_Addresses :: "(string \<times> string) list"

datatype create_error = AlreadyExists | CreateFailed string

text \<open>\<open>kh_GetPod\<close> gives the node of a pod; \<open>kh_cniVersion\<close> is the field \<open>cniVersion\<close> that \<open>encoding/json\<close> reads from a file.\<close>

record ('r, 'c) kube_host =
  kh_args :: "string list"
  kh_Getenv :: "string \<Rightarrow> string"
  kh_HomeDir :: string
  kh_BuildConfigFromFlags :: "string \<Rightarrow> string + 'r"
  kh_InClusterConfig :: "string + 'r"
  kh_NewKube :: "'r \<Rightarrow> string option"
  kh_NewSetera :: "'r \<Rightarrow> string option"
  kh_ReadFile :: "string \<Rightarrow> string + string"
  kh_cniVersion :: "string \<Rightarrow> string + string"
  kh_GetPod :: "string \<Rightarrow> string \<Rightarrow> 'c \<Rightarrow> string + string"
  kh_GetNode :: "string \<Rightarrow> 'c \<Rightarrow> string + core_node"
  kh_ListNodes :: "'c \<Rightarrow> string + core_node list"
  kh_CreateNodeStore :: "NodeStore \<Rightarrow> 'c \<Rightarrow> create_error option \<times> 'c"
  kh_GetTenant :: "string \<Rightarrow> 'c \<Rightarrow> string + Tenant"
  kh_CreateTenant :: "Tenant \<Rightarrow> 'c \<Rightarrow> create_error option \<times> 'c"

datatype kube_error =
    FlagsExit int
  | ConfigErr string
  | ClientErr string
  | PodEnvMissing
  | PodErr string string string
  | PodWithoutNode string string
  | NodeErr string string
  | NodeWithoutCIDR string
  | NodeListErr string
  | NoInternalIP string

text \<open>The flag \<open>kubeconfig\<close> is defined here and the arguments are parsed at once.\<close>

definition kubeconfig_default :: "('r, 'c) kube_host \<Rightarrow> string" where
  "kubeconfig_default h = (if kh_HomeDir h \<noteq> [] then path_Join [kh_HomeDir h, ''.kube'', ''config''] else [])"

definition InitKubeConfig :: "('r, 'c) kube_host \<Rightarrow> kube_error + 'r" where
  "InitKubeConfig h =
     (case flag_Parse [''kubeconfig''] (kh_args h) of
        Inl e \<Rightarrow> Inl (FlagsExit (flag_exit e))
      | Inr vals \<Rightarrow>
          (case kh_BuildConfigFromFlags h (flag_value vals ''kubeconfig'' (kubeconfig_default h)) of
             Inr cfg \<Rightarrow> Inr cfg
           | Inl _ \<Rightarrow> (case kh_InClusterConfig h of Inl e \<Rightarrow> Inl (ConfigErr e) | Inr cfg \<Rightarrow> Inr cfg)))"

definition NewKubeClient :: "('r, 'c) kube_host \<Rightarrow> 'r \<Rightarrow> kube_error + unit" where
  "NewKubeClient h cfg = (case kh_NewKube h cfg of Some e \<Rightarrow> Inl (ClientErr e) | None \<Rightarrow> Inr ())"

definition NewSeteraClient :: "('r, 'c) kube_host \<Rightarrow> 'r \<Rightarrow> kube_error + unit" where
  "NewSeteraClient h cfg = (case kh_NewSetera h cfg of Some e \<Rightarrow> Inl (ClientErr e) | None \<Rightarrow> Inr ())"

definition InitClients :: "('r, 'c) kube_host \<Rightarrow> 'r \<Rightarrow> kube_error + unit" where
  "InitClients h cfg = (case NewKubeClient h cfg of Inl e \<Rightarrow> Inl e | Inr _ \<Rightarrow> NewSeteraClient h cfg)"

definition GetNodeName :: "('r, 'c) kube_host \<Rightarrow> 'c \<Rightarrow> kube_error + string" where
  "GetNodeName h c =
     (if kh_Getenv h ''NODE_NAME'' \<noteq> [] then Inr (kh_Getenv h ''NODE_NAME'')
      else let podName = kh_Getenv h ''POD_NAME''; podNamespace = kh_Getenv h ''POD_NAMESPACE'' in
           if podName = [] \<or> podNamespace = [] then Inl PodEnvMissing
           else case kh_GetPod h podNamespace podName c of
                  Inl e \<Rightarrow> Inl (PodErr podName podNamespace e)
                | Inr node \<Rightarrow> if node = [] then Inl (PodWithoutNode podName podNamespace) else Inr node)"

definition GetNodeCIDR :: "('r, 'c) kube_host \<Rightarrow> string \<Rightarrow> 'c \<Rightarrow> kube_error + string" where
  "GetNodeCIDR h nodeName c =
     (case kh_GetNode h nodeName c of
        Inl e \<Rightarrow> Inl (NodeErr nodeName e)
      | Inr node \<Rightarrow> if cn_PodCIDR node = [] then Inl (NodeWithoutCIDR nodeName) else Inr (cn_PodCIDR node))"

text \<open>A list with one element, the list of the nodes.\<close>

definition GetNodes :: "('r, 'c) kube_host \<Rightarrow> 'c \<Rightarrow> kube_error + core_node list list" where
  "GetNodes h c = (case kh_ListNodes h c of Inl e \<Rightarrow> Inl (NodeListErr e) | Inr nodes \<Rightarrow> Inr [nodes])"

definition NodeInternalIP :: string where "NodeInternalIP = ''InternalIP''"

fun internal_ip :: "(string \<times> string) list \<Rightarrow> string option" where
  "internal_ip [] = None"
| "internal_ip ((ty, adr) # adrs) = (if ty = NodeInternalIP then Some adr else internal_ip adrs)"

definition GetNodeIP :: "('r, 'c) kube_host \<Rightarrow> string \<Rightarrow> 'c \<Rightarrow> kube_error + string" where
  "GetNodeIP h nodeName c =
     (if kh_Getenv h ''NODE_IP'' \<noteq> [] then Inr (kh_Getenv h ''NODE_IP'')
      else case kh_GetNode h nodeName c of
             Inl e \<Rightarrow> Inl (NodeErr nodeName e)
           | Inr node \<Rightarrow> (case internal_ip (cn_Addresses node) of Some ip \<Rightarrow> Inr ip | None \<Rightarrow> Inl (NoInternalIP nodeName)))"

subsection \<open>What the helpers give\<close>

lemma GetNodeName_nonempty: "GetNodeName h c = Inr n \<Longrightarrow> n \<noteq> []"
  by (auto simp: GetNodeName_def Let_def split: if_splits sum.splits)

lemma GetNodeCIDR_nonempty: "GetNodeCIDR h n c = Inr s \<Longrightarrow> s \<noteq> []"
  by (auto simp: GetNodeCIDR_def split: if_splits sum.splits)

lemma internal_ip_first:
  "internal_ip adrs = (case filter (\<lambda>(ty, _). ty = NodeInternalIP) adrs of [] \<Rightarrow> None | (_, adr) # _ \<Rightarrow> Some adr)"
  by (induction adrs rule: internal_ip.induct) auto

text \<open>A flag that is not defined stops the parser, with status 2 unless it asks for help.\<close>

lemma flag_Parse_undefined:
  "flag_arg s = FlagNamed name val \<Longrightarrow> name \<notin> set defs \<Longrightarrow> name \<noteq> ''help'' \<Longrightarrow> name \<noteq> ''h'' \<Longrightarrow> flag_Parse defs (s # args) = Inl FlagSyntax"
  by simp

lemma flag_arg_double:
  "name \<noteq> [] \<Longrightarrow> hd name \<notin> {CHR ''-'', CHR ''=''} \<Longrightarrow> CHR ''='' \<notin> set name \<Longrightarrow>
    flag_arg (''--'' @ name) = FlagNamed name None \<and> flag_arg (''--'' @ name @ CHR ''='' # v) = FlagNamed name (Some v)"
  by (cases name) (auto simp: flag_arg_def Let_def takeWhile_append dropWhile_append)

text \<open>A defined flag that is given as \<open>--name=value\<close> has that value.\<close>

lemma flag_Parse_value:
  assumes "name \<in> set defs" "name \<noteq> []" "hd name \<notin> {CHR ''-'', CHR ''=''}" "CHR ''='' \<notin> set name"
  shows "map_sum id (\<lambda>vals. flag_value vals name d) (flag_Parse defs [''--'' @ name @ CHR ''='' # v]) = Inr v"
  using assms flag_arg_double [of name v] by (simp add: flag_value_def)

end
