(* ===== verification/Socket_Server.thy ===== *)
theory Socket_Server
  imports Kube_Client CNI_Properties
begin

text \<open>
  The socket of the daemon: binding it with restricted permissions, the accept loop of \<open>pkg/transport/uds/server.go\<close>, starting the
  CNI server on it, and the log file of the plugin. The file system is a record of functions over its own state; the locale \<open>files\<close> states what
  POSIX documents of them.
\<close>

unbundle bit_operations_syntax

subsection \<open>server.go: Listen and ServeLoop\<close>

text \<open>The file modes of the sources, which write them in octal.\<close>

abbreviation mode_0700 :: uint32 where "mode_0700 \<equiv> 0x1C0"
abbreviation mode_0600 :: uint32 where "mode_0600 \<equiv> 0x180"
abbreviation mode_0755 :: uint32 where "mode_0755 \<equiv> 0x1ED"
abbreviation mode_0644 :: uint32 where "mode_0644 \<equiv> 0x1A4"

record 'f file_calls =
  fc_Remove :: "string \<Rightarrow> 'f \<Rightarrow> string option \<times> 'f"
  fc_MkdirAll :: "string \<Rightarrow> uint32 \<Rightarrow> 'f \<Rightarrow> string option \<times> 'f"
  fc_Listen :: "string \<Rightarrow> 'f \<Rightarrow> string option \<times> 'f"
  fc_Chmod :: "string \<Rightarrow> uint32 \<Rightarrow> 'f \<Rightarrow> string option \<times> 'f"
  fc_OpenAppend :: "string \<Rightarrow> uint32 \<Rightarrow> 'f \<Rightarrow> string option \<times> 'f"
  fc_Stat :: "string \<Rightarrow> 'f \<Rightarrow> file_info option"

text \<open>The errors of \<open>Remove\<close> and \<open>Chmod\<close> are dropped. The listener is known by its path.\<close>

definition Listen :: "'f file_calls \<Rightarrow> string \<Rightarrow> ('f, string, string) prog" where
  "Listen fc socketPath f =
     (let f1 = snd (fc_Remove fc socketPath f) in
      case fc_MkdirAll fc (path_Dir socketPath) mode_0700 f1 of
        (Some e, f2) \<Rightarrow> (Inl e, f2)
      | (None, f2) \<Rightarrow>
          (case fc_Listen fc socketPath f2 of
             (Some e, f3) \<Rightarrow> (Inl e, f3)
           | (None, f3) \<Rightarrow> (Inr socketPath, snd (fc_Chmod fc socketPath mode_0600 f3))))"

text \<open>What \<open>Accept\<close> gives, with the time; the loop hands each connection with its deadline to a goroutine, and ends with an error.\<close>

datatype 'a accept = Accepted 'a int | TemporaryError | FatalError string

fun ServeLoop :: "'a accept list \<Rightarrow> ('a \<times> int) list \<times> string option" where
  "ServeLoop [] = ([], None)"
| "ServeLoop (TemporaryError # as) = ServeLoop as"
| "ServeLoop (FatalError e # as) = ([], Some e)"
| "ServeLoop (Accepted c now # as) = (case ServeLoop as of (cs, e) \<Rightarrow> ((c, now + 60 * 1000000000) # cs, e))"

definition ValidateSocketPermissions_path :: "'f file_calls \<Rightarrow> string \<Rightarrow> (perm_options \<Rightarrow> perm_options) list \<Rightarrow> 'f \<Rightarrow> perm_error option" where
  "ValidateSocketPermissions_path fc sock opts f =
     ValidateSocketPermissions (fc_Stat fc (path_Dir sock) f) (fc_Stat fc sock f) opts"

subsection \<open>cniserver.go: Start and Run\<close>

definition SetRouter :: "'s pod_router option \<Rightarrow> ('s, 'c) cni_deps \<Rightarrow> ('s, 'c) cni_deps" where
  "SetRouter rt env = env\<lparr>cd_router := rt\<rparr>"

definition cni_Start :: "'f file_calls \<Rightarrow> string \<Rightarrow> ('f, string, string) prog" where
  "cni_Start fc socketPath f = (case Listen fc socketPath f of (Inl e, f1) \<Rightarrow> (Inl e, f1) | (Inr ln, f1) \<Rightarrow> (Inr ln, f1))"

definition cni_Run :: "'f file_calls \<Rightarrow> string \<Rightarrow> 'f \<Rightarrow> string option \<times> 'f" where
  "cni_Run fc socketPath f = (case cni_Start fc socketPath f of (Inl e, f1) \<Rightarrow> (Some e, f1) | (Inr _, f1) \<Rightarrow> (None, f1))"

subsection \<open>logging.go of the plugin\<close>

definition openLogFile :: "'f file_calls \<Rightarrow> string \<Rightarrow> ('f, string, string) prog" where
  "openLogFile fc path f =
     (case fc_MkdirAll fc (path_Dir path) mode_0755 f of
        (Some e, f1) \<Rightarrow> (Inl e, f1)
      | (None, f1) \<Rightarrow> (case fc_OpenAppend fc path mode_0644 f1 of (Some e, f2) \<Rightarrow> (Inl e, f2) | (None, f2) \<Rightarrow> (Inr path, f2)))"

text \<open>\<open>None\<close> is the logger that stays on standard error.\<close>

definition LoadLogFile :: "'f file_calls \<Rightarrow> (string \<Rightarrow> string) \<Rightarrow> 'f \<Rightarrow> string option \<times> 'f" where
  "LoadLogFile fc getenv f =
     (let logFile = (if getenv ''LOG_FILE'' = [] then ''/var/log/setera-cni.log'' else getenv ''LOG_FILE'') in
      case openLogFile fc logFile f of (Inl e, f1) \<Rightarrow> (None, f1) | (Inr p, f1) \<Rightarrow> (Some p, f1))"

subsection \<open>What POSIX documents\<close>

text \<open>
  \<open>uid\<close> and \<open>gid\<close> are those of the process. Making directories keeps a directory that exists and gives a new one at most the permissions asked for; binding
  makes a socket of the process; the owner of a file may change its permissions.
\<close>

locale files =
  fixes fc :: "'f file_calls" and uid gid :: uint32
  assumes mkdir: "fc_MkdirAll fc d m f = (None, f') \<Longrightarrow>
      \<exists>i. fc_Stat fc d f' = Some i \<and> fi_dir i \<and> (case fc_Stat fc d f of None \<Rightarrow> fi_perm i AND NOT m = 0 | Some j \<Rightarrow> i = j)"
    and listen: "fc_Listen fc p f = (None, f') \<Longrightarrow> (\<exists>i. fc_Stat fc p f' = Some i \<and> fi_socket i \<and> fi_owner i = Some (uid, gid)) \<and>
      (\<forall>d. d \<noteq> p \<longrightarrow> fc_Stat fc d f' = fc_Stat fc d f)"
    and chmod: "fc_Stat fc p f = Some i \<Longrightarrow> fi_owner i = Some (uid, gid) \<Longrightarrow> \<exists>f'. fc_Chmod fc p m f = (None, f') \<and>
      fc_Stat fc p f' = Some (i\<lparr>fi_perm := m\<rparr>) \<and> (\<forall>d. d \<noteq> p \<longrightarrow> fc_Stat fc d f' = fc_Stat fc d f)"
    and remove: "d \<noteq> p \<Longrightarrow> fc_Stat fc d (snd (fc_Remove fc p f)) = fc_Stat fc d f"
begin

text \<open>The state after a successful \<open>Listen\<close>: a directory that is as before or private, and a socket only its owner may use.\<close>

lemma Listen_stat:
  assumes "Listen fc p f = (Inr ln, f')" "path_Dir p \<noteq> p"
  obtains i j where "fc_Stat fc (path_Dir p) f' = Some i" "fi_dir i"
    "case fc_Stat fc (path_Dir p) f of None \<Rightarrow> fi_perm i AND NOT mode_0700 = 0 | Some k \<Rightarrow> i = k"
    "fc_Stat fc p f' = Some j" "fi_socket j" "fi_perm j = mode_0600" "fi_owner j = Some (uid, gid)"
proof -
  let ?f1 = "snd (fc_Remove fc p f)"
  obtain f2 f3 where m: "fc_MkdirAll fc (path_Dir p) mode_0700 ?f1 = (None, f2)" and l: "fc_Listen fc p f2 = (None, f3)"
    and f': "f' = snd (fc_Chmod fc p mode_0600 f3)"
    using assms(1) by (auto simp: Listen_def Let_def split: prod.splits option.splits)
  obtain i where i: "fc_Stat fc (path_Dir p) f2 = Some i" "fi_dir i"
    "case fc_Stat fc (path_Dir p) f of None \<Rightarrow> fi_perm i AND NOT mode_0700 = 0 | Some k \<Rightarrow> i = k"
    using mkdir [OF m] remove [OF assms(2)] by auto
  obtain j where j: "fc_Stat fc p f3 = Some j" "fi_socket j" "fi_owner j = Some (uid, gid)" using listen [OF l] by blast
  obtain f4 where c: "fc_Chmod fc p mode_0600 f3 = (None, f4)" "fc_Stat fc p f4 = Some (j\<lparr>fi_perm := mode_0600\<rparr>)"
    "fc_Stat fc (path_Dir p) f4 = fc_Stat fc (path_Dir p) f3"
    using chmod [OF j(1,3), of "mode_0600"] assms(2) by blast
  have "fc_Stat fc (path_Dir p) f' = Some i" "fc_Stat fc p f' = Some (j\<lparr>fi_perm := mode_0600\<rparr>)"
    using c f' i(1) listen [OF l] assms(2) by simp_all
  then show ?thesis using that i j by fastforce
qed

end

lemma private_not_writable: "p AND NOT mode_0700 = 0 \<Longrightarrow> \<not> isWorldWritable (p :: uint32)"
proof -
  assume a: "p AND NOT mode_0700 = 0"
  have "NOT mode_0700 AND (2 :: uint32) = 2" by code_simp
  then have "p AND 2 = (p AND NOT mode_0700) AND 2" by (simp add: and.assoc)
  then show ?thesis using a by (simp add: isWorldWritable_def)
qed

lemma socket_mode: "\<not> isWorldWritable mode_0600" "\<not> isGroupWritable mode_0600"
  by (simp_all add: isWorldWritable_def isGroupWritable_def)

subsection \<open>A file system in memory\<close>

text \<open>Files with their information, made by root; a directory is made with exactly the permissions asked for.\<close>

definition mem_put :: "string \<Rightarrow> file_info \<Rightarrow> (string \<rightharpoonup> file_info) \<Rightarrow> string option \<times> (string \<rightharpoonup> file_info)" where
  "mem_put p i f = (None, f(p \<mapsto> i))"

definition mem_files :: "(string \<rightharpoonup> file_info) file_calls" where
  "mem_files =
     \<lparr>fc_Remove = (\<lambda>p f. (if f p = None then Some ''no such file'' else None, f(p := None))),
      fc_MkdirAll = (\<lambda>d m f. case f d of
          None \<Rightarrow> mem_put d \<lparr>fi_dir = True, fi_socket = False, fi_perm = m, fi_owner = Some (0, 0)\<rparr> f
        | Some i \<Rightarrow> (if fi_dir i then None else Some ''not a directory'', f)),
      fc_Listen = (\<lambda>p f. case f p of
          None \<Rightarrow> mem_put p \<lparr>fi_dir = False, fi_socket = True, fi_perm = mode_0755, fi_owner = Some (0, 0)\<rparr> f
        | Some _ \<Rightarrow> (Some ''address already in use'', f)),
      fc_Chmod = (\<lambda>p m f. case f p of None \<Rightarrow> (Some ''no such file'', f) | Some i \<Rightarrow> mem_put p (i\<lparr>fi_perm := m\<rparr>) f),
      fc_OpenAppend = (\<lambda>p m f. case f p of
          None \<Rightarrow> mem_put p \<lparr>fi_dir = False, fi_socket = False, fi_perm = m, fi_owner = Some (0, 0)\<rparr> f
        | Some _ \<Rightarrow> (None, f)),
      fc_Stat = (\<lambda>p f. f p)\<rparr>"

interpretation mf: files mem_files 0 0
  by unfold_locales (auto simp: mem_files_def mem_put_def split: option.splits if_splits)

subsection \<open>The guarantees\<close>

text \<open>
  C36. A daemon that runs as root serves on a socket that passes the check of the other end: after a successful \<open>Listen\<close> the
  permissions of directory and socket are accepted by \<open>ValidateSocketPermissions\<close> with its default options, unless
  the directory was there before and everybody may write to it.
\<close>

theorem listen_passes_validation:
  assumes "files fc 0 gid" "Listen fc p f = (Inr ln, f')" "path_Dir p \<noteq> p"
    and "\<And>i. fc_Stat fc (path_Dir p) f = Some i \<Longrightarrow> \<not> isWorldWritable (fi_perm i)"
  shows "ValidateSocketPermissions_path fc p [] f' = None"
proof -
  obtain i j where s: "fc_Stat fc (path_Dir p) f' = Some i" "fi_dir i"
    "case fc_Stat fc (path_Dir p) f of None \<Rightarrow> fi_perm i AND NOT mode_0700 = 0 | Some k \<Rightarrow> i = k"
    "fc_Stat fc p f' = Some j" "fi_socket j" "fi_perm j = mode_0600" "fi_owner j = Some (0, gid)"
    using files.Listen_stat [OF assms(1-3)] by blast
  have "\<not> isWorldWritable (fi_perm i)" using s(3) assms(4) private_not_writable by (cases "fc_Stat fc (path_Dir p) f") auto
  then show ?thesis using s socket_mode
    by (simp add: ValidateSocketPermissions_path_def ValidateSocketPermissions_def default_perm_options_def)
qed

theorem listen_passes_validation_witness:
  "\<exists>f'. Listen mem_files ''/run/s.sock'' Map.empty = (Inr ''/run/s.sock'', f') \<and>
     ValidateSocketPermissions_path mem_files ''/run/s.sock'' [] f' = None"
proof -
  let ?r = "Listen mem_files ''/run/s.sock'' Map.empty"
  obtain x f' where r: "?r = (x, f')" by (metis surj_pair)
  have d: "path_Dir ''/run/s.sock'' \<noteq> ''/run/s.sock''" by code_simp
  have "fst ?r = Inr ''/run/s.sock''" by (simp add: Listen_def mem_files_def mem_put_def d d [symmetric])
  then have r': "?r = (Inr ''/run/s.sock'', f')" using r by simp
  have "ValidateSocketPermissions_path mem_files ''/run/s.sock'' [] f' = None"
    by (rule listen_passes_validation [OF mf.files_axioms r' d]) (simp add: mem_files_def)
  with r' show ?thesis by blast
qed

text \<open>The accept loop hands out every connection up to the first fatal error, whatever temporary errors lie between.\<close>

lemma ServeLoop_serves:
  assumes "\<forall>a\<in>set as. \<forall>e. a \<noteq> FatalError e"
  shows "ServeLoop (as @ FatalError e # bs) =
    (List.map_filter (\<lambda>a. case a of Accepted c now \<Rightarrow> Some (c, now + 60 * 1000000000) | _ \<Rightarrow> None) as, Some e)"
  using assms by (induction as rule: ServeLoop.induct) (auto simp: List.map_filter_simps)

end
