(* ===== verification/Entry_Points.thy ===== *)
theory Entry_Points
  imports Socket_Server Operator_Run Daemon_Properties Node_Setup CNI_Plugin Admission
begin

text \<open>
  The programs of \<open>cmd\<close>: what each of them builds from its environment before it runs, in the order of the code, with the error that ends it.
  \<open>cmd/stub-daemon\<close> is the program that runs the whole node; \<open>cmd/daemon\<close> runs the operator only. The cluster, the kernel
  and the files are the world of a start; a started program is a record of the components it built.
\<close>

subsection \<open>Starting a program\<close>

record ('c, 'k, 'f) boot_world =
  bw_cluster :: 'c
  bw_kernel :: 'k
  bw_files :: 'f

datatype nodestore_failure = NsClient kube_error | NsCreate string

datatype policy_stage = StageIPForwarding | StageBridgeNetfilter | StageForwardDrop | StageMasquerade

datatype policy_failure = NoPolicyManager | PolicyStage policy_stage node_error

datatype tenant_failure = TenantList string | TenantCreate create_error

datatype boot_error =
    KubeFailed kube_error
  | ResolverFailed string
  | NodeStoreFailed nodestore_failure
  | NodeCIDRUnparsable string
  | ManagerFailed trie_error
  | PoliciesFailed policy_failure
  | EnvUnset
  | DefaultTenantFailed tenant_failure
  | OperatorNil
  | OperatorFailed run_error
  | ServeFailed string
  | ServerPanic

text \<open>The status a program exits with; a panic of the main goroutine gives 2.\<close>

fun exit_status :: "boot_error \<Rightarrow> int" where
  "exit_status (KubeFailed (FlagsExit n)) = n"
| "exit_status ServerPanic = 2"
| "exit_status _ = 1"

definition on_cluster :: "('x \<Rightarrow> boot_error) \<Rightarrow> ('c \<Rightarrow> 'x option \<times> 'c) \<Rightarrow> (('c, 'k, 'f) boot_world, boot_error, unit) prog" where
  "on_cluster wrap f w =
     (case f (bw_cluster w) of (x, c) \<Rightarrow> ((case x of None \<Rightarrow> Inr () | Some e \<Rightarrow> Inl (wrap e)), w\<lparr>bw_cluster := c\<rparr>))"

definition on_kernel :: "('x \<Rightarrow> boot_error) \<Rightarrow> ('k, 'x, 'a) prog \<Rightarrow> (('c, 'k, 'f) boot_world, boot_error, 'a) prog" where
  "on_kernel wrap f w =
     (case f (bw_kernel w) of (x, k) \<Rightarrow> ((case x of Inl e \<Rightarrow> Inl (wrap e) | Inr a \<Rightarrow> Inr a), w\<lparr>bw_kernel := k\<rparr>))"

text \<open>The object that both daemons create for their node.\<close>

definition setera_type :: "string \<Rightarrow> GroupVersionKind" where
  "setera_type kind = \<lparr>gvk_Group = ''setera.com'', gvk_Version = ''v1'', gvk_Kind = kind\<rparr>"

definition named_meta :: "string \<Rightarrow> ObjectMeta" where
  "named_meta name = \<lparr>om_Name = name, om_Namespace = [], om_ResourceVersion = [], om_Generation = 0, om_Labels = [], om_Annotations = [],
     om_Finalizers = []\<rparr>"

definition new_nodestore :: "string \<Rightarrow> string \<Rightarrow> NodeStore" where
  "new_nodestore name ip = \<lparr>st_Type = setera_type ''NodeStore'', st_Meta = named_meta name, st_Name = name, st_NodeIP = ip,
     st_Selectors = [], st_Tenants = []\<rparr>"

subsection \<open>internal/daemon/operator.go: New\<close>

text \<open>
  \<open>clients\<close> are the clients and listers. The handlers are methods of the operator and read its node name when they run.
\<close>

definition tenant_informer :: informer where "tenant_informer = ''tenants''"
definition nodestore_informer :: informer where "nodestore_informer = ''nodestores''"

definition daemon_tenant_handlers :: "string \<Rightarrow> handler_funcs" where
  "daemon_tenant_handlers env = \<lparr>AddFunc = addEventTenantHandler_daemon env, UpdateFunc = updateEventTenantHandler_daemon,
     DeleteFunc = deleteEventTenantHandler_daemon\<rparr>"

definition daemon_nodestore_handlers :: "string \<Rightarrow> handler_funcs" where
  "daemon_nodestore_handlers nodeName = \<lparr>AddFunc = addNodestoreEventHandler nodeName, UpdateFunc = updateNodestoreEventHandler nodeName,
     DeleteFunc = deleteEventNodestoretHandler\<rparr>"

definition daemon_New :: "string \<Rightarrow> (Command \<Rightarrow> 'w \<Rightarrow> 'w) option \<Rightarrow> 'w daemon \<Rightarrow> 'q BaseOperator \<times> handler_table \<Rightarrow>
    'w daemon \<times> (string \<Rightarrow> 'q BaseOperator \<times> handler_table)" where
  "daemon_New env dispatcher clients base =
     (clients\<lparr>dm_nodeName := [], dm_dp := dispatcher, dm_nmOps := None\<rparr>,
      \<lambda>nodeName. AddInformerWithHandlers nodestore_informer [Some (daemon_nodestore_handlers nodeName)]
        (AddInformerWithHandlers tenant_informer [Some (daemon_tenant_handlers env)] base))"

subsection \<open>cmd/stub-daemon/main.go\<close>

definition getSocketPath :: "('r, 'c) kube_host \<Rightarrow> string" where
  "getSocketPath h = (if kh_Getenv h ''SOCKET'' \<noteq> [] then kh_Getenv h ''SOCKET'' else ''/var/run/setera/setera.sock'')"

definition envOrDefault :: "('r, 'c) kube_host \<Rightarrow> string \<Rightarrow> string \<Rightarrow> string" where
  "envOrDefault h key def = (if kh_Getenv h key \<noteq> [] then kh_Getenv h key else def)"

definition defaultCNIConfPath :: string where "defaultCNIConfPath = ''/etc/tenantcni/cni-conf.json''"

definition initKube :: "('r, 'c) kube_host \<Rightarrow> kube_error + 'r" where
  "initKube h = (case InitKubeConfig h of Inl e \<Rightarrow> Inl e | Inr cfg \<Rightarrow> Inr cfg)"

text \<open>The client is \<open>None\<close> when nil; otherwise the index registration of its pod informer and whether the cache comes in sync.\<close>

definition initResolver :: "(((Pod \<Rightarrow> string list) \<Rightarrow> string option) \<times> bool) option \<Rightarrow> string \<Rightarrow> string + ResolverImpl \<times> ResolverImpl" where
  "initResolver kubeclient nodeName =
     (case kubeclient of
        None \<Rightarrow> Inl ''nil kubeclient''
      | Some (add_index, sync) \<Rightarrow>
          if nodeName = [] then Inl ''empty node name''
          else case NewAndStartWithClient add_index sync
                      \<lparr>cf_TenantLabelKey = ''setera.com/tenant'', cf_NodeName = nodeName, cf_DefaultTenant = ''default''\<rparr> of
                 Inl e \<Rightarrow> Inl e
               | Inr r \<Rightarrow> Inr r)"

definition ensureNodeStore :: "('r, 'c) kube_host \<Rightarrow> 'r option \<Rightarrow> string \<Rightarrow> string \<Rightarrow> 'c \<Rightarrow> nodestore_failure option \<times> 'c" where
  "ensureNodeStore h cfg nodeName nodeIP c =
     (case cfg of
        None \<Rightarrow> (None, c)
      | Some r \<Rightarrow>
          (case InitClients h r of
             Inl e \<Rightarrow> (Some (NsClient e), c)
           | Inr _ \<Rightarrow>
               (let name = (if nodeName = [] then ''unknown-node'' else nodeName) in
                case kh_CreateNodeStore h (new_nodestore name nodeIP) c of
                  (None, c1) \<Rightarrow> (None, c1)
                | (Some AlreadyExists, c1) \<Rightarrow> (None, c1)
                | (Some (CreateFailed e), c1) \<Rightarrow> (Some (NsCreate e), c1))))"

definition loadCNIVersion :: "('r, 'c) kube_host \<Rightarrow> string \<Rightarrow> string + string" where
  "loadCNIVersion h path =
     (case kh_ReadFile h path of
        Inl e \<Rightarrow> Inl e
      | Inr data \<Rightarrow>
          (case kh_cniVersion h data of
             Inl e \<Rightarrow> Inl e
           | Inr v \<Rightarrow> if v = [] then Inl (''cniVersion missing in '' @ path) else Inr v))"

definition initRouter :: "(int64 option \<Rightarrow> PodAttachArgs \<Rightarrow> 'k nm \<Rightarrow> delivery) \<Rightarrow> 'k deps \<Rightarrow> 'k nm option \<Rightarrow> 'k nm pod_router option" where
  "initRouter wait d nm = (case nm of None \<Rightarrow> None | Some _ \<Rightarrow> Some (nm_router wait d))"

definition at_stage :: "policy_stage \<Rightarrow> ('k, node_error, unit) prog \<Rightarrow> ('k, policy_failure, unit) prog" where
  "at_stage st m k = (case m k of (Inl e, k1) \<Rightarrow> (Inl (PolicyStage st e), k1) | (Inr u, k1) \<Rightarrow> (Inr u, k1))"

definition initNodePolicies :: "'k node_env option \<Rightarrow> ('k, policy_failure, unit) prog" where
  "initNodePolicies mgr =
     (case mgr of
        None \<Rightarrow> p_fail NoPolicyManager
      | Some ne \<Rightarrow>
          p_bind (at_stage StageIPForwarding (EnsureIPForwarding ne)) (\<lambda>_.
          p_bind (at_stage StageBridgeNetfilter (EnsureBridgeNetfilter ne)) (\<lambda>_.
          p_bind (at_stage StageForwardDrop (EnsureForwardPolicyDrop ne)) (\<lambda>_.
          at_stage StageMasquerade (EnsureClusterMasquerade ne ''10.244.0.0/16'')))))"

text \<open>
  What the program is linked with: the node policies that the imported package registered, the handles of the network manager, the queue of
  client-go, the clients, the send of the dispatcher and the snapshots and peer calls of the network manager as the operator sees them.
\<close>

record ('r, 'c, 'k, 'f, 'q, 'w) stub_env =
  se_host :: "('r, 'c) kube_host"
  se_deps :: "'k deps"
  se_policies :: "'k node_env option"
  se_files :: "'f file_calls"
  se_pods :: "((Pod \<Rightarrow> string list) \<Rightarrow> string option) \<times> bool"
  se_queue :: 'q
  se_clients :: "'w daemon"
  se_send :: "Command \<Rightarrow> 'w \<Rightarrow> 'w"
  se_nmOps :: "'w nodestore_ops"
  se_wait :: "int64 option \<Rightarrow> PodAttachArgs \<Rightarrow> 'k nm \<Rightarrow> delivery"

record ('k, 'q, 'w) stub =
  sb_nodeName :: string
  sb_nodeIP :: string
  sb_socket :: string
  sb_root :: ipnet
  sb_resolver :: "ResolverImpl \<times> ResolverImpl"
  sb_nm :: "'k nm"
  sb_dispatcher :: Dispatcher
  sb_operator :: "'w daemon"
  sb_base :: "'q BaseOperator \<times> handler_table"
  sb_server :: CNIServer
  sb_router :: "'k nm pod_router option"
  sb_listening :: "string option"

text \<open>The components that the second half of \<open>main\<close> wires together; none of the calls changes the world.\<close>

definition stub_wire :: "('r, 'c, 'k, 'f, 'q, 'w) stub_env \<Rightarrow> string \<Rightarrow> string \<Rightarrow> ipnet \<Rightarrow> ResolverImpl \<times> ResolverImpl \<Rightarrow> 'k nm \<Rightarrow> CNIServer \<Rightarrow>
    string option \<Rightarrow> ('k, 'q, 'w) stub" where
  "stub_wire E nodeName nodeIP root res nm srv listening =
     (let base = NewBaseOperator (se_queue E) ''stub-daemon'' [];
          nm1 = SetEmitter (Some []) nm;
          dp = NewDispatcher [];
          (op0, reg) = daemon_New (kh_Getenv (se_host E) ''NODE_NAME'') (Some (se_send E)) (se_clients E) (base, []);
          op1 = SetNMOps (se_nmOps E) (SetNodeName nodeName op0)
      in \<lparr>sb_nodeName = nodeName, sb_nodeIP = nodeIP, sb_socket = getSocketPath (se_host E), sb_root = root, sb_resolver = res, sb_nm = nm1,
          sb_dispatcher = dp, sb_operator = op1, sb_base = reg nodeName, sb_server = srv,
          sb_router = initRouter (se_wait E) (se_deps E) (Some nm1), sb_listening = listening\<rparr>)"

text \<open>The end of \<open>main\<close>: an error of the socket is only logged.\<close>

definition stub_serve :: "('r, 'c, 'k, 'f, 'q, 'w) stub_env \<Rightarrow> string \<Rightarrow> string \<Rightarrow> ipnet \<Rightarrow> ResolverImpl \<times> ResolverImpl \<Rightarrow> 'k nm \<Rightarrow> CNIServer \<Rightarrow>
    (('c, 'k, 'f) boot_world, boot_error, ('k, 'q, 'w) stub) prog" where
  "stub_serve E nodeName nodeIP root res nm srv w =
     (let socket = getSocketPath (se_host E) in
      case cni_Run (se_files E) socket (bw_files w) of
        (err, f1) \<Rightarrow>
          (Inr (stub_wire E nodeName nodeIP root res (nm\<lparr>nm_k := bw_kernel w\<rparr>) srv
                  (case err of None \<Rightarrow> Some socket | Some _ \<Rightarrow> None)), w\<lparr>bw_files := f1\<rparr>))"

text \<open>From the network of the node on.\<close>

definition stub_node :: "('r, 'c, 'k, 'f, 'q, 'w) stub_env \<Rightarrow> string \<Rightarrow> string \<Rightarrow> ResolverImpl \<times> ResolverImpl \<Rightarrow> string \<Rightarrow> ipnet \<Rightarrow>
    (('c, 'k, 'f) boot_world, boot_error, ('k, 'q, 'w) stub) prog" where
  "stub_node E nodeName nodeIP res cniVersion root =
     p_bind (p_read ManagerFailed (\<lambda>w. NewNetworkManager root nodeName None (bw_kernel w))) (\<lambda>nm.
     p_bind (on_kernel PoliciesFailed (initNodePolicies (se_policies E))) (\<lambda>_.
     case NewCNIServer (getSocketPath (se_host E)) cniVersion of
       None \<Rightarrow> p_fail ServerPanic
     | Some srv \<Rightarrow> stub_serve E nodeName nodeIP root res (fst nm) srv))"

definition stub_main :: "('r, 'c, 'k, 'f, 'q, 'w) stub_env \<Rightarrow> (('c, 'k, 'f) boot_world, boot_error, ('k, 'q, 'w) stub) prog" where
  "stub_main E =
     (let h = se_host E in
      p_bind (p_read KubeFailed (\<lambda>w. initKube h)) (\<lambda>restCfg.
      p_bind (p_read KubeFailed (\<lambda>w. InitClients h restCfg)) (\<lambda>_.
      p_bind (p_read KubeFailed (\<lambda>w. GetNodeName h (bw_cluster w))) (\<lambda>nodeName.
      p_bind (p_read KubeFailed (\<lambda>w. GetNodeIP h nodeName (bw_cluster w))) (\<lambda>nodeIP.
      p_bind (p_read ResolverFailed (\<lambda>w. initResolver (Some (se_pods E)) nodeName)) (\<lambda>res.
      p_bind (on_cluster NodeStoreFailed (ensureNodeStore h (Some restCfg) nodeName nodeIP)) (\<lambda>_.
      let cniVersion = (case loadCNIVersion h (envOrDefault h ''CNI_CONF_PATH'' defaultCNIConfPath) of Inl _ \<Rightarrow> [] | Inr v \<Rightarrow> v) in
      p_bind (p_read KubeFailed (\<lambda>w. GetNodeCIDR h nodeName (bw_cluster w))) (\<lambda>nodeCIDR.
      p_bind (p_read NodeCIDRUnparsable (\<lambda>w. case ParseCIDR nodeCIDR of None \<Rightarrow> Inl nodeCIDR | Some an \<Rightarrow> Inr (snd an))) (\<lambda>root.
      stub_node E nodeName nodeIP res cniVersion root)))))))))"

subsection \<open>cmd/daemon/main.go\<close>

record daemonConfig =
  dc_nodeName :: string
  dc_nodeIP :: string
  dc_socketPath :: string
  dc_nodeCIDR :: string
  dc_backend :: string
  dc_ipam :: string
  dc_arp :: string
  dc_fdb :: string
  dc_route :: string
  dc_iptables :: string
  dc_subnet :: string

text \<open>The flags with their defaults. They are defined after \<open>InitKubeConfig\<close> has parsed the arguments, and the arguments are parsed again.\<close>

definition daemon_flags :: "(string \<times> string) list" where
  "daemon_flags = [(''backend'', ''bridge-vtep''), (''ipam'', ''bitmap''), (''arp'', ''netlink''), (''fdb'', ''netlink''),
     (''route'', ''netlink''), (''iptables'', ''iptables''), (''subnet'', ''trie'')]"

definition parseFlags :: "('r, 'c) kube_host \<Rightarrow> kube_error + daemonConfig" where
  "parseFlags h =
     (case flag_Parse (''kubeconfig'' # map fst daemon_flags) (kh_args h) of
        Inl e \<Rightarrow> Inl (FlagsExit (flag_exit e))
      | Inr vals \<Rightarrow>
          let v = (\<lambda>n. flag_value vals n (case map_of daemon_flags n of None \<Rightarrow> [] | Some d \<Rightarrow> d)) in
          Inr \<lparr>dc_nodeName = [], dc_nodeIP = [], dc_socketPath = [], dc_nodeCIDR = [], dc_backend = v ''backend'', dc_ipam = v ''ipam'',
               dc_arp = v ''arp'', dc_fdb = v ''fdb'', dc_route = v ''route'', dc_iptables = v ''iptables'', dc_subnet = v ''subnet''\<rparr>)"

definition initNodestore :: "daemonConfig \<Rightarrow> NodeStore" where
  "initNodestore cfg = new_nodestore (dc_nodeName cfg) (dc_nodeIP cfg)"

text \<open>A program that runs an operator: the queue of client-go, whether the caches come in sync, the clients and what the operator works on.\<close>

record ('q, 'w) operator_env =
  oe_wq :: "'q workqueue"
  oe_queue :: 'q
  oe_sync :: "informer list \<Rightarrow> bool"
  oe_world :: 'w

record ('q, 'w) daemon_prog =
  dg_cfg :: daemonConfig
  dg_operator :: "'w daemon"
  dg_handlers :: handler_table
  dg_pool :: "('q, 'w) pool"

text \<open>The dispatcher is nil, and neither the node name nor the network manager is set.\<close>

definition daemon_operate :: "('r, 'c) kube_host \<Rightarrow> ('q, 'w) operator_env \<Rightarrow> 'w daemon \<Rightarrow> daemonConfig \<Rightarrow> boot_error + ('q, 'w) daemon_prog" where
  "daemon_operate h oe clients cfg =
     (let (dop, reg) = daemon_New (kh_Getenv h ''NODE_NAME'') None clients (NewBaseOperator (oe_queue oe) ''daemon'' [], []);
          (base, handlers) = reg (dm_nodeName dop)
      in case Run (oe_wq oe) (oe_sync oe) base (oe_world oe) of
           Inl (e, _) \<Rightarrow> Inl (OperatorFailed e)
         | Inr pool \<Rightarrow> Inr \<lparr>dg_cfg = cfg, dg_operator = dop, dg_handlers = handlers, dg_pool = pool\<rparr>)"

definition daemon_main :: "('r, 'c) kube_host \<Rightarrow> ('q, 'w) operator_env \<Rightarrow> 'w daemon \<Rightarrow> (('c, 'k, 'f) boot_world, boot_error, ('q, 'w) daemon_prog) prog" where
  "daemon_main h oe clients =
     p_bind (p_read KubeFailed (\<lambda>w. InitKubeConfig h)) (\<lambda>config.
     p_bind (p_read KubeFailed (\<lambda>w. InitClients h config)) (\<lambda>_.
     p_bind (p_read KubeFailed (\<lambda>w. parseFlags h)) (\<lambda>cfg0.
     let cfg = cfg0\<lparr>dc_nodeName := kh_Getenv h ''NODE_NAME'', dc_nodeIP := kh_Getenv h ''NODE_IP''\<rparr> in
     p_bind (p_guard (dc_nodeName cfg = [] \<or> dc_nodeIP cfg = []) EnvUnset) (\<lambda>_.
     p_bind (on_cluster (\<lambda>e. NodeStoreFailed (NsCreate e)) (\<lambda>c.
       (case kh_CreateNodeStore h (initNodestore cfg) c of
          (None, c1) \<Rightarrow> (None, c1)
        | (Some AlreadyExists, c1) \<Rightarrow> (None, c1)
        | (Some (CreateFailed e), c1) \<Rightarrow> (Some e, c1)))) (\<lambda>_.
     p_bind (p_read (\<lambda>e. KubeFailed (NodeErr (dc_nodeName cfg) e)) (\<lambda>w. kh_GetNode h (dc_nodeName cfg) (bw_cluster w))) (\<lambda>node.
     p_bind (p_guard (cn_PodCIDR node = []) (KubeFailed (NodeWithoutCIDR (dc_nodeName cfg)))) (\<lambda>_.
     p_read id (\<lambda>w. daemon_operate h oe clients (cfg\<lparr>dc_nodeCIDR := cn_PodCIDR node\<rparr>)))))))))"

subsection \<open>cmd/orchestrator/main.go\<close>

definition default_tenant :: "int \<Rightarrow> Tenant" where
  "default_tenant zones = \<lparr>tn_Type = setera_type ''Tenant'', tn_Meta = named_meta ''default'', tn_Name = ''default'', tn_Zones = zones,
     tn_AssignedNodes = [], tn_Paused = False, tn_Awaiting = []\<rparr>"

definition ensureDefaultTenant :: "('r, 'c) kube_host \<Rightarrow> 'c \<Rightarrow> tenant_failure option \<times> 'c" where
  "ensureDefaultTenant h c =
     (case kh_GetTenant h ''default'' c of
        Inr _ \<Rightarrow> (None, c)
      | Inl _ \<Rightarrow>
          (case kh_ListNodes h c of
             Inl e \<Rightarrow> (Some (TenantList e), c)
           | Inr nodes \<Rightarrow>
               (case kh_CreateTenant h (default_tenant (int (length nodes))) c of
                  (Some e, c1) \<Rightarrow> (Some (TenantCreate e), c1)
                | (None, c1) \<Rightarrow> (None, c1))))"

text \<open>\<open>New\<close> of the orchestrator gives nil when the index can not be added to the informer. One of its handlers reads the lister.\<close>

definition orch_handlers :: "'w kube \<Rightarrow> 'w \<Rightarrow> (informer \<times> handler_funcs) list" where
  "orch_handlers kb w =
     [(tenant_informer, \<lparr>AddFunc = addEventTenantHandler, UpdateFunc = updateEventTenantHandler, DeleteFunc = deleteEventTenantHandler\<rparr>),
      (nodestore_informer, \<lparr>AddFunc = (\<lambda>obj. addEventNodestoreHandler kb obj w), UpdateFunc = updateEventNodestoreHandler,
                            DeleteFunc = deleteEventNodestoreHandler\<rparr>)]"

definition orch_New :: "((kobj \<Rightarrow> string list) \<Rightarrow> string option) \<Rightarrow> 'w kube \<Rightarrow> 'q BaseOperator \<times> handler_table \<Rightarrow>
    (('w, orch_error) Router \<times> ('w \<Rightarrow> 'q BaseOperator \<times> handler_table)) option" where
  "orch_New add_indexers kb base =
     (case add_indexers indexNodestoreByTenant of
        Some e \<Rightarrow> None
      | None \<Rightarrow> Some (orch_router kb,
          \<lambda>w. fold (\<lambda>(infm, hs). AddInformerWithHandlers infm [Some hs]) (orch_handlers kb w) base))"

record ('q, 'w) orch_prog =
  og_router :: "('w, orch_error) Router"
  og_handlers :: "'w \<Rightarrow> handler_table"
  og_pool :: "('q, 'w) pool"

definition orch_operate :: "('q, 'w) operator_env \<Rightarrow> ((kobj \<Rightarrow> string list) \<Rightarrow> string option) \<Rightarrow> 'w kube \<Rightarrow> boot_error + ('q, 'w) orch_prog" where
  "orch_operate oe add_indexers kb =
     (case orch_New add_indexers kb (NewBaseOperator (oe_queue oe) ''orchestrator'' [], []) of
        None \<Rightarrow> Inl OperatorNil
      | Some (r, reg) \<Rightarrow>
          (case Run (oe_wq oe) (oe_sync oe) (fst (reg (oe_world oe))) (oe_world oe) of
             Inl (e, _) \<Rightarrow> Inl (OperatorFailed e)
           | Inr pool \<Rightarrow> Inr \<lparr>og_router = r, og_handlers = (\<lambda>w. snd (reg w)), og_pool = pool\<rparr>))"

definition orchestrator_main :: "('r, 'c) kube_host \<Rightarrow> ('q, 'w) operator_env \<Rightarrow> ((kobj \<Rightarrow> string list) \<Rightarrow> string option) \<Rightarrow> 'w kube \<Rightarrow>
    (('c, 'k, 'f) boot_world, boot_error, ('q, 'w) orch_prog) prog" where
  "orchestrator_main h oe add_indexers kb =
     p_bind (p_read KubeFailed (\<lambda>w. InitKubeConfig h)) (\<lambda>config.
     p_bind (p_read KubeFailed (\<lambda>w. InitClients h config)) (\<lambda>_.
     p_bind (on_cluster DefaultTenantFailed (ensureDefaultTenant h)) (\<lambda>_.
     p_read id (\<lambda>w. orch_operate oe add_indexers kb))))"

subsection \<open>cmd/webhook/main.go and internal/webhook/server.go\<close>

record WebhookServer =
  ws_port :: string
  ws_tlsCert :: string
  ws_tlsKey :: string

definition serverPort :: string where "serverPort = '':8443''"

definition NewWebhookServer :: "string \<Rightarrow> string \<Rightarrow> WebhookServer" where
  "NewWebhookServer tlsCert tlsKey = \<lparr>ws_port = serverPort, ws_tlsCert = tlsCert, ws_tlsKey = tlsKey\<rparr>"

text \<open>\<open>serve\<close> is \<open>ListenAndServeTLS\<close> of an address, a certificate and a key: the error with which it can not serve.\<close>

definition webhook_Start :: "(string \<Rightarrow> string \<Rightarrow> string \<Rightarrow> string option) \<Rightarrow> WebhookServer \<Rightarrow> string option" where
  "webhook_Start serve ws = serve (ws_port ws) (ws_tlsCert ws) (ws_tlsKey ws)"

definition webhook_main :: "('r, 'c) kube_host \<Rightarrow> (string \<Rightarrow> string \<Rightarrow> string \<Rightarrow> string option) \<Rightarrow> boot_error + WebhookServer" where
  "webhook_main h serve =
     (case InitKubeConfig h of
        Inl e \<Rightarrow> Inl (KubeFailed e)
      | Inr config \<Rightarrow>
          (case NewSeteraClient h config of
             Inl e \<Rightarrow> Inl (KubeFailed e)
           | Inr _ \<Rightarrow>
               (case NewKubeClient h config of
                  Inl e \<Rightarrow> Inl (KubeFailed e)
                | Inr _ \<Rightarrow>
                    let ws = NewWebhookServer [] [] in
                    (case webhook_Start serve ws of Some e \<Rightarrow> Inl (ServeFailed e) | None \<Rightarrow> Inr ws))))"

subsection \<open>cmd/cni/main.go\<close>

record Options =
  oc_SocketPath :: string
  oc_Timeout :: int

definition cni_opts :: Options where
  "cni_opts = \<lparr>oc_SocketPath = ''/var/run/setera/setera.sock'', oc_Timeout = 5 * 1000000000\<rparr>"

text \<open>The function of each command; \<open>DEL\<close> prints nothing.\<close>

definition cni_funcs :: "'w plugin_env \<Rightarrow> (string \<times> (CmdArgs \<Rightarrow> 'w \<Rightarrow> 'w plugin_result)) list" where
  "cni_funcs pe =
     [(''ADD'', cni_Add pe), (''CHECK'', cni_Check pe), (''DEL'', \<lambda>a w. case cni_Del pe a w of (e, w') \<Rightarrow> ((e, []), w')),
      (''GC'', cni_GC pe), (''STATUS'', cni_Status pe)]"

definition cni_main :: "'f file_calls \<Rightarrow> (string \<Rightarrow> string) \<Rightarrow> 'w plugin_env \<Rightarrow> 'f \<Rightarrow>
    (string option \<times> (string \<times> (CmdArgs \<Rightarrow> 'w \<Rightarrow> 'w plugin_result)) list) \<times> 'f" where
  "cni_main fc getenv pe f =
     (case LoadLogFile fc getenv f of
        (lf, f1) \<Rightarrow> ((lf, cni_funcs (pe\<lparr>pe_seconds := word_of_int (oc_Timeout cni_opts div 1000000000)\<rparr>)), f1))"

end
