(* ===== verification/Boot_Properties.thy ===== *)
theory Boot_Properties
  imports Entry_Points NM_Properties
begin

text \<open>
  What the programs of \<open>cmd\<close> guarantee: a node that has started is in a state from which every theorem on the network manager applies,
  a start that fails leaves the kernel alone unless it fails in the node policies, and the program \<open>cmd/daemon\<close> writes nothing.
\<close>

subsection \<open>The network of the node\<close>

lemma those_length: "those xs = Some ys \<Longrightarrow> length ys = length xs"
  by (induction xs arbitrary: ys) (auto split: option.splits)

lemma parse_ip4_length: "parse_ip4 s = Some a \<Longrightarrow> length a = 4"
  by (auto simp: parse_ip4_def Let_def dest!: those_length split: if_splits)

lemma cidr_mask_128_length: "k \<le> 128 \<Longrightarrow> length (cidr_mask (int k) 128) = 16"
  by (simp add: cidr_mask_def)

text \<open>What \<open>ParseCIDR\<close> makes of an IPv4 text is canonical, with whatever host bits the text had.\<close>

lemma ParseCIDR_canonical:
  assumes "ParseCIDR s = Some (a, n)" "length (net_mask n) = 4"
  shows "\<exists>bs. net_pfx n bs"
proof -
  have "\<exists>adr w ds. parse_addr adr = Some (a, w) \<and> int (digits 10 ds) \<le> w \<and>
      n = \<lparr>net_ip = mask_ip a (cidr_mask (int (digits 10 ds)) w), net_mask = cidr_mask (int (digits 10 ds)) w\<rparr>"
    using assms(1) by (auto simp: ParseCIDR_def Let_def not_less split: list.splits option.splits if_splits prod.splits)
  then obtain adr w ds where p: "parse_addr adr = Some (a, w)" and k: "int (digits 10 ds) \<le> w"
    and n: "n = \<lparr>net_ip = mask_ip a (cidr_mask (int (digits 10 ds)) w), net_mask = cidr_mask (int (digits 10 ds)) w\<rparr>" by blast
  define k where "k = digits 10 ds"
  have "w = 32 \<or> w = 128" using p by (auto simp: parse_addr_def split: list.splits if_splits)
  moreover have "w \<noteq> 128" using assms(2) k cidr_mask_128_length [of "digits 10 ds"] by (auto simp: n)
  ultimately have w: "w = 32" by blast
  obtain b where b: "length b = 4" "a = to16 b"
    using p parse_ip4_length by (auto simp: w parse_addr_def split: list.splits if_splits)
  have k32: "k \<le> 32" using k by (simp add: w k_def)
  have n': "n = \<lparr>net_ip = mask_ip b (cidr_mask (int k) 32), net_mask = cidr_mask (int k) 32\<rparr>"
    using mask_ip_to16 [OF b(1), of "cidr_mask (int k) 32"] length_cidr_mask [OF k32] by (simp add: n w b(2) k_def)
  have "length (ip_bits b) = 32" using b(1) by simp
  then show ?thesis using mask_ip_cidr [OF b(1) k32] k32
    by (intro exI [of _ "take k (ip_bits b)"]) (simp add: net_pfx_def n' min_def)
qed


subsection \<open>The API server\<close>

text \<open>
  What Kubernetes documents of creating and reading objects: \<open>stores\<close> and \<open>tenants\<close> are the objects by name. A name is given to one
  object only.
\<close>

locale cluster_api =
  fixes h :: "('r, 'c) kube_host" and stores :: "'c \<Rightarrow> string \<Rightarrow> NodeStore option" and tenants :: "'c \<Rightarrow> string \<Rightarrow> Tenant option"
  assumes store_new: "kh_CreateNodeStore h ns c = (None, c') \<Longrightarrow>
      stores c (om_Name (st_Meta ns)) = None \<and> stores c' = (stores c)(om_Name (st_Meta ns) \<mapsto> ns)"
    and store_exists: "kh_CreateNodeStore h ns c = (Some AlreadyExists, c') \<Longrightarrow> c' = c \<and> stores c (om_Name (st_Meta ns)) \<noteq> None"
    and tenant_get: "kh_GetTenant h n c = Inr t \<Longrightarrow> tenants c n = Some t"
    and tenant_new: "kh_CreateTenant h t c = (None, c') \<Longrightarrow>
      tenants c (om_Name (tn_Meta t)) = None \<and> tenants c' = (tenants c)(om_Name (tn_Meta t) \<mapsto> t)"
begin

lemma ensureNodeStore_exists:
  assumes "ensureNodeStore h (Some r) n ip c = (None, c')" "n \<noteq> []"
  shows "stores c' n = (case stores c n of None \<Rightarrow> Some (new_nodestore n ip) | Some st \<Rightarrow> Some st)"
proof -
  have nm: "om_Name (st_Meta (new_nodestore n ip)) = n" by (simp add: new_nodestore_def named_meta_def)
  obtain x c1 where x: "kh_CreateNodeStore h (new_nodestore n ip) c = (x, c1)" by fastforce
  have "c1 = c'" "x = None \<or> x = Some AlreadyExists"
    using assms x by (auto simp: ensureNodeStore_def Let_def split: sum.splits option.splits create_error.splits)
  then show ?thesis using store_new [of "new_nodestore n ip" c c'] store_exists [of "new_nodestore n ip" c c'] x by (auto simp: nm)
qed

text \<open>A default tenant that is there is not touched; a new one asks for as many zones as the cluster has nodes.\<close>

lemma ensureDefaultTenant_exists:
  assumes "ensureDefaultTenant h c = (None, c')"
  shows "case tenants c ''default'' of
      Some t \<Rightarrow> c' = c
    | None \<Rightarrow> \<exists>nodes. kh_ListNodes h c = Inr nodes \<and> tenants c' ''default'' = Some (default_tenant (int (length nodes)))"
proof (cases "kh_GetTenant h ''default'' c")
  case (Inr t)
  then show ?thesis using assms tenant_get [OF Inr] by (simp add: ensureDefaultTenant_def)
next
  case (Inl e)
  then obtain nodes where l: "kh_ListNodes h c = Inr nodes" "kh_CreateTenant h (default_tenant (int (length nodes))) c = (None, c')"
    using assms by (auto simp: ensureDefaultTenant_def split: sum.splits prod.splits option.splits)
  then show ?thesis using tenant_new [OF l(2)] by (simp add: default_tenant_def named_meta_def)
qed

end

subsection \<open>The program of the node\<close>

lemmas boot_ok = p_bind_ok p_read_ok p_guard_ok p_ret_ok p_fail_ok

lemma on_cluster_ok: "on_cluster wrap f w = (Inr u, w') \<longleftrightarrow> (\<exists>c. f (bw_cluster w) = (None, c) \<and> w' = w\<lparr>bw_cluster := c\<rparr>)"
  by (auto simp: on_cluster_def split: prod.splits option.splits)

lemma on_kernel_ok: "on_kernel wrap f w = (Inr u, w') \<longleftrightarrow> (\<exists>k. f (bw_kernel w) = (Inr u, k) \<and> w' = w\<lparr>bw_kernel := k\<rparr>)"
  by (auto simp: on_kernel_def split: prod.splits sum.splits)

lemma stub_serve_ok: "stub_serve E nodeName nodeIP root res nm srv w = (r, w') \<Longrightarrow>
    \<exists>l f1. r = Inr (stub_wire E nodeName nodeIP root res (nm\<lparr>nm_k := bw_kernel w\<rparr>) srv l) \<and> w' = w\<lparr>bw_files := f1\<rparr>"
  by (auto simp: stub_serve_def Let_def split: prod.splits)

text \<open>The steps of a start that succeeded.\<close>

lemma stub_main_ok:
  assumes "stub_main E w = (Inr b, w')"
  obtains restCfg nodeName nodeIP res cl nodeCIDR a root nm reg k srv f1 l where
    "GetNodeName (se_host E) (bw_cluster w) = Inr nodeName"
    "GetNodeIP (se_host E) nodeName (bw_cluster w) = Inr nodeIP"
    "initResolver (Some (se_pods E)) nodeName = Inr res"
    "ensureNodeStore (se_host E) (Some restCfg) nodeName nodeIP (bw_cluster w) = (None, cl)"
    "GetNodeCIDR (se_host E) nodeName cl = Inr nodeCIDR" "ParseCIDR nodeCIDR = Some (a, root)"
    "NewNetworkManager root nodeName None (bw_kernel w) = Inr (nm, reg)"
    "initNodePolicies (se_policies E) (bw_kernel w) = (Inr (), k)"
    "b = stub_wire E nodeName nodeIP root res (nm\<lparr>nm_k := k\<rparr>) srv l"
    "w' = w\<lparr>bw_cluster := cl, bw_kernel := k, bw_files := f1\<rparr>"
proof -
  obtain restCfg nodeName nodeIP res cl nodeCIDR a root nm reg k srv where
    *: "GetNodeName (se_host E) (bw_cluster w) = Inr nodeName"
    "GetNodeIP (se_host E) nodeName (bw_cluster w) = Inr nodeIP"
    "initResolver (Some (se_pods E)) nodeName = Inr res"
    "ensureNodeStore (se_host E) (Some restCfg) nodeName nodeIP (bw_cluster w) = (None, cl)"
    "GetNodeCIDR (se_host E) nodeName cl = Inr nodeCIDR" "ParseCIDR nodeCIDR = Some (a, root)"
    "NewNetworkManager root nodeName None (bw_kernel w) = Inr (nm, reg)"
    "initNodePolicies (se_policies E) (bw_kernel w) = (Inr (), k)"
    and s: "stub_serve E nodeName nodeIP root res nm srv (w\<lparr>bw_cluster := cl, bw_kernel := k\<rparr>) = (Inr b, w')"
    using assms unfolding stub_main_def stub_node_def Let_def
    by (auto simp: boot_ok on_cluster_ok on_kernel_ok split: prod.splits option.splits)
  show thesis using stub_serve_ok [OF s] by (auto intro: that [OF *])
qed

lemma p_bind_fail: "p_bind m f k = (Inl e, k'') \<longleftrightarrow> m k = (Inl e, k'') \<or> (\<exists>a k'. m k = (Inr a, k') \<and> f a k' = (Inl e, k''))"
  by (auto simp: p_bind_def split: prod.splits sum.splits)

lemma p_bind_failE:
  assumes "p_bind m f k = (Inl e, k'')"
  obtains "m k = (Inl e, k'')" | a k' where "m k = (Inr a, k')" "f a k' = (Inl e, k'')"
  using assms by (auto simp: p_bind_fail)

lemma p_read_fail: "p_read wrap f k = (Inl e, k') \<longleftrightarrow> k' = k \<and> (\<exists>x. f k = Inl x \<and> e = wrap x)"
  by (auto simp: p_read_def split: sum.splits)

lemma on_cluster_fail: "on_cluster wrap f w = (Inl e, w') \<longleftrightarrow> (\<exists>x c. f (bw_cluster w) = (Some x, c) \<and> e = wrap x \<and> w' = w\<lparr>bw_cluster := c\<rparr>)"
  by (auto simp: on_cluster_def split: prod.splits option.splits)

lemma on_kernel_fail: "on_kernel wrap f w = (Inl e, w') \<longleftrightarrow> (\<exists>x k. f (bw_kernel w) = (Inl x, k) \<and> e = wrap x \<and> w' = w\<lparr>bw_kernel := k\<rparr>)"
  by (auto simp: on_kernel_def split: prod.splits sum.splits)

lemmas boot_fail = p_bind_fail p_read_fail on_cluster_fail on_kernel_fail p_read_ok on_cluster_ok on_kernel_ok

lemma getSocketPath_nonempty: "getSocketPath h \<noteq> []"
  by (simp add: getSocketPath_def)

lemma stub_serve_not_fail: "stub_serve E nodeName nodeIP root res nm srv w \<noteq> (Inl e, w')"
  by (auto simp: stub_serve_def Let_def split: prod.splits)

text \<open>Only the command line ends a program with another status than 1.\<close>

lemma kube_status:
  "initKube h = Inl x \<Longrightarrow> exit_status (KubeFailed x) \<in> {0, 1, 2}"
  "InitClients h r = Inl x \<Longrightarrow> exit_status (KubeFailed x) \<in> {0, 1, 2}"
  "GetNodeName h c = Inl x \<Longrightarrow> exit_status (KubeFailed x) \<in> {0, 1, 2}"
  "GetNodeIP h n c = Inl x \<Longrightarrow> exit_status (KubeFailed x) \<in> {0, 1, 2}"
  "GetNodeCIDR h n c = Inl x \<Longrightarrow> exit_status (KubeFailed x) \<in> {0, 1, 2}"
proof -
  assume "initKube h = Inl x"
  then show "exit_status (KubeFailed x) \<in> {0, 1, 2}"
  proof (cases "flag_Parse [''kubeconfig''] (kh_args h)")
    case (Inl e)
    then show ?thesis using \<open>initKube h = Inl x\<close> by (cases e) (auto simp: initKube_def InitKubeConfig_def)
  qed (auto simp: initKube_def InitKubeConfig_def split: sum.splits)
qed (auto simp: InitClients_def NewKubeClient_def NewSeteraClient_def GetNodeName_def GetNodeIP_def GetNodeCIDR_def Let_def
      split: sum.splits option.splits if_splits)

text \<open>The cluster is as before, or as an attempt to create a node store left it.\<close>

definition store_tried :: "('r, 'c) kube_host \<Rightarrow> 'c \<Rightarrow> 'c \<Rightarrow> bool" where
  "store_tried h c c' \<longleftrightarrow> c' = c \<or> (\<exists>r n ip. c' = snd (ensureNodeStore h (Some r) n ip c))"

lemma store_tried_refl [simp]: "store_tried h c c"
  by (simp add: store_tried_def)

lemma store_triedI: "ensureNodeStore h (Some r) n ip c = (x, c') \<Longrightarrow> store_tried h c c'"
  unfolding store_tried_def by (metis snd_conv)

lemma stub_node_fails:
  assumes "stub_node E nodeName nodeIP res v root w = (Inl e, w')"
  shows "(\<exists>x. e = ManagerFailed x) \<and> w' = w \<or> (\<exists>p k. e = PoliciesFailed p \<and> w' = w\<lparr>bw_kernel := k\<rparr>)"
proof -
  obtain srv where srv: "NewCNIServer (getSocketPath (se_host E)) v = Some srv" using getSocketPath_nonempty [of "se_host E"] by (simp add: NewCNIServer_def)
  show ?thesis using assms by (auto simp: stub_node_def boot_fail srv stub_serve_not_fail)
qed

text \<open>
  C17. A start of the node program that fails has not touched the kernel, unless it is the setup of the node policies that failed, and has
  made no socket; the cluster is as before or has what creating the node store left. It never panics, and its exit status is
  0, 1 or 2, where 0 and 2 come from the command line.
\<close>

theorem failed_start_leaves_node:
  assumes "stub_main E w = (Inl e, w')"
  shows "(bw_kernel w' = bw_kernel w \<or> (\<exists>p. e = PoliciesFailed p)) \<and> bw_files w' = bw_files w \<and> e \<noteq> ServerPanic \<and>
    store_tried (se_host E) (bw_cluster w) (bw_cluster w') \<and>
    exit_status e \<in> {0, 1, 2}"
  using assms unfolding stub_main_def Let_def
  by (elim p_bind_failE) (auto simp: boot_fail dest: kube_status dest!: stub_node_fails intro: store_triedI)

text \<open>What a started node is: the state of the network manager, and the operator wired to it.\<close>

lemma stub_nm_reach:
  assumes "stub_main E w = (Inr b, w')"
  shows "nm_reach (se_deps E) (sb_root b) (sb_nm b)" "nm_NodeName (sb_nm b) = sb_nodeName b" "nm_emitter (sb_nm b) = Some []"
    "dm_nodeName (sb_operator b) = sb_nodeName b" "dm_dp (sb_operator b) = Some (se_send E)" "dm_nmOps (sb_operator b) = Some (se_nmOps E)"
    "awaited (sb_base b)" "set (bo_hasSynced (fst (sb_base b))) = {tenant_informer, nodestore_informer}" "sb_nodeName b \<noteq> []"
proof -
  obtain restCfg nodeName nodeIP res cl nodeCIDR a root nm reg k srv f1 l where
    n: "GetNodeName (se_host E) (bw_cluster w) = Inr nodeName" and m: "NewNetworkManager root nodeName None (bw_kernel w) = Inr (nm, reg)"
    and b: "b = stub_wire E nodeName nodeIP root res (nm\<lparr>nm_k := k\<rparr>) srv l"
    by (rule stub_main_ok [OF assms])
  have "nm_reach (se_deps E) root nm" using m by (rule nm_start)
  then have "nm_reach (se_deps E) root (SetEmitter (Some []) (nm\<lparr>nm_k := k\<rparr>))" by (blast intro: nm_next step_kernel step_SetEmitter)
  then show "nm_reach (se_deps E) (sb_root b) (sb_nm b)" by (simp add: b stub_wire_def daemon_New_def Let_def)
  have "nm_NodeName nm = nodeName" using m by (auto simp: NewNetworkManager_def NewNetworkManagerWithDeps_def split: sum.splits)
  then show "nm_NodeName (sb_nm b) = sb_nodeName b" "nm_emitter (sb_nm b) = Some []"
    by (simp_all add: b stub_wire_def daemon_New_def SetEmitter_def Let_def)
  show "dm_nodeName (sb_operator b) = sb_nodeName b" "dm_dp (sb_operator b) = Some (se_send E)" "dm_nmOps (sb_operator b) = Some (se_nmOps E)"
    by (simp_all add: b stub_wire_def daemon_New_def SetNMOps_def SetNodeName_def Let_def)
  have "awaited (NewBaseOperator (se_queue E) ''stub-daemon'' [], [])" by (simp add: awaited_def)
  then show "awaited (sb_base b)" by (simp add: b stub_wire_def daemon_New_def Let_def awaited_register)
  show "set (bo_hasSynced (fst (sb_base b))) = {tenant_informer, nodestore_informer}"
    by (auto simp: b stub_wire_def daemon_New_def AddInformerWithHandlers_def NewBaseOperator_def Let_def)
  show "sb_nodeName b \<noteq> []" using GetNodeName_nonempty [OF n] by (simp add: b stub_wire_def daemon_New_def Let_def)
qed

lemma reach_star: "(nm_step d)\<^sup>*\<^sup>* s s' \<Longrightarrow> nm_reach d root s \<Longrightarrow> nm_reach d root s'"
  by (induction rule: rtranclp_induct) (auto intro: nm_next)

subsection \<open>A cluster in memory\<close>

record mem_objects =
  mo_stores :: "string \<Rightarrow> NodeStore option"
  mo_tenants :: "string \<Rightarrow> Tenant option"

text \<open>One node \<open>n1\<close> whose pod network is the text \<open>cidr\<close>; the process runs on it with the two environment variables of the daemon set.\<close>

definition mem_host :: "string \<Rightarrow> string list \<Rightarrow> (unit, mem_objects) kube_host" where
  "mem_host cidr args = \<lparr>kh_args = args,
     kh_Getenv = (\<lambda>n. if n = ''NODE_NAME'' then ''n1'' else if n = ''NODE_IP'' then ''10.0.0.1'' else []),
     kh_HomeDir = [], kh_BuildConfigFromFlags = (\<lambda>_. Inl ''no kubeconfig''), kh_InClusterConfig = Inr (), kh_NewKube = (\<lambda>_. None),
     kh_NewSetera = (\<lambda>_. None), kh_ReadFile = (\<lambda>_. Inl ''no such file''), kh_cniVersion = (\<lambda>_. Inl ''unexpected end of JSON input''),
     kh_GetPod = (\<lambda>_ _ _. Inl ''not found''),
     kh_GetNode = (\<lambda>n c. if n = ''n1'' then Inr \<lparr>cn_Name = n, cn_PodCIDR = cidr, cn_Addresses = [(NodeInternalIP, ''10.0.0.1'')]\<rparr> else Inl ''not found''),
     kh_ListNodes = (\<lambda>c. Inr [\<lparr>cn_Name = ''n1'', cn_PodCIDR = cidr, cn_Addresses = []\<rparr>]),
     kh_CreateNodeStore = (\<lambda>ns c. case mo_stores c (om_Name (st_Meta ns)) of
        Some _ \<Rightarrow> (Some AlreadyExists, c) | None \<Rightarrow> (None, c\<lparr>mo_stores := (mo_stores c)(om_Name (st_Meta ns) \<mapsto> ns)\<rparr>)),
     kh_GetTenant = (\<lambda>n c. case mo_tenants c n of None \<Rightarrow> Inl ''not found'' | Some t \<Rightarrow> Inr t),
     kh_CreateTenant = (\<lambda>t c. case mo_tenants c (om_Name (tn_Meta t)) of
        Some _ \<Rightarrow> (Some AlreadyExists, c) | None \<Rightarrow> (None, c\<lparr>mo_tenants := (mo_tenants c)(om_Name (tn_Meta t) \<mapsto> t)\<rparr>))\<rparr>"

lemma mem_host_sel [simp]:
  "kh_args (mem_host cidr args) = args" "kh_HomeDir (mem_host cidr args) = []" "kh_InClusterConfig (mem_host cidr args) = Inr ()"
  "kh_Getenv (mem_host cidr args) n = (if n = ''NODE_NAME'' then ''n1'' else if n = ''NODE_IP'' then ''10.0.0.1'' else [])"
  "kh_BuildConfigFromFlags (mem_host cidr args) p = Inl ''no kubeconfig''" "kh_NewKube (mem_host cidr args) r = None"
  "kh_NewSetera (mem_host cidr args) r = None" "kh_ReadFile (mem_host cidr args) p = Inl ''no such file''"
  "kh_GetNode (mem_host cidr args) ''n1'' c = Inr \<lparr>cn_Name = ''n1'', cn_PodCIDR = cidr, cn_Addresses = [(NodeInternalIP, ''10.0.0.1'')]\<rparr>"
  "kh_CreateNodeStore (mem_host cidr args) ns c = (case mo_stores c (om_Name (st_Meta ns)) of
     Some _ \<Rightarrow> (Some AlreadyExists, c) | None \<Rightarrow> (None, c\<lparr>mo_stores := (mo_stores c)(om_Name (st_Meta ns) \<mapsto> ns)\<rparr>))"
  by (simp_all add: mem_host_def)

interpretation mh: cluster_api "mem_host cidr args" mo_stores mo_tenants for cidr args
  by unfold_locales (auto simp: mem_host_def split: option.splits)

subsection \<open>A node that has started\<close>


text \<open>A node of the cluster in memory, on a kernel that accepts every call.\<close>

definition demo_policies :: "unit node_env" where
  "demo_policies = \<lparr>ne_ipt = Some demo_ipt, ne_policy = (\<lambda>_ _ _ k. (None, k)), ne_sysctl = (\<lambda>_ _ k. (None, k)), ne_modprobe = (\<lambda>_ k. k)\<rparr>"

definition demo_stub :: "(unit, mem_objects, unit, string \<rightharpoonup> file_info, fifo, daemon_world) stub_env" where
  "demo_stub = \<lparr>se_host = mem_host (ipnet_String demo_root) [], se_deps = demo_deps, se_policies = Some demo_policies, se_files = mem_files,
     se_pods = (\<lambda>_. None, True), se_queue = fifo_empty, se_clients = mem_daemon [] [], se_send = (\<lambda>c w. w\<lparr>dw_log := dw_log w @ [c]\<rparr>),
     se_nmOps = the (dm_nmOps (mem_daemon [] [])), se_wait = (\<lambda>_ _ _. Replied)\<rparr>"

definition demo_boot :: "(mem_objects, unit, string \<rightharpoonup> file_info) boot_world" where
  "demo_boot = \<lparr>bw_cluster = \<lparr>mo_stores = Map.empty, mo_tenants = Map.empty\<rparr>, bw_kernel = (), bw_files = Map.empty\<rparr>"

lemma demo_host:
  "GetNodeName (mem_host (ipnet_String demo_root) args) c = Inr ''n1''" "GetNodeIP (mem_host (ipnet_String demo_root) args) n c = Inr ''10.0.0.1''"
  "GetNodeCIDR (mem_host (ipnet_String demo_root) args) ''n1'' c = Inr (ipnet_String demo_root)"
  "InitKubeConfig (mem_host (ipnet_String demo_root) []) = Inr ()" "InitClients (mem_host (ipnet_String demo_root) args) r = Inr ()"
  "getSocketPath (mem_host (ipnet_String demo_root) args) = ''/var/run/setera/setera.sock''"
  using ipnet_String_nonempty [of demo_root]
  by (simp_all add: GetNodeName_def GetNodeIP_def GetNodeCIDR_def InitKubeConfig_def InitClients_def NewKubeClient_def NewSeteraClient_def
      kubeconfig_default_def getSocketPath_def)

lemma demo_policies_ok: "initNodePolicies (Some demo_policies) () = (Inr (), ())"
  by (simp add: initNodePolicies_def at_stage_def EnsureIPForwarding_def EnsureBridgeNetfilter_def EnsureForwardPolicyDrop_def
      EnsureClusterMasquerade_def writeSysctl_def demo_policies_def demo_ipt_def p_bind_def p_do_def p_guard_def)

lemma demo_start_ok: "\<exists>b w'. stub_main demo_stub demo_boot = (Inr b, w') \<and> sb_root b = demo_root \<and> sb_nodeName b = ''n1''"
proof -
  let ?h = "mem_host (ipnet_String demo_root) []"
  obtain t where t: "NewTrieManager demo_root 30 = Inr t" using NewTrieManager_inv [OF demo_pfx, of 30] by auto
  obtain nm reg where m: "NewNetworkManager demo_root ''n1'' None () = Inr (nm, reg)"
    using t by (simp add: NewNetworkManager_def NewNetworkManagerWithDeps_def)
  obtain r where r: "initResolver (Some (\<lambda>_. None, True)) ''n1'' = Inr r"
    by (simp add: initResolver_def NewAndStartWithClient_def NewResolver_def StartAsync_def)
  obtain cl where cl: "ensureNodeStore ?h (Some ()) ''n1'' ''10.0.0.1'' \<lparr>mo_stores = Map.empty, mo_tenants = Map.empty\<rparr> = (None, cl)"
    by (simp add: ensureNodeStore_def demo_host Let_def)
  have se: "se_host demo_stub = ?h" "se_pods demo_stub = (\<lambda>_. None, True)" "se_policies demo_stub = Some demo_policies"
    by (simp_all add: demo_stub_def)
  obtain srv where srv: "NewCNIServer ''/var/run/setera/setera.sock'' [] = Some srv" by (simp add: NewCNIServer_def)
  have v: "loadCNIVersion ?h p = Inl ''no such file''" for p by (simp add: loadCNIVersion_def)
  have "stub_main demo_stub demo_boot = stub_serve demo_stub ''n1'' ''10.0.0.1'' demo_root r nm srv (demo_boot\<lparr>bw_cluster := cl\<rparr>)"
    using m r cl srv ParseCIDR_String [OF demo_pfx]
    by (simp add: stub_main_def stub_node_def se demo_host initKube_def p_bind_def p_read_def on_cluster_def on_kernel_def v demo_policies_ok
        demo_boot_def Let_def)
  then show ?thesis by (auto simp: stub_serve_def stub_wire_def daemon_New_def Let_def split: prod.splits)
qed


theorem failed_start_leaves_node_witness:
  "\<exists>w'. stub_main (demo_stub\<lparr>se_host := mem_host [] []\<rparr>) demo_boot = (Inl (KubeFailed (NodeWithoutCIDR ''n1'')), w') \<and>
     bw_kernel w' = bw_kernel demo_boot \<and> bw_files w' = Map.empty \<and> mo_stores (bw_cluster w') ''n1'' \<noteq> None"
proof -
  let ?E = "demo_stub\<lparr>se_host := mem_host [] []\<rparr>"
  have h: "initKube (mem_host [] []) = Inr ()" "InitClients (mem_host [] []) () = Inr ()" "GetNodeName (mem_host [] []) c = Inr ''n1''"
    "GetNodeIP (mem_host [] []) n c = Inr ''10.0.0.1''" "GetNodeCIDR (mem_host [] []) ''n1'' c = Inl (NodeWithoutCIDR ''n1'')" for n c
    by (simp_all add: initKube_def InitKubeConfig_def InitClients_def NewKubeClient_def NewSeteraClient_def GetNodeName_def GetNodeIP_def
        GetNodeCIDR_def kubeconfig_default_def)
  obtain r where r: "initResolver (Some (\<lambda>_. None, True)) ''n1'' = Inr r"
    by (simp add: initResolver_def NewAndStartWithClient_def NewResolver_def StartAsync_def)
  obtain w' where w': "stub_main ?E demo_boot = (Inl (KubeFailed (NodeWithoutCIDR ''n1'')), w')" "mo_stores (bw_cluster w') ''n1'' \<noteq> None"
    using r by (auto simp: stub_main_def demo_stub_def h p_bind_def p_read_def on_cluster_def ensureNodeStore_def demo_boot_def new_nodestore_def
        named_meta_def Let_def)
  have "(bw_kernel w' = bw_kernel demo_boot \<or> (\<exists>p. KubeFailed (NodeWithoutCIDR ''n1'') = PoliciesFailed p)) \<and> bw_files w' = bw_files demo_boot"
    using failed_start_leaves_node [OF w'(1)] by blast
  then show ?thesis using w' by (simp add: demo_boot_def)
qed

subsection \<open>The program cmd/daemon\<close>

text \<open>The items that handlers of a table make of objects; the node stores carry the name of their node.\<close>

definition named_object :: "kobj \<Rightarrow> bool" where
  "named_object obj \<longleftrightarrow> (case obj of ObjNodeStore n \<Rightarrow> st_Name n \<noteq> [] | _ \<Rightarrow> True)"

definition handler_items :: "handler_table \<Rightarrow> WorkItem set" where
  "handler_items tab = {it. \<exists>infm hs obj. (infm, hs) \<in> set tab \<and> named_object obj \<and>
     (it \<in> set (AddFunc hs obj) \<or> (\<exists>old. it \<in> set (UpdateFunc hs old obj)) \<or> it \<in> set (DeleteFunc hs obj))}"

lemma daemon_handler_items:
  assumes "it \<in> handler_items [(tenant_informer, daemon_tenant_handlers env), (nodestore_informer, daemon_nodestore_handlers [])]"
  shows "wi_Source it = SourceTenantCRD \<and> wi_Event it \<in> {EventAdd, EventUpdate, EventDelete} \<or>
    wi_Source it = SourceNodeStoreCRD \<and> wi_Event it = EventUpdate"
proof -
  obtain infm hs obj where h: "(infm, hs) \<in> {(tenant_informer, daemon_tenant_handlers env), (nodestore_informer, daemon_nodestore_handlers [])}"
    and o: "named_object obj" and it: "it \<in> set (AddFunc hs obj) \<or> (\<exists>old. it \<in> set (UpdateFunc hs old obj)) \<or> it \<in> set (DeleteFunc hs obj)"
    using assms unfolding handler_items_def by auto
  show ?thesis
  proof (cases "hs = daemon_tenant_handlers env")
    case True
    then show ?thesis using it
      by (auto simp: daemon_tenant_handlers_def addEventTenantHandler_daemon_def updateEventTenantHandler_daemon_def
          deleteEventTenantHandler_daemon_def EnqueueWith_def split: option.splits if_splits)
  next
    case False
    then have hs: "hs = daemon_nodestore_handlers []" using h by simp
    from it show ?thesis
    proof (elim disjE exE)
      assume "it \<in> set (AddFunc hs obj)"
      then show ?thesis using o unfolding hs
        by (cases obj) (auto simp: daemon_nodestore_handlers_def addNodestoreEventHandler_def EnqueueObjectWith_def EnqueueWith_def named_object_def Let_def
            split: if_splits)
    next
      fix old assume "it \<in> set (UpdateFunc hs old obj)"
      then show ?thesis unfolding hs
        by (auto simp: daemon_nodestore_handlers_def updateNodestoreEventHandler_def EnqueueObjectWith_def EnqueueWith_def Let_def
            split: option.splits if_splits)
    qed (simp add: hs daemon_nodestore_handlers_def deleteEventNodestoretHandler_def)
  qed
qed

lemma unwired_reconcile:
  assumes "dm_dp o' = None" "dm_nmOps o' = None" "dm_nodeName o' = []"
    and "src = SourceTenantCRD \<and> ev \<in> {EventAdd, EventUpdate, EventDelete} \<or> src = SourceNodeStoreCRD \<and> ev = EventUpdate"
  shows "snd (ReconcileEvent (daemon_router o') src ev res w) = w"
  using assms
  by (auto simp: ReconcileEvent_def daemon_router_def NewRouter_def List.map_filter_simps daemon_reconcile_def reconcileTenantSourceAdd_def
      reconcileTenantSourceUpdate_def reconcileTenantDelete_daemon_def reconcileNodeStoreUpdate_def SourceTenantCRD_def SourceNodeStoreCRD_def
      SourceNetworkManager_def EventAdd_def EventUpdate_def EventDelete_def Let_def split: sum.splits)

lemma daemon_main_ok:
  assumes "daemon_main h oe clients w = (Inr g, w')"
  shows "dm_dp (dg_operator g) = None" "dm_nmOps (dg_operator g) = None" "dm_nodeName (dg_operator g) = []"
    "dg_handlers g = [(tenant_informer, daemon_tenant_handlers (kh_Getenv h ''NODE_NAME'')), (nodestore_informer, daemon_nodestore_handlers [])]"
    "Run (oe_wq oe) (oe_sync oe) ((NewBaseOperator (oe_queue oe) ''daemon'' [])\<lparr>bo_hasSynced := [tenant_informer, nodestore_informer]\<rparr>) (oe_world oe) =
       Inr (dg_pool g)"
proof -
  obtain cfg where "daemon_operate h oe clients cfg = Inr g"
    using assms by (auto simp: daemon_main_def boot_ok on_cluster_ok Let_def)
  then show "dm_dp (dg_operator g) = None" "dm_nmOps (dg_operator g) = None" "dm_nodeName (dg_operator g) = []"
    "dg_handlers g = [(tenant_informer, daemon_tenant_handlers (kh_Getenv h ''NODE_NAME'')), (nodestore_informer, daemon_nodestore_handlers [])]"
    "Run (oe_wq oe) (oe_sync oe) ((NewBaseOperator (oe_queue oe) ''daemon'' [])\<lparr>bo_hasSynced := [tenant_informer, nodestore_informer]\<rparr>) (oe_world oe) =
       Inr (dg_pool g)"
    by (auto simp: daemon_operate_def daemon_New_def AddInformerWithHandlers_def NewBaseOperator_def List.map_filter_simps Let_def split: sum.splits)
qed


definition demo_oe :: "(fifo, daemon_world) operator_env" where
  "demo_oe = \<lparr>oe_wq = fifo_queue, oe_queue = fifo_empty, oe_sync = (\<lambda>_. True), oe_world = \<lparr>dw_stores = [], dw_log = []\<rparr>\<rparr>"

lemma demo_daemon_ok:
  "\<exists>g w'. daemon_main (mem_host (ipnet_String demo_root) []) demo_oe (mem_daemon ''n1'' []) demo_boot = (Inr g, w') \<and>
     dg_pool g = \<lparr>pl_queue = fifo_empty, pl_world = \<lparr>dw_stores = [], dw_log = []\<rparr>, pl_workers = [Getting]\<rparr>"
proof -
  have "parseFlags (mem_host (ipnet_String demo_root) []) = Inr cfg \<Longrightarrow> ?thesis" for cfg
    using ipnet_String_nonempty [of demo_root]
    by (simp add: daemon_main_def demo_host p_bind_def p_read_def p_guard_def on_cluster_def demo_boot_def initNodestore_def new_nodestore_def named_meta_def
        daemon_operate_def daemon_New_def AddInformerWithHandlers_def NewBaseOperator_def demo_oe_def Run_def Let_def)
  then show ?thesis by (simp add: parseFlags_def Let_def)
qed


subsection \<open>The other programs\<close>

text \<open>
  The flags of \<open>cmd/daemon\<close> can not be used: \<open>InitKubeConfig\<close> parses the arguments before they are defined, so a daemon that is given one of them, or one of the
  flags that the comment of the program documents, exits with status 2 and does nothing.
\<close>

lemma daemon_flags_rejected:
  assumes "name \<in> set (map fst daemon_flags) \<union> {''node-name'', ''node-ip'', ''socket-path'', ''root-cidr''}"
    and "kh_args h = (''--'' @ name @ CHR ''='' # v) # args"
  shows "daemon_main h oe clients w = (Inl (KubeFailed (FlagsExit 2)), w)"
proof -
  have "name \<noteq> [] \<and> hd name \<notin> {CHR ''-'', CHR ''=''} \<and> CHR ''='' \<notin> set name \<and> name \<noteq> ''kubeconfig'' \<and> name \<noteq> ''help'' \<and> name \<noteq> ''h''"
    using assms(1) by (auto simp: daemon_flags_def)
  then have "flag_Parse [''kubeconfig''] (kh_args h) = Inl FlagSyntax" using flag_arg_double [of name v] assms(2) by simp
  then show ?thesis by (simp add: daemon_main_def InitKubeConfig_def p_bind_def p_read_def)
qed

text \<open>\<open>ListenAndServeTLS\<close> needs a certificate and a key, and the webhook never passes any: it always exits.\<close>

lemma webhook_never_serves:
  assumes "\<And>addr. serve addr [] [] \<noteq> None"
  shows "\<exists>e. webhook_main h serve = Inl e"
  using assms [of serverPort] by (auto simp: webhook_main_def webhook_Start_def NewWebhookServer_def Let_def split: sum.splits option.splits)

text \<open>The plugin reaches the daemon on the path they share, unless the environment moves the socket of the daemon.\<close>

lemma plugin_meets_daemon: "getSocketPath h = oc_SocketPath cni_opts \<longleftrightarrow> kh_Getenv h ''SOCKET'' \<in> {[], ''/var/run/setera/setera.sock''}"
  by (auto simp: getSocketPath_def cni_opts_def)

text \<open>An orchestrator that runs has a default tenant, and both its informers are in sync.\<close>

lemma orchestrator_main_ok:
  assumes "cluster_api h stores tenants" "orchestrator_main h oe add_indexers kb w = (Inr g, w')"
  shows "tenants (bw_cluster w') ''default'' \<noteq> None" "oe_sync oe [tenant_informer, nodestore_informer]" "og_router g = orch_router kb"
proof -
  obtain c where c: "ensureDefaultTenant h (bw_cluster w) = (None, c)" and w': "w' = w\<lparr>bw_cluster := c\<rparr>" and o: "orch_operate oe add_indexers kb = Inr g"
    using assms(2) by (auto simp: orchestrator_main_def boot_ok on_cluster_ok)
  show "tenants (bw_cluster w') ''default'' \<noteq> None"
    using cluster_api.ensureDefaultTenant_exists [OF assms(1) c] by (auto simp: w' split: option.splits)
  show "oe_sync oe [tenant_informer, nodestore_informer]" "og_router g = orch_router kb"
    using o by (auto simp: orch_operate_def orch_New_def orch_handlers_def AddInformerWithHandlers_def NewBaseOperator_def Run_def Let_def
        split: option.splits sum.splits if_splits)
qed

end
