(* ===== verification/Object_Heap.thy ===== *)
theory Object_Heap
  imports Api_Types "HOL-Library.Sublist" "HOL-Library.AList"
begin

text \<open>
  Objects with their slices and maps in memory, as far as the generated copies of \<open>pkg/api/setera.com/v1\<close> and the reconcile functions
  that use them depend on sharing. A heap is a list of cells, an address is an index, and allocation appends; a cell is the array behind slices or the
  table of a map. The locale \<open>deep_copy\<close> is the contract of a copy: the old heap stays, the value is the same, and
  nothing is shared; lemmas build it up from components the way the generated code does.
\<close>

subsection \<open>Slices, maps and objects\<close>

text \<open>A slice is an array with an offset and a length, \<open>None\<close> is nil; a map is a reference to its table.\<close>

record slice_ref =
  sl_arr :: nat
  sl_off :: nat
  sl_len :: nat

type_synonym go_slice = "slice_ref option"
type_synonym map_ref = "nat option"

record Condition =
  cd_Type :: string
  cd_Status :: string
  cd_ObservedGeneration :: int
  cd_LastTransitionTime :: int
  cd_Reason :: string
  cd_Message :: string

record h_meta =
  hm_Name :: string
  hm_Namespace :: string
  hm_ResourceVersion :: string
  hm_Generation :: int
  hm_Labels :: map_ref
  hm_Annotations :: map_ref
  hm_Finalizers :: go_slice

record TenantSpec =
  ts_Name :: string
  ts_Zones :: int

record h_tstatus =
  hs_AssignedNodes :: go_slice
  hs_Paused :: bool
  hs_Awaiting :: go_slice
  hs_Conditions :: go_slice

record h_tenant =
  ht_Type :: GroupVersionKind
  ht_Meta :: h_meta
  ht_Spec :: TenantSpec
  ht_Status :: h_tstatus

record h_infra =
  hi_Name :: string
  hi_TenantCIDR :: string
  hi_VTEP_NAME :: string
  hi_VNI :: int
  hi_VTEP_IP :: string
  hi_VTEP_MAC :: string
  hi_BRIDGE_NAME :: string
  hi_BRIDGE_IP :: string
  hi_BRIDGE_MAC :: string
  hi_Pods :: go_slice

record h_nspec =
  hn_Name :: string
  hn_NodeIP :: string
  hn_Selectors :: map_ref

record h_nstatus =
  hu_Tenants :: map_ref

record h_nodestore =
  ho_Type :: GroupVersionKind
  ho_Meta :: h_meta
  ho_Spec :: h_nspec
  ho_Status :: h_nstatus

record ListMeta =
  lm_ResourceVersion :: string
  lm_Continue :: string

record h_tenant_list =
  tl_Type :: GroupVersionKind
  tl_Meta :: ListMeta
  tl_Items :: go_slice

record h_nodestore_list =
  nl_Type :: GroupVersionKind
  nl_Meta :: ListMeta
  nl_Items :: go_slice

text \<open>A new object is an array of one element, and its address is the pointer to it.\<close>

datatype cell =
    NodeInfos "NodeInfo list"
  | Strings "string list"
  | Conditions "Condition list"
  | Pods "Pod_Info list"
  | Labels "(string \<times> string) list"
  | Infras "(string \<times> h_infra) list"
  | Tenants "h_tenant list"
  | NodeStores "h_nodestore list"
  | TenantSpecs "TenantSpec list"
  | TenantStatuses "h_tstatus list"
  | TenantInfras "h_infra list"
  | NodeSpecs "h_nspec list"
  | NodeStatuses "h_nstatus list"
  | TenantLists "h_tenant_list list"
  | NodeStoreLists "h_nodestore_list list"

type_synonym heap = "cell list"

record 'a cell_kind =
  ck_put :: "'a list \<Rightarrow> cell"
  ck_get :: "cell \<Rightarrow> 'a list option"

definition node_cells :: "NodeInfo cell_kind" where
  "node_cells = \<lparr>ck_put = NodeInfos, ck_get = (\<lambda>c. case c of NodeInfos xs \<Rightarrow> Some xs | _ \<Rightarrow> None)\<rparr>"
definition string_cells :: "string cell_kind" where
  "string_cells = \<lparr>ck_put = Strings, ck_get = (\<lambda>c. case c of Strings xs \<Rightarrow> Some xs | _ \<Rightarrow> None)\<rparr>"
definition condition_cells :: "Condition cell_kind" where
  "condition_cells = \<lparr>ck_put = Conditions, ck_get = (\<lambda>c. case c of Conditions xs \<Rightarrow> Some xs | _ \<Rightarrow> None)\<rparr>"
definition pod_cells :: "Pod_Info cell_kind" where
  "pod_cells = \<lparr>ck_put = Pods, ck_get = (\<lambda>c. case c of Pods xs \<Rightarrow> Some xs | _ \<Rightarrow> None)\<rparr>"
definition label_cells :: "(string \<times> string) cell_kind" where
  "label_cells = \<lparr>ck_put = Labels, ck_get = (\<lambda>c. case c of Labels xs \<Rightarrow> Some xs | _ \<Rightarrow> None)\<rparr>"
definition infra_cells :: "(string \<times> h_infra) cell_kind" where
  "infra_cells = \<lparr>ck_put = Infras, ck_get = (\<lambda>c. case c of Infras xs \<Rightarrow> Some xs | _ \<Rightarrow> None)\<rparr>"
definition tenant_cells :: "h_tenant cell_kind" where
  "tenant_cells = \<lparr>ck_put = Tenants, ck_get = (\<lambda>c. case c of Tenants xs \<Rightarrow> Some xs | _ \<Rightarrow> None)\<rparr>"
definition nodestore_cells :: "h_nodestore cell_kind" where
  "nodestore_cells = \<lparr>ck_put = NodeStores, ck_get = (\<lambda>c. case c of NodeStores xs \<Rightarrow> Some xs | _ \<Rightarrow> None)\<rparr>"
definition spec_cells :: "TenantSpec cell_kind" where
  "spec_cells = \<lparr>ck_put = TenantSpecs, ck_get = (\<lambda>c. case c of TenantSpecs xs \<Rightarrow> Some xs | _ \<Rightarrow> None)\<rparr>"
definition status_cells :: "h_tstatus cell_kind" where
  "status_cells = \<lparr>ck_put = TenantStatuses, ck_get = (\<lambda>c. case c of TenantStatuses xs \<Rightarrow> Some xs | _ \<Rightarrow> None)\<rparr>"
definition infra_object_cells :: "h_infra cell_kind" where
  "infra_object_cells = \<lparr>ck_put = TenantInfras, ck_get = (\<lambda>c. case c of TenantInfras xs \<Rightarrow> Some xs | _ \<Rightarrow> None)\<rparr>"
definition node_spec_cells :: "h_nspec cell_kind" where
  "node_spec_cells = \<lparr>ck_put = NodeSpecs, ck_get = (\<lambda>c. case c of NodeSpecs xs \<Rightarrow> Some xs | _ \<Rightarrow> None)\<rparr>"
definition node_status_cells :: "h_nstatus cell_kind" where
  "node_status_cells = \<lparr>ck_put = NodeStatuses, ck_get = (\<lambda>c. case c of NodeStatuses xs \<Rightarrow> Some xs | _ \<Rightarrow> None)\<rparr>"
definition tenant_list_cells :: "h_tenant_list cell_kind" where
  "tenant_list_cells = \<lparr>ck_put = TenantLists, ck_get = (\<lambda>c. case c of TenantLists xs \<Rightarrow> Some xs | _ \<Rightarrow> None)\<rparr>"
definition nodestore_list_cells :: "h_nodestore_list cell_kind" where
  "nodestore_list_cells = \<lparr>ck_put = NodeStoreLists, ck_get = (\<lambda>c. case c of NodeStoreLists xs \<Rightarrow> Some xs | _ \<Rightarrow> None)\<rparr>"

text \<open>The elements of the array or the entries of the table at an address; a cell of another kind can not be there in Go.\<close>

definition cell_at :: "'a cell_kind \<Rightarrow> heap \<Rightarrow> nat \<Rightarrow> 'a list" where
  "cell_at ck h a = (case ck_get ck (h ! a) of Some xs \<Rightarrow> xs | None \<Rightarrow> [])"

definition slice_val :: "'a cell_kind \<Rightarrow> heap \<Rightarrow> go_slice \<Rightarrow> 'a list option" where
  "slice_val ck h s = map_option (\<lambda>r. take (sl_len r) (drop (sl_off r) (cell_at ck h (sl_arr r)))) s"

definition map_val :: "'a cell_kind \<Rightarrow> heap \<Rightarrow> map_ref \<Rightarrow> 'a list option" where
  "map_val ck h m = map_option (cell_at ck h) m"

definition elems :: "'a list option \<Rightarrow> 'a list" where
  "elems xs = (case xs of None \<Rightarrow> [] | Some l \<Rightarrow> l)"

text \<open>What a slice and a map reach, and that their cells are there.\<close>

definition slice_reach :: "heap \<Rightarrow> go_slice \<Rightarrow> nat set" where
  "slice_reach h s = sl_arr ` set_option s"

definition map_reach :: "heap \<Rightarrow> map_ref \<Rightarrow> nat set" where
  "map_reach h m = set_option m"

definition slice_ok :: "'a cell_kind \<Rightarrow> heap \<Rightarrow> go_slice \<Rightarrow> bool" where
  "slice_ok ck h s \<longleftrightarrow> (case s of None \<Rightarrow> True | Some r \<Rightarrow>
     sl_arr r < length h \<and> ck_get ck (h ! sl_arr r) \<noteq> None \<and> sl_off r + sl_len r \<le> length (cell_at ck h (sl_arr r)))"

definition map_ok :: "('k \<times> 'a) cell_kind \<Rightarrow> heap \<Rightarrow> map_ref \<Rightarrow> bool" where
  "map_ok ck h m \<longleftrightarrow> (case m of None \<Rightarrow> True | Some a \<Rightarrow> a < length h \<and> ck_get ck (h ! a) \<noteq> None \<and> distinct (map fst (cell_at ck h a)))"

subsection \<open>The steps of the generated code\<close>

text \<open>\<open>*out = make([]T, len(*in)); copy(*out, *in)\<close>.\<close>

definition copy_slice :: "'a cell_kind \<Rightarrow> go_slice \<Rightarrow> heap \<Rightarrow> go_slice \<times> heap" where
  "copy_slice ck s h =
     (case s of
        None \<Rightarrow> (s, h)
      | Some r \<Rightarrow> (Some \<lparr>sl_arr = length h, sl_off = 0, sl_len = sl_len r\<rparr>, h @ [ck_put ck (elems (slice_val ck h s))]))"

text \<open>
  The loops: \<open>for i := range *in { (*in)[i].DeepCopyInto(&(*out)[i]) }\<close> and \<open>for key, val := range *in { (*out)[key] = ... }\<close>, where \<open>cp\<close>
  copies one element and may allocate, and the array or table at \<open>a\<close> is filled in place.
\<close>

fun fill :: "'c cell_kind \<Rightarrow> ('k \<Rightarrow> 'a \<Rightarrow> 'c list \<Rightarrow> 'c list) \<Rightarrow> ('a \<Rightarrow> heap \<Rightarrow> 'a \<times> heap) \<Rightarrow> nat \<Rightarrow> ('k \<times> 'a) list \<Rightarrow> heap \<Rightarrow> heap" where
  "fill ck put cp a [] h = h"
| "fill ck put cp a ((k, x) # es) h =
     (case cp x h of (y, h1) \<Rightarrow> fill ck put cp a es (h1[a := ck_put ck (put k y (cell_at ck h1 a))]))"

definition copy_slice_deep :: "'a cell_kind \<Rightarrow> 'a \<Rightarrow> ('a \<Rightarrow> heap \<Rightarrow> 'a \<times> heap) \<Rightarrow> go_slice \<Rightarrow> heap \<Rightarrow> go_slice \<times> heap" where
  "copy_slice_deep ck zero cp s h =
     (case s of
        None \<Rightarrow> (s, h)
      | Some r \<Rightarrow> (Some \<lparr>sl_arr = length h, sl_off = 0, sl_len = sl_len r\<rparr>,
                  fill ck (\<lambda>i y xs. xs[i := y]) cp (length h) (enumerate 0 (elems (slice_val ck h s))) (h @ [ck_put ck (replicate (sl_len r) zero)])))"

definition copy_map :: "('k \<times> 'a) cell_kind \<Rightarrow> ('a \<Rightarrow> heap \<Rightarrow> 'a \<times> heap) \<Rightarrow> map_ref \<Rightarrow> heap \<Rightarrow> map_ref \<times> heap" where
  "copy_map ck cp m h =
     (case m of
        None \<Rightarrow> (m, h)
      | Some a \<Rightarrow> (Some (length h), fill ck AList.update cp (length h) (cell_at ck h a) (h @ [ck_put ck []])))"

text \<open>The object a pointer points to, and \<open>out := new(T); in.DeepCopyInto(out)\<close>, which gives nil for nil.\<close>

definition deref :: "'a cell_kind \<Rightarrow> heap \<Rightarrow> nat \<Rightarrow> 'a" where
  "deref ck h a = hd (cell_at ck h a)"

definition DeepCopy :: "'a cell_kind \<Rightarrow> 'a \<Rightarrow> ('a \<Rightarrow> heap \<Rightarrow> 'a \<times> heap) \<Rightarrow> nat option \<Rightarrow> heap \<Rightarrow> nat option \<times> heap" where
  "DeepCopy ck zero into inp h =
     (case inp of
        None \<Rightarrow> (None, h)
      | Some a \<Rightarrow>
          (case into (deref ck h a) (h @ [ck_put ck [zero]]) of (y, h1) \<Rightarrow> (Some (length h), h1[length h := ck_put ck [y]])))"

text \<open>Copying two components in turn, and a plain value.\<close>

definition copy_pair :: "('a \<Rightarrow> heap \<Rightarrow> 'a \<times> heap) \<Rightarrow> ('b \<Rightarrow> heap \<Rightarrow> 'b \<times> heap) \<Rightarrow> 'a \<times> 'b \<Rightarrow> heap \<Rightarrow> ('a \<times> 'b) \<times> heap" where
  "copy_pair c d xy h = (case c (fst xy) h of (x, h1) \<Rightarrow> case d (snd xy) h1 of (y, h2) \<Rightarrow> ((x, y), h2))"

definition copy_field :: "('a \<Rightarrow> 'b) \<Rightarrow> ('a \<Rightarrow> 'b \<Rightarrow> 'a) \<Rightarrow> ('b \<Rightarrow> heap \<Rightarrow> 'b \<times> heap) \<Rightarrow> 'a \<Rightarrow> heap \<Rightarrow> 'a \<times> heap" where
  "copy_field sel upd c x h = (case c (sel x) h of (y, h1) \<Rightarrow> (upd x y, h1))"

definition copy_plain :: "'a \<Rightarrow> heap \<Rightarrow> 'a \<times> heap" where
  "copy_plain x h = (x, h)"

subsection \<open>The contract of a copy\<close>

lemma prefix_nth: "prefix h h' \<Longrightarrow> b < length h \<Longrightarrow> h' ! b = h ! b"
  by (auto simp: prefix_def nth_append)

locale deep_copy =
  fixes cp :: "'a \<Rightarrow> heap \<Rightarrow> 'a \<times> heap" and val :: "heap \<Rightarrow> 'a \<Rightarrow> 'v" and reach :: "heap \<Rightarrow> 'a \<Rightarrow> nat set" and ok :: "heap \<Rightarrow> 'a \<Rightarrow> bool"
  assumes inside: "ok h x \<Longrightarrow> reach h x \<subseteq> {..<length h}"
    and local: "ok h x \<Longrightarrow> length h \<le> length h' \<Longrightarrow> (\<forall>b\<in>reach h x. h' ! b = h ! b) \<Longrightarrow> ok h' x \<and> val h' x = val h x \<and> reach h' x = reach h x"
    and copies: "ok h x \<Longrightarrow> cp x h = (y, h') \<Longrightarrow> prefix h h' \<and> ok h' y \<and> val h' y = val h x \<and> reach h' y \<inter> {..<length h} = {}"
begin

lemma grows: "ok h x \<Longrightarrow> prefix h h' \<Longrightarrow> ok h' x \<and> val h' x = val h x \<and> reach h' x = reach h x"
  using local [of h x h'] inside [of h x] prefix_nth [of h h'] prefix_length_le [of h h'] by (simp add: subset_eq)

lemma apart:
  assumes "ok h x" "a \<notin> reach h x" "length h \<le> length h'" "\<And>b. b < length h \<Longrightarrow> b \<noteq> a \<Longrightarrow> h' ! b = h ! b"
  shows "ok h' x" "val h' x = val h x" "reach h' x = reach h x"
proof -
  have "\<forall>b\<in>reach h x. h' ! b = h ! b" using inside [OF assms(1)] assms(2,4) by blast
  then show "ok h' x" "val h' x = val h x" "reach h' x = reach h x" using local [OF assms(1,3)] by blast+
qed

text \<open>Whatever is written to what one of the two reaches, the other keeps its value.\<close>

lemma independent:
  assumes "ok h x" "cp x h = (y, h')" "length h'' = length h'"
  shows "(\<forall>b. b \<notin> reach h' y \<longrightarrow> h'' ! b = h' ! b) \<Longrightarrow> val h'' x = val h x"
    "(\<forall>b. b \<notin> reach h x \<longrightarrow> h'' ! b = h' ! b) \<Longrightarrow> val h'' y = val h x"
proof -
  note c = copies [OF assms(1,2)]
  then have old: "ok h' x" "val h' x = val h x" "reach h' x = reach h x" using grows assms(1) by blast+
  have apart: "reach h x \<inter> reach h' y = {}" using c inside [OF assms(1)] by blast
  show "val h'' x = val h x" if "\<forall>b. b \<notin> reach h' y \<longrightarrow> h'' ! b = h' ! b"
    using local [OF old(1), of h''] that apart old assms(3) by auto
  show "val h'' y = val h x" if "\<forall>b. b \<notin> reach h x \<longrightarrow> h'' ! b = h' ! b"
    using local [of h' y h''] that apart c assms(3) by auto
qed

end

subsection \<open>Copies of components\<close>

lemma plain_copy: "deep_copy copy_plain (\<lambda>h x. x) (\<lambda>h x. {}) (\<lambda>h x. True)"
  by unfold_locales (auto simp: copy_plain_def)

lemma deep_copy_cong:
  assumes "deep_copy c v r p" "\<And>x h. c' x h = c x h" "\<And>h x. v' h x = v h x" "\<And>h x. r' h x = r h x" "\<And>h x. p' h x = p h x"
  shows "deep_copy c' v' r' p'"
proof -
  have "c' = c" "v' = v" "r' = r" "p' = p" using assms(2-5) by (simp_all add: fun_eq_iff)
  then show ?thesis using assms(1) by simp
qed

lemma pair_copy:
  assumes "deep_copy c v r p" "deep_copy d v' r' p'"
  shows "deep_copy (copy_pair c d) (\<lambda>h x. (v h (fst x), v' h (snd x))) (\<lambda>h x. r h (fst x) \<union> r' h (snd x)) (\<lambda>h x. p h (fst x) \<and> p' h (snd x))"
proof (unfold_locales, goal_cases)
  case (1 h x)
  then show ?case using deep_copy.inside [OF assms(1)] deep_copy.inside [OF assms(2)] by blast
next
  case (2 h x h')
  then show ?case using deep_copy.local [OF assms(1), of h "fst x" h'] deep_copy.local [OF assms(2), of h "snd x" h'] by simp
next
  case (3 h x y h')
  then obtain y1 h1 y2 where c: "c (fst x) h = (y1, h1)" "d (snd x) h1 = (y2, h')" and y: "y = (y1, y2)"
    by (auto simp: copy_pair_def split: prod.splits)
  note c1 = deep_copy.copies [OF assms(1) _ c(1)]
  have g: "p' h1 (snd x)" "v' h1 (snd x) = v' h (snd x)" using deep_copy.grows [OF assms(2), of h "snd x" h1] c1 3(1) by auto
  note c2 = deep_copy.copies [OF assms(2) g(1) c(2)]
  have k: "p h' y1" "v h' y1 = v h1 y1" "r h' y1 = r h1 y1" using deep_copy.grows [OF assms(1), of h1 y1 h'] c1 c2 3(1) by auto
  have "length h \<le> length h1" using c1 3(1) by (simp add: prefix_length_le)
  then show ?case using c1 c2 k g 3(1) y by (auto intro: prefix_order.trans)
qed

text \<open>A copy of part of a record, with what it shows of the rest.\<close>

lemma field_copy:
  assumes "deep_copy c v r p" "\<And>x y. sel (upd x y) = y" "\<And>x y. rest (upd x y) = rest x"
  shows "deep_copy (copy_field sel upd c) (\<lambda>h x. mk (rest x) (v h (sel x))) (\<lambda>h x. r h (sel x)) (\<lambda>h x. p h (sel x))"
proof (unfold_locales, goal_cases)
  case (1 h x)
  then show ?case using deep_copy.inside [OF assms(1)] by blast
next
  case (2 h x h')
  then show ?case using deep_copy.local [OF assms(1), of h "sel x" h'] by simp
next
  case (3 h x y h')
  then obtain z where z: "c (sel x) h = (z, h')" "y = upd x z" by (auto simp: copy_field_def split: prod.splits)
  then show ?case using deep_copy.copies [OF assms(1) 3(1) z(1)] assms(2,3) by simp
qed

lemma prefixI_nth: "length h \<le> length h' \<Longrightarrow> (\<And>b. b < length h \<Longrightarrow> h' ! b = h ! b) \<Longrightarrow> prefix h h'"
  by (metis nth_take_lemma take_all order_refl take_is_prefix)

lemma enumerate_mem: "(i, x) \<in> set (enumerate n xs) \<Longrightarrow> x \<in> set xs"
  by (auto simp: enumerate_eq_zip dest: set_zip_rightD)

lemma fold_list_update:
  "length ys \<le> length zs - n \<Longrightarrow> fold (\<lambda>(k, y) xs. xs[k := y]) (zip [n..<n + length ys] ys) zs = take n zs @ ys @ drop (n + length ys) zs"
proof (induction ys arbitrary: n zs)
  case (Cons y ys)
  then have "n < length zs" by auto
  then show ?case using Cons.IH [of "zs[n := y]" "Suc n"] Cons.prems
    by (simp add: upt_conv_Cons drop_update_cancel take_Suc_conv_app_nth del: upt_Suc)
qed simp

lemma fold_list_update_all:
  "length ys = length zs \<Longrightarrow> fold (\<lambda>(k, y) xs. xs[k := y]) (zip [0..<length ys] ys) zs = ys"
  using fold_list_update [of ys zs 0] by simp

lemma fold_map_update:
  "distinct (ks @ map fst m) \<Longrightarrow> length ys = length ks \<Longrightarrow> fold (\<lambda>(k, y). AList.update k y) (zip ks ys) m = m @ zip ks ys"
proof (induction ks arbitrary: ys m)
  case (Cons k ks)
  then obtain y zs where ys: "ys = y # zs" by (cases ys) auto
  have "AList.update k y m = m @ [(k, y)]" using Cons.prems(1) by (induction m) auto
  then show ?case using Cons.IH [of "m @ [(k, y)]" zs] Cons.prems ys by auto
qed simp

lemma zip_map_fst_snd_eq: "zip (map fst es) (map (f \<circ> snd) es) = map (apsnd f) es"
  by (induction es) auto

locale cells =
  fixes ck :: "'a cell_kind"
  assumes get_put: "ck_get ck (ck_put ck xs) = Some xs"
begin

lemma cell_at_put: "a < length h \<Longrightarrow> cell_at ck (h[a := ck_put ck xs]) a = xs"
  by (simp add: cell_at_def get_put)

lemma cell_at_new: "cell_at ck (h @ [ck_put ck xs]) (length h) = xs"
  by (simp add: cell_at_def get_put)

lemma slice_copy: "deep_copy (copy_slice ck) (slice_val ck) slice_reach (slice_ok ck)"
proof (unfold_locales, goal_cases)
  case (1 h x)
  then show ?case by (auto simp: slice_reach_def slice_ok_def)
next
  case (2 h x h')
  then show ?case by (auto simp: slice_reach_def slice_ok_def slice_val_def cell_at_def split: option.splits)
next
  case (3 h x y h')
  then show ?case
    by (auto simp: copy_slice_def slice_reach_def slice_ok_def slice_val_def cell_at_new get_put elems_def split: option.splits)
qed

text \<open>The loop copies every element and writes nothing but its own cell.\<close>

lemma fill_copies:
  assumes dc: "deep_copy cp v r p"
  shows "a < length h \<Longrightarrow> (\<forall>x\<in>set es. p h (snd x) \<and> a \<notin> r h (snd x)) \<Longrightarrow> ck_get ck (h ! a) \<noteq> None \<Longrightarrow>
    \<exists>ys. length ys = length es \<and> length h \<le> length (fill ck put cp a es h) \<and> (\<forall>b<length h. b \<noteq> a \<longrightarrow> fill ck put cp a es h ! b = h ! b) \<and>
      ck_get ck (fill ck put cp a es h ! a) = Some (fold (\<lambda>(k, y). put k y) (zip (map fst es) ys) (cell_at ck h a)) \<and>
      (\<forall>y\<in>set ys. p (fill ck put cp a es h) y \<and> r (fill ck put cp a es h) y \<inter> {..<length h} = {}) \<and>
      map (v (fill ck put cp a es h)) ys = map (v h \<circ> snd) es"
proof (induction es arbitrary: h)
  case Nil
  then show ?case by (auto simp: cell_at_def)
next
  case (Cons e es)
  obtain k x y h1 where e: "e = (k, x)" and c: "cp x h = (y, h1)" by (metis surj_pair)
  have px: "p h x" "a \<notin> r h x" using Cons.prems(2) e by auto
  note cc = deep_copy.copies [OF dc px(1) c]
  have len: "length h \<le> length h1" using cc by (simp add: prefix_length_le)
  let ?zs = "put k y (cell_at ck h a)"
  define h2 where "h2 = h1[a := ck_put ck ?zs]"
  have same: "h2 ! b = h ! b" if "b < length h" "b \<noteq> a" for b using that prefix_nth [of h h1] cc by (simp add: h2_def)
  have cell: "cell_at ck h1 a = cell_at ck h a" using prefix_nth [of h h1 a] cc Cons.prems(1) by (simp add: cell_at_def)
  have at2: "ck_get ck (h2 ! a) = Some ?zs" "cell_at ck h2 a = ?zs" using Cons.prems(1) len by (simp_all add: h2_def get_put cell_at_def)
  have l2: "length h2 = length h1" by (simp add: h2_def)
  have keep: "p h2 z" "v h2 z = v h z" "r h2 z = r h z" if "p h z" "a \<notin> r h z" for z
    using deep_copy.apart [OF dc that, of h2] same len l2 by auto
  have ny: "a \<notin> r h1 y" using cc Cons.prems(1) by blast
  have y2: "p h2 y" "v h2 y = v h x" "r h2 y = r h1 y" using deep_copy.apart [OF dc _ ny, of h2] cc l2 by (simp_all add: h2_def)
  have prem: "a < length h2" "\<forall>x\<in>set es. p h2 (snd x) \<and> a \<notin> r h2 (snd x)" "ck_get ck (h2 ! a) \<noteq> None"
    using Cons.prems keep at2 len l2 by auto
  obtain ys where ys: "length ys = length es" "length h2 \<le> length (fill ck put cp a es h2)" "\<forall>b<length h2. b \<noteq> a \<longrightarrow> fill ck put cp a es h2 ! b = h2 ! b"
    "ck_get ck (fill ck put cp a es h2 ! a) = Some (fold (\<lambda>(k, y). put k y) (zip (map fst es) ys) ?zs)"
    "\<forall>y\<in>set ys. p (fill ck put cp a es h2) y \<and> r (fill ck put cp a es h2) y \<inter> {..<length h2} = {}"
    "map (v (fill ck put cp a es h2)) ys = map (v h2 \<circ> snd) es"
    using Cons.IH [OF prem] unfolding at2 by blast
  have f: "fill ck put cp a (e # es) h = fill ck put cp a es h2" by (simp add: e c h2_def cell)
  have y3: "p (fill ck put cp a es h2) y" "v (fill ck put cp a es h2) y = v h2 y" "r (fill ck put cp a es h2) y = r h2 y"
    using deep_copy.apart [OF dc y2(1), of a "fill ck put cp a es h2"] y2(3) ny ys(2,3) by auto
  have vals: "map (v h2 \<circ> snd) es = map (v h \<circ> snd) es" using keep Cons.prems(2) by simp
  have sub: "{..<length h} \<subseteq> {..<length h2}" using len l2 by auto
  have r1: "\<forall>z\<in>set (y # ys). p (fill ck put cp a es h2) z \<and> r (fill ck put cp a es h2) z \<inter> {..<length h} = {}"
    using ys(5) y3 y2 cc sub by fastforce
  have r2: "\<forall>b<length h. b \<noteq> a \<longrightarrow> fill ck put cp a es h2 ! b = h ! b" using ys(3) same len l2 by auto
  have r3: "length (y # ys) = length (e # es)" "length h \<le> length (fill ck put cp a es h2)" using ys(1,2) len l2 by auto
  have r4: "map (v (fill ck put cp a es h2)) (y # ys) = map (v h \<circ> snd) (e # es)" using ys(6) vals y3 y2 e by simp
  have r5: "ck_get ck (fill ck put cp a es h2 ! a) = Some (fold (\<lambda>(k, y). put k y) (zip (map fst (e # es)) (y # ys)) (cell_at ck h a))"
    using ys(4) e by simp
  show ?case unfolding f by (intro exI [of _ "y # ys"] conjI r1 r2 r3 r4 r5)
qed

lemma new_cell_copies:
  assumes dc: "deep_copy cp v r p" and p: "\<forall>x\<in>set es. p h (snd x)" and h': "h' = fill ck put cp (length h) es (h @ [ck_put ck zs])"
  obtains ys where "length ys = length es" "prefix h h'" "length h < length h'"
    "ck_get ck (h' ! length h) = Some (fold (\<lambda>(k, y). put k y) (zip (map fst es) ys) zs)"
    "\<forall>y\<in>set ys. p h' y \<and> r h' y \<inter> {..<length h} = {}" "map (v h') ys = map (v h \<circ> snd) es"
proof -
  let ?h = "h @ [ck_put ck zs]"
  have x: "p ?h (snd e) \<and> v ?h (snd e) = v h (snd e) \<and> length h \<notin> r ?h (snd e)" if "e \<in> set es" for e
    using deep_copy.grows [OF dc, of h "snd e" ?h] deep_copy.inside [OF dc, of h "snd e"] p that by auto
  then have el: "\<forall>x\<in>set es. p ?h (snd x) \<and> length h \<notin> r ?h (snd x)" by blast
  obtain ys where ys: "length ys = length es" "length ?h \<le> length h'" "\<forall>b<length ?h. b \<noteq> length h \<longrightarrow> h' ! b = ?h ! b"
    "ck_get ck (h' ! length h) = Some (fold (\<lambda>(k, y). put k y) (zip (map fst es) ys) (cell_at ck ?h (length h)))"
    "\<forall>y\<in>set ys. p h' y \<and> r h' y \<inter> {..<length ?h} = {}" "map (v h') ys = map (v ?h \<circ> snd) es"
    using fill_copies [OF dc _ el, of put] unfolding h' [symmetric] by (auto simp: get_put)
  have "prefix h h'" using ys(2,3) by (intro prefixI_nth) (auto simp: nth_append)
  moreover have "map (v h') ys = map (v h \<circ> snd) es" using ys(6) x by simp
  moreover have "\<forall>y\<in>set ys. p h' y \<and> r h' y \<inter> {..<length h} = {}" using ys(5) by fastforce
  ultimately show ?thesis using ys(1,2,4) that [of ys] by (simp add: cell_at_new)
qed

lemma slice_deep_copy:
  assumes dc: "deep_copy cp v r p"
  shows "deep_copy (copy_slice_deep ck zero cp) (\<lambda>h s. map_option (map (v h)) (slice_val ck h s))
    (\<lambda>h s. slice_reach h s \<union> (\<Union>x\<in>set (elems (slice_val ck h s)). r h x)) (\<lambda>h s. slice_ok ck h s \<and> (\<forall>x\<in>set (elems (slice_val ck h s)). p h x))"
proof (unfold_locales, goal_cases)
  case (1 h s)
  then show ?case using deep_copy.inside [OF slice_copy, of h s] deep_copy.inside [OF dc] by auto
next
  case (2 h s h')
  then have s: "slice_ok ck h' s" "slice_val ck h' s = slice_val ck h s" "slice_reach h' s = slice_reach h s"
    using deep_copy.local [OF slice_copy, of h s h'] by auto
  have x: "p h' x \<and> v h' x = v h x \<and> r h' x = r h x" if "x \<in> set (elems (slice_val ck h s))" for x
    using deep_copy.local [OF dc, of h x h'] 2 that by auto
  have "map_option (map (v h')) (slice_val ck h s) = map_option (map (v h)) (slice_val ck h s)"
    using x by (cases "slice_val ck h s") (simp_all add: elems_def)
  then show ?case using s x by simp
next
  case (3 h s t h')
  show ?case
  proof (cases s)
    case None
    then show ?thesis using 3 by (simp add: copy_slice_deep_def slice_reach_def slice_val_def elems_def)
  next
    case (Some d)
    let ?xs = "elems (slice_val ck h s)"
    have n: "length ?xs = sl_len d" using 3(1) Some by (auto simp: slice_val_def elems_def slice_ok_def)
    have h': "h' = fill ck (\<lambda>i y xs. xs[i := y]) cp (length h) (enumerate 0 ?xs) (h @ [ck_put ck (replicate (sl_len d) zero)])"
      and t: "t = Some \<lparr>sl_arr = length h, sl_off = 0, sl_len = sl_len d\<rparr>" using 3(2) Some by (simp_all add: copy_slice_deep_def)
    have "\<forall>e\<in>set (enumerate 0 ?xs). p h (snd e)" using 3(1) by (auto dest: enumerate_mem)
    then obtain ys where ys: "length ys = length (enumerate 0 ?xs)" "prefix h h'" "length h < length h'"
      "ck_get ck (h' ! length h) = Some (fold (\<lambda>(k, y) xs. xs[k := y]) (zip (map fst (enumerate 0 ?xs)) ys) (replicate (sl_len d) zero))"
      "\<forall>y\<in>set ys. p h' y \<and> r h' y \<inter> {..<length h} = {}" "map (v h') ys = map (v h \<circ> snd) (enumerate 0 ?xs)"
      by (rule new_cell_copies [OF dc _ h'])
    have c: "ck_get ck (h' ! length h) = Some ys" using ys(1,4) n fold_list_update_all [of ys "replicate (sl_len d) zero"] by simp
    have sv: "slice_val ck h' t = Some ys" using c ys(1) n by (simp add: t slice_val_def cell_at_def)
    have "map (v h') ys = map (v h) ?xs" using ys(6) by (simp flip: map_map)
    then have v: "map_option (map (v h')) (slice_val ck h' t) = map_option (map (v h)) (slice_val ck h s)"
      unfolding sv using Some by (simp add: elems_def slice_val_def)
    have ok: "slice_ok ck h' t" using c ys(1,3) n by (simp add: slice_ok_def t cell_at_def)
    have re: "slice_reach h' t = {length h}" by (simp add: slice_reach_def t)
    show ?thesis using ys(2,5) ok v unfolding sv re elems_def by auto
  qed
qed

lemma object_copy:
  assumes dc: "deep_copy cp v r p"
  shows "deep_copy (DeepCopy ck zero cp) (\<lambda>h q. map_option (\<lambda>a. v h (deref ck h a)) q)
    (\<lambda>h q. \<Union>a\<in>set_option q. insert a (r h (deref ck h a))) (\<lambda>h q. \<forall>a\<in>set_option q. a < length h \<and> p h (deref ck h a))"
proof (unfold_locales, goal_cases)
  case (1 h q)
  then show ?case using deep_copy.inside [OF dc] by auto
next
  case (2 h q h')
  show ?case
  proof (cases q)
    case (Some a)
    then have "deref ck h' a = deref ck h a" using 2(3) by (simp add: deref_def cell_at_def)
    then show ?thesis using deep_copy.local [OF dc, of h "deref ck h a" h'] 2 Some by auto
  qed simp
next
  case (3 h q q' h')
  show ?case
  proof (cases q)
    case (Some a)
    let ?x = "deref ck h a"
    obtain y h1 where c: "cp ?x (h @ [ck_put ck [zero]]) = (y, h1)" by (metis surj_pair)
    then have q': "q' = Some (length h)" and h'1: "h' = h1[length h := ck_put ck [y]]" using 3(2) Some by (simp_all add: DeepCopy_def)
    have px: "p (h @ [ck_put ck [zero]]) ?x" using deep_copy.grows [OF dc, of h ?x "h @ [ck_put ck [zero]]"] 3(1) Some by simp
    have "cell_at ck h1 (length h) = [zero]"
      using deep_copy.copies [OF dc px c] prefix_nth [of "h @ [ck_put ck [zero]]" h1 "length h"] by (simp add: cell_at_def get_put)
    then have h': "h' = fill ck (\<lambda>i y xs. xs[i := y]) cp (length h) [(0, ?x)] (h @ [ck_put ck [zero]])" using c h'1 by simp
    obtain ys where ys: "length ys = length [(0::nat, ?x)]" "prefix h h'" "length h < length h'"
      "ck_get ck (h' ! length h) = Some (fold (\<lambda>(k, y) xs. xs[k := y]) (zip (map fst [(0, ?x)]) ys) [zero])"
      "\<forall>y\<in>set ys. p h' y \<and> r h' y \<inter> {..<length h} = {}" "map (v h') ys = map (v h \<circ> snd) [(0::nat, ?x)]"
      by (rule new_cell_copies [OF dc _ h']) (use 3(1) Some in auto)
    then obtain z where z: "ys = [z]" by (auto simp: length_Suc_conv)
    then have "deref ck h' (length h) = z" using ys(4) by (simp add: deref_def cell_at_def)
    then show ?thesis using ys z q' Some by simp
  qed (use 3 in \<open>simp add: DeepCopy_def\<close>)
qed

end

lemma map_deep_copy:
  fixes ck :: "('k \<times> 'a) cell_kind"
  assumes ck: "cells ck" and dc: "deep_copy cp v r p"
  shows "deep_copy (copy_map ck cp) (\<lambda>h m. map_option (map (apsnd (v h))) (map_val ck h m))
    (\<lambda>h m. map_reach h m \<union> (\<Union>e\<in>set (elems (map_val ck h m)). r h (snd e))) (\<lambda>h m. map_ok ck h m \<and> (\<forall>e\<in>set (elems (map_val ck h m)). p h (snd e)))"
proof (unfold_locales, goal_cases)
  case (1 h m)
  then show ?case using deep_copy.inside [OF dc] by (auto simp: map_reach_def map_ok_def split: option.splits)
next
  case (2 h m h')
  then have m: "map_ok ck h' m" "map_val ck h' m = map_val ck h m" "map_reach h' m = map_reach h m"
    by (auto simp: map_reach_def map_ok_def map_val_def cell_at_def split: option.splits)
  have x: "p h' (snd e) \<and> v h' (snd e) = v h (snd e) \<and> r h' (snd e) = r h (snd e)" if "e \<in> set (elems (map_val ck h m))" for e
    using deep_copy.local [OF dc, of h "snd e" h'] 2 that by auto
  have "map_option (map (apsnd (v h'))) (map_val ck h m) = map_option (map (apsnd (v h))) (map_val ck h m)"
    using x by (cases "map_val ck h m") (auto simp: elems_def intro!: prod_eqI)
  then show ?case using m x by simp
next
  case (3 h m n h')
  show ?case
  proof (cases m)
    case None
    then show ?thesis using 3 by (simp add: copy_map_def map_reach_def map_val_def elems_def)
  next
    case (Some a)
    let ?es = "cell_at ck h a"
    have h': "h' = fill ck AList.update cp (length h) ?es (h @ [ck_put ck []])" and n: "n = Some (length h)"
      using 3(2) Some by (simp_all add: copy_map_def)
    have "\<forall>e\<in>set ?es. p h (snd e)" using 3(1) Some by (simp add: map_val_def elems_def)
    then obtain ys where ys: "length ys = length ?es" "prefix h h'" "length h < length h'"
      "ck_get ck (h' ! length h) = Some (fold (\<lambda>(k, y). AList.update k y) (zip (map fst ?es) ys) [])"
      "\<forall>y\<in>set ys. p h' y \<and> r h' y \<inter> {..<length h} = {}" "map (v h') ys = map (v h \<circ> snd) ?es"
      by (rule cells.new_cell_copies [OF ck dc _ h'])
    have d: "distinct (map fst ?es)" using 3(1) Some by (simp add: map_ok_def)
    have c: "ck_get ck (h' ! length h) = Some (zip (map fst ?es) ys)" using ys(1,4) d fold_map_update [of "map fst ?es" "[]" ys] by simp
    have mv: "map_val ck h' n = Some (zip (map fst ?es) ys)" using c by (simp add: n map_val_def cell_at_def)
    have "map (apsnd (v h')) (zip (map fst ?es) ys) = zip (map fst ?es) (map (v h') ys)" by (simp add: zip_map2 apsnd_def map_prod_def)
    also have "\<dots> = map (apsnd (v h)) ?es" unfolding ys(6) by (simp add: zip_map_fst_snd_eq)
    finally have v: "map_option (map (apsnd (v h'))) (map_val ck h' n) = map_option (map (apsnd (v h))) (map_val ck h m)"
      unfolding mv using Some by (simp add: map_val_def)
    have ok: "map_ok ck h' n" using c ys(1,3) d by (simp add: map_ok_def n cell_at_def)
    have re: "map_reach h' n = {length h}" by (simp add: map_reach_def n)
    have "\<forall>e\<in>set (zip (map fst ?es) ys). snd e \<in> set ys" by (auto dest: set_zip_rightD)
    then show ?thesis using ys(2,5) ok v unfolding mv re elems_def by auto
  qed
qed

end
