(* ===== verification/Deep_Copy.thy ===== *)
theory Deep_Copy
  imports Object_Heap
begin

text \<open>
  The generated copies of \<open>pkg/api/setera.com/v1/zz_generated.deepcopy.go\<close> on the heap of \<open>Object_Heap\<close>. \<open>*out = *in\<close> copies the record with its
  references, and the fields that hold references are then copied one after the other. The copies of the metadata types are functions of apimachinery and
  are given by a record; that they are copies is the locale \<open>apimachinery\<close>.
\<close>

subsection \<open>The generated functions\<close>

record api_copies =
  ac_ObjectMeta :: "h_meta \<Rightarrow> heap \<Rightarrow> h_meta \<times> heap"
  ac_ListMeta :: "ListMeta \<Rightarrow> heap \<Rightarrow> ListMeta \<times> heap"
  ac_Condition :: "Condition \<Rightarrow> heap \<Rightarrow> Condition \<times> heap"

definition NodeInfo_DeepCopyInto :: "NodeInfo \<Rightarrow> heap \<Rightarrow> NodeInfo \<times> heap" where
  "NodeInfo_DeepCopyInto inp h = (inp, h)"

definition Pod_Info_DeepCopyInto :: "Pod_Info \<Rightarrow> heap \<Rightarrow> Pod_Info \<times> heap" where
  "Pod_Info_DeepCopyInto inp h = (inp, h)"

definition TenantSpec_DeepCopyInto :: "TenantSpec \<Rightarrow> heap \<Rightarrow> TenantSpec \<times> heap" where
  "TenantSpec_DeepCopyInto inp h = (inp, h)"

definition TenantInfra_DeepCopyInto :: "h_infra \<Rightarrow> heap \<Rightarrow> h_infra \<times> heap" where
  "TenantInfra_DeepCopyInto inp h = (case copy_slice pod_cells (hi_Pods inp) h of (ps, h1) \<Rightarrow> (inp\<lparr>hi_Pods := ps\<rparr>, h1))"

definition NodeStoreSpec_DeepCopyInto :: "h_nspec \<Rightarrow> heap \<Rightarrow> h_nspec \<times> heap" where
  "NodeStoreSpec_DeepCopyInto inp h =
     (case copy_map label_cells copy_plain (hn_Selectors inp) h of (m, h1) \<Rightarrow> (inp\<lparr>hn_Selectors := m\<rparr>, h1))"

text \<open>\<open>*val.DeepCopy()\<close> also makes an object that nothing refers to once its value is stored in the map; it is left out.\<close>

definition NodeStoreStatus_DeepCopyInto :: "h_nstatus \<Rightarrow> heap \<Rightarrow> h_nstatus \<times> heap" where
  "NodeStoreStatus_DeepCopyInto inp h =
     (case copy_map infra_cells TenantInfra_DeepCopyInto (hu_Tenants inp) h of (m, h1) \<Rightarrow> (inp\<lparr>hu_Tenants := m\<rparr>, h1))"

definition NodeStore_DeepCopyInto :: "api_copies \<Rightarrow> h_nodestore \<Rightarrow> heap \<Rightarrow> h_nodestore \<times> heap" where
  "NodeStore_DeepCopyInto ac inp h =
     (case ac_ObjectMeta ac (ho_Meta inp) h of (m, h1) \<Rightarrow>
      case NodeStoreSpec_DeepCopyInto (ho_Spec inp) h1 of (sp, h2) \<Rightarrow>
      case NodeStoreStatus_DeepCopyInto (ho_Status inp) h2 of (st, h3) \<Rightarrow>
        (inp\<lparr>ho_Meta := m, ho_Spec := sp, ho_Status := st\<rparr>, h3))"

definition zero_condition :: Condition where
  "zero_condition = \<lparr>cd_Type = [], cd_Status = [], cd_ObservedGeneration = 0, cd_LastTransitionTime = 0, cd_Reason = [], cd_Message = []\<rparr>"

definition TenantStatus_DeepCopyInto :: "api_copies \<Rightarrow> h_tstatus \<Rightarrow> heap \<Rightarrow> h_tstatus \<times> heap" where
  "TenantStatus_DeepCopyInto ac inp h =
     (case copy_slice node_cells (hs_AssignedNodes inp) h of (a, h1) \<Rightarrow>
      case copy_slice string_cells (hs_Awaiting inp) h1 of (w, h2) \<Rightarrow>
      case copy_slice_deep condition_cells zero_condition (ac_Condition ac) (hs_Conditions inp) h2 of (c, h3) \<Rightarrow>
        (inp\<lparr>hs_AssignedNodes := a, hs_Awaiting := w, hs_Conditions := c\<rparr>, h3))"

definition Tenant_DeepCopyInto :: "api_copies \<Rightarrow> h_tenant \<Rightarrow> heap \<Rightarrow> h_tenant \<times> heap" where
  "Tenant_DeepCopyInto ac inp h =
     (case ac_ObjectMeta ac (ht_Meta inp) h of (m, h1) \<Rightarrow>
      case TenantStatus_DeepCopyInto ac (ht_Status inp) h1 of (st, h2) \<Rightarrow>
        (inp\<lparr>ht_Meta := m, ht_Status := st\<rparr>, h2))"

definition zero_type :: GroupVersionKind where "zero_type = \<lparr>gvk_Group = [], gvk_Version = [], gvk_Kind = []\<rparr>"

definition zero_meta :: h_meta where
  "zero_meta = \<lparr>hm_Name = [], hm_Namespace = [], hm_ResourceVersion = [], hm_Generation = 0, hm_Labels = None, hm_Annotations = None, hm_Finalizers = None\<rparr>"

definition zero_tenant :: h_tenant where
  "zero_tenant = \<lparr>ht_Type = zero_type, ht_Meta = zero_meta, ht_Spec = \<lparr>ts_Name = [], ts_Zones = 0\<rparr>,
     ht_Status = \<lparr>hs_AssignedNodes = None, hs_Paused = False, hs_Awaiting = None, hs_Conditions = None\<rparr>\<rparr>"

definition zero_nodestore :: h_nodestore where
  "zero_nodestore = \<lparr>ho_Type = zero_type, ho_Meta = zero_meta, ho_Spec = \<lparr>hn_Name = [], hn_NodeIP = [], hn_Selectors = None\<rparr>, ho_Status = \<lparr>hu_Tenants = None\<rparr>\<rparr>"

definition TenantList_DeepCopyInto :: "api_copies \<Rightarrow> h_tenant_list \<Rightarrow> heap \<Rightarrow> h_tenant_list \<times> heap" where
  "TenantList_DeepCopyInto ac inp h =
     (case ac_ListMeta ac (tl_Meta inp) h of (m, h1) \<Rightarrow>
      case copy_slice_deep tenant_cells zero_tenant (Tenant_DeepCopyInto ac) (tl_Items inp) h1 of (is, h2) \<Rightarrow>
        (inp\<lparr>tl_Meta := m, tl_Items := is\<rparr>, h2))"

definition NodeStoreList_DeepCopyInto :: "api_copies \<Rightarrow> h_nodestore_list \<Rightarrow> heap \<Rightarrow> h_nodestore_list \<times> heap" where
  "NodeStoreList_DeepCopyInto ac inp h =
     (case ac_ListMeta ac (nl_Meta inp) h of (m, h1) \<Rightarrow>
      case copy_slice_deep nodestore_cells zero_nodestore (NodeStore_DeepCopyInto ac) (nl_Items inp) h1 of (is, h2) \<Rightarrow>
        (inp\<lparr>nl_Meta := m, nl_Items := is\<rparr>, h2))"

definition zero_node_info :: NodeInfo where "zero_node_info = \<lparr>ni_Name = [], ni_NodeIP = [], ni_TenantCIDR = [], ni_VtepIP = [], ni_VtepMAC = []\<rparr>"
definition zero_pod_info :: Pod_Info where "zero_pod_info = \<lparr>pi_Name = [], pi_IP = []\<rparr>"
definition zero_infra :: h_infra where
  "zero_infra = \<lparr>hi_Name = [], hi_TenantCIDR = [], hi_VTEP_NAME = [], hi_VNI = 0, hi_VTEP_IP = [], hi_VTEP_MAC = [], hi_BRIDGE_NAME = [], hi_BRIDGE_IP = [],
     hi_BRIDGE_MAC = [], hi_Pods = None\<rparr>"
definition zero_tenant_list :: h_tenant_list where
  "zero_tenant_list = \<lparr>tl_Type = zero_type, tl_Meta = \<lparr>lm_ResourceVersion = [], lm_Continue = []\<rparr>, tl_Items = None\<rparr>"
definition zero_nodestore_list :: h_nodestore_list where
  "zero_nodestore_list = \<lparr>nl_Type = zero_type, nl_Meta = \<lparr>lm_ResourceVersion = [], lm_Continue = []\<rparr>, nl_Items = None\<rparr>"

text \<open>The methods on pointers. \<open>DeepCopyObject\<close> gives the copy as a \<open>runtime.Object\<close>, where nil stays a nil interface.\<close>

definition NodeInfo_DeepCopy :: "nat option \<Rightarrow> heap \<Rightarrow> nat option \<times> heap" where
  "NodeInfo_DeepCopy inp h = DeepCopy node_cells zero_node_info NodeInfo_DeepCopyInto inp h"
definition Pod_Info_DeepCopy :: "nat option \<Rightarrow> heap \<Rightarrow> nat option \<times> heap" where
  "Pod_Info_DeepCopy inp h = DeepCopy pod_cells zero_pod_info Pod_Info_DeepCopyInto inp h"
definition TenantSpec_DeepCopy :: "nat option \<Rightarrow> heap \<Rightarrow> nat option \<times> heap" where
  "TenantSpec_DeepCopy inp h = DeepCopy spec_cells (ht_Spec zero_tenant) TenantSpec_DeepCopyInto inp h"
definition TenantStatus_DeepCopy :: "api_copies \<Rightarrow> nat option \<Rightarrow> heap \<Rightarrow> nat option \<times> heap" where
  "TenantStatus_DeepCopy ac inp h = DeepCopy status_cells (ht_Status zero_tenant) (TenantStatus_DeepCopyInto ac) inp h"
definition TenantInfra_DeepCopy :: "nat option \<Rightarrow> heap \<Rightarrow> nat option \<times> heap" where
  "TenantInfra_DeepCopy inp h = DeepCopy infra_object_cells zero_infra TenantInfra_DeepCopyInto inp h"
definition NodeStoreSpec_DeepCopy :: "nat option \<Rightarrow> heap \<Rightarrow> nat option \<times> heap" where
  "NodeStoreSpec_DeepCopy inp h = DeepCopy node_spec_cells (ho_Spec zero_nodestore) NodeStoreSpec_DeepCopyInto inp h"
definition NodeStoreStatus_DeepCopy :: "nat option \<Rightarrow> heap \<Rightarrow> nat option \<times> heap" where
  "NodeStoreStatus_DeepCopy inp h = DeepCopy node_status_cells (ho_Status zero_nodestore) NodeStoreStatus_DeepCopyInto inp h"
definition NodeStore_DeepCopy :: "api_copies \<Rightarrow> nat option \<Rightarrow> heap \<Rightarrow> nat option \<times> heap" where
  "NodeStore_DeepCopy ac inp h = DeepCopy nodestore_cells zero_nodestore (NodeStore_DeepCopyInto ac) inp h"
definition Tenant_DeepCopy :: "api_copies \<Rightarrow> nat option \<Rightarrow> heap \<Rightarrow> nat option \<times> heap" where
  "Tenant_DeepCopy ac inp h = DeepCopy tenant_cells zero_tenant (Tenant_DeepCopyInto ac) inp h"
definition TenantList_DeepCopy :: "api_copies \<Rightarrow> nat option \<Rightarrow> heap \<Rightarrow> nat option \<times> heap" where
  "TenantList_DeepCopy ac inp h = DeepCopy tenant_list_cells zero_tenant_list (TenantList_DeepCopyInto ac) inp h"
definition NodeStoreList_DeepCopy :: "api_copies \<Rightarrow> nat option \<Rightarrow> heap \<Rightarrow> nat option \<times> heap" where
  "NodeStoreList_DeepCopy ac inp h = DeepCopy nodestore_list_cells zero_nodestore_list (NodeStoreList_DeepCopyInto ac) inp h"

datatype runtime_object = TenantObject nat | NodeStoreObject nat | TenantListObject nat | NodeStoreListObject nat

definition Tenant_DeepCopyObject :: "api_copies \<Rightarrow> nat option \<Rightarrow> heap \<Rightarrow> runtime_object option \<times> heap" where
  "Tenant_DeepCopyObject ac inp h = (case Tenant_DeepCopy ac inp h of (Some c, h1) \<Rightarrow> (Some (TenantObject c), h1) | (None, h1) \<Rightarrow> (None, h1))"
definition NodeStore_DeepCopyObject :: "api_copies \<Rightarrow> nat option \<Rightarrow> heap \<Rightarrow> runtime_object option \<times> heap" where
  "NodeStore_DeepCopyObject ac inp h = (case NodeStore_DeepCopy ac inp h of (Some c, h1) \<Rightarrow> (Some (NodeStoreObject c), h1) | (None, h1) \<Rightarrow> (None, h1))"
definition TenantList_DeepCopyObject :: "api_copies \<Rightarrow> nat option \<Rightarrow> heap \<Rightarrow> runtime_object option \<times> heap" where
  "TenantList_DeepCopyObject ac inp h = (case TenantList_DeepCopy ac inp h of (Some c, h1) \<Rightarrow> (Some (TenantListObject c), h1) | (None, h1) \<Rightarrow> (None, h1))"
definition NodeStoreList_DeepCopyObject :: "api_copies \<Rightarrow> nat option \<Rightarrow> heap \<Rightarrow> runtime_object option \<times> heap" where
  "NodeStoreList_DeepCopyObject ac inp h = (case NodeStoreList_DeepCopy ac inp h of (Some c, h1) \<Rightarrow> (Some (NodeStoreListObject c), h1) | (None, h1) \<Rightarrow> (None, h1))"

subsection \<open>The objects as values\<close>

definition meta_val :: "heap \<Rightarrow> h_meta \<Rightarrow> ObjectMeta" where
  "meta_val h m = \<lparr>om_Name = hm_Name m, om_Namespace = hm_Namespace m, om_ResourceVersion = hm_ResourceVersion m, om_Generation = hm_Generation m,
     om_Labels = elems (map_val label_cells h (hm_Labels m)), om_Annotations = elems (map_val label_cells h (hm_Annotations m)),
     om_Finalizers = elems (slice_val string_cells h (hm_Finalizers m))\<rparr>"

definition tenant_val :: "heap \<Rightarrow> h_tenant \<Rightarrow> Tenant" where
  "tenant_val h t = \<lparr>tn_Type = ht_Type t, tn_Meta = meta_val h (ht_Meta t), tn_Name = ts_Name (ht_Spec t), tn_Zones = ts_Zones (ht_Spec t),
     tn_AssignedNodes = elems (slice_val node_cells h (hs_AssignedNodes (ht_Status t))), tn_Paused = hs_Paused (ht_Status t),
     tn_Awaiting = elems (slice_val string_cells h (hs_Awaiting (ht_Status t)))\<rparr>"

definition infra_val :: "heap \<Rightarrow> h_infra \<Rightarrow> TenantInfra" where
  "infra_val h i = \<lparr>ti_Name = hi_Name i, ti_TenantCIDR = hi_TenantCIDR i, ti_VTEP_NAME = hi_VTEP_NAME i, ti_VNI = hi_VNI i, ti_VTEP_IP = hi_VTEP_IP i,
     ti_VTEP_MAC = hi_VTEP_MAC i, ti_BRIDGE_NAME = hi_BRIDGE_NAME i, ti_BRIDGE_IP = hi_BRIDGE_IP i, ti_BRIDGE_MAC = hi_BRIDGE_MAC i,
     ti_Pods = elems (slice_val pod_cells h (hi_Pods i))\<rparr>"

definition nodestore_val :: "heap \<Rightarrow> h_nodestore \<Rightarrow> NodeStore" where
  "nodestore_val h n = \<lparr>st_Type = ho_Type n, st_Meta = meta_val h (ho_Meta n), st_Name = hn_Name (ho_Spec n), st_NodeIP = hn_NodeIP (ho_Spec n),
     st_Selectors = elems (map_val label_cells h (hn_Selectors (ho_Spec n))),
     st_Tenants = map (apsnd (infra_val h)) (elems (map_val infra_cells h (hu_Tenants (ho_Status n))))\<rparr>"

text \<open>
  A view also tells nil from empty: the record without its references, and what each of these holds. \<open>reach\<close> are the cells of an object, \<open>ok\<close> that
  they are there with the type they have in Go.
\<close>

definition meta_view where
  "meta_view h m = (m\<lparr>hm_Labels := None, hm_Annotations := None, hm_Finalizers := None\<rparr>,
     map_val label_cells h (hm_Labels m), map_val label_cells h (hm_Annotations m), slice_val string_cells h (hm_Finalizers m))"

definition meta_reach :: "heap \<Rightarrow> h_meta \<Rightarrow> nat set" where
  "meta_reach h m = map_reach h (hm_Labels m) \<union> map_reach h (hm_Annotations m) \<union> slice_reach h (hm_Finalizers m)"

definition meta_ok :: "heap \<Rightarrow> h_meta \<Rightarrow> bool" where
  "meta_ok h m \<longleftrightarrow> map_ok label_cells h (hm_Labels m) \<and> map_ok label_cells h (hm_Annotations m) \<and> slice_ok string_cells h (hm_Finalizers m)"

definition status_view where
  "status_view h s = (s\<lparr>hs_AssignedNodes := None, hs_Awaiting := None, hs_Conditions := None\<rparr>,
     slice_val node_cells h (hs_AssignedNodes s), slice_val string_cells h (hs_Awaiting s), slice_val condition_cells h (hs_Conditions s))"

definition status_reach :: "heap \<Rightarrow> h_tstatus \<Rightarrow> nat set" where
  "status_reach h s = slice_reach h (hs_AssignedNodes s) \<union> slice_reach h (hs_Awaiting s) \<union> slice_reach h (hs_Conditions s)"

definition status_ok :: "heap \<Rightarrow> h_tstatus \<Rightarrow> bool" where
  "status_ok h s \<longleftrightarrow> slice_ok node_cells h (hs_AssignedNodes s) \<and> slice_ok string_cells h (hs_Awaiting s) \<and> slice_ok condition_cells h (hs_Conditions s)"

definition tenant_view where
  "tenant_view h t = (ht_Type t, ht_Spec t, meta_view h (ht_Meta t), status_view h (ht_Status t))"

definition tenant_reach :: "heap \<Rightarrow> h_tenant \<Rightarrow> nat set" where
  "tenant_reach h t = meta_reach h (ht_Meta t) \<union> status_reach h (ht_Status t)"

definition tenant_ok :: "heap \<Rightarrow> h_tenant \<Rightarrow> bool" where
  "tenant_ok h t \<longleftrightarrow> meta_ok h (ht_Meta t) \<and> status_ok h (ht_Status t)"

definition infra_view where "infra_view h i = (i\<lparr>hi_Pods := None\<rparr>, slice_val pod_cells h (hi_Pods i))"
definition infra_reach :: "heap \<Rightarrow> h_infra \<Rightarrow> nat set" where "infra_reach h i = slice_reach h (hi_Pods i)"
definition infra_ok :: "heap \<Rightarrow> h_infra \<Rightarrow> bool" where "infra_ok h i \<longleftrightarrow> slice_ok pod_cells h (hi_Pods i)"

definition nodestore_view where
  "nodestore_view h n = (ho_Type n, (ho_Spec n)\<lparr>hn_Selectors := None\<rparr>, meta_view h (ho_Meta n), map_val label_cells h (hn_Selectors (ho_Spec n)),
     map_option (map (apsnd (infra_view h))) (map_val infra_cells h (hu_Tenants (ho_Status n))))"

definition nodestore_reach :: "heap \<Rightarrow> h_nodestore \<Rightarrow> nat set" where
  "nodestore_reach h n = meta_reach h (ho_Meta n) \<union> map_reach h (hn_Selectors (ho_Spec n)) \<union> map_reach h (hu_Tenants (ho_Status n)) \<union>
     (\<Union>e\<in>set (elems (map_val infra_cells h (hu_Tenants (ho_Status n)))). infra_reach h (snd e))"

definition nodestore_ok :: "heap \<Rightarrow> h_nodestore \<Rightarrow> bool" where
  "nodestore_ok h n \<longleftrightarrow> meta_ok h (ho_Meta n) \<and> map_ok label_cells h (hn_Selectors (ho_Spec n)) \<and> map_ok infra_cells h (hu_Tenants (ho_Status n)) \<and>
     (\<forall>e\<in>set (elems (map_val infra_cells h (hu_Tenants (ho_Status n)))). infra_ok h (snd e))"

definition tenant_list_view where
  "tenant_list_view h l = (tl_Type l, tl_Meta l, map_option (map (tenant_view h)) (slice_val tenant_cells h (tl_Items l)))"

definition tenant_list_reach :: "heap \<Rightarrow> h_tenant_list \<Rightarrow> nat set" where
  "tenant_list_reach h l = slice_reach h (tl_Items l) \<union> (\<Union>t\<in>set (elems (slice_val tenant_cells h (tl_Items l))). tenant_reach h t)"

definition tenant_list_ok :: "heap \<Rightarrow> h_tenant_list \<Rightarrow> bool" where
  "tenant_list_ok h l \<longleftrightarrow> slice_ok tenant_cells h (tl_Items l) \<and> (\<forall>t\<in>set (elems (slice_val tenant_cells h (tl_Items l))). tenant_ok h t)"

definition nodestore_list_view where
  "nodestore_list_view h l = (nl_Type l, nl_Meta l, map_option (map (nodestore_view h)) (slice_val nodestore_cells h (nl_Items l)))"

definition nodestore_list_reach :: "heap \<Rightarrow> h_nodestore_list \<Rightarrow> nat set" where
  "nodestore_list_reach h l = slice_reach h (nl_Items l) \<union> (\<Union>n\<in>set (elems (slice_val nodestore_cells h (nl_Items l))). nodestore_reach h n)"

definition nodestore_list_ok :: "heap \<Rightarrow> h_nodestore_list \<Rightarrow> bool" where
  "nodestore_list_ok h l \<longleftrightarrow> slice_ok nodestore_cells h (nl_Items l) \<and> (\<forall>n\<in>set (elems (slice_val nodestore_cells h (nl_Items l))). nodestore_ok h n)"

text \<open>The value of an object is a function of its view.\<close>

lemma view_val:
  "meta_view h m = meta_view h' m' \<Longrightarrow> meta_val h m = meta_val h' m'"
  by (cases m; cases m') (simp add: meta_view_def meta_val_def)

lemma tenant_view_val: "tenant_view h t = tenant_view h' t' \<Longrightarrow> tenant_val h t = tenant_val h' t'"
  using view_val [of h "ht_Meta t" h' "ht_Meta t'"]
  by (cases "ht_Status t"; cases "ht_Status t'") (simp add: tenant_view_def tenant_val_def status_view_def)

lemma infra_view_val: "infra_view h i = infra_view h' i' \<Longrightarrow> infra_val h i = infra_val h' i'"
  by (cases i; cases i') (simp add: infra_view_def infra_val_def)

lemma map_factors: "map f xs = map g ys \<Longrightarrow> (\<And>x y. f x = g y \<Longrightarrow> f' x = g' y) \<Longrightarrow> map f' xs = map g' ys"
  by (induction xs arbitrary: ys) (auto simp: map_eq_Cons_conv Cons_eq_map_conv)

lemma infra_views_val:
  assumes "map (apsnd (infra_view h)) es = map (apsnd (infra_view h')) es'"
  shows "map (apsnd (infra_val h)) es = map (apsnd (infra_val h')) es'"
  by (rule map_factors [OF assms]) (auto simp: apsnd_def map_prod_def split: prod.splits dest: infra_view_val)

lemma nodestore_view_val: "nodestore_view h n = nodestore_view h' n' \<Longrightarrow> nodestore_val h n = nodestore_val h' n'"
  using view_val [of h "ho_Meta n" h' "ho_Meta n'"]
    infra_views_val [of h "elems (map_val infra_cells h (hu_Tenants (ho_Status n)))" h' "elems (map_val infra_cells h' (hu_Tenants (ho_Status n')))"]
  by (cases "ho_Spec n"; cases "ho_Spec n'"; cases "map_val infra_cells h (hu_Tenants (ho_Status n))"; cases "map_val infra_cells h' (hu_Tenants (ho_Status n'))")
    (simp_all add: nodestore_view_def nodestore_val_def elems_def)

subsection \<open>The generated functions are copies\<close>

interpretation nc: cells node_cells by unfold_locales (simp add: node_cells_def)
interpretation sc: cells string_cells by unfold_locales (simp add: string_cells_def)
interpretation cc: cells condition_cells by unfold_locales (simp add: condition_cells_def)
interpretation pc: cells pod_cells by unfold_locales (simp add: pod_cells_def)
interpretation lc: cells label_cells by unfold_locales (simp add: label_cells_def)
interpretation ic: cells infra_cells by unfold_locales (simp add: infra_cells_def)
interpretation tc: cells tenant_cells by unfold_locales (simp add: tenant_cells_def)
interpretation dc: cells nodestore_cells by unfold_locales (simp add: nodestore_cells_def)
interpretation xc: cells spec_cells by unfold_locales (simp add: spec_cells_def)
interpretation uc: cells status_cells by unfold_locales (simp add: status_cells_def)
interpretation oc: cells infra_object_cells by unfold_locales (simp add: infra_object_cells_def)
interpretation yc: cells node_spec_cells by unfold_locales (simp add: node_spec_cells_def)
interpretation zc: cells node_status_cells by unfold_locales (simp add: node_status_cells_def)
interpretation tl: cells tenant_list_cells by unfold_locales (simp add: tenant_list_cells_def)
interpretation nl: cells nodestore_list_cells by unfold_locales (simp add: nodestore_list_cells_def)

lemma apsnd_ident: "apsnd (\<lambda>x. x) = (\<lambda>e. e)"
  by (simp add: fun_eq_iff apsnd_def)

lemma label_map_copy: "deep_copy (copy_map label_cells copy_plain) (map_val label_cells) map_reach (map_ok label_cells)"
  by (rule deep_copy_cong [OF map_deep_copy [OF lc.cells_axioms plain_copy]]) (simp_all add: apsnd_ident list.map_ident option.map_ident)

interpretation infra: deep_copy TenantInfra_DeepCopyInto infra_view infra_reach infra_ok
  by (rule deep_copy_cong [OF field_copy [where sel = hi_Pods and upd = "\<lambda>i p. i\<lparr>hi_Pods := p\<rparr>" and rest = "\<lambda>i. i\<lparr>hi_Pods := None\<rparr>" and mk = Pair,
        OF pc.slice_copy]])
    (simp_all add: TenantInfra_DeepCopyInto_def copy_field_def infra_view_def infra_reach_def infra_ok_def)

interpretation node_spec: deep_copy NodeStoreSpec_DeepCopyInto "\<lambda>h s. (s\<lparr>hn_Selectors := None\<rparr>, map_val label_cells h (hn_Selectors s))"
  "\<lambda>h s. map_reach h (hn_Selectors s)" "\<lambda>h s. map_ok label_cells h (hn_Selectors s)"
  by (rule deep_copy_cong [OF field_copy [where sel = hn_Selectors and upd = "\<lambda>s m. s\<lparr>hn_Selectors := m\<rparr>" and rest = "\<lambda>s. s\<lparr>hn_Selectors := None\<rparr>"
        and mk = Pair, OF label_map_copy]])
    (simp_all add: NodeStoreSpec_DeepCopyInto_def copy_field_def)

interpretation node_status: deep_copy NodeStoreStatus_DeepCopyInto "\<lambda>h s. map_option (map (apsnd (infra_view h))) (map_val infra_cells h (hu_Tenants s))"
  "\<lambda>h s. map_reach h (hu_Tenants s) \<union> (\<Union>e\<in>set (elems (map_val infra_cells h (hu_Tenants s))). infra_reach h (snd e))"
  "\<lambda>h s. map_ok infra_cells h (hu_Tenants s) \<and> (\<forall>e\<in>set (elems (map_val infra_cells h (hu_Tenants s))). infra_ok h (snd e))"
  by (rule deep_copy_cong [OF field_copy [where sel = hu_Tenants and upd = "\<lambda>s m. s\<lparr>hu_Tenants := m\<rparr>" and rest = "\<lambda>s. ()"
        and mk = "\<lambda>u v. v", OF map_deep_copy [OF ic.cells_axioms infra.deep_copy_axioms]]])
    (simp_all add: NodeStoreStatus_DeepCopyInto_def copy_field_def)

interpretation node_info: deep_copy NodeInfo_DeepCopyInto "\<lambda>h x. x" "\<lambda>h x. {}" "\<lambda>h x. True"
  by (rule deep_copy_cong [OF plain_copy]) (simp_all add: NodeInfo_DeepCopyInto_def copy_plain_def)

interpretation pod_info: deep_copy Pod_Info_DeepCopyInto "\<lambda>h x. x" "\<lambda>h x. {}" "\<lambda>h x. True"
  by (rule deep_copy_cong [OF plain_copy]) (simp_all add: Pod_Info_DeepCopyInto_def copy_plain_def)

interpretation tenant_spec: deep_copy TenantSpec_DeepCopyInto "\<lambda>h x. x" "\<lambda>h x. {}" "\<lambda>h x. True"
  by (rule deep_copy_cong [OF plain_copy]) (simp_all add: TenantSpec_DeepCopyInto_def copy_plain_def)

text \<open>The documented behaviour of apimachinery: its copies are copies.\<close>

locale apimachinery =
  fixes ac :: api_copies
  assumes meta_copy: "deep_copy (ac_ObjectMeta ac) meta_view meta_reach meta_ok"
    and list_meta_copy: "deep_copy (ac_ListMeta ac) (\<lambda>h m. m) (\<lambda>h m. {}) (\<lambda>h m. True)"
    and condition_copy: "deep_copy (ac_Condition ac) (\<lambda>h c. c) (\<lambda>h c. {}) (\<lambda>h c. True)"
begin

lemma status_copy: "deep_copy (TenantStatus_DeepCopyInto ac) status_view status_reach status_ok"
  by (rule deep_copy_cong [OF field_copy [where sel = "\<lambda>s. (hs_AssignedNodes s, hs_Awaiting s, hs_Conditions s)"
        and upd = "\<lambda>s (a, w, c). s\<lparr>hs_AssignedNodes := a, hs_Awaiting := w, hs_Conditions := c\<rparr>"
        and rest = "\<lambda>s. s\<lparr>hs_AssignedNodes := None, hs_Awaiting := None, hs_Conditions := None\<rparr>" and mk = Pair,
        OF pair_copy [OF nc.slice_copy pair_copy [OF sc.slice_copy cc.slice_deep_copy [OF condition_copy, of zero_condition]]]]])
    (auto simp: TenantStatus_DeepCopyInto_def copy_field_def copy_pair_def status_view_def status_reach_def status_ok_def option.map_ident split: prod.splits)

lemma tenant_copy: "deep_copy (Tenant_DeepCopyInto ac) tenant_view tenant_reach tenant_ok"
  by (rule deep_copy_cong [OF field_copy [where sel = "\<lambda>t. (ht_Meta t, ht_Status t)" and upd = "\<lambda>t (m, s). t\<lparr>ht_Meta := m, ht_Status := s\<rparr>"
        and rest = "\<lambda>t. (ht_Type t, ht_Spec t)" and mk = "\<lambda>(ty, sp) (m, s). (ty, sp, m, s)", OF pair_copy [OF meta_copy status_copy]]])
    (auto simp: Tenant_DeepCopyInto_def copy_field_def copy_pair_def tenant_view_def tenant_reach_def tenant_ok_def split: prod.splits)

lemma nodestore_copy: "deep_copy (NodeStore_DeepCopyInto ac) nodestore_view nodestore_reach nodestore_ok"
  by (rule deep_copy_cong [OF field_copy [where sel = "\<lambda>n. (ho_Meta n, hn_Selectors (ho_Spec n), hu_Tenants (ho_Status n))"
        and upd = "\<lambda>n (m, s, t). n\<lparr>ho_Meta := m, ho_Spec := (ho_Spec n)\<lparr>hn_Selectors := s\<rparr>, ho_Status := \<lparr>hu_Tenants = t\<rparr>\<rparr>"
        and rest = "\<lambda>n. (ho_Type n, (ho_Spec n)\<lparr>hn_Selectors := None\<rparr>)" and mk = "\<lambda>(ty, sp) (m, s, t). (ty, sp, m, s, t)",
        OF pair_copy [OF meta_copy pair_copy [OF label_map_copy map_deep_copy [OF ic.cells_axioms infra.deep_copy_axioms]]]]])
    (auto simp: NodeStore_DeepCopyInto_def NodeStoreSpec_DeepCopyInto_def NodeStoreStatus_DeepCopyInto_def copy_field_def copy_pair_def nodestore_view_def
      nodestore_reach_def nodestore_ok_def split: prod.splits)

lemma tenant_list_copy: "deep_copy (TenantList_DeepCopyInto ac) tenant_list_view tenant_list_reach tenant_list_ok"
  by (rule deep_copy_cong [OF field_copy [where sel = "\<lambda>l. (tl_Meta l, tl_Items l)" and upd = "\<lambda>l (m, i). l\<lparr>tl_Meta := m, tl_Items := i\<rparr>"
        and rest = tl_Type and mk = "\<lambda>ty (m, i). (ty, m, i)", OF pair_copy [OF list_meta_copy tc.slice_deep_copy [OF tenant_copy, of zero_tenant]]]])
    (auto simp: TenantList_DeepCopyInto_def copy_field_def copy_pair_def tenant_list_view_def tenant_list_reach_def tenant_list_ok_def split: prod.splits)

lemma nodestore_list_copy: "deep_copy (NodeStoreList_DeepCopyInto ac) nodestore_list_view nodestore_list_reach nodestore_list_ok"
  by (rule deep_copy_cong [OF field_copy [where sel = "\<lambda>l. (nl_Meta l, nl_Items l)" and upd = "\<lambda>l (m, i). l\<lparr>nl_Meta := m, nl_Items := i\<rparr>"
        and rest = nl_Type and mk = "\<lambda>ty (m, i). (ty, m, i)", OF pair_copy [OF list_meta_copy dc.slice_deep_copy [OF nodestore_copy, of zero_nodestore]]]])
    (auto simp: NodeStoreList_DeepCopyInto_def copy_field_def copy_pair_def nodestore_list_view_def nodestore_list_reach_def nodestore_list_ok_def
      split: prod.splits)

end

end
