(* ===== verification/Cache_Safety.thy ===== *)
theory Cache_Safety
  imports Deep_Copy Orchestrator
begin

text \<open>
  The reconcile functions of the orchestrator (\<open>internal/orchestrator\<close>) once more, now in memory: the listers hand out pointers into the cache of
  the informers, the functions share the slices of what they read, copy before they write, and send the value of the copy. The theories on
  the orchestrator treat objects as values; here it is shown that they may: the memory of the cache is never written, and
  what is sent is what the functions on values send.
\<close>

subsection \<open>Memory\<close>

text \<open>A slice that \<open>make\<close> and \<open>append\<close> build is a new array; \<open>s[:n]\<close> shares the array of \<open>s\<close>.\<close>

definition new_slice :: "'a cell_kind \<Rightarrow> 'a list \<Rightarrow> heap \<Rightarrow> go_slice \<times> heap" where
  "new_slice ck xs h = (Some \<lparr>sl_arr = length h, sl_off = 0, sl_len = length xs\<rparr>, h @ [ck_put ck xs])"

definition reslice :: "nat \<Rightarrow> go_slice \<Rightarrow> go_slice" where
  "reslice n s = map_option (\<lambda>r. r\<lparr>sl_len := n\<rparr>) s"

abbreviation tenant_at :: "heap \<Rightarrow> nat \<Rightarrow> h_tenant" where "tenant_at \<equiv> deref tenant_cells"

definition stores_val :: "heap \<Rightarrow> nat list \<Rightarrow> NodeStore list" where
  "stores_val h ps = map (\<lambda>a. nodestore_val h (deref nodestore_cells h a)) ps"

definition assigned_of :: "heap \<Rightarrow> h_tenant \<Rightarrow> NodeInfo list" where
  "assigned_of h t = elems (slice_val node_cells h (hs_AssignedNodes (ht_Status t)))"

definition awaiting_of :: "heap \<Rightarrow> h_tenant \<Rightarrow> string list" where
  "awaiting_of h t = elems (slice_val string_cells h (hs_Awaiting (ht_Status t)))"

text \<open>\<open>mod := t.DeepCopy()\<close> and the assignments to fields of its status that follow; \<open>None\<close> leaves a field.\<close>

definition with_status :: "go_slice option \<Rightarrow> go_slice option \<Rightarrow> h_tstatus \<Rightarrow> h_tstatus" where
  "with_status aw as s = s\<lparr>hs_Awaiting := (case aw of None \<Rightarrow> hs_Awaiting s | Some x \<Rightarrow> x),
     hs_AssignedNodes := (case as of None \<Rightarrow> hs_AssignedNodes s | Some x \<Rightarrow> x)\<rparr>"

definition copy_with :: "api_copies \<Rightarrow> nat \<Rightarrow> go_slice option \<Rightarrow> go_slice option \<Rightarrow> heap \<Rightarrow> nat \<times> heap" where
  "copy_with ac a aw as h =
     (case Tenant_DeepCopy ac (Some a) h of (q, h1) \<Rightarrow>
        let m = the q; t = tenant_at h1 m in (m, h1[m := Tenants [t\<lparr>ht_Status := with_status aw as (ht_Status t)\<rparr>]]))"

text \<open>The listers and the index of the node stores: pointers into the cache.\<close>

record 'w cache =
  ca_Tenant :: "string \<Rightarrow> string \<Rightarrow> 'w \<Rightarrow> string + nat"
  ca_NodeStores :: "'w \<Rightarrow> string + nat list"
  ca_ByIndex :: "string \<Rightarrow> 'w \<Rightarrow> string + nat list"

subsection \<open>The functions\<close>

definition send_status :: "api_copies \<Rightarrow> 'w kube \<Rightarrow> nat \<Rightarrow> go_slice option \<Rightarrow> go_slice option \<Rightarrow> 'w \<Rightarrow> heap \<Rightarrow> orch_error option \<times> 'w \<times> heap" where
  "send_status ac kb a aw as w h =
     (case copy_with ac a aw as h of (m, h1) \<Rightarrow>
        case kb_UpdateStatus kb (tenant_val h1 (tenant_at h1 m)) w of
          (Some e, w1) \<Rightarrow> (Some (UpdateErr e), w1, h1)
        | (None, w1) \<Rightarrow> (None, w1, h1))"

definition ensureTenantFinalizer_mem :: "'w kube \<Rightarrow> h_tenant \<Rightarrow> 'w \<Rightarrow> heap \<Rightarrow> orch_error option \<times> 'w \<times> heap" where
  "ensureTenantFinalizer_mem kb t w h =
     (let fs = elems (slice_val string_cells h (hm_Finalizers (ht_Meta t))) in
      if tenantFinalizer \<in> set fs then (None, w, h)
      else case new_slice string_cells (fs @ [tenantFinalizer]) h of (finalizers, h1) \<Rightarrow>
             case kb_Patch kb (hm_Namespace (ht_Meta t)) (hm_Name (ht_Meta t)) (elems (slice_val string_cells h1 finalizers)) w of
               (Some e, w1) \<Rightarrow> (Some (PatchErr e), w1, h1)
             | (None, w1) \<Rightarrow> (None, w1, h1))"

definition selectInitialAwaitingNodes_mem :: "'w cache \<Rightarrow> h_tenant \<Rightarrow> 'w \<Rightarrow> heap \<Rightarrow> orch_error + go_slice \<times> heap" where
  "selectInitialAwaitingNodes_mem ca t w h =
     (if ts_Zones (ht_Spec t) \<le> 0 then Inr (None, h)
      else case ca_NodeStores ca w of
             Inl e \<Rightarrow> Inl (ListErr e)
           | Inr stores \<Rightarrow>
               if stores = [] then Inl NoNodeStores
               else Inr (new_slice string_cells (select_loop (ts_Zones (ht_Spec t)) (stores_val h stores) []) h))"

text \<open>The three parts of \<open>recomputeAwaitingAndAssignedForZones\<close>: the awaiting nodes that stay, with the number of missing nodes, the new awaiting nodes, and
  the assigned nodes, which share the array of the tenant.\<close>

definition still_awaiting :: "h_tenant \<Rightarrow> heap \<Rightarrow> string list \<times> string list \<times> int" where
  "still_awaiting t h =
     (let assignedIDs = filter (\<lambda>x. x \<noteq> []) (map ni_Name (assigned_of h t));
          awaiting = filter (\<lambda>i. i \<notin> set assignedIDs) (awaiting_of h t)
      in (assignedIDs, awaiting, max (ts_Zones (ht_Spec t)) 0 - int (length (assigned_of h t) + length awaiting)))"

definition next_awaiting :: "h_tenant \<Rightarrow> nat list \<Rightarrow> heap \<Rightarrow> string list" where
  "next_awaiting t stores h =
     (case still_awaiting t h of (assignedIDs, awaiting, delta) \<Rightarrow>
        if delta > 0 then awaiting @ add_awaiting (candidates (stores_val h stores)) (assignedIDs @ awaiting) (nat delta) else awaiting)"

definition next_assigned :: "h_tenant \<Rightarrow> heap \<Rightarrow> go_slice" where
  "next_assigned t h =
     (case still_awaiting t h of (_, _, delta) \<Rightarrow>
        let assigned = hs_AssignedNodes (ht_Status t); n = length (assigned_of h t) in
        if delta < 0 then (if - delta \<ge> int n then reslice 0 assigned else reslice (nat (int n + delta)) assigned) else assigned)"

definition recompute_mem :: "h_tenant \<Rightarrow> nat list \<Rightarrow> heap \<Rightarrow> go_slice \<times> go_slice \<times> bool \<times> heap" where
  "recompute_mem t stores h =
     (case new_slice string_cells (next_awaiting t stores h) h of (awaiting, h1) \<Rightarrow>
        let assigned = next_assigned t h
        in (awaiting, assigned, awaiting_of h1 t \<noteq> elems (slice_val string_cells h1 awaiting) \<or>
              \<not> equalNodeInfos (assigned_of h1 t) (elems (slice_val node_cells h1 assigned)), h1))"

definition reconcileTenantAdd_mem :: "api_copies \<Rightarrow> 'w kube \<Rightarrow> 'w cache \<Rightarrow> ResourceRef \<Rightarrow> 'w \<Rightarrow> heap \<Rightarrow> orch_error option \<times> 'w \<times> heap" where
  "reconcileTenantAdd_mem ac kb ca ref w h =
     (case ca_Tenant ca (rr_Namespace ref) (rr_Name ref) w of
        Inl e \<Rightarrow> (Some (GetTenantErr e), w, h)
      | Inr a \<Rightarrow>
          (case ensureTenantFinalizer_mem kb (tenant_at h a) w h of
             (Some e, w1, h1) \<Rightarrow> (Some e, w1, h1)
           | (None, w1, h1) \<Rightarrow>
               let t = tenant_at h1 a in
               if awaiting_of h1 t \<noteq> [] \<or> assigned_of h1 t \<noteq> [] then (None, w1, h1)
               else (case selectInitialAwaitingNodes_mem ca t w1 h1 of
                       Inl e \<Rightarrow> (Some e, w1, h1)
                     | Inr (seed, h2) \<Rightarrow>
                         if elems (slice_val string_cells h2 seed) = [] then (None, w1, h2)
                         else send_status ac kb a (Some seed) None w1 h2)))"

definition reconcileTenantUpdate_mem :: "api_copies \<Rightarrow> 'w kube \<Rightarrow> 'w cache \<Rightarrow> ResourceRef \<Rightarrow> 'w \<Rightarrow> heap \<Rightarrow> orch_error option \<times> 'w \<times> heap" where
  "reconcileTenantUpdate_mem ac kb ca ref w h =
     (case ca_Tenant ca (rr_Namespace ref) (rr_Name ref) w of
        Inl e \<Rightarrow> (Some (GetTenantErr e), w, h)
      | Inr a \<Rightarrow>
          (case ensureTenantFinalizer_mem kb (tenant_at h a) w h of
             (Some e, w1, h1) \<Rightarrow> (Some e, w1, h1)
           | (None, w1, h1) \<Rightarrow>
               (case ca_NodeStores ca w1 of
                  Inl e \<Rightarrow> (Some (ListErr e), w1, h1)
                | Inr stores \<Rightarrow>
                    (case recompute_mem (tenant_at h1 a) stores h1 of
                       (newAwaiting, newAssigned, changed, h2) \<Rightarrow>
                         if \<not> changed then (None, w1, h2)
                         else send_status ac kb a (Some newAwaiting) (Some newAssigned) w1 h2))))"

definition reconcileNodestoreDelete_mem :: "api_copies \<Rightarrow> 'w kube \<Rightarrow> 'w cache \<Rightarrow> ResourceRef \<Rightarrow> 'w \<Rightarrow> heap \<Rightarrow> orch_error option \<times> 'w \<times> heap" where
  "reconcileNodestoreDelete_mem ac kb ca ref w h =
     (case ca_Tenant ca (rr_Namespace ref) (rr_Name ref) w of
        Inl e \<Rightarrow> (Some (GetTenantErr e), w, h)
      | Inr a \<Rightarrow>
          (case new_slice node_cells (filter (\<lambda>ni. ni_Name ni \<noteq> rr_Name ref) (assigned_of h (tenant_at h a))) h of
             (newAssigned, h1) \<Rightarrow>
               if equalNodeInfosByValue (assigned_of h1 (tenant_at h1 a)) (elems (slice_val node_cells h1 newAssigned)) then (None, w, h1)
               else send_status ac kb a None (Some newAssigned) w h1))"

definition reconcileNodestoreUpdate_mem :: "api_copies \<Rightarrow> 'w kube \<Rightarrow> 'w cache \<Rightarrow> ResourceRef \<Rightarrow> 'w \<Rightarrow> heap \<Rightarrow> orch_error option \<times> 'w \<times> heap" where
  "reconcileNodestoreUpdate_mem ac kb ca ref w h =
     (case ca_Tenant ca (rr_Namespace ref) (rr_Name ref) w of
        Inl e \<Rightarrow> (Some (GetTenantErr e), w, h)
      | Inr a \<Rightarrow>
          let t = tenant_at h a; name = hm_Name (ht_Meta t); zones = ts_Zones (ht_Spec t) in
          (case ca_ByIndex ca name w of
             Inl e \<Rightarrow> (Some (IndexErr e), w, h)
           | Inr nodestores \<Rightarrow>
               (case new_slice node_cells (assigned_from name (stores_val h nodestores)) h of (newAssigned, h1) \<Rightarrow>
                case ca_NodeStores ca w of
                  Inl e \<Rightarrow> (Some (ListErr e), w, h1)
                | Inr allStores \<Rightarrow>
                    (case copy_with ac a None (Some newAssigned) h1 of (temp, h2) \<Rightarrow>
                     case recompute_mem (tenant_at h2 temp) allStores h2 of
                       (newAwaiting, newAssignedFinal, changed, h3) \<Rightarrow>
                         if \<not> changed \<and> awaiting_of h3 t = elems (slice_val string_cells h3 newAwaiting) \<and>
                            equalNodeInfosByValue (assigned_of h3 t) (elems (slice_val node_cells h3 newAssignedFinal))
                         then (None, w, h3)
                         else (case send_status ac kb a (Some newAwaiting) (Some newAssignedFinal) w h3 of
                                 (Some e, w1, h4) \<Rightarrow> (Some e, w1, h4)
                               | (None, w1, h4) \<Rightarrow>
                                   let k = length (elems (slice_val node_cells h4 newAssignedFinal)) in
                                   if int (length allStores) \<ge> zones \<and> int k \<noteq> zones
                                   then (Some (AwaitingZones zones k (length allStores)), w1, h4)
                                   else (None, w1, h4))))))"

subsection \<open>What the steps leave\<close>

lemma deref_grows: "prefix h h' \<Longrightarrow> a < length h \<Longrightarrow> deref ck h' a = deref ck h a"
  by (simp add: deref_def cell_at_def prefix_nth)

context cells
begin

lemma new_slice_val: "new_slice ck xs h = (s, h') \<Longrightarrow> prefix h h' \<and> slice_ok ck h' s \<and> slice_val ck h' s = Some xs"
  by (auto simp: new_slice_def slice_ok_def slice_val_def cell_at_new get_put)

lemma reslice_val:
  assumes "slice_ok ck h s" "n \<le> length (elems (slice_val ck h s))"
  shows "slice_ok ck h (reslice n s)" "elems (slice_val ck h (reslice n s)) = take n (elems (slice_val ck h s))"
  using assms by (auto simp: slice_ok_def slice_val_def reslice_def elems_def min_def split: option.splits if_splits)

end

definition stores_ok :: "heap \<Rightarrow> nat list \<Rightarrow> bool" where
  "stores_ok h ps \<longleftrightarrow> (\<forall>a\<in>set ps. a < length h \<and> nodestore_ok h (deref nodestore_cells h a))"

text \<open>The cluster as the cache in memory shows it.\<close>

definition cached :: "'w kube \<Rightarrow> 'w cache \<Rightarrow> heap \<Rightarrow> bool" where
  "cached kb ca h \<longleftrightarrow>
     (\<forall>ns n w. kb_GetTenant kb ns n w = map_sum id (tenant_val h \<circ> tenant_at h) (ca_Tenant ca ns n w) \<and>
        (\<forall>a. ca_Tenant ca ns n w = Inr a \<longrightarrow> a < length h \<and> tenant_ok h (tenant_at h a))) \<and>
     (\<forall>w. kb_ListNodeStores kb w = map_sum id (stores_val h) (ca_NodeStores ca w) \<and> (\<forall>ps. ca_NodeStores ca w = Inr ps \<longrightarrow> stores_ok h ps)) \<and>
     (\<forall>n w. kb_ByIndex kb indexNodestoreByTenant n w = map_sum id (map ObjNodeStore \<circ> stores_val h) (ca_ByIndex ca n w) \<and>
        (\<forall>ps. ca_ByIndex ca n w = Inr ps \<longrightarrow> stores_ok h ps))"

text \<open>A function in memory that does what the function on values does, and writes to nothing that was there before.\<close>

definition refines :: "heap \<Rightarrow> 'e \<times> 'w \<times> heap \<Rightarrow> 'e \<times> 'w \<Rightarrow> bool" where
  "refines h r s \<longleftrightarrow> (case r of (e, w, h') \<Rightarrow> prefix h h' \<and> s = (e, w))"

lemma refines_grows: "refines h1 r s \<Longrightarrow> prefix h h1 \<Longrightarrow> refines h r s"
  by (auto simp: refines_def split: prod.splits)

lemma own_cell: "tenant_ok h t \<Longrightarrow> h ! m = Tenants ts \<Longrightarrow> m \<notin> tenant_reach h t"
  by (auto simp: tenant_ok_def meta_ok_def status_ok_def map_ok_def slice_ok_def tenant_reach_def meta_reach_def status_reach_def map_reach_def
      slice_reach_def label_cells_def string_cells_def node_cells_def condition_cells_def)

lemma finalizer_refines: "tenant_ok h t \<Longrightarrow> refines h (ensureTenantFinalizer_mem kb t w h) (ensureTenantFinalizer kb (tenant_val h t) w)"
  by (auto simp: ensureTenantFinalizer_mem_def ensureTenantFinalizer_def refines_def tenant_val_def meta_val_def Let_def
      dest!: sc.new_slice_val split: prod.splits option.splits) (simp_all add: elems_def)

context apimachinery
begin

lemma tenant_grows: "tenant_ok h t \<Longrightarrow> prefix h h' \<Longrightarrow> tenant_ok h' t \<and> tenant_val h' t = tenant_val h t"
  using deep_copy.grows [OF tenant_copy] tenant_view_val by blast

lemma stores_grow:
  assumes "stores_ok h ps" "prefix h h'"
  shows "stores_ok h' ps \<and> stores_val h' ps = stores_val h ps"
proof -
  have "a < length h' \<and> nodestore_ok h' (deref nodestore_cells h' a) \<and>
      nodestore_val h' (deref nodestore_cells h' a) = nodestore_val h (deref nodestore_cells h a)" if "a \<in> set ps" for a
    using deep_copy.grows [OF nodestore_copy, of h "deref nodestore_cells h a" h'] that assms prefix_length_le [OF assms(2)]
      nodestore_view_val [of h' "deref nodestore_cells h a" h "deref nodestore_cells h a"]
    by (auto simp: stores_ok_def deref_grows)
  then show ?thesis by (simp add: stores_ok_def stores_val_def)
qed

lemma cached_grows:
  assumes "cached kb ca h" "prefix h h'"
  shows "cached kb ca h'"
proof -
  have t: "a < length h' \<and> tenant_ok h' (tenant_at h' a) \<and> tenant_val h' (tenant_at h' a) = tenant_val h (tenant_at h a)"
    if "a < length h" "tenant_ok h (tenant_at h a)" for a
    using tenant_grows [OF that(2) assms(2)] that(1) assms(2) prefix_length_le [OF assms(2)] by (simp add: deref_grows)
  note st = stores_grow [OF _ assms(2)]
  show ?thesis unfolding cached_def
  proof (intro conjI allI impI, goal_cases)
    case (1 ns n w)
    then show ?case using assms(1) t unfolding cached_def by (cases "ca_Tenant ca ns n w") auto
  next
    case (4 w)
    then show ?case using assms(1) st unfolding cached_def by (cases "ca_NodeStores ca w") auto
  next
    case (6 n w)
    then show ?case using assms(1) st unfolding cached_def by (cases "ca_ByIndex ca n w") auto
  qed (use assms(1) t st in \<open>auto simp: cached_def\<close>)
qed

lemma copy_with_val:
  assumes a: "a < length h" "tenant_ok h (tenant_at h a)"
    and s: "\<forall>x\<in>set_option aw. slice_ok string_cells h x" "\<forall>x\<in>set_option as. slice_ok node_cells h x"
    and c: "copy_with ac a aw as h = (m, h')"
  shows "prefix h h'" "m < length h'" "tenant_ok h' (tenant_at h' m)"
    "tenant_val h' (tenant_at h' m) = (tenant_val h (tenant_at h a))\<lparr>
       tn_Awaiting := (case aw of None \<Rightarrow> tn_Awaiting (tenant_val h (tenant_at h a)) | Some x \<Rightarrow> elems (slice_val string_cells h x)),
       tn_AssignedNodes := (case as of None \<Rightarrow> tn_AssignedNodes (tenant_val h (tenant_at h a)) | Some x \<Rightarrow> elems (slice_val node_cells h x))\<rparr>"
proof -
  obtain y h0 where "Tenant_DeepCopyInto ac (tenant_at h a) (h @ [ck_put tenant_cells [zero_tenant]]) = (y, h0)" by (metis surj_pair)
  then have d: "Tenant_DeepCopy ac (Some a) h = (Some (length h), h0[length h := Tenants [y]])"
    by (simp add: Tenant_DeepCopy_def DeepCopy_def tenant_cells_def)
  define h1 where "h1 = h0[length h := Tenants [y]]"
  have "DeepCopy tenant_cells zero_tenant (Tenant_DeepCopyInto ac) (Some a) h = (Some (length h), h1)"
    using d by (simp add: Tenant_DeepCopy_def h1_def)
  then have k: "prefix h h1" "length h < length h1" "tenant_ok h1 (tenant_at h1 (length h))"
    "tenant_view h1 (tenant_at h1 (length h)) = tenant_view h (tenant_at h a)"
    using deep_copy.copies [OF tc.object_copy [OF tenant_copy, of zero_tenant], where h = h and x = "Some a" and y = "Some (length h)" and h' = h1] a by auto
  let ?t = "tenant_at h1 (length h)"
  let ?u = "?t\<lparr>ht_Status := with_status aw as (ht_Status ?t)\<rparr>"
  have m: "m = length h" and h': "h' = h1[length h := Tenants [?u]]" using c d by (auto simp: copy_with_def h1_def Let_def)
  have "h1 ! length h = Tenants [y]" using k(2) by (simp add: h1_def)
  then have own: "length h \<notin> tenant_reach h1 ?t" using own_cell [OF k(3)] by simp
  have t: "tenant_ok h' ?t" "tenant_view h' ?t = tenant_view h1 ?t" using deep_copy.apart [OF tenant_copy k(3) own, of h'] by (simp_all add: h')
  have u: "tenant_at h' m = ?u" using k(2) by (simp add: m h' deref_def cell_at_def tenant_cells_def)
  show p: "prefix h h'" using k(1,2) prefix_nth [OF k(1)] by (intro prefixI_nth) (auto simp: h')
  show "m < length h'" using k(2) by (simp add: m h')
  note sl = deep_copy.grows [OF sc.slice_copy _ p] deep_copy.grows [OF nc.slice_copy _ p]
  show "tenant_ok h' (tenant_at h' m)"
    using t(1) s sl unfolding u by (auto simp: tenant_ok_def status_ok_def with_status_def split: option.splits)
  have "tenant_val h' ?t = tenant_val h (tenant_at h a)" by (rule tenant_view_val) (simp add: t k)
  then show "tenant_val h' (tenant_at h' m) = (tenant_val h (tenant_at h a))\<lparr>
       tn_Awaiting := (case aw of None \<Rightarrow> tn_Awaiting (tenant_val h (tenant_at h a)) | Some x \<Rightarrow> elems (slice_val string_cells h x)),
       tn_AssignedNodes := (case as of None \<Rightarrow> tn_AssignedNodes (tenant_val h (tenant_at h a)) | Some x \<Rightarrow> elems (slice_val node_cells h x))\<rparr>"
    using s sl unfolding u by (auto simp: tenant_val_def with_status_def split: option.splits)
qed

lemma send_refines:
  assumes "a < length h" "tenant_ok h (tenant_at h a)" "\<forall>x\<in>set_option aw. slice_ok string_cells h x" "\<forall>x\<in>set_option as. slice_ok node_cells h x"
    and "u = (tenant_val h (tenant_at h a))\<lparr>
       tn_Awaiting := (case aw of None \<Rightarrow> tn_Awaiting (tenant_val h (tenant_at h a)) | Some x \<Rightarrow> elems (slice_val string_cells h x)),
       tn_AssignedNodes := (case as of None \<Rightarrow> tn_AssignedNodes (tenant_val h (tenant_at h a)) | Some x \<Rightarrow> elems (slice_val node_cells h x))\<rparr>"
  shows "refines h (send_status ac kb a aw as w h) (case kb_UpdateStatus kb u w of (Some e, w2) \<Rightarrow> (Some (UpdateErr e), w2) | (None, w2) \<Rightarrow> (None, w2))"
proof -
  obtain m h1 where c: "copy_with ac a aw as h = (m, h1)" by (metis surj_pair)
  note v = copy_with_val [OF assms(1-4) c]
  show ?thesis using v(1,4) assms(5) c by (auto simp: send_status_def refines_def split: prod.splits option.splits)
qed

lemma recompute_refines:
  assumes "tenant_ok h t" "recompute_mem t stores h = (aw, as, changed, h')"
  shows "prefix h h'" "slice_ok string_cells h' aw" "slice_ok node_cells h' as"
    "recomputeAwaitingAndAssignedForZones (tenant_val h t) (stores_val h stores) =
       (elems (slice_val string_cells h' aw), elems (slice_val node_cells h' as), changed)"
proof -
  obtain s1 h1 where n: "new_slice string_cells (next_awaiting t stores h) h = (s1, h1)" by (metis surj_pair)
  note nv = sc.new_slice_val [OF n]
  have "(s1, next_assigned t h, awaiting_of h1 t \<noteq> elems (slice_val string_cells h1 s1) \<or>
      \<not> equalNodeInfos (assigned_of h1 t) (elems (slice_val node_cells h1 (next_assigned t h))), h1) = (aw, as, changed, h')"
    using assms(2) unfolding recompute_mem_def n by (simp only: prod.case Let_def)
  then have m: "aw = s1" "as = next_assigned t h" "h' = h1"
    "changed = (awaiting_of h1 t \<noteq> elems (slice_val string_cells h1 s1) \<or> \<not> equalNodeInfos (assigned_of h1 t) (elems (slice_val node_cells h1 (next_assigned t h))))"
    by blast+
  obtain ids W d where st: "still_awaiting t h = (ids, W, d)" by (metis prod_cases3)
  let ?A = "assigned_of h t" and ?as = "hs_AssignedNodes (ht_Status t)"
  let ?n = "if - d \<ge> int (length ?A) then 0 else nat (int (length ?A) + d)"
  have ok: "slice_ok node_cells h ?as" using assms(1) by (simp add: tenant_ok_def status_ok_def)
  have p1: "prefix h h1" using nv by blast
  have "tenant_val h1 t = tenant_val h t" using tenant_grows [OF assms(1) p1] by blast
  then have same: "assigned_of h1 t = ?A" "awaiting_of h1 t = awaiting_of h t"
    by (simp_all add: tenant_val_def assigned_of_def awaiting_of_def)
  have ok1: "slice_ok node_cells h1 ?as" "elems (slice_val node_cells h1 ?as) = ?A"
    using deep_copy.grows [OF nc.slice_copy ok p1] by (auto simp: assigned_of_def)
  have na: "as = (if d < 0 then reslice ?n ?as else ?as)" by (simp add: m(2) next_assigned_def st Let_def)
  have val: "elems (slice_val node_cells h1 as) = (if d < 0 then take ?n ?A else ?A)" "slice_ok node_cells h1 as"
    using nc.reslice_val [OF ok1(1), of ?n] ok1 by (auto simp: na)
  show "prefix h h'" "slice_ok string_cells h' aw" "slice_ok node_cells h' as" using nv val(2) by (simp_all add: m(1,3))
  have wv: "elems (slice_val string_cells h1 s1) = next_awaiting t stores h" using nv by (simp add: elems_def)
  have tn: "tn_Zones (tenant_val h t) = ts_Zones (ht_Spec t)" "tn_AssignedNodes (tenant_val h t) = ?A" "tn_Awaiting (tenant_val h t) = awaiting_of h t"
    by (simp_all add: tenant_val_def assigned_of_def awaiting_of_def)
  have parts: "ids = filter (\<lambda>x. x \<noteq> []) (map ni_Name ?A)" "W = filter (\<lambda>i. i \<notin> set ids) (awaiting_of h t)"
    "d = max (ts_Zones (ht_Spec t)) 0 - int (length ?A + length W)" using st by (auto simp: still_awaiting_def Let_def)
  show "recomputeAwaitingAndAssignedForZones (tenant_val h t) (stores_val h stores) =
       (elems (slice_val string_cells h' aw), elems (slice_val node_cells h' as), changed)"
    unfolding recomputeAwaitingAndAssignedForZones_def Let_def tn parts(1) [symmetric] parts(2) [symmetric] parts(3) [symmetric]
      m(1,3,4) m(2) [symmetric] val(1) same wv next_awaiting_def st prod.case
    by simp
qed

lemma select_refines:
  assumes "cached kb ca h" "tenant_val h t = u"
  shows "case selectInitialAwaitingNodes_mem ca t w h of
      Inl e \<Rightarrow> selectInitialAwaitingNodes kb u w = Inl e
    | Inr (seed, h') \<Rightarrow> selectInitialAwaitingNodes kb u w = Inr (elems (slice_val string_cells h' seed)) \<and> prefix h h' \<and> slice_ok string_cells h' seed"
proof -
  have z: "tn_Zones u = ts_Zones (ht_Spec t)" using assms(2) by (auto simp: tenant_val_def)
  have l: "kb_ListNodeStores kb w = map_sum id (stores_val h) (ca_NodeStores ca w)" using assms(1) by (simp add: cached_def)
  show ?thesis
    by (auto simp: selectInitialAwaitingNodes_mem_def selectInitialAwaitingNodes_def z l stores_val_def elems_def slice_ok_def slice_val_def
        split: sum.splits dest!: sc.new_slice_val)
qed

text \<open>The four functions refine their value versions.\<close>

lemma cached_tenant:
  assumes "cached kb ca h" "ca_Tenant ca ns n w = Inr a"
  shows "kb_GetTenant kb ns n w = Inr (tenant_val h (tenant_at h a))" "a < length h" "tenant_ok h (tenant_at h a)"
  using assms by (simp_all add: cached_def)

lemma tenant_later:
  assumes "a < length h" "tenant_ok h (tenant_at h a)" "prefix h h'"
  shows "a < length h'" "tenant_at h' a = tenant_at h a" "tenant_ok h' (tenant_at h a)" "tenant_val h' (tenant_at h a) = tenant_val h (tenant_at h a)"
    "tn_Awaiting (tenant_val h (tenant_at h a)) = awaiting_of h' (tenant_at h a)" "tn_AssignedNodes (tenant_val h (tenant_at h a)) = assigned_of h' (tenant_at h a)"
proof -
  show t: "tenant_ok h' (tenant_at h a)" "tenant_val h' (tenant_at h a) = tenant_val h (tenant_at h a)" using tenant_grows [OF assms(2,3)] by blast+
  show "a < length h'" "tenant_at h' a = tenant_at h a" using assms(1) prefix_length_le [OF assms(3)] deref_grows [OF assms(3,1)] by simp_all
  show "tn_Awaiting (tenant_val h (tenant_at h a)) = awaiting_of h' (tenant_at h a)" "tn_AssignedNodes (tenant_val h (tenant_at h a)) = assigned_of h' (tenant_at h a)"
    unfolding t(2) [symmetric] by (simp_all add: tenant_val_def awaiting_of_def assigned_of_def)
qed

lemma add_rest_refines:
  assumes "cached kb ca h" "a < length h" "tenant_ok h (tenant_at h a)"
  shows "refines h
      (case selectInitialAwaitingNodes_mem ca (tenant_at h a) w h of
         Inl e \<Rightarrow> (Some e, w, h)
       | Inr (seed, h2) \<Rightarrow> if elems (slice_val string_cells h2 seed) = [] then (None, w, h2) else send_status ac kb a (Some seed) None w h2)
      (case selectInitialAwaitingNodes kb (tenant_val h (tenant_at h a)) w of
         Inl e \<Rightarrow> (Some e, w)
       | Inr seed \<Rightarrow> if seed = [] then (None, w)
           else (case kb_UpdateStatus kb ((tenant_val h (tenant_at h a))\<lparr>tn_Awaiting := seed\<rparr>) w of
                   (Some e, w2) \<Rightarrow> (Some (UpdateErr e), w2) | (None, w2) \<Rightarrow> (None, w2)))"
proof (cases "selectInitialAwaitingNodes_mem ca (tenant_at h a) w h")
  case (Inl e)
  then show ?thesis using select_refines [OF assms(1) refl, of "tenant_at h a" w] by (simp add: refines_def)
next
  case (Inr sh)
  obtain seed h2 where sh: "sh = (seed, h2)" by (metis surj_pair)
  then have s2: "selectInitialAwaitingNodes kb (tenant_val h (tenant_at h a)) w = Inr (elems (slice_val string_cells h2 seed))" "prefix h h2" "slice_ok string_cells h2 seed"
    using select_refines [OF assms(1) refl, of "tenant_at h a" w] Inr by simp_all
  note t2 = tenant_later [OF assms(2,3) s2(2)]
  have "refines h2 (send_status ac kb a (Some seed) None w h2)
      (case kb_UpdateStatus kb ((tenant_val h (tenant_at h a))\<lparr>tn_Awaiting := elems (slice_val string_cells h2 seed)\<rparr>) w of
         (Some e, w2) \<Rightarrow> (Some (UpdateErr e), w2) | (None, w2) \<Rightarrow> (None, w2))"
    using t2 s2(3) by (intro send_refines) simp_all
  from refines_grows [OF this s2(2)] show ?thesis using s2(1,2) by (simp add: Inr sh refines_def [of _ "(None, w, h2)"])
qed

text \<open>The four functions refine their versions on values.\<close>

lemma add_refines:
  assumes "cached kb ca h"
  shows "refines h (reconcileTenantAdd_mem ac kb ca ref w h) (reconcileTenantAdd kb ref w)"
proof (cases "ca_Tenant ca (rr_Namespace ref) (rr_Name ref) w")
  case (Inl e)
  then show ?thesis using assms by (simp add: reconcileTenantAdd_mem_def reconcileTenantAdd_def refines_def cached_def)
next
  case (Inr a)
  note a = cached_tenant [OF assms Inr]
  obtain e w1 h1 where f: "ensureTenantFinalizer_mem kb (tenant_at h a) w h = (e, w1, h1)" by (metis prod_cases3)
  have f': "ensureTenantFinalizer kb (tenant_val h (tenant_at h a)) w = (e, w1)" and p: "prefix h h1"
    using finalizer_refines [OF a(3), of kb w] by (simp_all add: f refines_def)
  note t1 = tenant_later [OF a(2,3) p]
  have "tenant_ok h1 (tenant_at h1 a)" using t1(2,3) by simp
  from refines_grows [OF add_rest_refines [OF cached_grows [OF assms p] t1(1) this, of w1] p, unfolded t1(2) t1(4)]
  show ?thesis using p
    by (cases e) (simp_all add: reconcileTenantAdd_mem_def reconcileTenantAdd_def Inr a(1) f f' t1 refines_def [of _ "(_, _, h1)"] Let_def)
qed

lemma update_refines:
  assumes "cached kb ca h"
  shows "refines h (reconcileTenantUpdate_mem ac kb ca ref w h) (reconcileTenantUpdate kb ref w)"
proof (cases "ca_Tenant ca (rr_Namespace ref) (rr_Name ref) w")
  case (Inl e)
  then show ?thesis using assms by (simp add: reconcileTenantUpdate_mem_def reconcileTenantUpdate_def refines_def cached_def)
next
  case (Inr a)
  note a = cached_tenant [OF assms Inr]
  obtain e w1 h1 where f: "ensureTenantFinalizer_mem kb (tenant_at h a) w h = (e, w1, h1)" by (metis prod_cases3)
  have f': "ensureTenantFinalizer kb (tenant_val h (tenant_at h a)) w = (e, w1)" and p: "prefix h h1"
    using finalizer_refines [OF a(3), of kb w] by (simp_all add: f refines_def)
  note t1 = tenant_later [OF a(2,3) p]
  have l: "kb_ListNodeStores kb w1 = map_sum id (stores_val h1) (ca_NodeStores ca w1)" using cached_grows [OF assms p] by (simp add: cached_def)
  show ?thesis
  proof (cases "e = None \<and> (\<exists>stores. ca_NodeStores ca w1 = Inr stores)")
    case False
    then show ?thesis using p l
      by (cases e; cases "ca_NodeStores ca w1") (simp_all add: reconcileTenantUpdate_mem_def reconcileTenantUpdate_def Inr a(1) f f' refines_def)
  next
    case True
    then obtain stores where st: "e = None" "ca_NodeStores ca w1 = Inr stores" by blast
    obtain aw as ch h2 where r: "recompute_mem (tenant_at h a) stores h1 = (aw, as, ch, h2)" by (metis prod_cases4)
    note rv = recompute_refines [OF t1(3) r]
    have p2: "prefix h h2" using p rv(1) by auto
    note t2 = tenant_later [OF a(2,3) p2]
    have "refines h2 (send_status ac kb a (Some aw) (Some as) w1 h2)
        (case kb_UpdateStatus kb ((tenant_val h (tenant_at h a))\<lparr>tn_Awaiting := elems (slice_val string_cells h2 aw), tn_AssignedNodes := elems (slice_val node_cells h2 as)\<rparr>) w1 of
           (Some e, w2) \<Rightarrow> (Some (UpdateErr e), w2) | (None, w2) \<Rightarrow> (None, w2))"
      using t2 rv(2,3) by (intro send_refines) simp_all
    from refines_grows [OF this p2] show ?thesis using p2 rv(4)
      by (simp add: reconcileTenantUpdate_mem_def reconcileTenantUpdate_def Inr a(1) f f' st l t1 r refines_def [of _ "(None, w1, h2)"])
  qed
qed

lemma delete_refines:
  assumes "cached kb ca h"
  shows "refines h (reconcileNodestoreDelete_mem ac kb ca ref w h) (reconcileNodestoreDelete kb ref w)"
proof (cases "ca_Tenant ca (rr_Namespace ref) (rr_Name ref) w")
  case (Inl e)
  then show ?thesis using assms by (simp add: reconcileNodestoreDelete_mem_def reconcileNodestoreDelete_def refines_def cached_def)
next
  case (Inr a)
  note a = cached_tenant [OF assms Inr]
  let ?xs = "filter (\<lambda>ni. ni_Name ni \<noteq> rr_Name ref) (assigned_of h (tenant_at h a))"
  obtain s1 h1 where n: "new_slice node_cells ?xs h = (s1, h1)" by (metis surj_pair)
  then have nv: "prefix h h1" "slice_ok node_cells h1 s1" "slice_val node_cells h1 s1 = Some ?xs" using nc.new_slice_val by blast+
  note t1 = tenant_later [OF a(2,3) nv(1)]
  have t0: "tn_AssignedNodes (tenant_val h (tenant_at h a)) = assigned_of h (tenant_at h a)" by (simp add: tenant_val_def assigned_of_def)
  have "refines h1 (send_status ac kb a None (Some s1) w h1)
      (case kb_UpdateStatus kb ((tenant_val h (tenant_at h a))\<lparr>tn_AssignedNodes := ?xs\<rparr>) w of
         (Some e, w2) \<Rightarrow> (Some (UpdateErr e), w2) | (None, w2) \<Rightarrow> (None, w2))"
    using t1 nv(2,3) by (intro send_refines) (simp_all add: elems_def)
  note r = refines_grows [OF this nv(1)]
  have "assigned_of h1 (tenant_at h a) = assigned_of h (tenant_at h a)" using t1(6) t0 by simp
  then show ?thesis using nv t1(2) t0 r
    by (simp add: reconcileNodestoreDelete_mem_def reconcileNodestoreDelete_def Inr a(1) n refines_def [of _ "(None, w, h1)"] Let_def elems_def)
qed

lemma index_stores: "cached kb ca h \<Longrightarrow> nodeStoresForTenant kb n w = map_sum id (stores_val h) (ca_ByIndex ca n w)"
  by (cases "ca_ByIndex ca n w") (simp_all add: cached_def nodeStoresForTenant_def List.map_filter_def comp_def)

lemma nodestore_update_tail:
  assumes c: "cached kb ca h" and a: "a < length h" "tenant_ok h (tenant_at h a)" and n: "prefix h h1" "slice_ok node_cells h1 s1"
    and all: "ca_NodeStores ca w = Inr stores" and u: "u = tenant_val h (tenant_at h a)"
  shows "refines h
    (case copy_with ac a None (Some s1) h1 of (temp, h2) \<Rightarrow>
     case recompute_mem (tenant_at h2 temp) stores h2 of (newAwaiting, newAssignedFinal, changed, h3) \<Rightarrow>
       if \<not> changed \<and> awaiting_of h3 (tenant_at h a) = elems (slice_val string_cells h3 newAwaiting) \<and>
          equalNodeInfosByValue (assigned_of h3 (tenant_at h a)) (elems (slice_val node_cells h3 newAssignedFinal))
       then (None, w, h3)
       else (case send_status ac kb a (Some newAwaiting) (Some newAssignedFinal) w h3 of
               (Some e, w1, h4) \<Rightarrow> (Some e, w1, h4)
             | (None, w1, h4) \<Rightarrow>
                 let k = length (elems (slice_val node_cells h4 newAssignedFinal)) in
                 if int (length stores) \<ge> ts_Zones (ht_Spec (tenant_at h a)) \<and> int k \<noteq> ts_Zones (ht_Spec (tenant_at h a))
                 then (Some (AwaitingZones (ts_Zones (ht_Spec (tenant_at h a))) k (length stores)), w1, h4)
                 else (None, w1, h4)))
    (case recomputeAwaitingAndAssignedForZones (u\<lparr>tn_AssignedNodes := elems (slice_val node_cells h1 s1)\<rparr>) (stores_val h stores) of
       (newAwaiting, newAssigned, changed) \<Rightarrow>
         if \<not> changed \<and> tn_Awaiting u = newAwaiting \<and> equalNodeInfosByValue (tn_AssignedNodes u) newAssigned then (None, w)
         else (case kb_UpdateStatus kb (u\<lparr>tn_Awaiting := newAwaiting, tn_AssignedNodes := newAssigned\<rparr>) w of
                 (Some e, w1) \<Rightarrow> (Some (UpdateErr e), w1)
               | (None, w1) \<Rightarrow>
                   if int (length (stores_val h stores)) \<ge> tn_Zones u \<and> int (length newAssigned) \<noteq> tn_Zones u
                   then (Some (AwaitingZones (tn_Zones u) (length newAssigned) (length (stores_val h stores))), w1)
                   else (None, w1)))"
proof -
  obtain temp h2 where t: "copy_with ac a None (Some s1) h1 = (temp, h2)" by (metis surj_pair)
  note t1 = tenant_later [OF a n(1)]
  have ok1: "tenant_ok h1 (tenant_at h1 a)" "\<forall>x\<in>set_option None. slice_ok string_cells h1 x" "\<forall>x\<in>set_option (Some s1). slice_ok node_cells h1 x"
    using t1(2,3) n(2) by simp_all
  note cv = copy_with_val [OF t1(1) ok1 t]
  have tv: "tenant_val h2 (tenant_at h2 temp) = u\<lparr>tn_AssignedNodes := elems (slice_val node_cells h1 s1)\<rparr>" using cv(4) t1(2,4) u by simp
  obtain aw as ch h3 where r: "recompute_mem (tenant_at h2 temp) stores h2 = (aw, as, ch, h3)" by (metis prod_cases4)
  note rv = recompute_refines [OF cv(3) r]
  have "prefix h h2" using n(1) cv(1) by auto
  moreover have "stores_ok h stores" using c all by (auto simp: cached_def)
  ultimately have sv: "stores_val h2 stores = stores_val h stores" using stores_grow by blast
  have p3: "prefix h h3" using n(1) cv(1) rv(1) by auto
  note t3 = tenant_later [OF a p3]
  obtain x w1 h4 where s: "send_status ac kb a (Some aw) (Some as) w h3 = (x, w1, h4)" by (metis prod_cases3)
  have "refines h3 (send_status ac kb a (Some aw) (Some as) w h3)
      (case kb_UpdateStatus kb (u\<lparr>tn_Awaiting := elems (slice_val string_cells h3 aw), tn_AssignedNodes := elems (slice_val node_cells h3 as)\<rparr>) w of
         (Some e, w2) \<Rightarrow> (Some (UpdateErr e), w2) | (None, w2) \<Rightarrow> (None, w2))"
    using t3 rv(2,3) u by (intro send_refines) simp_all
  then have up: "prefix h3 h4" "(case kb_UpdateStatus kb (u\<lparr>tn_Awaiting := elems (slice_val string_cells h3 aw), tn_AssignedNodes := elems (slice_val node_cells h3 as)\<rparr>) w of
         (Some e, w2) \<Rightarrow> (Some (UpdateErr e), w2) | (None, w2) \<Rightarrow> (None, w2)) = (x, w1)" by (simp_all add: s refines_def)
  have p4: "prefix h h4" using p3 up(1) by auto
  have k: "slice_val node_cells h4 as = slice_val node_cells h3 as" using deep_copy.grows [OF nc.slice_copy rv(3) up(1)] by blast
  have z: "tn_Zones u = ts_Zones (ht_Spec (tenant_at h a))" "length (stores_val h stores) = length stores" by (simp_all add: u tenant_val_def stores_val_def)
  note rec = rv(4) [unfolded tv sv]
  show ?thesis
  proof (cases "\<not> ch \<and> awaiting_of h3 (tenant_at h a) = elems (slice_val string_cells h3 aw) \<and>
      equalNodeInfosByValue (assigned_of h3 (tenant_at h a)) (elems (slice_val node_cells h3 as))")
    case True
    then show ?thesis using t3(5,6) p3 unfolding t rec prod.case r by (simp add: refines_def u)
  next
    case False
    then have F: "\<not> (\<not> ch \<and> tn_Awaiting u = elems (slice_val string_cells h3 aw) \<and> equalNodeInfosByValue (tn_AssignedNodes u) (elems (slice_val node_cells h3 as)))"
      using t3(5,6) u by simp
    show ?thesis using up(2) p4 unfolding t rec prod.case r if_not_P [OF False] if_not_P [OF F] s z k Let_def
      by (auto simp: refines_def split: option.splits prod.splits if_splits)
  qed
qed

lemma nodestore_update_refines:
  assumes "cached kb ca h"
  shows "refines h (reconcileNodestoreUpdate_mem ac kb ca ref w h) (reconcileNodestoreUpdate kb ref w)"
proof (cases "ca_Tenant ca (rr_Namespace ref) (rr_Name ref) w")
  case (Inl e)
  then show ?thesis using assms by (simp add: reconcileNodestoreUpdate_mem_def reconcileNodestoreUpdate_def refines_def cached_def)
next
  case (Inr a)
  note a = cached_tenant [OF assms Inr]
  let ?t = "tenant_at h a"
  let ?n = "hm_Name (ht_Meta ?t)" and ?u = "tenant_val h ?t"
  have nm: "om_Name (tn_Meta ?u) = ?n" "tn_Zones ?u = ts_Zones (ht_Spec ?t)" by (simp_all add: tenant_val_def meta_val_def)
  note ix = index_stores [OF assms, of ?n w]
  show ?thesis
  proof (cases "ca_ByIndex ca ?n w")
    case (Inl e)
    then show ?thesis using ix by (simp add: reconcileNodestoreUpdate_mem_def reconcileNodestoreUpdate_def Inr a(1) nm refines_def Let_def)
  next
    case nds: (Inr nds)
    let ?xs = "assigned_from ?n (stores_val h nds)"
    obtain s1 h1 where n: "new_slice node_cells ?xs h = (s1, h1)" by (metis surj_pair)
    then have nv: "prefix h h1" "slice_ok node_cells h1 s1" "slice_val node_cells h1 s1 = Some ?xs" using nc.new_slice_val by blast+
    have l: "kb_ListNodeStores kb w = map_sum id (stores_val h) (ca_NodeStores ca w)" using assms by (simp add: cached_def)
    show ?thesis
    proof (cases "ca_NodeStores ca w")
      case (Inl e)
      then show ?thesis using ix l nv(1) nds
        by (simp add: reconcileNodestoreUpdate_mem_def reconcileNodestoreUpdate_def Inr a(1) nm n refines_def Let_def)
    next
      case all: (Inr stores)
      note tail = nodestore_update_tail [OF assms a(2,3) nv(1,2) all refl, unfolded nv(3)]
      show ?thesis using tail ix l nds all
        by (simp add: reconcileNodestoreUpdate_mem_def reconcileNodestoreUpdate_def Inr a(1) nm n Let_def elems_def)
    qed
  qed
qed

end

subsection \<open>The guarantees\<close>

text \<open>Apimachinery in memory.\<close>

definition mem_meta :: "h_meta \<Rightarrow> heap \<Rightarrow> h_meta \<times> heap" where
  "mem_meta m h =
     (case copy_map label_cells copy_plain (hm_Labels m) h of (l, h1) \<Rightarrow>
      case copy_map label_cells copy_plain (hm_Annotations m) h1 of (a, h2) \<Rightarrow>
      case copy_slice string_cells (hm_Finalizers m) h2 of (f, h3) \<Rightarrow> (m\<lparr>hm_Labels := l, hm_Annotations := a, hm_Finalizers := f\<rparr>, h3))"

definition mem_copies :: api_copies where
  "mem_copies = \<lparr>ac_ObjectMeta = mem_meta, ac_ListMeta = copy_plain, ac_Condition = copy_plain\<rparr>"

lemma mem_meta_copy: "deep_copy mem_meta meta_view meta_reach meta_ok"
  by (rule deep_copy_cong [OF field_copy [where sel = "\<lambda>m. (hm_Labels m, hm_Annotations m, hm_Finalizers m)"
        and upd = "\<lambda>m (l, a, f). m\<lparr>hm_Labels := l, hm_Annotations := a, hm_Finalizers := f\<rparr>"
        and rest = "\<lambda>m. m\<lparr>hm_Labels := None, hm_Annotations := None, hm_Finalizers := None\<rparr>" and mk = Pair,
        OF pair_copy [OF label_map_copy pair_copy [OF label_map_copy sc.slice_copy]]]])
    (auto simp: mem_meta_def copy_field_def copy_pair_def meta_view_def meta_reach_def meta_ok_def split: prod.splits)

interpretation mc: apimachinery mem_copies
  by (rule apimachinery.intro) (simp_all add: mem_copies_def mem_meta_copy plain_copy)

text \<open>What a copy through a pointer promises: a new object, with the same view, that shares nothing with the old one.\<close>

definition independent_copy :: "'a cell_kind \<Rightarrow> (heap \<Rightarrow> 'a \<Rightarrow> 'v) \<Rightarrow> (heap \<Rightarrow> 'a \<Rightarrow> nat set) \<Rightarrow> heap \<Rightarrow> nat \<Rightarrow> nat option \<times> heap \<Rightarrow> bool" where
  "independent_copy ck view reach h a r \<longleftrightarrow>
     (case r of
        (None, h') \<Rightarrow> False
      | (Some b, h') \<Rightarrow>
          prefix h h' \<and> length h \<le> b \<and> view h' (deref ck h' b) = view h (deref ck h a) \<and>
          (\<forall>h''. length h'' = length h' \<longrightarrow> (\<forall>c. c \<notin> insert b (reach h' (deref ck h' b)) \<longrightarrow> h'' ! c = h' ! c) \<longrightarrow>
             view h'' (deref ck h'' a) = view h (deref ck h a)) \<and>
          (\<forall>h''. length h'' = length h' \<longrightarrow> (\<forall>c. c \<notin> insert a (reach h (deref ck h a)) \<longrightarrow> h'' ! c = h' ! c) \<longrightarrow>
             view h'' (deref ck h'' b) = view h (deref ck h a)))"

lemma pointer_copy:
  assumes ck: "cells ck" and dc: "deep_copy cp view reach ok" and a: "a < length h" "ok h (deref ck h a)"
  shows "independent_copy ck view reach h a (DeepCopy ck zero cp (Some a) h)"
proof -
  note oc = cells.object_copy [OF ck dc, of zero]
  obtain b h' where r: "DeepCopy ck zero cp (Some a) h = (Some b, h')" by (cases "cp (deref ck h a) (h @ [ck_put ck [zero]])") (simp add: DeepCopy_def)
  have ok: "\<forall>a\<in>set_option (Some a). a < length h \<and> ok h (deref ck h a)" using a by simp
  note c = deep_copy.copies [OF oc ok r] and i = deep_copy.independent [OF oc ok r]
  show ?thesis using c i unfolding r independent_copy_def by auto
qed

lemma part_copies:
  assumes "a < length h"
  shows "independent_copy node_cells (\<lambda>h x. x) (\<lambda>h x. {}) h a (NodeInfo_DeepCopy (Some a) h)"
    "independent_copy pod_cells (\<lambda>h x. x) (\<lambda>h x. {}) h a (Pod_Info_DeepCopy (Some a) h)"
    "independent_copy spec_cells (\<lambda>h x. x) (\<lambda>h x. {}) h a (TenantSpec_DeepCopy (Some a) h)"
    "infra_ok h (deref infra_object_cells h a) \<Longrightarrow> independent_copy infra_object_cells infra_view infra_reach h a (TenantInfra_DeepCopy (Some a) h)"
    "apimachinery ac \<Longrightarrow> status_ok h (deref status_cells h a) \<Longrightarrow> independent_copy status_cells status_view status_reach h a (TenantStatus_DeepCopy ac (Some a) h)"
  using pointer_copy [OF nc.cells_axioms node_info.deep_copy_axioms assms] pointer_copy [OF pc.cells_axioms pod_info.deep_copy_axioms assms]
    pointer_copy [OF xc.cells_axioms tenant_spec.deep_copy_axioms assms] pointer_copy [OF oc.cells_axioms infra.deep_copy_axioms assms]
    pointer_copy [OF uc.cells_axioms apimachinery.status_copy assms]
  by (simp_all add: NodeInfo_DeepCopy_def Pod_Info_DeepCopy_def TenantSpec_DeepCopy_def TenantInfra_DeepCopy_def TenantStatus_DeepCopy_def)

text \<open>
  C37. The generated copies of tenants, node stores and their lists are deep: the copy is a new object that reads the same, with nil and empty told apart, the memory that
  was there is not touched, and whatever is written later to what the copy reaches leaves the original as it was, and the other way round.
\<close>

theorem deep_copies_independent:
  assumes "apimachinery ac" "a < length h"
  shows "(tenant_ok h (deref tenant_cells h a) \<longrightarrow> independent_copy tenant_cells tenant_view tenant_reach h a (Tenant_DeepCopy ac (Some a) h)) \<and>
    (nodestore_ok h (deref nodestore_cells h a) \<longrightarrow>
       independent_copy nodestore_cells nodestore_view nodestore_reach h a (NodeStore_DeepCopy ac (Some a) h)) \<and>
    (tenant_list_ok h (deref tenant_list_cells h a) \<longrightarrow>
       independent_copy tenant_list_cells tenant_list_view tenant_list_reach h a (TenantList_DeepCopy ac (Some a) h)) \<and>
    (nodestore_list_ok h (deref nodestore_list_cells h a) \<longrightarrow>
       independent_copy nodestore_list_cells nodestore_list_view nodestore_list_reach h a (NodeStoreList_DeepCopy ac (Some a) h))"
  using pointer_copy [OF tc.cells_axioms apimachinery.tenant_copy [OF assms(1)] assms(2)]
    pointer_copy [OF dc.cells_axioms apimachinery.nodestore_copy [OF assms(1)] assms(2)]
    pointer_copy [OF tl.cells_axioms apimachinery.tenant_list_copy [OF assms(1)] assms(2)]
    pointer_copy [OF nl.cells_axioms apimachinery.nodestore_list_copy [OF assms(1)] assms(2)]
  by (simp add: Tenant_DeepCopy_def NodeStore_DeepCopy_def TenantList_DeepCopy_def NodeStoreList_DeepCopy_def)

text \<open>
  C13. The reconcile functions of the orchestrator never write to the cache of the informers, although they share slices with the objects in it:
  the memory that was there stays as it was, and what they send to the API server and return is what the functions on
  values send and return.
\<close>

theorem informer_cache_never_written:
  assumes "apimachinery ac" "cached kb ca h"
  shows "refines h (reconcileTenantAdd_mem ac kb ca ref w h) (reconcileTenantAdd kb ref w) \<and>
    refines h (reconcileTenantUpdate_mem ac kb ca ref w h) (reconcileTenantUpdate kb ref w) \<and>
    refines h (reconcileNodestoreDelete_mem ac kb ca ref w h) (reconcileNodestoreDelete kb ref w) \<and>
    refines h (reconcileNodestoreUpdate_mem ac kb ca ref w h) (reconcileNodestoreUpdate kb ref w)"
  using apimachinery.add_refines [OF assms] apimachinery.update_refines [OF assms] apimachinery.delete_refines [OF assms]
    apimachinery.nodestore_update_refines [OF assms] by blast

text \<open>A tenant on one node that asks for two, and the stores of two nodes.\<close>

definition demo_heap :: heap where
  "demo_heap =
     [NodeInfos [\<lparr>ni_Name = ''n1'', ni_NodeIP = ''10.0.0.1'', ni_TenantCIDR = [], ni_VtepIP = [], ni_VtepMAC = []\<rparr>],
      Strings [tenantFinalizer],
      Tenants [zero_tenant\<lparr>ht_Meta := zero_meta\<lparr>hm_Name := ''t'', hm_Finalizers := Some \<lparr>sl_arr = 1, sl_off = 0, sl_len = 1\<rparr>\<rparr>,
        ht_Spec := \<lparr>ts_Name = ''t'', ts_Zones = 2\<rparr>,
        ht_Status := (ht_Status zero_tenant)\<lparr>hs_AssignedNodes := Some \<lparr>sl_arr = 0, sl_off = 0, sl_len = 1\<rparr>\<rparr>\<rparr>],
      Pods [\<lparr>pi_Name = ''p'', pi_IP = ''10.244.0.2''\<rparr>],
      Infras [(''t'', zero_infra\<lparr>hi_Name := ''t'', hi_Pods := Some \<lparr>sl_arr = 3, sl_off = 0, sl_len = 1\<rparr>\<rparr>)],
      NodeStores [zero_nodestore\<lparr>ho_Spec := \<lparr>hn_Name = ''n1'', hn_NodeIP = ''10.0.0.1'', hn_Selectors = None\<rparr>, ho_Status := \<lparr>hu_Tenants = Some 4\<rparr>\<rparr>],
      NodeStores [zero_nodestore\<lparr>ho_Spec := \<lparr>hn_Name = ''n2'', hn_NodeIP = ''10.0.0.2'', hn_Selectors = None\<rparr>\<rparr>]]"

definition demo_cache :: "Tenant list cache" where
  "demo_cache = \<lparr>ca_Tenant = (\<lambda>ns n w. if n = ''t'' then Inr 2 else Inl []), ca_NodeStores = (\<lambda>w. Inr [5, 6]), ca_ByIndex = (\<lambda>n w. Inr [5])\<rparr>"

definition demo_kube :: "Tenant list kube" where
  "demo_kube = \<lparr>kb_GetTenant = (\<lambda>ns n w. map_sum id (tenant_val demo_heap \<circ> tenant_at demo_heap) (ca_Tenant demo_cache ns n w)),
     kb_ListTenants = (\<lambda>w. Inr []), kb_ListNodeStores = (\<lambda>w. map_sum id (stores_val demo_heap) (ca_NodeStores demo_cache w)),
     kb_ByIndex = (\<lambda>f n w. map_sum id (map ObjNodeStore \<circ> stores_val demo_heap) (ca_ByIndex demo_cache n w)),
     kb_Patch = (\<lambda>ns n fs w. (None, w)), kb_UpdateStatus = (\<lambda>t w. (None, w @ [t]))\<rparr>"

lemmas demo_ok = demo_heap_def deref_def cell_at_def tenant_cells_def nodestore_cells_def tenant_ok_def nodestore_ok_def meta_ok_def status_ok_def infra_ok_def
  map_ok_def slice_ok_def map_val_def elems_def infra_cells_def pod_cells_def string_cells_def node_cells_def zero_tenant_def zero_nodestore_def zero_meta_def

lemma demo_objects: "tenant_ok demo_heap (deref tenant_cells demo_heap 2)" "nodestore_ok demo_heap (deref nodestore_cells demo_heap 5)"
  "nodestore_ok demo_heap (deref nodestore_cells demo_heap 6)" "length demo_heap = 7"
  by (simp_all add: demo_ok)

lemma demo_cached: "cached demo_kube demo_cache demo_heap"
  using demo_objects by (auto simp: cached_def demo_kube_def demo_cache_def stores_ok_def)

theorem deep_copies_independent_witness:
  "independent_copy tenant_cells tenant_view tenant_reach demo_heap 2 (Tenant_DeepCopy mem_copies (Some 2) demo_heap) \<and>
   independent_copy nodestore_cells nodestore_view nodestore_reach demo_heap 5 (NodeStore_DeepCopy mem_copies (Some 5) demo_heap)"
proof -
  have "(2::nat) < length demo_heap" "5 < length demo_heap" using demo_objects(4) by simp_all
  then show ?thesis
    using deep_copies_independent [OF mc.apimachinery_axioms, of 2 demo_heap] deep_copies_independent [OF mc.apimachinery_axioms, of 5 demo_heap]
      demo_objects(1,2) by blast
qed

definition demo_ref :: ResourceRef where "demo_ref = tenant_ref [] ''t''"

theorem informer_cache_never_written_witness:
  "\<exists>w' h'. reconcileTenantUpdate_mem mem_copies demo_kube demo_cache demo_ref [] demo_heap = (None, w', h') \<and> prefix demo_heap h' \<and>
     (None, w') = reconcileTenantUpdate demo_kube demo_ref [] \<and> map tn_Awaiting w' = [[''n2'']]"
proof -
  obtain e w' h' where r: "reconcileTenantUpdate_mem mem_copies demo_kube demo_cache demo_ref [] demo_heap = (e, w', h')" by (metis prod_cases3)
  have v: "prefix demo_heap h'" "reconcileTenantUpdate demo_kube demo_ref [] = (e, w')"
    using informer_cache_never_written [OF mc.apimachinery_axioms demo_cached, of demo_ref "[]"] by (simp_all add: r refines_def)
  have "fst (reconcileTenantUpdate demo_kube demo_ref []) = None \<and> map tn_Awaiting (snd (reconcileTenantUpdate demo_kube demo_ref [])) = [[''n2'']]"
    by code_simp
  then show ?thesis using r v by simp
qed

end
