(* ===== verification/Informers.thy ===== *)
theory Informers
  imports Api_Types
begin

text \<open>
  The shared informers of \<open>pkg/generated/informers/externalversions\<close> with the listers of \<open>pkg/generated/listers\<close>, from which every operator gets its view of
  the cluster. The state of the factory is passed along; an informer of client-go is known by a number, its memory address, and by what it was made with.
  The goroutines that run informers are the list of those started and not ended.
\<close>

subsection \<open>Informers and listers\<close>

record GroupVersionResource =
  gr_Group :: string
  gr_Version :: string
  gr_Resource :: string

definition SchemeGroupVersion :: "string \<times> string" where "SchemeGroupVersion = (''setera.com'', ''v1'')"

definition WithResource :: "string \<Rightarrow> GroupVersionResource" where
  "WithResource r = \<lparr>gr_Group = fst SchemeGroupVersion, gr_Version = snd SchemeGroupVersion, gr_Resource = r\<rparr>"

definition v1_Resource :: "string \<Rightarrow> string \<times> string" where
  "v1_Resource r = (gr_Group (WithResource r), gr_Resource (WithResource r))"

text \<open>
  The calls of the client that an informer makes, by namespace and list options \<open>'o\<close>, with their results \<open>'l\<close>. A nil function to change the options is \<open>None\<close>.
\<close>

record ('o, 'l) setera_client =
  sc_ListTenants :: "string \<Rightarrow> 'o \<Rightarrow> 'l"
  sc_WatchTenants :: "string \<Rightarrow> 'o \<Rightarrow> 'l"
  sc_ListNodeStores :: "string \<Rightarrow> 'o \<Rightarrow> 'l"
  sc_WatchNodeStores :: "string \<Rightarrow> 'o \<Rightarrow> 'l"

record ('o, 'l) ListWatch =
  lw_List :: "'o \<Rightarrow> 'l"
  lw_Watch :: "'o \<Rightarrow> 'l"
  lw_ListWithContext :: "'o \<Rightarrow> 'l"
  lw_WatchWithContext :: "'o \<Rightarrow> 'l"

record ('o, 'l, 't) informer_args =
  ia_lw :: "('o, 'l) ListWatch"
  ia_type :: string
  ia_resync :: int
  ia_indexers :: "string list"
  ia_transform :: "'t option"

definition tweak :: "('o \<Rightarrow> 'o) option \<Rightarrow> 'o \<Rightarrow> 'o" where
  "tweak f opts = (case f of None \<Rightarrow> opts | Some g \<Rightarrow> g opts)"

definition NewFilteredTenantInformer ::
  "('o, 'l) setera_client \<Rightarrow> string \<Rightarrow> int \<Rightarrow> string list \<Rightarrow> ('o \<Rightarrow> 'o) option \<Rightarrow> ('o, 'l, 't) informer_args" where
  "NewFilteredTenantInformer client namespace resyncPeriod indexers tweakListOptions =
     \<lparr>ia_lw = \<lparr>lw_List = (\<lambda>opts. sc_ListTenants client namespace (tweak tweakListOptions opts)),
               lw_Watch = (\<lambda>opts. sc_WatchTenants client namespace (tweak tweakListOptions opts)),
               lw_ListWithContext = (\<lambda>opts. sc_ListTenants client namespace (tweak tweakListOptions opts)),
               lw_WatchWithContext = (\<lambda>opts. sc_WatchTenants client namespace (tweak tweakListOptions opts))\<rparr>,
      ia_type = ''*v1.Tenant'', ia_resync = resyncPeriod, ia_indexers = indexers, ia_transform = None\<rparr>"

definition NewFilteredNodeStoreInformer ::
  "('o, 'l) setera_client \<Rightarrow> string \<Rightarrow> int \<Rightarrow> string list \<Rightarrow> ('o \<Rightarrow> 'o) option \<Rightarrow> ('o, 'l, 't) informer_args" where
  "NewFilteredNodeStoreInformer client namespace resyncPeriod indexers tweakListOptions =
     \<lparr>ia_lw = \<lparr>lw_List = (\<lambda>opts. sc_ListNodeStores client namespace (tweak tweakListOptions opts)),
               lw_Watch = (\<lambda>opts. sc_WatchNodeStores client namespace (tweak tweakListOptions opts)),
               lw_ListWithContext = (\<lambda>opts. sc_ListNodeStores client namespace (tweak tweakListOptions opts)),
               lw_WatchWithContext = (\<lambda>opts. sc_WatchNodeStores client namespace (tweak tweakListOptions opts))\<rparr>,
      ia_type = ''*v1.NodeStore'', ia_resync = resyncPeriod, ia_indexers = indexers, ia_transform = None\<rparr>"

definition NewTenantInformer :: "('o, 'l) setera_client \<Rightarrow> string \<Rightarrow> int \<Rightarrow> string list \<Rightarrow> ('o, 'l, 't) informer_args" where
  "NewTenantInformer client namespace resyncPeriod indexers = NewFilteredTenantInformer client namespace resyncPeriod indexers None"

definition NewNodeStoreInformer :: "('o, 'l) setera_client \<Rightarrow> string \<Rightarrow> int \<Rightarrow> string list \<Rightarrow> ('o, 'l, 't) informer_args" where
  "NewNodeStoreInformer client namespace resyncPeriod indexers = NewFilteredNodeStoreInformer client namespace resyncPeriod indexers None"

subsection \<open>factory.go\<close>

record ('o, 'l, 't) sharedInformerFactory =
  sf_client :: "('o, 'l) setera_client"
  sf_namespace :: string
  sf_tweakListOptions :: "('o \<Rightarrow> 'o) option"
  sf_defaultResync :: int
  sf_customResync :: "string \<rightharpoonup> int"
  sf_transform :: "'t option"
  sf_informers :: "(string \<times> nat \<times> ('o, 'l, 't) informer_args) list"
  sf_started :: "string list"
  sf_runs :: "nat list"
  sf_wg :: "nat list"
  sf_shuttingDown :: bool

type_synonym ('o, 'l, 't) factory_option = "('o, 'l, 't) sharedInformerFactory \<Rightarrow> ('o, 'l, 't) sharedInformerFactory"

definition WithCustomResyncConfig :: "(string \<times> int) list \<Rightarrow> ('o, 'l, 't) factory_option" where
  "WithCustomResyncConfig resyncConfig f = f\<lparr>sf_customResync := sf_customResync f ++ map_of (rev resyncConfig)\<rparr>"

definition WithTweakListOptions :: "('o \<Rightarrow> 'o) option \<Rightarrow> ('o, 'l, 't) factory_option" where
  "WithTweakListOptions g f = f\<lparr>sf_tweakListOptions := g\<rparr>"

definition WithNamespace :: "string \<Rightarrow> ('o, 'l, 't) factory_option" where
  "WithNamespace namespace f = f\<lparr>sf_namespace := namespace\<rparr>"

definition WithTransform :: "'t option \<Rightarrow> ('o, 'l, 't) factory_option" where
  "WithTransform transform f = f\<lparr>sf_transform := transform\<rparr>"

definition NewSharedInformerFactoryWithOptions ::
  "('o, 'l) setera_client \<Rightarrow> int \<Rightarrow> ('o, 'l, 't) factory_option list \<Rightarrow> ('o, 'l, 't) sharedInformerFactory" where
  "NewSharedInformerFactoryWithOptions client defaultResync options =
     fold (\<lambda>opt f. opt f) options
       \<lparr>sf_client = client, sf_namespace = [], sf_tweakListOptions = None, sf_defaultResync = defaultResync, sf_customResync = Map.empty,
        sf_transform = None, sf_informers = [], sf_started = [], sf_runs = [], sf_wg = [], sf_shuttingDown = False\<rparr>"

definition NewSharedInformerFactory :: "('o, 'l) setera_client \<Rightarrow> int \<Rightarrow> ('o, 'l, 't) sharedInformerFactory" where
  "NewSharedInformerFactory client defaultResync = NewSharedInformerFactoryWithOptions client defaultResync []"

definition NewFilteredSharedInformerFactory ::
  "('o, 'l) setera_client \<Rightarrow> int \<Rightarrow> string \<Rightarrow> ('o \<Rightarrow> 'o) option \<Rightarrow> ('o, 'l, 't) sharedInformerFactory" where
  "NewFilteredSharedInformerFactory client defaultResync namespace g =
     NewSharedInformerFactoryWithOptions client defaultResync [WithNamespace namespace, WithTweakListOptions g]"

text \<open>\<open>newFunc\<close> makes a new informer; its address is one that no other has.\<close>

definition InformerFor ::
  "string \<Rightarrow> (('o, 'l) setera_client \<Rightarrow> int \<Rightarrow> ('o, 'l, 't) informer_args) \<Rightarrow> ('o, 'l, 't) sharedInformerFactory \<Rightarrow> nat \<times> ('o, 'l, 't) sharedInformerFactory" where
  "InformerFor informerType newFunc f =
     (case map_of (sf_informers f) informerType of
        Some (i, _) \<Rightarrow> (i, f)
      | None \<Rightarrow>
          let resyncPeriod = (case sf_customResync f informerType of Some d \<Rightarrow> d | None \<Rightarrow> sf_defaultResync f);
              i = length (sf_informers f);
              informer = (newFunc (sf_client f) resyncPeriod)\<lparr>ia_transform := sf_transform f\<rparr>
          in (i, f\<lparr>sf_informers := sf_informers f @ [(informerType, i, informer)]\<rparr>))"

text \<open>\<open>sf_runs\<close> records the calls of \<open>Run\<close>.\<close>

fun start_loop :: "(string \<times> nat \<times> 'i) list \<Rightarrow> ('o, 'l, 't) sharedInformerFactory \<Rightarrow> ('o, 'l, 't) sharedInformerFactory" where
  "start_loop [] f = f"
| "start_loop ((ty, i, _) # es) f =
     start_loop es (if ty \<notin> set (sf_started f)
       then f\<lparr>sf_wg := sf_wg f @ [i], sf_runs := sf_runs f @ [i], sf_started := sf_started f @ [ty]\<rparr> else f)"

definition factory_Start :: "('o, 'l, 't) sharedInformerFactory \<Rightarrow> ('o, 'l, 't) sharedInformerFactory" where
  "factory_Start f = (if sf_shuttingDown f then f else start_loop (sf_informers f) f)"

text \<open>\<open>Shutdown\<close> sets the flag and then returns when no goroutine is left.\<close>

definition factory_Shutdown :: "('o, 'l, 't) sharedInformerFactory \<Rightarrow> ('o, 'l, 't) sharedInformerFactory" where
  "factory_Shutdown f = f\<lparr>sf_shuttingDown := True\<rparr>"

definition Shutdown_returns :: "('o, 'l, 't) sharedInformerFactory \<Rightarrow> bool" where
  "Shutdown_returns f \<longleftrightarrow> sf_wg f = []"

definition factory_WaitForCacheSync :: "(nat \<Rightarrow> bool) \<Rightarrow> ('o, 'l, 't) sharedInformerFactory \<Rightarrow> (string \<times> bool) list" where
  "factory_WaitForCacheSync synced f =
     map (\<lambda>(ty, i, _). (ty, synced i)) (filter (\<lambda>(ty, _). ty \<in> set (sf_started f)) (sf_informers f))"

subsection \<open>The typed informers and listers\<close>

record 'o resource_informers =
  ri_namespace :: string
  ri_tweakListOptions :: "('o \<Rightarrow> 'o) option"

definition v1_New :: "string \<Rightarrow> ('o \<Rightarrow> 'o) option \<Rightarrow> 'o resource_informers" where
  "v1_New namespace tweakListOptions = \<lparr>ri_namespace = namespace, ri_tweakListOptions = tweakListOptions\<rparr>"

definition setera_New :: "string \<Rightarrow> ('o \<Rightarrow> 'o) option \<Rightarrow> 'o resource_informers" where
  "setera_New namespace tweakListOptions = \<lparr>ri_namespace = namespace, ri_tweakListOptions = tweakListOptions\<rparr>"

definition group_V1 :: "'o resource_informers \<Rightarrow> 'o resource_informers" where
  "group_V1 g = v1_New (ri_namespace g) (ri_tweakListOptions g)"

definition factory_Setera :: "('o, 'l, 't) sharedInformerFactory \<Rightarrow> 'o resource_informers" where
  "factory_Setera f = setera_New (sf_namespace f) (sf_tweakListOptions f)"

text \<open>\<open>Tenants()\<close> and \<open>NodeStores()\<close> keep namespace and options.\<close>

definition version_Tenants :: "'o resource_informers \<Rightarrow> 'o resource_informers" where
  "version_Tenants v = \<lparr>ri_namespace = ri_namespace v, ri_tweakListOptions = ri_tweakListOptions v\<rparr>"

definition version_NodeStores :: "'o resource_informers \<Rightarrow> 'o resource_informers" where
  "version_NodeStores v = \<lparr>ri_namespace = ri_namespace v, ri_tweakListOptions = ri_tweakListOptions v\<rparr>"

definition tenant_defaultInformer :: "'o resource_informers \<Rightarrow> ('o, 'l) setera_client \<Rightarrow> int \<Rightarrow> ('o, 'l, 't) informer_args" where
  "tenant_defaultInformer r client resyncPeriod =
     NewFilteredTenantInformer client (ri_namespace r) resyncPeriod [''namespace''] (ri_tweakListOptions r)"

definition nodestore_defaultInformer :: "'o resource_informers \<Rightarrow> ('o, 'l) setera_client \<Rightarrow> int \<Rightarrow> ('o, 'l, 't) informer_args" where
  "nodestore_defaultInformer r client resyncPeriod =
     NewFilteredNodeStoreInformer client (ri_namespace r) resyncPeriod [''namespace''] (ri_tweakListOptions r)"

definition tenant_Informer :: "'o resource_informers \<Rightarrow> ('o, 'l, 't) sharedInformerFactory \<Rightarrow> nat \<times> ('o, 'l, 't) sharedInformerFactory" where
  "tenant_Informer r f = InformerFor ''*v1.Tenant'' (tenant_defaultInformer r) f"

definition nodestore_Informer :: "'o resource_informers \<Rightarrow> ('o, 'l, 't) sharedInformerFactory \<Rightarrow> nat \<times> ('o, 'l, 't) sharedInformerFactory" where
  "nodestore_Informer r f = InformerFor ''*v1.NodeStore'' (nodestore_defaultInformer r) f"

text \<open>A lister reads the index of an informer, and a lister of a namespace only that part.\<close>

record lister =
  li_indexer :: nat
  li_resource :: "string \<times> string"
  li_namespace :: "string option"

definition NewTenantLister :: "nat \<Rightarrow> lister" where
  "NewTenantLister indexer = \<lparr>li_indexer = indexer, li_resource = v1_Resource ''tenant'', li_namespace = None\<rparr>"

definition NewNodeStoreLister :: "nat \<Rightarrow> lister" where
  "NewNodeStoreLister indexer = \<lparr>li_indexer = indexer, li_resource = v1_Resource ''nodestore'', li_namespace = None\<rparr>"

definition lister_Tenants :: "lister \<Rightarrow> string \<Rightarrow> lister" where "lister_Tenants s namespace = s\<lparr>li_namespace := Some namespace\<rparr>"
definition lister_NodeStores :: "lister \<Rightarrow> string \<Rightarrow> lister" where "lister_NodeStores s namespace = s\<lparr>li_namespace := Some namespace\<rparr>"

definition tenant_Lister :: "'o resource_informers \<Rightarrow> ('o, 'l, 't) sharedInformerFactory \<Rightarrow> lister \<times> ('o, 'l, 't) sharedInformerFactory" where
  "tenant_Lister r f = apfst NewTenantLister (tenant_Informer r f)"

definition nodestore_Lister :: "'o resource_informers \<Rightarrow> ('o, 'l, 't) sharedInformerFactory \<Rightarrow> lister \<times> ('o, 'l, 't) sharedInformerFactory" where
  "nodestore_Lister r f = apfst NewNodeStoreLister (nodestore_Informer r f)"

record genericInformer =
  gi_informer :: nat
  gi_resource :: "string \<times> string"

definition generic_Lister :: "genericInformer \<Rightarrow> lister" where
  "generic_Lister g = \<lparr>li_indexer = gi_informer g, li_resource = gi_resource g, li_namespace = None\<rparr>"

definition ForResource ::
  "GroupVersionResource \<Rightarrow> ('o, 'l, 't) sharedInformerFactory \<Rightarrow> (GroupVersionResource + genericInformer) \<times> ('o, 'l, 't) sharedInformerFactory" where
  "ForResource resource f =
     (let v = group_V1 (factory_Setera f); gr = (gr_Group resource, gr_Resource resource) in
      if resource = WithResource ''nodestores''
      then apfst (\<lambda>i. Inr \<lparr>gi_informer = i, gi_resource = gr\<rparr>) (nodestore_Informer (version_NodeStores v) f)
      else if resource = WithResource ''tenants''
      then apfst (\<lambda>i. Inr \<lparr>gi_informer = i, gi_resource = gr\<rparr>) (tenant_Informer (version_Tenants v) f)
      else (Inl resource, f))"

subsection \<open>Histories of a factory\<close>

text \<open>What is asked of a factory, from any goroutine, in the order of its lock; a goroutine of an informer may end.\<close>

datatype 'o factory_op = AskTenants "'o resource_informers" | AskNodeStores "'o resource_informers" | OpStart | OpShutdown | RunEnds nat

fun factory_do :: "'o factory_op \<Rightarrow> ('o, 'l, 't) sharedInformerFactory \<Rightarrow> ('o, 'l, 't) sharedInformerFactory" where
  "factory_do (AskTenants r) f = snd (tenant_Informer r f)"
| "factory_do (AskNodeStores r) f = snd (nodestore_Informer r f)"
| "factory_do OpStart f = factory_Start f"
| "factory_do OpShutdown f = factory_Shutdown f"
| "factory_do (RunEnds i) f = f\<lparr>sf_wg := remove1 i (sf_wg f)\<rparr>"

definition history :: "'o factory_op list \<Rightarrow> ('o, 'l, 't) sharedInformerFactory \<Rightarrow> ('o, 'l, 't) sharedInformerFactory" where
  "history ops f = fold factory_do ops f"

fun asked :: "'o factory_op \<Rightarrow> string option" where
  "asked (AskTenants _) = Some ''*v1.Tenant''"
| "asked (AskNodeStores _) = Some ''*v1.NodeStore''"
| "asked _ = None"

text \<open>
  How the programs of \<open>cmd\<close> use it: both informers and their listers, then \<open>Start\<close>.
\<close>

definition program_informers :: "('o, 'l) setera_client \<Rightarrow> (nat \<times> lister \<times> nat \<times> lister) \<times> ('o, 'l, 't) sharedInformerFactory" where
  "program_informers client =
     (let factory = NewSharedInformerFactory client 0;
          v1 = v1_New [] None;
          (tenantInf, f1) = tenant_Informer (version_Tenants v1) factory;
          (tenantLister, f2) = tenant_Lister (version_Tenants v1) f1;
          (nodeStoreInf, f3) = nodestore_Informer (version_NodeStores v1) f2;
          (nodeStoreLister, f4) = nodestore_Lister (version_NodeStores v1) f3
      in ((tenantInf, tenantLister, nodeStoreInf, nodeStoreLister), factory_Start f4))"

subsection \<open>The invariant of a factory\<close>

text \<open>One informer for each type, numbered in the order of creation, and one call of \<open>Run\<close> for each type that was started.\<close>

definition factory_inv :: "('o, 'l, 't) sharedInformerFactory \<Rightarrow> bool" where
  "factory_inv f \<longleftrightarrow> distinct (map fst (sf_informers f)) \<and> map (fst \<circ> snd) (sf_informers f) = [0..<length (sf_informers f)] \<and>
     distinct (sf_started f) \<and> set (sf_started f) \<subseteq> set (map fst (sf_informers f)) \<and>
     map Some (sf_runs f) = map (\<lambda>ty. map_option fst (map_of (sf_informers f) ty)) (sf_started f)"

lemma start_loop_eq:
  "distinct (map fst es) \<Longrightarrow> start_loop es f =
     (let new = filter (\<lambda>e. fst e \<notin> set (sf_started f)) es in
      f\<lparr>sf_started := sf_started f @ map fst new, sf_runs := sf_runs f @ map (fst \<circ> snd) new, sf_wg := sf_wg f @ map (fst \<circ> snd) new\<rparr>)"
proof (induction es arbitrary: f)
  case (Cons e es)
  obtain ty i x where e: "e = (ty, i, x)" by (metis prod_cases3)
  show ?case
  proof (cases "ty \<in> set (sf_started f)")
    case False
    have "filter (\<lambda>e. fst e \<noteq> ty \<and> fst e \<notin> set (sf_started f)) es = filter (\<lambda>e. fst e \<notin> set (sf_started f)) es"
      using Cons.prems e by (intro filter_cong) (auto simp: image_iff)
    then show ?thesis using Cons.IH Cons.prems e False by (simp add: Let_def)
  qed (use Cons e in \<open>simp add: Let_def\<close>)
qed simp

lemma start_inv: "factory_inv f \<Longrightarrow> factory_inv (factory_Start f)"
proof -
  assume f: "factory_inv f"
  let ?is = "sf_informers f"
  let ?new = "filter (\<lambda>e. fst e \<notin> set (sf_started f)) ?is"
  have d: "distinct (map fst ?is)" using f by (simp add: factory_inv_def)
  have "map Some (map (fst \<circ> snd) ?new) = map (\<lambda>ty. map_option fst (map_of ?is ty)) (map fst ?new)"
    using d by (auto simp: map_of_is_SomeI)
  moreover have "distinct (map fst ?new)" using d by (simp add: distinct_map inj_on_def)
  ultimately show ?thesis using f by (auto simp: factory_inv_def factory_Start_def start_loop_eq Let_def)
qed

lemma informer_for_cases:
  obtains (old) "map_of (sf_informers f) ty \<noteq> None" "snd (InformerFor ty mkf f) = f"
  | (new) i x where "map_of (sf_informers f) ty = None" "i = length (sf_informers f)"
      "snd (InformerFor ty mkf f) = f\<lparr>sf_informers := sf_informers f @ [(ty, i, x)]\<rparr>"
  by (cases "map_of (sf_informers f) ty") (auto simp: InformerFor_def Let_def)

lemma informer_for_inv: "factory_inv f \<Longrightarrow> factory_inv (snd (InformerFor ty mkf f))"
proof -
  assume f: "factory_inv f"
  show ?thesis
  proof (cases rule: informer_for_cases [where f = f and ty = ty and mkf = mkf])
    case (new i x)
    have "map (\<lambda>ty'. map_option fst (map_of (sf_informers f @ [(ty, i, x)]) ty')) (sf_started f) = map (\<lambda>ty'. map_option fst (map_of (sf_informers f) ty')) (sf_started f)"
      using f new(1) by (auto simp: factory_inv_def map_add_def map_of_eq_None_iff split: option.splits)
    then show ?thesis using f new by (auto simp: factory_inv_def map_of_eq_None_iff)
  qed (use f in simp)
qed

lemma do_inv: "factory_inv f \<Longrightarrow> factory_inv (factory_do op f)"
  by (cases op) (auto simp: tenant_Informer_def nodestore_Informer_def informer_for_inv start_inv, auto simp: factory_inv_def factory_Shutdown_def)

lemma history_inv: "factory_inv f \<Longrightarrow> factory_inv (history ops f)"
  by (induction ops arbitrary: f) (simp_all add: history_def do_inv)

lemma start_loop_keeps [simp]:
  "sf_informers (start_loop es f) = sf_informers f" "sf_shuttingDown (start_loop es f) = sf_shuttingDown f"
  by (induction es f rule: start_loop.induct) auto

lemma start_keeps [simp]: "sf_informers (factory_Start f) = sf_informers f" "sf_shuttingDown (factory_Start f) = sf_shuttingDown f"
  by (simp_all add: factory_Start_def)

lemma informer_for_keeps: "sf_shuttingDown (snd (InformerFor ty mkf f)) = sf_shuttingDown f" "sf_runs (snd (InformerFor ty mkf f)) = sf_runs f"
  "sf_started (snd (InformerFor ty mkf f)) = sf_started f"
  by (cases rule: informer_for_cases [where f = f and ty = ty and mkf = mkf]; simp)+

lemma informer_for_adds: "fst ` set (sf_informers (snd (InformerFor ty mkf f))) = insert ty (fst ` set (sf_informers f))"
proof (cases rule: informer_for_cases [where f = f and ty = ty and mkf = mkf])
  case old
  then show ?thesis by (simp add: map_of_eq_None_iff insert_absorb)
qed simp

lemma informer_for_same: "map_of (sf_informers f) ty' = Some e \<Longrightarrow> map_of (sf_informers (snd (InformerFor ty mkf f))) ty' = Some e"
proof (cases rule: informer_for_cases [where f = f and ty = ty and mkf = mkf])
  case (new i x)
  assume "map_of (sf_informers f) ty' = Some e"
  then show ?thesis using new by (cases "ty' = ty") (simp_all add: map_add_def)
qed simp

lemma do_keeps:
  "sf_shuttingDown (factory_do op f) \<longleftrightarrow> sf_shuttingDown f \<or> op = OpShutdown"
  "fst ` set (sf_informers (factory_do op f)) = fst ` set (sf_informers f) \<union> set_option (asked op)"
  "map_of (sf_informers f) ty = Some e \<Longrightarrow> map_of (sf_informers (factory_do op f)) ty = Some e"
  "sf_shuttingDown f \<Longrightarrow> sf_runs (factory_do op f) = sf_runs f"
  by (cases op; simp add: tenant_Informer_def nodestore_Informer_def informer_for_keeps informer_for_adds informer_for_same factory_Shutdown_def; simp add: factory_Start_def)+

lemma history_keeps:
  "sf_shuttingDown (history ops f) \<longleftrightarrow> sf_shuttingDown f \<or> OpShutdown \<in> set ops"
  "fst ` set (sf_informers (history ops f)) = fst ` set (sf_informers f) \<union> (\<Union>op\<in>set ops. set_option (asked op))"
  "map_of (sf_informers f) ty = Some e \<Longrightarrow> map_of (sf_informers (history ops f)) ty = Some e"
  "sf_shuttingDown f \<Longrightarrow> sf_runs (history ops f) = sf_runs f"
  by (induction ops arbitrary: f) (simp_all add: history_def do_keeps, auto)

definition factory_options :: "('o, 'l, 't) factory_option set" where
  "factory_options = range WithCustomResyncConfig \<union> range WithTweakListOptions \<union> range WithNamespace \<union> range WithTransform"

lemma options_keep:
  assumes "opt \<in> factory_options" "sf_informers f = []" "sf_started f = []" "sf_runs f = []" "\<not> sf_shuttingDown f"
  shows "sf_informers (opt f) = []" "sf_started (opt f) = []" "sf_runs (opt f) = []" "\<not> sf_shuttingDown (opt f)"
  using assms by (auto simp: factory_options_def WithCustomResyncConfig_def WithTweakListOptions_def WithNamespace_def WithTransform_def)

lemma new_factory:
  assumes "set options \<subseteq> factory_options"
  shows "sf_informers (NewSharedInformerFactoryWithOptions client d options) = []" "sf_started (NewSharedInformerFactoryWithOptions client d options) = []"
    "sf_runs (NewSharedInformerFactoryWithOptions client d options) = []" "\<not> sf_shuttingDown (NewSharedInformerFactoryWithOptions client d options)"
proof -
  have "sf_informers (fold (\<lambda>opt f. opt f) options f) = [] \<and> sf_started (fold (\<lambda>opt f. opt f) options f) = [] \<and> sf_runs (fold (\<lambda>opt f. opt f) options f) = [] \<and>
      \<not> sf_shuttingDown (fold (\<lambda>opt f. opt f) options f)"
    if "sf_informers f = []" "sf_started f = []" "sf_runs f = []" "\<not> sf_shuttingDown f" for f
    using assms that by (induction options arbitrary: f) (simp_all add: options_keep)
  then show "sf_informers (NewSharedInformerFactoryWithOptions client d options) = []" "sf_started (NewSharedInformerFactoryWithOptions client d options) = []"
    "sf_runs (NewSharedInformerFactoryWithOptions client d options) = []" "\<not> sf_shuttingDown (NewSharedInformerFactoryWithOptions client d options)"
    by (simp_all add: NewSharedInformerFactoryWithOptions_def)
qed

lemma runs_distinct:
  assumes "factory_inv f"
  shows "distinct (sf_runs f)"
proof -
  let ?is = "sf_informers f"
  have d: "distinct (map (fst \<circ> snd) ?is)" "distinct (sf_started f)" "set (sf_started f) \<subseteq> set (map fst ?is)"
    and r: "map Some (sf_runs f) = map (\<lambda>ty. map_option fst (map_of ?is ty)) (sf_started f)" using assms by (simp_all add: factory_inv_def)
  have "inj_on (\<lambda>ty. map_option fst (map_of ?is ty)) (set (sf_started f))"
  proof (rule inj_onI)
    fix ty ty' assume t: "ty \<in> set (sf_started f)" "ty' \<in> set (sf_started f)" "map_option fst (map_of ?is ty) = map_option fst (map_of ?is ty')"
    then obtain i x x' where "map_of ?is ty = Some (i, x)" "map_of ?is ty' = Some (i, x')"
      using d(3) map_of_eq_None_iff [of ?is ty] by (cases "map_of ?is ty"; cases "map_of ?is ty'") auto
    then have "(ty, i, x) \<in> set ?is" "(ty', i, x') \<in> set ?is" by (simp_all add: map_of_SomeD)
    then show "ty = ty'" using d(1) inj_onD [of "fst \<circ> snd" "set ?is" "(ty, i, x)" "(ty', i, x')"] by (simp add: distinct_map)
  qed
  then have "distinct (map Some (sf_runs f))" using d(2) unfolding r by (simp add: distinct_map)
  then show ?thesis by (simp add: distinct_map)
qed

text \<open>
  C38. Shared informers: whatever is asked of a factory and in whatever order, one type has one informer, which stays the same for every later
  caller, and no informer is run twice. As long as the factory is not shut down, \<open>Start\<close> runs every informer that was asked for before, and
  \<open>WaitForCacheSync\<close> then waits for all of them; once it is shut down, nothing is run any more.
\<close>

theorem informers_run_once:
  assumes "set options \<subseteq> factory_options"
    and f: "f = history ops (NewSharedInformerFactoryWithOptions client d options)"
  shows "distinct (map fst (sf_informers f)) \<and> distinct (sf_runs f) \<and>
    (\<forall>ty e ops'. map_of (sf_informers f) ty = Some e \<longrightarrow> map_of (sf_informers (history ops' f)) ty = Some e) \<and>
    (OpShutdown \<notin> set ops \<longrightarrow> set (sf_runs (factory_Start f)) = set (map (fst \<circ> snd) (sf_informers f)) \<and>
       fst ` set (factory_WaitForCacheSync synced (factory_Start f)) = (\<Union>op\<in>set ops. set_option (asked op))) \<and>
    (OpShutdown \<in> set ops \<longrightarrow> (\<forall>ops'. sf_runs (history ops' f) = sf_runs f))"
proof (intro conjI allI impI)
  let ?f0 = "NewSharedInformerFactoryWithOptions client d options"
  note n = new_factory [OF assms(1), of client d]
  have "factory_inv ?f0" using n by (simp add: factory_inv_def)
  then have inv: "factory_inv f" unfolding f by (rule history_inv)
  then show dist: "distinct (map fst (sf_informers f))" "distinct (sf_runs f)" by (simp_all add: factory_inv_def runs_distinct)
  show "map_of (sf_informers (history ops' f)) ty = Some e" if "map_of (sf_informers f) ty = Some e" for ty e ops'
    by (rule history_keeps(3) [OF that])
  show "sf_runs (history ops' f) = sf_runs f" if "OpShutdown \<in> set ops" for ops' using history_keeps(1,4) that f by metis
  show "set (sf_runs (factory_Start f)) = set (map (fst \<circ> snd) (sf_informers f))" "fst ` set (factory_WaitForCacheSync synced (factory_Start f)) =
      (\<Union>op\<in>set ops. set_option (asked op))" if ns: "OpShutdown \<notin> set ops"
  proof -
    have up: "\<not> sf_shuttingDown f" using history_keeps(1) [of ops ?f0] n(4) ns f by simp
    have st: "set (sf_started (factory_Start f)) = fst ` set (sf_informers f)"
      using inv up dist(1) by (auto simp: factory_Start_def start_loop_eq Let_def factory_inv_def)
    have el: "map_option fst (map_of (sf_informers f) (fst e)) = Some (fst (snd e))" if "e \<in> set (sf_informers f)" for e
      using dist(1) that by (cases e) (simp add: map_of_is_SomeI)
    have "map Some (sf_runs (factory_Start f)) = map (\<lambda>ty. map_option fst (map_of (sf_informers f) ty)) (sf_started (factory_Start f))"
      using start_inv [OF inv] by (simp add: factory_inv_def)
    then have "Some ` set (sf_runs (factory_Start f)) = (\<lambda>ty. map_option fst (map_of (sf_informers f) ty)) ` (fst ` set (sf_informers f))"
      unfolding st [symmetric] by (metis set_map)
    also have "\<dots> = Some ` set (map (fst \<circ> snd) (sf_informers f))"
      unfolding image_image set_map comp_def by (rule image_cong [OF refl el])
    finally show "set (sf_runs (factory_Start f)) = set (map (fst \<circ> snd) (sf_informers f))" by (simp add: inj_image_eq_iff)
    have all: "filter (\<lambda>(ty, _). ty \<in> set (sf_started (factory_Start f))) (sf_informers f) = sf_informers f" using st by (force intro!: filter_True)
    show "fst ` set (factory_WaitForCacheSync synced (factory_Start f)) = (\<Union>op\<in>set ops. set_option (asked op))"
      using history_keeps(2) [of ops ?f0] n(1) f unfolding factory_WaitForCacheSync_def start_keeps all by (simp add: image_image split_def)
  qed
qed

definition demo_client :: "(nat, nat) setera_client" where
  "demo_client = \<lparr>sc_ListTenants = (\<lambda>ns o'. o'), sc_WatchTenants = (\<lambda>ns o'. o'), sc_ListNodeStores = (\<lambda>ns o'. o'), sc_WatchNodeStores = (\<lambda>ns o'. o')\<rparr>"

definition demo_asks :: "nat factory_op list" where
  "demo_asks = [AskTenants (v1_New [] None), OpStart, AskNodeStores (v1_New [] None), AskTenants (v1_New ''x'' (Some Suc))]"

theorem informers_run_once_witness:
  "let f = history demo_asks (NewSharedInformerFactoryWithOptions demo_client 0 [WithNamespace ''x'', WithTransform (Some ())]) in
     distinct (sf_runs f) \<and> set (sf_runs (factory_Start f)) = {0, 1} \<and>
     fst ` set (factory_WaitForCacheSync (\<lambda>_. True) (factory_Start f)) = {''*v1.Tenant'', ''*v1.NodeStore''}"
proof -
  let ?o = "[WithNamespace ''x'', WithTransform (Some ())] :: (nat, nat, unit) factory_option list"
  let ?f = "history demo_asks (NewSharedInformerFactoryWithOptions demo_client 0 ?o)"
  have o: "set ?o \<subseteq> factory_options" by (simp add: factory_options_def)
  have s: "OpShutdown \<notin> set demo_asks" by (simp add: demo_asks_def)
  have n: "set (map (fst \<circ> snd) (sf_informers ?f)) = {0, 1}"
    by (simp add: history_def demo_asks_def tenant_Informer_def nodestore_Informer_def InformerFor_def Let_def factory_Start_def
        NewSharedInformerFactoryWithOptions_def WithNamespace_def WithTransform_def insert_commute)
  have a: "(\<Union>op\<in>set demo_asks. set_option (asked op)) = {''*v1.Tenant'', ''*v1.NodeStore''}" by (auto simp: demo_asks_def)
  show ?thesis using informers_run_once [OF o refl, of demo_asks demo_client 0 "\<lambda>_. True"] s n a unfolding Let_def by simp
qed

text \<open>
  The programs get one informer for each resource although they ask for it twice, their listers read the informers they register handlers with, and both are run once,
  without resync, over all namespaces.
\<close>

lemma program_informers_run:
  assumes "program_informers client = ((ti, ls, ni, ns), f)"
  shows "li_indexer ls = ti" "li_indexer ns = ni" "ti \<noteq> ni" "sf_runs f = [ti, ni]" "map (ia_resync \<circ> snd \<circ> snd) (sf_informers f) = [0, 0]"
    "map (\<lambda>e. lw_List (ia_lw (snd (snd e)))) (sf_informers f) = [sc_ListTenants client [], sc_ListNodeStores client []]"
  using assms
  by (auto simp: program_informers_def NewSharedInformerFactory_def NewSharedInformerFactoryWithOptions_def tenant_Informer_def nodestore_Informer_def
      tenant_Lister_def nodestore_Lister_def InformerFor_def factory_Start_def NewTenantLister_def NewNodeStoreLister_def v1_New_def version_Tenants_def
      version_NodeStores_def tenant_defaultInformer_def nodestore_defaultInformer_def NewFilteredTenantInformer_def NewFilteredNodeStoreInformer_def tweak_def Let_def)

text \<open>\<open>ForResource\<close> knows the two resources and gives the informer that the typed call gives.\<close>

lemma for_resource_known:
  "fst (ForResource resource f) = Inl resource \<longleftrightarrow> resource \<notin> {WithResource ''nodestores'', WithResource ''tenants''}"
  "fst (ForResource (WithResource ''tenants'') f) = Inr g \<Longrightarrow> gi_informer g = fst (tenant_Informer (version_Tenants (group_V1 (factory_Setera f))) f)"
  by (auto simp: ForResource_def Let_def WithResource_def)

end
