(* ===== verification/Setera_Client.thy ===== *)
theory Setera_Client
  imports Informers Kube_Client Complex_Main
begin

text \<open>
  The generated clients of \<open>pkg/generated/clientset/versioned\<close>: the clientset, the client of the group and those of its two resources, and the scheme they
  decode with. The packages rest, discovery, flowcontrol and runtime of Kubernetes are the fields of \<open>client_go\<close>, with \<open>'h\<close> the HTTP clients, \<open>'c\<close> the REST
  clients, \<open>'d\<close> the discovery clients, \<open>'l\<close> the rate limiters, \<open>'n\<close> the serializers and \<open>'s\<close> the schemes.
\<close>

subsection \<open>Configurations and the packages used\<close>

text \<open>The fields of a configuration that are read or written here; \<open>rc_others\<close> is all the rest.\<close>

record ('l, 'n, 'x) rest_config =
  rc_APIPath :: string
  rc_GroupVersion :: "(string \<times> string) option"
  rc_NegotiatedSerializer :: "'n option"
  rc_UserAgent :: string
  rc_RateLimiter :: "'l option"
  rc_QPS :: real
  rc_Burst :: int
  rc_others :: 'x

record ('h, 'c, 'd, 'l, 'n, 's, 'x) client_go =
  cg_DefaultUserAgent :: string
  cg_HTTPClientFor :: "('l, 'n, 'x) rest_config \<Rightarrow> string + 'h"
  cg_RESTClientFor :: "('l, 'n, 'x) rest_config \<Rightarrow> 'h \<Rightarrow> string + 'c"
  cg_DiscoveryFor :: "('l, 'n, 'x) rest_config \<Rightarrow> 'h \<Rightarrow> string + 'd"
  cg_Discovery :: "'c option \<Rightarrow> 'd"
  cg_TokenBucket :: "real \<Rightarrow> int \<Rightarrow> 'l"
  cg_WithoutConversion :: "'s \<Rightarrow> 'n"
  cg_NewScheme :: 's
  cg_AddKnownTypes :: "string \<times> string \<Rightarrow> string list \<Rightarrow> 's \<Rightarrow> 's"
  cg_AddToGroupVersion :: "string \<times> string \<Rightarrow> 's \<Rightarrow> 's"

subsection \<open>The scheme\<close>

text \<open>A builder of schemes is the list of its functions; \<open>init\<close> of the package registers the one there is a second time.\<close>

definition addKnownTypes :: "('h, 'c, 'd, 'l, 'n, 's, 'x) client_go \<Rightarrow> 's \<Rightarrow> 's" where
  "addKnownTypes g s =
     cg_AddToGroupVersion g SchemeGroupVersion
       (cg_AddKnownTypes g SchemeGroupVersion [''Tenant'', ''TenantList'', ''NodeStore'', ''NodeStoreList''] s)"

definition SchemeBuilder :: "('h, 'c, 'd, 'l, 'n, 's, 'x) client_go \<Rightarrow> ('s \<Rightarrow> 's) list" where
  "SchemeBuilder g = [addKnownTypes g] @ [addKnownTypes g]"

definition AddToScheme :: "('h, 'c, 'd, 'l, 'n, 's, 'x) client_go \<Rightarrow> 's \<Rightarrow> 's" where
  "AddToScheme g s = fold (\<lambda>f. f) (SchemeBuilder g) s"

definition localSchemeBuilder :: "('h, 'c, 'd, 'l, 'n, 's, 'x) client_go \<Rightarrow> ('s \<Rightarrow> 's) list" where
  "localSchemeBuilder g = [AddToScheme g]"

definition Scheme :: "('h, 'c, 'd, 'l, 'n, 's, 'x) client_go \<Rightarrow> 's" where
  "Scheme g = fold (\<lambda>f. f) (localSchemeBuilder g) (cg_AddToGroupVersion g ([], ''v1'') (cg_NewScheme g))"

subsection \<open>The client of the group\<close>

text \<open>A nil client is \<open>None\<close>.\<close>

record 'c SeteraV1Client =
  restClient :: "'c option"

definition setConfigDefaults :: "('h, 'c, 'd, 'l, 'n, 's, 'x) client_go \<Rightarrow> ('l, 'n, 'x) rest_config \<Rightarrow> ('l, 'n, 'x) rest_config" where
  "setConfigDefaults g config =
     (let config = config\<lparr>rc_GroupVersion := Some SchemeGroupVersion, rc_APIPath := ''/apis'',
                          rc_NegotiatedSerializer := Some (cg_WithoutConversion g (Scheme g))\<rparr>
      in if rc_UserAgent config = [] then config\<lparr>rc_UserAgent := cg_DefaultUserAgent g\<rparr> else config)"

definition v1_NewForConfigAndClient ::
    "('h, 'c, 'd, 'l, 'n, 's, 'x) client_go \<Rightarrow> ('l, 'n, 'x) rest_config \<Rightarrow> 'h \<Rightarrow> string + 'c SeteraV1Client" where
  "v1_NewForConfigAndClient g c h =
     (case cg_RESTClientFor g (setConfigDefaults g c) h of Inl e \<Rightarrow> Inl e | Inr client \<Rightarrow> Inr \<lparr>restClient = Some client\<rparr>)"

definition v1_NewForConfig ::
    "('h, 'c, 'd, 'l, 'n, 's, 'x) client_go \<Rightarrow> ('l, 'n, 'x) rest_config \<Rightarrow> string + 'c SeteraV1Client" where
  "v1_NewForConfig g c =
     (let config = setConfigDefaults g c in
      case cg_HTTPClientFor g config of Inl e \<Rightarrow> Inl e | Inr h \<Rightarrow> v1_NewForConfigAndClient g config h)"

text \<open>A panic is the error it panics with.\<close>

definition v1_NewForConfigOrDie ::
    "('h, 'c, 'd, 'l, 'n, 's, 'x) client_go \<Rightarrow> ('l, 'n, 'x) rest_config \<Rightarrow> string + 'c SeteraV1Client" where
  "v1_NewForConfigOrDie g c = (case v1_NewForConfig g c of Inl err \<Rightarrow> Inl err | Inr client \<Rightarrow> Inr client)"

definition v1_client_New :: "'c option \<Rightarrow> 'c SeteraV1Client" where
  "v1_client_New c = \<lparr>restClient = c\<rparr>"

definition RESTClient :: "'c SeteraV1Client option \<Rightarrow> 'c option" where
  "RESTClient c = (case c of None \<Rightarrow> None | Some cl \<Rightarrow> restClient cl)"

text \<open>The client of a resource, by what \<open>gentype.NewClientWithListAndApply\<close> is given and the two types it decodes into.\<close>

record 'c resource_client =
  gc_resource :: string
  gc_client :: "'c option"
  gc_namespace :: string
  gc_object :: string
  gc_list :: string

definition newTenants :: "'c SeteraV1Client option \<Rightarrow> string \<Rightarrow> 'c resource_client" where
  "newTenants c namespace =
     \<lparr>gc_resource = ''tenants'', gc_client = RESTClient c, gc_namespace = namespace, gc_object = ''Tenant'', gc_list = ''TenantList''\<rparr>"

definition newNodeStores :: "'c SeteraV1Client option \<Rightarrow> string \<Rightarrow> 'c resource_client" where
  "newNodeStores c namespace =
     \<lparr>gc_resource = ''nodestores'', gc_client = RESTClient c, gc_namespace = namespace, gc_object = ''NodeStore'', gc_list = ''NodeStoreList''\<rparr>"

definition client_Tenants :: "'c SeteraV1Client option \<Rightarrow> string \<Rightarrow> 'c resource_client" where
  "client_Tenants c namespace = newTenants c namespace"

definition client_NodeStores :: "'c SeteraV1Client option \<Rightarrow> string \<Rightarrow> 'c resource_client" where
  "client_NodeStores c namespace = newNodeStores c namespace"

subsection \<open>The clientset\<close>

record ('c, 'd) Clientset =
  DiscoveryClient :: 'd
  seteraV1 :: "'c SeteraV1Client"

text \<open>\<open>SeteraV1\<close> reads a field, a panic (here \<open>None\<close>) on a nil clientset; \<open>Discovery\<close> gives nil then.\<close>

definition SeteraV1 :: "('c, 'd) Clientset option \<Rightarrow> 'c SeteraV1Client option" where
  "SeteraV1 c = map_option seteraV1 c"

definition Discovery :: "('c, 'd) Clientset option \<Rightarrow> 'd option" where
  "Discovery c = (case c of None \<Rightarrow> None | Some cs \<Rightarrow> Some (DiscoveryClient cs))"

definition burst_required :: string where
  "burst_required = ''burst is required to be greater than 0 when RateLimiter is not set and QPS is set to greater than 0''"

definition limit_rate :: "('h, 'c, 'd, 'l, 'n, 's, 'x) client_go \<Rightarrow> ('l, 'n, 'x) rest_config \<Rightarrow> string + ('l, 'n, 'x) rest_config" where
  "limit_rate g c =
     (if rc_RateLimiter c = None \<and> rc_QPS c > 0
      then if rc_Burst c \<le> 0 then Inl burst_required
           else Inr (c\<lparr>rc_RateLimiter := Some (cg_TokenBucket g (rc_QPS c) (rc_Burst c))\<rparr>)
      else Inr c)"

definition NewForConfigAndClient ::
    "('h, 'c, 'd, 'l, 'n, 's, 'x) client_go \<Rightarrow> ('l, 'n, 'x) rest_config \<Rightarrow> 'h \<Rightarrow> string + ('c, 'd) Clientset" where
  "NewForConfigAndClient g c h =
     (case limit_rate g c of
        Inl e \<Rightarrow> Inl e
      | Inr config \<Rightarrow>
          (case v1_NewForConfigAndClient g config h of
             Inl e \<Rightarrow> Inl e
           | Inr v1 \<Rightarrow>
               (case cg_DiscoveryFor g config h of
                  Inl e \<Rightarrow> Inl e
                | Inr d \<Rightarrow> Inr \<lparr>DiscoveryClient = d, seteraV1 = v1\<rparr>)))"

definition NewForConfig :: "('h, 'c, 'd, 'l, 'n, 's, 'x) client_go \<Rightarrow> ('l, 'n, 'x) rest_config \<Rightarrow> string + ('c, 'd) Clientset" where
  "NewForConfig g c =
     (let config = (if rc_UserAgent c = [] then c\<lparr>rc_UserAgent := cg_DefaultUserAgent g\<rparr> else c) in
      case cg_HTTPClientFor g config of Inl e \<Rightarrow> Inl e | Inr h \<Rightarrow> NewForConfigAndClient g config h)"

definition NewForConfigOrDie :: "('h, 'c, 'd, 'l, 'n, 's, 'x) client_go \<Rightarrow> ('l, 'n, 'x) rest_config \<Rightarrow> string + ('c, 'd) Clientset" where
  "NewForConfigOrDie g c = (case NewForConfig g c of Inl err \<Rightarrow> Inl err | Inr cs \<Rightarrow> Inr cs)"

definition clientset_New :: "('h, 'c, 'd, 'l, 'n, 's, 'x) client_go \<Rightarrow> 'c option \<Rightarrow> ('c, 'd) Clientset" where
  "clientset_New g c = \<lparr>DiscoveryClient = cg_Discovery g c, seteraV1 = v1_client_New c\<rparr>"

subsection \<open>What a clientset is\<close>

lemma setConfigDefaults_fields [simp]:
  "rc_GroupVersion (setConfigDefaults g c) = Some SchemeGroupVersion" "rc_APIPath (setConfigDefaults g c) = ''/apis''"
  "rc_RateLimiter (setConfigDefaults g c) = rc_RateLimiter c" "rc_others (setConfigDefaults g c) = rc_others c"
  "rc_UserAgent (setConfigDefaults g c) = (if rc_UserAgent c = [] then cg_DefaultUserAgent g else rc_UserAgent c)"
  by (simp_all add: setConfigDefaults_def Let_def)

lemma setConfigDefaults_idem: "setConfigDefaults g (setConfigDefaults g c) = setConfigDefaults g c"
  by (simp add: setConfigDefaults_def Let_def)

lemma limit_rate_shares:
  assumes "limit_rate g c = Inr c'"
  shows "rc_QPS c > 0 \<Longrightarrow> rc_RateLimiter c' \<noteq> None" "c'\<lparr>rc_RateLimiter := rc_RateLimiter c\<rparr> = c"
    "rc_RateLimiter c \<noteq> None \<Longrightarrow> c' = c"
  using assms by (auto simp: limit_rate_def split: if_splits)

text \<open>
  A clientset that was built talks to the group \<open>setera.com/v1\<close> under \<open>/apis\<close>, with one HTTP client and one configuration, and so one rate limiter, for the
  client of the group and for discovery; only the defaults were filled in.
\<close>

lemma NewForConfig_built:
  assumes built: "NewForConfig g c = Inr cs"
  obtains config h client d where
    "config\<lparr>rc_UserAgent := rc_UserAgent c, rc_RateLimiter := rc_RateLimiter c\<rparr> = c"
    "rc_UserAgent config = (if rc_UserAgent c = [] then cg_DefaultUserAgent g else rc_UserAgent c)"
    "rc_QPS c > 0 \<Longrightarrow> rc_RateLimiter config \<noteq> None"
    "cg_RESTClientFor g (setConfigDefaults g config) h = Inr client" "cg_DiscoveryFor g config h = Inr d"
    "cs = \<lparr>DiscoveryClient = d, seteraV1 = \<lparr>restClient = Some client\<rparr>\<rparr>"
proof -
  let ?c = "if rc_UserAgent c = [] then c\<lparr>rc_UserAgent := cg_DefaultUserAgent g\<rparr> else c"
  obtain h config client d where h: "limit_rate g ?c = Inr config" "cg_RESTClientFor g (setConfigDefaults g config) h = Inr client"
      "cg_DiscoveryFor g config h = Inr d" "cs = \<lparr>DiscoveryClient = d, seteraV1 = \<lparr>restClient = Some client\<rparr>\<rparr>"
    using built by (auto simp: NewForConfig_def NewForConfigAndClient_def v1_NewForConfigAndClient_def Let_def split: sum.splits)
  have "rc_QPS ?c = rc_QPS c" "rc_RateLimiter ?c = rc_RateLimiter c" by simp_all
  moreover have "config\<lparr>rc_RateLimiter := rc_RateLimiter ?c\<rparr> = ?c" by (rule limit_rate_shares(2) [OF h(1)])
  ultimately show thesis
    using that [of config h client d] h limit_rate_shares(1) [OF h(1)]
    by (cases c, cases config) (auto split: if_splits)
qed

lemma limit_rate_burst:
  "rc_RateLimiter c = None \<Longrightarrow> rc_QPS c > 0 \<Longrightarrow> rc_Burst c \<le> 0 \<Longrightarrow> NewForConfigAndClient g c h = Inl burst_required"
  by (simp add: NewForConfigAndClient_def limit_rate_def)

lemma NewForConfig_burst:
  assumes "rc_RateLimiter c = None" "rc_QPS c > 0" "rc_Burst c \<le> 0"
  shows "NewForConfig g c \<in> range Inl"
  using assms by (auto simp: NewForConfig_def Let_def limit_rate_burst split: sum.splits)

text \<open>The client of the group is the same whether its configuration already has the defaults or not.\<close>

lemma v1_client_default: "v1_NewForConfigAndClient g (setConfigDefaults g c) h = v1_NewForConfigAndClient g c h"
  by (simp add: v1_NewForConfigAndClient_def setConfigDefaults_idem)

text \<open>The clients of both resources use the REST client of the group, in the namespace they are asked for.\<close>

lemma resource_clients:
  "gc_client (client_Tenants (SeteraV1 (Some cs)) ns) = restClient (seteraV1 cs)"
  "gc_client (client_NodeStores (SeteraV1 (Some cs)) ns) = restClient (seteraV1 cs)"
  "SeteraV1 (Some (clientset_New g rc)) = Some (v1_client_New rc)"
  by (simp_all add: client_Tenants_def client_NodeStores_def newTenants_def newNodeStores_def SeteraV1_def RESTClient_def
      clientset_New_def)

text \<open>Registering the types twice is registering them once when the scheme takes a repeated registration for nothing.\<close>

lemma Scheme_registers_once:
  assumes "\<And>s. addKnownTypes g (addKnownTypes g s) = addKnownTypes g s"
  shows "Scheme g = addKnownTypes g (cg_AddToGroupVersion g ([], ''v1'') (cg_NewScheme g))"
  using assms by (simp add: Scheme_def localSchemeBuilder_def AddToScheme_def SchemeBuilder_def)

subsection \<open>The client of the programs\<close>

text \<open>\<open>NewSeteraClient\<close> of \<open>pkg/k8s/crd.go\<close> over this clientset: the host of \<open>Kube_Client\<close> with its call filled in.\<close>

definition with_clientset ::
    "('h, 'c, 'd, 'l, 'n, 's, 'x) client_go \<Rightarrow> (('l, 'n, 'x) rest_config, 'k) kube_host \<Rightarrow> (('l, 'n, 'x) rest_config, 'k) kube_host" where
  "with_clientset g h = h\<lparr>kh_NewSetera := \<lambda>c. case NewForConfig g c of Inl e \<Rightarrow> Some e | Inr _ \<Rightarrow> None\<rparr>"

lemma setera_client_outcomes:
  "NewSeteraClient (with_clientset g h) c = (case NewForConfig g c of Inl e \<Rightarrow> Inl (ClientErr e) | Inr _ \<Rightarrow> Inr ())"
  by (auto simp: NewSeteraClient_def with_clientset_def split: sum.splits)

lemma clients_built_or_refused:
  assumes "InitClients (with_clientset g h) c = Inr ()"
  obtains cs where "NewForConfig g c = Inr cs" "kh_NewKube h c = None"
  using assms by (auto simp: InitClients_def NewKubeClient_def NewSeteraClient_def with_clientset_def split: sum.splits option.splits)

end
