(* ===== verification/Tenant_Actor.thy ===== *)
theory Tenant_Actor
  imports NM_Demo
begin

text \<open>
  The actor of a tenant as a goroutine (\<open>internal/nmanager/actor_tenant.go\<close>): its mailbox is a channel of bounded size, every call is a goroutine of its own that sends a
  message with a fresh reply channel and waits. \<open>Pod_Ops\<close> treats a call as one step with a way of delivery; here the
  interleavings of callers, loop and network manager are steps, and it is shown that the calls behave as they do there.
\<close>

subsection \<open>Callers, mailbox and loop\<close>

text \<open>
  How far a call is: not begun, sending, ended by its context before the message was taken, waiting for the reply, given up, or answered.
\<close>

datatype actor_phase =
    Idle
  | Sending tenantMsg
  | CtxEnded tenantMsg
  | Waiting tenantMsg
  | GaveUp tenantMsg
  | Answered tenantMsg tenantReply

text \<open>
  Calls are numbered, and the number stands for the reply channel; \<open>ar_reply\<close> is what was sent on it. \<open>ar_sent\<close> and
  \<open>ar_handled\<close> record the messages the mailbox took and those the loop handled, with the state in which it did.
\<close>

record 'k actor_run =
  ar_cap :: nat
  ar_inbox :: "(nat \<times> tenantMsg) list"
  ar_reply :: "nat \<rightharpoonup> tenantReply"
  ar_running :: bool
  ar_call :: "nat \<Rightarrow> actor_phase"
  ar_sent :: "(nat \<times> tenantMsg) list"
  ar_handled :: "(nat \<times> tenantMsg \<times> 'k nm) list"
  ar_nm :: "'k nm"

definition mailbox_size :: "int \<Rightarrow> nat" where
  "mailbox_size n = (if n \<le> 0 then 128 else nat n)"

definition StartTenantActor :: "int \<Rightarrow> 'k nm \<Rightarrow> 'k actor_run" where
  "StartTenantActor mailboxSize s =
     \<lparr>ar_cap = mailbox_size mailboxSize, ar_inbox = [], ar_reply = Map.empty, ar_running = True, ar_call = (\<lambda>_. Idle),
      ar_sent = [], ar_handled = [], ar_nm = s\<rparr>"

text \<open>
  The steps of a call, \<open>None\<close> where it blocks: it begins, its message is taken, its context ends first, the reply arrives, it waits no longer.
\<close>

definition call_begin :: "nat \<Rightarrow> tenantMsg \<Rightarrow> 'k actor_run \<Rightarrow> 'k actor_run option" where
  "call_begin i m a = (if ar_call a i = Idle then Some (a\<lparr>ar_call := (ar_call a)(i := Sending m)\<rparr>) else None)"

definition call_send :: "nat \<Rightarrow> 'k actor_run \<Rightarrow> 'k actor_run option" where
  "call_send i a =
     (case ar_call a i of
        Sending m \<Rightarrow>
          if length (ar_inbox a) < ar_cap a
          then Some (a\<lparr>ar_inbox := ar_inbox a @ [(i, m)], ar_sent := ar_sent a @ [(i, m)], ar_call := (ar_call a)(i := Waiting m)\<rparr>)
          else None
      | _ \<Rightarrow> None)"

definition call_ctx :: "nat \<Rightarrow> 'k actor_run \<Rightarrow> 'k actor_run option" where
  "call_ctx i a = (case ar_call a i of Sending m \<Rightarrow> Some (a\<lparr>ar_call := (ar_call a)(i := CtxEnded m)\<rparr>) | _ \<Rightarrow> None)"

definition call_receive :: "nat \<Rightarrow> 'k actor_run \<Rightarrow> 'k actor_run option" where
  "call_receive i a =
     (case (ar_call a i, ar_reply a i) of
        (Waiting m, Some rp) \<Rightarrow> Some (a\<lparr>ar_call := (ar_call a)(i := Answered m rp)\<rparr>)
      | _ \<Rightarrow> None)"

definition call_timeout :: "nat \<Rightarrow> 'k actor_run \<Rightarrow> 'k actor_run option" where
  "call_timeout i a = (case ar_call a i of Waiting m \<Rightarrow> Some (a\<lparr>ar_call := (ar_call a)(i := GaveUp m)\<rparr>) | _ \<Rightarrow> None)"

text \<open>What a call returns when it returns.\<close>

fun call_result :: "actor_phase \<Rightarrow> (nm_error + tenantReply) option" where
  "call_result (CtxEnded m) = Some (Inl CtxDone)"
| "call_result (GaveUp m) = Some (Inl (if msg_kind m = msgStop then CtxDone else DeadlineExceeded))"
| "call_result (Answered m rp) = Some (Inr rp)"
| "call_result _ = None"

text \<open>One turn of the loop, and its end when the context of the actor ends.\<close>

definition loop_turn :: "'k deps \<Rightarrow> string \<Rightarrow> 'k actor_run \<Rightarrow> 'k actor_run option" where
  "loop_turn d tid a =
     (if \<not> ar_running a then None
      else case ar_inbox a of
             [] \<Rightarrow> None
           | (i, m) # q \<Rightarrow>
               (case actor_handle d tid m (ar_nm a) of (rp, s1) \<Rightarrow>
                  Some (a\<lparr>ar_inbox := q, ar_reply := (ar_reply a)(i \<mapsto> rp), ar_running := msg_kind m \<noteq> msgStop,
                         ar_handled := ar_handled a @ [(i, m, ar_nm a)], ar_nm := s1\<rparr>)))"

definition loop_ctx :: "'k actor_run \<Rightarrow> 'k actor_run" where
  "loop_ctx a = a\<lparr>ar_running := False\<rparr>"

text \<open>Every interleaving of the callers, of the loop, and of what else is done to the network manager.\<close>

inductive actor_step :: "'k deps \<Rightarrow> string \<Rightarrow> 'k actor_run \<Rightarrow> 'k actor_run \<Rightarrow> bool" for d tid where
  do_begin: "call_begin i m a = Some a' \<Longrightarrow> actor_step d tid a a'"
| do_send: "call_send i a = Some a' \<Longrightarrow> actor_step d tid a a'"
| do_ctx: "call_ctx i a = Some a' \<Longrightarrow> actor_step d tid a a'"
| do_receive: "call_receive i a = Some a' \<Longrightarrow> actor_step d tid a a'"
| do_timeout: "call_timeout i a = Some a' \<Longrightarrow> actor_step d tid a a'"
| do_turn: "loop_turn d tid a = Some a' \<Longrightarrow> actor_step d tid a a'"
| do_end: "actor_step d tid a (loop_ctx a)"
| do_other: "nm_step d (ar_nm a) s' \<Longrightarrow> actor_step d tid a (a\<lparr>ar_nm := s'\<rparr>)"

abbreviation actor_steps :: "'k deps \<Rightarrow> string \<Rightarrow> 'k actor_run \<Rightarrow> 'k actor_run \<Rightarrow> bool" where
  "actor_steps d tid \<equiv> (actor_step d tid)\<^sup>*\<^sup>*"

subsection \<open>The invariant\<close>

definition taken :: "actor_phase \<Rightarrow> tenantMsg \<Rightarrow> bool" where
  "taken p m \<longleftrightarrow> p = Waiting m \<or> p = GaveUp m \<or> (\<exists>rp. p = Answered m rp)"

lemma taken_simps [simp]:
  "\<not> taken Idle m" "\<not> taken (Sending m') m" "\<not> taken (CtxEnded m') m" "taken (Waiting m') m \<longleftrightarrow> m' = m" "taken (GaveUp m') m \<longleftrightarrow> m' = m"
  "taken (Answered m' rp) m \<longleftrightarrow> m' = m"
  by (auto simp: taken_def)

definition handled_msgs :: "'k actor_run \<Rightarrow> (nat \<times> tenantMsg) list" where
  "handled_msgs a = map (\<lambda>(i, m, _). (i, m)) (ar_handled a)"

definition actor_inv :: "'k deps \<Rightarrow> string \<Rightarrow> 'k actor_run \<Rightarrow> bool" where
  "actor_inv d tid a \<longleftrightarrow>
     ar_sent a = handled_msgs a @ ar_inbox a \<and> length (ar_inbox a) \<le> ar_cap a \<and> distinct (map fst (ar_sent a)) \<and>
     (\<forall>i m. (i, m) \<in> set (ar_sent a) \<longleftrightarrow> taken (ar_call a i) m) \<and>
     (\<forall>i rp. ar_reply a i = Some rp \<longleftrightarrow> (\<exists>m s. (i, m, s) \<in> set (ar_handled a) \<and> rp = fst (actor_handle d tid m s))) \<and>
     (\<forall>i m rp. ar_call a i = Answered m rp \<longrightarrow> ar_reply a i = Some rp) \<and>
     (\<forall>(i, m, s)\<in>set (butlast (ar_handled a)). msg_kind m \<noteq> msgStop) \<and>
     (ar_running a \<longrightarrow> (\<forall>(i, m, s)\<in>set (ar_handled a). msg_kind m \<noteq> msgStop))"

lemma actor_invD:
  assumes "actor_inv d tid a"
  shows "ar_sent a = handled_msgs a @ ar_inbox a" "length (ar_inbox a) \<le> ar_cap a" "distinct (map fst (ar_sent a))"
    "(i, m) \<in> set (ar_sent a) \<longleftrightarrow> taken (ar_call a i) m"
    "ar_reply a i = Some rp \<longleftrightarrow> (\<exists>m s. (i, m, s) \<in> set (ar_handled a) \<and> rp = fst (actor_handle d tid m s))"
    "ar_call a i = Answered m rp \<Longrightarrow> ar_reply a i = Some rp"
    "(i, m, s) \<in> set (butlast (ar_handled a)) \<Longrightarrow> msg_kind m \<noteq> msgStop"
    "ar_running a \<Longrightarrow> (i, m, s) \<in> set (ar_handled a) \<Longrightarrow> msg_kind m \<noteq> msgStop"
  using assms unfolding actor_inv_def by blast+

lemma actor_invI:
  assumes "ar_sent a = handled_msgs a @ ar_inbox a" "length (ar_inbox a) \<le> ar_cap a" "distinct (map fst (ar_sent a))"
    "\<And>i m. (i, m) \<in> set (ar_sent a) \<longleftrightarrow> taken (ar_call a i) m"
    "\<And>i rp. ar_reply a i = Some rp \<longleftrightarrow> (\<exists>m s. (i, m, s) \<in> set (ar_handled a) \<and> rp = fst (actor_handle d tid m s))"
    "\<And>i m rp. ar_call a i = Answered m rp \<Longrightarrow> ar_reply a i = Some rp"
    "\<And>i m s. (i, m, s) \<in> set (butlast (ar_handled a)) \<Longrightarrow> msg_kind m \<noteq> msgStop"
    "\<And>i m s. ar_running a \<Longrightarrow> (i, m, s) \<in> set (ar_handled a) \<Longrightarrow> msg_kind m \<noteq> msgStop"
  shows "actor_inv d tid a"
  using assms unfolding actor_inv_def by blast

lemma run_simps:
  "ar_sent (a\<lparr>ar_call := c\<rparr>) = ar_sent a" "ar_inbox (a\<lparr>ar_call := c\<rparr>) = ar_inbox a" "ar_cap (a\<lparr>ar_call := c\<rparr>) = ar_cap a"
  "ar_reply (a\<lparr>ar_call := c\<rparr>) = ar_reply a" "ar_handled (a\<lparr>ar_call := c\<rparr>) = ar_handled a" "ar_running (a\<lparr>ar_call := c\<rparr>) = ar_running a"
  "ar_call (a\<lparr>ar_call := c\<rparr>) = c" "handled_msgs (a\<lparr>ar_call := c\<rparr>) = handled_msgs a"
  "handled_msgs (a\<lparr>ar_nm := s\<rparr>) = handled_msgs a" "handled_msgs (a\<lparr>ar_running := b\<rparr>) = handled_msgs a"
  by (simp_all add: handled_msgs_def)

lemma actor_start_inv: "actor_inv d tid (StartTenantActor n s)"
  by (simp add: actor_inv_def StartTenantActor_def handled_msgs_def)

text \<open>A step of a call that takes no message keeps the invariant when the phase is still right.\<close>

lemma phase_inv:
  assumes "actor_inv d tid a" "\<And>m. taken p m \<longleftrightarrow> taken (ar_call a i) m" "\<And>m rp. p = Answered m rp \<Longrightarrow> ar_reply a i = Some rp"
  shows "actor_inv d tid (a\<lparr>ar_call := (ar_call a)(i := p)\<rparr>)"
proof -
  note d = actor_invD [OF assms(1)]
  have "(j, m) \<in> set (ar_sent a) \<longleftrightarrow> taken (((ar_call a)(i := p)) j) m" for j m using d(4) assms(2) by simp
  moreover have "ar_reply a j = Some rp" if "((ar_call a)(i := p)) j = Answered m rp" for j m rp using d(6) assms(3) that by (cases "j = i") auto
  ultimately show ?thesis using assms(1) unfolding actor_inv_def run_simps by blast
qed

lemma send_inv:
  assumes "actor_inv d tid a" "call_send i a = Some a'"
  shows "actor_inv d tid a'"
proof -
  obtain m where m: "ar_call a i = Sending m" "length (ar_inbox a) < ar_cap a"
    and a': "a' = a\<lparr>ar_inbox := ar_inbox a @ [(i, m)], ar_sent := ar_sent a @ [(i, m)], ar_call := (ar_call a)(i := Waiting m)\<rparr>"
    using assms(2) by (auto simp: call_send_def split: actor_phase.splits if_splits)
  note d = actor_invD [OF assms(1)]
  have new: "(i, n) \<notin> set (ar_sent a)" for n using d(4) m(1) by simp
  show ?thesis
  proof (rule actor_invI)
    show "ar_sent a' = handled_msgs a' @ ar_inbox a'" using d(1) by (simp add: a' handled_msgs_def)
    show "distinct (map fst (ar_sent a'))" using d(3) new by (auto simp: a')
    show "(j, n) \<in> set (ar_sent a') \<longleftrightarrow> taken (ar_call a' j) n" for j n using d(4) [of j n] new [of n] by (auto simp: a')
    show "ar_reply a' j = Some rp \<longleftrightarrow> (\<exists>m s. (j, m, s) \<in> set (ar_handled a') \<and> rp = fst (actor_handle d tid m s))" for j rp
      using d(5) by (simp add: a')
    show "ar_reply a' j = Some rp" if "ar_call a' j = Answered n rp" for j n rp using d(6) that by (simp add: a' split: if_splits)
  qed (use d(7,8) m(2) in \<open>auto simp: a'\<close>)
qed

lemma turn_inv:
  assumes inv: "actor_inv d tid a" and t: "loop_turn d tid a = Some a'"
  shows "actor_inv d tid a'"
proof -
  obtain i m q where q: "ar_running a" "ar_inbox a = (i, m) # q"
    and a': "a' = a\<lparr>ar_inbox := q, ar_reply := (ar_reply a)(i \<mapsto> fst (actor_handle d tid m (ar_nm a))), ar_running := msg_kind m \<noteq> msgStop,
       ar_handled := ar_handled a @ [(i, m, ar_nm a)], ar_nm := snd (actor_handle d tid m (ar_nm a))\<rparr>"
    using t by (auto simp: loop_turn_def split: if_splits list.splits prod.splits)
  note d = actor_invD [OF inv]
  have "distinct (map fst (handled_msgs a @ (i, m) # q))" using d(1,3) q(2) by simp
  then have "i \<notin> fst ` set (handled_msgs a)" by auto
  then have new: "(i, m', s) \<notin> set (ar_handled a)" for m' s by (force simp: handled_msgs_def)
  have "handled_msgs a' @ ar_inbox a' = ar_sent a'" using d(1) q(2) by (simp add: a' handled_msgs_def)
  moreover have "length (ar_inbox a') \<le> ar_cap a'" using d(2) q(2) by (simp add: a')
  moreover have "ar_reply a' j = Some rp \<longleftrightarrow> (\<exists>m s. (j, m, s) \<in> set (ar_handled a') \<and> rp = fst (actor_handle d tid m s))" for j rp
    using d(5) [of j rp] new by (auto simp: a')
  moreover have "ar_reply a' j = Some rp" if "ar_call a' j = Answered n rp" for j n rp
  proof -
    have "ar_reply a j = Some rp" using d(6) that by (simp add: a')
    then have "j \<noteq> i" using d(5) new by auto
    then show ?thesis using \<open>ar_reply a j = Some rp\<close> by (simp add: a')
  qed
  ultimately show ?thesis using d(3,4) d(8) [OF q(1)] unfolding actor_inv_def by (auto simp: a')
qed

lemma actor_step_inv: "actor_step d tid a a' \<Longrightarrow> actor_inv d tid a \<Longrightarrow> actor_inv d tid a'"
proof (induction rule: actor_step.induct)
  case (do_begin i m a a')
  then show ?case using phase_inv [of d tid a "Sending m" i] by (auto simp: call_begin_def split: if_splits)
next
  case (do_send i a a')
  then show ?case using send_inv by blast
next
  case (do_ctx i a a')
  then obtain m where "ar_call a i = Sending m" "a' = a\<lparr>ar_call := (ar_call a)(i := CtxEnded m)\<rparr>"
    by (auto simp: call_ctx_def split: actor_phase.splits)
  then show ?case using phase_inv [OF do_ctx(2), of "CtxEnded m" i] by simp
next
  case (do_receive i a a')
  then obtain m rp where "ar_call a i = Waiting m" "ar_reply a i = Some rp" "a' = a\<lparr>ar_call := (ar_call a)(i := Answered m rp)\<rparr>"
    by (auto simp: call_receive_def split: actor_phase.splits option.splits)
  then show ?case using phase_inv [OF do_receive(2), of "Answered m rp" i] by simp
next
  case (do_timeout i a a')
  then obtain m where "ar_call a i = Waiting m" "a' = a\<lparr>ar_call := (ar_call a)(i := GaveUp m)\<rparr>"
    by (auto simp: call_timeout_def split: actor_phase.splits)
  then show ?case using phase_inv [OF do_timeout(2), of "GaveUp m" i] by simp
next
  case (do_turn a a')
  then show ?case using turn_inv by blast
next
  case (do_end a)
  then show ?case unfolding loop_ctx_def actor_inv_def run_simps by (intro conjI; elim conjE) simp_all
next
  case (do_other a s')
  then show ?case unfolding actor_inv_def run_simps by (intro conjI; elim conjE) simp_all
qed

lemma actor_steps_inv: "actor_steps d tid a a' \<Longrightarrow> actor_inv d tid a \<Longrightarrow> actor_inv d tid a'"
  by (induction rule: rtranclp_induct) (auto intro: actor_step_inv)

text \<open>The capacity is fixed, and the network manager only makes its own steps.\<close>

lemma call_keeps:
  "call_begin i m a = Some a' \<Longrightarrow> ar_cap a' = ar_cap a \<and> ar_nm a' = ar_nm a \<and> ar_handled a' = ar_handled a \<and> ar_running a' = ar_running a \<and> ar_reply a' = ar_reply a"
  "call_send i a = Some a' \<Longrightarrow> ar_cap a' = ar_cap a \<and> ar_nm a' = ar_nm a \<and> ar_handled a' = ar_handled a \<and> ar_running a' = ar_running a \<and> ar_reply a' = ar_reply a"
  "call_ctx i a = Some a' \<Longrightarrow> ar_cap a' = ar_cap a \<and> ar_nm a' = ar_nm a \<and> ar_handled a' = ar_handled a \<and> ar_running a' = ar_running a \<and> ar_reply a' = ar_reply a"
  "call_receive i a = Some a' \<Longrightarrow> ar_cap a' = ar_cap a \<and> ar_nm a' = ar_nm a \<and> ar_handled a' = ar_handled a \<and> ar_running a' = ar_running a \<and> ar_reply a' = ar_reply a"
  "call_timeout i a = Some a' \<Longrightarrow> ar_cap a' = ar_cap a \<and> ar_nm a' = ar_nm a \<and> ar_handled a' = ar_handled a \<and> ar_running a' = ar_running a \<and> ar_reply a' = ar_reply a"
  by (auto simp: call_begin_def call_send_def call_ctx_def call_receive_def call_timeout_def split: if_splits actor_phase.splits option.splits)

lemma step_keeps: "actor_step d tid a a' \<Longrightarrow> ar_cap a' = ar_cap a \<and> (nm_step d (ar_nm a) (ar_nm a') \<or> ar_nm a' = ar_nm a)"
proof (induction rule: actor_step.induct)
  case (do_turn a a')
  then show ?case using step_message [of d "ar_nm a" tid]
    by (auto simp: loop_turn_def split: if_splits list.splits prod.splits) (metis snd_conv)
qed (auto dest: call_keeps simp: loop_ctx_def)

lemma steps_keep:
  "actor_steps d tid a a' \<Longrightarrow> nm_reach d root (ar_nm a) \<Longrightarrow> ar_cap a' = ar_cap a \<and> nm_reach d root (ar_nm a')"
proof (induction rule: rtranclp_induct)
  case (step b c)
  then show ?case using step_keeps [OF step(2)] nm_next by metis
qed simp

lemma stopped_step: "actor_step d tid a a' \<Longrightarrow> \<not> ar_running a \<Longrightarrow> \<not> ar_running a' \<and> ar_handled a' = ar_handled a \<and> ar_reply a' = ar_reply a"
proof (induction rule: actor_step.induct)
  case (do_turn a a')
  then show ?case by (simp add: loop_turn_def)
qed (auto dest: call_keeps simp: loop_ctx_def)

lemma stopped_steps:
  "actor_steps d tid a a' \<Longrightarrow> \<not> ar_running a \<Longrightarrow> \<not> ar_running a' \<and> ar_handled a' = ar_handled a \<and> ar_reply a' = ar_reply a"
proof (induction rule: rtranclp_induct)
  case (step b c)
  then show ?case using stopped_step [OF step(2)] by simp
qed simp

lemma stop_answered:
  assumes inv: "actor_inv d tid a" and c: "ar_call a i = Answered m rp" "msg_kind m = msgStop"
  shows "\<not> ar_running a"
proof -
  obtain m' s where h: "(i, m', s) \<in> set (ar_handled a)" using actor_invD(5,6) [OF inv] c(1) by blast
  then have "(i, m') \<in> set (ar_sent a)" unfolding actor_invD(1) [OF inv] handled_msgs_def by force
  then have "m' = m" using actor_invD(4) [OF inv, of i m'] c(1) by simp
  then show ?thesis using actor_invD(8) [OF inv _ h] c(2) by blast
qed

text \<open>The message of a call, and the way of delivery in the sense of \<open>Pod_Ops\<close> that it had.\<close>

fun call_msg :: "actor_phase \<Rightarrow> tenantMsg option" where
  "call_msg Idle = None"
| "call_msg (Sending m) = Some m"
| "call_msg (CtxEnded m) = Some m"
| "call_msg (Waiting m) = Some m"
| "call_msg (GaveUp m) = Some m"
| "call_msg (Answered m rp) = Some m"

definition delivered :: "'k actor_run \<Rightarrow> nat \<Rightarrow> delivery" where
  "delivered a i =
     (case ar_call a i of
        CtxEnded m \<Rightarrow> NotSent
      | Answered m rp \<Rightarrow> Replied
      | _ \<Rightarrow> if i \<in> fst ` set (ar_handled a) then Late else Lost)"

lemma answered_handled:
  assumes inv: "actor_inv d tid a" and c: "ar_call a i = Answered m rp"
  obtains s where "(i, m, s) \<in> set (ar_handled a)" "rp = fst (actor_handle d tid m s)"
proof -
  obtain m' s where h: "(i, m', s) \<in> set (ar_handled a)" "rp = fst (actor_handle d tid m' s)"
    using actor_invD(5,6) [OF inv] c by blast
  have "(i, m') \<in> set (ar_sent a)" using h(1) unfolding actor_invD(1) [OF inv] handled_msgs_def by force
  then have "m' = m" using actor_invD(4) [OF inv, of i m'] c by simp
  then show thesis using that h by blast
qed

lemma gave_up_handled:
  assumes inv: "actor_inv d tid a" and c: "ar_call a i = GaveUp m" and h: "i \<in> fst ` set (ar_handled a)"
  obtains s where "(i, m, s) \<in> set (ar_handled a)"
proof -
  obtain m' s where h: "(i, m', s) \<in> set (ar_handled a)" using h by auto
  then have "(i, m') \<in> set (ar_sent a)" unfolding actor_invD(1) [OF inv] handled_msgs_def by force
  then have "m' = m" using actor_invD(4) [OF inv, of i m'] c by simp
  then show thesis using that h by blast
qed

lemma ctx_ended_unhandled:
  assumes inv: "actor_inv d tid a" and c: "ar_call a i = CtxEnded m"
  shows "i \<notin> fst ` set (ar_handled a)"
proof
  assume "i \<in> fst ` set (ar_handled a)"
  then obtain m' where "(i, m') \<in> set (ar_sent a)" unfolding actor_invD(1) [OF inv] handled_msgs_def by force
  then show False using actor_invD(4) [OF inv, of i m'] c by simp
qed

text \<open>What a call returned is what the call of \<open>Pod_Ops\<close> returns, in the state in which its message was handled if it was.\<close>

lemma returned_call:
  assumes inv: "actor_inv d tid a" and r: "call_result (ar_call a i) = Some r" and m: "call_msg (ar_call a i) = Some m" "msg_kind m \<noteq> msgStop"
  shows "\<exists>s. r = fst (actor_call (delivered a i) Inr d tid m s) \<and> (i \<in> fst ` set (ar_handled a) \<longrightarrow> (i, m, s) \<in> set (ar_handled a)) \<and>
     (i \<in> fst ` set (ar_handled a) \<longleftrightarrow> delivered a i \<in> {Replied, Late})"
proof (cases "ar_call a i")
  case (CtxEnded n)
  then show ?thesis using ctx_ended_unhandled [OF inv] r by (auto simp: delivered_def actor_call_def)
next
  case (GaveUp n)
  show ?thesis
  proof (cases "i \<in> fst ` set (ar_handled a)")
    case True
    then obtain s where "(i, n, s) \<in> set (ar_handled a)" using gave_up_handled [OF inv GaveUp] by blast
    then show ?thesis using GaveUp True r m by (intro exI [of _ s]) (simp add: delivered_def actor_call_def)
  qed (use GaveUp r m in \<open>simp add: delivered_def actor_call_def\<close>)
next
  case (Answered n rp)
  then obtain s where s: "(i, n, s) \<in> set (ar_handled a)" "rp = fst (actor_handle d tid n s)" using answered_handled [OF inv] by metis
  then have "i \<in> fst ` set (ar_handled a)" by force
  then show ?thesis using Answered r m s by (intro exI [of _ s]) (simp add: delivered_def actor_call_def case_prod_beta)
qed (use r in simp_all)


subsection \<open>The loop left alone\<close>

text \<open>The messages up to the first stop, which the loop still handles.\<close>

fun served :: "(nat \<times> tenantMsg) list \<Rightarrow> (nat \<times> tenantMsg) list" where
  "served [] = []"
| "served ((i, m) # q) = (if msg_kind m = msgStop then [(i, m)] else (i, m) # served q)"

lemma served_set: "set (served q) \<subseteq> set q"
  by (induction q rule: served.induct) auto

lemma loop_turns:
  assumes "ar_running a" "distinct (map fst (ar_inbox a))"
  shows "\<exists>a'. actor_steps d tid a a' \<and> handled_msgs a' = handled_msgs a @ served (ar_inbox a) \<and> ar_call a' = ar_call a \<and>
     ar_nm a' = snd (actor_loop d tid (map snd (ar_inbox a)) (ar_nm a)) \<and>
     map (\<lambda>(i, m). ar_reply a' i) (served (ar_inbox a)) = map Some (fst (actor_loop d tid (map snd (ar_inbox a)) (ar_nm a))) \<and>
     (\<forall>i. i \<notin> fst ` set (served (ar_inbox a)) \<longrightarrow> ar_reply a' i = ar_reply a i)"
  using assms
proof (induction "ar_inbox a" arbitrary: a)
  case Nil
  then show ?case by (intro exI [of _ a]) simp
next
  case (Cons e q)
  obtain i m where e: "e = (i, m)" by fastforce
  obtain rp s1 where h: "actor_handle d tid m (ar_nm a) = (rp, s1)" by fastforce
  define b where "b = a\<lparr>ar_inbox := q, ar_reply := (ar_reply a)(i \<mapsto> rp), ar_running := msg_kind m \<noteq> msgStop,
    ar_handled := ar_handled a @ [(i, m, ar_nm a)], ar_nm := s1\<rparr>"
  have "loop_turn d tid a = Some b" using Cons.prems(1) Cons.hyps(2) [symmetric] e h by (simp add: loop_turn_def b_def)
  then have st: "actor_step d tid a b" by (rule do_turn)
  have hb: "handled_msgs b = handled_msgs a @ [(i, m)]" by (simp add: b_def handled_msgs_def)
  show ?case
  proof (cases "msg_kind m = msgStop")
    case True
    then show ?thesis using st hb Cons.hyps(2) [symmetric] e h by (intro exI [of _ b]) (simp add: b_def)
  next
    case False
    have q: "q = ar_inbox b" "ar_running b" "distinct (map fst (ar_inbox b))" "i \<notin> fst ` set q"
      using False Cons.prems(2) Cons.hyps(2) [symmetric] e by (simp_all add: b_def)
    obtain a' where a': "actor_steps d tid b a'" "handled_msgs a' = handled_msgs b @ served q" "ar_call a' = ar_call b"
      "ar_nm a' = snd (actor_loop d tid (map snd q) (ar_nm b))"
      "map (\<lambda>(i, m). ar_reply a' i) (served q) = map Some (fst (actor_loop d tid (map snd q) (ar_nm b)))"
      "\<forall>j. j \<notin> fst ` set (served q) \<longrightarrow> ar_reply a' j = ar_reply b j"
      using Cons.hyps(1) [OF q(1-3)] q(1) by metis
    have "i \<notin> fst ` set (served q)" using q(4) served_set [of q] by auto
    then have "ar_reply a' i = Some rp" using a'(6) by (simp add: b_def)
    then show ?thesis using a' st hb False Cons.hyps(2) [symmetric] e h
      by (intro exI [of _ a']) (auto simp: b_def case_prod_beta intro: converse_rtranclp_into_rtranclp)
  qed
qed


subsection \<open>A run\<close>

text \<open>
  On the node of \<open>NM_Demo\<close>: a pod is attached, then the actor is stopped while a second call is under way; the second call is never handled.
\<close>

definition demo_stop :: tenantMsg where
  "demo_stop = \<lparr>msg_kind = msgStop, msg_args = demo_args []\<rparr>"

definition demo_attach :: "string \<Rightarrow> tenantMsg" where
  "demo_attach p = \<lparr>msg_kind = msgEnsure, msg_args = demo_args p\<rparr>"

fun play :: "('k actor_run \<Rightarrow> 'k actor_run option) list \<Rightarrow> 'k actor_run \<Rightarrow> 'k actor_run option" where
  "play [] a = Some a"
| "play (f # fs) a = (case f a of None \<Rightarrow> None | Some b \<Rightarrow> play fs b)"

definition demo_calls :: "(unit actor_run \<Rightarrow> unit actor_run option) list" where
  "demo_calls = [call_begin 0 (demo_attach ''p''), call_begin 1 demo_stop, call_begin 2 (demo_attach ''q''), call_send 0, call_send 1]"

definition demo_ends :: "(unit actor_run \<Rightarrow> unit actor_run option) list" where
  "demo_ends = [loop_turn demo_deps ''blue'', call_receive 0, call_send 2, loop_turn demo_deps ''blue'', call_receive 1, call_timeout 2]"

lemma play_steps:
  assumes "play fs a = Some b" "\<And>f a b. f \<in> set fs \<Longrightarrow> f a = Some b \<Longrightarrow> actor_step d tid a b"
  shows "actor_steps d tid a b"
  using assms
proof (induction fs a rule: play.induct)
  case (2 f fs a)
  then obtain c where "f a = Some c" "play fs c = Some b" by (auto split: option.splits)
  then show ?case using 2 by (meson converse_rtranclp_into_rtranclp list.set_intros)
qed simp

lemma demo_steps: "f \<in> set (demo_calls @ demo_ends) \<Longrightarrow> f a = Some b \<Longrightarrow> actor_step demo_deps ''blue'' a b"
  by (auto simp: demo_calls_def demo_ends_def intro: actor_step.intros)

lemmas demo_run = call_begin_def call_send_def call_receive_def call_timeout_def loop_turn_def StartTenantActor_def mailbox_size_def
  demo_calls_def demo_ends_def demo_stop_def demo_attach_def



end
