(* ===== verification/Apply_Config.thy ===== *)
theory Apply_Config
  imports Informers
begin

text \<open>
  The apply configurations of \<open>pkg/generated/applyconfiguration\<close>, with which a client states the part of an object that it wants to own. A
  field that was not set is nil, here \<open>None\<close>; the methods \<open>With...\<close> change the configuration and return it, so that calls are chained. A chain that
  passes nil to one of the appending methods panics, here \<open>None\<close>. The configurations of owner references and conditions and the type of times are types of
  apimachinery: the parameters \<open>'r\<close>, \<open>'c\<close> and \<open>'t\<close>. It is shown that a chain gives what the comments on the methods promise.
\<close>

subsection \<open>Loops of the methods\<close>

text \<open>\<open>for i := range values { if values[i] == nil { panic } ... append }\<close>.\<close>

primrec add_values :: "'a list \<Rightarrow> 'a option list \<Rightarrow> 'a list option" where
  "add_values xs [] = Some xs"
| "add_values xs (v # vs) = (case v of None \<Rightarrow> None | Some x \<Rightarrow> add_values (xs @ [x]) vs)"

text \<open>A map is made when there is none and something to put into it.\<close>

definition put_entries :: "(string \<rightharpoonup> 'v) option \<Rightarrow> (string \<times> 'v) list \<Rightarrow> (string \<rightharpoonup> 'v) option" where
  "put_entries m entries =
     (let m1 = (if m = None \<and> length entries > 0 then Some Map.empty else m)
      in map_option (fold (\<lambda>(k, v) t. t(k \<mapsto> v)) entries) m1)"

subsection \<open>The parts\<close>

record NodeInfoApplyConfiguration =
  na_Name :: "string option"
  na_NodeIP :: "string option"
  na_TenantCIDR :: "string option"
  na_VtepIP :: "string option"
  na_VtepMAC :: "string option"

definition NodeInfoApply :: NodeInfoApplyConfiguration where
  "NodeInfoApply = \<lparr>na_Name = None, na_NodeIP = None, na_TenantCIDR = None, na_VtepIP = None, na_VtepMAC = None\<rparr>"

definition NodeInfoApply_WithName :: "string \<Rightarrow> NodeInfoApplyConfiguration \<Rightarrow> NodeInfoApplyConfiguration" where
  "NodeInfoApply_WithName value b = b\<lparr>na_Name := Some value\<rparr>"

definition NodeInfoApply_WithNodeIP :: "string \<Rightarrow> NodeInfoApplyConfiguration \<Rightarrow> NodeInfoApplyConfiguration" where
  "NodeInfoApply_WithNodeIP value b = b\<lparr>na_NodeIP := Some value\<rparr>"

definition NodeInfoApply_WithTenantCIDR :: "string \<Rightarrow> NodeInfoApplyConfiguration \<Rightarrow> NodeInfoApplyConfiguration" where
  "NodeInfoApply_WithTenantCIDR value b = b\<lparr>na_TenantCIDR := Some value\<rparr>"

definition NodeInfoApply_WithVtepIP :: "string \<Rightarrow> NodeInfoApplyConfiguration \<Rightarrow> NodeInfoApplyConfiguration" where
  "NodeInfoApply_WithVtepIP value b = b\<lparr>na_VtepIP := Some value\<rparr>"

definition NodeInfoApply_WithVtepMAC :: "string \<Rightarrow> NodeInfoApplyConfiguration \<Rightarrow> NodeInfoApplyConfiguration" where
  "NodeInfoApply_WithVtepMAC value b = b\<lparr>na_VtepMAC := Some value\<rparr>"

record Pod_InfoApplyConfiguration =
  pa_Pod_Name :: "string option"
  pa_IP :: "string option"

definition Pod_InfoApply :: Pod_InfoApplyConfiguration where
  "Pod_InfoApply = \<lparr>pa_Pod_Name = None, pa_IP = None\<rparr>"

definition Pod_InfoApply_WithName :: "string \<Rightarrow> Pod_InfoApplyConfiguration \<Rightarrow> Pod_InfoApplyConfiguration" where
  "Pod_InfoApply_WithName value b = b\<lparr>pa_Pod_Name := Some value\<rparr>"

definition Pod_InfoApply_WithIP :: "string \<Rightarrow> Pod_InfoApplyConfiguration \<Rightarrow> Pod_InfoApplyConfiguration" where
  "Pod_InfoApply_WithIP value b = b\<lparr>pa_IP := Some value\<rparr>"

record TenantInfraApplyConfiguration =
  ia_Name :: "string option"
  ia_TenantCIDR :: "string option"
  ia_VTEP_NAME :: "string option"
  ia_VNI :: "int option"
  ia_VTEP_IP :: "string option"
  ia_VTEP_MAC :: "string option"
  ia_BRIDGE_NAME :: "string option"
  ia_BRIDGE_IP :: "string option"
  ia_BRIDGE_MAC :: "string option"
  ia_Pods :: "Pod_InfoApplyConfiguration list"

definition TenantInfraApply :: TenantInfraApplyConfiguration where
  "TenantInfraApply = \<lparr>ia_Name = None, ia_TenantCIDR = None, ia_VTEP_NAME = None, ia_VNI = None, ia_VTEP_IP = None, ia_VTEP_MAC = None, ia_BRIDGE_NAME = None, ia_BRIDGE_IP = None, ia_BRIDGE_MAC = None,
     ia_Pods = []\<rparr>"

definition TenantInfraApply_WithName :: "string \<Rightarrow> TenantInfraApplyConfiguration \<Rightarrow> TenantInfraApplyConfiguration" where
  "TenantInfraApply_WithName value b = b\<lparr>ia_Name := Some value\<rparr>"

definition TenantInfraApply_WithTenantCIDR :: "string \<Rightarrow> TenantInfraApplyConfiguration \<Rightarrow> TenantInfraApplyConfiguration" where
  "TenantInfraApply_WithTenantCIDR value b = b\<lparr>ia_TenantCIDR := Some value\<rparr>"

definition TenantInfraApply_WithVTEP_NAME :: "string \<Rightarrow> TenantInfraApplyConfiguration \<Rightarrow> TenantInfraApplyConfiguration" where
  "TenantInfraApply_WithVTEP_NAME value b = b\<lparr>ia_VTEP_NAME := Some value\<rparr>"

definition TenantInfraApply_WithVNI :: "int \<Rightarrow> TenantInfraApplyConfiguration \<Rightarrow> TenantInfraApplyConfiguration" where
  "TenantInfraApply_WithVNI value b = b\<lparr>ia_VNI := Some value\<rparr>"

definition TenantInfraApply_WithVTEP_IP :: "string \<Rightarrow> TenantInfraApplyConfiguration \<Rightarrow> TenantInfraApplyConfiguration" where
  "TenantInfraApply_WithVTEP_IP value b = b\<lparr>ia_VTEP_IP := Some value\<rparr>"

definition TenantInfraApply_WithVTEP_MAC :: "string \<Rightarrow> TenantInfraApplyConfiguration \<Rightarrow> TenantInfraApplyConfiguration" where
  "TenantInfraApply_WithVTEP_MAC value b = b\<lparr>ia_VTEP_MAC := Some value\<rparr>"

definition TenantInfraApply_WithBRIDGE_NAME :: "string \<Rightarrow> TenantInfraApplyConfiguration \<Rightarrow> TenantInfraApplyConfiguration" where
  "TenantInfraApply_WithBRIDGE_NAME value b = b\<lparr>ia_BRIDGE_NAME := Some value\<rparr>"

definition TenantInfraApply_WithBRIDGE_IP :: "string \<Rightarrow> TenantInfraApplyConfiguration \<Rightarrow> TenantInfraApplyConfiguration" where
  "TenantInfraApply_WithBRIDGE_IP value b = b\<lparr>ia_BRIDGE_IP := Some value\<rparr>"

definition TenantInfraApply_WithBRIDGE_MAC :: "string \<Rightarrow> TenantInfraApplyConfiguration \<Rightarrow> TenantInfraApplyConfiguration" where
  "TenantInfraApply_WithBRIDGE_MAC value b = b\<lparr>ia_BRIDGE_MAC := Some value\<rparr>"

definition TenantInfraApply_WithPods :: "Pod_InfoApplyConfiguration option list \<Rightarrow> TenantInfraApplyConfiguration \<Rightarrow> TenantInfraApplyConfiguration option" where
  "TenantInfraApply_WithPods values b = map_option (\<lambda>ps. b\<lparr>ia_Pods := ps\<rparr>) (add_values (ia_Pods b) values)"

record TenantSpecApplyConfiguration =
  sa_Name :: "string option"
  sa_Zones :: "int option"

definition TenantSpecApply :: TenantSpecApplyConfiguration where
  "TenantSpecApply = \<lparr>sa_Name = None, sa_Zones = None\<rparr>"

definition TenantSpecApply_WithName :: "string \<Rightarrow> TenantSpecApplyConfiguration \<Rightarrow> TenantSpecApplyConfiguration" where
  "TenantSpecApply_WithName value b = b\<lparr>sa_Name := Some value\<rparr>"

definition TenantSpecApply_WithZones :: "int \<Rightarrow> TenantSpecApplyConfiguration \<Rightarrow> TenantSpecApplyConfiguration" where
  "TenantSpecApply_WithZones value b = b\<lparr>sa_Zones := Some value\<rparr>"

record 'c TenantStatusApplyConfiguration =
  ua_AssignedNodes :: "NodeInfoApplyConfiguration list"
  ua_Paused :: "bool option"
  ua_AwaitingNodeConfiguration :: "string list"
  ua_Conditions :: "'c list"

definition TenantStatusApply :: "'c TenantStatusApplyConfiguration" where
  "TenantStatusApply = \<lparr>ua_AssignedNodes = [], ua_Paused = None, ua_AwaitingNodeConfiguration = [], ua_Conditions = []\<rparr>"

definition TenantStatusApply_WithAssignedNodes :: "NodeInfoApplyConfiguration option list \<Rightarrow> 'c TenantStatusApplyConfiguration \<Rightarrow> 'c TenantStatusApplyConfiguration option" where
  "TenantStatusApply_WithAssignedNodes values b = map_option (\<lambda>ns. b\<lparr>ua_AssignedNodes := ns\<rparr>) (add_values (ua_AssignedNodes b) values)"

definition TenantStatusApply_WithPaused :: "bool \<Rightarrow> 'c TenantStatusApplyConfiguration \<Rightarrow> 'c TenantStatusApplyConfiguration" where
  "TenantStatusApply_WithPaused value b = b\<lparr>ua_Paused := Some value\<rparr>"

definition TenantStatusApply_WithAwaitingNodeConfiguration :: "string list \<Rightarrow> 'c TenantStatusApplyConfiguration \<Rightarrow> 'c TenantStatusApplyConfiguration" where
  "TenantStatusApply_WithAwaitingNodeConfiguration values b = b\<lparr>ua_AwaitingNodeConfiguration := fold (\<lambda>v xs. xs @ [v]) values (ua_AwaitingNodeConfiguration b)\<rparr>"

definition TenantStatusApply_WithConditions :: "'c option list \<Rightarrow> 'c TenantStatusApplyConfiguration \<Rightarrow> 'c TenantStatusApplyConfiguration option" where
  "TenantStatusApply_WithConditions values b = map_option (\<lambda>cs. b\<lparr>ua_Conditions := cs\<rparr>) (add_values (ua_Conditions b) values)"

record NodeStoreSpecApplyConfiguration =
  qa_Name :: "string option"
  qa_NodeIP :: "string option"
  qa_Selectors :: "(string \<rightharpoonup> string) option"

definition NodeStoreSpecApply :: NodeStoreSpecApplyConfiguration where
  "NodeStoreSpecApply = \<lparr>qa_Name = None, qa_NodeIP = None, qa_Selectors = None\<rparr>"

definition NodeStoreSpecApply_WithName :: "string \<Rightarrow> NodeStoreSpecApplyConfiguration \<Rightarrow> NodeStoreSpecApplyConfiguration" where
  "NodeStoreSpecApply_WithName value b = b\<lparr>qa_Name := Some value\<rparr>"

definition NodeStoreSpecApply_WithNodeIP :: "string \<Rightarrow> NodeStoreSpecApplyConfiguration \<Rightarrow> NodeStoreSpecApplyConfiguration" where
  "NodeStoreSpecApply_WithNodeIP value b = b\<lparr>qa_NodeIP := Some value\<rparr>"

definition NodeStoreSpecApply_WithSelectors :: "(string \<times> string) list \<Rightarrow> NodeStoreSpecApplyConfiguration \<Rightarrow> NodeStoreSpecApplyConfiguration" where
  "NodeStoreSpecApply_WithSelectors entries b = b\<lparr>qa_Selectors := put_entries (qa_Selectors b) entries\<rparr>"

record NodeStoreStatusApplyConfiguration =
  wa_Tenants :: "(string \<rightharpoonup> TenantInfraApplyConfiguration) option"

definition NodeStoreStatusApply :: NodeStoreStatusApplyConfiguration where
  "NodeStoreStatusApply = \<lparr>wa_Tenants = None\<rparr>"

definition NodeStoreStatusApply_WithTenants :: "(string \<times> TenantInfraApplyConfiguration) list \<Rightarrow> NodeStoreStatusApplyConfiguration \<Rightarrow> NodeStoreStatusApplyConfiguration" where
  "NodeStoreStatusApply_WithTenants entries b = b\<lparr>wa_Tenants := put_entries (wa_Tenants b) entries\<rparr>"

subsection \<open>Tenants and node stores\<close>

text \<open>Both kinds of object start with the same two parts.\<close>

record ('t, 'r) ObjectMetaApplyConfiguration =
  ma_Name :: "string option"
  ma_GenerateName :: "string option"
  ma_Namespace :: "string option"
  ma_UID :: "string option"
  ma_ResourceVersion :: "string option"
  ma_Generation :: "int option"
  ma_CreationTimestamp :: "'t option"
  ma_DeletionTimestamp :: "'t option"
  ma_DeletionGracePeriodSeconds :: "int option"
  ma_Labels :: "(string \<rightharpoonup> string) option"
  ma_Annotations :: "(string \<rightharpoonup> string) option"
  ma_OwnerReferences :: "'r list"
  ma_Finalizers :: "string list"

definition empty_meta :: "('t, 'r) ObjectMetaApplyConfiguration" where
  "empty_meta = \<lparr>ma_Name = None, ma_GenerateName = None, ma_Namespace = None, ma_UID = None, ma_ResourceVersion = None, ma_Generation = None, ma_CreationTimestamp = None, ma_DeletionTimestamp = None, ma_DeletionGracePeriodSeconds = None,
     ma_Labels = None, ma_Annotations = None, ma_OwnerReferences = [], ma_Finalizers = []\<rparr>"

record ('t, 'r) apply_base =
  ab_Kind :: "string option"
  ab_APIVersion :: "string option"
  ab_Meta :: "('t, 'r) ObjectMetaApplyConfiguration option"

record ('t, 'r, 'c) TenantApplyConfiguration = "('t, 'r) apply_base" +
  ta_Spec :: "TenantSpecApplyConfiguration option"
  ta_Status :: "'c TenantStatusApplyConfiguration option"

record ('t, 'r) NodeStoreApplyConfiguration = "('t, 'r) apply_base" +
  oa_Spec :: "NodeStoreSpecApplyConfiguration option"
  oa_Status :: "NodeStoreStatusApplyConfiguration option"

text \<open>A change of the metadata that are there.\<close>

definition on_meta :: "(('t, 'r) ObjectMetaApplyConfiguration \<Rightarrow> ('t, 'r) ObjectMetaApplyConfiguration) \<Rightarrow> ('t, 'r, 'z) apply_base_scheme \<Rightarrow> ('t, 'r, 'z) apply_base_scheme" where
  "on_meta f b = b\<lparr>ab_Meta := map_option f (ab_Meta b)\<rparr>"

definition TenantApply_ensureMeta :: "('t, 'r, 'c) TenantApplyConfiguration \<Rightarrow> ('t, 'r, 'c) TenantApplyConfiguration" where
  "TenantApply_ensureMeta b = (if ab_Meta b = None then b\<lparr>ab_Meta := Some empty_meta\<rparr> else b)"

definition TenantApply_WithKind :: "string \<Rightarrow> ('t, 'r, 'c) TenantApplyConfiguration \<Rightarrow> ('t, 'r, 'c) TenantApplyConfiguration" where
  "TenantApply_WithKind value b = b\<lparr>ab_Kind := Some value\<rparr>"

definition TenantApply_WithAPIVersion :: "string \<Rightarrow> ('t, 'r, 'c) TenantApplyConfiguration \<Rightarrow> ('t, 'r, 'c) TenantApplyConfiguration" where
  "TenantApply_WithAPIVersion value b = b\<lparr>ab_APIVersion := Some value\<rparr>"

definition TenantApply_WithName :: "string \<Rightarrow> ('t, 'r, 'c) TenantApplyConfiguration \<Rightarrow> ('t, 'r, 'c) TenantApplyConfiguration" where
  "TenantApply_WithName value b = on_meta (\<lambda>m. m\<lparr>ma_Name := Some value\<rparr>) (TenantApply_ensureMeta b)"

definition TenantApply_WithGenerateName :: "string \<Rightarrow> ('t, 'r, 'c) TenantApplyConfiguration \<Rightarrow> ('t, 'r, 'c) TenantApplyConfiguration" where
  "TenantApply_WithGenerateName value b = on_meta (\<lambda>m. m\<lparr>ma_GenerateName := Some value\<rparr>) (TenantApply_ensureMeta b)"

definition TenantApply_WithNamespace :: "string \<Rightarrow> ('t, 'r, 'c) TenantApplyConfiguration \<Rightarrow> ('t, 'r, 'c) TenantApplyConfiguration" where
  "TenantApply_WithNamespace value b = on_meta (\<lambda>m. m\<lparr>ma_Namespace := Some value\<rparr>) (TenantApply_ensureMeta b)"

definition TenantApply_WithUID :: "string \<Rightarrow> ('t, 'r, 'c) TenantApplyConfiguration \<Rightarrow> ('t, 'r, 'c) TenantApplyConfiguration" where
  "TenantApply_WithUID value b = on_meta (\<lambda>m. m\<lparr>ma_UID := Some value\<rparr>) (TenantApply_ensureMeta b)"

definition TenantApply_WithResourceVersion :: "string \<Rightarrow> ('t, 'r, 'c) TenantApplyConfiguration \<Rightarrow> ('t, 'r, 'c) TenantApplyConfiguration" where
  "TenantApply_WithResourceVersion value b = on_meta (\<lambda>m. m\<lparr>ma_ResourceVersion := Some value\<rparr>) (TenantApply_ensureMeta b)"

definition TenantApply_WithGeneration :: "int \<Rightarrow> ('t, 'r, 'c) TenantApplyConfiguration \<Rightarrow> ('t, 'r, 'c) TenantApplyConfiguration" where
  "TenantApply_WithGeneration value b = on_meta (\<lambda>m. m\<lparr>ma_Generation := Some value\<rparr>) (TenantApply_ensureMeta b)"

definition TenantApply_WithCreationTimestamp :: "'t \<Rightarrow> ('t, 'r, 'c) TenantApplyConfiguration \<Rightarrow> ('t, 'r, 'c) TenantApplyConfiguration" where
  "TenantApply_WithCreationTimestamp value b = on_meta (\<lambda>m. m\<lparr>ma_CreationTimestamp := Some value\<rparr>) (TenantApply_ensureMeta b)"

definition TenantApply_WithDeletionTimestamp :: "'t \<Rightarrow> ('t, 'r, 'c) TenantApplyConfiguration \<Rightarrow> ('t, 'r, 'c) TenantApplyConfiguration" where
  "TenantApply_WithDeletionTimestamp value b = on_meta (\<lambda>m. m\<lparr>ma_DeletionTimestamp := Some value\<rparr>) (TenantApply_ensureMeta b)"

definition TenantApply_WithDeletionGracePeriodSeconds :: "int \<Rightarrow> ('t, 'r, 'c) TenantApplyConfiguration \<Rightarrow> ('t, 'r, 'c) TenantApplyConfiguration" where
  "TenantApply_WithDeletionGracePeriodSeconds value b = on_meta (\<lambda>m. m\<lparr>ma_DeletionGracePeriodSeconds := Some value\<rparr>) (TenantApply_ensureMeta b)"

definition TenantApply_WithLabels :: "(string \<times> string) list \<Rightarrow> ('t, 'r, 'c) TenantApplyConfiguration \<Rightarrow> ('t, 'r, 'c) TenantApplyConfiguration" where
  "TenantApply_WithLabels entries b = on_meta (\<lambda>m. m\<lparr>ma_Labels := put_entries (ma_Labels m) entries\<rparr>) (TenantApply_ensureMeta b)"

definition TenantApply_WithAnnotations :: "(string \<times> string) list \<Rightarrow> ('t, 'r, 'c) TenantApplyConfiguration \<Rightarrow> ('t, 'r, 'c) TenantApplyConfiguration" where
  "TenantApply_WithAnnotations entries b = on_meta (\<lambda>m. m\<lparr>ma_Annotations := put_entries (ma_Annotations m) entries\<rparr>) (TenantApply_ensureMeta b)"

definition TenantApply_WithOwnerReferences :: "'r option list \<Rightarrow> ('t, 'r, 'c) TenantApplyConfiguration \<Rightarrow> ('t, 'r, 'c) TenantApplyConfiguration option" where
  "TenantApply_WithOwnerReferences values b =
     (let b1 = TenantApply_ensureMeta b in
      map_option (\<lambda>rs. on_meta (\<lambda>m. m\<lparr>ma_OwnerReferences := rs\<rparr>) b1) (add_values (ma_OwnerReferences (the (ab_Meta b1))) values))"

definition TenantApply_WithFinalizers :: "string list \<Rightarrow> ('t, 'r, 'c) TenantApplyConfiguration \<Rightarrow> ('t, 'r, 'c) TenantApplyConfiguration" where
  "TenantApply_WithFinalizers values b = on_meta (\<lambda>m. m\<lparr>ma_Finalizers := fold (\<lambda>v xs. xs @ [v]) values (ma_Finalizers m)\<rparr>) (TenantApply_ensureMeta b)"

definition TenantApply_WithSpec :: "TenantSpecApplyConfiguration option \<Rightarrow> ('t, 'r, 'c) TenantApplyConfiguration \<Rightarrow> ('t, 'r, 'c) TenantApplyConfiguration" where
  "TenantApply_WithSpec value b = b\<lparr>ta_Spec := value\<rparr>"

definition TenantApply_WithStatus :: "'c TenantStatusApplyConfiguration option \<Rightarrow> ('t, 'r, 'c) TenantApplyConfiguration \<Rightarrow> ('t, 'r, 'c) TenantApplyConfiguration" where
  "TenantApply_WithStatus value b = b\<lparr>ta_Status := value\<rparr>"

text \<open>\<open>GetName\<close> also makes the metadata when there are none.\<close>

definition TenantApply_GetName :: "('t, 'r, 'c) TenantApplyConfiguration \<Rightarrow> string option \<times> ('t, 'r, 'c) TenantApplyConfiguration" where
  "TenantApply_GetName b = (let b1 = TenantApply_ensureMeta b in (ma_Name (the (ab_Meta b1)), b1))"

definition TenantApply :: "string \<Rightarrow> string \<Rightarrow> ('t, 'r, 'c) TenantApplyConfiguration" where
  "TenantApply name namespace =
     TenantApply_WithAPIVersion ''setera.com/v1'' (TenantApply_WithKind ''Tenant'' (TenantApply_WithNamespace namespace (TenantApply_WithName name
       \<lparr>ab_Kind = None, ab_APIVersion = None, ab_Meta = None, ta_Spec = None, ta_Status = None\<rparr>)))"

definition NodeStoreApply_ensureMeta :: "('t, 'r) NodeStoreApplyConfiguration \<Rightarrow> ('t, 'r) NodeStoreApplyConfiguration" where
  "NodeStoreApply_ensureMeta b = (if ab_Meta b = None then b\<lparr>ab_Meta := Some empty_meta\<rparr> else b)"

definition NodeStoreApply_WithKind :: "string \<Rightarrow> ('t, 'r) NodeStoreApplyConfiguration \<Rightarrow> ('t, 'r) NodeStoreApplyConfiguration" where
  "NodeStoreApply_WithKind value b = b\<lparr>ab_Kind := Some value\<rparr>"

definition NodeStoreApply_WithAPIVersion :: "string \<Rightarrow> ('t, 'r) NodeStoreApplyConfiguration \<Rightarrow> ('t, 'r) NodeStoreApplyConfiguration" where
  "NodeStoreApply_WithAPIVersion value b = b\<lparr>ab_APIVersion := Some value\<rparr>"

definition NodeStoreApply_WithName :: "string \<Rightarrow> ('t, 'r) NodeStoreApplyConfiguration \<Rightarrow> ('t, 'r) NodeStoreApplyConfiguration" where
  "NodeStoreApply_WithName value b = on_meta (\<lambda>m. m\<lparr>ma_Name := Some value\<rparr>) (NodeStoreApply_ensureMeta b)"

definition NodeStoreApply_WithGenerateName :: "string \<Rightarrow> ('t, 'r) NodeStoreApplyConfiguration \<Rightarrow> ('t, 'r) NodeStoreApplyConfiguration" where
  "NodeStoreApply_WithGenerateName value b = on_meta (\<lambda>m. m\<lparr>ma_GenerateName := Some value\<rparr>) (NodeStoreApply_ensureMeta b)"

definition NodeStoreApply_WithNamespace :: "string \<Rightarrow> ('t, 'r) NodeStoreApplyConfiguration \<Rightarrow> ('t, 'r) NodeStoreApplyConfiguration" where
  "NodeStoreApply_WithNamespace value b = on_meta (\<lambda>m. m\<lparr>ma_Namespace := Some value\<rparr>) (NodeStoreApply_ensureMeta b)"

definition NodeStoreApply_WithUID :: "string \<Rightarrow> ('t, 'r) NodeStoreApplyConfiguration \<Rightarrow> ('t, 'r) NodeStoreApplyConfiguration" where
  "NodeStoreApply_WithUID value b = on_meta (\<lambda>m. m\<lparr>ma_UID := Some value\<rparr>) (NodeStoreApply_ensureMeta b)"

definition NodeStoreApply_WithResourceVersion :: "string \<Rightarrow> ('t, 'r) NodeStoreApplyConfiguration \<Rightarrow> ('t, 'r) NodeStoreApplyConfiguration" where
  "NodeStoreApply_WithResourceVersion value b = on_meta (\<lambda>m. m\<lparr>ma_ResourceVersion := Some value\<rparr>) (NodeStoreApply_ensureMeta b)"

definition NodeStoreApply_WithGeneration :: "int \<Rightarrow> ('t, 'r) NodeStoreApplyConfiguration \<Rightarrow> ('t, 'r) NodeStoreApplyConfiguration" where
  "NodeStoreApply_WithGeneration value b = on_meta (\<lambda>m. m\<lparr>ma_Generation := Some value\<rparr>) (NodeStoreApply_ensureMeta b)"

definition NodeStoreApply_WithCreationTimestamp :: "'t \<Rightarrow> ('t, 'r) NodeStoreApplyConfiguration \<Rightarrow> ('t, 'r) NodeStoreApplyConfiguration" where
  "NodeStoreApply_WithCreationTimestamp value b = on_meta (\<lambda>m. m\<lparr>ma_CreationTimestamp := Some value\<rparr>) (NodeStoreApply_ensureMeta b)"

definition NodeStoreApply_WithDeletionTimestamp :: "'t \<Rightarrow> ('t, 'r) NodeStoreApplyConfiguration \<Rightarrow> ('t, 'r) NodeStoreApplyConfiguration" where
  "NodeStoreApply_WithDeletionTimestamp value b = on_meta (\<lambda>m. m\<lparr>ma_DeletionTimestamp := Some value\<rparr>) (NodeStoreApply_ensureMeta b)"

definition NodeStoreApply_WithDeletionGracePeriodSeconds :: "int \<Rightarrow> ('t, 'r) NodeStoreApplyConfiguration \<Rightarrow> ('t, 'r) NodeStoreApplyConfiguration" where
  "NodeStoreApply_WithDeletionGracePeriodSeconds value b = on_meta (\<lambda>m. m\<lparr>ma_DeletionGracePeriodSeconds := Some value\<rparr>) (NodeStoreApply_ensureMeta b)"

definition NodeStoreApply_WithLabels :: "(string \<times> string) list \<Rightarrow> ('t, 'r) NodeStoreApplyConfiguration \<Rightarrow> ('t, 'r) NodeStoreApplyConfiguration" where
  "NodeStoreApply_WithLabels entries b = on_meta (\<lambda>m. m\<lparr>ma_Labels := put_entries (ma_Labels m) entries\<rparr>) (NodeStoreApply_ensureMeta b)"

definition NodeStoreApply_WithAnnotations :: "(string \<times> string) list \<Rightarrow> ('t, 'r) NodeStoreApplyConfiguration \<Rightarrow> ('t, 'r) NodeStoreApplyConfiguration" where
  "NodeStoreApply_WithAnnotations entries b = on_meta (\<lambda>m. m\<lparr>ma_Annotations := put_entries (ma_Annotations m) entries\<rparr>) (NodeStoreApply_ensureMeta b)"

definition NodeStoreApply_WithOwnerReferences :: "'r option list \<Rightarrow> ('t, 'r) NodeStoreApplyConfiguration \<Rightarrow> ('t, 'r) NodeStoreApplyConfiguration option" where
  "NodeStoreApply_WithOwnerReferences values b =
     (let b1 = NodeStoreApply_ensureMeta b in
      map_option (\<lambda>rs. on_meta (\<lambda>m. m\<lparr>ma_OwnerReferences := rs\<rparr>) b1) (add_values (ma_OwnerReferences (the (ab_Meta b1))) values))"

definition NodeStoreApply_WithFinalizers :: "string list \<Rightarrow> ('t, 'r) NodeStoreApplyConfiguration \<Rightarrow> ('t, 'r) NodeStoreApplyConfiguration" where
  "NodeStoreApply_WithFinalizers values b = on_meta (\<lambda>m. m\<lparr>ma_Finalizers := fold (\<lambda>v xs. xs @ [v]) values (ma_Finalizers m)\<rparr>) (NodeStoreApply_ensureMeta b)"

definition NodeStoreApply_WithSpec :: "NodeStoreSpecApplyConfiguration option \<Rightarrow> ('t, 'r) NodeStoreApplyConfiguration \<Rightarrow> ('t, 'r) NodeStoreApplyConfiguration" where
  "NodeStoreApply_WithSpec value b = b\<lparr>oa_Spec := value\<rparr>"

definition NodeStoreApply_WithStatus :: "NodeStoreStatusApplyConfiguration option \<Rightarrow> ('t, 'r) NodeStoreApplyConfiguration \<Rightarrow> ('t, 'r) NodeStoreApplyConfiguration" where
  "NodeStoreApply_WithStatus value b = b\<lparr>oa_Status := value\<rparr>"

text \<open>\<open>GetName\<close> also makes the metadata when there are none.\<close>

definition NodeStoreApply_GetName :: "('t, 'r) NodeStoreApplyConfiguration \<Rightarrow> string option \<times> ('t, 'r) NodeStoreApplyConfiguration" where
  "NodeStoreApply_GetName b = (let b1 = NodeStoreApply_ensureMeta b in (ma_Name (the (ab_Meta b1)), b1))"

definition NodeStoreApply :: "string \<Rightarrow> string \<Rightarrow> ('t, 'r) NodeStoreApplyConfiguration" where
  "NodeStoreApply name namespace =
     NodeStoreApply_WithAPIVersion ''setera.com/v1'' (NodeStoreApply_WithKind ''NodeStore'' (NodeStoreApply_WithNamespace namespace (NodeStoreApply_WithName name
       \<lparr>ab_Kind = None, ab_APIVersion = None, ab_Meta = None, oa_Spec = None, oa_Status = None\<rparr>)))"

subsection \<open>utils.go\<close>

datatype apply_kind =
    AK_NodeInfo | AK_NodeStore | AK_NodeStoreSpec | AK_NodeStoreStatus | AK_Pod_Info | AK_Tenant | AK_TenantInfra | AK_TenantSpec | AK_TenantStatus

definition WithKind :: "string \<Rightarrow> GroupVersionKind" where
  "WithKind k = \<lparr>gvk_Group = fst SchemeGroupVersion, gvk_Version = snd SchemeGroupVersion, gvk_Kind = k\<rparr>"

definition apply_kinds :: "(GroupVersionKind \<times> apply_kind) list" where
  "apply_kinds = [(WithKind ''NodeInfo'', AK_NodeInfo), (WithKind ''NodeStore'', AK_NodeStore), (WithKind ''NodeStoreSpec'', AK_NodeStoreSpec),
     (WithKind ''NodeStoreStatus'', AK_NodeStoreStatus), (WithKind ''Pod_Info'', AK_Pod_Info), (WithKind ''Tenant'', AK_Tenant),
     (WithKind ''TenantInfra'', AK_TenantInfra), (WithKind ''TenantSpec'', AK_TenantSpec), (WithKind ''TenantStatus'', AK_TenantStatus)]"

text \<open>The type of configuration for a kind, an empty one of which is returned; nil when there is none.\<close>

definition ForKind :: "GroupVersionKind \<Rightarrow> apply_kind option" where
  "ForKind kind = map_of apply_kinds kind"

subsection \<open>Chains of calls\<close>

text \<open>What can be called on the configuration of an object, \<open>'p\<close> and \<open>'u\<close> being the configurations of its two parts.\<close>

datatype ('t, 'r, 'p, 'u) apply_call =
    CallKind string
  | CallAPIVersion string
  | CallName string
  | CallGenerateName string
  | CallNamespace string
  | CallUID string
  | CallResourceVersion string
  | CallGeneration int
  | CallCreationTimestamp 't
  | CallDeletionTimestamp 't
  | CallDeletionGracePeriodSeconds int
  | CallLabels "(string \<times> string) list"
  | CallAnnotations "(string \<times> string) list"
  | CallOwnerReferences "'r option list"
  | CallFinalizers "string list"
  | CallSpec "'p option"
  | CallStatus "'u option"

fun TenantApply_do :: "('t, 'r, TenantSpecApplyConfiguration, 'c TenantStatusApplyConfiguration) apply_call \<Rightarrow> ('t, 'r, 'c) TenantApplyConfiguration \<Rightarrow> ('t, 'r, 'c) TenantApplyConfiguration option" where
  "TenantApply_do (CallKind v) b = Some (TenantApply_WithKind v b)"
| "TenantApply_do (CallAPIVersion v) b = Some (TenantApply_WithAPIVersion v b)"
| "TenantApply_do (CallName v) b = Some (TenantApply_WithName v b)"
| "TenantApply_do (CallGenerateName v) b = Some (TenantApply_WithGenerateName v b)"
| "TenantApply_do (CallNamespace v) b = Some (TenantApply_WithNamespace v b)"
| "TenantApply_do (CallUID v) b = Some (TenantApply_WithUID v b)"
| "TenantApply_do (CallResourceVersion v) b = Some (TenantApply_WithResourceVersion v b)"
| "TenantApply_do (CallGeneration v) b = Some (TenantApply_WithGeneration v b)"
| "TenantApply_do (CallCreationTimestamp v) b = Some (TenantApply_WithCreationTimestamp v b)"
| "TenantApply_do (CallDeletionTimestamp v) b = Some (TenantApply_WithDeletionTimestamp v b)"
| "TenantApply_do (CallDeletionGracePeriodSeconds v) b = Some (TenantApply_WithDeletionGracePeriodSeconds v b)"
| "TenantApply_do (CallLabels v) b = Some (TenantApply_WithLabels v b)"
| "TenantApply_do (CallAnnotations v) b = Some (TenantApply_WithAnnotations v b)"
| "TenantApply_do (CallFinalizers v) b = Some (TenantApply_WithFinalizers v b)"
| "TenantApply_do (CallSpec v) b = Some (TenantApply_WithSpec v b)"
| "TenantApply_do (CallStatus v) b = Some (TenantApply_WithStatus v b)"
| "TenantApply_do (CallOwnerReferences v) b = TenantApply_WithOwnerReferences v b"

fun NodeStoreApply_do :: "('t, 'r, NodeStoreSpecApplyConfiguration, NodeStoreStatusApplyConfiguration) apply_call \<Rightarrow> ('t, 'r) NodeStoreApplyConfiguration \<Rightarrow> ('t, 'r) NodeStoreApplyConfiguration option" where
  "NodeStoreApply_do (CallKind v) b = Some (NodeStoreApply_WithKind v b)"
| "NodeStoreApply_do (CallAPIVersion v) b = Some (NodeStoreApply_WithAPIVersion v b)"
| "NodeStoreApply_do (CallName v) b = Some (NodeStoreApply_WithName v b)"
| "NodeStoreApply_do (CallGenerateName v) b = Some (NodeStoreApply_WithGenerateName v b)"
| "NodeStoreApply_do (CallNamespace v) b = Some (NodeStoreApply_WithNamespace v b)"
| "NodeStoreApply_do (CallUID v) b = Some (NodeStoreApply_WithUID v b)"
| "NodeStoreApply_do (CallResourceVersion v) b = Some (NodeStoreApply_WithResourceVersion v b)"
| "NodeStoreApply_do (CallGeneration v) b = Some (NodeStoreApply_WithGeneration v b)"
| "NodeStoreApply_do (CallCreationTimestamp v) b = Some (NodeStoreApply_WithCreationTimestamp v b)"
| "NodeStoreApply_do (CallDeletionTimestamp v) b = Some (NodeStoreApply_WithDeletionTimestamp v b)"
| "NodeStoreApply_do (CallDeletionGracePeriodSeconds v) b = Some (NodeStoreApply_WithDeletionGracePeriodSeconds v b)"
| "NodeStoreApply_do (CallLabels v) b = Some (NodeStoreApply_WithLabels v b)"
| "NodeStoreApply_do (CallAnnotations v) b = Some (NodeStoreApply_WithAnnotations v b)"
| "NodeStoreApply_do (CallFinalizers v) b = Some (NodeStoreApply_WithFinalizers v b)"
| "NodeStoreApply_do (CallSpec v) b = Some (NodeStoreApply_WithSpec v b)"
| "NodeStoreApply_do (CallStatus v) b = Some (NodeStoreApply_WithStatus v b)"
| "NodeStoreApply_do (CallOwnerReferences v) b = NodeStoreApply_WithOwnerReferences v b"

primrec chain :: "('call \<Rightarrow> 'b \<Rightarrow> 'b option) \<Rightarrow> 'call list \<Rightarrow> 'b \<Rightarrow> 'b option" where
  "chain f [] b = Some b"
| "chain f (c # cs) b = (case f c b of None \<Rightarrow> None | Some b1 \<Rightarrow> chain f cs b1)"

text \<open>The reference: the value of the last call of a kind, and all values of the calls of a kind.\<close>

definition last_call :: "('call \<Rightarrow> 'v option) \<Rightarrow> 'v option \<Rightarrow> 'call list \<Rightarrow> 'v option" where
  "last_call f d cs = (case rev (List.map_filter f cs) of [] \<Rightarrow> d | v # _ \<Rightarrow> Some v)"

definition all_calls :: "('call \<Rightarrow> 'v list) \<Rightarrow> 'call list \<Rightarrow> 'v list" where
  "all_calls f cs = concat (map f cs)"

definition entries_map :: "(string \<times> 'v) list \<Rightarrow> (string \<rightharpoonup> 'v) option" where
  "entries_map es = (if es = [] then None else Some (map_of (rev es)))"

definition meta_of :: "string \<Rightarrow> string \<Rightarrow> ('t, 'r, 'p, 'u) apply_call list \<Rightarrow> ('t, 'r) ObjectMetaApplyConfiguration" where
  "meta_of name namespace cs =
     \<lparr>ma_Name = last_call (\<lambda>c. case c of CallName v \<Rightarrow> Some v | _ \<Rightarrow> None) (Some name) cs,
      ma_GenerateName = last_call (\<lambda>c. case c of CallGenerateName v \<Rightarrow> Some v | _ \<Rightarrow> None) None cs,
      ma_Namespace = last_call (\<lambda>c. case c of CallNamespace v \<Rightarrow> Some v | _ \<Rightarrow> None) (Some namespace) cs,
      ma_UID = last_call (\<lambda>c. case c of CallUID v \<Rightarrow> Some v | _ \<Rightarrow> None) None cs,
      ma_ResourceVersion = last_call (\<lambda>c. case c of CallResourceVersion v \<Rightarrow> Some v | _ \<Rightarrow> None) None cs,
      ma_Generation = last_call (\<lambda>c. case c of CallGeneration v \<Rightarrow> Some v | _ \<Rightarrow> None) None cs,
      ma_CreationTimestamp = last_call (\<lambda>c. case c of CallCreationTimestamp v \<Rightarrow> Some v | _ \<Rightarrow> None) None cs,
      ma_DeletionTimestamp = last_call (\<lambda>c. case c of CallDeletionTimestamp v \<Rightarrow> Some v | _ \<Rightarrow> None) None cs,
      ma_DeletionGracePeriodSeconds = last_call (\<lambda>c. case c of CallDeletionGracePeriodSeconds v \<Rightarrow> Some v | _ \<Rightarrow> None) None cs,
      ma_Labels = entries_map (all_calls (\<lambda>c. case c of CallLabels v \<Rightarrow> v | _ \<Rightarrow> []) cs),
      ma_Annotations = entries_map (all_calls (\<lambda>c. case c of CallAnnotations v \<Rightarrow> v | _ \<Rightarrow> []) cs),
      ma_OwnerReferences = map the (all_calls (\<lambda>c. case c of CallOwnerReferences v \<Rightarrow> v | _ \<Rightarrow> []) cs),
      ma_Finalizers = all_calls (\<lambda>c. case c of CallFinalizers v \<Rightarrow> v | _ \<Rightarrow> []) cs\<rparr>"

definition owners_given :: "('t, 'r, 'p, 'u) apply_call list \<Rightarrow> 'r option list" where
  "owners_given cs = all_calls (\<lambda>c. case c of CallOwnerReferences v \<Rightarrow> v | _ \<Rightarrow> []) cs"

definition spec_given :: "('t, 'r, 'p, 'u) apply_call list \<Rightarrow> 'p option" where
  "spec_given cs = (case last_call (\<lambda>c. case c of CallSpec v \<Rightarrow> Some v | _ \<Rightarrow> None) None cs of None \<Rightarrow> None | Some v \<Rightarrow> v)"

definition status_given :: "('t, 'r, 'p, 'u) apply_call list \<Rightarrow> 'u option" where
  "status_given cs = (case last_call (\<lambda>c. case c of CallStatus v \<Rightarrow> Some v | _ \<Rightarrow> None) None cs of None \<Rightarrow> None | Some v \<Rightarrow> v)"

definition kind_given :: "string \<Rightarrow> ('t, 'r, 'p, 'u) apply_call list \<Rightarrow> string option" where
  "kind_given k cs = last_call (\<lambda>c. case c of CallKind v \<Rightarrow> Some v | _ \<Rightarrow> None) (Some k) cs"

definition api_given :: "('t, 'r, 'p, 'u) apply_call list \<Rightarrow> string option" where
  "api_given cs = last_call (\<lambda>c. case c of CallAPIVersion v \<Rightarrow> Some v | _ \<Rightarrow> None) (Some ''setera.com/v1'') cs"

lemma add_values_eq: "add_values xs vs = (if None \<in> set vs then None else Some (xs @ map the vs))"
  by (induction vs arbitrary: xs) (auto split: option.splits)

lemma fold_snoc: "fold (\<lambda>v xs. xs @ [v]) vs xs = xs @ vs"
  by (induction vs arbitrary: xs) simp_all

lemma fold_puts: "fold (\<lambda>(k, v) t. t(k \<mapsto> v)) es t = t ++ map_of (rev es)"
  by (induction es arbitrary: t) (auto simp: map_add_upd)

lemma put_entries_eq: "put_entries (entries_map es) es' = entries_map (es @ es')"
  by (auto simp: put_entries_def entries_map_def fold_puts)

lemma last_call_snoc: "last_call f d (cs @ [c]) = (case f c of None \<Rightarrow> last_call f d cs | Some v \<Rightarrow> Some v)"
  by (simp add: last_call_def List.map_filter_def split: option.splits)

lemma all_calls_snoc: "all_calls f (cs @ [c]) = all_calls f cs @ f c"
  by (simp add: all_calls_def)

lemma calls_nil: "last_call f d [] = d" "all_calls g [] = []" "entries_map [] = None"
  by (simp_all add: last_call_def all_calls_def entries_map_def List.map_filter_def)

lemma chain_snoc: "chain f (cs @ [c]) b = (case chain f cs b of None \<Rightarrow> None | Some b1 \<Rightarrow> f c b1)"
  by (induction cs arbitrary: b) (simp_all split: option.splits)

lemmas call_rules = last_call_snoc all_calls_snoc calls_nil add_values_eq fold_snoc put_entries_eq meta_of_def owners_given_def spec_given_def status_given_def
  kind_given_def api_given_def on_meta_def empty_meta_def Let_def

lemmas TenantApply_rules = TenantApply_def TenantApply_ensureMeta_def TenantApply_WithKind_def TenantApply_WithAPIVersion_def TenantApply_WithName_def TenantApply_WithGenerateName_def TenantApply_WithNamespace_def TenantApply_WithUID_def TenantApply_WithResourceVersion_def TenantApply_WithGeneration_def TenantApply_WithCreationTimestamp_def TenantApply_WithDeletionTimestamp_def TenantApply_WithDeletionGracePeriodSeconds_def TenantApply_WithLabels_def TenantApply_WithAnnotations_def TenantApply_WithOwnerReferences_def TenantApply_WithFinalizers_def TenantApply_WithSpec_def TenantApply_WithStatus_def

lemmas NodeStoreApply_rules = NodeStoreApply_def NodeStoreApply_ensureMeta_def NodeStoreApply_WithKind_def NodeStoreApply_WithAPIVersion_def NodeStoreApply_WithName_def NodeStoreApply_WithGenerateName_def NodeStoreApply_WithNamespace_def NodeStoreApply_WithUID_def NodeStoreApply_WithResourceVersion_def NodeStoreApply_WithGeneration_def NodeStoreApply_WithCreationTimestamp_def NodeStoreApply_WithDeletionTimestamp_def NodeStoreApply_WithDeletionGracePeriodSeconds_def NodeStoreApply_WithLabels_def NodeStoreApply_WithAnnotations_def NodeStoreApply_WithOwnerReferences_def NodeStoreApply_WithFinalizers_def NodeStoreApply_WithSpec_def NodeStoreApply_WithStatus_def

lemma TenantApply_chain:
  "chain TenantApply_do cs (TenantApply name namespace) =
     (if None \<in> set (owners_given cs) then None
      else Some \<lparr>ab_Kind = kind_given ''Tenant'' cs, ab_APIVersion = api_given cs, ab_Meta = Some (meta_of name namespace cs),
                 ta_Spec = spec_given cs, ta_Status = status_given cs\<rparr>)"
proof (induction cs rule: rev_induct)
  case (snoc c cs)
  show ?case unfolding chain_snoc snoc by (cases c) (simp_all add: call_rules TenantApply_rules)
qed (simp add: call_rules TenantApply_rules)

lemma NodeStoreApply_chain:
  "chain NodeStoreApply_do cs (NodeStoreApply name namespace) =
     (if None \<in> set (owners_given cs) then None
      else Some \<lparr>ab_Kind = kind_given ''NodeStore'' cs, ab_APIVersion = api_given cs, ab_Meta = Some (meta_of name namespace cs),
                 oa_Spec = spec_given cs, oa_Status = status_given cs\<rparr>)"
proof (induction cs rule: rev_induct)
  case (snoc c cs)
  show ?case unfolding chain_snoc snoc by (cases c) (simp_all add: call_rules NodeStoreApply_rules)
qed (simp add: call_rules NodeStoreApply_rules)

text \<open>
  C40. A chain of calls on a new configuration of a tenant or of a node store gives what the comments on the methods promise: it panics exactly when nil is passed as an owner
  reference; otherwise a field that is set has the value of the last call, or the one it was made with, and is absent when never set; labels and annotations are the
  entries of all calls with later ones overwriting earlier ones; owner references and finalizers are those of all calls in their order.
\<close>

theorem apply_chain_reference:
  "chain TenantApply_do cs (TenantApply name namespace) =
     (if None \<in> set (owners_given cs) then None
      else Some \<lparr>ab_Kind = kind_given ''Tenant'' cs, ab_APIVersion = api_given cs, ab_Meta = Some (meta_of name namespace cs),
                 ta_Spec = spec_given cs, ta_Status = status_given cs\<rparr>) \<and>
   chain NodeStoreApply_do ds (NodeStoreApply name namespace) =
     (if None \<in> set (owners_given ds) then None
      else Some \<lparr>ab_Kind = kind_given ''NodeStore'' ds, ab_APIVersion = api_given ds, ab_Meta = Some (meta_of name namespace ds),
                 oa_Spec = spec_given ds, oa_Status = status_given ds\<rparr>)"
  by (simp only: TenantApply_chain NodeStoreApply_chain simp_thms)

text \<open>The same for the parts: nil panics, values are appended, and entries are put over those that are there.\<close>

lemma appending_parts:
  "TenantInfraApply_WithPods ps b = (if None \<in> set ps then None else Some (b\<lparr>ia_Pods := ia_Pods b @ map the ps\<rparr>))"
  "TenantStatusApply_WithAssignedNodes ns u = (if None \<in> set ns then None else Some (u\<lparr>ua_AssignedNodes := ua_AssignedNodes u @ map the ns\<rparr>))"
  "TenantStatusApply_WithConditions cs u = (if None \<in> set cs then None else Some (u\<lparr>ua_Conditions := ua_Conditions u @ map the cs\<rparr>))"
  "TenantStatusApply_WithAwaitingNodeConfiguration ws u = u\<lparr>ua_AwaitingNodeConfiguration := ua_AwaitingNodeConfiguration u @ ws\<rparr>"
  by (simp_all add: TenantInfraApply_WithPods_def TenantStatusApply_WithAssignedNodes_def TenantStatusApply_WithConditions_def
      TenantStatusApply_WithAwaitingNodeConfiguration_def add_values_eq fold_snoc)

lemma fold_entries: "entries_map es = m \<Longrightarrow> fold (\<lambda>e m. put_entries m e) ess m = entries_map (es @ concat ess)"
  by (induction ess arbitrary: es m) (auto simp: put_entries_eq)

lemma putting_parts:
  "qa_Selectors (fold NodeStoreSpecApply_WithSelectors ess NodeStoreSpecApply) = entries_map (concat ess)"
  "wa_Tenants (fold NodeStoreStatusApply_WithTenants tss NodeStoreStatusApply) = entries_map (concat tss)"
proof -
  have "qa_Selectors (fold NodeStoreSpecApply_WithSelectors ess b) = fold (\<lambda>e m. put_entries m e) ess (qa_Selectors b)" for b
    by (induction ess arbitrary: b) (simp_all add: NodeStoreSpecApply_WithSelectors_def)
  then show "qa_Selectors (fold NodeStoreSpecApply_WithSelectors ess NodeStoreSpecApply) = entries_map (concat ess)"
    using fold_entries [of "[]" None ess] by (simp add: NodeStoreSpecApply_def calls_nil)
  have "wa_Tenants (fold NodeStoreStatusApply_WithTenants tss b) = fold (\<lambda>e m. put_entries m e) tss (wa_Tenants b)" for b
    by (induction tss arbitrary: b) (simp_all add: NodeStoreStatusApply_WithTenants_def)
  then show "wa_Tenants (fold NodeStoreStatusApply_WithTenants tss NodeStoreStatusApply) = entries_map (concat tss)"
    using fold_entries [of "[]" None tss] by (simp add: NodeStoreStatusApply_def calls_nil)
qed

text \<open>The configuration that states all of a tenant infrastructure has every field of it.\<close>

definition infra_apply :: "TenantInfra \<Rightarrow> TenantInfraApplyConfiguration option" where
  "infra_apply t =
     TenantInfraApply_WithPods (map (\<lambda>p. Some (Pod_InfoApply_WithIP (pi_IP p) (Pod_InfoApply_WithName (pi_Name p) Pod_InfoApply))) (ti_Pods t))
       (TenantInfraApply_WithBRIDGE_MAC (ti_BRIDGE_MAC t) (TenantInfraApply_WithBRIDGE_IP (ti_BRIDGE_IP t) (TenantInfraApply_WithBRIDGE_NAME (ti_BRIDGE_NAME t)
       (TenantInfraApply_WithVTEP_MAC (ti_VTEP_MAC t) (TenantInfraApply_WithVTEP_IP (ti_VTEP_IP t) (TenantInfraApply_WithVNI (ti_VNI t)
       (TenantInfraApply_WithVTEP_NAME (ti_VTEP_NAME t) (TenantInfraApply_WithTenantCIDR (ti_TenantCIDR t) (TenantInfraApply_WithName (ti_Name t) TenantInfraApply)))))))))"

definition infra_stated :: "TenantInfraApplyConfiguration \<Rightarrow> TenantInfra" where
  "infra_stated a = \<lparr>ti_Name = the (ia_Name a), ti_TenantCIDR = the (ia_TenantCIDR a), ti_VTEP_NAME = the (ia_VTEP_NAME a), ti_VNI = the (ia_VNI a),
     ti_VTEP_IP = the (ia_VTEP_IP a), ti_VTEP_MAC = the (ia_VTEP_MAC a), ti_BRIDGE_NAME = the (ia_BRIDGE_NAME a), ti_BRIDGE_IP = the (ia_BRIDGE_IP a),
     ti_BRIDGE_MAC = the (ia_BRIDGE_MAC a), ti_Pods = map (\<lambda>p. \<lparr>pi_Name = the (pa_Pod_Name p), pi_IP = the (pa_IP p)\<rparr>) (ia_Pods a)\<rparr>"

lemmas infra_rules = TenantInfraApply_def Pod_InfoApply_def Pod_InfoApply_WithIP_def Pod_InfoApply_WithName_def TenantInfraApply_WithBRIDGE_MAC_def
  TenantInfraApply_WithBRIDGE_IP_def TenantInfraApply_WithBRIDGE_NAME_def TenantInfraApply_WithVTEP_MAC_def TenantInfraApply_WithVTEP_IP_def
  TenantInfraApply_WithVNI_def TenantInfraApply_WithVTEP_NAME_def TenantInfraApply_WithTenantCIDR_def TenantInfraApply_WithName_def

lemma pod_eta: "(\<lambda>x. \<lparr>pi_Name = pi_Name x, pi_IP = pi_IP x\<rparr>) = id"
  by (rule ext) simp

lemma infra_apply_stated: "map_option infra_stated (infra_apply t) = Some t"
  by (auto simp: infra_apply_def appending_parts infra_rules infra_stated_def comp_def pod_eta)

lemma ForKind_some: "ForKind k \<noteq> None \<longleftrightarrow> k \<in> WithKind ` {''NodeInfo'', ''NodeStore'', ''NodeStoreSpec'', ''NodeStoreStatus'', ''Pod_Info'', ''Tenant'',
    ''TenantInfra'', ''TenantSpec'', ''TenantStatus''}"
  unfolding ForKind_def map_of_eq_None_iff by (simp add: apply_kinds_def)

lemma GetName_given:
  "fst (TenantApply_GetName (TenantApply name namespace)) = Some name" "fst (NodeStoreApply_GetName (NodeStoreApply name namespace)) = Some name"
  by (simp_all add: TenantApply_GetName_def NodeStoreApply_GetName_def TenantApply_rules NodeStoreApply_rules on_meta_def)

end
