(* ===== verification/Registry.thy ===== *)
theory Registry
  imports Network_Manager
begin

text \<open>
  The default managers: package variables of \<open>pkg/network/arp\<close>, \<open>fdb\<close>, \<open>route\<close>, \<open>policy\<close>, \<open>subnet\<close> and \<open>netcfg\<close> that the packages
  implementing them set in their \<open>init\<close> functions, before \<open>main\<close> runs. A panic is \<open>None\<close>. That \<open>iptables.NewWithProtocol\<close> finds the tool is the
  result \<open>string + 'i\<close> of each of its two calls.
\<close>

subsection \<open>Package variables\<close>

datatype 'i kernel_manager =
    NetlinkARP
  | NetlinkFDB
  | NetlinkRoute
  | TenantPolicies 'i
  | NodePolicies 'i

record 'i registry =
  rg_ARP :: "'i kernel_manager option"
  rg_FDB :: "'i kernel_manager option"
  rg_Route :: "'i kernel_manager option"
  rg_TenantPolicy :: "'i kernel_manager option"
  rg_NodeNetwork :: "'i kernel_manager option"
  rg_Subnet :: "trie_manager option"
  rg_LinkAPI :: bool

definition no_managers :: "'i registry" where
  "no_managers = \<lparr>rg_ARP = None, rg_FDB = None, rg_Route = None, rg_TenantPolicy = None, rg_NodeNetwork = None, rg_Subnet = None, rg_LinkAPI = False\<rparr>"

definition RegisterARPManager :: "'i kernel_manager option \<Rightarrow> 'i registry \<Rightarrow> 'i registry option" where
  "RegisterARPManager mgr r = (if mgr = None then None else Some (r\<lparr>rg_ARP := mgr\<rparr>))"

definition RegisterFDBManager :: "'i kernel_manager option \<Rightarrow> 'i registry \<Rightarrow> 'i registry option" where
  "RegisterFDBManager mgr r = (if mgr = None then None else Some (r\<lparr>rg_FDB := mgr\<rparr>))"

definition RegisterDefaultRouteManager :: "'i kernel_manager option \<Rightarrow> 'i registry \<Rightarrow> 'i registry option" where
  "RegisterDefaultRouteManager mgr r = (if mgr = None then None else Some (r\<lparr>rg_Route := mgr\<rparr>))"

definition RegisterTenantPolicyManager :: "'i kernel_manager option \<Rightarrow> 'i registry \<Rightarrow> 'i registry option" where
  "RegisterTenantPolicyManager mgr r = (if mgr = None then None else Some (r\<lparr>rg_TenantPolicy := mgr\<rparr>))"

definition RegisterNodeNetworkManager :: "'i kernel_manager option \<Rightarrow> 'i registry \<Rightarrow> 'i registry option" where
  "RegisterNodeNetworkManager mgr r = (if mgr = None then None else Some (r\<lparr>rg_NodeNetwork := mgr\<rparr>))"

definition RegisterSubnetManager :: "trie_manager option \<Rightarrow> 'i registry \<Rightarrow> 'i registry option" where
  "RegisterSubnetManager mgr r = (if mgr = None then None else Some (r\<lparr>rg_Subnet := mgr\<rparr>))"

definition SetLinkAPI :: "bool \<Rightarrow> 'i registry \<Rightarrow> 'i registry" where
  "SetLinkAPI linkAPI r = r\<lparr>rg_LinkAPI := linkAPI\<rparr>"

definition arp_Manager :: "'i registry \<Rightarrow> 'i kernel_manager option" where "arp_Manager r = rg_ARP r"
definition fdb_Manager :: "'i registry \<Rightarrow> 'i kernel_manager option" where "fdb_Manager r = rg_FDB r"
definition route_Manager :: "'i registry \<Rightarrow> 'i kernel_manager option" where "route_Manager r = rg_Route r"
definition policy_Manager :: "'i registry \<Rightarrow> 'i kernel_manager option" where "policy_Manager r = rg_TenantPolicy r"
definition NodeManager :: "'i registry \<Rightarrow> 'i kernel_manager option" where "NodeManager r = rg_NodeNetwork r"
definition subnet_Manager :: "'i registry \<Rightarrow> trie_manager option" where "subnet_Manager r = rg_Subnet r"

subsection \<open>Initialisation\<close>

definition NewARPManager :: "'i kernel_manager" where "NewARPManager = NetlinkARP"
definition NewFDBManager :: "'i kernel_manager" where "NewFDBManager = NetlinkFDB"
definition NewNetlinkRouteManager :: "'i kernel_manager" where "NewNetlinkRouteManager = NetlinkRoute"
definition NewTenantPolicyManager :: "'i \<Rightarrow> 'i kernel_manager" where "NewTenantPolicyManager handle = TenantPolicies handle"
definition NewNodeNetworkManagerWithHandle :: "'i \<Rightarrow> 'i kernel_manager" where "NewNodeNetworkManagerWithHandle handle = NodePolicies handle"

definition NewV4 :: "string + 'i \<Rightarrow> string + 'i kernel_manager" where
  "NewV4 ipt = (case ipt of Inl err \<Rightarrow> Inl err | Inr h \<Rightarrow> Inr (NewTenantPolicyManager h))"

definition NewNodeNetworkManager :: "string + 'i \<Rightarrow> string + 'i kernel_manager" where
  "NewNodeNetworkManager ipt = (case ipt of Inl err \<Rightarrow> Inl err | Inr h \<Rightarrow> Inr (NewNodeNetworkManagerWithHandle h))"

definition arp_init :: "'i registry \<Rightarrow> 'i registry option" where "arp_init r = RegisterARPManager (Some NewARPManager) r"
definition fdb_init :: "'i registry \<Rightarrow> 'i registry option" where "fdb_init r = RegisterFDBManager (Some NewFDBManager) r"
definition route_init :: "'i registry \<Rightarrow> 'i registry option" where "route_init r = RegisterDefaultRouteManager (Some NewNetlinkRouteManager) r"

definition tenant_init :: "string + 'i \<Rightarrow> 'i registry \<Rightarrow> 'i registry option" where
  "tenant_init ipt r = (case NewV4 ipt of Inl _ \<Rightarrow> None | Inr mgr \<Rightarrow> RegisterTenantPolicyManager (Some mgr) r)"

definition node_init :: "string + 'i \<Rightarrow> 'i registry \<Rightarrow> 'i registry option" where
  "node_init ipt r = (case NewNodeNetworkManager ipt of Inl _ \<Rightarrow> None | Inr mgr \<Rightarrow> RegisterNodeNetworkManager (Some mgr) r)"

text \<open>The package sets its variable to the value that it already has.\<close>

definition netcfg_init :: "'i registry \<Rightarrow> 'i registry option" where
  "netcfg_init r = Some (SetLinkAPI (rg_LinkAPI r) r)"

text \<open>The packages that a program is linked with, in the order in which they are initialised.\<close>

datatype init_package = PkgARP | PkgFDB | PkgRoute | PkgTenantPolicy | PkgNodePolicy | PkgNetcfg

fun package_init :: "string + 'i \<Rightarrow> string + 'i \<Rightarrow> init_package \<Rightarrow> 'i registry \<Rightarrow> 'i registry option" where
  "package_init ti ni PkgARP r = arp_init r"
| "package_init ti ni PkgFDB r = fdb_init r"
| "package_init ti ni PkgRoute r = route_init r"
| "package_init ti ni PkgTenantPolicy r = tenant_init ti r"
| "package_init ti ni PkgNodePolicy r = node_init ni r"
| "package_init ti ni PkgNetcfg r = netcfg_init r"

fun package_inits :: "string + 'i \<Rightarrow> string + 'i \<Rightarrow> init_package list \<Rightarrow> 'i registry \<Rightarrow> 'i registry option" where
  "package_inits ti ni [] r = Some r"
| "package_inits ti ni (p # ps) r = (case package_init ti ni p r of None \<Rightarrow> None | Some r1 \<Rightarrow> package_inits ti ni ps r1)"

text \<open>The imports of \<open>internal/nmanager\<close>, and of \<open>cmd/stub-daemon\<close>, which adds the node policies.\<close>

definition nmanager_packages :: "init_package set" where
  "nmanager_packages = {PkgARP, PkgFDB, PkgRoute, PkgTenantPolicy}"

subsection \<open>What the program finds\<close>

lemmas registry_defs = arp_init_def fdb_init_def route_init_def tenant_init_def node_init_def netcfg_init_def RegisterARPManager_def RegisterFDBManager_def
  RegisterDefaultRouteManager_def RegisterTenantPolicyManager_def RegisterNodeNetworkManager_def NewV4_def NewNodeNetworkManager_def NewARPManager_def
  NewFDBManager_def NewNetlinkRouteManager_def NewTenantPolicyManager_def NewNodeNetworkManagerWithHandle_def SetLinkAPI_def

lemma package_init_field:
  assumes "package_init ti ni p r = Some r1"
  shows "rg_ARP r1 = (if p = PkgARP then Some NetlinkARP else rg_ARP r)" "rg_FDB r1 = (if p = PkgFDB then Some NetlinkFDB else rg_FDB r)"
    "rg_Route r1 = (if p = PkgRoute then Some NetlinkRoute else rg_Route r)" "rg_TenantPolicy r1 = (if p = PkgTenantPolicy then Some (TenantPolicies (projr ti)) else rg_TenantPolicy r)"
    "rg_NodeNetwork r1 = (if p = PkgNodePolicy then Some (NodePolicies (projr ni)) else rg_NodeNetwork r)" "rg_Subnet r1 = rg_Subnet r" "rg_LinkAPI r1 = rg_LinkAPI r"
  using assms by (cases p; auto simp: registry_defs split: sum.splits)+

lemma package_init_panics:
  "package_init ti ni p r = None \<longleftrightarrow> p = PkgTenantPolicy \<and> isl ti \<or> p = PkgNodePolicy \<and> isl ni"
  by (cases p) (auto simp: registry_defs split: sum.splits)

lemma package_inits_panics:
  "package_inits ti ni ps r = None \<longleftrightarrow> PkgTenantPolicy \<in> set ps \<and> isl ti \<or> PkgNodePolicy \<in> set ps \<and> isl ni"
proof (induction ps arbitrary: r)
  case (Cons p ps)
  then show ?case using package_init_panics [of ti ni p r] by (cases "package_init ti ni p r") auto
qed simp

text \<open>
  In whatever order the packages are initialised, each variable is set exactly when its package is linked; the program panics before \<open>main\<close> exactly when a package
  that needs iptables can not open it; the variable of \<open>netcfg\<close> stays nil.
\<close>

lemma package_inits_sets:
  assumes "package_inits ti ni ps r = Some r1"
  shows "r1 = r\<lparr>rg_ARP := (if PkgARP \<in> set ps then Some NetlinkARP else rg_ARP r), rg_FDB := (if PkgFDB \<in> set ps then Some NetlinkFDB else rg_FDB r),
     rg_Route := (if PkgRoute \<in> set ps then Some NetlinkRoute else rg_Route r),
     rg_TenantPolicy := (if PkgTenantPolicy \<in> set ps then Some (TenantPolicies (projr ti)) else rg_TenantPolicy r),
     rg_NodeNetwork := (if PkgNodePolicy \<in> set ps then Some (NodePolicies (projr ni)) else rg_NodeNetwork r)\<rparr>"
  using assms
proof (induction ps arbitrary: r)
  case (Cons p ps)
  obtain r0 where p: "package_init ti ni p r = Some r0" and ps: "package_inits ti ni ps r0 = Some r1" using Cons.prems by (auto split: option.splits)
  note f = package_init_field [OF p]
  show ?case unfolding Cons.IH [OF ps] by (rule registry.equality) (use f in auto)
qed simp

text \<open>\<open>NewNetworkManager\<close> therefore never finds a manager missing, and makes its own subnet manager, since no package registers one.\<close>

lemma network_manager_defaults:
  assumes "nmanager_packages \<subseteq> set ps" "package_inits ti ni ps no_managers = Some r"
  shows "route_Manager r \<noteq> None \<and> arp_Manager r \<noteq> None \<and> fdb_Manager r \<noteq> None \<and> policy_Manager r \<noteq> None \<and> subnet_Manager r = None \<and>
    (NodeManager r \<noteq> None \<longleftrightarrow> PkgNodePolicy \<in> set ps) \<and> \<not> rg_LinkAPI r"
  using assms(1) package_inits_sets [OF assms(2)]
  by (simp add: nmanager_packages_def no_managers_def route_Manager_def arp_Manager_def fdb_Manager_def policy_Manager_def subnet_Manager_def NodeManager_def)

end
