(* ===== verification/Spare_Parts.thy ===== *)
theory Spare_Parts
  imports Kube_Client IP_Trie
begin

text \<open>
  Functions of the repository that no program reaches: printing the trie (\<open>printTree\<close> of \<open>pkg/data/trie/node.go\<close>), the lock file of \<open>pkg/data/persist\<close>
  and the result of \<open>pkg/cni/util.go\<close>. Output is a list of lines, the file system and \<open>encoding/json\<close> are parameters.
\<close>

subsection \<open>The trie as text\<close>

text \<open>The box characters are given by their bytes in UTF-8.\<close>

definition box_tee :: string where "box_tee = [CHR 0xE2, CHR 0x94, CHR 0x9C, CHR 0xE2, CHR 0x94, CHR 0x80, CHR 0xE2, CHR 0x94, CHR 0x80, CHR '' '']"
definition box_end :: string where "box_end = [CHR 0xE2, CHR 0x94, CHR 0x94, CHR 0xE2, CHR 0x94, CHR 0x80, CHR 0xE2, CHR 0x94, CHR 0x80, CHR '' '']"
definition box_bar :: string where "box_bar = [CHR 0xE2, CHR 0x94, CHR 0x82, CHR '' '', CHR '' '', CHR '' '']"

definition bool_text :: "bool \<Rightarrow> string" where "bool_text b = (if b then ''true'' else ''false'')"

definition node_line :: "string \<Rightarrow> bool \<Rightarrow> ipnet \<Rightarrow> bool \<Rightarrow> string \<Rightarrow> string" where
  "node_line pre isTail p al i =
     pre @ (if isTail then box_end else box_tee) @ ipnet_String p @ '' '' @ bool_text al @ '' '' @ i"

definition num_children :: "trie \<Rightarrow> trie \<Rightarrow> nat" where
  "num_children l r = length (filter (\<lambda>c. c \<noteq> Nil) [l, r])"

fun printTree :: "string \<Rightarrow> bool \<Rightarrow> trie \<Rightarrow> string list" where
  "printTree pre isTail Nil = []"
| "printTree pre isTail (TrieNode p al i l r) =
     (let newPrefix = pre @ (if isTail then ''    '' else box_bar); n = num_children l r in
      node_line pre isTail p al i # printTree newPrefix (n = 1) l @ printTree newPrefix (n = 2) r)"

definition PrintTree :: "iptrie \<Rightarrow> string list" where
  "PrintTree t = (if Root t \<noteq> Nil then printTree [] True (Root t) else [])"

fun trie_nodes :: "trie \<Rightarrow> (ipnet \<times> bool \<times> string) list" where
  "trie_nodes Nil = []"
| "trie_nodes (TrieNode p al i l r) = (p, al, i) # trie_nodes l @ trie_nodes r"

text \<open>Every node has its line, in the order of the walk: the line ends with what is said of the node.\<close>

lemma printTree_lines:
  "list_all2 (\<lambda>line (p, al, i). \<exists>pre. line = pre @ ipnet_String p @ '' '' @ bool_text al @ '' '' @ i) (printTree pre isTail t) (trie_nodes t)"
proof (induction t arbitrary: pre isTail)
  case (TrieNode p al i l r)
  have "\<exists>pre'. node_line pre isTail p al i = pre' @ ipnet_String p @ '' '' @ bool_text al @ '' '' @ i"
    by (intro exI [of _ "pre @ (if isTail then box_end else box_tee)"]) (simp add: node_line_def)
  then show ?case using TrieNode by (auto simp: Let_def intro: list_all2_appendI)
qed simp

subsection \<open>The lock file\<close>

text \<open>\<open>os.Stat\<close> gives whether the path is a directory, or an error that says whether the path is missing.\<close>

record ('w, 'm) lock_env =
  lf_Stat :: "string \<Rightarrow> 'w \<Rightarrow> bool \<times> string + bool"
  lf_MkdirAll :: "string \<Rightarrow> 'w \<Rightarrow> string option \<times> 'w"
  lf_New :: "string \<Rightarrow> 'w \<Rightarrow> (string + 'm) \<times> 'w"

definition newFileLock :: "('w, 'm) lock_env \<Rightarrow> string \<Rightarrow> 'w \<Rightarrow> (string + 'm) \<times> 'w" where
  "newFileLock E lockPath w =
     (case lf_Stat E lockPath w of
        Inr True \<Rightarrow> lf_New E (path_Join [lockPath, ''state.lock'']) w
      | Inr False \<Rightarrow> lf_New E lockPath w
      | Inl (True, _) \<Rightarrow>
          (case lf_MkdirAll E (path_Dir lockPath) w of
             (Some e, w1) \<Rightarrow> (Inl e, w1)
           | (None, w1) \<Rightarrow> lf_New E lockPath w1)
      | Inl (False, e) \<Rightarrow> (Inl e, w))"

definition DefineAlloc :: string where "DefineAlloc = ''Total amount of allocations, precise memory statements''"
definition Alternative :: int where "Alternative = 1"

text \<open>A lock is only ever made at the path or, for a directory, in it.\<close>

lemma newFileLock_path:
  assumes "newFileLock E p w = (Inr m, w')"
  obtains w1 where "lf_New E (if lf_Stat E p w = Inr True then path_Join [p, ''state.lock''] else p) w1 = (Inr m, w')"
  using assms by (auto simp: newFileLock_def split: sum.splits bool.splits prod.splits option.splits if_splits)

subsection \<open>The result of the older plugin\<close>

datatype json = JString string | JArray "json list" | JObject "(string \<times> json) list"

definition writeResult :: "(json \<Rightarrow> 'e + 'o) \<Rightarrow> string \<Rightarrow> string \<Rightarrow> 'e + 'o" where
  "writeResult encode ip gw =
     encode (JObject
       [(''cniVersion'', JString ''0.4.0''),
        (''ip'', JArray [JObject [(''version'', JString ''4''), (''ip'', JString (ip @ ''/32'')), (''gateway'', JString gw)]]),
        (''interfaces'', JArray [JObject [(''name'', JString ''eth0'')]])])"

end
