(* ===== verification/Spec2Isabelle.thy ===== *)
theory Spec2Isabelle
  imports Subnet_Properties IPAM_Properties UDS_Transport NM_Properties Dispatcher
    Orchestrator_Properties CNI_Properties Daemon_Properties Plugin_Properties Admission Score_Cache Node_Setup
    Operator_Run Socket_Server Boot_Properties Cache_Safety Informers Setera_Client
    Tenant_Actor Apply_Config Registry Spare_Parts
begin

text \<open>
  A verification of misokube, a multi-tenant pod network for Kubernetes written in Go. Every node runs a daemon
  that gives each tenant a subnet of the node's network, a bridge, a VXLAN endpoint and an iptables chain, and each
  pod an address of its tenant's subnet. The container runtime reaches the daemon through a CNI plugin and a Unix socket; an
  orchestrator assigns tenants to nodes; the nodes learn about each other through the node stores in the
  Kubernetes API; a webhook admits pods and tenants. The theories below translate the program function by function and
  keep its names; each one opens with what it holds.

  \<^bold>\<open>Conventions.\<close> A struct is a record, an enumeration a datatype, a machine word a word of its width where overflow or bits
  matter, a byte slice a list of bytes with nil as the empty list, a Go map a function to options or, where the
  order of \<open>range\<close> shows, an association list in that order. A fallible function returns a sum or an option,
  a panic is a value of its error type. State is passed explicitly; what is outside the repository (netlink, iptables,
  sysctl, client-go, \<open>encoding/json\<close>, the hash functions) is a record of functions given to the definitions, and the theorems
  name as hypotheses or as the assumptions of a locale what they rely on. Loops are structural recursions or folds over the
  data they walk. Three recursions count down a bound: building the trie (\<open>build_fuel\<close> is 33, one more than the bits of an address,
  each level taking one), the retries of an attach (the bound is the one of the code) and the IPv6 parser (eight groups); that the first bound is
  enough for every canonical network is part of the lemmas on building the trie.
  Locks are held over whole operations, so an operation is one step; the interleavings of goroutines are the step
  relations \<open>nm_step\<close>, \<open>disp_run\<close>, \<open>tm_step\<close>, \<open>pool_step\<close> and \<open>actor_step\<close>.

  \<^bold>\<open>Allocation of subnets and addresses.\<close> \<open>Net_IP\<close> has Go's package \<open>net\<close> on bytes, related to bit prefixes. \<open>IP_Trie\<close>
  (\<open>pkg/data/trie\<close>) and \<open>Subnet_Manager\<close> (\<open>pkg/network/subnet\<close>) are the prefix trie and the manager on top of it; \<open>Trie_Invariant\<close>
  and \<open>Subnet_Properties\<close> show that the subnets of tenants are disjoint, that every address is owned or free, that allocation is best fit, how
  expansion and release change the map, and the one state from which a tenant can not be released. \<open>Bitmap_IPAM\<close>
  (\<open>pkg/network/ipam\<close>) is the address manager over 64-bit words; \<open>IPAM_Invariant\<close> and \<open>IPAM_Properties\<close> show that pod addresses are unique and usable,
  first fit, the counts, expansion, release and the leak of a repeated allocation.

  \<^bold>\<open>Kernel objects.\<close> \<open>Kernel\<close> is the interface of netlink; \<open>Devices\<close> (\<open>pkg/network/device\<close>, \<open>backend\<close>) are bridges, VXLAN
  endpoints and veth pairs, with the bounds of names, addresses and VNIs; \<open>Peer_Tables\<close> are neighbours, forwarding entries and routes;
  \<open>Tenant_Policy\<close> (\<open>pkg/network/policy/tenant\<close>) are the iptables chains with an evaluator of chains, the isolation
  theorem, and the way in which truncated chain names break it; \<open>Node_Setup\<close> holds \<open>pkg/network/policy/node\<close> and the older helpers of
  \<open>pkg/network/routing\<close>.

  \<^bold>\<open>Network manager.\<close> \<open>Network_Manager\<close>, \<open>Pod_Ops\<close> and \<open>Peer_Ops\<close> (\<open>internal/nmanager\<close>, \<open>internal/router\<close>) are tenants, pods, peers, expansion and
  the actor of a tenant. \<open>NM_Invariant\<close> proves the invariant of every reachable state under all interleavings of operations and arbitrary
  answers of the kernel; \<open>NM_Demo\<close> has a concrete node for the witnesses; \<open>NM_Properties\<close> shows uniqueness of pod
  addresses over all tenants of the node, rollback, commit, removal, the outcomes of attach and expansion, peers, snapshots and the race of
  two creations. \<open>Tenant_Actor\<close> is the actor as a goroutine with a mailbox of bounded size among its callers: under all interleavings messages are handled
  one at a time and in order, calls return what the call of one step in \<open>Pod_Ops\<close> returns, and the loop empties the mailbox up to a stop. \<open>Registry\<close> is how the default
  managers of the kernel tables reach it: package variables and the \<open>init\<close> functions that set them.

  \<^bold>\<open>Requests of the runtime.\<close> \<open>Wire\<close> and \<open>UDS_Transport\<close> (\<open>pkg/wire\<close>, \<open>pkg/transport/uds\<close>) are framing, the binary codec and the call;
  \<open>Resolver\<close> (\<open>internal/resolver\<close>) finds the tenant of a pod; \<open>CNI_Server\<close> (\<open>internal/daemon/cniserver.go\<close>) serves a connection;
  \<open>CNI_Plugin\<close> (\<open>internal/cniplugin\<close>) is the other end; \<open>Socket_Server\<close> binds and accepts, with the permissions of the socket. \<open>CNI_Properties\<close> and \<open>Plugin_Properties\<close> show that a repeated ADD is not executed twice, that
  binary requests are refused, and ADD from the arguments of the runtime to its output; \<open>Socket_Server\<close> that what the server binds passes the check of a client.

  \<^bold>\<open>Control plane.\<close> \<open>Api_Types\<close> are the custom resources; \<open>Operator_Types\<close> and \<open>Operator_Base\<close> (\<open>pkg/operator\<close>) events, handlers and routing; \<open>Operator_Run\<close> the
  workers of an operator on their shared queue: under the documented behaviour of that queue and all interleavings no item is with two workers and none is lost; \<open>Dispatcher\<close>
  (\<open>internal/dispatcher\<close>) the command queue, which refines a set of tenants; \<open>Orchestrator\<close> and \<open>Orchestrator_Properties\<close> (\<open>internal/orchestrator\<close>) the assignment of
  nodes to zones and its convergence; \<open>Net_Text\<close> the text forms of addresses with their round trips; \<open>Daemon_Operator\<close> and
  \<open>Daemon_Properties\<close> (\<open>internal/daemon\<close>) the mirror of a node into its node store and the peer commands that another node derives
  from it; \<open>Admission\<close> (\<open>internal/webhook\<close>) the decisions of the webhook; \<open>Score_Cache\<close> (\<open>pkg/cache\<close>, \<open>pkg/nodescore\<close>) the node scores.

  \<^bold>\<open>Generated code and shared memory.\<close> \<open>Object_Heap\<close> is memory as far as sharing of slices and maps shows; \<open>Deep_Copy\<close> has every function of
  \<open>zz_generated.deepcopy.go\<close> on it; \<open>Cache_Safety\<close> shows that the copies are independent of the original, translates the reconcile functions of the orchestrator once
  more with pointers into the cache of the informers, and proves that they refine the functions on values and never write to that cache. \<open>Informers\<close>
  (\<open>pkg/generated/informers\<close>, \<open>pkg/generated/listers\<close>) is the factory of shared informers with its invariant: one informer for a type, each run once;
  \<open>Setera_Client\<close> (\<open>pkg/generated/clientset/versioned\<close>) is the clientset behind it. \<open>Apply_Config\<close> (\<open>pkg/generated/applyconfiguration\<close>) has the builders of apply requests with all their methods: a chain of calls
  gives what their comments promise.

  \<^bold>\<open>Programs.\<close> \<open>Kube_Client\<close> (\<open>pkg/k8s\<close>) finds the cluster and the facts of the node; \<open>Entry_Points\<close> are the five programs of \<open>cmd\<close>, each from
  its arguments and environment to the components it runs, and \<open>New\<close> of both operators; \<open>Boot_Properties\<close> shows that a started node is in a state to
  which the theorems on the network manager apply, what a failed start leaves, that \<open>cmd/daemon\<close> changes nothing, and what the other programs do. \<open>Spare_Parts\<close> has what no program reaches: the trie as text, the
  lock file of \<open>pkg/data/persist\<close> and the result of \<open>pkg/cni\<close>.

  \<^bold>\<open>Interfaces.\<close> The contracts between components are locales, each interpreted on the model of its provider: the subnet
  and address managers (\<open>subnet_manager\<close>, \<open>ipam\<close>), codecs (\<open>wire_codec\<close>), the network manager behind the dispatcher and behind the CNI server (\<open>tenant_service\<close>,
  \<open>pod_service\<close>), the pod index (\<open>pod_index\<close>), the snapshots (\<open>snapshot_source\<close>), the API server (\<open>kube_api\<close>, \<open>nodestore_api\<close>, \<open>cluster_api\<close>), the work queue
  (\<open>work_queue\<close>), the file system (\<open>files\<close>), the arrays of a heap (\<open>cells\<close>), what a copy promises (\<open>deep_copy\<close>) and the copies of metadata (\<open>apimachinery\<close>). Where the provider is not part of the repository, the interpretation is a cluster, a queue or a file system
  held in memory.

  \<^bold>\<open>Not modelled.\<close> The fake clientset of \<open>pkg/generated\<close> and the type converter behind it, which serve tests only and consist of calls to the object
  tracker of client-go; the handles around netlink and iptables (\<open>netarp_wrapper.go\<close> and its like, \<open>NetlinkAPI\<close> of \<open>pkg/network/netcfg\<close>), which forward one call each and are
  the kernel that the model takes as a parameter; signals, TLS and log output; the helpers of tests.
\<close>

end
